(* ===== verification/Prelude.thy ===== *)
theory Prelude
  imports Complex_Main "HOL-Library.AList" "HOL-Library.Sublist" "HOL-Library.Char_ord"
begin

text \<open>
  The fragment of the Python runtime that the components share: the exception classes with
  their hierarchy, computations that read and write a world and may raise (the model of an
  \<open>async\<close> body: each primitive call is one \<open>await\<close>), the string methods the code calls,
  and insertion-ordered dictionaries. The collections \<open>io_simps\<close> (how a computation runs)
  and \<open>str_simps\<close> (how the string methods compute) carry the component proofs.
\<close>

named_theorems io_simps
named_theorems str_simps

section \<open>Exceptions\<close>

text \<open>
  \<open>OSError\<close> and its subclasses, \<open>ValueError\<close> and its subclasses, and the classes of
  \<^verbatim>\<open>shared/exceptions.py\<close> that the modelled code raises. \<open>RedisError\<close> is the client
  library's own base class, which does not derive from \<open>OSError\<close>.
\<close>

datatype exc_class =
    OSError | ConnectionError | ConnectionRefusedError | TimeoutError | FileNotFoundError | PermissionError
  | TypeError | ValueError | JSONDecodeError | UnicodeDecodeError | KeyError | IndexError
  | AttributeError | RuntimeError | ImportError | RedisError
  | QueueError | RetryExhaustedError | RepositorySyncError | IndexingTimeoutError
  | HTTPException nat | OtherException string

datatype exn = Exn (exc_cls: exc_class) (exc_msg: string)

fun superclasses :: "exc_class \<Rightarrow> exc_class list" where
  "superclasses ConnectionRefusedError = [ConnectionError, OSError]"
| "superclasses ConnectionError = [OSError]"
| "superclasses TimeoutError = [OSError]"
| "superclasses FileNotFoundError = [OSError]"
| "superclasses PermissionError = [OSError]"
| "superclasses JSONDecodeError = [ValueError]"
| "superclasses UnicodeDecodeError = [ValueError]"
| "superclasses IndexingTimeoutError = []"
| "superclasses c = []"

definition exc_isinstance :: "exn \<Rightarrow> exc_class \<Rightarrow> bool" where
  "exc_isinstance e c \<longleftrightarrow> exc_cls e = c \<or> c \<in> set (superclasses (exc_cls e))"

lemma exc_isinstance_Exn [simp]:
  "exc_isinstance (Exn k m) c \<longleftrightarrow> k = c \<or> c \<in> set (superclasses k)"
  by (simp add: exc_isinstance_def)

text \<open>\<open>type(e).__name__\<close>; the classes of the Redis client go by one name here.\<close>

fun class_name :: "exc_class \<Rightarrow> string" where
  "class_name OSError = ''OSError''"
| "class_name ConnectionError = ''ConnectionError''"
| "class_name ConnectionRefusedError = ''ConnectionRefusedError''"
| "class_name TimeoutError = ''TimeoutError''"
| "class_name FileNotFoundError = ''FileNotFoundError''"
| "class_name PermissionError = ''PermissionError''"
| "class_name TypeError = ''TypeError''"
| "class_name ValueError = ''ValueError''"
| "class_name JSONDecodeError = ''JSONDecodeError''"
| "class_name UnicodeDecodeError = ''UnicodeDecodeError''"
| "class_name KeyError = ''KeyError''"
| "class_name IndexError = ''IndexError''"
| "class_name AttributeError = ''AttributeError''"
| "class_name RuntimeError = ''RuntimeError''"
| "class_name ImportError = ''ImportError''"
| "class_name RedisError = ''RedisError''"
| "class_name QueueError = ''QueueError''"
| "class_name RetryExhaustedError = ''RetryExhaustedError''"
| "class_name RepositorySyncError = ''RepositorySyncError''"
| "class_name IndexingTimeoutError = ''IndexingTimeoutError''"
| "class_name (HTTPException n) = ''HTTPException''"
| "class_name (OtherException s) = s"

section \<open>Computations over a world that may raise\<close>

type_synonym 'a result = "exn + 'a"
type_synonym ('s, 'a) io = "'s \<Rightarrow> 'a result \<times> 's"

definition io_ret :: "'a \<Rightarrow> ('s, 'a) io" where
  "io_ret x = (\<lambda>s. (Inr x, s))"

definition io_raise :: "exn \<Rightarrow> ('s, 'a) io" where
  "io_raise e = (\<lambda>s. (Inl e, s))"

definition io_bind :: "('s, 'a) io \<Rightarrow> ('a \<Rightarrow> ('s, 'b) io) \<Rightarrow> ('s, 'b) io" where
  "io_bind m f = (\<lambda>s. case m s of (Inl e, s') \<Rightarrow> (Inl e, s') | (Inr x, s') \<Rightarrow> f x s')"

definition io_then :: "('s, 'a) io \<Rightarrow> ('s, 'b) io \<Rightarrow> ('s, 'b) io" where
  "io_then m n = io_bind m (\<lambda>_. n)"

text \<open>\<open>try: m except: h\<close>; a handler that does not catch re-raises.\<close>

definition io_try :: "('s, 'a) io \<Rightarrow> (exn \<Rightarrow> ('s, 'a) io) \<Rightarrow> ('s, 'a) io" where
  "io_try m h = (\<lambda>s. case m s of (Inl e, s') \<Rightarrow> h e s' | (Inr x, s') \<Rightarrow> (Inr x, s'))"

text \<open>\<open>try: m finally: f\<close>; an exception of \<open>f\<close> replaces the outcome of \<open>m\<close>.\<close>

definition io_finally :: "('s, 'a) io \<Rightarrow> ('s, unit) io \<Rightarrow> ('s, 'a) io" where
  "io_finally m f = (\<lambda>s. case m s of (r, s') \<Rightarrow>
     (case f s' of (Inl e, s'') \<Rightarrow> (Inl e, s'') | (Inr _, s'') \<Rightarrow> (r, s'')))"

definition io_of_result :: "'a result \<Rightarrow> ('s, 'a) io" where
  "io_of_result r = (\<lambda>s. (r, s))"

fun io_fold :: "('b \<Rightarrow> 'a \<Rightarrow> ('s, 'b) io) \<Rightarrow> 'b \<Rightarrow> 'a list \<Rightarrow> ('s, 'b) io" where
  "io_fold f acc [] = io_ret acc"
| "io_fold f acc (x # xs) = io_bind (f acc x) (\<lambda>acc'. io_fold f acc' xs)"

definition io_when :: "bool \<Rightarrow> ('s, unit) io \<Rightarrow> ('s, unit) io" where
  "io_when b m = (if b then m else io_ret ())"

lemma io_ret_run [io_simps]: "io_ret x s = (Inr x, s)"
  by (simp add: io_ret_def)

lemma io_raise_run [io_simps]: "io_raise e s = (Inl e, s)"
  by (simp add: io_raise_def)

lemma io_bind_run [io_simps]:
  "io_bind m f s = (case m s of (Inl e, s') \<Rightarrow> (Inl e, s') | (Inr x, s') \<Rightarrow> f x s')"
  by (simp add: io_bind_def)

lemma io_then_run [io_simps]:
  "io_then m n s = (case m s of (Inl e, s') \<Rightarrow> (Inl e, s') | (Inr x, s') \<Rightarrow> n s')"
  by (simp add: io_then_def io_bind_def)

lemma io_try_run [io_simps]:
  "io_try m h s = (case m s of (Inl e, s') \<Rightarrow> h e s' | (Inr x, s') \<Rightarrow> (Inr x, s'))"
  by (simp add: io_try_def)

lemma io_of_result_run [io_simps]: "io_of_result r s = (r, s)"
  by (simp add: io_of_result_def)

lemma io_when_run [io_simps]: "io_when b m s = (if b then m s else (Inr (), s))"
  by (simp add: io_when_def io_ret_def)

lemma io_bind_assoc: "io_bind (io_bind m f) g = io_bind m (\<lambda>x. io_bind (f x) g)"
  by (auto simp: io_bind_def fun_eq_iff split: prod.splits sum.splits)

lemma io_bind_Inr:
  "io_bind m f s = (Inr y, s2) \<Longrightarrow> \<exists>x s1. m s = (Inr x, s1) \<and> f x s1 = (Inr y, s2)"
  by (auto simp: io_bind_def split: prod.splits sum.splits)

lemma io_then_Inr: "m s = (Inr x, s') \<Longrightarrow> io_then m n s = n s'"
  by (simp add: io_then_run)

section \<open>String methods\<close>

definition str_startswith :: "string \<Rightarrow> string \<Rightarrow> bool" where
  "str_startswith s p \<longleftrightarrow> take (length p) s = p"

definition str_endswith :: "string \<Rightarrow> string \<Rightarrow> bool" where
  "str_endswith s p \<longleftrightarrow> length p \<le> length s \<and> drop (length s - length p) s = p"

lemma str_startswith_prefix: "str_startswith s p \<longleftrightarrow> prefix p s"
  unfolding str_startswith_def by (metis append_eq_conv_conj prefix_def take_is_prefix)

lemma str_endswith_suffix: "str_endswith s p \<longleftrightarrow> suffix p s"
  unfolding str_endswith_def
  by (metis append_take_drop_id diff_le_self length_append le_add2 suffix_def
      append_eq_conv_conj add_diff_cancel_right')

text \<open>\<open>p in s\<close> for strings.\<close>

fun str_contains :: "string \<Rightarrow> string \<Rightarrow> bool" where
  "str_contains p [] = (p = [])"
| "str_contains p (c # cs) = (str_startswith (c # cs) p \<or> str_contains p cs)"

text \<open>\<open>s.replace(old, new)\<close> for a non-empty \<open>old\<close>: left to right, occurrences do not overlap.\<close>

function str_replace :: "string \<Rightarrow> string \<Rightarrow> string \<Rightarrow> string" where
  "str_replace old new [] = []"
| "str_replace old new (c # cs) =
     (if old \<noteq> [] \<and> str_startswith (c # cs) old
      then new @ str_replace old new (drop (length old) (c # cs))
      else c # str_replace old new cs)"
  by pat_completeness auto
termination
  by (relation "measure (\<lambda>(old, new, s). length s)") (auto simp: length_greater_0_conv)

text \<open>\<open>s.replace(c, new)\<close> for a one-character pattern.\<close>

definition str_replace_char :: "char \<Rightarrow> string \<Rightarrow> string \<Rightarrow> string" where
  "str_replace_char c new s = concat (map (\<lambda>x. if x = c then new else [x]) s)"

lemma str_replace_single: "str_replace [c] new s = str_replace_char c new s"
  by (induction s) (auto simp: str_replace_char_def str_startswith_def)

text \<open>\<open>s.split(c)\<close>: always at least one piece.\<close>

fun str_split :: "char \<Rightarrow> string \<Rightarrow> string list" where
  "str_split c [] = [[]]"
| "str_split c (x # xs) =
     (if x = c then [] # str_split c xs
      else (case str_split c xs of [] \<Rightarrow> [[x]] | p # ps \<Rightarrow> (x # p) # ps))"

fun str_join :: "string \<Rightarrow> string list \<Rightarrow> string" where
  "str_join sep [] = []"
| "str_join sep [x] = x"
| "str_join sep (x # y # ys) = x @ sep @ str_join sep (y # ys)"

lemma str_split_nonempty [simp]: "str_split c s \<noteq> []"
  by (induction s) (auto split: list.splits)

lemma str_join_split: "str_join [c] (str_split c s) = s"
proof (induction s)
  case Nil
  then show ?case by simp
next
  case (Cons x xs)
  obtain p ps where ps: "str_split c xs = p # ps"
    by (cases "str_split c xs") auto
  with Cons show ?case by (cases ps) auto
qed

text \<open>ASCII white space, as \<open>str.strip\<close> removes it.\<close>

definition is_space :: "char \<Rightarrow> bool" where
  "is_space c \<longleftrightarrow> c \<in> set [CHR '' '', CHR 0x09, CHR 0x0A, CHR 0x0B, CHR 0x0C, CHR 0x0D,
     CHR 0x1C, CHR 0x1D, CHR 0x1E, CHR 0x1F]"

definition str_lstrip :: "string \<Rightarrow> string" where
  "str_lstrip s = dropWhile is_space s"

definition str_rstrip :: "string \<Rightarrow> string" where
  "str_rstrip s = rev (dropWhile is_space (rev s))"

definition str_strip :: "string \<Rightarrow> string" where
  "str_strip s = str_rstrip (str_lstrip s)"

definition char_lower :: "char \<Rightarrow> char" where
  "char_lower c = (if CHR ''A'' \<le> c \<and> c \<le> CHR ''Z'' then char_of (of_char c + (32::nat)) else c)"

definition str_lower :: "string \<Rightarrow> string" where
  "str_lower s = map char_lower s"

lemma str_lower_append: "str_lower (a @ b) = str_lower a @ str_lower b"
  by (simp add: str_lower_def)

text \<open>A line feed.\<close>

definition nl :: string where "nl = [CHR 0x0A]"

text \<open>
  \<open>Path.name\<close>, \<open>Path.stem\<close> and \<open>Path.with_suffix\<close>, on a path whose last component has an
  extension.
\<close>

definition path_name :: "string \<Rightarrow> string" where
  "path_name path = rev (takeWhile (\<lambda>c. c \<noteq> CHR ''/'') (rev path))"

definition path_stem :: "string \<Rightarrow> string" where
  "path_stem path = rev (drop 1 (dropWhile (\<lambda>c. c \<noteq> CHR ''.'') (rev (path_name path))))"

definition with_suffix :: "string \<Rightarrow> string \<Rightarrow> string" where
  "with_suffix path ext = rev (drop 1 (dropWhile (\<lambda>c. c \<noteq> CHR ''.'') (rev path))) @ ext"

section \<open>Decimal numerals\<close>

text \<open>\<open>str(n)\<close> for an integer.\<close>

fun show_nat :: "nat \<Rightarrow> string" where
  "show_nat n =
     (if n < 10 then [''0123456789'' ! n]
      else show_nat (n div 10) @ [''0123456789'' ! (n mod 10)])"

declare show_nat.simps [simp del]

definition show_int :: "int \<Rightarrow> string" where
  "show_int i = (if i < 0 then CHR ''-'' # show_nat (nat (- i)) else show_nat (nat i))"

definition digit_value :: "char \<Rightarrow> nat" where
  "digit_value c = of_char c - 48"

definition is_digit :: "char \<Rightarrow> bool" where
  "is_digit c \<longleftrightarrow> c \<in> set ''0123456789''"

definition read_nat :: "string \<Rightarrow> nat" where
  "read_nat s = foldl (\<lambda>n c. 10 * n + digit_value c) 0 s"

lemma less_10_cases:
  "(n::nat) < 10 \<Longrightarrow> n = 0 \<or> n = 1 \<or> n = 2 \<or> n = 3 \<or> n = 4 \<or> n = 5 \<or> n = 6 \<or> n = 7 \<or> n = 8 \<or> n = 9"
  by arith

lemma digit_nth:
  assumes "n < 10"
  shows "is_digit (''0123456789'' ! n)" and "digit_value (''0123456789'' ! n) = n"
  using less_10_cases [OF assms] by (auto simp: is_digit_def digit_value_def)

lemma show_nat_digits: "\<forall>c \<in> set (show_nat n). is_digit c"
proof (induction n rule: show_nat.induct)
  case (1 n)
  then show ?case
    by (subst show_nat.simps) (auto simp: digit_nth(1) simp del: nth_Cons_numeral)
qed

lemma show_nat_nonempty [simp]: "show_nat n \<noteq> []"
  by (subst show_nat.simps) simp

lemma read_show_nat [simp]: "read_nat (show_nat n) = n"
proof (induction n rule: show_nat.induct)
  case (1 n)
  show ?case
  proof (cases "n < 10")
    case True
    then show ?thesis
      by (subst show_nat.simps) (simp add: read_nat_def digit_nth(2))
  next
    case False
    with "1.IH" have "read_nat (show_nat (n div 10)) = n div 10" by simp
    with False show ?thesis
      by (subst show_nat.simps) (simp add: read_nat_def digit_nth(2))
  qed
qed

lemma show_nat_inject [simp]: "show_nat a = show_nat b \<longleftrightarrow> a = b"
  by (metis read_show_nat)

lemma show_nat_no_minus: "show_nat n \<noteq> CHR ''-'' # xs"
proof
  assume "show_nat n = CHR ''-'' # xs"
  then have "is_digit (CHR ''-'')" using show_nat_digits [of n] by simp
  then show False by (simp add: is_digit_def)
qed

lemma show_int_inject [simp]: "show_int a = show_int b \<longleftrightarrow> a = b"
  by (auto simp: show_int_def show_nat_no_minus dest: show_nat_no_minus
      [THEN notE, rotated, OF sym] split: if_splits)

section \<open>Insertion-ordered dictionaries\<close>

type_synonym 'v dict = "(string \<times> 'v) list"

abbreviation dict_get :: "'v dict \<Rightarrow> string \<Rightarrow> 'v option" where
  "dict_get d k \<equiv> map_of d k"

abbreviation dict_set :: "string \<Rightarrow> 'v \<Rightarrow> 'v dict \<Rightarrow> 'v dict" where
  "dict_set \<equiv> AList.update"

abbreviation dict_del :: "string \<Rightarrow> 'v dict \<Rightarrow> 'v dict" where
  "dict_del \<equiv> AList.delete"

definition dict_update :: "'v dict \<Rightarrow> 'v dict \<Rightarrow> 'v dict" where
  "dict_update d e = fold (\<lambda>(k, v). dict_set k v) e d"

lemma dict_get_set [simp]: "dict_get (dict_set k v d) k' = (if k' = k then Some v else dict_get d k')"
  by (simp add: AList.update_conv')

lemma dict_get_del [simp]: "dict_get (dict_del k d) k' = (if k' = k then None else dict_get d k')"
  by (auto simp: AList.delete_conv')

definition opt_default :: "'a \<Rightarrow> 'a option \<Rightarrow> 'a" where
  "opt_default d r = (case r of None \<Rightarrow> d | Some x \<Rightarrow> x)"

lemma opt_default_simps [simp]: "opt_default d None = d" "opt_default d (Some x) = x"
  by (simp_all add: opt_default_def)

end
