(* ===== verification/Json_Value.thy ===== *)
theory Json_Value
  imports Prelude
begin

text \<open>
  Parsed JSON as Python holds it, with the operations the code applies to it: truth value,
  equality, \<open>str()\<close>, \<open>dict.get\<close> (which raises \<open>AttributeError\<close> on anything but a
  dict), and \<open>resolve_path\<close> of \<^verbatim>\<open>shared/utils.py\<close> with the thread-type and URL
  helpers of the same file. A float is kept as the text of its \<open>repr\<close>.
\<close>

section \<open>Values\<close>

datatype json =
    JNull
  | JBool bool
  | JInt int
  | JFloat string
  | JStr string
  | JArr "json list"
  | JObj "(string \<times> json) list"

fun py_truthy :: "json \<Rightarrow> bool" where
  "py_truthy JNull = False"
| "py_truthy (JBool b) = b"
| "py_truthy (JInt i) = (i \<noteq> 0)"
| "py_truthy (JFloat r) = (r \<noteq> ''0.0'' \<and> r \<noteq> ''-0.0'')"
| "py_truthy (JStr s) = (s \<noteq> [])"
| "py_truthy (JArr xs) = (xs \<noteq> [])"
| "py_truthy (JObj d) = (d \<noteq> [])"

definition py_or :: "json \<Rightarrow> json \<Rightarrow> json" where
  "py_or a b = (if py_truthy a then a else b)"

text \<open>The integer a number denotes: \<open>True == 1\<close> and \<open>2.0 == 2\<close> hold in Python.\<close>

definition float_int :: "string \<Rightarrow> int option" where
  "float_int r =
     (let m = take (length r - 2) r; neg = (m \<noteq> [] \<and> hd m = CHR ''-'');
          ds = (if neg then tl m else m)
      in if str_endswith r ''.0'' \<and> ds \<noteq> [] \<and> list_all is_digit ds
         then Some (if neg then - int (read_nat ds) else int (read_nat ds)) else None)"

fun num_val :: "json \<Rightarrow> int option" where
  "num_val (JBool b) = Some (if b then 1 else 0)"
| "num_val (JInt i) = Some i"
| "num_val (JFloat r) = float_int r"
| "num_val _ = None"

lemma size_zip_left: "p \<in> set (zip xs ys) \<Longrightarrow> size (fst p) < Suc (size_list size xs)"
  by (cases p, simp, drule set_zip_leftD) (simp add: less_Suc_eq_le size_list_estimation')

function (sequential) py_eq :: "json \<Rightarrow> json \<Rightarrow> bool" where
  "py_eq (JStr a) (JStr b) = (a = b)"
| "py_eq JNull JNull = True"
| "py_eq (JArr xs) (JArr ys) =
     (length xs = length ys \<and> (\<forall>p \<in> set (zip xs ys). py_eq (fst p) (snd p)))"
| "py_eq (JObj d) (JObj e) =
     (length d = length e \<and>
      (\<forall>p \<in> set d. case map_of e (fst p) of None \<Rightarrow> False | Some w \<Rightarrow> py_eq (snd p) w))"
| "py_eq a b =
     (case (num_val a, num_val b) of
        (Some i, Some j) \<Rightarrow> i = j
      | (None, None) \<Rightarrow> (case (a, b) of (JFloat r, JFloat q) \<Rightarrow> r = q | _ \<Rightarrow> False)
      | _ \<Rightarrow> False)"
  by pat_completeness auto
termination
proof (relation "measure (\<lambda>q. size (fst q))", goal_cases)
  case 1
  show ?case by simp
next
  case (2 xs ys p)
  then show ?case by (simp add: size_zip_left)
next
  case (3 d e p w)
  then have "size (snd p) < size_list (size_prod (\<lambda>_. 0) size) d"
    by (intro size_list_estimation [of p]) (auto simp: size_prod_def split: prod.split)
  then show ?case by simp
qed

text \<open>\<open>v in [x1, \<dots>]\<close>\<close>

definition py_in_list :: "json \<Rightarrow> json list \<Rightarrow> bool" where
  "py_in_list v xs \<longleftrightarrow> list_ex (py_eq v) xs"

lemma py_eq_str1 [simp]: "py_eq (JStr a) v \<longleftrightarrow> v = JStr a"
  by (cases v) (auto split: option.split)

lemma py_eq_str2 [simp]: "py_eq v (JStr a) \<longleftrightarrow> v = JStr a"
  by (cases v) (auto split: option.split)

lemma py_eq_null1 [simp]: "py_eq JNull v \<longleftrightarrow> v = JNull"
  by (cases v) (auto split: option.split)

lemma py_eq_null2 [simp]: "py_eq v JNull \<longleftrightarrow> v = JNull"
  by (cases v) (auto split: option.split)

section \<open>\<open>str()\<close> and \<open>repr()\<close>\<close>

definition hex_digit :: "nat \<Rightarrow> char" where
  "hex_digit n = ''0123456789abcdef'' ! (n mod 16)"

definition repr_char :: "char \<Rightarrow> char \<Rightarrow> string" where
  "repr_char q c =
     (let n = of_char c :: nat in
      if c = q \<or> c = CHR 0x5C then [CHR 0x5C, c]
      else if c = CHR 0x0A then [CHR 0x5C, CHR ''n'']
      else if c = CHR 0x0D then [CHR 0x5C, CHR ''r'']
      else if c = CHR 0x09 then [CHR 0x5C, CHR ''t'']
      else if n < 32 \<or> 127 \<le> n \<and> n \<le> 160 \<or> n = 173
           then [CHR 0x5C, CHR ''x'', hex_digit (n div 16), hex_digit n]
      else [c])"

definition repr_str :: "string \<Rightarrow> string" where
  "repr_str s =
     (let q = (if CHR 0x27 \<in> set s \<and> CHR 0x22 \<notin> set s then CHR 0x22 else CHR 0x27)
      in q # concat (map (repr_char q) s) @ [q])"

fun py_repr :: "json \<Rightarrow> string" where
  "py_repr JNull = ''None''"
| "py_repr (JBool b) = (if b then ''True'' else ''False'')"
| "py_repr (JInt i) = show_int i"
| "py_repr (JFloat r) = r"
| "py_repr (JStr s) = repr_str s"
| "py_repr (JArr xs) = ''['' @ str_join '', '' (map py_repr xs) @ '']''"
| "py_repr (JObj d) =
     CHR 0x7B # str_join '', '' (map (\<lambda>p. repr_str (fst p) @ '': '' @ py_repr (snd p)) d) @ [CHR 0x7D]"

fun py_str :: "json \<Rightarrow> string" where
  "py_str (JStr s) = s"
| "py_str v = py_repr v"

section \<open>Attribute-style access\<close>

fun jget :: "json \<Rightarrow> string \<Rightarrow> json \<Rightarrow> json result" where
  "jget (JObj d) k dflt = Inr (opt_default dflt (dict_get d k))"
| "jget _ k dflt = Inl (Exn AttributeError ''get'')"

definition res_bind :: "'a result \<Rightarrow> ('a \<Rightarrow> 'b result) \<Rightarrow> 'b result" where
  "res_bind r f = (case r of Inl e \<Rightarrow> Inl e | Inr x \<Rightarrow> f x)"

lemma res_bind_simps [simp]: "res_bind (Inl e) f = Inl e" "res_bind (Inr x) f = f x"
  by (simp_all add: res_bind_def)

lemma res_bind_Inr_iff: "res_bind r f = Inr y \<longleftrightarrow> (\<exists>x. r = Inr x \<and> f x = Inr y)"
  by (cases r) auto

lemma jget_error: "jget v k d = Inl e \<Longrightarrow> exc_cls e = AttributeError"
  by (cases v) auto

text \<open>\<open>x.get(a, {}).get(b, dflt)\<close>\<close>

definition jget2 :: "json \<Rightarrow> string \<Rightarrow> string \<Rightarrow> json \<Rightarrow> json result" where
  "jget2 v a b dflt = res_bind (jget v a (JObj [])) (\<lambda>w. jget w b dflt)"

text \<open>\<open>j[k]\<close>; iterating over \<open>j\<close>, where a dict gives its keys and a string its characters.\<close>

definition json_item :: "json \<Rightarrow> string \<Rightarrow> json result" where
  "json_item j k =
     (case j of
        JObj d \<Rightarrow> (case dict_get d k of Some v \<Rightarrow> Inr v | None \<Rightarrow> Inl (Exn KeyError (repr_str k)))
      | _ \<Rightarrow> Inl (Exn TypeError ''indices must be integers''))"

fun json_iter :: "json \<Rightarrow> json list result" where
  "json_iter (JArr xs) = Inr xs"
| "json_iter (JObj d) = Inr (map (\<lambda>p. JStr (fst p)) d)"
| "json_iter (JStr s) = Inr (map (\<lambda>c. JStr [c]) s)"
| "json_iter _ = Inl (Exn TypeError ''object is not iterable'')"

fun res_map :: "('a \<Rightarrow> 'b result) \<Rightarrow> 'a list \<Rightarrow> 'b list result" where
  "res_map f [] = Inr []"
| "res_map f (x # xs) = res_bind (f x) (\<lambda>y. res_bind (res_map f xs) (\<lambda>ys. Inr (y # ys)))"

lemma res_map_range: "res_map f xs = Inr ys \<Longrightarrow> y \<in> set ys \<Longrightarrow> \<exists>x \<in> set xs. f x = Inr y"
  by (induction xs arbitrary: ys) (auto simp: res_bind_Inr_iff)

lemma res_map_domain: "res_map f xs = Inr ys \<Longrightarrow> x \<in> set xs \<Longrightarrow> \<exists>y. f x = Inr y"
  by (induction xs arbitrary: ys) (auto simp: res_bind_Inr_iff)

lemma res_map_length: "res_map f xs = Inr ys \<Longrightarrow> length ys = length xs"
  by (induction xs arbitrary: ys) (auto simp: res_bind_Inr_iff)

section \<open>\<open>shared/utils.py\<close>\<close>

fun resolve_keys :: "json \<Rightarrow> string list \<Rightarrow> json option" where
  "resolve_keys current [] = Some current"
| "resolve_keys current (key # keys) =
     (case current of
        JObj d \<Rightarrow> (case dict_get d key of None \<Rightarrow> None | Some v \<Rightarrow> resolve_keys v keys)
      | _ \<Rightarrow> None)"

definition resolve_path_or :: "json \<Rightarrow> string \<Rightarrow> json \<Rightarrow> json" where
  "resolve_path_or data path dflt = opt_default dflt (resolve_keys data (str_split CHR ''.'' path))"

definition resolve_path :: "json \<Rightarrow> string \<Rightarrow> json" where
  "resolve_path data path = resolve_path_or data path JNull"

lemma resolve_keys_append:
  "resolve_keys v (ks @ ls) = Option.bind (resolve_keys v ks) (\<lambda>w. resolve_keys w ls)"
proof (induction ks arbitrary: v)
  case Nil
  then show ?case by simp
next
  case (Cons k ks)
  then show ?case by (auto split: json.splits option.splits)
qed

definition thread_type_to_url :: "string dict" where
  "thread_type_to_url = [(''pr'', ''pull''), (''issue'', ''issues''), (''discussion'', ''discussions'')]"

definition url_segment_to_thread :: "string dict" where
  "url_segment_to_thread = [(''pull'', ''pr''), (''issues'', ''issue''), (''discussions'', ''discussion'')]"

definition thread_type_to_url_segment :: "string \<Rightarrow> string" where
  "thread_type_to_url_segment t = opt_default ''issues'' (dict_get thread_type_to_url t)"

definition url_segment_to_thread_type :: "string \<Rightarrow> string" where
  "url_segment_to_thread_type seg = opt_default ''issue'' (dict_get url_segment_to_thread seg)"

definition build_session_url ::
  "string \<Rightarrow> string \<Rightarrow> string \<Rightarrow> string \<Rightarrow> json \<Rightarrow> string \<Rightarrow> string" where
  "build_session_url base_url owner repo_name thread_type issue_number workflow =
     (if base_url = [] then []
      else rev (dropWhile (\<lambda>c. c = CHR ''/'') (rev base_url)) @ ''/session/'' @ owner @ ''/'' @
        repo_name @ ''/'' @ thread_type_to_url_segment thread_type @ ''/'' @
        py_str issue_number @ ''/'' @ workflow)"

lemma thread_type_url_roundtrip:
  "t \<in> {''pr'', ''issue'', ''discussion''} \<Longrightarrow>
   url_segment_to_thread_type (thread_type_to_url_segment t) = t"
  by (auto simp: thread_type_to_url_segment_def url_segment_to_thread_type_def
      thread_type_to_url_def url_segment_to_thread_def)

lemma url_segment_to_thread_type_range:
  "url_segment_to_thread_type seg \<in> {''pr'', ''issue'', ''discussion''}"
  by (auto simp: url_segment_to_thread_type_def url_segment_to_thread_def opt_default_def
      split: option.splits if_splits)

end
