(* ===== verification/Json_Text.thy ===== *)
theory Json_Text
  imports Json_Value
begin

text \<open>
  JSON text. \<open>json_codec\<close> is the contract of \<open>json.dumps\<close> and \<open>json.loads\<close> the code
  relies on: what is written is read back, for every value Python can serialise
  (\<open>json_ok\<close>). \<open>print_json\<close> and \<open>parse_json\<close> are a printer in the layout of
  \<open>json.dumps\<close> and a parser for it; their round trip discharges the contract.
\<close>

section \<open>The contract\<close>

definition is_numchar :: "char \<Rightarrow> bool" where
  "is_numchar c \<longleftrightarrow> c \<in> set ''0123456789+-.eE''"

definition is_int_text :: "string \<Rightarrow> bool" where
  "is_int_text s \<longleftrightarrow> s \<noteq> [] \<and> list_all is_digit s \<or>
     (\<exists>ds. s = CHR ''-'' # ds \<and> ds \<noteq> [] \<and> list_all is_digit ds)"

lemma is_int_text_code [code]:
  "is_int_text s = (s \<noteq> [] \<and> list_all is_digit s \<or> take 1 s = ''-'' \<and> drop 1 s \<noteq> [] \<and> list_all is_digit (drop 1 s))"
  by (cases s) (auto simp: is_int_text_def)

definition is_float_text :: "string \<Rightarrow> bool" where
  "is_float_text s \<longleftrightarrow> s \<noteq> [] \<and> list_all is_numchar s \<and> \<not> is_int_text s"

fun json_ok :: "json \<Rightarrow> bool" where
  "json_ok (JFloat r) = is_float_text r"
| "json_ok (JArr xs) = (\<forall>x \<in> set xs. json_ok x)"
| "json_ok (JObj d) = (distinct (map fst d) \<and> (\<forall>p \<in> set d. json_ok (snd p)))"
| "json_ok _ = True"

locale json_codec =
  fixes dumps :: "json \<Rightarrow> string" and loads :: "string \<Rightarrow> json option"
  assumes loads_dumps: "json_ok j \<Longrightarrow> loads (dumps j) = Some j"
    and dumps_nonempty: "json_ok j \<Longrightarrow> dumps j \<noteq> []"
begin

lemma dumps_inject: "json_ok i \<Longrightarrow> json_ok j \<Longrightarrow> dumps i = dumps j \<longleftrightarrow> i = j"
  by (metis loads_dumps option.inject)

end

section \<open>Strings\<close>

definition hex_value :: "char \<Rightarrow> nat" where
  "hex_value c = (let n = of_char c in if n < 58 then n - 48 else n - 87)"

definition escape_char :: "char \<Rightarrow> string" where
  "escape_char c =
     (let n = of_char c :: nat in
      if c = CHR 0x22 \<or> c = CHR 0x5C then [CHR 0x5C, c]
      else if n < 32 \<or> 127 \<le> n
           then [CHR 0x5C, CHR ''u'', CHR ''0'', CHR ''0'', hex_digit (n div 16), hex_digit n]
      else [c])"

definition print_string :: "string \<Rightarrow> string" where
  "print_string s = CHR 0x22 # concat (map escape_char s) @ [CHR 0x22]"

fun parse_chars :: "string \<Rightarrow> (string \<times> string) option" where
  "parse_chars [] = None"
| "parse_chars (c # cs) =
     (if c = CHR 0x22 then Some ([], cs)
      else if c = CHR 0x5C then
        (case cs of
           CHR ''u'' # CHR ''0'' # CHR ''0'' # a # b # ds \<Rightarrow>
             map_option (\<lambda>(s, r). (char_of (16 * hex_value a + hex_value b) # s, r))
               (parse_chars ds)
         | d # ds \<Rightarrow> map_option (\<lambda>(s, r). (d # s, r)) (parse_chars ds)
         | [] \<Rightarrow> None)
      else map_option (\<lambda>(s, r). (c # s, r)) (parse_chars cs))"

lemma less_16_cases:
  "(n::nat) < 16 \<Longrightarrow> n \<in> {0, 1, 2, 3, 4, 5, 6, 7, 8, 9, 10, 11, 12, 13, 14, 15}"
  by (simp, arith)

lemma hex_value_digit: "hex_value (hex_digit n) = n mod 16"
proof -
  have "n mod 16 < 16" by simp
  from less_16_cases [OF this] show ?thesis
    by (auto simp: hex_digit_def hex_value_def)
qed

lemma of_char_less_256: "of_char c < (256::nat)"
  by (metis of_char_mod_256 mod_less_divisor zero_less_numeral)

lemma hex_roundtrip:
  fixes c :: char
  defines "n \<equiv> of_char c :: nat"
  shows "char_of (16 * hex_value (hex_digit (n div 16)) + hex_value (hex_digit n)) = c"
proof -
  have "n < 256" by (simp add: n_def of_char_less_256)
  then have "n div 16 < 16" by simp
  then have "16 * hex_value (hex_digit (n div 16)) + hex_value (hex_digit n) = n"
    by (simp add: hex_value_digit)
  then show ?thesis by (simp add: n_def)
qed

lemma parse_escape:
  "parse_chars (escape_char c @ s) = map_option (\<lambda>(t, r). (c # t, r)) (parse_chars s)"
  using hex_roundtrip [of c] by (auto simp: escape_char_def Let_def)

lemma parse_print_chars:
  "parse_chars (concat (map escape_char s) @ CHR 0x22 # rest) = Some (s, rest)"
  by (induction s) (simp_all add: parse_escape del: parse_chars.simps(2),
      simp add: parse_chars.simps)

section \<open>Values\<close>

fun print_json :: "json \<Rightarrow> string" where
  "print_json JNull = ''null''"
| "print_json (JBool b) = (if b then ''true'' else ''false'')"
| "print_json (JInt i) = show_int i"
| "print_json (JFloat r) = r"
| "print_json (JStr s) = print_string s"
| "print_json (JArr xs) = CHR ''['' # str_join '', '' (map print_json xs) @ [CHR '']'']"
| "print_json (JObj d) =
     CHR 0x7B # str_join '', '' (map (\<lambda>p. print_string (fst p) @ '': '' @ print_json (snd p)) d)
       @ [CHR 0x7D]"

definition skip_ws :: "string \<Rightarrow> string" where
  "skip_ws s = dropWhile (\<lambda>c. c \<in> set [CHR '' '', CHR 0x09, CHR 0x0A, CHR 0x0D]) s"

definition read_int :: "string \<Rightarrow> int" where
  "read_int s = (if s \<noteq> [] \<and> hd s = CHR ''-'' then - int (read_nat (tl s)) else int (read_nat s))"

definition parse_number :: "string \<Rightarrow> (json \<times> string) option" where
  "parse_number s =
     (let t = takeWhile is_numchar s; r = dropWhile is_numchar s in
      if t = [] then None
      else if is_int_text t then Some (JInt (read_int t), r) else Some (JFloat t, r))"

fun parse_value :: "nat \<Rightarrow> string \<Rightarrow> (json \<times> string) option"
  and parse_items :: "nat \<Rightarrow> string \<Rightarrow> (json list \<times> string) option"
  and parse_members :: "nat \<Rightarrow> string \<Rightarrow> ((string \<times> json) list \<times> string) option" where
  "parse_value 0 s = None"
| "parse_value (Suc n) s =
     (case skip_ws s of
        [] \<Rightarrow> None
      | c # cs \<Rightarrow>
          if c = CHR 0x22 then map_option (\<lambda>(t, r). (JStr t, r)) (parse_chars cs)
          else if c = CHR ''['' then
            (if take 1 (skip_ws cs) = '']'' then Some (JArr [], drop 1 (skip_ws cs))
             else map_option (\<lambda>(xs, r). (JArr xs, r)) (parse_items n cs))
          else if c = CHR 0x7B then
            (if take 1 (skip_ws cs) = [CHR 0x7D] then Some (JObj [], drop 1 (skip_ws cs))
             else map_option (\<lambda>(d, r). (JObj d, r)) (parse_members n cs))
          else if str_startswith (c # cs) ''null'' then Some (JNull, drop 4 (c # cs))
          else if str_startswith (c # cs) ''true'' then Some (JBool True, drop 4 (c # cs))
          else if str_startswith (c # cs) ''false'' then Some (JBool False, drop 5 (c # cs))
          else parse_number (c # cs))"
| "parse_items 0 s = None"
| "parse_items (Suc n) s =
     (case parse_value n s of
        None \<Rightarrow> None
      | Some (x, r) \<Rightarrow>
          (case skip_ws r of
             CHR '']'' # r' \<Rightarrow> Some ([x], r')
           | CHR '','' # r' \<Rightarrow> map_option (\<lambda>(xs, r''). (x # xs, r'')) (parse_items n r')
           | _ \<Rightarrow> None))"
| "parse_members 0 s = None"
| "parse_members (Suc n) s =
     (case skip_ws s of
        CHR 0x22 # cs \<Rightarrow>
          (case parse_chars cs of
             None \<Rightarrow> None
           | Some (k, r) \<Rightarrow>
               (case skip_ws r of
                  CHR '':'' # r1 \<Rightarrow>
                    (case parse_value n r1 of
                       None \<Rightarrow> None
                     | Some (v, r2) \<Rightarrow>
                         (case skip_ws r2 of
                            CHR 0x7D # r3 \<Rightarrow> Some ([(k, v)], r3)
                          | CHR '','' # r3 \<Rightarrow>
                              map_option (\<lambda>(d, r4). ((k, v) # d, r4)) (parse_members n r3)
                          | _ \<Rightarrow> None))
                | _ \<Rightarrow> None))
      | _ \<Rightarrow> None)"

definition parse_json :: "string \<Rightarrow> json option" where
  "parse_json s =
     (case parse_value (length s) s of
        Some (j, r) \<Rightarrow> if skip_ws r = [] then Some j else None
      | None \<Rightarrow> None)"

section \<open>Round trip\<close>

definition stops :: "string \<Rightarrow> bool" where
  "stops r \<longleftrightarrow> r = [] \<or> \<not> is_numchar (hd r)"

lemma skip_ws_space [simp]: "skip_ws (CHR '' '' # s) = skip_ws s"
  by (simp add: skip_ws_def)

lemma parse_skip_space [simp]:
  "parse_value n (CHR '' '' # s) = parse_value n s"
  "parse_items n (CHR '' '' # s) = parse_items n s"
  "parse_members n (CHR '' '' # s) = parse_members n s"
proof -
  show v: "parse_value n (CHR '' '' # s) = parse_value n s" for n s by (cases n) simp_all
  show "parse_items n (CHR '' '' # s) = parse_items n s" by (cases n) (simp_all add: v)
  show "parse_members n (CHR '' '' # s) = parse_members n s" by (cases n) simp_all
qed

lemma numchar_facts:
  assumes "is_numchar c"
  shows "c \<noteq> CHR 0x22" "c \<noteq> CHR ''[''" "c \<noteq> CHR 0x7B" "c \<noteq> CHR ''n''" "c \<noteq> CHR ''t''"
    "c \<noteq> CHR ''f''" "c \<notin> {CHR '' '', CHR 0x09, CHR 0x0A, CHR 0x0D}"
  using assms by (auto simp: is_numchar_def)

lemma digit_numchar: "is_digit c \<Longrightarrow> is_numchar c"
  by (auto simp: is_digit_def is_numchar_def)

lemma show_int_nonempty [simp]: "show_int i \<noteq> []"
  by (simp add: show_int_def)

lemma show_int_length: "0 < length (show_int i)"
  by simp

lemma minus_numchar: "is_numchar (CHR ''-'')"
  by (simp add: is_numchar_def)

lemma show_int_text: "is_int_text (show_int i)" "list_all is_numchar (show_int i)"
  using show_nat_digits by (auto simp: is_int_text_def show_int_def list_all_iff minus_numchar
      intro: digit_numchar)

lemma read_show_int [simp]: "read_int (show_int i) = i"
  by (auto simp: read_int_def show_int_def neq_Nil_conv show_nat_no_minus
      dest: show_nat_no_minus [THEN notE, rotated])

lemma take_drop_number:
  assumes "list_all is_numchar t" "stops r"
  shows "takeWhile is_numchar (t @ r) = t" "dropWhile is_numchar (t @ r) = r"
  using assms by (cases r; induction t; simp add: stops_def)+

lemma parse_value_number:
  assumes t: "list_all is_numchar t" "t \<noteq> []" and r: "stops r" and n: "0 < n"
  shows "parse_value n (t @ r) =
    Some (if is_int_text t then JInt (read_int t) else JFloat t, r)"
proof -
  obtain c cs where c: "t = c # cs" using t(2) by (cases t) auto
  then have num: "is_numchar c" using t(1) by simp
  have "parse_value n (t @ r) = parse_number (t @ r)"
    using n numchar_facts [OF num] by (cases n) (auto simp: c skip_ws_def str_startswith_def)
  then show ?thesis
    using take_drop_number [OF t(1) r] t(2) by (simp add: parse_number_def Let_def)
qed

lemma stops_sep [simp]: "stops (CHR '','' # r)" "stops (CHR '']'' # r)" "stops (CHR 0x7D # r)" "stops []"
  by (simp_all add: stops_def is_numchar_def)

text \<open>The parser reads back one printed value, with enough fuel.\<close>

definition reads_back :: "json \<Rightarrow> bool" where
  "reads_back j \<longleftrightarrow> (\<forall>n r. length (print_json j) \<le> n \<longrightarrow> json_ok j \<longrightarrow> stops r \<longrightarrow>
     parse_value n (print_json j @ r) = Some (j, r))"

lemma parse_items_print:
  assumes "xs \<noteq> []" "\<forall>x \<in> set xs. reads_back x \<and> json_ok x"
    "length (str_join '', '' (map print_json xs)) < n"
  shows "parse_items n (str_join '', '' (map print_json xs) @ CHR '']'' # r) = Some (xs, r)"
  using assms
proof (induction xs arbitrary: n)
  case Nil
  then show ?case by simp
next
  case (Cons x xs)
  then obtain m where n: "n = Suc m" by (cases n) auto
  have rb: "reads_back x" and ok: "json_ok x" using Cons.prems(2) by auto
  show ?case
  proof (cases xs)
    case Nil
    then have "parse_value m (print_json x @ CHR '']'' # r) = Some (x, CHR '']'' # r)"
      using rb ok Cons.prems(3) n by (simp add: reads_back_def)
    with Nil n show ?thesis by (simp add: skip_ws_def)
  next
    case (Cons y ys)
    then have j: "str_join '', '' (map print_json (x # xs)) =
      print_json x @ '', '' @ str_join '', '' (map print_json xs)" by simp
    have "parse_value m (print_json x @ CHR '','' # CHR '' '' #
        str_join '', '' (map print_json xs) @ CHR '']'' # r) =
      Some (x, CHR '','' # CHR '' '' # str_join '', '' (map print_json xs) @ CHR '']'' # r)"
      using rb ok Cons.prems(3) n unfolding j by (simp add: reads_back_def)
    moreover have "parse_items m (str_join '', '' (map print_json xs) @ CHR '']'' # r) = Some (xs, r)"
      using Cons Cons.prems n unfolding j by (intro Cons.IH) auto
    ultimately show ?thesis unfolding j n by (simp add: skip_ws_def)
  qed
qed

lemma parse_members_print:
  assumes "d \<noteq> []" "\<forall>p \<in> set d. reads_back (snd p) \<and> json_ok (snd p)"
    "length (str_join '', '' (map (\<lambda>p. print_string (fst p) @ '': '' @ print_json (snd p)) d)) < n"
  shows "parse_members n
    (str_join '', '' (map (\<lambda>p. print_string (fst p) @ '': '' @ print_json (snd p)) d) @ CHR 0x7D # r) =
    Some (d, r)"
  using assms
proof (induction d arbitrary: n)
  case Nil
  then show ?case by simp
next
  case (Cons p d)
  let ?f = "\<lambda>p. print_string (fst p) @ '': '' @ print_json (snd p)"
  obtain m where n: "n = Suc m" using Cons.prems(3) by (cases n) auto
  obtain k v where p: "p = (k, v)" by (cases p)
  have rb: "reads_back v" and ok: "json_ok v" using Cons.prems(2) p by auto
  have key: "parse_chars (concat (map escape_char k) @ CHR 0x22 # t) = Some (k, t)" for t
    by (rule parse_print_chars)
  show ?case
  proof (cases d)
    case Nil
    then have "parse_value m (print_json v @ CHR 0x7D # r) = Some (v, CHR 0x7D # r)"
      using rb ok Cons.prems(3) n p by (simp add: reads_back_def print_string_def)
    with Nil n p key show ?thesis by (simp add: skip_ws_def print_string_def)
  next
    case (Cons q e)
    then have j: "str_join '', '' (map ?f (p # d)) = ?f p @ '', '' @ str_join '', '' (map ?f d)" by simp
    have "parse_value m (print_json v @ CHR '','' # CHR '' '' # str_join '', '' (map ?f d) @ CHR 0x7D # r) =
      Some (v, CHR '','' # CHR '' '' # str_join '', '' (map ?f d) @ CHR 0x7D # r)"
      using rb ok Cons.prems(3) n p unfolding j by (simp add: reads_back_def print_string_def)
    moreover have "parse_members m (str_join '', '' (map ?f d) @ CHR 0x7D # r) = Some (d, r)"
      using Cons Cons.prems n unfolding j by (intro Cons.IH) auto
    ultimately show ?thesis unfolding j n using p key
      by (simp add: skip_ws_def print_string_def)
  qed
qed

lemma skip_ws_nonspace:
  "c \<notin> {CHR '' '', CHR 0x09, CHR 0x0A, CHR 0x0D} \<Longrightarrow> skip_ws (c # cs) = c # cs"
  by (simp add: skip_ws_def)

definition good_start :: "string \<Rightarrow> bool" where
  "good_start s \<longleftrightarrow> (\<exists>c cs. s = c # cs \<and> c \<notin> {CHR '' '', CHR 0x09, CHR 0x0A, CHR 0x0D, CHR '']'', CHR 0x7D})"

lemma numbers_start: "list_all is_numchar t \<Longrightarrow> t \<noteq> [] \<Longrightarrow> good_start t"
  by (cases t) (auto simp: good_start_def is_numchar_def)

lemma print_json_start: "json_ok j \<Longrightarrow> good_start (print_json j)"
proof (cases j)
  case (JInt i)
  then show ?thesis using show_int_text(2) [of i]
    by (auto simp: show_int_def intro!: numbers_start split: if_splits)
next
  case (JFloat r)
  then show "json_ok j \<Longrightarrow> ?thesis" by (auto simp: is_float_text_def intro: numbers_start)
qed (auto simp: print_string_def good_start_def)

lemma join_start:
  "xs \<noteq> [] \<Longrightarrow> good_start (f (hd xs)) \<Longrightarrow> good_start (str_join sep (map f xs) @ r)"
  by (cases xs; cases "tl xs") (auto simp: good_start_def)

lemma good_start_skip:
  "good_start s \<Longrightarrow> \<exists>c cs. skip_ws s = c # cs \<and> c \<noteq> CHR '']'' \<and> c \<noteq> CHR 0x7D"
  by (auto simp: good_start_def skip_ws_def)

lemma reads_back_all: "reads_back j"
proof (induction j)
  case (JInt i)
  then show ?case
    using parse_value_number [OF show_int_text(2) [of i]] show_int_text(1) [of i]
    by (auto simp: reads_back_def intro!: less_le_trans [OF show_int_length])
next
  case (JFloat r)
  then show ?case
    using parse_value_number [of r]
    by (auto simp: reads_back_def is_float_text_def length_greater_0_conv [symmetric]
        simp del: length_greater_0_conv)
next
  case (JArr xs)
  show ?case
    unfolding reads_back_def
  proof (intro allI impI)
    fix n r
    assume len: "length (print_json (JArr xs)) \<le> n" and ok: "json_ok (JArr xs)" and "stops r"
    from len obtain m where n: "n = Suc m" by (cases n) auto
    show "parse_value n (print_json (JArr xs) @ r) = Some (JArr xs, r)"
    proof (cases "xs = []")
      case True
      then show ?thesis by (simp add: n skip_ws_def)
    next
      case False
      let ?t = "str_join '', '' (map print_json xs) @ CHR '']'' # r"
      have "parse_items m ?t = Some (xs, r)"
        using JArr.IH ok len n False by (intro parse_items_print) auto
      moreover have "good_start ?t" using False ok print_json_start [of "hd xs"]
        by (intro join_start) auto
      ultimately show ?thesis using good_start_skip [of ?t]
        by (auto simp: n skip_ws_nonspace)
    qed
  qed
next
  case (JObj d)
  let ?f = "\<lambda>p. print_string (fst p) @ '': '' @ print_json (snd p)"
  show ?case
    unfolding reads_back_def
  proof (intro allI impI)
    fix n r
    assume len: "length (print_json (JObj d)) \<le> n" and ok: "json_ok (JObj d)" and "stops r"
    from len obtain m where n: "n = Suc m" by (cases n) auto
    show "parse_value n (print_json (JObj d) @ r) = Some (JObj d, r)"
    proof (cases "d = []")
      case True
      then show ?thesis by (simp add: n skip_ws_def)
    next
      case False
      let ?t = "str_join '', '' (map ?f d) @ CHR 0x7D # r"
      have "\<forall>p \<in> set d. reads_back (snd p) \<and> json_ok (snd p)"
        using JObj.IH ok by (auto simp: prod_set_simps)
      then have "parse_members m ?t = Some (d, r)"
        using len n False by (intro parse_members_print) auto
      moreover have "good_start ?t" using False
        by (intro join_start) (auto simp: good_start_def print_string_def)
      ultimately show ?thesis using good_start_skip [of ?t]
        by (auto simp: n skip_ws_nonspace)
    qed
  qed
next
  case (JStr s)
  then show ?case
    using parse_print_chars [of s]
    by (auto simp: reads_back_def print_string_def skip_ws_def gr0_conv_Suc Suc_le_eq
        dest!: less_imp_Suc_add)
qed (auto simp: reads_back_def skip_ws_def str_startswith_def Suc_le_eq gr0_conv_Suc
    dest!: less_imp_Suc_add split: if_splits)

lemma parse_print_json: "json_ok j \<Longrightarrow> parse_json (print_json j) = Some j"
  using reads_back_all [of j] by (force simp: parse_json_def reads_back_def skip_ws_def
      dest: spec [where x = "length (print_json j)"] spec [where x = "[]"])

lemma print_json_nonempty: "json_ok j \<Longrightarrow> print_json j \<noteq> []"
  using print_json_start [of j] by (auto simp: good_start_def)

interpretation std_json: json_codec print_json parse_json
  by unfold_locales (simp_all add: parse_print_json print_json_nonempty)

end
