(* ===== verification/Redis_Env.thy ===== *)
theory Redis_Env
  imports Json_Text
begin

text \<open>
  The Redis client the services share. The client library and the server are not part of
  the repository, so they are a parameter: \<open>'s env\<close> is a record of the commands the code
  issues, over an arbitrary world \<open>'s\<close>, together with \<open>json.dumps\<close> and
  \<open>json.loads\<close>. The locale \<open>redis_server\<close> states what the code relies on: from a
  healthy world every command behaves as its documentation says of the keyspace
  \<open>rstate\<close> it stands for (the \<open>r_\<close> functions), and the world stays healthy; nothing
  is said of an unhealthy world, where a command may raise anything. Inside the locale a
  program over \<open>E\<close> simulates the same program over the documented commands
  (\<open>model_env\<close>), one rule per control construct. \<open>flaky_env\<close> is a server whose n-th
  command fails with \<open>OSError\<close>; it interprets the locale.
\<close>

named_theorems sim_intros
named_theorems redis_simps

section \<open>The keyspace\<close>

datatype rval =
    RStr string
  | RList "string list"
  | RSet "string list"
  | RHash "(string \<times> string) list"
  | RZSet "(string \<times> real) list"

record rstate =
  rnow :: nat
  rdb :: "string \<Rightarrow> (rval \<times> nat option) option"
  rlog :: "(string \<times> string) list"

definition rlook :: "rstate \<Rightarrow> string \<Rightarrow> rval option" where
  "rlook st k =
     (case rdb st k of
        None \<Rightarrow> None
      | Some (v, None) \<Rightarrow> Some v
      | Some (v, Some d) \<Rightarrow> if rnow st < d then Some v else None)"

definition rdeadline :: "rstate \<Rightarrow> string \<Rightarrow> nat option" where
  "rdeadline st k = (if rlook st k = None then None else Option.bind (rdb st k) snd)"

definition rput :: "string \<Rightarrow> rval \<Rightarrow> nat option \<Rightarrow> rstate \<Rightarrow> rstate" where
  "rput k v d st = st\<lparr>rdb := (rdb st)(k \<mapsto> (v, d))\<rparr>"

definition rdrop :: "string \<Rightarrow> rstate \<Rightarrow> rstate" where
  "rdrop k st = st\<lparr>rdb := (rdb st)(k := None)\<rparr>"

text \<open>Writing a container keeps the key's deadline; an empty container is removed.\<close>

definition rstore :: "string \<Rightarrow> rval \<Rightarrow> rstate \<Rightarrow> rstate" where
  "rstore k v st = rput k v (rdeadline st k) st"

definition radvance :: "nat \<Rightarrow> rstate \<Rightarrow> rstate" where
  "radvance d st = st\<lparr>rnow := rnow st + d\<rparr>"

fun as_str :: "rval option \<Rightarrow> string option option" where
  "as_str None = Some None" | "as_str (Some (RStr s)) = Some (Some s)" | "as_str _ = None"

fun as_list :: "rval option \<Rightarrow> string list option" where
  "as_list None = Some []" | "as_list (Some (RList xs)) = Some xs" | "as_list _ = None"

fun as_set :: "rval option \<Rightarrow> string list option" where
  "as_set None = Some []" | "as_set (Some (RSet xs)) = Some xs" | "as_set _ = None"

fun as_hash :: "rval option \<Rightarrow> string dict option" where
  "as_hash None = Some []" | "as_hash (Some (RHash h)) = Some h" | "as_hash _ = None"

fun as_zset :: "rval option \<Rightarrow> (string \<times> real) list option" where
  "as_zset None = Some []" | "as_zset (Some (RZSet z)) = Some z" | "as_zset _ = None"

definition wrongtype :: exn where
  "wrongtype = Exn RedisError ''WRONGTYPE''"

definition bad_expire :: exn where
  "bad_expire = Exn RedisError ''invalid expire time''"

definition not_integer :: exn where
  "not_integer = Exn RedisError ''value is not an integer''"

section \<open>The documented commands\<close>

definition r_setex :: "string \<Rightarrow> int \<Rightarrow> string \<Rightarrow> (rstate, unit) io" where
  "r_setex k t v = (\<lambda>st. if t \<le> 0 then (Inl bad_expire, st)
     else (Inr (), rput k (RStr v) (Some (rnow st + nat t)) st))"

definition r_set_nx_ex :: "string \<Rightarrow> string \<Rightarrow> int \<Rightarrow> (rstate, bool) io" where
  "r_set_nx_ex k v t = (\<lambda>st. if t \<le> 0 then (Inl bad_expire, st)
     else if rlook st k \<noteq> None then (Inr False, st)
     else (Inr True, rput k (RStr v) (Some (rnow st + nat t)) st))"

definition r_get :: "string \<Rightarrow> (rstate, string option) io" where
  "r_get k = (\<lambda>st. case as_str (rlook st k) of None \<Rightarrow> (Inl wrongtype, st) | Some r \<Rightarrow> (Inr r, st))"

definition r_del :: "string \<Rightarrow> (rstate, nat) io" where
  "r_del k = (\<lambda>st. (Inr (if rlook st k = None then 0 else 1), rdrop k st))"

definition r_exists :: "string \<Rightarrow> (rstate, bool) io" where
  "r_exists k = (\<lambda>st. (Inr (rlook st k \<noteq> None), st))"

definition r_ttl :: "string \<Rightarrow> (rstate, int) io" where
  "r_ttl k = (\<lambda>st. (Inr (if rlook st k = None then -2
     else (case rdeadline st k of None \<Rightarrow> -1 | Some d \<Rightarrow> int d - int (rnow st))), st))"

definition r_expire :: "string \<Rightarrow> int \<Rightarrow> (rstate, bool) io" where
  "r_expire k t = (\<lambda>st. case rlook st k of None \<Rightarrow> (Inr False, st)
     | Some v \<Rightarrow> (Inr True, if t \<le> 0 then rdrop k st else rput k v (Some (rnow st + nat t)) st))"

definition r_rpush :: "string \<Rightarrow> string \<Rightarrow> (rstate, nat) io" where
  "r_rpush k v = (\<lambda>st. case as_list (rlook st k) of None \<Rightarrow> (Inl wrongtype, st)
     | Some xs \<Rightarrow> (Inr (Suc (length xs)), rstore k (RList (xs @ [v])) st))"

text \<open>\<open>BLPOP\<close> returns nothing when the list stays empty for the whole timeout.\<close>

definition r_blpop :: "string \<Rightarrow> int \<Rightarrow> (rstate, string option) io" where
  "r_blpop k timeout = (\<lambda>st. case as_list (rlook st k) of None \<Rightarrow> (Inl wrongtype, st)
     | Some [] \<Rightarrow> (Inr None, st)
     | Some (x # xs) \<Rightarrow> (Inr (Some x), if xs = [] then rdrop k st else rstore k (RList xs) st))"

definition r_lpop :: "string \<Rightarrow> (rstate, string option) io" where
  "r_lpop k = (\<lambda>st. case as_list (rlook st k) of None \<Rightarrow> (Inl wrongtype, st)
     | Some [] \<Rightarrow> (Inr None, st)
     | Some (x # xs) \<Rightarrow> (Inr (Some x), if xs = [] then rdrop k st else rstore k (RList xs) st))"

definition r_llen :: "string \<Rightarrow> (rstate, nat) io" where
  "r_llen k = (\<lambda>st. case as_list (rlook st k) of None \<Rightarrow> (Inl wrongtype, st)
     | Some xs \<Rightarrow> (Inr (length xs), st))"

definition list_range :: "int \<Rightarrow> int \<Rightarrow> 'a list \<Rightarrow> 'a list" where
  "list_range start stop xs =
     (let n = int (length xs);
          a = (if start < 0 then max 0 (n + start) else start);
          b = (if stop < 0 then n + stop else stop)
      in take (nat (b + 1 - a)) (drop (nat a) xs))"

definition r_lrange :: "string \<Rightarrow> int \<Rightarrow> int \<Rightarrow> (rstate, string list) io" where
  "r_lrange k a b = (\<lambda>st. case as_list (rlook st k) of None \<Rightarrow> (Inl wrongtype, st)
     | Some xs \<Rightarrow> (Inr (list_range a b xs), st))"

definition r_ltrim :: "string \<Rightarrow> int \<Rightarrow> int \<Rightarrow> (rstate, unit) io" where
  "r_ltrim k a b = (\<lambda>st. case as_list (rlook st k) of None \<Rightarrow> (Inl wrongtype, st)
     | Some xs \<Rightarrow> (let ys = list_range a b xs in
         (Inr (), if ys = [] then rdrop k st else rstore k (RList ys) st)))"

definition r_sadd :: "string \<Rightarrow> string \<Rightarrow> (rstate, nat) io" where
  "r_sadd k v = (\<lambda>st. case as_set (rlook st k) of None \<Rightarrow> (Inl wrongtype, st)
     | Some xs \<Rightarrow> if v \<in> set xs then (Inr 0, st) else (Inr 1, rstore k (RSet (xs @ [v])) st))"

definition r_srem :: "string \<Rightarrow> string \<Rightarrow> (rstate, nat) io" where
  "r_srem k v = (\<lambda>st. case as_set (rlook st k) of None \<Rightarrow> (Inl wrongtype, st)
     | Some xs \<Rightarrow> if v \<notin> set xs then (Inr 0, st)
         else (let ys = removeAll v xs in
           (Inr 1, if ys = [] then rdrop k st else rstore k (RSet ys) st)))"

text \<open>The order in which \<open>SMEMBERS\<close> lists a set is the server's own (\<open>ord\<close>).\<close>

definition r_smembers :: "(string list \<Rightarrow> string list) \<Rightarrow> string \<Rightarrow> (rstate, string list) io" where
  "r_smembers ord k = (\<lambda>st. case as_set (rlook st k) of None \<Rightarrow> (Inl wrongtype, st)
     | Some xs \<Rightarrow> (Inr (ord xs), st))"

definition r_scard :: "string \<Rightarrow> (rstate, nat) io" where
  "r_scard k = (\<lambda>st. case as_set (rlook st k) of None \<Rightarrow> (Inl wrongtype, st)
     | Some xs \<Rightarrow> (Inr (length xs), st))"

definition r_hset :: "string \<Rightarrow> string \<Rightarrow> string \<Rightarrow> (rstate, unit) io" where
  "r_hset k f v = (\<lambda>st. case as_hash (rlook st k) of None \<Rightarrow> (Inl wrongtype, st)
     | Some h \<Rightarrow> (Inr (), rstore k (RHash (dict_set f v h)) st))"

definition r_hsetnx :: "string \<Rightarrow> string \<Rightarrow> string \<Rightarrow> (rstate, bool) io" where
  "r_hsetnx k f v = (\<lambda>st. case as_hash (rlook st k) of None \<Rightarrow> (Inl wrongtype, st)
     | Some h \<Rightarrow> if dict_get h f \<noteq> None then (Inr False, st)
         else (Inr True, rstore k (RHash (dict_set f v h)) st))"

definition r_hget :: "string \<Rightarrow> string \<Rightarrow> (rstate, string option) io" where
  "r_hget k f = (\<lambda>st. case as_hash (rlook st k) of None \<Rightarrow> (Inl wrongtype, st)
     | Some h \<Rightarrow> (Inr (dict_get h f), st))"

definition r_hgetall :: "string \<Rightarrow> (rstate, string dict) io" where
  "r_hgetall k = (\<lambda>st. case as_hash (rlook st k) of None \<Rightarrow> (Inl wrongtype, st)
     | Some h \<Rightarrow> (Inr h, st))"

definition r_hincrby :: "string \<Rightarrow> string \<Rightarrow> int \<Rightarrow> (rstate, int) io" where
  "r_hincrby k f n = (\<lambda>st. case as_hash (rlook st k) of None \<Rightarrow> (Inl wrongtype, st)
     | Some h \<Rightarrow>
         (let old = opt_default ''0'' (dict_get h f); i = read_int old + n in
          if is_int_text old then (Inr i, rstore k (RHash (dict_set f (show_int i) h)) st)
          else (Inl not_integer, st)))"

definition r_incrby :: "string \<Rightarrow> int \<Rightarrow> (rstate, int) io" where
  "r_incrby k n = (\<lambda>st. case as_str (rlook st k) of None \<Rightarrow> (Inl wrongtype, st)
     | Some r \<Rightarrow>
         (let old = opt_default ''0'' r; i = read_int old + n in
          if is_int_text old then (Inr i, rstore k (RStr (show_int i)) st)
          else (Inl not_integer, st)))"

fun zinsert :: "string \<Rightarrow> real \<Rightarrow> (string \<times> real) list \<Rightarrow> (string \<times> real) list" where
  "zinsert m x [] = [(m, x)]"
| "zinsert m x (p # ps) = (if x < snd p then (m, x) # p # ps else p # zinsert m x ps)"

definition r_zadd :: "string \<Rightarrow> string \<Rightarrow> real \<Rightarrow> (rstate, nat) io" where
  "r_zadd k m x = (\<lambda>st. case as_zset (rlook st k) of None \<Rightarrow> (Inl wrongtype, st)
     | Some z \<Rightarrow> (Inr (if dict_get z m = None then 1 else 0),
         rstore k (RZSet (zinsert m x (filter (\<lambda>p. fst p \<noteq> m) z))) st))"

definition r_zremrangebyscore :: "string \<Rightarrow> real \<Rightarrow> real \<Rightarrow> (rstate, nat) io" where
  "r_zremrangebyscore k a b = (\<lambda>st. case as_zset (rlook st k) of None \<Rightarrow> (Inl wrongtype, st)
     | Some z \<Rightarrow>
         (let z' = filter (\<lambda>p. \<not> (a \<le> snd p \<and> snd p \<le> b)) z in
          (Inr (length z - length z'), if z' = [] then rdrop k st else rstore k (RZSet z') st)))"

definition r_zcard :: "string \<Rightarrow> (rstate, nat) io" where
  "r_zcard k = (\<lambda>st. case as_zset (rlook st k) of None \<Rightarrow> (Inl wrongtype, st)
     | Some z \<Rightarrow> (Inr (length z), st))"

definition r_zfirst :: "string \<Rightarrow> (rstate, (string \<times> real) list) io" where
  "r_zfirst k = (\<lambda>st. case as_zset (rlook st k) of None \<Rightarrow> (Inl wrongtype, st)
     | Some z \<Rightarrow> (Inr (take 1 z), st))"

definition r_publish :: "string \<Rightarrow> string \<Rightarrow> (rstate, unit) io" where
  "r_publish c m = (\<lambda>st. (Inr (), st\<lparr>rlog := rlog st @ [(c, m)]\<rparr>))"

text \<open>\<open>redis.from_url\<close>: opening a connection does not touch the keyspace.\<close>

definition r_connect :: "string \<Rightarrow> (rstate, unit) io" where
  "r_connect url = io_ret ()"

section \<open>The client as a parameter\<close>

record 's env =
  x_connect :: "string \<Rightarrow> ('s, unit) io"
  x_setex :: "string \<Rightarrow> int \<Rightarrow> string \<Rightarrow> ('s, unit) io"
  x_set_nx_ex :: "string \<Rightarrow> string \<Rightarrow> int \<Rightarrow> ('s, bool) io"
  x_get :: "string \<Rightarrow> ('s, string option) io"
  x_del :: "string \<Rightarrow> ('s, nat) io"
  x_exists :: "string \<Rightarrow> ('s, bool) io"
  x_ttl :: "string \<Rightarrow> ('s, int) io"
  x_expire :: "string \<Rightarrow> int \<Rightarrow> ('s, bool) io"
  x_rpush :: "string \<Rightarrow> string \<Rightarrow> ('s, nat) io"
  x_blpop :: "string \<Rightarrow> int \<Rightarrow> ('s, string option) io"
  x_lpop :: "string \<Rightarrow> ('s, string option) io"
  x_llen :: "string \<Rightarrow> ('s, nat) io"
  x_lrange :: "string \<Rightarrow> int \<Rightarrow> int \<Rightarrow> ('s, string list) io"
  x_ltrim :: "string \<Rightarrow> int \<Rightarrow> int \<Rightarrow> ('s, unit) io"
  x_sadd :: "string \<Rightarrow> string \<Rightarrow> ('s, nat) io"
  x_srem :: "string \<Rightarrow> string \<Rightarrow> ('s, nat) io"
  x_smembers :: "string \<Rightarrow> ('s, string list) io"
  x_scard :: "string \<Rightarrow> ('s, nat) io"
  x_hset :: "string \<Rightarrow> string \<Rightarrow> string \<Rightarrow> ('s, unit) io"
  x_hsetnx :: "string \<Rightarrow> string \<Rightarrow> string \<Rightarrow> ('s, bool) io"
  x_hget :: "string \<Rightarrow> string \<Rightarrow> ('s, string option) io"
  x_hgetall :: "string \<Rightarrow> ('s, string dict) io"
  x_hincrby :: "string \<Rightarrow> string \<Rightarrow> int \<Rightarrow> ('s, int) io"
  x_incrby :: "string \<Rightarrow> int \<Rightarrow> ('s, int) io"
  x_zadd :: "string \<Rightarrow> string \<Rightarrow> real \<Rightarrow> ('s, nat) io"
  x_zremrangebyscore :: "string \<Rightarrow> real \<Rightarrow> real \<Rightarrow> ('s, nat) io"
  x_zcard :: "string \<Rightarrow> ('s, nat) io"
  x_zfirst :: "string \<Rightarrow> ('s, (string \<times> real) list) io"
  x_publish :: "string \<Rightarrow> string \<Rightarrow> ('s, unit) io"
  x_dumps :: "json \<Rightarrow> string"
  x_loads :: "string \<Rightarrow> json option"

definition spec_env ::
  "(json \<Rightarrow> string) \<Rightarrow> (string \<Rightarrow> json option) \<Rightarrow> (string list \<Rightarrow> string list) \<Rightarrow> rstate env" where
  "spec_env d l ord = \<lparr>
      x_connect = r_connect,
      x_setex = r_setex,
      x_set_nx_ex = r_set_nx_ex,
      x_get = r_get,
      x_del = r_del,
      x_exists = r_exists,
      x_ttl = r_ttl,
      x_expire = r_expire,
      x_rpush = r_rpush,
      x_blpop = r_blpop,
      x_lpop = r_lpop,
      x_llen = r_llen,
      x_lrange = r_lrange,
      x_ltrim = r_ltrim,
      x_sadd = r_sadd,
      x_srem = r_srem,
      x_smembers = r_smembers ord,
      x_scard = r_scard,
      x_hset = r_hset,
      x_hsetnx = r_hsetnx,
      x_hget = r_hget,
      x_hgetall = r_hgetall,
      x_hincrby = r_hincrby,
      x_incrby = r_incrby,
      x_zadd = r_zadd,
      x_zremrangebyscore = r_zremrangebyscore,
      x_zcard = r_zcard,
      x_zfirst = r_zfirst,
      x_publish = r_publish,
      x_dumps = d, x_loads = l\<rparr>"

definition model_env :: "'s env \<Rightarrow> (string list \<Rightarrow> string list) \<Rightarrow> rstate env" where
  "model_env E ord = spec_env (x_dumps E) (x_loads E) ord"

lemma spec_env_fields [redis_simps]:
  "x_connect (spec_env d l ord) = r_connect"
  "x_setex (spec_env d l ord) = r_setex"
  "x_set_nx_ex (spec_env d l ord) = r_set_nx_ex"
  "x_get (spec_env d l ord) = r_get"
  "x_del (spec_env d l ord) = r_del"
  "x_exists (spec_env d l ord) = r_exists"
  "x_ttl (spec_env d l ord) = r_ttl"
  "x_expire (spec_env d l ord) = r_expire"
  "x_rpush (spec_env d l ord) = r_rpush"
  "x_blpop (spec_env d l ord) = r_blpop"
  "x_lpop (spec_env d l ord) = r_lpop"
  "x_llen (spec_env d l ord) = r_llen"
  "x_lrange (spec_env d l ord) = r_lrange"
  "x_ltrim (spec_env d l ord) = r_ltrim"
  "x_sadd (spec_env d l ord) = r_sadd"
  "x_srem (spec_env d l ord) = r_srem"
  "x_smembers (spec_env d l ord) = r_smembers ord"
  "x_scard (spec_env d l ord) = r_scard"
  "x_hset (spec_env d l ord) = r_hset"
  "x_hsetnx (spec_env d l ord) = r_hsetnx"
  "x_hget (spec_env d l ord) = r_hget"
  "x_hgetall (spec_env d l ord) = r_hgetall"
  "x_hincrby (spec_env d l ord) = r_hincrby"
  "x_incrby (spec_env d l ord) = r_incrby"
  "x_zadd (spec_env d l ord) = r_zadd"
  "x_zremrangebyscore (spec_env d l ord) = r_zremrangebyscore"
  "x_zcard (spec_env d l ord) = r_zcard"
  "x_zfirst (spec_env d l ord) = r_zfirst"
  "x_publish (spec_env d l ord) = r_publish"
  "x_dumps (spec_env d l ord) = d"
  "x_loads (spec_env d l ord) = l"
  by (simp_all add: spec_env_def)

lemma model_env_codec [simp]:
  "x_dumps (model_env E ord) = x_dumps E" "x_loads (model_env E ord) = x_loads E"
  by (simp_all add: model_env_def redis_simps)

section \<open>The contract and simulation\<close>

text \<open>\<open>m\<close> over the world does what \<open>n\<close> does over the keyspace, from every healthy world.\<close>

definition sim ::
  "('s \<Rightarrow> rstate) \<Rightarrow> ('s \<Rightarrow> bool) \<Rightarrow> ('s, 'a) io \<Rightarrow> (rstate, 'a) io \<Rightarrow> bool" where
  "sim view ok m n \<longleftrightarrow>
     (\<forall>s. ok s \<longrightarrow> ok (snd (m s)) \<and> n (view s) = (fst (m s), view (snd (m s))))"

locale redis_server =
  json_codec "x_dumps E" "x_loads E" for E :: "'s env" +
  fixes view :: "'s \<Rightarrow> rstate" and healthy :: "'s \<Rightarrow> bool"
    and ord :: "string list \<Rightarrow> string list"
  assumes ord_set: "set (ord xs) = set xs"
    and ord_distinct: "distinct xs \<Longrightarrow> distinct (ord xs)"
    and connect_law: "sim view healthy (x_connect E url) (x_connect (model_env E ord) url)"
    and setex_law: "sim view healthy (x_setex E k t v) (x_setex (model_env E ord) k t v)"
    and set_nx_ex_law: "sim view healthy (x_set_nx_ex E k v t) (x_set_nx_ex (model_env E ord) k v t)"
    and get_law: "sim view healthy (x_get E k) (x_get (model_env E ord) k)"
    and del_law: "sim view healthy (x_del E k) (x_del (model_env E ord) k)"
    and exists_law: "sim view healthy (x_exists E k) (x_exists (model_env E ord) k)"
    and ttl_law: "sim view healthy (x_ttl E k) (x_ttl (model_env E ord) k)"
    and expire_law: "sim view healthy (x_expire E k t) (x_expire (model_env E ord) k t)"
    and rpush_law: "sim view healthy (x_rpush E k v) (x_rpush (model_env E ord) k v)"
    and blpop_law: "sim view healthy (x_blpop E k t) (x_blpop (model_env E ord) k t)"
    and lpop_law: "sim view healthy (x_lpop E k) (x_lpop (model_env E ord) k)"
    and llen_law: "sim view healthy (x_llen E k) (x_llen (model_env E ord) k)"
    and lrange_law: "sim view healthy (x_lrange E k a b) (x_lrange (model_env E ord) k a b)"
    and ltrim_law: "sim view healthy (x_ltrim E k a b) (x_ltrim (model_env E ord) k a b)"
    and sadd_law: "sim view healthy (x_sadd E k v) (x_sadd (model_env E ord) k v)"
    and srem_law: "sim view healthy (x_srem E k v) (x_srem (model_env E ord) k v)"
    and smembers_law: "sim view healthy (x_smembers E k) (x_smembers (model_env E ord) k)"
    and scard_law: "sim view healthy (x_scard E k) (x_scard (model_env E ord) k)"
    and hset_law: "sim view healthy (x_hset E k f v) (x_hset (model_env E ord) k f v)"
    and hsetnx_law: "sim view healthy (x_hsetnx E k f v) (x_hsetnx (model_env E ord) k f v)"
    and hget_law: "sim view healthy (x_hget E k f) (x_hget (model_env E ord) k f)"
    and hgetall_law: "sim view healthy (x_hgetall E k) (x_hgetall (model_env E ord) k)"
    and hincrby_law: "sim view healthy (x_hincrby E k f i) (x_hincrby (model_env E ord) k f i)"
    and incrby_law: "sim view healthy (x_incrby E k i) (x_incrby (model_env E ord) k i)"
    and zadd_law: "sim view healthy (x_zadd E k m x) (x_zadd (model_env E ord) k m x)"
    and zremrangebyscore_law: "sim view healthy (x_zremrangebyscore E k x y) (x_zremrangebyscore (model_env E ord) k x y)"
    and zcard_law: "sim view healthy (x_zcard E k) (x_zcard (model_env E ord) k)"
    and zfirst_law: "sim view healthy (x_zfirst E k) (x_zfirst (model_env E ord) k)"
    and publish_law: "sim view healthy (x_publish E c m) (x_publish (model_env E ord) c m)"
begin

lemmas command_laws [sim_intros] =
  connect_law setex_law set_nx_ex_law get_law del_law exists_law ttl_law
  expire_law rpush_law blpop_law lpop_law llen_law lrange_law ltrim_law
  sadd_law srem_law smembers_law scard_law hset_law hsetnx_law
  hget_law hgetall_law hincrby_law incrby_law zadd_law zremrangebyscore_law
  zcard_law zfirst_law publish_law

lemma sim_ret [sim_intros]: "sim view healthy (io_ret x) (io_ret x)"
  by (simp add: sim_def io_simps)

lemma sim_raise [sim_intros]: "sim view healthy (io_raise e) (io_raise e)"
  by (simp add: sim_def io_simps)

lemma sim_of_result [sim_intros]: "sim view healthy (io_of_result r) (io_of_result r)"
  by (simp add: sim_def io_simps)

lemma sim_bind [sim_intros]:
  assumes "sim view healthy m n" "\<And>x. sim view healthy (f x) (g x)"
  shows "sim view healthy (io_bind m f) (io_bind n g)"
  unfolding sim_def
proof (intro allI impI)
  fix s
  assume "healthy s"
  moreover obtain r s' where "m s = (r, s')" by (cases "m s")
  ultimately have "m s = (r, s')" "n (view s) = (r, view s')" "healthy s'"
    using assms(1) by (auto simp: sim_def)
  with assms(2) show "healthy (snd (io_bind m f s)) \<and>
      io_bind n g (view s) = (fst (io_bind m f s), view (snd (io_bind m f s)))"
    by (cases r) (simp_all add: io_simps sim_def)
qed

lemma sim_then [sim_intros]:
  "sim view healthy m n \<Longrightarrow> sim view healthy m' n' \<Longrightarrow> sim view healthy (io_then m m') (io_then n n')"
  unfolding io_then_def by (intro sim_bind)

lemma sim_try [sim_intros]:
  assumes "sim view healthy m n" "\<And>e. sim view healthy (h e) (k e)"
  shows "sim view healthy (io_try m h) (io_try n k)"
  unfolding sim_def
proof (intro allI impI)
  fix s
  assume "healthy s"
  moreover obtain r s' where "m s = (r, s')" by (cases "m s")
  ultimately have "m s = (r, s')" "n (view s) = (r, view s')" "healthy s'"
    using assms(1) by (auto simp: sim_def)
  with assms(2) show "healthy (snd (io_try m h s)) \<and>
      io_try n k (view s) = (fst (io_try m h s), view (snd (io_try m h s)))"
    by (cases r) (simp_all add: io_simps sim_def)
qed

lemma sim_if [sim_intros]:
  "(b \<Longrightarrow> sim view healthy m n) \<Longrightarrow> (\<not> b \<Longrightarrow> sim view healthy m' n') \<Longrightarrow>
   sim view healthy (if b then m else m') (if b then n else n')"
  by simp

lemma sim_when [sim_intros]:
  "sim view healthy m n \<Longrightarrow> sim view healthy (io_when b m) (io_when b n)"
  by (simp add: sim_def io_simps)

lemma sim_option [sim_intros]:
  "sim view healthy m n \<Longrightarrow> (\<And>x. sim view healthy (f x) (g x)) \<Longrightarrow>
   sim view healthy (case r of None \<Rightarrow> m | Some x \<Rightarrow> f x) (case r of None \<Rightarrow> n | Some x \<Rightarrow> g x)"
  by (cases r) simp_all

lemma sim_fold [sim_intros]:
  assumes "\<And>acc x. sim view healthy (f acc x) (g acc x)"
  shows "sim view healthy (io_fold f acc xs) (io_fold g acc xs)"
  by (induction xs arbitrary: acc) (simp_all add: sim_ret sim_bind assms)

lemma sim_run:
  assumes "sim view healthy m n" "healthy s" "n (view s) = (r, st)"
  shows "\<exists>s'. m s = (r, s') \<and> view s' = st \<and> healthy s'"
  using assms unfolding sim_def by (cases "m s") auto

end

section \<open>Keyspace lemmas\<close>

lemma rlook_rput [redis_simps]:
  "rlook (rput k v d st) k' =
     (if k' = k then (case d of None \<Rightarrow> Some v | Some t \<Rightarrow> if rnow st < t then Some v else None)
      else rlook st k')"
  by (auto simp: rlook_def rput_def split: option.splits)

lemma rlook_rdrop [redis_simps]: "rlook (rdrop k st) k' = (if k' = k then None else rlook st k')"
  by (auto simp: rlook_def rdrop_def split: option.splits)

lemma rdeadline_eq:
  "rdeadline st k =
     (case rdb st k of Some (v, Some d) \<Rightarrow> if rnow st < d then Some d else None | _ \<Rightarrow> None)"
  by (auto simp: rdeadline_def rlook_def split: option.splits)

lemma rlook_rstore [redis_simps]:
  "rlook (rstore k v st) k' = (if k' = k then Some v else rlook st k')"
  by (auto simp: rstore_def rlook_rput rdeadline_eq split: option.splits if_splits)

lemma rnow_writes [redis_simps]:
  "rnow (rput k v d st) = rnow st" "rnow (rdrop k st) = rnow st" "rnow (rstore k v st) = rnow st"
  by (simp_all add: rput_def rdrop_def rstore_def)

lemma rlog_irrelevant [redis_simps]:
  "rlook (st\<lparr>rlog := l\<rparr>) k = rlook st k" "rdeadline (st\<lparr>rlog := l\<rparr>) k = rdeadline st k"
  by (auto simp: rlook_def rdeadline_eq split: option.splits)

lemma rdeadline_rput [redis_simps]:
  "rdeadline (rput k v d st) k' =
     (if k' = k then (case d of None \<Rightarrow> None | Some t \<Rightarrow> if rnow st < t then Some t else None)
      else rdeadline st k')"
  by (auto simp: rdeadline_eq rput_def split: option.splits)

lemma rdeadline_rdrop [redis_simps]:
  "rdeadline (rdrop k st) k' = (if k' = k then None else rdeadline st k')"
  by (auto simp: rdeadline_eq rdrop_def split: option.splits)

lemma rdeadline_live: "rdeadline st k = Some t \<Longrightarrow> rnow st < t"
  by (auto simp: rdeadline_eq split: option.splits if_splits)

lemma rdeadline_rstore [redis_simps]: "rdeadline (rstore k v st) k' = rdeadline st k'"
  by (auto simp: rstore_def rdeadline_rput dest: rdeadline_live split: option.split)

lemma rlook_radvance:
  "rlook (radvance d st) k =
     (case rdeadline st k of Some t \<Rightarrow> if rnow st + d < t then rlook st k else None | None \<Rightarrow> rlook st k)"
  by (auto simp: rlook_def rdeadline_eq radvance_def split: option.splits)

lemma rlook_radvance_cases: "rlook (radvance d st) k = rlook st k \<or> rlook (radvance d st) k = None"
  by (simp add: rlook_radvance split: option.split)

lemma rdeadline_radvance_None: "rdeadline st k = None \<Longrightarrow> rdeadline (radvance d st) k = None"
  by (auto simp: rdeadline_eq radvance_def split: option.splits if_splits)

lemma rdeadline_radvance_Some:
  "rdeadline st k = Some t \<Longrightarrow> rnow st + d < t \<Longrightarrow> rdeadline (radvance d st) k = Some t"
  by (auto simp: rdeadline_eq radvance_def split: option.splits if_splits)

lemma rlook_radvance_forever: "rdeadline st k = None \<Longrightarrow> rlook (radvance d st) k = rlook st k"
  by (simp add: rlook_radvance)

lemma rnow_radvance [simp]: "rnow (radvance d st) = rnow st + d"
  by (simp add: radvance_def)

lemmas redis_commands =
  r_connect_def r_setex_def r_set_nx_ex_def r_get_def r_del_def r_exists_def r_ttl_def
  r_expire_def r_rpush_def r_blpop_def r_lpop_def r_llen_def r_lrange_def r_ltrim_def
  r_sadd_def r_srem_def r_smembers_def r_scard_def r_hset_def r_hsetnx_def
  r_hget_def r_hgetall_def r_hincrby_def r_incrby_def r_zadd_def r_zremrangebyscore_def
  r_zcard_def r_zfirst_def r_publish_def

section \<open>A server that fails on demand\<close>

record flaky =
  fk_state :: rstate
  fk_fault :: "nat option"

definition connection_reset :: exn where
  "connection_reset = Exn OSError ''Connection reset by peer''"

definition flaky_cmd :: "(rstate, 'a) io \<Rightarrow> (flaky, 'a) io" where
  "flaky_cmd m = (\<lambda>w. case fk_fault w of
       Some 0 \<Rightarrow> (Inl connection_reset, w\<lparr>fk_fault := None\<rparr>)
     | f \<Rightarrow> (case m (fk_state w) of (r, st) \<Rightarrow>
         (r, \<lparr>fk_state = st, fk_fault = map_option (\<lambda>n. n - 1) f\<rparr>)))"

definition flaky_env :: "flaky env" where
  "flaky_env = \<lparr>
      x_connect = \<lambda>url. flaky_cmd (r_connect url),
      x_setex = \<lambda>k t v. flaky_cmd (r_setex k t v),
      x_set_nx_ex = \<lambda>k v t. flaky_cmd (r_set_nx_ex k v t),
      x_get = \<lambda>k. flaky_cmd (r_get k),
      x_del = \<lambda>k. flaky_cmd (r_del k),
      x_exists = \<lambda>k. flaky_cmd (r_exists k),
      x_ttl = \<lambda>k. flaky_cmd (r_ttl k),
      x_expire = \<lambda>k t. flaky_cmd (r_expire k t),
      x_rpush = \<lambda>k v. flaky_cmd (r_rpush k v),
      x_blpop = \<lambda>k t. flaky_cmd (r_blpop k t),
      x_lpop = \<lambda>k. flaky_cmd (r_lpop k),
      x_llen = \<lambda>k. flaky_cmd (r_llen k),
      x_lrange = \<lambda>k a b. flaky_cmd (r_lrange k a b),
      x_ltrim = \<lambda>k a b. flaky_cmd (r_ltrim k a b),
      x_sadd = \<lambda>k v. flaky_cmd (r_sadd k v),
      x_srem = \<lambda>k v. flaky_cmd (r_srem k v),
      x_smembers = \<lambda>k. flaky_cmd (r_smembers rev k),
      x_scard = \<lambda>k. flaky_cmd (r_scard k),
      x_hset = \<lambda>k f v. flaky_cmd (r_hset k f v),
      x_hsetnx = \<lambda>k f v. flaky_cmd (r_hsetnx k f v),
      x_hget = \<lambda>k f. flaky_cmd (r_hget k f),
      x_hgetall = \<lambda>k. flaky_cmd (r_hgetall k),
      x_hincrby = \<lambda>k f i. flaky_cmd (r_hincrby k f i),
      x_incrby = \<lambda>k i. flaky_cmd (r_incrby k i),
      x_zadd = \<lambda>k m x. flaky_cmd (r_zadd k m x),
      x_zremrangebyscore = \<lambda>k x y. flaky_cmd (r_zremrangebyscore k x y),
      x_zcard = \<lambda>k. flaky_cmd (r_zcard k),
      x_zfirst = \<lambda>k. flaky_cmd (r_zfirst k),
      x_publish = \<lambda>c m. flaky_cmd (r_publish c m),
      x_dumps = print_json, x_loads = parse_json\<rparr>"

lemma flaky_env_codec [simp]: "x_dumps flaky_env = print_json" "x_loads flaky_env = parse_json"
  by (simp_all add: flaky_env_def)

lemma flaky_cmd_sim: "sim fk_state (\<lambda>w. fk_fault w = None) (flaky_cmd m) m"
  by (auto simp: sim_def flaky_cmd_def split: prod.splits)

interpretation flaky: redis_server flaky_env fk_state "\<lambda>w. fk_fault w = None" rev
  by unfold_locales
    (simp_all add: flaky_env_def model_env_def redis_simps flaky_cmd_sim parse_print_json
      print_json_nonempty)

text \<open>A concrete world for the examples: an empty keyspace on a server that does not fail.\<close>

definition empty_keyspace :: rstate where
  "empty_keyspace = \<lparr>rnow = 0, rdb = \<lambda>_. None, rlog = []\<rparr>"

definition sample_world :: flaky where
  "sample_world = \<lparr>fk_state = empty_keyspace, fk_fault = None\<rparr>"

lemma rlook_empty [simp]: "rlook empty_keyspace k = None"
  by (simp add: rlook_def empty_keyspace_def)

lemma rdeadline_empty [simp]: "rdeadline empty_keyspace k = None"
  by (simp add: rdeadline_def)

lemma sample_world_fields [simp]:
  "fk_state sample_world = empty_keyspace" "fk_fault sample_world = None"
  by (simp_all add: sample_world_def)

end
