(* ===== verification/Fifo.thy ===== *)
theory Fifo
  imports Prelude
begin

text \<open>
  The contract of a first-in first-out queue over a state: \<open>contents\<close> is the abstract queue,
  \<open>put\<close> appends an admissible element, \<open>take\<close> removes the oldest one. The client lemma is
  what the services rely on: a batch put into the queue is taken out completely and in order,
  behind what was already there.
\<close>

fun admissible :: "('a \<Rightarrow> 'a list \<Rightarrow> bool) \<Rightarrow> 'a list \<Rightarrow> 'a list \<Rightarrow> bool" where
  "admissible fresh cs [] = True"
| "admissible fresh cs (x # xs) = (fresh x cs \<and> admissible fresh (cs @ [x]) xs)"

fun takes :: "('st \<Rightarrow> 'a option \<times> 'st) \<Rightarrow> nat \<Rightarrow> 'st \<Rightarrow> 'a list \<times> 'st" where
  "takes tk 0 st = ([], st)"
| "takes tk (Suc n) st =
     (case tk st of
        (None, st') \<Rightarrow> ([], st')
      | (Some x, st') \<Rightarrow> (case takes tk n st' of (xs, st'') \<Rightarrow> (x # xs, st'')))"

locale fifo =
  fixes inv :: "'st \<Rightarrow> bool" and contents :: "'st \<Rightarrow> 'a list"
    and fresh :: "'a \<Rightarrow> 'a list \<Rightarrow> bool"
    and put :: "'a \<Rightarrow> 'st \<Rightarrow> 'st" and take_one :: "'st \<Rightarrow> 'a option \<times> 'st"
  assumes put_inv: "inv st \<Longrightarrow> fresh x (contents st) \<Longrightarrow> inv (put x st)"
    and put_contents: "inv st \<Longrightarrow> fresh x (contents st) \<Longrightarrow> contents (put x st) = contents st @ [x]"
    and take_empty: "inv st \<Longrightarrow> contents st = [] \<Longrightarrow> take_one st = (None, st)"
    and take_some: "inv st \<Longrightarrow> contents st = x # xs \<Longrightarrow>
      \<exists>st'. take_one st = (Some x, st') \<and> inv st' \<and> contents st' = xs"
begin

lemma put_all:
  "inv st \<Longrightarrow> admissible fresh (contents st) xs \<Longrightarrow>
   inv (fold put xs st) \<and> contents (fold put xs st) = contents st @ xs"
  by (induction xs arbitrary: st) (simp_all add: put_inv put_contents)

lemma take_all:
  "inv st \<Longrightarrow> contents st = xs \<Longrightarrow>
   \<exists>st'. takes take_one (length xs) st = (xs, st') \<and> inv st' \<and> contents st' = []"
proof (induction xs arbitrary: st)
  case Nil
  then show ?case by simp
next
  case (Cons x xs)
  then obtain st1 where "take_one st = (Some x, st1)" "inv st1" "contents st1 = xs"
    using take_some by blast
  with Cons.IH [of st1] show ?case by auto
qed

lemma drain:
  assumes "inv st" "admissible fresh (contents st) xs"
  shows "\<exists>st'. takes take_one (length (contents st) + length xs) (fold put xs st) =
    (contents st @ xs, st') \<and> inv st' \<and> contents st' = []"
  using take_all [of "fold put xs st"] put_all [OF assms] by auto

end

end
