(* ===== verification/Job_Queue.thy ===== *)
theory Job_Queue
  imports Redis_Env Fifo
begin

text \<open>
  \<^verbatim>\<open>shared/job_queue.py\<close>: the queue of agent jobs. A job's data, status, result,
  backup copy and start time are string keys with a time to live; the pending queue and the
  dead-letter queue are lists, the jobs being processed a set. Every operation is the whole
  method, over an arbitrary client \<open>E\<close>; the UUID \<open>uuid4\<close> draws and the clock readings are
  arguments. The last part is the queue as a state machine with its invariant.
\<close>

section \<open>Keys and the queue object\<close>

definition PENDING_JOB_QUEUE :: string where "PENDING_JOB_QUEUE = ''agent:jobs:pending''"
definition PROCESSING_SET :: string where "PROCESSING_SET = ''agent:jobs:processing''"
definition DEAD_LETTER_QUEUE :: string where "DEAD_LETTER_QUEUE = ''agent:jobs:dead_letter''"

definition job_data_key :: "string \<Rightarrow> string" where "job_data_key i = ''agent:job:data:'' @ i"
definition job_status_key :: "string \<Rightarrow> string" where "job_status_key i = ''agent:job:status:'' @ i"
definition job_result_key :: "string \<Rightarrow> string" where "job_result_key i = ''agent:job:result:'' @ i"
definition job_backup_key :: "string \<Rightarrow> string" where "job_backup_key i = job_data_key i @ '':backup''"
definition job_ts_key :: "string \<Rightarrow> string" where "job_ts_key i = job_status_key i @ '':ts''"

lemmas jq_keys = PENDING_JOB_QUEUE_def PROCESSING_SET_def DEAD_LETTER_QUEUE_def job_data_key_def
  job_status_key_def job_result_key_def job_backup_key_def job_ts_key_def

record job_queue =
  jq_url :: string
  jq_ttl :: int
  jq_connected :: bool

text \<open>\<open>_connect\<close>: the returned object is the one with \<open>self.redis\<close> set.\<close>

definition jq_connect :: "'s env \<Rightarrow> job_queue \<Rightarrow> ('s, job_queue) io" where
  "jq_connect E q =
     (if jq_connected q then io_ret q
      else io_try (io_then (x_connect E (jq_url q)) (io_ret (q\<lparr>jq_connected := True\<rparr>)))
        (\<lambda>e. if exc_isinstance e ImportError
             then io_raise (Exn QueueError ''redis package is required for JobQueue'')
             else if exc_isinstance e ConnectionRefusedError
             then io_raise (Exn QueueError
                    (''Redis connection refused at '' @ jq_url q @ ''. Is Redis running?''))
             else if exc_isinstance e TimeoutError
             then io_raise (Exn QueueError (''Redis connection timed out at '' @ jq_url q))
             else if exc_isinstance e OSError
             then io_raise (Exn QueueError (''Failed to connect to Redis: '' @ exc_msg e))
             else io_raise e))"

text \<open>\<open>ensure_connected\<close> and \<open>close\<close>; closing the client is the client's own call.\<close>

definition ensure_connected :: "'s env \<Rightarrow> job_queue \<Rightarrow> ('s, job_queue) io" where
  "ensure_connected E q = jq_connect E q"

definition jq_close :: "('s, unit) io \<Rightarrow> job_queue \<Rightarrow> ('s, job_queue) io" where
  "jq_close aclose q =
     (if jq_connected q then io_then aclose (io_ret (q\<lparr>jq_connected := False\<rparr>)) else io_ret q)"

section \<open>\<open>_validate_job_id\<close>\<close>

text \<open>
  \<open>uuid.UUID(s)\<close>: drop \<open>urn:\<close> and \<open>uuid:\<close>, strip braces, drop hyphens; 32 characters
  must remain and \<open>int(_, 16)\<close> must accept them.
\<close>

definition is_hex :: "char \<Rightarrow> bool" where
  "is_hex c \<longleftrightarrow> c \<in> set ''0123456789abcdefABCDEF''"

fun hex_digits :: "string \<Rightarrow> bool" where
  "hex_digits [] = False"
| "hex_digits [c] = is_hex c"
| "hex_digits (c # d # cs) =
     (is_hex c \<and> (if d = CHR ''_'' then hex_digits cs else hex_digits (d # cs)))"

definition int16_ok :: "string \<Rightarrow> bool" where
  "int16_ok s =
     (let t = str_strip s;
          u = (if take 1 t = ''+'' then drop 1 t else t)
      in if take 2 u = ''0x'' \<or> take 2 u = ''0X''
         then hex_digits (let v = drop 2 u in if take 1 v = ''_'' then drop 1 v else v)
         else hex_digits u)"

definition strip_braces :: "string \<Rightarrow> string" where
  "strip_braces s =
     (let b = (\<lambda>c. c = CHR 0x7B \<or> c = CHR 0x7D) in rev (dropWhile b (rev (dropWhile b s))))"

definition validate_job_id :: "string \<Rightarrow> bool" where
  "validate_job_id job_id =
     (let h = str_replace_char CHR ''-'' []
                (strip_braces (str_replace ''uuid:'' [] (str_replace ''urn:'' [] job_id)))
      in length h = 32 \<and> int16_ok h)"

section \<open>Operations\<close>

definition serialize_error :: "string \<Rightarrow> string \<Rightarrow> exn \<Rightarrow> ('s, 'a) io" where
  "serialize_error what redis_what e =
     (if exc_isinstance e TypeError \<or> exc_isinstance e ValueError
      then io_raise (Exn QueueError (what @ exc_msg e))
      else if exc_isinstance e OSError then io_raise (Exn QueueError (redis_what @ exc_msg e))
      else io_raise e)"

definition create_job :: "'s env \<Rightarrow> job_queue \<Rightarrow> string \<Rightarrow> json \<Rightarrow> ('s, string) io" where
  "create_job E q uuid4 job_data =
     io_bind (jq_connect E q) (\<lambda>q.
     io_try
       (io_then (x_setex E (job_data_key uuid4) (jq_ttl q) (x_dumps E job_data))
       (io_then (x_setex E (job_status_key uuid4) (jq_ttl q) ''pending'')
       (io_then (x_rpush E PENDING_JOB_QUEUE uuid4)
         (io_ret uuid4))))
       (serialize_error ''Failed to serialize job data: '' ''Failed to create job in Redis: ''))"

definition dead_letter :: "string \<Rightarrow> string \<Rightarrow> (string \<times> json) list \<Rightarrow> json \<Rightarrow> json" where
  "dead_letter job_id reason extra ts =
     JObj ([(''job_id'', JStr job_id), (''reason'', JStr reason)] @ extra @ [(''timestamp'', ts)])"

text \<open>
  What happens to a job id once it was popped, with the \<open>JSONDecodeError\<close> handler.
  \<open>ts\<close> and \<open>ts_str\<close> are the event loop's clock, \<open>err\<close> the decoder's message.
\<close>

definition start_job ::
  "'s env \<Rightarrow> job_queue \<Rightarrow> json \<Rightarrow> string \<Rightarrow> string \<Rightarrow> string \<Rightarrow> ('s, (string \<times> json) option) io" where
  "start_job E q ts ts_str err job_id =
     io_try
       (if \<not> validate_job_id job_id then io_ret None
        else io_bind (x_get E (job_data_key job_id)) (\<lambda>job_data_json.
          if opt_default [] job_data_json = [] then
            io_then (x_rpush E DEAD_LETTER_QUEUE (x_dumps E
                (dead_letter job_id ''data_expired'' [] ts)))
              (io_ret None)
          else (case x_loads E (opt_default [] job_data_json) of
              None \<Rightarrow> io_raise (Exn JSONDecodeError err)
            | Some job_data \<Rightarrow>
                io_then (x_sadd E PROCESSING_SET job_id)
                (io_then (x_setex E (job_status_key job_id) (jq_ttl q) ''processing'')
                (io_then (x_setex E (job_backup_key job_id) (jq_ttl q * 2)
                    (opt_default [] job_data_json))
                (io_then (x_setex E (job_ts_key job_id) (jq_ttl q) ts_str)
                  (io_ret (Some (job_id, job_data)))))))))
       (\<lambda>e. if exc_isinstance e JSONDecodeError then
               io_try
                 (io_then (x_rpush E DEAD_LETTER_QUEUE (x_dumps E
                     (dead_letter job_id ''json_decode_error'' [(''error'', JStr (exc_msg e))] ts)))
                   (io_ret None))
                 (\<lambda>dlq_err. io_ret None)
             else io_raise e)"

definition get_next_job ::
  "'s env \<Rightarrow> job_queue \<Rightarrow> int \<Rightarrow> json \<Rightarrow> string \<Rightarrow> string \<Rightarrow> ('s, (string \<times> json) option) io" where
  "get_next_job E q timeout ts ts_str err =
     io_bind (jq_connect E q) (\<lambda>q.
     io_try
       (io_bind (x_blpop E PENDING_JOB_QUEUE timeout) (\<lambda>result.
         case result of
           None \<Rightarrow> io_ret None
         | Some job_id \<Rightarrow> start_job E q ts ts_str err job_id))
       (\<lambda>e. if exc_isinstance e OSError then io_ret None else io_raise e))"

definition complete_job ::
  "'s env \<Rightarrow> job_queue \<Rightarrow> string \<Rightarrow> json \<Rightarrow> string \<Rightarrow> ('s, unit) io" where
  "complete_job E q job_id result status =
     io_bind (jq_connect E q) (\<lambda>q.
     io_try
       (io_then (x_setex E (job_result_key job_id) (jq_ttl q) (x_dumps E result))
       (io_then (x_setex E (job_status_key job_id) (jq_ttl q) status)
       (io_then (x_srem E PROCESSING_SET job_id)
       (io_then (x_del E (job_backup_key job_id))
       (io_then (x_del E (job_ts_key job_id))
         (io_ret ()))))))
       (serialize_error ''Failed to serialize result: '' ''Failed to complete job in Redis: ''))"

definition get_job_status :: "'s env \<Rightarrow> job_queue \<Rightarrow> string \<Rightarrow> ('s, string option) io" where
  "get_job_status E q job_id =
     io_bind (jq_connect E q) (\<lambda>q.
     io_try (x_get E (job_status_key job_id))
       (\<lambda>e. if exc_isinstance e OSError then io_ret None else io_raise e))"

definition get_job_result :: "'s env \<Rightarrow> job_queue \<Rightarrow> string \<Rightarrow> ('s, json option) io" where
  "get_job_result E q job_id =
     io_bind (jq_connect E q) (\<lambda>q.
     io_try
       (io_bind (x_get E (job_result_key job_id)) (\<lambda>result_json.
         if opt_default [] result_json = [] then io_ret None
         else (case x_loads E (opt_default [] result_json) of
                 None \<Rightarrow> io_raise (Exn JSONDecodeError ''result'')
               | Some result \<Rightarrow> io_ret (Some result))))
       (\<lambda>e. if exc_isinstance e JSONDecodeError then io_ret None
            else if exc_isinstance e OSError then io_ret None else io_raise e))"

text \<open>
  The backup without its \<open>github_token\<close>: text that is not JSON is restored as it is, and so
  is a JSON array (\<open>list.pop\<close> rejects the arguments with \<open>TypeError\<close>); any other
  non-object has no \<open>pop\<close> at all.
\<close>

definition strip_token :: "'s env \<Rightarrow> string \<Rightarrow> string result" where
  "strip_token E backup_json =
     (case x_loads E backup_json of
        None \<Rightarrow> Inr backup_json
      | Some (JObj d) \<Rightarrow> Inr (x_dumps E (JObj (dict_del ''github_token'' d)))
      | Some (JArr xs) \<Rightarrow> Inr backup_json
      | Some _ \<Rightarrow> Inl (Exn AttributeError ''pop''))"

definition reclaim_one :: "'s env \<Rightarrow> job_queue \<Rightarrow> nat \<Rightarrow> string \<Rightarrow> ('s, nat) io" where
  "reclaim_one E q reclaimed job_id =
     io_try
       (io_bind (x_exists E (job_data_key job_id)) (\<lambda>data_exists.
         if data_exists then io_ret reclaimed
         else io_bind (x_get E (job_backup_key job_id)) (\<lambda>backup_json.
           if opt_default [] backup_json \<noteq> [] then
             io_bind (io_of_result (strip_token E (opt_default [] backup_json))) (\<lambda>restored_json.
               io_then (x_setex E (job_data_key job_id) (jq_ttl q) restored_json)
               (io_then (x_setex E (job_status_key job_id) (jq_ttl q) ''pending'')
               (io_then (x_rpush E PENDING_JOB_QUEUE job_id)
               (io_then (x_srem E PROCESSING_SET job_id)
               (io_then (x_del E (job_backup_key job_id))
               (io_then (x_del E (job_ts_key job_id))
                 (io_ret (Suc reclaimed))))))))
           else io_then (x_srem E PROCESSING_SET job_id) (io_ret reclaimed))))
       (\<lambda>e. if exc_isinstance e OSError then io_ret reclaimed else io_raise e)"

definition reclaim_stale_jobs :: "'s env \<Rightarrow> job_queue \<Rightarrow> ('s, nat) io" where
  "reclaim_stale_jobs E q =
     io_bind (jq_connect E q) (\<lambda>q.
     io_bind
       (io_try (io_bind (x_smembers E PROCESSING_SET) (\<lambda>ids. io_ret (Some ids)))
         (\<lambda>e. if exc_isinstance e OSError then io_ret None else io_raise e))
       (\<lambda>job_ids. case job_ids of
           None \<Rightarrow> io_ret 0
         | Some ids \<Rightarrow> io_fold (reclaim_one E q) 0 ids))"

definition count_or_zero :: "('s, nat) io \<Rightarrow> ('s, nat) io" where
  "count_or_zero m = io_try m (\<lambda>e. if exc_isinstance e OSError then io_ret 0 else io_raise e)"

definition get_queue_depth :: "'s env \<Rightarrow> job_queue \<Rightarrow> ('s, nat) io" where
  "get_queue_depth E q =
     io_bind (jq_connect E q) (\<lambda>q. count_or_zero (x_llen E PENDING_JOB_QUEUE))"

definition get_processing_count :: "'s env \<Rightarrow> job_queue \<Rightarrow> ('s, nat) io" where
  "get_processing_count E q =
     io_bind (jq_connect E q) (\<lambda>q. count_or_zero (x_scard E PROCESSING_SET))"

definition get_dead_letter_count :: "'s env \<Rightarrow> job_queue \<Rightarrow> ('s, nat) io" where
  "get_dead_letter_count E q =
     io_bind (jq_connect E q) (\<lambda>q. count_or_zero (x_llen E DEAD_LETTER_QUEUE))"

fun loads_all :: "'s env \<Rightarrow> string list \<Rightarrow> json list option" where
  "loads_all E [] = Some []"
| "loads_all E (x # xs) =
     (case x_loads E x of None \<Rightarrow> None | Some j \<Rightarrow> map_option ((#) j) (loads_all E xs))"

definition inspect_dead_letters :: "'s env \<Rightarrow> job_queue \<Rightarrow> int \<Rightarrow> ('s, json list) io" where
  "inspect_dead_letters E q limit =
     io_bind (jq_connect E q) (\<lambda>q.
     io_try
       (io_bind (x_lrange E DEAD_LETTER_QUEUE 0 (limit - 1)) (\<lambda>entries.
         case loads_all E entries of
           None \<Rightarrow> io_raise (Exn JSONDecodeError ''entry'')
         | Some js \<Rightarrow> io_ret js))
       (\<lambda>e. if exc_isinstance e OSError \<or> exc_isinstance e JSONDecodeError then io_ret []
            else io_raise e))"

section \<open>Running on any client that meets the contract\<close>

context redis_server
begin

lemmas jq_defs = jq_connect_def create_job_def get_next_job_def start_job_def complete_job_def
  get_job_status_def get_job_result_def reclaim_one_def reclaim_stale_jobs_def
  serialize_error_def get_queue_depth_def get_processing_count_def count_or_zero_def strip_token_def

lemma jq_connect_sim [sim_intros]:
  "sim view healthy (jq_connect E q) (jq_connect (model_env E ord) q)"
  unfolding jq_connect_def by (intro sim_intros)

lemma create_job_sim: "sim view healthy (create_job E q i d) (create_job (model_env E ord) q i d)"
  unfolding create_job_def serialize_error_def model_env_codec by (intro sim_intros)

lemma get_next_job_sim:
  "sim view healthy (get_next_job E q t ts u err) (get_next_job (model_env E ord) q t ts u err)"
  unfolding get_next_job_def start_job_def model_env_codec by (intro sim_intros)

lemma complete_job_sim:
  "sim view healthy (complete_job E q i r t) (complete_job (model_env E ord) q i r t)"
  unfolding complete_job_def serialize_error_def model_env_codec by (intro sim_intros)

lemma get_job_status_sim:
  "sim view healthy (get_job_status E q i) (get_job_status (model_env E ord) q i)"
  unfolding get_job_status_def by (intro sim_intros)

lemma get_job_result_sim:
  "sim view healthy (get_job_result E q i) (get_job_result (model_env E ord) q i)"
  unfolding get_job_result_def model_env_codec by (intro sim_intros)

lemma strip_token_model [simp]: "strip_token (model_env E ord) b = strip_token E b"
  by (simp add: strip_token_def split: option.split json.split)

lemma reclaim_one_sim [sim_intros]:
  "sim view healthy (reclaim_one E q n i) (reclaim_one (model_env E ord) q n i)"
  unfolding reclaim_one_def strip_token_model by (intro sim_intros)

lemma reclaim_stale_jobs_sim:
  "sim view healthy (reclaim_stale_jobs E q) (reclaim_stale_jobs (model_env E ord) q)"
  unfolding reclaim_stale_jobs_def by (intro sim_intros)

end

section \<open>What the operations do to the keyspace\<close>

definition pending :: "rstate \<Rightarrow> string list" where
  "pending st = opt_default [] (as_list (rlook st PENDING_JOB_QUEUE))"

definition processing :: "rstate \<Rightarrow> string list" where
  "processing st = opt_default [] (as_set (rlook st PROCESSING_SET))"

definition dead_letters :: "rstate \<Rightarrow> string list" where
  "dead_letters st = opt_default [] (as_list (rlook st DEAD_LETTER_QUEUE))"

definition job_text :: "rstate \<Rightarrow> string \<Rightarrow> string" where
  "job_text st i = opt_default [] (opt_default None (as_str (rlook st (job_data_key i))))"

text \<open>
  The types of the queue's keys: lists, a set and strings, the containers without a time to
  live (no code path sets one).
\<close>

definition jq_wf :: "rstate \<Rightarrow> bool" where
  "jq_wf st \<longleftrightarrow>
     as_list (rlook st PENDING_JOB_QUEUE) \<noteq> None \<and> rdeadline st PENDING_JOB_QUEUE = None \<and>
     as_set (rlook st PROCESSING_SET) \<noteq> None \<and> rdeadline st PROCESSING_SET = None \<and>
     as_list (rlook st DEAD_LETTER_QUEUE) \<noteq> None \<and> rdeadline st DEAD_LETTER_QUEUE = None \<and>
     (\<forall>i. as_str (rlook st (job_data_key i)) \<noteq> None) \<and>
     (\<forall>i. as_str (rlook st (job_status_key i)) \<noteq> None) \<and>
     (\<forall>i. as_str (rlook st (job_result_key i)) \<noteq> None)"

lemma jq_wf_pending: "jq_wf st \<Longrightarrow> as_list (rlook st PENDING_JOB_QUEUE) = Some (pending st)"
  by (auto simp: jq_wf_def pending_def)

lemma jq_wf_processing: "jq_wf st \<Longrightarrow> as_set (rlook st PROCESSING_SET) = Some (processing st)"
  by (auto simp: jq_wf_def processing_def)

lemma jq_wf_dead: "jq_wf st \<Longrightarrow> as_list (rlook st DEAD_LETTER_QUEUE) = Some (dead_letters st)"
  by (auto simp: jq_wf_def dead_letters_def)

lemma jq_wf_data:
  assumes "jq_wf st"
  obtains r where "as_str (rlook st (job_data_key i)) = Some r" "opt_default [] r = job_text st i"
proof -
  have "as_str (rlook st (job_data_key i)) \<noteq> None"
    using assms unfolding jq_wf_def by blast
  then obtain r where "as_str (rlook st (job_data_key i)) = Some r" by blast
  then show thesis by (rule that) (simp add: job_text_def \<open>as_str _ = Some r\<close>)
qed

lemma jq_key_neq [simp]:
  "PENDING_JOB_QUEUE \<noteq> PROCESSING_SET" "PENDING_JOB_QUEUE \<noteq> DEAD_LETTER_QUEUE"
  "PROCESSING_SET \<noteq> PENDING_JOB_QUEUE" "DEAD_LETTER_QUEUE \<noteq> PENDING_JOB_QUEUE"
  "PROCESSING_SET \<noteq> DEAD_LETTER_QUEUE" "DEAD_LETTER_QUEUE \<noteq> PROCESSING_SET"
  "PENDING_JOB_QUEUE \<noteq> job_data_key i" "PENDING_JOB_QUEUE \<noteq> job_status_key i"
  "PENDING_JOB_QUEUE \<noteq> job_result_key i" "job_data_key i \<noteq> PENDING_JOB_QUEUE"
  "job_status_key i \<noteq> PENDING_JOB_QUEUE" "job_result_key i \<noteq> PENDING_JOB_QUEUE"
  "PROCESSING_SET \<noteq> job_data_key i" "PROCESSING_SET \<noteq> job_status_key i"
  "PROCESSING_SET \<noteq> job_result_key i" "job_data_key i \<noteq> PROCESSING_SET"
  "job_status_key i \<noteq> PROCESSING_SET" "job_result_key i \<noteq> PROCESSING_SET"
  "DEAD_LETTER_QUEUE \<noteq> job_data_key i" "DEAD_LETTER_QUEUE \<noteq> job_status_key i"
  "DEAD_LETTER_QUEUE \<noteq> job_result_key i" "job_data_key i \<noteq> DEAD_LETTER_QUEUE"
  "job_status_key i \<noteq> DEAD_LETTER_QUEUE" "job_result_key i \<noteq> DEAD_LETTER_QUEUE"
  "job_data_key i \<noteq> job_status_key j" "job_data_key i \<noteq> job_result_key j"
  "job_status_key i \<noteq> job_data_key j" "job_status_key i \<noteq> job_result_key j"
  "job_result_key i \<noteq> job_data_key j" "job_result_key i \<noteq> job_status_key j"
  by (simp_all add: jq_keys)

lemma jq_key_inject [simp]:
  "job_data_key i = job_data_key j \<longleftrightarrow> i = j" "job_status_key i = job_status_key j \<longleftrightarrow> i = j"
  "job_result_key i = job_result_key j \<longleftrightarrow> i = j"
  by (simp_all add: jq_keys)

lemma job_backup_key_data: "job_backup_key i = job_data_key (i @ '':backup'')"
  by (simp add: jq_keys)

lemma job_ts_key_status: "job_ts_key i = job_status_key (i @ '':ts'')"
  by (simp add: jq_keys)

lemma jq_derived_key_neq [simp]:
  "job_backup_key i \<noteq> job_data_key i" "job_ts_key i \<noteq> job_status_key i"
  "job_backup_key i \<noteq> job_status_key j" "job_ts_key i \<noteq> job_data_key j"
  "job_backup_key i \<noteq> job_result_key j" "job_ts_key i \<noteq> job_result_key j"
  "job_data_key i \<noteq> job_backup_key i" "job_status_key i \<noteq> job_ts_key i"
  "job_status_key j \<noteq> job_backup_key i" "job_data_key j \<noteq> job_ts_key i"
  "job_result_key j \<noteq> job_backup_key i" "job_result_key j \<noteq> job_ts_key i"
  by (simp_all add: job_backup_key_data job_ts_key_status)

text \<open>Writes to the queue's keys, and what they change of the abstract queue.\<close>

definition put_job_str :: "string \<Rightarrow> bool" where
  "put_job_str k \<longleftrightarrow> (\<exists>i. k = job_data_key i \<or> k = job_status_key i \<or> k = job_result_key i)"

lemma put_job_str_keys [simp]:
  "put_job_str (job_data_key i)" "put_job_str (job_status_key i)" "put_job_str (job_result_key i)"
  "put_job_str (job_backup_key i)" "put_job_str (job_ts_key i)"
  unfolding put_job_str_def job_backup_key_data job_ts_key_status by blast+

lemma jq_wf_rput: "jq_wf st \<Longrightarrow> put_job_str k \<Longrightarrow> jq_wf (rput k (RStr v) d st)"
  by (auto simp: jq_wf_def redis_simps put_job_str_def split: option.split)

lemma jq_wf_rdrop: "jq_wf st \<Longrightarrow> jq_wf (rdrop k st)"
  by (auto simp: jq_wf_def redis_simps)

lemma jq_wf_rstore:
  "jq_wf st \<Longrightarrow> jq_wf (rstore PENDING_JOB_QUEUE (RList xs) st)"
  "jq_wf st \<Longrightarrow> jq_wf (rstore DEAD_LETTER_QUEUE (RList xs) st)"
  "jq_wf st \<Longrightarrow> jq_wf (rstore PROCESSING_SET (RSet xs) st)"
  by (auto simp: jq_wf_def redis_simps)

lemma jq_wf_radvance:
  assumes "jq_wf st"
  shows "jq_wf (radvance d st)"
proof -
  have "as_str (rlook (radvance d st) k) \<noteq> None" if "as_str (rlook st k) \<noteq> None" for k
    using that rlook_radvance_cases [of d st k] by auto
  with assms show ?thesis
    unfolding jq_wf_def by (simp add: rlook_radvance_forever rdeadline_radvance_None)
qed

lemmas jq_wf_writes = jq_wf_rput jq_wf_rdrop jq_wf_rstore

lemma jq_connect_spec [io_simps]:
  "jq_connect (spec_env d l ord) q st = (Inr (q\<lparr>jq_connected := True\<rparr>), st)"
  by (cases q) (simp add: jq_connect_def redis_simps redis_commands io_simps)

lemmas jq_run = io_simps redis_simps redis_commands jq_wf_pending jq_wf_processing jq_wf_dead

text \<open>The part of the keyspace the operations of one job leave alone.\<close>

definition same_queues :: "rstate \<Rightarrow> rstate \<Rightarrow> bool" where
  "same_queues st st' \<longleftrightarrow> pending st' = pending st \<and> processing st' = processing st \<and>
     dead_letters st' = dead_letters st"

lemma queues_rput [simp]:
  assumes "put_job_str k"
  shows "pending (rput k v d st) = pending st" "processing (rput k v d st) = processing st"
    "dead_letters (rput k v d st) = dead_letters st"
  using assms by (auto simp: pending_def processing_def dead_letters_def redis_simps put_job_str_def)

lemma queues_rdrop [simp]:
  assumes "put_job_str k"
  shows "pending (rdrop k st) = pending st" "processing (rdrop k st) = processing st"
    "dead_letters (rdrop k st) = dead_letters st"
  using assms by (auto simp: pending_def processing_def dead_letters_def redis_simps put_job_str_def)

lemma queues_rstore [simp]:
  "pending (rstore PENDING_JOB_QUEUE (RList xs) st) = xs"
  "processing (rstore PENDING_JOB_QUEUE (RList xs) st) = processing st"
  "dead_letters (rstore PENDING_JOB_QUEUE (RList xs) st) = dead_letters st"
  "pending (rstore PROCESSING_SET (RSet xs) st) = pending st"
  "processing (rstore PROCESSING_SET (RSet xs) st) = xs"
  "dead_letters (rstore PROCESSING_SET (RSet xs) st) = dead_letters st"
  "pending (rstore DEAD_LETTER_QUEUE (RList xs) st) = pending st"
  "processing (rstore DEAD_LETTER_QUEUE (RList xs) st) = processing st"
  "dead_letters (rstore DEAD_LETTER_QUEUE (RList xs) st) = xs"
  "pending (rdrop PENDING_JOB_QUEUE st) = []"
  "processing (rdrop PENDING_JOB_QUEUE st) = processing st"
  "dead_letters (rdrop PENDING_JOB_QUEUE st) = dead_letters st"
  "pending (rdrop PROCESSING_SET st) = pending st"
  "processing (rdrop PROCESSING_SET st) = []"
  "dead_letters (rdrop PROCESSING_SET st) = dead_letters st"
  by (simp_all add: pending_def processing_def dead_letters_def redis_simps)

lemma job_text_writes [simp]:
  "job_text (rstore PENDING_JOB_QUEUE v st) j = job_text st j"
  "job_text (rstore PROCESSING_SET v st) j = job_text st j"
  "job_text (rstore DEAD_LETTER_QUEUE v st) j = job_text st j"
  "job_text (rdrop PENDING_JOB_QUEUE st) j = job_text st j"
  "job_text (rdrop PROCESSING_SET st) j = job_text st j"
  "job_text (rput (job_status_key i) v d st) j = job_text st j"
  "job_text (rput (job_result_key i) v d st) j = job_text st j"
  "job_text (rput (job_ts_key i) v d st) j = job_text st j"
  "job_text (rdrop (job_ts_key i) st) j = job_text st j"
  "job_text (rdrop (job_status_key i) st) j = job_text st j"
  by (simp_all add: job_text_def redis_simps job_ts_key_status)

lemma job_text_data [simp]:
  "rnow st < t \<Longrightarrow>
   job_text (rput (job_data_key i) (RStr s) (Some t) st) j = (if j = i then s else job_text st j)"
  "rnow st < t \<Longrightarrow>
   job_text (rput (job_backup_key i) (RStr s) (Some t) st) j =
     (if j = i @ '':backup'' then s else job_text st j)"
  "job_text (rdrop (job_backup_key i) st) j = (if j = i @ '':backup'' then [] else job_text st j)"
  "job_text (rdrop (job_data_key i) st) j = (if j = i then [] else job_text st j)"
  by (simp_all add: job_text_def redis_simps job_backup_key_data)

lemma create_job_spec:
  assumes "jq_wf st" "0 < jq_ttl q"
  shows "\<exists>st'. create_job (spec_env d l ord) q i j st = (Inr i, st') \<and> jq_wf st' \<and>
    pending st' = pending st @ [i] \<and> processing st' = processing st \<and>
    dead_letters st' = dead_letters st \<and> rnow st' = rnow st \<and>
    job_text st' = (job_text st)(i := d j)"
  using assms by (simp add: create_job_def jq_run jq_wf_writes fun_eq_iff)

lemma get_next_job_empty:
  assumes "jq_wf st" "pending st = []"
  shows "get_next_job (spec_env d l ord) q t ts u err st = (Inr None, st)"
  using assms by (simp add: get_next_job_def jq_run)

lemma pop_pending:
  assumes "jq_wf st" "pending st = i # is"
  shows "\<exists>st'. r_blpop PENDING_JOB_QUEUE t st = (Inr (Some i), st') \<and> jq_wf st' \<and>
    pending st' = is \<and> processing st' = processing st \<and> dead_letters st' = dead_letters st \<and>
    rnow st' = rnow st \<and> (\<forall>k. k \<noteq> PENDING_JOB_QUEUE \<longrightarrow> rlook st' k = rlook st k) \<and>
    job_text st' = job_text st"
  using assms by (cases "is") (auto simp: jq_run jq_wf_writes fun_eq_iff)

lemma get_next_job_pop:
  assumes "r_blpop PENDING_JOB_QUEUE t st = (Inr (Some i), st1)"
    and "start_job (spec_env d l ord) (q\<lparr>jq_connected := True\<rparr>) ts u err i st1 = (Inr r, st')"
  shows "get_next_job (spec_env d l ord) q t ts u err st = (Inr r, st')"
  using assms by (simp add: get_next_job_def io_simps redis_simps)

lemma get_job_text:
  assumes "jq_wf st"
  obtains r where "r_get (job_data_key i) st = (Inr r, st)" "opt_default [] r = job_text st i"
  by (rule jq_wf_data [OF assms, of i], rule that) (simp_all add: r_get_def)

lemma start_job_invalid:
  "\<not> validate_job_id i \<Longrightarrow> start_job (spec_env d l ord) q ts u err i st = (Inr None, st)"
  by (simp add: start_job_def io_simps)

lemma start_job_ok:
  assumes "jq_wf st" "0 < jq_ttl q" "validate_job_id i" "job_text st i \<noteq> []"
    and "l (job_text st i) = Some v"
  shows "\<exists>st'. start_job (spec_env d l ord) q ts u err i st = (Inr (Some (i, v)), st') \<and> jq_wf st' \<and>
    pending st' = pending st \<and>
    processing st' = (if i \<in> set (processing st) then processing st else processing st @ [i]) \<and>
    dead_letters st' = dead_letters st \<and> rnow st' = rnow st \<and>
    job_text st' = (job_text st)(i @ '':backup'' := job_text st i)"
proof -
  obtain r where "r_get (job_data_key i) st = (Inr r, st)" "opt_default [] r = job_text st i"
    using get_job_text [OF assms(1)] .
  with assms show ?thesis
    by (simp add: start_job_def io_simps redis_simps,
        simp add: jq_run jq_wf_writes fun_eq_iff)
qed

lemma start_job_expired:
  assumes "jq_wf st" "validate_job_id i" "job_text st i = []"
  shows "\<exists>st'. start_job (spec_env d l ord) q ts u err i st = (Inr None, st') \<and> jq_wf st' \<and>
    pending st' = pending st \<and> processing st' = processing st \<and>
    dead_letters st' = dead_letters st @ [d (dead_letter i ''data_expired'' [] ts)] \<and>
    job_text st' = job_text st"
proof -
  obtain r where "r_get (job_data_key i) st = (Inr r, st)" "opt_default [] r = job_text st i"
    using get_job_text [OF assms(1)] .
  with assms show ?thesis
    by (simp add: start_job_def io_simps redis_simps,
        simp add: jq_run jq_wf_writes fun_eq_iff)
qed

lemma start_job_corrupt:
  assumes "jq_wf st" "validate_job_id i" "job_text st i \<noteq> []" "l (job_text st i) = None"
  shows "\<exists>st'. start_job (spec_env d l ord) q ts u err i st = (Inr None, st') \<and> jq_wf st' \<and>
    pending st' = pending st \<and> processing st' = processing st \<and>
    dead_letters st' = dead_letters st @
      [d (dead_letter i ''json_decode_error'' [(''error'', JStr err)] ts)] \<and>
    job_text st' = job_text st"
proof -
  obtain r where "r_get (job_data_key i) st = (Inr r, st)" "opt_default [] r = job_text st i"
    using get_job_text [OF assms(1)] .
  with assms show ?thesis
    by (simp add: start_job_def io_simps redis_simps,
        simp add: jq_run jq_wf_writes fun_eq_iff)
qed

lemma complete_job_spec:
  assumes "jq_wf st" "0 < jq_ttl q"
  shows "\<exists>st'. complete_job (spec_env d l ord) q i r s st = (Inr (), st') \<and> jq_wf st' \<and>
    pending st' = pending st \<and> processing st' = removeAll i (processing st) \<and>
    dead_letters st' = dead_letters st \<and> rnow st' = rnow st \<and>
    job_text st' = (job_text st)(i @ '':backup'' := []) \<and>
    rlook st' (job_result_key i) = Some (RStr (d r)) \<and> rlook st' (job_status_key i) = Some (RStr s)"
  using assms
  by (simp add: complete_job_def jq_run jq_wf_writes fun_eq_iff Let_def)

section \<open>Validated ids\<close>

lemma hex_digits_chars: "hex_digits s \<Longrightarrow> c \<in> set s \<Longrightarrow> is_hex c \<or> c = CHR ''_''"
  by (induction s rule: hex_digits.induct) (auto split: if_splits)

lemma str_replace_keeps: "c \<in> set s \<Longrightarrow> c \<notin> set old \<Longrightarrow> c \<in> set (str_replace old new s)"
proof (induction old new s rule: str_replace.induct)
  case (2 old new a as)
  show ?case
  proof (cases "old \<noteq> [] \<and> str_startswith (a # as) old")
    case True
    then have "a # as = old @ drop (length old) (a # as)"
      by (metis str_startswith_def append_take_drop_id)
    with "2.prems" have "c \<in> set (drop (length old) (a # as))" by (metis Un_iff set_append)
    with 2 True show ?thesis by simp
  qed (use 2 in auto)
qed simp

lemma dropWhile_keeps: "c \<in> set s \<Longrightarrow> \<not> P c \<Longrightarrow> c \<in> set (dropWhile P s)"
  by (induction s) auto

lemma int16_ok_chars:
  assumes "int16_ok s" "c \<in> set s"
  shows "is_hex c \<or> is_space c \<or> c \<in> set ''_+xX''"
proof (rule ccontr)
  assume no: "\<not> ?thesis"
  define t where "t = str_strip s"
  define u where "u = (if take 1 t = ''+'' then drop 1 t else t)"
  define v where "v = (if take 2 u = ''0x'' \<or> take 2 u = ''0X''
    then (let v = drop 2 u in if take 1 v = ''_'' then drop 1 v else v) else u)"
  have dropk: "c \<in> set (drop n xs)" if "c \<in> set xs" "c \<notin> set (take n xs)" for n xs
    using that by (metis Un_iff append_take_drop_id set_append)
  have "c \<in> set t" using assms(2) no
    by (simp add: t_def str_strip_def str_rstrip_def str_lstrip_def dropWhile_keeps)
  then have "c \<in> set u" using no dropk [of t 1] by (auto simp: u_def)
  then have "c \<in> set v" using no dropk [of u 2] dropk [of "drop 2 u" 1]
    by (auto simp: v_def Let_def is_hex_def)
  moreover have "hex_digits v"
    using assms(1) unfolding int16_ok_def v_def u_def t_def Let_def
    by (simp only: if_distrib [of hex_digits])
  ultimately show False using no hex_digits_chars [of v c] by auto
qed

lemma validate_job_id_no_k:
  assumes "validate_job_id i"
  shows "CHR ''k'' \<notin> set i"
proof
  assume k: "CHR ''k'' \<in> set i"
  define h where "h = str_replace_char CHR ''-'' []
    (strip_braces (str_replace ''uuid:'' [] (str_replace ''urn:'' [] i)))"
  have "CHR ''k'' \<in> set (str_replace ''uuid:'' [] (str_replace ''urn:'' [] i))"
    using k by (intro str_replace_keeps) auto
  then have "CHR ''k'' \<in> set h"
    by (simp add: h_def str_replace_char_def strip_braces_def Let_def dropWhile_keeps
        bexI [of _ "CHR ''k''"])
  moreover have "int16_ok h"
    using assms by (simp add: validate_job_id_def h_def Let_def)
  ultimately show False
    using int16_ok_chars [of h "CHR ''k''"] by (simp add: is_hex_def is_space_def)
qed

lemma backup_not_job_id [simp]: "\<not> validate_job_id (i @ '':backup'')"
  using validate_job_id_no_k [of "i @ '':backup''"] by auto

section \<open>Reclaiming\<close>

definition stale :: "rstate \<Rightarrow> string \<Rightarrow> bool" where
  "stale st i \<longleftrightarrow> rlook st (job_data_key i) = None"

definition backup :: "rstate \<Rightarrow> string \<Rightarrow> string" where
  "backup st i = job_text st (i @ '':backup'')"

definition revivable :: "rstate \<Rightarrow> string \<Rightarrow> bool" where
  "revivable st i \<longleftrightarrow> stale st i \<and> backup st i \<noteq> []"

definition restorable :: "(string \<Rightarrow> json option) \<Rightarrow> rstate \<Rightarrow> string \<Rightarrow> bool" where
  "restorable l st i \<longleftrightarrow> (\<exists>kvs. l (backup st i) = Some (JObj kvs))"

definition without_token :: "(json \<Rightarrow> string) \<Rightarrow> (string \<Rightarrow> json option) \<Rightarrow> string \<Rightarrow> string" where
  "without_token d l b =
     (case l b of Some (JObj kvs) \<Rightarrow> d (JObj (dict_del ''github_token'' kvs)) | _ \<Rightarrow> b)"

text \<open>The jobs a command of another job does not touch.\<close>

definition same_job :: "rstate \<Rightarrow> rstate \<Rightarrow> string \<Rightarrow> bool" where
  "same_job st st' j \<longleftrightarrow> stale st' j = stale st j \<and> job_text st' j = job_text st j \<and>
     backup st' j = backup st j"

lemma get_backup:
  assumes "jq_wf st"
  obtains r where "r_get (job_backup_key i) st = (Inr r, st)" "opt_default [] r = backup st i"
  using get_job_text [OF assms] unfolding job_backup_key_data backup_def by blast

lemma reclaim_one_live:
  "\<not> stale st i \<Longrightarrow> reclaim_one (spec_env d l ord) q n i st = (Inr n, st)"
  by (simp add: reclaim_one_def jq_run stale_def)

lemma reclaim_one_zombie:
  assumes "jq_wf st" "stale st i" "backup st i = []"
  shows "\<exists>st'. reclaim_one (spec_env d l ord) q n i st = (Inr n, st') \<and> jq_wf st' \<and>
    pending st' = pending st \<and> processing st' = removeAll i (processing st) \<and>
    dead_letters st' = dead_letters st \<and> (\<forall>j. same_job st st' j)"
proof -
  obtain r where "r_get (job_backup_key i) st = (Inr r, st)" "opt_default [] r = backup st i"
    using get_backup [OF assms(1)] .
  with assms show ?thesis
    by (simp add: reclaim_one_def io_simps redis_simps r_exists_def stale_def,
        simp add: jq_run jq_wf_writes Let_def same_job_def stale_def backup_def)
qed

lemma reclaim_one_revive:
  assumes "jq_wf st" "0 < jq_ttl q" "revivable st i" "restorable l st i" "validate_job_id i"
  shows "\<exists>st'. reclaim_one (spec_env d l ord) q n i st = (Inr (Suc n), st') \<and> jq_wf st' \<and>
    pending st' = pending st @ [i] \<and> processing st' = removeAll i (processing st) \<and>
    dead_letters st' = dead_letters st \<and> \<not> stale st' i \<and>
    job_text st' i = without_token d l (backup st i) \<and> backup st' i = [] \<and>
    (\<forall>j. validate_job_id j \<and> j \<noteq> i \<longrightarrow> same_job st st' j)"
proof -
  obtain r where "r_get (job_backup_key i) st = (Inr r, st)" "opt_default [] r = backup st i"
    using get_backup [OF assms(1)] .
  moreover obtain ob where "l (backup st i) = Some (JObj ob)"
    using assms(4) by (auto simp: restorable_def)
  ultimately show ?thesis using assms
    by (simp add: reclaim_one_def io_simps redis_simps r_exists_def stale_def revivable_def
        strip_token_def,
        auto simp: jq_run jq_wf_writes Let_def same_job_def stale_def backup_def without_token_def
          job_ts_key_status job_backup_key_data)
qed

text \<open>One round of the loop, all cases together.\<close>

lemma reclaim_one_spec:
  assumes "jq_wf st" "0 < jq_ttl q" "validate_job_id i" "revivable st i \<longrightarrow> restorable l st i"
  shows "\<exists>st'. reclaim_one (spec_env d l ord) q n i st =
      (Inr (n + length (filter (revivable st) [i])), st') \<and> jq_wf st' \<and>
    pending st' = pending st @ filter (revivable st) [i] \<and>
    processing st' = filter (\<lambda>j. \<not> (j = i \<and> stale st j)) (processing st) \<and>
    dead_letters st' = dead_letters st \<and>
    (revivable st i \<longrightarrow> \<not> stale st' i \<and> job_text st' i = without_token d l (backup st i) \<and> backup st' i = []) \<and>
    (\<forall>j. validate_job_id j \<and> \<not> (j = i \<and> revivable st i) \<longrightarrow> same_job st st' j)"
proof (cases "stale st i")
  case False
  then show ?thesis
    using assms(1) by (auto simp: reclaim_one_live revivable_def same_job_def intro: sym [OF filter_True])
next
  case True
  then have proc: "filter (\<lambda>j. \<not> (j = i \<and> stale st j)) xs = removeAll i xs" for xs
    by (induction xs) auto
  show ?thesis
  proof (cases "backup st i = []")
    case b: True
    from reclaim_one_zombie [OF assms(1) True b, of d l ord q n] b show ?thesis
      unfolding proc by (auto simp: revivable_def)
  next
    case False
    with True have rv: "revivable st i" by (simp add: revivable_def)
    with assms have "restorable l st i" by simp
    from reclaim_one_revive [OF assms(1,2) rv this assms(3), of d ord n] rv show ?thesis
      unfolding proc by auto
  qed
qed

lemma same_job_trans: "same_job st st1 j \<Longrightarrow> same_job st1 st2 j \<Longrightarrow> same_job st st2 j"
  by (simp add: same_job_def)

lemma reclaim_fold:
  assumes "jq_wf st" "0 < jq_ttl q" "distinct ids" "\<forall>i \<in> set ids. validate_job_id i"
    and "\<forall>i \<in> set ids. revivable st i \<longrightarrow> restorable l st i"
  shows "\<exists>st'. io_fold (reclaim_one (spec_env d l ord) q) n ids st =
      (Inr (n + length (filter (revivable st) ids)), st') \<and> jq_wf st' \<and>
    pending st' = pending st @ filter (revivable st) ids \<and>
    processing st' = filter (\<lambda>i. \<not> (i \<in> set ids \<and> stale st i)) (processing st) \<and>
    dead_letters st' = dead_letters st \<and>
    (\<forall>i \<in> set ids. revivable st i \<longrightarrow>
       \<not> stale st' i \<and> job_text st' i = without_token d l (backup st i) \<and> backup st' i = []) \<and>
    (\<forall>j. validate_job_id j \<and> \<not> (j \<in> set ids \<and> revivable st j) \<longrightarrow> same_job st st' j)"
  using assms
proof (induction ids arbitrary: st n)
  case Nil
  then show ?case by (simp add: io_simps same_job_def)
next
  case (Cons i ids)
  let ?m = "n + length (filter (revivable st) [i])"
  obtain st1 where one: "reclaim_one (spec_env d l ord) q n i st = (Inr ?m, st1)" "jq_wf st1"
    "pending st1 = pending st @ filter (revivable st) [i]"
    "processing st1 = filter (\<lambda>j. \<not> (j = i \<and> stale st j)) (processing st)"
    "dead_letters st1 = dead_letters st"
    "revivable st i \<longrightarrow> \<not> stale st1 i \<and> job_text st1 i = without_token d l (backup st i) \<and> backup st1 i = []"
    "\<forall>j. validate_job_id j \<and> \<not> (j = i \<and> revivable st i) \<longrightarrow> same_job st st1 j"
    using reclaim_one_spec [of st q i l d ord n] Cons.prems by auto
  have same: "stale st1 j = stale st j" "backup st1 j = backup st j"
      "revivable st1 j = revivable st j" "restorable l st1 j = restorable l st j" if "j \<in> set ids" for j
    using one(7) Cons.prems that by (auto simp: same_job_def revivable_def restorable_def)
  have fil: "filter (revivable st1) ids = filter (revivable st) ids"
    using same(3) by (auto intro: filter_cong)
  from Cons.IH [OF one(2) Cons.prems(2), of ?m] Cons.prems same
  obtain st2 where two: "io_fold (reclaim_one (spec_env d l ord) q) ?m ids st1 =
      (Inr (?m + length (filter (revivable st) ids)), st2)"
    "jq_wf st2" "pending st2 = pending st1 @ filter (revivable st) ids"
    "processing st2 = filter (\<lambda>i. \<not> (i \<in> set ids \<and> stale st1 i)) (processing st1)"
    "dead_letters st2 = dead_letters st1"
    "\<forall>i \<in> set ids. revivable st1 i \<longrightarrow> \<not> stale st2 i \<and> job_text st2 i = without_token d l (backup st1 i) \<and> backup st2 i = []"
    "\<forall>j. validate_job_id j \<and> \<not> (j \<in> set ids \<and> revivable st1 j) \<longrightarrow> same_job st1 st2 j"
    unfolding fil by auto
  have "processing st2 = filter (\<lambda>j. \<not> (j \<in> set (i # ids) \<and> stale st j)) (processing st)"
    unfolding two(4) one(4) filter_filter using same(1) by (intro filter_cong) auto
  moreover have "same_job st1 st2 i" using two(7) Cons.prems by auto
  moreover have "\<forall>j. validate_job_id j \<and> \<not> (j \<in> set (i # ids) \<and> revivable st j) \<longrightarrow> same_job st st2 j"
    using one(7) two(7) same(3) same_job_trans by auto
  moreover have "\<forall>j \<in> set (i # ids). revivable st j \<longrightarrow>
      \<not> stale st2 j \<and> job_text st2 j = without_token d l (backup st j) \<and> backup st2 j = []"
    using two(6) one(6) same calculation(2) by (auto simp: same_job_def)
  ultimately show ?case
    using one(1,3,5) two(1-3,5) by (simp add: io_simps)
qed

section \<open>The queue is first-in first-out\<close>

definition jq_items :: "(string \<Rightarrow> json option) \<Rightarrow> rstate \<Rightarrow> (string \<times> json) list" where
  "jq_items l st = map (\<lambda>i. (i, opt_default JNull (l (job_text st i)))) (pending st)"

definition jq_sound :: "(string \<Rightarrow> json option) \<Rightarrow> rstate \<Rightarrow> bool" where
  "jq_sound l st \<longleftrightarrow> jq_wf st \<and> distinct (pending st) \<and>
     (\<forall>i \<in> set (pending st). validate_job_id i \<and> job_text st i \<noteq> [] \<and> l (job_text st i) \<noteq> None)"

definition jq_fresh :: "string \<times> json \<Rightarrow> (string \<times> json) list \<Rightarrow> bool" where
  "jq_fresh x cs \<longleftrightarrow> validate_job_id (fst x) \<and> json_ok (snd x) \<and> fst x \<notin> fst ` set cs"

definition submit_all :: "'s env \<Rightarrow> job_queue \<Rightarrow> (string \<times> json) list \<Rightarrow> ('s, unit) io" where
  "submit_all E q = io_fold (\<lambda>u x. io_then (create_job E q (fst x) (snd x)) (io_ret ())) ()"

fun pull :: "'s env \<Rightarrow> job_queue \<Rightarrow> int \<Rightarrow> json \<Rightarrow> string \<Rightarrow> string \<Rightarrow> nat \<Rightarrow> ('s, (string \<times> json) list) io" where
  "pull E q t ts u err 0 = io_ret []"
| "pull E q t ts u err (Suc n) =
     io_bind (get_next_job E q t ts u err) (\<lambda>r. case r of
         None \<Rightarrow> io_ret []
       | Some x \<Rightarrow> io_bind (pull E q t ts u err n) (\<lambda>xs. io_ret (x # xs)))"

locale job_server = redis_server E view healthy ord
  for E :: "'s env" and view healthy ord +
  fixes q :: job_queue and t :: int and ts :: json and u err :: string
  assumes ttl_pos: "0 < jq_ttl q"
begin

definition put_job :: "string \<times> json \<Rightarrow> rstate \<Rightarrow> rstate" where
  "put_job x st = snd (create_job (model_env E ord) q (fst x) (snd x) st)"

definition take_job :: "rstate \<Rightarrow> (string \<times> json) option \<times> rstate" where
  "take_job st = (case get_next_job (model_env E ord) q t ts u err st of
     (Inr r, st') \<Rightarrow> (r, st') | (Inl e, st') \<Rightarrow> (None, st'))"

lemma next_sound:
  assumes "jq_sound (x_loads E) st" "pending st = i # is'"
  shows "\<exists>st'. get_next_job (model_env E ord) q t ts u err st =
      (Inr (Some (i, opt_default JNull (x_loads E (job_text st i)))), st') \<and>
    jq_sound (x_loads E) st' \<and> jq_items (x_loads E) st' = tl (jq_items (x_loads E) st)"
proof -
  let ?l = "x_loads E"
  obtain st1 where 1: "r_blpop PENDING_JOB_QUEUE t st = (Inr (Some i), st1)" "jq_wf st1"
      "pending st1 = is'" "job_text st1 = job_text st"
    using pop_pending [of st i is' t] assms by (auto simp: jq_sound_def)
  obtain v where v: "?l (job_text st i) = Some v" "job_text st i \<noteq> []" "validate_job_id i"
    using assms by (auto simp: jq_sound_def)
  obtain st2 where 2: "start_job (model_env E ord) (q\<lparr>jq_connected := True\<rparr>) ts u err i st1 =
      (Inr (Some (i, v)), st2)" "jq_wf st2" "pending st2 = is'"
      "job_text st2 = (job_text st)(i @ '':backup'' := job_text st i)"
    using start_job_ok [of st1 "q\<lparr>jq_connected := True\<rparr>" i ?l v "x_dumps E" ord ts u err] 1 v ttl_pos
    by (auto simp: model_env_def)
  have valid: "\<forall>j \<in> set is'. validate_job_id j"
    using assms by (auto simp: jq_sound_def)
  then have keep: "job_text st2 j = job_text st j" if "j \<in> set is'" for j
    using that 2(4) by auto
  have "get_next_job (model_env E ord) q t ts u err st = (Inr (Some (i, v)), st2)"
    using 1(1) 2(1) unfolding model_env_def by (rule get_next_job_pop)
  moreover have "jq_sound ?l st2"
    using assms 2(2,3) keep by (auto simp: jq_sound_def)
  moreover have "jq_items ?l st2 = tl (jq_items ?l st)"
    using assms(2) 2(3) keep by (simp add: jq_items_def)
  ultimately show ?thesis using v by auto
qed

lemma create_sound:
  assumes "jq_sound (x_loads E) st" "jq_fresh x (jq_items (x_loads E) st)"
  shows "\<exists>st'. create_job (model_env E ord) q (fst x) (snd x) st = (Inr (fst x), st') \<and>
    jq_sound (x_loads E) st' \<and> jq_items (x_loads E) st' = jq_items (x_loads E) st @ [x]"
proof -
  let ?l = "x_loads E"
  have x: "json_ok (snd x)" "validate_job_id (fst x)" "fst x \<notin> set (pending st)"
    using assms(2) by (auto simp: jq_fresh_def jq_items_def image_image)
  obtain st' where st': "create_job (model_env E ord) q (fst x) (snd x) st = (Inr (fst x), st')"
      "jq_wf st'" "pending st' = pending st @ [fst x]"
      "job_text st' = (job_text st)(fst x := x_dumps E (snd x))"
    using create_job_spec [of st q "x_dumps E" ?l ord "fst x" "snd x"] assms(1) ttl_pos
    by (auto simp: jq_sound_def model_env_def)
  then have "jq_sound ?l st'"
    using assms(1) x by (auto simp: jq_sound_def loads_dumps dumps_nonempty)
  moreover have "jq_items ?l st' = jq_items ?l st @ [x]"
    using st'(3,4) x by (auto simp: jq_items_def loads_dumps)
  ultimately show ?thesis using st'(1) by blast
qed

end

sublocale job_server \<subseteq> jobs: fifo "jq_sound (x_loads E)" "jq_items (x_loads E)" jq_fresh put_job take_job
proof
  fix st x
  assume "jq_sound (x_loads E) st" "jq_fresh x (jq_items (x_loads E) st)"
  from create_sound [OF this] show "jq_sound (x_loads E) (put_job x st)"
    and "jq_items (x_loads E) (put_job x st) = jq_items (x_loads E) st @ [x]"
    by (auto simp: put_job_def)
next
  fix st
  assume "jq_sound (x_loads E) st" "jq_items (x_loads E) st = []"
  then show "take_job st = (None, st)"
    by (simp add: take_job_def jq_sound_def jq_items_def get_next_job_empty model_env_def)
next
  fix st x xs
  assume "jq_sound (x_loads E) st" "jq_items (x_loads E) st = x # xs"
  moreover from this obtain i is' where "pending st = i # is'"
    by (cases "pending st") (auto simp: jq_items_def)
  ultimately show "\<exists>st'. take_job st = (Some x, st') \<and> jq_sound (x_loads E) st' \<and>
      jq_items (x_loads E) st' = xs"
    using next_sound [of st i is'] by (auto simp: take_job_def jq_items_def)
qed

context job_server
begin

lemma submit_all_spec:
  assumes "jq_sound (x_loads E) st" "admissible jq_fresh (jq_items (x_loads E) st) xs"
  shows "submit_all (model_env E ord) q xs st = (Inr (), fold put_job xs st)"
  using assms
proof (induction xs arbitrary: st)
  case Nil
  then show ?case by (simp add: submit_all_def io_simps)
next
  case (Cons x xs)
  then obtain st1 where 1: "create_job (model_env E ord) q (fst x) (snd x) st = (Inr (fst x), st1)"
      "jq_sound (x_loads E) st1" "jq_items (x_loads E) st1 = jq_items (x_loads E) st @ [x]"
    using create_sound [of st x] by auto
  with Cons.IH [of st1] Cons.prems show ?case
    by (simp add: submit_all_def io_simps put_job_def)
qed

lemma pull_spec:
  assumes "jq_sound (x_loads E) st"
  shows "pull (model_env E ord) q t ts u err n st =
    (Inr (fst (takes take_job n st)), snd (takes take_job n st))"
  using assms
proof (induction n arbitrary: st)
  case 0
  then show ?case by (simp add: io_simps)
next
  case (Suc n)
  show ?case
  proof (cases "pending st")
    case Nil
    with Suc.prems have "get_next_job (model_env E ord) q t ts u err st = (Inr None, st)"
      by (simp add: jq_sound_def model_env_def get_next_job_empty)
    then show ?thesis by (simp add: io_simps take_job_def)
  next
    case (Cons i is')
    from next_sound [OF Suc.prems this] obtain x st1 where
      "get_next_job (model_env E ord) q t ts u err st = (Inr (Some x), st1)"
      "jq_sound (x_loads E) st1" by blast
    with Suc.IH [of st1] show ?thesis
      by (simp add: io_simps take_job_def split: prod.split)
  qed
qed

lemma submit_pull_sim:
  "sim view healthy (io_then (submit_all E q xs) (pull E q t ts u err n))
     (io_then (submit_all (model_env E ord) q xs) (pull (model_env E ord) q t ts u err n))"
proof -
  have "sim view healthy (pull E q t ts u err n) (pull (model_env E ord) q t ts u err n)" for n
    by (induction n) (auto intro!: sim_intros get_next_job_sim)
  then show ?thesis
    unfolding submit_all_def by (intro sim_intros create_job_sim)
qed

lemma submit_pull:
  assumes "healthy s" "jq_sound (x_loads E) (view s)"
    and "admissible jq_fresh (jq_items (x_loads E) (view s)) jobs"
  shows "\<exists>s'. io_then (submit_all E q jobs)
      (pull E q t ts u err (length (pending (view s)) + length jobs)) s =
      (Inr (jq_items (x_loads E) (view s) @ jobs), s') \<and> pending (view s') = []"
proof -
  let ?l = "x_loads E"
  obtain st' where st': "takes take_job (length (jq_items ?l (view s)) + length jobs)
      (fold put_job jobs (view s)) = (jq_items ?l (view s) @ jobs, st')" "jq_items ?l st' = []"
    using jobs.drain [OF assms(2,3)] by blast
  have "io_then (submit_all (model_env E ord) q jobs)
      (pull (model_env E ord) q t ts u err (length (pending (view s)) + length jobs)) (view s) =
      (Inr (jq_items ?l (view s) @ jobs), st')"
    using submit_all_spec [OF assms(2,3)] pull_spec jobs.put_all [OF assms(2,3)] st'(1)
    by (simp add: io_simps jq_items_def)
  from sim_run [OF submit_pull_sim assms(1) this] show ?thesis
    using st'(2) by (auto simp: jq_items_def)
qed

end

lemma admissible_jobs:
  "distinct (map fst (cs @ jobs)) \<Longrightarrow>
   \<forall>x \<in> set jobs. validate_job_id (fst x) \<and> json_ok (snd x) \<Longrightarrow> admissible jq_fresh cs jobs"
  by (induction jobs arbitrary: cs) (auto simp: jq_fresh_def)

text \<open>
  C1: on every client that meets the Redis contract, jobs created with distinct valid ids on a
  drained queue are handed out by the same number of \<open>get_next_job\<close> calls, each exactly once,
  in creation order and with the data they were created with; the queue is empty afterwards.
\<close>

theorem jobs_pulled_in_order:
  assumes "redis_server E view healthy ord" "healthy s" "0 < jq_ttl q"
    and "jq_wf (view s)" "pending (view s) = []"
    and "distinct (map fst jobs)" "\<forall>x \<in> set jobs. validate_job_id (fst x) \<and> json_ok (snd x)"
  shows "\<exists>s'. io_then (submit_all E q jobs) (pull E q t ts u err (length jobs)) s = (Inr jobs, s') \<and>
    pending (view s') = []"
proof -
  have js: "job_server E view healthy ord q"
    using assms(1,3) by (simp add: job_server_def job_server_axioms_def)
  show ?thesis
    using job_server.submit_pull [OF js assms(2), of jobs t ts u err] assms admissible_jobs [of "[]" jobs]
    by (simp add: jq_sound_def jq_items_def)
qed

definition sample_queue :: job_queue where
  "sample_queue = \<lparr>jq_url = ''redis://redis:6379'', jq_ttl = 3600, jq_connected = False\<rparr>"

definition uuid_a :: string where "uuid_a = ''3f2504e0-4f89-41d3-9a0c-0305e82c3301''"
definition uuid_b :: string where "uuid_b = ''7d444840-9dc0-11d1-b245-5ffdce74fad2''"

interpretation flaky_jobs: job_server flaky_env fk_state "\<lambda>w. fk_fault w = None" rev sample_queue
  30 "JInt 0" "''0''" "''err''"
  by unfold_locales (simp add: sample_queue_def)

lemma empty_keyspace_wf [simp]: "jq_wf empty_keyspace" "pending empty_keyspace = []"
  by (simp_all add: jq_wf_def pending_def)

lemma uuids_valid [simp]: "validate_job_id uuid_a" "validate_job_id uuid_b" "uuid_a \<noteq> uuid_b"
  by (simp_all add: uuid_a_def uuid_b_def validate_job_id_def int16_ok_def strip_braces_def
      str_replace_char_def str_startswith_def str_strip_def str_lstrip_def str_rstrip_def is_space_def
      is_hex_def)

theorem jobs_pulled_in_order_witness:
  "\<exists>s'. io_then
      (submit_all flaky_env sample_queue [(uuid_a, JObj [(''repo'', JStr ''o/r'')]), (uuid_b, JObj [])])
      (pull flaky_env sample_queue 30 (JInt 0) ''0'' ''err'' 2) sample_world =
    (Inr [(uuid_a, JObj [(''repo'', JStr ''o/r'')]), (uuid_b, JObj [])], s') \<and> pending (fk_state s') = []"
  using jobs_pulled_in_order [OF flaky.redis_server_axioms, of sample_world sample_queue
      "[(uuid_a, JObj [(''repo'', JStr ''o/r'')]), (uuid_b, JObj [])]" 30 "JInt 0" "''0''" "''err''"]
  by (simp add: sample_queue_def numeral_2_eq_2)

section \<open>Reclaiming and completing on a real client\<close>

lemma length_filter_same_set:
  assumes "distinct xs" "distinct ys" "set xs = set ys"
  shows "length (filter P xs) = length (filter P ys)"
  using assms by (metis distinct_card distinct_filter set_filter)

context redis_server
begin

lemma reclaim_run:
  assumes "0 < jq_ttl q" "jq_wf st" "distinct (processing st)"
    and "\<forall>i \<in> set (processing st). validate_job_id i"
    and "\<forall>i \<in> set (processing st). revivable st i \<longrightarrow> restorable (x_loads E) st i"
  shows "\<exists>st'. reclaim_stale_jobs (model_env E ord) q st =
      (Inr (length (filter (revivable st) (processing st))), st') \<and> jq_wf st' \<and>
    pending st' = pending st @ filter (revivable st) (ord (processing st)) \<and>
    processing st' = filter (\<lambda>i. \<not> stale st i) (processing st) \<and>
    dead_letters st' = dead_letters st \<and>
    (\<forall>i \<in> set (processing st). revivable st i \<longrightarrow>
       job_text st' i = without_token (x_dumps E) (x_loads E) (backup st i) \<and> backup st' i = []) \<and>
    (\<forall>i. validate_job_id i \<and> \<not> (i \<in> set (processing st) \<and> revivable st i) \<longrightarrow> same_job st st' i)"
proof -
  let ?q = "q\<lparr>jq_connected := True\<rparr>"
  obtain st' where st': "io_fold (reclaim_one (spec_env (x_dumps E) (x_loads E) ord) ?q) 0
      (ord (processing st)) st = (Inr (length (filter (revivable st) (ord (processing st)))), st')"
    "jq_wf st'" "pending st' = pending st @ filter (revivable st) (ord (processing st))"
    "processing st' = filter (\<lambda>i. \<not> stale st i) (processing st)"
    "dead_letters st' = dead_letters st"
    "\<forall>i \<in> set (processing st). revivable st i \<longrightarrow>
       job_text st' i = without_token (x_dumps E) (x_loads E) (backup st i) \<and> backup st' i = []"
    "\<forall>j. validate_job_id j \<and> \<not> (j \<in> set (processing st) \<and> revivable st j) \<longrightarrow> same_job st st' j"
    using reclaim_fold [of st ?q "ord (processing st)" "x_loads E" "x_dumps E" ord 0]
      assms ord_set ord_distinct by (auto cong: filter_cong)
  have "reclaim_stale_jobs (model_env E ord) q st =
      (Inr (length (filter (revivable st) (ord (processing st)))), st')"
    using assms(2) st'(1) by (simp add: reclaim_stale_jobs_def model_env_def jq_run)
  moreover have "length (filter (revivable st) (ord (processing st))) =
      length (filter (revivable st) (processing st))"
    using assms(3) ord_set ord_distinct by (intro length_filter_same_set)
  ultimately show ?thesis using st' by simp
qed

end

text \<open>
  \<open>reclaim_stale_jobs\<close> looks at every job being processed, once: those whose data expired
  but whose backup is left go back to the end of the pending queue with the backup as data, less
  its \<open>github_token\<close>; expired jobs leave the processing set; the data of all others stays as it
  is. The result is the number of jobs put back.
\<close>

theorem reclaim_requeues_expired:
  assumes "redis_server E view healthy ord" "healthy s" "0 < jq_ttl q" "jq_wf (view s)"
    and "distinct (processing (view s))" "\<forall>i \<in> set (processing (view s)). validate_job_id i"
    and "\<forall>i \<in> set (processing (view s)). revivable (view s) i \<longrightarrow> restorable (x_loads E) (view s) i"
  shows "\<exists>s'. reclaim_stale_jobs E q s =
      (Inr (length (filter (revivable (view s)) (processing (view s)))), s') \<and>
    pending (view s') = pending (view s) @ filter (revivable (view s)) (ord (processing (view s))) \<and>
    processing (view s') = filter (\<lambda>i. \<not> stale (view s) i) (processing (view s)) \<and>
    (\<forall>i \<in> set (processing (view s)). revivable (view s) i \<longrightarrow>
       job_text (view s') i = without_token (x_dumps E) (x_loads E) (backup (view s) i)) \<and>
    (\<forall>i \<in> set (processing (view s)). \<not> stale (view s) i \<longrightarrow>
       job_text (view s') i = job_text (view s) i)"
proof -
  obtain st' where st': "reclaim_stale_jobs (model_env E ord) q (view s) =
      (Inr (length (filter (revivable (view s)) (processing (view s)))), st')"
    "pending st' = pending (view s) @ filter (revivable (view s)) (ord (processing (view s)))"
    "processing st' = filter (\<lambda>i. \<not> stale (view s) i) (processing (view s))"
    "\<forall>i \<in> set (processing (view s)). revivable (view s) i \<longrightarrow>
       job_text st' i = without_token (x_dumps E) (x_loads E) (backup (view s) i)"
    "\<forall>i. validate_job_id i \<and> \<not> (i \<in> set (processing (view s)) \<and> revivable (view s) i) \<longrightarrow>
       same_job (view s) st' i"
    using redis_server.reclaim_run [OF assms(1,3-7)] by blast
  then have "\<forall>i \<in> set (processing (view s)). \<not> stale (view s) i \<longrightarrow>
      job_text st' i = job_text (view s) i"
    using assms(6) by (simp add: revivable_def same_job_def)
  moreover obtain s' where "reclaim_stale_jobs E q s =
      (Inr (length (filter (revivable (view s)) (processing (view s)))), s')" "view s' = st'"
    using redis_server.sim_run [OF assms(1) redis_server.reclaim_stale_jobs_sim [OF assms(1)]
        assms(2) st'(1)] by blast
  ultimately show ?thesis using st'(2-4) by blast
qed

text \<open>A job taken an hour ago whose data has expired and whose backup has not.\<close>

definition stale_state :: rstate where
  "stale_state = rstore PROCESSING_SET (RSet [uuid_a])
     (rput (job_backup_key uuid_a)
       (RStr (print_json (JObj [(''repo'', JStr ''o/r''), (''github_token'', JStr ''t'')])))
       (Some 7200) (radvance 3600 empty_keyspace))"

lemma stale_state_facts [simp]:
  "jq_wf stale_state" "processing stale_state = [uuid_a]" "stale stale_state uuid_a"
  "backup stale_state uuid_a = print_json (JObj [(''repo'', JStr ''o/r''), (''github_token'', JStr ''t'')])"
  "pending stale_state = []"
  by (simp_all add: stale_state_def jq_wf_writes jq_wf_radvance stale_def backup_def redis_simps
      rlook_radvance_forever pending_def empty_keyspace_def [THEN arg_cong [of _ _ rnow]])

theorem reclaim_requeues_expired_witness:
  "\<exists>s'. reclaim_stale_jobs flaky_env sample_queue \<lparr>fk_state = stale_state, fk_fault = None\<rparr> = (Inr 1, s') \<and>
     pending (fk_state s') = [uuid_a] \<and> processing (fk_state s') = [] \<and>
     job_text (fk_state s') uuid_a = print_json (JObj [(''repo'', JStr ''o/r'')])"
  using reclaim_requeues_expired [OF flaky.redis_server_axioms,
      of "\<lparr>fk_state = stale_state, fk_fault = None\<rparr>" sample_queue]
  by (simp add: sample_queue_def revivable_def restorable_def without_token_def parse_print_json
      print_json_nonempty del: print_json.simps)

context redis_server
begin

lemma complete_then_read:
  assumes "0 < jq_ttl q" "jq_wf st" "json_ok r"
  shows "\<exists>st'. io_then (complete_job (model_env E ord) q i r stat)
      (io_bind (get_job_result (model_env E ord) q i) (\<lambda>res.
        io_bind (get_job_status (model_env E ord) q i) (\<lambda>sta. io_ret (res, sta)))) st =
      (Inr (Some r, Some stat), st') \<and>
    processing st' = removeAll i (processing st) \<and> pending st' = pending st \<and> backup st' i = []"
proof -
  obtain st' where "complete_job (model_env E ord) q i r stat st = (Inr (), st')"
      "pending st' = pending st" "processing st' = removeAll i (processing st)" "backup st' i = []"
      "rlook st' (job_result_key i) = Some (RStr (x_dumps E r))"
      "rlook st' (job_status_key i) = Some (RStr stat)"
    using complete_job_spec [OF assms(2,1), of "x_dumps E" "x_loads E" ord i r stat]
    unfolding model_env_def backup_def by (metis fun_upd_same)
  then show ?thesis
    using assms(3) by (simp add: io_simps get_job_result_def get_job_status_def model_env_def
        redis_simps r_get_def dumps_nonempty loads_dumps)
qed

lemma complete_then_read_sim:
  "sim view healthy
     (io_then (complete_job E q i r stat) (io_bind (get_job_result E q i) (\<lambda>res.
        io_bind (get_job_status E q i) (\<lambda>sta. io_ret (res, sta)))))
     (io_then (complete_job (model_env E ord) q i r stat)
       (io_bind (get_job_result (model_env E ord) q i) (\<lambda>res.
        io_bind (get_job_status (model_env E ord) q i) (\<lambda>sta. io_ret (res, sta)))))"
  by (intro sim_intros complete_job_sim get_job_result_sim get_job_status_sim)

end

text \<open>
  After \<open>complete_job\<close> the result and the status read back are the ones stored, the job is
  out of the processing set and its backup is gone, so that it is never reclaimed; the pending
  queue is untouched.
\<close>

theorem completed_job_readable:
  assumes "redis_server E view healthy ord" "healthy s" "0 < jq_ttl q" "jq_wf (view s)" "json_ok r"
  shows "\<exists>s'. io_then (complete_job E q i r stat) (io_bind (get_job_result E q i) (\<lambda>res.
      io_bind (get_job_status E q i) (\<lambda>sta. io_ret (res, sta)))) s =
      (Inr (Some r, Some stat), s') \<and>
    processing (view s') = removeAll i (processing (view s)) \<and>
    pending (view s') = pending (view s) \<and> backup (view s') i = []"
  using redis_server.complete_then_read [OF assms(1,3-5), of i stat]
    redis_server.sim_run [OF assms(1) redis_server.complete_then_read_sim [OF assms(1)] assms(2)]
  by metis

theorem completed_job_readable_witness:
  "\<exists>s'. io_then (complete_job flaky_env sample_queue uuid_a (JObj []) ''success'')
      (io_bind (get_job_result flaky_env sample_queue uuid_a) (\<lambda>res.
      io_bind (get_job_status flaky_env sample_queue uuid_a) (\<lambda>sta. io_ret (res, sta))))
      \<lparr>fk_state = stale_state, fk_fault = None\<rparr> = (Inr (Some (JObj []), Some ''success''), s') \<and>
    processing (fk_state s') = []"
  using completed_job_readable [OF flaky.redis_server_axioms,
      of "\<lparr>fk_state = stale_state, fk_fault = None\<rparr>" sample_queue "JObj []" uuid_a "''success''"]
  by (auto simp: sample_queue_def)

section \<open>A job lost to a broken connection\<close>

text \<open>
  \<open>get_next_job\<close> is not the atomic move its documentation promises. When the connection
  breaks on the command after \<open>BLPOP\<close>, the call reports an empty queue although a job was
  pending, and the job is in none of the pending queue, the processing set and the dead-letter
  queue, so that nothing hands it out again or reclaims it.
\<close>

theorem job_lost_after_blpop:
  "\<exists>s'. io_then (create_job flaky_env sample_queue uuid_a (JObj []))
        (\<lambda>s. get_next_job flaky_env sample_queue 30 (JInt 0) ''0'' ''err'' (s\<lparr>fk_fault := Some 2\<rparr>))
        sample_world = (Inr None, s') \<and>
     pending (fk_state s') = [] \<and> processing (fk_state s') = [] \<and> dead_letters (fk_state s') = [] \<and>
     job_text (fk_state s') uuid_a = print_json (JObj [])"
proof -
  let ?st = "rput (job_status_key uuid_a) (RStr ''pending'') (Some 3600)
    (rput (job_data_key uuid_a) (RStr (print_json (JObj []))) (Some 3600) empty_keyspace)"
  have now: "rnow empty_keyspace = 0" by (simp add: empty_keyspace_def)
  have "io_then (create_job flaky_env sample_queue uuid_a (JObj []))
        (\<lambda>s. get_next_job flaky_env sample_queue 30 (JInt 0) ''0'' ''err'' (s\<lparr>fk_fault := Some 2\<rparr>))
        sample_world = (Inr None, \<lparr>fk_state = rdrop PENDING_JOB_QUEUE
          (rstore PENDING_JOB_QUEUE (RList [uuid_a]) ?st), fk_fault = None\<rparr>)"
    by (simp add: create_job_def get_next_job_def start_job_def jq_connect_def flaky_env_def flaky_cmd_def
        io_simps redis_simps redis_commands sample_queue_def sample_world_def connection_reset_def now
        del: print_json.simps)
  then show ?thesis
    by (simp add: now processing_def dead_letters_def redis_simps)
qed

section \<open>The queue as a state machine\<close>

text \<open>
  The steps of a run on a server that does not fail: a worker creates a job under a fresh
  UUID, asks for the next job, completes a job (also one that was reclaimed meanwhile), the
  reclaimer runs, time passes.
\<close>

inductive jq_step ::
  "(json \<Rightarrow> string) \<Rightarrow> (string \<Rightarrow> json option) \<Rightarrow> (string list \<Rightarrow> string list) \<Rightarrow> job_queue \<Rightarrow>
   rstate \<Rightarrow> rstate \<Rightarrow> bool"
  for d l ord q where
  step_create: "validate_job_id i \<Longrightarrow> i \<notin> set (pending st) \<Longrightarrow> i \<notin> set (processing st) \<Longrightarrow>
     json_ok (JObj kvs) \<Longrightarrow> create_job (spec_env d l ord) q i (JObj kvs) st = (r, st') \<Longrightarrow>
     jq_step d l ord q st st'"
| step_next: "get_next_job (spec_env d l ord) q t ts u err st = (r', st') \<Longrightarrow> jq_step d l ord q st st'"
| step_complete: "validate_job_id i \<Longrightarrow> json_ok res \<Longrightarrow>
     complete_job (spec_env d l ord) q i res stat st = (r'', st') \<Longrightarrow> jq_step d l ord q st st'"
| step_reclaim: "reclaim_stale_jobs (spec_env d l ord) q st = (r''', st') \<Longrightarrow> jq_step d l ord q st st'"
| step_tick: "jq_step d l ord q st (radvance n st)"

definition text_ok :: "(string \<Rightarrow> json option) \<Rightarrow> string \<Rightarrow> bool" where
  "text_ok l s \<longleftrightarrow> s = [] \<or> (\<exists>kvs. l s = Some (JObj kvs) \<and> json_ok (JObj kvs))"

definition jq_inv :: "(string \<Rightarrow> json option) \<Rightarrow> rstate \<Rightarrow> bool" where
  "jq_inv l st \<longleftrightarrow> jq_wf st \<and> distinct (pending st) \<and> distinct (processing st) \<and>
     set (pending st) \<inter> set (processing st) = {} \<and>
     (\<forall>i \<in> set (pending st) \<union> set (processing st). validate_job_id i) \<and>
     (\<forall>i. validate_job_id i \<longrightarrow> text_ok l (job_text st i) \<and> text_ok l (backup st i))"

text \<open>Where a job may be after a step that found it pending or being processed.\<close>

definition accounted ::
  "(json \<Rightarrow> string) \<Rightarrow> rstate \<Rightarrow> rstate \<Rightarrow> string \<Rightarrow> bool" where
  "accounted d st st' i \<longleftrightarrow>
     i \<in> set (pending st') \<or> i \<in> set (processing st') \<or>
     rlook st' (job_result_key i) \<noteq> None \<or>
     (\<exists>ts. d (dead_letter i ''data_expired'' [] ts) \<in> set (dead_letters st')) \<or>
     stale st i \<and> backup st i = []"

lemma json_ok_dict_del: "json_ok (JObj kvs) \<Longrightarrow> json_ok (JObj (dict_del k kvs))"
  by (simp add: distinct_delete) (simp add: AList.delete_eq)

lemma pending_radvance:
  assumes "jq_wf st"
  shows "pending (radvance n st) = pending st" "processing (radvance n st) = processing st"
    "dead_letters (radvance n st) = dead_letters st"
  using assms by (simp_all add: pending_def processing_def dead_letters_def jq_wf_def rlook_radvance_forever)

lemma job_text_radvance: "job_text (radvance n st) i = job_text st i \<or> job_text (radvance n st) i = []"
  using rlook_radvance_cases [of n st "job_data_key i"] by (auto simp: job_text_def)

lemma text_ok_radvance: "text_ok l (job_text st i) \<Longrightarrow> text_ok l (job_text (radvance n st) i)"
  using job_text_radvance [of n st i] by (auto simp: text_ok_def)

lemma tick_inv: "jq_inv l st \<Longrightarrow> jq_inv l (radvance n st)"
  unfolding jq_inv_def backup_def by (simp add: pending_radvance jq_wf_radvance text_ok_radvance)

lemma tick_accounted:
  "jq_inv l st \<Longrightarrow> i \<in> set (pending st) \<union> set (processing st) \<Longrightarrow> accounted d st (radvance n st) i"
  by (auto simp: jq_inv_def accounted_def pending_radvance)

context job_server
begin

lemma complete_inv:
  assumes "jq_inv (x_loads E) st" "validate_job_id i"
  shows "\<exists>st'. complete_job (model_env E ord) q i res stat st = (Inr (), st') \<and>
    jq_inv (x_loads E) st' \<and>
    (\<forall>j \<in> set (pending st) \<union> set (processing st). accounted (x_dumps E) st st' j)"
proof -
  obtain st' where st': "complete_job (model_env E ord) q i res stat st = (Inr (), st')" "jq_wf st'"
    "pending st' = pending st" "processing st' = removeAll i (processing st)"
    "job_text st' = (job_text st)(i @ '':backup'' := [])"
    "rlook st' (job_result_key i) = Some (RStr (x_dumps E res))"
    using complete_job_spec [of st q "x_dumps E" "x_loads E" ord i res stat] assms(1) ttl_pos
    by (auto simp: jq_inv_def model_env_def)
  have "text_ok (x_loads E) (job_text st' j) \<and> text_ok (x_loads E) (backup st' j)"
    if "validate_job_id j" for j
    using assms(1) that st'(5) by (auto simp: jq_inv_def backup_def text_ok_def)
  with assms(1) st' have "jq_inv (x_loads E) st'" by (auto simp: jq_inv_def distinct_removeAll)
  with st' show ?thesis by (auto simp: accounted_def)
qed

lemma create_inv:
  assumes "jq_inv (x_loads E) st" "validate_job_id i" "i \<notin> set (pending st)"
    "i \<notin> set (processing st)" "json_ok (JObj kvs)"
  shows "\<exists>st'. create_job (model_env E ord) q i (JObj kvs) st = (Inr i, st') \<and>
    jq_inv (x_loads E) st' \<and>
    (\<forall>j \<in> set (pending st) \<union> set (processing st). accounted (x_dumps E) st st' j)"
proof -
  obtain st' where st': "create_job (model_env E ord) q i (JObj kvs) st = (Inr i, st')" "jq_wf st'"
    "pending st' = pending st @ [i]" "processing st' = processing st"
    "job_text st' = (job_text st)(i := x_dumps E (JObj kvs))"
    using create_job_spec [of st q "x_dumps E" "x_loads E" ord i "JObj kvs"] assms(1) ttl_pos
    by (auto simp: jq_inv_def model_env_def)
  have "text_ok (x_loads E) (job_text st' j) \<and> text_ok (x_loads E) (backup st' j)"
    if "validate_job_id j" for j
    using assms that st'(5) loads_dumps [OF assms(5)]
    by (auto simp: jq_inv_def backup_def text_ok_def)
  with assms st' have "jq_inv (x_loads E) st'" by (auto simp: jq_inv_def)
  with st' show ?thesis by (auto simp: accounted_def)
qed

end

context job_server
begin

lemma dead_letter_inv:
  assumes "jq_inv (x_loads E) st" "pending st = i # is'" "jq_wf st'" "pending st' = is'"
    "processing st' = processing st" "job_text st' = job_text st"
    "dead_letters st' = dead_letters st @ [x_dumps E (dead_letter i ''data_expired'' [] ts)]"
  shows "jq_inv (x_loads E) st' \<and>
    (\<forall>j \<in> set (pending st) \<union> set (processing st). accounted (x_dumps E) st st' j)"
  using assms by (auto simp: jq_inv_def backup_def accounted_def)

lemma started_inv:
  assumes "jq_inv (x_loads E) st" "pending st = i # is'" "jq_wf st'" "pending st' = is'"
    "processing st' = processing st @ [i]"
    "job_text st' = (job_text st)(i @ '':backup'' := job_text st i)"
  shows "jq_inv (x_loads E) st' \<and>
    (\<forall>j \<in> set (pending st) \<union> set (processing st). accounted (x_dumps E) st st' j)"
proof -
  have "text_ok (x_loads E) (job_text st' j) \<and> text_ok (x_loads E) (backup st' j)"
    if "validate_job_id j" for j
    using assms(1,6) that by (auto simp: jq_inv_def backup_def)
  with assms show ?thesis by (auto simp: jq_inv_def accounted_def)
qed

lemma next_inv:
  assumes "jq_inv (x_loads E) st"
  shows "\<exists>r st'. get_next_job (model_env E ord) q t ts u err st = (Inr r, st') \<and>
    jq_inv (x_loads E) st' \<and>
    (\<forall>j \<in> set (pending st) \<union> set (processing st). accounted (x_dumps E) st st' j)"
proof (cases "pending st")
  case Nil
  then have "get_next_job (model_env E ord) q t ts u err st = (Inr None, st)"
    using assms by (simp add: jq_inv_def model_env_def get_next_job_empty)
  with assms show ?thesis by (auto simp: accounted_def)
next
  case (Cons i is')
  let ?q = "q\<lparr>jq_connected := True\<rparr>"
  have wf: "jq_wf st" and i: "validate_job_id i" "i \<notin> set (processing st)"
    and tok: "text_ok (x_loads E) (job_text st i)"
    using assms Cons by (auto simp: jq_inv_def)
  obtain st1 where 1: "r_blpop PENDING_JOB_QUEUE t st = (Inr (Some i), st1)" "jq_wf st1"
      "pending st1 = is'" "processing st1 = processing st" "dead_letters st1 = dead_letters st"
      "job_text st1 = job_text st"
    using pop_pending [OF wf Cons, of t] by blast
  note pop = get_next_job_pop [OF 1(1)]
  show ?thesis
  proof (cases "job_text st i = []")
    case True
    from start_job_expired [OF 1(2) i(1), of "x_dumps E" "x_loads E" ord ?q ts u err] True 1
    obtain st2 where 2: "start_job (model_env E ord) ?q ts u err i st1 = (Inr None, st2)" "jq_wf st2"
        "pending st2 = is'" "processing st2 = processing st" "job_text st2 = job_text st"
        "dead_letters st2 = dead_letters st @ [x_dumps E (dead_letter i ''data_expired'' [] ts)]"
      by (auto simp: model_env_def)
    from pop [OF 2(1) [unfolded model_env_def]] dead_letter_inv [OF assms Cons 2(2-6)] show ?thesis
      by (auto simp: model_env_def)
  next
    case False
    then obtain v where "x_loads E (job_text st i) = Some v"
      using tok by (auto simp: text_ok_def)
    with start_job_ok [OF 1(2) _ i(1), of ?q "x_loads E" v "x_dumps E" ord ts u err] False 1 i ttl_pos
    obtain st2 where 2: "start_job (model_env E ord) ?q ts u err i st1 = (Inr (Some (i, v)), st2)"
        "jq_wf st2" "pending st2 = is'" "processing st2 = processing st @ [i]"
        "job_text st2 = (job_text st)(i @ '':backup'' := job_text st i)"
      by (auto simp: model_env_def)
    from pop [OF 2(1) [unfolded model_env_def]] started_inv [OF assms Cons 2(2-5)] show ?thesis
      by (auto simp: model_env_def)
  qed
qed

lemma text_ok_without_token:
  assumes "text_ok (x_loads E) b" "b \<noteq> []"
  shows "text_ok (x_loads E) (without_token (x_dumps E) (x_loads E) b)"
proof -
  obtain kvs where kvs: "x_loads E b = Some (JObj kvs)" "json_ok (JObj kvs)"
    using assms by (auto simp: text_ok_def)
  then show ?thesis
    using loads_dumps [OF json_ok_dict_del [OF kvs(2)]] json_ok_dict_del [OF kvs(2)]
    by (auto simp: without_token_def text_ok_def)
qed

lemma reclaim_inv:
  assumes "jq_inv (x_loads E) st"
  shows "\<exists>n st'. reclaim_stale_jobs (model_env E ord) q st = (Inr n, st') \<and>
    jq_inv (x_loads E) st' \<and>
    (\<forall>j \<in> set (pending st) \<union> set (processing st). accounted (x_dumps E) st st' j)"
proof -
  have rv: "\<forall>i \<in> set (processing st). revivable st i \<longrightarrow> restorable (x_loads E) st i"
    using assms by (auto simp: jq_inv_def revivable_def restorable_def text_ok_def)
  then obtain n st' where st': "reclaim_stale_jobs (model_env E ord) q st = (Inr n, st')" "jq_wf st'"
    "pending st' = pending st @ filter (revivable st) (ord (processing st))"
    "processing st' = filter (\<lambda>i. \<not> stale st i) (processing st)"
    "\<forall>i \<in> set (processing st). revivable st i \<longrightarrow>
       job_text st' i = without_token (x_dumps E) (x_loads E) (backup st i) \<and> backup st' i = []"
    "\<forall>i. validate_job_id i \<and> \<not> (i \<in> set (processing st) \<and> revivable st i) \<longrightarrow> same_job st st' i"
    using reclaim_run [OF ttl_pos, of st] assms by (auto simp: jq_inv_def)
  have "text_ok (x_loads E) (job_text st' j) \<and> text_ok (x_loads E) (backup st' j)"
    if "validate_job_id j" for j
  proof (cases "j \<in> set (processing st) \<and> revivable st j")
    case True
    with that st'(5) assms text_ok_without_token [of "backup st j"] show ?thesis
      by (auto simp: jq_inv_def revivable_def text_ok_def [of _ "[]"])
  next
    case False
    with that st'(6) assms show ?thesis by (auto simp: jq_inv_def same_job_def)
  qed
  moreover have "distinct (pending st')" "set (pending st') \<inter> set (processing st') = {}"
    using assms ord_set [of "processing st"] ord_distinct [of "processing st"]
    unfolding st'(3,4) by (auto simp: jq_inv_def revivable_def)
  ultimately have "jq_inv (x_loads E) st'"
    using assms st'(2-4) ord_set [of "processing st"] by (auto simp: jq_inv_def)
  with st' show ?thesis
    using ord_set [of "processing st"] by (auto simp: accounted_def revivable_def)
qed

lemma step_inv:
  assumes "jq_step (x_dumps E) (x_loads E) ord q st st'" "jq_inv (x_loads E) st"
  shows "jq_inv (x_loads E) st' \<and>
    (\<forall>j \<in> set (pending st) \<union> set (processing st). accounted (x_dumps E) st st' j)"
  using assms
proof (induction rule: jq_step.induct)
  case (step_create i st kvs r st')
  with create_inv [of st i kvs] show ?case by (auto simp: model_env_def)
next
  case (step_next t ts u err st r st')
  then show ?case
    using job_server.next_inv [of E view healthy ord q st t ts u err] job_server_axioms
    by (auto simp: model_env_def)
next
  case (step_complete i res stat st r st')
  with complete_inv [of st i res stat] show ?case by (auto simp: model_env_def)
next
  case (step_reclaim st r st')
  with reclaim_inv [of st] show ?case by (auto simp: model_env_def)
next
  case (step_tick st n)
  with tick_inv tick_accounted show ?case by blast
qed

end

text \<open>The documented commands themselves meet the contract.\<close>

lemma spec_server:
  assumes "json_codec d l" "\<And>xs. set (ord xs) = set xs" "\<And>xs. distinct xs \<Longrightarrow> distinct (ord xs)"
  shows "redis_server (spec_env d l ord) id (\<lambda>_. True) ord"
  using assms unfolding redis_server_def redis_server_axioms_def
  by (simp add: redis_simps model_env_def sim_def)

lemma spec_job_server:
  assumes "json_codec d l" "\<And>xs. set (ord xs) = set xs" "\<And>xs. distinct xs \<Longrightarrow> distinct (ord xs)"
    "0 < jq_ttl q"
  shows "job_server (spec_env d l ord) id (\<lambda>_. True) ord q"
  using spec_server [OF assms(1-3)] assms(4) by (simp add: job_server_def job_server_axioms_def)

lemma reachable_inv:
  assumes "job_server (spec_env d l ord) id (\<lambda>_. True) ord q"
    and "(jq_step d l ord q)\<^sup>*\<^sup>* empty_keyspace st"
  shows "jq_inv l st"
  using assms(2)
proof (induction rule: rtranclp_induct)
  case base
  then show ?case
    by (simp add: jq_inv_def processing_def job_text_def backup_def text_ok_def)
next
  case (step st st')
  then show ?case
    using job_server.step_inv [OF assms(1), of st st'] by (simp add: redis_simps)
qed

text \<open>
  C14: in every state reachable from the empty keyspace by creating, pulling, completing and
  reclaiming jobs and by the passing of time, no id is queued twice, none is pending and being
  processed at once, all ids are valid UUIDs, and every stored job text and backup that has not
  expired is the JSON of an object.
\<close>

theorem queue_invariant:
  assumes "json_codec d l" "\<And>xs. set (ord xs) = set xs" "\<And>xs. distinct xs \<Longrightarrow> distinct (ord xs)"
    and "0 < jq_ttl q" "(jq_step d l ord q)\<^sup>*\<^sup>* empty_keyspace st"
  shows "distinct (pending st) \<and> distinct (processing st) \<and>
    set (pending st) \<inter> set (processing st) = {} \<and>
    (\<forall>i \<in> set (pending st) \<union> set (processing st). validate_job_id i) \<and>
    (\<forall>i. validate_job_id i \<longrightarrow> text_ok l (job_text st i) \<and> text_ok l (backup st i))"
  using reachable_inv [OF spec_job_server [OF assms(1-4)] assms(5)] by (simp add: jq_inv_def)

text \<open>
  C2: no step loses a job. A job that was pending or being processed before the step is pending
  or being processed after it, or has a stored result, or is recorded in the dead-letter queue as
  expired, or both its data and its backup had already expired.
\<close>

theorem no_job_lost:
  assumes "json_codec d l" "\<And>xs. set (ord xs) = set xs" "\<And>xs. distinct xs \<Longrightarrow> distinct (ord xs)"
    and "0 < jq_ttl q" "(jq_step d l ord q)\<^sup>*\<^sup>* empty_keyspace st" "jq_step d l ord q st st'"
    and "i \<in> set (pending st) \<or> i \<in> set (processing st)"
  shows "i \<in> set (pending st') \<or> i \<in> set (processing st') \<or>
    rlook st' (job_result_key i) \<noteq> None \<or>
    (\<exists>ts. d (dead_letter i ''data_expired'' [] ts) \<in> set (dead_letters st')) \<or>
    stale st i \<and> backup st i = []"
proof -
  note js = spec_job_server [OF assms(1-4)]
  have "\<forall>j \<in> set (pending st) \<union> set (processing st). accounted d st st' j"
    using job_server.step_inv [OF js, of st st'] reachable_inv [OF js assms(5)] assms(6)
    by (simp add: redis_simps)
  with assms(7) show ?thesis by (auto simp: accounted_def)
qed

lemma sample_codec:
  "json_codec print_json parse_json" "set (rev xs) = set xs" "distinct xs \<Longrightarrow> distinct (rev xs)"
  by (simp_all add: std_json.json_codec_axioms)

text \<open>Two sample steps: a job is created, then taken.\<close>

definition one_pending :: rstate where
  "one_pending = snd (create_job (spec_env print_json parse_json rev) sample_queue uuid_a (JObj [])
     empty_keyspace)"

definition one_taken :: rstate where
  "one_taken = snd (get_next_job (spec_env print_json parse_json rev) sample_queue 30 (JInt 0)
     ''0'' ''err'' one_pending)"

lemma sample_path:
  "jq_step print_json parse_json rev sample_queue empty_keyspace one_pending"
  "jq_step print_json parse_json rev sample_queue one_pending one_taken"
  unfolding one_pending_def one_taken_def
  by (rule step_create [of uuid_a _ "[]"], simp_all add: processing_def prod_eq_iff)
    (rule step_next, simp add: prod_eq_iff)

lemma one_pending_pending: "pending one_pending = [uuid_a]"
  using create_job_spec [of empty_keyspace sample_queue print_json parse_json rev uuid_a "JObj []"]
  by (auto simp: one_pending_def sample_queue_def)

theorem queue_invariant_witness:
  "pending one_pending = [uuid_a] \<and> distinct (processing one_taken) \<and>
   set (pending one_taken) \<inter> set (processing one_taken) = {}"
proof -
  have "(jq_step print_json parse_json rev sample_queue)\<^sup>*\<^sup>* empty_keyspace one_taken"
    using sample_path by (meson converse_rtranclp_into_rtranclp r_into_rtranclp)
  from queue_invariant [OF sample_codec _ this] show ?thesis
    by (simp add: one_pending_pending sample_queue_def)
qed

theorem no_job_lost_witness:
  "uuid_a \<in> set (pending one_taken) \<or> uuid_a \<in> set (processing one_taken) \<or>
   rlook one_taken (job_result_key uuid_a) \<noteq> None \<or>
   (\<exists>ts. print_json (dead_letter uuid_a ''data_expired'' [] ts) \<in> set (dead_letters one_taken)) \<or>
   stale one_pending uuid_a \<and> backup one_pending uuid_a = []"
proof -
  have "(jq_step print_json parse_json rev sample_queue)\<^sup>*\<^sup>* empty_keyspace one_pending"
    using sample_path by blast
  from no_job_lost [OF sample_codec _ this sample_path(2), of uuid_a] show ?thesis
    by (simp add: one_pending_pending sample_queue_def)
qed

end
