(* ===== verification/Rate_Limiter.thy ===== *)
theory Rate_Limiter
  imports Redis_Env
begin

text \<open>
  \<^verbatim>\<open>shared/rate_limiter.py\<close>. The body of the \<open>while True\<close> loop of each backend is one
  round at a clock reading: it grants the request, or says how long to sleep, or raises. A whole
  \<open>acquire\<close> is a sequence of rounds, between which other tasks run (the lock is released while
  sleeping). The locale \<open>sliding_window\<close> states what a round promises about the recorded
  requests; its client lemma bounds the grants in every window of time, and both backends
  interpret it. Times are real numbers.
\<close>

datatype round = Granted | Sleep real | Failed exn

text \<open>A timeout with its printed form, for the error message.\<close>

type_synonym timeout = "(real \<times> string) option"

definition timed_out :: "timeout \<Rightarrow> real \<Rightarrow> exn option" where
  "timed_out tmo elapsed =
     (case tmo of
        None \<Rightarrow> None
      | Some (t, txt) \<Rightarrow>
          if t \<le> elapsed then Some (Exn TimeoutError (''Rate limit timeout after '' @ txt @ ''s'')) else None)"

section \<open>The in-memory backend\<close>

record mem_backend =
  mem_requests :: "real list dict"
  mem_locks :: "string list"

definition get_requests :: "mem_backend \<Rightarrow> string \<Rightarrow> real list" where
  "get_requests b key = opt_default [] (dict_get (mem_requests b) key)"

definition get_lock :: "string \<Rightarrow> mem_backend \<Rightarrow> mem_backend" where
  "get_lock key b = (if key \<in> set (mem_locks b) then b else b\<lparr>mem_locks := key # mem_locks b\<rparr>)"

definition mem_round ::
  "string \<Rightarrow> int \<Rightarrow> real \<Rightarrow> timeout \<Rightarrow> real \<Rightarrow> real \<Rightarrow> mem_backend \<Rightarrow> round \<times> mem_backend" where
  "mem_round key max_requests time_window tmo start_time now b =
     (let requests = dropWhile (\<lambda>r. r \<le> now - time_window) (get_requests b key);
          b' = b\<lparr>mem_requests := dict_set key requests (mem_requests b)\<rparr>
      in if int (length requests) < max_requests
         then (Granted, b\<lparr>mem_requests := dict_set key (requests @ [now]) (mem_requests b)\<rparr>)
         else (case timed_out tmo (now - start_time) of
             Some e \<Rightarrow> (Failed e, b')
           | None \<Rightarrow>
               (case requests of
                  [] \<Rightarrow> (Failed (Exn IndexError ''deque index out of range''), b')
                | oldest_request # _ \<Rightarrow> (Sleep (oldest_request + time_window - now), b'))))"

text \<open>
  The whole call over the clock readings of its rounds, each with what other tasks did to the
  backend since the last one; \<open>None\<close> when it is still waiting after the last reading.
\<close>

fun mem_acquire_loop ::
  "string \<Rightarrow> int \<Rightarrow> real \<Rightarrow> timeout \<Rightarrow> real \<Rightarrow> (real \<times> (mem_backend \<Rightarrow> mem_backend)) list \<Rightarrow>
   mem_backend \<Rightarrow> bool result option \<times> mem_backend" where
  "mem_acquire_loop key mx w tmo start [] b = (None, b)"
| "mem_acquire_loop key mx w tmo start ((now, others) # rounds) b =
     (case mem_round key mx w tmo start now (others b) of
        (Granted, b') \<Rightarrow> (Some (Inr True), b')
      | (Failed e, b') \<Rightarrow> (Some (Inl e), b')
      | (Sleep d, b') \<Rightarrow> mem_acquire_loop key mx w tmo start rounds b')"

definition mem_acquire ::
  "string \<Rightarrow> int \<Rightarrow> real \<Rightarrow> timeout \<Rightarrow> real \<Rightarrow> (real \<times> (mem_backend \<Rightarrow> mem_backend)) list \<Rightarrow>
   mem_backend \<Rightarrow> bool result option \<times> mem_backend" where
  "mem_acquire key mx w tmo start rounds b = mem_acquire_loop key mx w tmo start rounds (get_lock key b)"

definition mem_cleanup :: "mem_backend \<Rightarrow> mem_backend" where
  "mem_cleanup b = b\<lparr>mem_requests := [], mem_locks := []\<rparr>"

section \<open>The Redis backend\<close>

definition redis_limit_key :: "string \<Rightarrow> string" where
  "redis_limit_key key = ''rate_limit:'' @ key"

text \<open>The pipeline: drop what has left the window, count the rest.\<close>

definition redis_count :: "'s env \<Rightarrow> string \<Rightarrow> real \<Rightarrow> real \<Rightarrow> ('s, nat) io" where
  "redis_count E key time_window now =
     io_then (x_zremrangebyscore E (redis_limit_key key) 0 (now - time_window))
       (x_zcard E (redis_limit_key key))"

text \<open>Recording the request; the Boolean says whether it was new.\<close>

definition redis_grant :: "'s env \<Rightarrow> string \<Rightarrow> real \<Rightarrow> real \<Rightarrow> string \<Rightarrow> ('s, bool) io" where
  "redis_grant E key time_window now request_id =
     io_bind (x_zadd E (redis_limit_key key) request_id now) (\<lambda>added.
       if added \<noteq> 0
       then io_then (x_expire E (redis_limit_key key) (\<lfloor>time_window\<rfloor> + 60)) (io_ret True)
       else io_ret False)"

definition redis_wait :: "'s env \<Rightarrow> string \<Rightarrow> real \<Rightarrow> timeout \<Rightarrow> real \<Rightarrow> real \<Rightarrow> ('s, round) io" where
  "redis_wait E key time_window tmo elapsed now =
     (case timed_out tmo elapsed of
        Some e \<Rightarrow> io_ret (Failed e)
      | None \<Rightarrow>
          io_bind (x_zfirst E (redis_limit_key key)) (\<lambda>oldest_entries.
            io_ret (Sleep (case oldest_entries of
                [] \<Rightarrow> 1 / 10
              | (m, oldest_timestamp) # _ \<Rightarrow> max (1 / 10) (oldest_timestamp + time_window - now)))))"

definition redis_round ::
  "'s env \<Rightarrow> string \<Rightarrow> int \<Rightarrow> real \<Rightarrow> timeout \<Rightarrow> real \<Rightarrow> real \<Rightarrow> string \<Rightarrow> ('s, round) io" where
  "redis_round E key max_requests time_window tmo elapsed now request_id =
     io_bind (redis_count E key time_window now) (\<lambda>current_count.
       if int current_count < max_requests
       then io_bind (redis_grant E key time_window now request_id) (\<lambda>added.
         if added then io_ret Granted else redis_wait E key time_window tmo elapsed now)
       else redis_wait E key time_window tmo elapsed now)"

fun redis_acquire ::
  "'s env \<Rightarrow> string \<Rightarrow> int \<Rightarrow> real \<Rightarrow> timeout \<Rightarrow> (real \<times> real \<times> string \<times> ('s \<Rightarrow> 's)) list \<Rightarrow>
   ('s, bool option) io" where
  "redis_acquire E key mx w tmo [] = io_ret None"
| "redis_acquire E key mx w tmo ((elapsed, now, request_id, others) # rounds) =
     (\<lambda>s. io_bind (redis_round E key mx w tmo elapsed now request_id) (\<lambda>r. case r of
         Granted \<Rightarrow> io_ret (Some True)
       | Failed e \<Rightarrow> io_raise e
       | Sleep d \<Rightarrow> redis_acquire E key mx w tmo rounds) (others s))"

section \<open>Limiters\<close>

text \<open>\<open>acquire\<close> of a backend, as the limiters see it: name, limit, window and timeout.\<close>

type_synonym ('s, 'a) backend_acquire = "string \<Rightarrow> int \<Rightarrow> real \<Rightarrow> timeout \<Rightarrow> ('s, 'a) io"

record rate_limiter =
  rl_max_requests :: int
  rl_time_window :: real
  rl_name :: string

definition limiter_acquire :: "('s, bool) backend_acquire \<Rightarrow> rate_limiter \<Rightarrow> timeout \<Rightarrow> ('s, bool) io" where
  "limiter_acquire backend rl tmo =
     io_try (backend (rl_name rl) (rl_max_requests rl) (rl_time_window rl) tmo)
       (\<lambda>e. if exc_isinstance e TimeoutError then io_raise e else io_raise e)"

type_synonym multi_limiter = "rate_limiter dict"

definition add_limiter :: "string \<Rightarrow> int \<Rightarrow> real \<Rightarrow> multi_limiter \<Rightarrow> rate_limiter \<times> multi_limiter" where
  "add_limiter name mx w ml =
     (let limiter = \<lparr>rl_max_requests = mx, rl_time_window = w, rl_name = name\<rparr>
      in (limiter, dict_set name limiter ml))"

definition get_limiter :: "multi_limiter \<Rightarrow> string \<Rightarrow> rate_limiter option" where
  "get_limiter ml name = dict_get ml name"

definition multi_acquire ::
  "('s, bool) backend_acquire \<Rightarrow> multi_limiter \<Rightarrow> string \<Rightarrow> timeout \<Rightarrow> ('s, bool) io" where
  "multi_acquire backend ml name tmo =
     (case get_limiter ml name of
        None \<Rightarrow> io_ret True
      | Some limiter \<Rightarrow> limiter_acquire backend limiter tmo)"

definition multi_cleanup :: "('s, unit) io \<Rightarrow> multi_limiter \<Rightarrow> ('s, multi_limiter) io" where
  "multi_cleanup backend_cleanup ml = io_then backend_cleanup (io_ret [])"

definition create_redis_rate_limiter_backend ::
  "bool \<Rightarrow> 's env \<Rightarrow> ('s, unit) io \<Rightarrow> string option \<Rightarrow> ('s, string) io" where
  "create_redis_rate_limiter_backend installed E ping redis_url =
     (if \<not> installed
      then io_raise (Exn ImportError (''redis package is required for distributed rate limiting. '' @
             ''Install with: pip install redis''))
      else
        (let url = (if opt_default [] redis_url = [] then ''redis://localhost:6379''
                    else opt_default [] redis_url)
         in io_try (io_then (x_connect E url) (io_then ping (io_ret url)))
              (\<lambda>e. io_raise (Exn ConnectionError (''Failed to connect to Redis: '' @ exc_msg e)))))"

section \<open>The sliding-window contract\<close>

text \<open>The clock readings at which a sequence of events was granted, and the events' admissibility.\<close>

fun granted_at :: "('i \<Rightarrow> 'b \<Rightarrow> bool \<times> 'b) \<Rightarrow> ('i \<Rightarrow> real) \<Rightarrow> 'i list \<Rightarrow> 'b \<Rightarrow> real list" where
  "granted_at step clock [] b = []"
| "granted_at step clock (x # xs) b =
     (case step x b of (g, b') \<Rightarrow> (if g then [clock x] else []) @ granted_at step clock xs b')"

fun events_ok :: "('i \<Rightarrow> 'b \<Rightarrow> bool) \<Rightarrow> ('i \<Rightarrow> 'b \<Rightarrow> bool \<times> 'b) \<Rightarrow> 'i list \<Rightarrow> 'b \<Rightarrow> bool" where
  "events_ok ok step [] b = True"
| "events_ok ok step (x # xs) b = (ok x b \<and> events_ok ok step xs (snd (step x b)))"

lemma events_ok_True: "events_ok (\<lambda>_ _. True) step xs b"
  by (induction xs arbitrary: b) auto

text \<open>
  \<open>newer b t\<close> is the number of recorded requests younger than the window at time \<open>t\<close>. A round
  at \<open>clock x\<close> that grants found fewer than \<open>M\<close> of them and records itself; one that does not
  grant, and the passing of time, lose none that is still in the window.
\<close>

locale sliding_window =
  fixes inv :: "'b \<Rightarrow> bool" and newer :: "'b \<Rightarrow> real \<Rightarrow> nat" and clock :: "'i \<Rightarrow> real"
    and ok :: "'i \<Rightarrow> 'b \<Rightarrow> bool" and step :: "'i \<Rightarrow> 'b \<Rightarrow> bool \<times> 'b"
    and W :: real and M :: nat
  assumes window_pos: "0 < W"
    and step_inv: "inv b \<Longrightarrow> ok x b \<Longrightarrow> step x b = (g, b') \<Longrightarrow> inv b'"
    and step_bound: "inv b \<Longrightarrow> ok x b \<Longrightarrow> step x b = (True, b') \<Longrightarrow> newer b (clock x) < M"
    and step_newer: "inv b \<Longrightarrow> ok x b \<Longrightarrow> step x b = (g, b') \<Longrightarrow> clock x \<le> t \<Longrightarrow>
      newer b' t = newer b t + of_bool (g \<and> t - W < clock x)"
begin

inductive history :: "'b \<Rightarrow> real list \<Rightarrow> real \<Rightarrow> 'b \<Rightarrow> bool" for b0 where
  start: "history b0 [] t0 b0"
| grant: "history b0 gs lt b \<Longrightarrow> ok x b \<Longrightarrow> lt \<le> clock x \<Longrightarrow> step x b = (True, b') \<Longrightarrow>
    history b0 (clock x # gs) (clock x) b'"
| deny: "history b0 gs lt b \<Longrightarrow> ok x b \<Longrightarrow> lt \<le> clock x \<Longrightarrow> step x b = (False, b') \<Longrightarrow>
    history b0 gs (clock x) b'"

lemma history_recorded:
  assumes "history b0 gs lt b" "inv b0" "\<And>t. newer b0 t = 0"
  shows "inv b \<and> (\<forall>g \<in> set gs. g \<le> lt) \<and>
    (\<forall>t \<ge> lt. newer b t = length (filter (\<lambda>g. t - W < g) gs))"
  using assms
proof (induction rule: history.induct)
  case (start t0)
  then show ?case by simp
next
  case (grant gs lt b x b')
  then show ?case using step_inv [of b x True b'] step_newer [of b x True b'] by force
next
  case (deny gs lt b x b')
  then show ?case using step_inv [of b x False b'] step_newer [of b x False b'] by force
qed

lemma history_bounded:
  assumes "history b0 gs lt b" "inv b0" "\<And>t. newer b0 t = 0"
  shows "length (filter (\<lambda>g. t - W < g \<and> g \<le> t) gs) \<le> M"
  using assms
proof (induction rule: history.induct)
  case (grant gs lt b x b')
  show ?case
  proof (cases "t - W < clock x \<and> clock x \<le> t")
    case False
    with grant show ?thesis by auto
  next
    case True
    have rec: "inv b" "newer b (clock x) = length (filter (\<lambda>g. clock x - W < g) gs)"
      using history_recorded [OF grant.hyps(1) grant.prems] grant.hyps(3) by auto
    have sub: "\<And>g. t - W < g \<and> g \<le> t \<Longrightarrow> clock x - W < g" using True by simp
    have "length (filter (\<lambda>g. t - W < g \<and> g \<le> t) gs) \<le> length (filter (\<lambda>g. clock x - W < g) gs)"
      using sub by (induction gs) auto
    also have "\<dots> < M" using step_bound [OF rec(1) grant.hyps(2,4)] rec(2) by simp
    finally show ?thesis using True by simp
  qed
qed auto

lemma history_granted:
  assumes "history b0 gs lt b" "events_ok ok step xs b" "sorted (lt # map clock xs)"
  shows "\<exists>lt' b'. history b0 (rev (granted_at step clock xs b) @ gs) lt' b'"
  using assms
proof (induction xs arbitrary: gs lt b)
  case Nil
  then show ?case by auto
next
  case (Cons x xs)
  obtain g b' where st: "step x b = (g, b')" by (cases "step x b")
  with Cons.prems have "history b0 ((if g then [clock x] else []) @ gs) (clock x) b'"
    by (cases g) (auto intro: history.intros)
  with Cons.IH [of _ "clock x" b'] Cons.prems st show ?case by fastforce
qed

lemma granted_bounded:
  assumes "inv b" "\<And>t. newer b t = 0" "events_ok ok step xs b" "sorted (map clock xs)"
  shows "length (filter (\<lambda>g. t - W < g \<and> g \<le> t) (granted_at step clock xs b)) \<le> M"
proof (cases xs)
  case (Cons x xs')
  with assms(4) have "sorted (clock x # map clock xs)" by auto
  from history_granted [OF history.start assms(3) this] obtain lt' b' where
    "history b (rev (granted_at step clock xs b) @ []) lt' b'" by blast
  from history_bounded [OF this assms(1,2), of t] show ?thesis
    by (simp flip: rev_filter)
qed simp

end

section \<open>Both backends keep the contract\<close>

text \<open>In memory: an event is a clock reading with the timeout and start time of the call.\<close>

type_synonym mem_event = "real \<times> timeout \<times> real"

definition mem_newer :: "string \<Rightarrow> real \<Rightarrow> mem_backend \<Rightarrow> real \<Rightarrow> nat" where
  "mem_newer key W b t = length (filter (\<lambda>r. t - W < r) (get_requests b key))"

definition mem_event_step :: "string \<Rightarrow> nat \<Rightarrow> real \<Rightarrow> mem_event \<Rightarrow> mem_backend \<Rightarrow> bool \<times> mem_backend" where
  "mem_event_step key M W x b =
     (case x of (now, tmo, start) \<Rightarrow>
        (case mem_round key (int M) W tmo start now b of (r, b') \<Rightarrow> (r = Granted, b')))"

lemma get_requests_set [simp]:
  "get_requests (b\<lparr>mem_requests := dict_set k v (mem_requests b)\<rparr>) k' =
     (if k' = k then v else get_requests b k')"
  by (simp add: get_requests_def)

lemma newer_dropWhile:
  fixes xs :: "real list"
  assumes "now \<le> t"
  shows "filter (\<lambda>r. t - W < r) (dropWhile (\<lambda>r. r \<le> now - W) xs) = filter (\<lambda>r. t - W < r) xs"
  using assms by (induction xs) auto

lemma mem_round_newer:
  assumes "mem_round key mx W tmo start now b = (r, b')" "now \<le> t"
  shows "mem_newer key W b' t = mem_newer key W b t + of_bool (r = Granted \<and> t - W < now)"
proof -
  define q where "q = dropWhile (\<lambda>r. r \<le> now - W) (get_requests b key)"
  have "filter (\<lambda>r. t - W < r) q = filter (\<lambda>r. t - W < r) (get_requests b key)"
    unfolding q_def by (rule newer_dropWhile [OF assms(2)])
  with assms(1) show ?thesis
    unfolding mem_round_def mem_newer_def Let_def q_def [symmetric]
    by (auto split: if_splits option.splits list.splits)
qed

lemma mem_round_bound:
  assumes "mem_round key mx W tmo start now b = (Granted, b')"
  shows "int (mem_newer key W b now) < mx"
proof -
  have "length (filter (\<lambda>r. now - W < r) (dropWhile (\<lambda>r. r \<le> now - W) (get_requests b key)))
      \<le> length (dropWhile (\<lambda>r. r \<le> now - W) (get_requests b key))"
    by (rule length_filter_le)
  then show ?thesis
    using assms newer_dropWhile [of now now W "get_requests b key"]
    by (auto simp: mem_round_def mem_newer_def Let_def split: if_splits option.splits list.splits)
qed

lemma mem_window:
  assumes "0 < W"
  shows "sliding_window (\<lambda>_. True) (mem_newer key W) fst (\<lambda>_ _. True) (mem_event_step key M W) W M"
  using assms mem_round_newer [of key "int M" W] mem_round_bound [of key "int M" W]
  by unfold_locales (fastforce simp: mem_event_step_def split: prod.splits)+

text \<open>
  In Redis: an event is a round of some worker (its clock reading, a fresh request id, its
  timeout and the time it has been waiting) or the server's clock moving on. Clocks agree with the
  server's to the second.
\<close>

datatype limit_event = Ask real string timeout real | Pass nat real

fun event_clock :: "limit_event \<Rightarrow> real" where
  "event_clock (Ask now request_id tmo elapsed) = now"
| "event_clock (Pass d now) = now"

definition zset :: "string \<Rightarrow> rstate \<Rightarrow> (string \<times> real) list" where
  "zset key st = opt_default [] (as_zset (rlook st (redis_limit_key key)))"

definition redis_newer :: "string \<Rightarrow> real \<Rightarrow> rstate \<Rightarrow> real \<Rightarrow> nat" where
  "redis_newer key W st t = length (filter (\<lambda>p. t - W < snd p) (zset key st))"

fun event_ok :: "string \<Rightarrow> limit_event \<Rightarrow> rstate \<Rightarrow> bool" where
  "event_ok key (Ask now request_id tmo elapsed) st \<longleftrightarrow>
     real (rnow st) \<le> now \<and> now \<le> real (rnow st) + 1 \<and> request_id \<notin> fst ` set (zset key st)"
| "event_ok key (Pass d now) st \<longleftrightarrow> real (rnow st + d) \<le> now"

fun redis_event_step :: "rstate env \<Rightarrow> string \<Rightarrow> nat \<Rightarrow> real \<Rightarrow> limit_event \<Rightarrow> rstate \<Rightarrow> bool \<times> rstate" where
  "redis_event_step E key M W (Ask now request_id tmo elapsed) st =
     (case redis_round E key (int M) W tmo elapsed now request_id st of
        (r, st') \<Rightarrow> (r = Inr Granted, st'))"
| "redis_event_step E key M W (Pass d now) st = (False, radvance d st)"

definition redis_limit_inv :: "string \<Rightarrow> real \<Rightarrow> rstate \<Rightarrow> bool" where
  "redis_limit_inv key W st \<longleftrightarrow> as_zset (rlook st (redis_limit_key key)) \<noteq> None \<and>
     (\<forall>p \<in> set (zset key st). snd p \<le> real (rnow st) + 1) \<and>
     (\<forall>d. rdeadline st (redis_limit_key key) = Some d \<longrightarrow>
        (\<forall>p \<in> set (zset key st). snd p + W \<le> real d))"

lemma zinsert_filter: "length (filter P (zinsert m x z)) = length (filter P z) + of_bool (P (m, x))"
  by (induction z) auto

lemma zinsert_set [simp]: "set (zinsert m x z) = insert (m, x) (set z)"
  by (induction z) auto

lemma zinsert_nonempty [simp]: "zinsert m x z \<noteq> []"
  by (cases z) auto

lemma redis_count_spec:
  assumes "redis_limit_inv key W st"
  shows "\<exists>st'. redis_count (spec_env d l ord) key W now st = (Inr (length (zset key st')), st') \<and>
    zset key st' = filter (\<lambda>p. \<not> (0 \<le> snd p \<and> snd p \<le> now - W)) (zset key st) \<and>
    rnow st' = rnow st \<and> redis_limit_inv key W st'"
proof -
  obtain z where "as_zset (rlook st (redis_limit_key key)) = Some z"
    using assms by (auto simp: redis_limit_inv_def)
  with assms show ?thesis
    by (auto simp: redis_count_def io_simps redis_simps r_zremrangebyscore_def r_zcard_def Let_def
        zset_def redis_limit_inv_def)
qed

lemma redis_grant_spec:
  assumes "redis_limit_inv key W st" "request_id \<notin> fst ` set (zset key st)" "0 < W"
    and "now \<le> real (rnow st) + 1"
  shows "\<exists>st'. redis_grant (spec_env d l ord) key W now request_id st = (Inr True, st') \<and>
    zset key st' = zinsert request_id now (zset key st) \<and> redis_limit_inv key W st'"
proof -
  obtain z where z: "as_zset (rlook st (redis_limit_key key)) = Some z" "zset key st = z"
    using assms(1) by (auto simp: redis_limit_inv_def zset_def)
  have fresh: "filter (\<lambda>p. fst p \<noteq> request_id) z = z" "map_of z request_id = None"
    using assms(2) z(2) by (force intro: filter_True) (simp add: map_of_eq_None_iff assms(2) z(2)[symmetric])
  have pos: "0 < \<lfloor>W\<rfloor> + 60" "W < real_of_int (\<lfloor>W\<rfloor> + 60) - 1"
    using assms(3) by linarith+
  have dl: "x + W \<le> real (rnow st + nat (\<lfloor>W\<rfloor> + 60))" if "x \<le> real (rnow st) + 1" for x
    using that pos by simp
  show ?thesis
    using z fresh pos assms(1,4) dl
    by (auto simp: redis_grant_def io_simps redis_simps r_zadd_def r_expire_def zset_def
        redis_limit_inv_def)
qed

lemma redis_wait_spec:
  assumes "redis_limit_inv key W st"
  shows "\<exists>r. redis_wait (spec_env d l ord) key W tmo elapsed now st = (Inr r, st) \<and> r \<noteq> Granted"
  using assms by (auto simp: redis_wait_def io_simps redis_simps r_zfirst_def redis_limit_inv_def
      split: option.split)

lemma newer_count:
  assumes "now \<le> t"
  shows "filter (\<lambda>p. t - W < snd p) (filter (\<lambda>p. \<not> (0 \<le> snd p \<and> snd p \<le> now - W)) z) =
    filter (\<lambda>p. t - W < snd (p :: string \<times> real)) z"
  using assms by (induction z) auto

lemma redis_round_spec:
  assumes "redis_limit_inv key W st" "event_ok key (Ask now request_id tmo elapsed) st" "0 < W"
  shows "\<exists>r st'. redis_round (spec_env d l ord) key (int M) W tmo elapsed now request_id st = (Inr r, st') \<and>
    redis_limit_inv key W st' \<and> (r = Granted \<longrightarrow> redis_newer key W st now < M) \<and>
    (\<forall>t \<ge> now. redis_newer key W st' t =
       redis_newer key W st t + of_bool (r = Granted \<and> t - W < now))"
proof -
  obtain st1 where 1: "redis_count (spec_env d l ord) key W now st = (Inr (length (zset key st1)), st1)"
    "zset key st1 = filter (\<lambda>p. \<not> (0 \<le> snd p \<and> snd p \<le> now - W)) (zset key st)"
    "rnow st1 = rnow st" "redis_limit_inv key W st1"
    using redis_count_spec [OF assms(1)] by blast
  have newer: "redis_newer key W st1 t = redis_newer key W st t" if "now \<le> t" for t
    using newer_count [OF that] by (simp add: redis_newer_def 1(2))
  have le: "redis_newer key W st now \<le> length (zset key st1)"
    unfolding newer [OF order_refl, symmetric] by (simp add: redis_newer_def)
  show ?thesis
  proof (cases "int (length (zset key st1)) < int M")
    case True
    have "request_id \<notin> fst ` set (zset key st1)" "now \<le> real (rnow st1) + 1"
      using assms(2) 1(2,3) by auto
    from redis_grant_spec [OF 1(4) this(1) assms(3) this(2), of d l ord] obtain st2 where
      2: "redis_grant (spec_env d l ord) key W now request_id st1 = (Inr True, st2)"
        "zset key st2 = zinsert request_id now (zset key st1)" "redis_limit_inv key W st2" by blast
    have "redis_newer key W st2 t = redis_newer key W st t + of_bool (t - W < now)" if "now \<le> t" for t
      using newer [OF that] by (simp add: redis_newer_def 2(2) zinsert_filter)
    with 1 2 True le show ?thesis by (auto simp: redis_round_def io_simps)
  next
    case False
    obtain r where "redis_wait (spec_env d l ord) key W tmo elapsed now st1 = (Inr r, st1)" "r \<noteq> Granted"
      using redis_wait_spec [OF 1(4)] by blast
    with 1 False newer show ?thesis by (auto simp: redis_round_def io_simps)
  qed
qed

lemma zset_pass: "zset key (radvance n st) = zset key st \<or> zset key (radvance n st) = []"
  using rlook_radvance_cases [of n st "redis_limit_key key"] by (auto simp: zset_def)

lemma redis_pass_inv:
  assumes "redis_limit_inv key W st"
  shows "redis_limit_inv key W (radvance n st)"
proof -
  have "as_zset (rlook (radvance n st) (redis_limit_key key)) \<noteq> None"
    using assms rlook_radvance_cases [of n st "redis_limit_key key"] by (auto simp: redis_limit_inv_def)
  moreover have "rdeadline st (redis_limit_key key) = Some dl"
    if "rdeadline (radvance n st) (redis_limit_key key) = Some dl" for dl
    using that by (auto simp: rdeadline_eq radvance_def split: option.splits if_splits)
  moreover have "p \<in> set (zset key st)" if "p \<in> set (zset key (radvance n st))" for p
    using that zset_pass [of key n st] by auto
  ultimately show ?thesis
    using assms unfolding redis_limit_inv_def by (fastforce simp: add_increasing2)
qed

lemma redis_pass_newer:
  assumes "redis_limit_inv key W st" "real (rnow st + n) \<le> t"
  shows "redis_newer key W (radvance n st) t = redis_newer key W st t"
proof (cases "zset key (radvance n st) = zset key st")
  case True
  then show ?thesis by (simp add: redis_newer_def)
next
  case False
  then have "rlook (radvance n st) (redis_limit_key key) \<noteq> rlook st (redis_limit_key key)"
    by (auto simp: zset_def)
  then obtain dl where dl: "rdeadline st (redis_limit_key key) = Some dl" "\<not> rnow st + n < dl"
    by (auto simp: rlook_radvance split: option.splits if_splits)
  have "\<not> t - W < snd p" if "p \<in> set (zset key st)" for p
  proof -
    have "snd p + W \<le> real dl" using assms(1) dl(1) that by (auto simp: redis_limit_inv_def)
    moreover have "real dl \<le> t" using dl(2) assms(2) by simp
    ultimately show ?thesis by simp
  qed
  then have "redis_newer key W st t = 0" by (auto simp: redis_newer_def filter_empty_conv)
  moreover have "zset key (radvance n st) = []" using zset_pass [of key n st] False by blast
  ultimately show ?thesis by (simp add: redis_newer_def)
qed

lemma redis_event_step_spec:
  assumes "0 < W" "redis_limit_inv key W b" "event_ok key x b"
    and "redis_event_step (spec_env d l ord) key M W x b = (g, b')"
  shows "redis_limit_inv key W b' \<and> (g \<longrightarrow> redis_newer key W b (event_clock x) < M) \<and>
    (\<forall>t \<ge> event_clock x.
       redis_newer key W b' t = redis_newer key W b t + of_bool (g \<and> t - W < event_clock x))"
proof (cases x)
  case (Ask now request_id tmo elapsed)
  with assms redis_round_spec [OF assms(2), of now request_id tmo elapsed d l ord M] show ?thesis
    by auto
next
  case (Pass n now)
  with assms redis_pass_inv [OF assms(2)] redis_pass_newer [OF assms(2), of n] show ?thesis by auto
qed

lemma redis_window:
  assumes "0 < W"
  shows "sliding_window (redis_limit_inv key W) (redis_newer key W) event_clock (event_ok key)
    (redis_event_step (spec_env d l ord) key M W) W M"
  using assms redis_event_step_spec [OF assms, of key _ _ d l ord M]
  by unfold_locales (simp, blast+)

text \<open>The limiters \<^verbatim>\<open>services/agent_worker/worker.py\<close> installs for GitHub: 5000 requests an hour.\<close>

interpretation mem_limit: sliding_window "\<lambda>_. True" "mem_newer ''github'' 3600" fst "\<lambda>_ _. True"
  "mem_event_step ''github'' 5000 3600" 3600 5000
  by (rule mem_window) simp

interpretation redis_limit: sliding_window "redis_limit_inv ''github'' 3600" "redis_newer ''github'' 3600"
  event_clock "event_ok ''github''" "redis_event_step (spec_env print_json parse_json rev) ''github'' 5000 3600" 3600 5000
  by (rule redis_window) simp

text \<open>
  C21: with the in-memory backend, however the rounds of concurrent callers are ordered, at most
  \<open>max_requests\<close> requests are granted in any half-open window of \<open>time_window\<close> seconds, as long
  as the clock does not go back.
\<close>

theorem mem_limit_respected:
  assumes "0 < W" "sorted (map fst xs)" "get_requests b key = []"
  shows "length (filter (\<lambda>g. t - W < g \<and> g \<le> t) (granted_at (mem_event_step key M W) fst xs b)) \<le> M"
  using assms sliding_window.granted_bounded [OF mem_window [OF assms(1), of key M], of b xs t]
  by (simp add: mem_newer_def events_ok_True)

theorem mem_limit_respected_witness:
  "length (filter (\<lambda>g. 3 - 10 < g \<and> g \<le> (3::real))
     (granted_at (mem_event_step ''k'' 2 10) fst [(1, None, 1), (2, None, 2), (3, None, 3)]
       \<lparr>mem_requests = [], mem_locks = []\<rparr>)) \<le> 2"
  using mem_limit_respected [of 10 "[(1, None, 1), (2, None, 2), (3, None, 3)]"
      "\<lparr>mem_requests = [], mem_locks = []\<rparr>" "''k''" 3 2]
  by (simp add: get_requests_def)

text \<open>
  With the Redis backend, when the rounds of all workers run one after the other (clocks
  within a second of the server's, request ids fresh), at most \<open>max_requests\<close> requests are granted
  in any window of \<open>time_window\<close> seconds; the expiry set on the key never removes a request that
  still counts.
\<close>

theorem redis_limit_respected:
  assumes "0 < W" "sorted (map event_clock xs)" "rlook st (redis_limit_key key) = None"
    and "events_ok (event_ok key) (redis_event_step (spec_env d l ord) key M W) xs st"
  shows "length (filter (\<lambda>g. t - W < g \<and> g \<le> t)
    (granted_at (redis_event_step (spec_env d l ord) key M W) event_clock xs st)) \<le> M"
  using assms sliding_window.granted_bounded [OF redis_window [OF assms(1), of key d l ord M], of st xs t]
  by (simp add: redis_newer_def zset_def redis_limit_inv_def)

theorem redis_limit_respected_witness:
  "length (filter (\<lambda>g. 5 - 10 < g \<and> g \<le> (5::real))
     (granted_at (redis_event_step (spec_env print_json parse_json rev) ''k'' 2 10) event_clock
       [Ask 0 ''a'' None 0, Pass 3 3] empty_keyspace)) \<le> 2"
  using redis_limit_respected [of 10 "[Ask 0 ''a'' None 0, Pass 3 3]" empty_keyspace "''k''"
      print_json parse_json rev 2 5]
  by (simp add: redis_round_def redis_count_def redis_grant_def io_simps redis_simps redis_commands
      zset_def redis_limit_key_def empty_keyspace_def [THEN arg_cong [of _ _ rnow]])

text \<open>
  The check and the recording of the Redis backend are separate commands. When two workers
  count before either records, both are granted, and more than \<open>max_requests\<close> requests are
  granted in one window.
\<close>

theorem redis_limit_exceeded_when_interleaved:
  "\<exists>st. io_bind (redis_count (spec_env print_json parse_json rev) ''github'' 60 1000) (\<lambda>c1.
      io_bind (redis_count (spec_env print_json parse_json rev) ''github'' 60 1000) (\<lambda>c2.
      io_bind (redis_grant (spec_env print_json parse_json rev) ''github'' 60 1000 ''1000.0:1'') (\<lambda>g1.
      io_bind (redis_grant (spec_env print_json parse_json rev) ''github'' 60 1000 ''1000.0:2'') (\<lambda>g2.
        io_ret (int c1 < 1 \<and> g1, int c2 < 1 \<and> g2))))) empty_keyspace = (Inr (True, True), st) \<and>
     redis_newer ''github'' 60 st 1000 = 2"
  by (simp add: redis_count_def redis_grant_def io_simps redis_simps redis_commands redis_newer_def zset_def
      redis_limit_key_def Let_def)

text \<open>
  The time an in-memory caller is told to sleep is enough: if nobody else was granted in the
  meantime, the next round at or after that time grants the request. A round that grants nothing
  and does not fail always asks for a positive time.
\<close>

theorem mem_wait_is_enough:
  assumes "mem_round key mx W tmo start now b = (Sleep d, b')" "now + d \<le> now'"
    and "int (length (get_requests b key)) \<le> mx"
  shows "0 < d \<and> fst (mem_round key mx W tmo start now' b') = Granted"
proof -
  define q where "q = dropWhile (\<lambda>r. r \<le> now - W) (get_requests b key)"
  obtain r rs where q: "q = r # rs" "d = r + W - now" "get_requests b' key = q"
    using assms(1) unfolding mem_round_def Let_def q_def [symmetric]
    by (auto split: if_splits option.splits list.splits)
  have "\<not> r \<le> now - W"
    using q(1) hd_dropWhile [of "\<lambda>r. r \<le> now - W" "get_requests b key"] unfolding q_def by auto
  then have pos: "0 < d" using q(2) by simp
  have "length (dropWhile (\<lambda>r. r \<le> now' - W) (get_requests b' key)) \<le> length rs"
    using assms(2) q length_dropWhile_le [of "\<lambda>r. r \<le> now' - W" rs] by simp
  moreover have "length q \<le> length (get_requests b key)"
    unfolding q_def by (rule length_dropWhile_le)
  ultimately have "int (length (dropWhile (\<lambda>r. r \<le> now' - W) (get_requests b' key))) < mx"
    using assms(3) q(1) by simp
  with pos show ?thesis by (simp add: mem_round_def Let_def)
qed

theorem mem_wait_is_enough_witness:
  "fst (mem_round ''k'' 1 10 None 0 12
     (snd (mem_round ''k'' 1 10 None 0 5 \<lparr>mem_requests = [(''k'', [2])], mem_locks = []\<rparr>))) = Granted"
proof -
  have "mem_round ''k'' 1 10 None 0 5 \<lparr>mem_requests = [(''k'', [2])], mem_locks = []\<rparr> =
      (Sleep 7, snd (mem_round ''k'' 1 10 None 0 5 \<lparr>mem_requests = [(''k'', [2])], mem_locks = []\<rparr>))"
    by (simp add: mem_round_def get_requests_def timed_out_def)
  from mem_wait_is_enough [OF this, of 12] show ?thesis by (simp add: get_requests_def)
qed

end
