(* ===== verification/Keys.thy ===== *)
theory Keys
  imports Redis_Env
begin

text \<open>
  The key formats of \<^verbatim>\<open>shared/constants.py\<close>, shared by the stores, and when two
  repositories get the same key.
\<close>

definition SESSION_KEY :: "string \<Rightarrow> string" where "SESSION_KEY t = ''session:stream:'' @ t"
definition SESSION_LOOKUP_KEY :: "string \<Rightarrow> string" where "SESSION_LOOKUP_KEY t = ''session:stream:lookup:'' @ t"
definition SESSION_INBOX_KEY :: "string \<Rightarrow> string" where "SESSION_INBOX_KEY t = ''session:inbox:'' @ t"
definition SESSION_SUBSCRIBERS_KEY :: "string \<Rightarrow> string" where "SESSION_SUBSCRIBERS_KEY t = ''session:subscribers:'' @ t"
definition SESSION_HISTORY_KEY :: "string \<Rightarrow> string" where "SESSION_HISTORY_KEY t = ''session:history:'' @ t"
definition MSG_CHANNEL :: "string \<Rightarrow> string" where "MSG_CHANNEL t = ''session:msg:'' @ t"
definition CTL_CHANNEL :: "string \<Rightarrow> string" where "CTL_CHANNEL t = ''session:ctl:'' @ t"

lemmas session_keys = SESSION_KEY_def SESSION_LOOKUP_KEY_def SESSION_INBOX_KEY_def
  SESSION_SUBSCRIBERS_KEY_def SESSION_HISTORY_KEY_def MSG_CHANNEL_def CTL_CHANNEL_def

definition sanitize_repo_key :: "string \<Rightarrow> string" where
  "sanitize_repo_key repo = str_replace_char CHR ''/'' ''--'' repo"

definition streaming_lookup_key :: "string \<Rightarrow> string \<Rightarrow> string \<Rightarrow> string \<Rightarrow> string" where
  "streaming_lookup_key repo thread_id workflow thread_type =
     (let safe_repo = sanitize_repo_key repo
      in if thread_type \<noteq> []
         then SESSION_LOOKUP_KEY (safe_repo @ '':'' @ thread_type @ '':'' @ thread_id @ '':'' @ workflow)
         else SESSION_LOOKUP_KEY (safe_repo @ '':'' @ thread_id @ '':'' @ workflow))"

text \<open>
  GitHub's rules for an owner's login: letters, digits and single hyphens, none at the end.
\<close>

definition is_owner :: "string \<Rightarrow> bool" where
  "is_owner s \<longleftrightarrow> CHR ''/'' \<notin> set s \<and> \<not> sublist ''--'' s \<and> \<not> suffix ''-'' s"

lemma str_replace_char_append: "str_replace_char c n (a @ b) = str_replace_char c n a @ str_replace_char c n b"
  by (simp add: str_replace_char_def)

lemma str_replace_char_id: "c \<notin> set s \<Longrightarrow> str_replace_char c n s = s"
  unfolding str_replace_char_def by (induction s) auto

lemma sanitize_full_name:
  "CHR ''/'' \<notin> set a \<Longrightarrow> CHR ''/'' \<notin> set b \<Longrightarrow> sanitize_repo_key (a @ ''/'' @ b) = a @ ''--'' @ b"
  using str_replace_char_append [of "CHR ''/''" "''--''" a "''/'' @ b"]
    str_replace_char_append [of "CHR ''/''" "''--''" "''/''" b]
  by (simp add: sanitize_repo_key_def str_replace_char_id) (simp add: str_replace_char_def)

lemma owner_prefix:
  assumes "o1 @ ''--'' @ n1 = o2 @ ''--'' @ n2" "is_owner o2" "length o1 \<le> length o2"
  shows "o1 = o2"
proof (rule ccontr)
  assume "o1 \<noteq> o2"
  obtain x where x: "o2 = o1 @ x" "x @ ''--'' @ n2 = ''--'' @ n1"
    using assms(1,3) by (auto simp: append_eq_append_conv2)
  with \<open>o1 \<noteq> o2\<close> obtain y where "x = CHR ''-'' # y" by (cases x) auto
  with x(2) consider "x = ''-''" | z where "x = ''--'' @ z" by (cases y) auto
  then show False
  proof cases
    case 1
    with x(1) assms(2) show False by (auto simp: is_owner_def suffix_def)
  next
    case 2
    with x(1) have "sublist ''--'' o2" unfolding sublist_def by metis
    with assms(2) show False by (simp add: is_owner_def)
  qed
qed

text \<open>
  Repositories \<open>owner/name\<close> with different full names get different key fragments, given
  GitHub's rules for owners; so locks, sessions and queues of different repositories do not mix.
\<close>

theorem sanitize_repo_key_injective:
  assumes "is_owner o1" "is_owner o2" "CHR ''/'' \<notin> set n1" "CHR ''/'' \<notin> set n2"
    and "sanitize_repo_key (o1 @ ''/'' @ n1) = sanitize_repo_key (o2 @ ''/'' @ n2)"
  shows "o1 = o2 \<and> n1 = n2"
proof -
  have eq: "o1 @ ''--'' @ n1 = o2 @ ''--'' @ n2"
    using assms sanitize_full_name by (simp add: is_owner_def)
  then have "o1 = o2"
    using owner_prefix [of o1 n1 o2 n2] owner_prefix [of o2 n2 o1 n1] assms(1,2)
    by (cases "length o1 \<le> length o2") (auto simp: eq_commute)
  with eq show ?thesis by simp
qed

theorem sanitize_repo_key_injective_witness:
  "''a'' = ''a'' \<and> ''-b--c'' = ''-b--c'' \<and> sanitize_repo_key (''a'' @ ''/'' @ ''-b--c'') = ''a---b--c''"
proof -
  have o: "is_owner ''a''" 
    by (auto simp: is_owner_def sublist_def suffix_def append_eq_Cons_conv Cons_eq_append_conv)
  from sanitize_repo_key_injective [OF o o, of "''-b--c''" "''-b--c''"] show ?thesis
    by (simp add: sanitize_repo_key_def str_replace_char_def)
qed

lemma sanitize_collision: "sanitize_repo_key ''owner/repo'' = sanitize_repo_key ''owner--repo''"
  by (simp add: sanitize_repo_key_def str_replace_char_def)

end
