(* ===== verification/Retry.thy ===== *)
theory Retry
  imports Redis_Env
begin

text \<open>
  \<^verbatim>\<open>shared/retry.py\<close> and \<^verbatim>\<open>shared/dlq.py\<close>: the retry decorator with
  exponential backoff, and the failure path of a queue worker that re-enqueues a job with an
  attempt counter or routes it to a dead-letter queue. Delays are real numbers; sleeping and the
  wrapped function are parameters.
\<close>

section \<open>The retry decorator\<close>

record retry_config =
  max_attempts :: nat
  base_delay :: real
  max_delay :: real
  exponential_base :: real
  retry_exceptions :: "exc_class list"

text \<open>\<open>except exceptions\<close>; the default tuple \<open>(Exception,)\<close> is the empty list here: everything.\<close>

definition caught :: "retry_config \<Rightarrow> exn \<Rightarrow> bool" where
  "caught c e \<longleftrightarrow> retry_exceptions c = [] \<or> list_ex (exc_isinstance e) (retry_exceptions c)"

definition retry_delay :: "retry_config \<Rightarrow> nat \<Rightarrow> real" where
  "retry_delay c attempt = min (base_delay c * exponential_base c ^ attempt) (max_delay c)"

definition exhausted :: "retry_config \<Rightarrow> string \<Rightarrow> exn" where
  "exhausted c name =
     Exn RetryExhaustedError (name @ '' failed after '' @ show_nat (max_attempts c) @ '' attempts'')"

text \<open>The loop \<open>for attempt in range(max_attempts)\<close>, over the attempts that are left.\<close>

fun retry_loop ::
  "retry_config \<Rightarrow> string \<Rightarrow> (real \<Rightarrow> ('s, unit) io) \<Rightarrow> ('s, 'a) io \<Rightarrow> nat list \<Rightarrow> ('s, 'a) io" where
  "retry_loop c name sleep func [] = io_raise (exhausted c name)"
| "retry_loop c name sleep func (attempt # rest) =
     io_bind
       (io_try (io_bind func (\<lambda>x. io_ret (Inr x)))
         (\<lambda>e. if caught c e then io_ret (Inl e) else io_raise e))
       (\<lambda>r. case r of
           Inr x \<Rightarrow> io_ret x
         | Inl e \<Rightarrow>
             if int attempt < int (max_attempts c) - 1
             then io_then (sleep (retry_delay c attempt)) (retry_loop c name sleep func rest)
             else retry_loop c name sleep func rest)"

definition async_retry ::
  "retry_config \<Rightarrow> string \<Rightarrow> (real \<Rightarrow> ('s, unit) io) \<Rightarrow> ('s, 'a) io \<Rightarrow> ('s, 'a) io" where
  "async_retry c name sleep func = retry_loop c name sleep func [0..<max_attempts c]"

text \<open>
  A scripted function: each call consumes one outcome; sleeping is recorded. A call beyond the
  script raises.
\<close>

record 'a script =
  sc_todo :: "'a result list"
  sc_sleeps :: "real list"

definition sc_call :: "('a script, 'a) io" where
  "sc_call = (\<lambda>w. case sc_todo w of
       [] \<Rightarrow> (Inl (Exn RuntimeError ''script ended''), w)
     | r # rs \<Rightarrow> (r, w\<lparr>sc_todo := rs\<rparr>))"

definition sc_sleep :: "real \<Rightarrow> ('a script, unit) io" where
  "sc_sleep d = (\<lambda>w. (Inr (), w\<lparr>sc_sleeps := sc_sleeps w @ [d]\<rparr>))"

fun is_retryable :: "retry_config \<Rightarrow> 'a result \<Rightarrow> bool" where
  "is_retryable c (Inl e) = caught c e"
| "is_retryable c (Inr x) = False"

text \<open>What a run over a script should be: the first outcome that is not retried decides.\<close>

definition retry_outcome :: "retry_config \<Rightarrow> string \<Rightarrow> 'a result list \<Rightarrow> 'a result" where
  "retry_outcome c name rs =
     (case dropWhile (is_retryable c) (take (max_attempts c) rs) of
        [] \<Rightarrow> Inl (exhausted c name)
      | r # _ \<Rightarrow> r)"

definition failures :: "retry_config \<Rightarrow> 'a result list \<Rightarrow> nat" where
  "failures c rs = length (takeWhile (is_retryable c) (take (max_attempts c) rs))"

lemma retry_step:
  "caught c e \<Longrightarrow> retry_loop c name sc_sleep sc_call (k # ks) \<lparr>sc_todo = Inl e # rs, sc_sleeps = ds\<rparr> =
     retry_loop c name sc_sleep sc_call ks
       \<lparr>sc_todo = rs, sc_sleeps = (if Suc k < max_attempts c then ds @ [retry_delay c k] else ds)\<rparr>"
  by (auto simp: io_simps sc_call_def sc_sleep_def)

lemma retry_stop:
  "\<not> is_retryable c r \<Longrightarrow>
   retry_loop c name sc_sleep sc_call (k # ks) \<lparr>sc_todo = r # rs, sc_sleeps = ds\<rparr> =
     (r, \<lparr>sc_todo = rs, sc_sleeps = ds\<rparr>)"
  by (cases r) (simp_all add: io_simps sc_call_def)

definition sleeps_from :: "retry_config \<Rightarrow> nat \<Rightarrow> nat \<Rightarrow> real list" where
  "sleeps_from c k f = map (retry_delay c) [k..<min (k + f) (max_attempts c - 1)]"

lemma sleeps_from_Suc:
  "sleeps_from c k (Suc f) =
     (if Suc k < max_attempts c then retry_delay c k # sleeps_from c (Suc k) f else [])"
  by (auto simp: sleeps_from_def upt_conv_Cons simp del: upt_Suc)

lemma retry_loop_script:
  assumes "k \<le> max_attempts c" "max_attempts c - k \<le> length rs"
  shows "\<exists>rest. retry_loop c name sc_sleep sc_call [k..<max_attempts c]
      \<lparr>sc_todo = rs, sc_sleeps = ds\<rparr> =
    (case dropWhile (is_retryable c) (take (max_attempts c - k) rs) of
         [] \<Rightarrow> Inl (exhausted c name) | r # _ \<Rightarrow> r,
     \<lparr>sc_todo = rest,
      sc_sleeps = ds @ sleeps_from c k (length (takeWhile (is_retryable c) (take (max_attempts c - k) rs)))\<rparr>)
    \<and> length rs - length rest =
      min (max_attempts c - k) (Suc (length (takeWhile (is_retryable c) (take (max_attempts c - k) rs))))
    \<and> length rest \<le> length rs"
  using assms
proof (induction "max_attempts c - k" arbitrary: k rs ds)
  case 0
  then show ?case by (simp add: io_simps sleeps_from_def)
next
  case (Suc m)
  then obtain r rs' where rs: "rs = r # rs'" by (cases rs) auto
  have k: "[k..<max_attempts c] = k # [Suc k..<max_attempts c]"
    "max_attempts c - k = Suc (max_attempts c - Suc k)"
    using Suc by (auto simp: upt_rec)
  show ?case
  proof (cases "is_retryable c r")
    case False
    then show ?thesis unfolding k rs by (simp add: retry_stop sleeps_from_def del: retry_loop.simps)
  next
    case True
    then obtain e where e: "r = Inl e" "caught c e" by (cases r) auto
    have last: "sleeps_from c (Suc k) f = []" if "\<not> Suc k < max_attempts c" for f
      using that by (simp add: sleeps_from_def)
    have "m = max_attempts c - Suc k" "Suc k \<le> max_attempts c" "max_attempts c - Suc k \<le> length rs'"
      using Suc rs k by auto
    from Suc.hyps(1) [OF this, of "if Suc k < max_attempts c then ds @ [retry_delay c k] else ds"]
    show ?thesis
      unfolding k rs e(1) retry_step [OF e(2)] using e(2) last by (auto simp: sleeps_from_Suc simp del: retry_loop.simps)
  qed
qed

text \<open>
  The decorator calls the function until it succeeds, raises an exception outside
  \<open>exceptions\<close>, or has failed \<open>max_attempts\<close> times, whichever is first; that outcome (or
  \<open>RetryExhaustedError\<close>) is the result, no further call is made, and between two calls it sleeps
  \<open>min(base_delay * exponential_base ** attempt, max_delay)\<close>, never after the last one.
\<close>

theorem async_retry_behaviour:
  assumes "max_attempts c \<le> length rs"
  shows "\<exists>rest. async_retry c name sc_sleep sc_call \<lparr>sc_todo = rs, sc_sleeps = []\<rparr> =
      (retry_outcome c name rs,
       \<lparr>sc_todo = rest, sc_sleeps = map (retry_delay c) [0..<min (failures c rs) (max_attempts c - 1)]\<rparr>) \<and>
    length rs - length rest = min (max_attempts c) (Suc (failures c rs))"
  using retry_loop_script [of 0 c rs name "[]"] assms
  by (auto simp: async_retry_def retry_outcome_def failures_def sleeps_from_def)

theorem async_retry_behaviour_witness:
  "\<exists>rest. async_retry \<lparr>max_attempts = 3, base_delay = 1, max_delay = 60, exponential_base = 2,
        retry_exceptions = []\<rparr> ''f'' sc_sleep sc_call
      \<lparr>sc_todo = [Inl connection_reset, Inl connection_reset, Inr (7::nat)], sc_sleeps = []\<rparr> =
      (Inr 7, \<lparr>sc_todo = rest, sc_sleeps = [1, 2]\<rparr>)"
  using async_retry_behaviour [of "\<lparr>max_attempts = 3, base_delay = 1, max_delay = 60,
      exponential_base = 2, retry_exceptions = []\<rparr>"
      "[Inl connection_reset, Inl connection_reset, Inr (7::nat)]" "''f''"]
  by (auto simp: retry_outcome_def failures_def caught_def retry_delay_def upt_rec numeral_3_eq_3)

text \<open>The backoff grows and is capped, for the sensible configurations.\<close>

lemma retry_delay_mono:
  assumes "0 \<le> base_delay c" "1 \<le> exponential_base c" "i \<le> j"
  shows "retry_delay c i \<le> retry_delay c j" "retry_delay c j \<le> max_delay c"
proof -
  have "base_delay c * exponential_base c ^ i \<le> base_delay c * exponential_base c ^ j"
    using assms by (intro mult_left_mono power_increasing) auto
  then show "retry_delay c i \<le> retry_delay c j" by (simp add: retry_delay_def min_def)
qed (simp add: retry_delay_def)

section \<open>Dead-letter queues\<close>

definition TRANSIENT_MARKERS :: "string list" where
  "TRANSIENT_MARKERS = [''timeout'', ''connection'', ''reset'', ''429'', ''RESOURCE_EXHAUSTED'',
     ''503'', ''502'', ''ECONNREFUSED'', ''ECONNRESET'', ''ETIMEDOUT'']"

definition is_transient_error :: "exn \<Rightarrow> bool" where
  "is_transient_error exc =
     (let msg = str_lower (exc_msg exc)
      in list_ex (\<lambda>marker. str_contains (str_lower marker) msg) TRANSIENT_MARKERS)"

text \<open>\<open>type(exc).__name__\<close>\<close>

fun exc_name :: "exc_class \<Rightarrow> string" where
  "exc_name OSError = ''OSError''"
| "exc_name ConnectionError = ''ConnectionError''"
| "exc_name ConnectionRefusedError = ''ConnectionRefusedError''"
| "exc_name TimeoutError = ''TimeoutError''"
| "exc_name FileNotFoundError = ''FileNotFoundError''"
| "exc_name PermissionError = ''PermissionError''"
| "exc_name TypeError = ''TypeError''"
| "exc_name ValueError = ''ValueError''"
| "exc_name JSONDecodeError = ''JSONDecodeError''"
| "exc_name UnicodeDecodeError = ''UnicodeDecodeError''"
| "exc_name KeyError = ''KeyError''"
| "exc_name IndexError = ''IndexError''"
| "exc_name AttributeError = ''AttributeError''"
| "exc_name RuntimeError = ''RuntimeError''"
| "exc_name ImportError = ''ImportError''"
| "exc_name RedisError = ''RedisError''"
| "exc_name QueueError = ''QueueError''"
| "exc_name RetryExhaustedError = ''RetryExhaustedError''"
| "exc_name RepositorySyncError = ''RepositorySyncError''"
| "exc_name IndexingTimeoutError = ''IndexingTimeoutError''"
| "exc_name (HTTPException n) = ''HTTPException''"
| "exc_name (OtherException n) = n"

text \<open>
  \<open>message.get("attempts", 0) + 1\<close>: a Boolean counts as an integer, any other non-integer
  does not add. (Only this function writes the counter, so it is never a float.)
\<close>

definition next_attempt :: "json dict \<Rightarrow> int result" where
  "next_attempt message =
     (case opt_default (JInt 0) (dict_get message ''attempts'') of
        JInt i \<Rightarrow> Inr (i + 1)
      | JBool b \<Rightarrow> Inr (of_bool b + 1)
      | _ \<Rightarrow> Inl (Exn TypeError ''unsupported operand type(s) for +''))"

definition failed_message :: "json dict \<Rightarrow> int \<Rightarrow> exn \<Rightarrow> json dict" where
  "failed_message message attempts exc =
     dict_set ''last_error'' (JStr (exc_name (exc_cls exc) @ '': '' @ exc_msg exc))
       (dict_set ''attempts'' (JInt attempts) message)"

definition dlq_entry :: "json dict \<Rightarrow> int \<Rightarrow> exn \<Rightarrow> json \<Rightarrow> json" where
  "dlq_entry message attempts exc now =
     JObj [(''reason'', JStr ''max_retries_exceeded''),
           (''last_error'', JStr (exc_name (exc_cls exc) @ '': '' @ exc_msg exc)),
           (''attempts'', JInt attempts),
           (''original_message'', JObj message),
           (''timestamp'', now)]"

definition enqueue_for_retry ::
  "'s env \<Rightarrow> string \<Rightarrow> string \<Rightarrow> json dict \<Rightarrow> exn \<Rightarrow> int \<Rightarrow> json \<Rightarrow> ('s, unit) io" where
  "enqueue_for_retry E queue_key dlq_key message exc max_retries now =
     io_bind (io_of_result (next_attempt message)) (\<lambda>attempts.
       let message' = failed_message message attempts exc in
       if max_retries \<le> attempts
       then io_then (x_rpush E dlq_key (x_dumps E (dlq_entry message' attempts exc now))) (io_ret ())
       else io_then (x_rpush E queue_key (x_dumps E (JObj message'))) (io_ret ()))"

definition get_dlq_count :: "'s env \<Rightarrow> string \<Rightarrow> ('s, nat) io" where
  "get_dlq_count E dlq_key = io_try (x_llen E dlq_key) (\<lambda>e. io_ret 0)"

fun loads_each :: "'s env \<Rightarrow> string list \<Rightarrow> json list result" where
  "loads_each E [] = Inr []"
| "loads_each E (x # xs) =
     (case x_loads E x of
        None \<Rightarrow> Inl (Exn JSONDecodeError x)
      | Some j \<Rightarrow> res_bind (loads_each E xs) (\<lambda>js. Inr (j # js)))"

definition inspect_dlq :: "'s env \<Rightarrow> string \<Rightarrow> int \<Rightarrow> ('s, json list) io" where
  "inspect_dlq E dlq_key limit =
     io_try
       (io_bind (x_lrange E dlq_key 0 (limit - 1)) (\<lambda>entries. io_of_result (loads_each E entries)))
       (\<lambda>e. io_ret [])"

section \<open>The loop of a queue worker\<close>

text \<open>
  One round of \<open>main\<close> in \<^verbatim>\<open>services/memory_worker/memory_worker.py\<close>: take a message,
  process it, and on failure re-enqueue or dead-letter it. \<open>process\<close> is the agent run.
\<close>

definition DEFAULT_MAX_JOB_RETRIES :: int where "DEFAULT_MAX_JOB_RETRIES = 3"

definition memory_worker_step ::
  "'s env \<Rightarrow> (real \<Rightarrow> ('s, unit) io) \<Rightarrow> string \<Rightarrow> string \<Rightarrow> (json dict \<Rightarrow> ('s, unit) io) \<Rightarrow> json \<Rightarrow>
   ('s, unit) io" where
  "memory_worker_step E sleep queue_key dlq_key process now =
     io_try
       (io_bind (x_blpop E queue_key 5) (\<lambda>result. case result of
           None \<Rightarrow> io_ret ()
         | Some raw_message \<Rightarrow>
             (case x_loads E raw_message of
                None \<Rightarrow> io_raise (Exn JSONDecodeError raw_message)
              | Some (JObj message) \<Rightarrow>
                  io_try (process message)
                    (\<lambda>e. if is_transient_error e
                         then enqueue_for_retry E queue_key dlq_key message e DEFAULT_MAX_JOB_RETRIES now
                         else enqueue_for_retry E queue_key dlq_key message e 0 now)
              | Some _ \<Rightarrow> io_raise (Exn AttributeError ''get''))))
       (\<lambda>e. if exc_isinstance e JSONDecodeError then io_ret () else sleep 5)"

definition rlist :: "rstate \<Rightarrow> string \<Rightarrow> string list" where
  "rlist st k = opt_default [] (as_list (rlook st k))"

definition rlist_ok :: "rstate \<Rightarrow> string \<Rightarrow> bool" where
  "rlist_ok st k \<longleftrightarrow> as_list (rlook st k) \<noteq> None"

context redis_server
begin

lemma enqueue_for_retry_sim [sim_intros]:
  "sim view healthy (enqueue_for_retry E k dk m e mx now) (enqueue_for_retry (model_env E ord) k dk m e mx now)"
  unfolding enqueue_for_retry_def model_env_codec Let_def by (intro sim_intros)

lemma sim_json [sim_intros]:
  assumes "\<And>m. sim view healthy (f m) (g m)"
  shows "sim view healthy
    (case j of JObj m \<Rightarrow> f m | _ \<Rightarrow> io_raise e) (case j of JObj m \<Rightarrow> g m | _ \<Rightarrow> io_raise e)"
  using assms by (cases j) (auto intro: sim_intros)

lemma memory_worker_step_sim [sim_intros]:
  assumes "\<And>m. sim view healthy (p m) (p' m)" "\<And>d. sim view healthy (sl d) (sl' d)"
  shows "sim view healthy (memory_worker_step E sl k dk p now)
    (memory_worker_step (model_env E ord) sl' k dk p' now)"
  unfolding memory_worker_step_def model_env_codec by (intro sim_intros assms)

lemma poison_step:
  assumes "rlist_ok st k" "rlist_ok st dk" "k \<noteq> dk" "rlist st k = [x_dumps E (JObj m)]"
    and "json_ok (JObj m)" "next_attempt m = Inr a"
    and "mx = (if is_transient_error e then DEFAULT_MAX_JOB_RETRIES else 0)"
  shows "\<exists>st'. memory_worker_step (model_env E ord) sl k dk (\<lambda>_. io_raise e) now st = (Inr (), st') \<and>
    rlist_ok st' k \<and> rlist_ok st' dk \<and>
    rlist st' k = (if mx \<le> a then [] else [x_dumps E (JObj (failed_message m a e))]) \<and>
    rlist st' dk = (if mx \<le> a
      then rlist st dk @ [x_dumps E (dlq_entry (failed_message m a e) a e now)] else rlist st dk)"
proof -
  obtain xs where xs: "as_list (rlook st dk) = Some xs" using assms(2) by (auto simp: rlist_ok_def)
  have "as_list (rlook st k) = Some [x_dumps E (JObj m)]" using assms(1,4) by (auto simp: rlist_ok_def rlist_def)
  with xs assms(3,5-7) show ?thesis
    by (auto simp: memory_worker_step_def enqueue_for_retry_def model_env_def redis_simps io_simps
        r_blpop_def r_rpush_def loads_dumps rlist_def rlist_ok_def Let_def)
qed

end
lemma dict_set_subset: "set (dict_set k v m) \<subseteq> insert (k, v) (set m)"
  by (induction m) auto

lemma json_ok_dict_set: "json_ok (JObj m) \<Longrightarrow> json_ok v \<Longrightarrow> json_ok (JObj (dict_set k v m))"
  using dict_set_subset [of k v m] by (auto simp: distinct_update)

lemma failed_message_ok: "json_ok (JObj m) \<Longrightarrow> json_ok (JObj (failed_message m a e))"
  unfolding failed_message_def by (intro json_ok_dict_set) simp_all

lemma next_attempt_failed: "next_attempt (failed_message m a e) = Inr (a + 1)"
  by (simp add: next_attempt_def failed_message_def)

context redis_server
begin

lemma poison_run:
  assumes "healthy s" "\<And>d. sim view healthy (sl d) (io_ret ())"
    and "rlist_ok (view s) k" "rlist_ok (view s) dk" "k \<noteq> dk"
    and "rlist (view s) k = [x_dumps E (JObj m)]" "json_ok (JObj m)" "next_attempt m = Inr a"
    and "mx = (if is_transient_error e then DEFAULT_MAX_JOB_RETRIES else 0)"
  shows "\<exists>s'. memory_worker_step E sl k dk (\<lambda>_. io_raise e) now s = (Inr (), s') \<and> healthy s' \<and>
    rlist_ok (view s') k \<and> rlist_ok (view s') dk \<and>
    rlist (view s') k = (if mx \<le> a then [] else [x_dumps E (JObj (failed_message m a e))]) \<and>
    rlist (view s') dk = (if mx \<le> a
      then rlist (view s) dk @ [x_dumps E (dlq_entry (failed_message m a e) a e now)]
      else rlist (view s) dk)"
proof -
  have "sim view healthy (memory_worker_step E sl k dk (\<lambda>_. io_raise e) now)
      (memory_worker_step (model_env E ord) (\<lambda>_. io_ret ()) k dk (\<lambda>_. io_raise e) now)"
    by (intro sim_intros assms(2))
  from sim_run [OF this assms(1)] poison_step [OF assms(3-9)] show ?thesis by metis
qed

end

text \<open>The message after \<open>n\<close> failures with \<open>e\<close>.\<close>

fun after_failures :: "json dict \<Rightarrow> exn \<Rightarrow> nat \<Rightarrow> json dict" where
  "after_failures m e 0 = m"
| "after_failures m e (Suc n) = failed_message (after_failures m e n) (int (Suc n)) e"

text \<open>
  C39: a job that fails with a transient error every time stays in the queue for exactly the
  first two failures and goes to the dead-letter queue on the third, with its attempts counted
  and its last error recorded; one that fails with a permanent error goes there on the first.
\<close>

theorem poison_job_dead_lettered:
  assumes "redis_server E view healthy ord" "healthy s" "\<And>d. sim view healthy (sl d) (io_ret ())"
    and "rlist_ok (view s) k" "rlist_ok (view s) dk" "k \<noteq> dk"
    and "rlist (view s) k = [x_dumps E (JObj m)]" "json_ok (JObj m)" "dict_get m ''attempts'' = None"
  shows "\<exists>s1. memory_worker_step E sl k dk (\<lambda>_. io_raise e) now s = (Inr (), s1) \<and>
    (if is_transient_error e
     then (\<exists>s2 s3. memory_worker_step E sl k dk (\<lambda>_. io_raise e) now s1 = (Inr (), s2) \<and>
       rlist (view s2) k = [x_dumps E (JObj (after_failures m e 2))] \<and>
       rlist (view s2) dk = rlist (view s) dk \<and>
       memory_worker_step E sl k dk (\<lambda>_. io_raise e) now s2 = (Inr (), s3) \<and>
       rlist (view s3) k = [] \<and>
       rlist (view s3) dk = rlist (view s) dk @
         [x_dumps E (dlq_entry (after_failures m e 3) 3 e now)])
     else rlist (view s1) k = [] \<and>
       rlist (view s1) dk = rlist (view s) dk @
         [x_dumps E (dlq_entry (after_failures m e 1) 1 e now)])"
proof -
  let ?mx = "if is_transient_error e then DEFAULT_MAX_JOB_RETRIES else 0"
  note run = redis_server.poison_run [where sl = sl, OF assms(1) _ assms(3)]
  have "next_attempt m = Inr 1" using assms(9) by (simp add: next_attempt_def)
  from run [OF assms(2,4-8) this refl, where e = e and now = now] obtain s1 where
    1: "memory_worker_step E sl k dk (\<lambda>_. io_raise e) now s = (Inr (), s1)" "healthy s1"
      "rlist_ok (view s1) k" "rlist_ok (view s1) dk"
      "rlist (view s1) k = (if ?mx \<le> 1 then [] else [x_dumps E (JObj (after_failures m e 1))])"
      "rlist (view s1) dk = (if ?mx \<le> 1 then rlist (view s) dk @
         [x_dumps E (dlq_entry (after_failures m e 1) 1 e now)] else rlist (view s) dk)"
    by auto
  show ?thesis
  proof (cases "is_transient_error e")
    case False
    with 1 show ?thesis by auto
  next
    case True
    have ok: "json_ok (JObj (after_failures m e n))" for n
      using assms(8) by (induction n) (simp_all add: failed_message_ok del: json_ok.simps)
    have att: "next_attempt (after_failures m e (Suc n)) = Inr (int (Suc n) + 1)" for n
      by (simp add: next_attempt_failed)
    have q1: "rlist (view s1) k = [x_dumps E (JObj (after_failures m e (Suc 0)))]"
      using 1 True by (simp add: DEFAULT_MAX_JOB_RETRIES_def)
    from run [OF 1(2,3,4) assms(6) q1 ok att refl, where e = e and now = now] obtain s2 where
      2: "memory_worker_step E sl k dk (\<lambda>_. io_raise e) now s1 = (Inr (), s2)" "healthy s2"
        "rlist_ok (view s2) k" "rlist_ok (view s2) dk"
        "rlist (view s2) k = [x_dumps E (JObj (after_failures m e (Suc (Suc 0))))]"
        "rlist (view s2) dk = rlist (view s) dk"
      using True 1(6) by (auto simp: DEFAULT_MAX_JOB_RETRIES_def)
    from run [OF 2(2,3,4) assms(6) 2(5) ok att refl, where e = e and now = now] obtain s3 where
      "memory_worker_step E sl k dk (\<lambda>_. io_raise e) now s2 = (Inr (), s3)" "rlist (view s3) k = []"
      "rlist (view s3) dk = rlist (view s) dk @ [x_dumps E (dlq_entry (after_failures m e 3) 3 e now)]"
      using True 2(6) by (auto simp: DEFAULT_MAX_JOB_RETRIES_def numeral_3_eq_3)
    with 1(1) 2 True show ?thesis by (auto simp: numeral_2_eq_2)
  qed
qed

definition poison_world :: flaky where
  "poison_world = \<lparr>fk_state = rput ''memory'' (RList [print_json (JObj [])]) None
     empty_keyspace, fk_fault = None\<rparr>"

theorem poison_job_dead_lettered_witness:
  "\<exists>s1. memory_worker_step flaky_env (\<lambda>_. io_ret ()) ''memory'' ''dlq''
      (\<lambda>_. io_raise (Exn ValueError ''bad repo'')) (JInt 0) poison_world = (Inr (), s1) \<and>
    rlist (fk_state s1) ''memory'' = [] \<and> length (rlist (fk_state s1) ''dlq'') = 1"
proof -
  have "\<not> is_transient_error (Exn ValueError ''bad repo'')" by code_simp
  with poison_job_dead_lettered [OF flaky.redis_server_axioms, of poison_world "\<lambda>_. io_ret ()"
      "''memory''" "''dlq''" "[]" "Exn ValueError ''bad repo''" "JInt 0"]
  show ?thesis
    by (auto simp: poison_world_def rlist_ok_def rlist_def redis_simps flaky.sim_ret
        simp del: print_json.simps)
qed

end
