(* ===== verification/Worktree_Lock.thy ===== *)
theory Worktree_Lock
  imports Keys Retry
begin

text \<open>
  \<^verbatim>\<open>shared/worktree_lock.py\<close>: one lock per worktree, a key written with \<open>SET NX EX\<close> and
  changed by Lua scripts, and the prompt a waiting job leaves for the one that holds the lock. A
  script runs on the server without other commands in between; here it is the sequence of the
  commands it calls. The lock object is returned with its fields updated; the process id, the
  time stamp and sleeping are arguments.
\<close>

section \<open>Keys and data\<close>

record worktree_key =
  wk_repo :: string
  wk_thread_type :: string
  wk_thread_id :: string
  wk_workflow :: string

definition worktree_key_str :: "worktree_key \<Rightarrow> string" where
  "worktree_key_str k =
     sanitize_repo_key (wk_repo k) @ '':'' @ wk_thread_type k @ ''-'' @ wk_thread_id k @ '':'' @ wk_workflow k"

definition lock_key :: "worktree_key \<Rightarrow> string" where
  "lock_key k = ''lock:worktree:'' @ worktree_key_str k"

definition pending_key :: "worktree_key \<Rightarrow> string" where
  "pending_key k = ''pending:'' @ worktree_key_str k"

definition cancel_channel :: "worktree_key \<Rightarrow> string" where
  "cancel_channel k = ''cancel:'' @ worktree_key_str k"

lemma lock_key_neq_pending [simp]: "lock_key k \<noteq> pending_key k'" "pending_key k' \<noteq> lock_key k"
  by (simp_all add: lock_key_def pending_key_def)

text \<open>The dataclasses; like Python's, they do not check the types of their fields.\<close>

record lock_info =
  li_job_id :: json
  li_session_id :: json
  li_status :: json
  li_pid :: json

record pending_prompt =
  pp_job_id :: json
  pp_prompt :: json
  pp_timestamp :: json

text \<open>\<open>LockInfo(**data)\<close> and \<open>PendingPrompt(**data)\<close>: unknown or missing fields raise \<open>TypeError\<close>.\<close>

definition lock_info_of :: "json \<Rightarrow> lock_info option" where
  "lock_info_of data =
     (case data of
        JObj d \<Rightarrow>
          if set (map fst d) \<subseteq> set [''job_id'', ''session_id'', ''status'', ''pid'']
          then map_option (\<lambda>i. \<lparr>li_job_id = i, li_session_id = opt_default JNull (dict_get d ''session_id''),
                 li_status = opt_default (JStr ''running'') (dict_get d ''status''),
                 li_pid = opt_default JNull (dict_get d ''pid'')\<rparr>) (dict_get d ''job_id'')
          else None
      | _ \<Rightarrow> None)"

definition pending_prompt_of :: "json \<Rightarrow> pending_prompt option" where
  "pending_prompt_of data =
     (case data of
        JObj d \<Rightarrow>
          if set (map fst d) \<subseteq> set [''job_id'', ''prompt'', ''timestamp'']
          then (case (dict_get d ''job_id'', dict_get d ''prompt'', dict_get d ''timestamp'') of
                  (Some i, Some p, Some t) \<Rightarrow> Some \<lparr>pp_job_id = i, pp_prompt = p, pp_timestamp = t\<rparr>
                | _ \<Rightarrow> None)
          else None
      | _ \<Rightarrow> None)"

definition lock_value :: "string \<Rightarrow> int \<Rightarrow> json" where
  "lock_value job_id pid = JObj [(''job_id'', JStr job_id), (''session_id'', JNull),
     (''status'', JStr ''running''), (''pid'', JInt pid)]"

record worktree_lock =
  wl_key :: worktree_key
  wl_acquired :: bool
  wl_job_id :: "string option"

section \<open>The scripts\<close>

definition lua_error :: exn where
  "lua_error = Exn RedisError ''ERR Error running script''"

text \<open>
  Delete the key if it holds a lock of the job. Indexing a decoded scalar is a Lua error, an array
  has no field \<open>job_id\<close>.
\<close>

definition release_script :: "'s env \<Rightarrow> string \<Rightarrow> string \<Rightarrow> ('s, bool) io" where
  "release_script E key job_id =
     io_bind (x_get E key) (\<lambda>v. case v of
         None \<Rightarrow> io_ret False
       | Some val \<Rightarrow>
           (case x_loads E val of
              Some (JObj d) \<Rightarrow>
                if dict_get d ''job_id'' = Some (JStr job_id)
                then io_then (x_del E key) (io_ret True) else io_ret False
            | Some (JArr xs) \<Rightarrow> io_ret False
            | _ \<Rightarrow> io_raise lua_error))"

text \<open>Set one field, keeping the time to live. The lock value is an object wherever the code writes it.\<close>

definition update_script :: "'s env \<Rightarrow> string \<Rightarrow> string \<Rightarrow> string \<Rightarrow> ('s, bool) io" where
  "update_script E key field value =
     io_bind (x_get E key) (\<lambda>v. case v of
         None \<Rightarrow> io_ret False
       | Some val \<Rightarrow>
           (case x_loads E val of
              Some (JObj d) \<Rightarrow>
                io_bind (x_ttl E key) (\<lambda>ttl.
                  if ttl \<le> 0 then io_ret False
                  else io_then (x_setex E key ttl (x_dumps E (JObj (dict_set field (JStr value) d))))
                    (io_ret True))
            | _ \<Rightarrow> io_raise lua_error))"

definition take_script :: "'s env \<Rightarrow> string \<Rightarrow> ('s, string option) io" where
  "take_script E key =
     io_bind (x_get E key) (\<lambda>v. case v of
         None \<Rightarrow> io_ret None
       | Some val \<Rightarrow> io_then (x_del E key) (io_ret (Some val)))"

section \<open>Operations\<close>

definition set_pending_prompt ::
  "'s env \<Rightarrow> worktree_lock \<Rightarrow> string \<Rightarrow> string \<Rightarrow> string \<Rightarrow> ('s, unit) io" where
  "set_pending_prompt E w now job_id prompt =
     x_setex E (pending_key (wl_key w)) 300 (x_dumps E (JObj
       [(''job_id'', JStr job_id), (''prompt'', JStr prompt), (''timestamp'', JStr now)]))"

text \<open>\<open>wait_for_release\<close>: at most one look per second of the timeout.\<close>

fun wait_loop :: "'s env \<Rightarrow> (real \<Rightarrow> ('s, unit) io) \<Rightarrow> string \<Rightarrow> nat \<Rightarrow> ('s, bool) io" where
  "wait_loop E sleep key 0 = io_ret False"
| "wait_loop E sleep key (Suc n) =
     io_bind (x_get E key) (\<lambda>v.
       if opt_default [] v = [] then io_ret True
       else io_then (sleep 1) (wait_loop E sleep key n))"

definition wait_for_release :: "'s env \<Rightarrow> (real \<Rightarrow> ('s, unit) io) \<Rightarrow> worktree_lock \<Rightarrow> int \<Rightarrow> ('s, bool) io" where
  "wait_for_release E sleep w timeout = wait_loop E sleep (lock_key (wl_key w)) (nat timeout)"

definition try_acquire :: "'s env \<Rightarrow> worktree_lock \<Rightarrow> int \<Rightarrow> string \<Rightarrow> int \<Rightarrow> ('s, bool \<times> worktree_lock) io" where
  "try_acquire E w pid job_id ttl =
     io_bind (x_set_nx_ex E (lock_key (wl_key w)) (x_dumps E (lock_value job_id pid)) ttl) (\<lambda>acquired.
       if acquired then io_ret (True, w\<lparr>wl_acquired := True, wl_job_id := Some job_id\<rparr>)
       else io_ret (False, w))"

definition acquire ::
  "'s env \<Rightarrow> (real \<Rightarrow> ('s, unit) io) \<Rightarrow> worktree_lock \<Rightarrow> int \<Rightarrow> string \<Rightarrow> string \<Rightarrow> int \<Rightarrow> int \<Rightarrow>
   ('s, bool \<times> worktree_lock) io" where
  "acquire E sleep w pid now job_id timeout ttl =
     io_bind (try_acquire E w pid job_id ttl) (\<lambda>(acquired, w).
       if acquired then io_ret (True, w)
       else if timeout > 0 then
         io_then (wait_for_release E sleep w timeout)
         (io_bind (try_acquire E w pid job_id ttl) (\<lambda>(acquired, w).
           if acquired then io_ret (True, w)
           else io_then (set_pending_prompt E w now job_id []) (io_ret (False, w))))
       else io_ret (False, w))"

definition release :: "'s env \<Rightarrow> worktree_lock \<Rightarrow> ('s, worktree_lock) io" where
  "release E w =
     (if \<not> wl_acquired w then io_ret w
      else (case wl_job_id w of
              None \<Rightarrow> io_ret (w\<lparr>wl_acquired := False\<rparr>)
            | Some job_id \<Rightarrow>
                io_then (release_script E (lock_key (wl_key w)) job_id)
                  (io_ret (w\<lparr>wl_acquired := False\<rparr>))))"

definition update_lock_field :: "'s env \<Rightarrow> worktree_lock \<Rightarrow> string \<Rightarrow> string \<Rightarrow> ('s, bool) io" where
  "update_lock_field E w field value =
     io_try (update_script E (lock_key (wl_key w)) field value) (\<lambda>e. io_ret False)"

definition set_session_id :: "'s env \<Rightarrow> worktree_lock \<Rightarrow> string \<Rightarrow> ('s, unit) io" where
  "set_session_id E w session_id =
     (if \<not> wl_acquired w then io_ret ()
      else io_then (update_lock_field E w ''session_id'' session_id) (io_ret ()))"

definition set_interrupted :: "'s env \<Rightarrow> worktree_lock \<Rightarrow> ('s, unit) io" where
  "set_interrupted E w =
     (if \<not> wl_acquired w then io_ret ()
      else io_then (update_lock_field E w ''status'' ''interrupted'') (io_ret ()))"

definition get_lock_info :: "'s env \<Rightarrow> worktree_lock \<Rightarrow> ('s, lock_info option) io" where
  "get_lock_info E w =
     io_bind (x_get E (lock_key (wl_key w))) (\<lambda>v.
       if opt_default [] v = [] then io_ret None
       else io_ret (Option.bind (x_loads E (opt_default [] v)) lock_info_of))"

definition get_pending_prompt :: "'s env \<Rightarrow> worktree_lock \<Rightarrow> ('s, pending_prompt option) io" where
  "get_pending_prompt E w =
     io_bind (take_script E (pending_key (wl_key w))) (\<lambda>raw.
       if opt_default [] raw = [] then io_ret None
       else io_ret (Option.bind (x_loads E (opt_default [] raw)) pending_prompt_of))"

definition send_cancel_signal :: "'s env \<Rightarrow> worktree_lock \<Rightarrow> ('s, unit) io" where
  "send_cancel_signal E w =
     x_publish E (cancel_channel (wl_key w)) (x_dumps E (JObj [(''action'', JStr ''cancel'')]))"

text \<open>
  \<open>_CancelSubscription.listen\<close> on the payloads of one message: the callback runs for a JSON
  object whose \<open>action\<close> is \<open>cancel\<close>; everything that raises is logged and dropped.
\<close>

definition on_cancel_message :: "'s env \<Rightarrow> ('s, unit) io \<Rightarrow> string \<Rightarrow> string \<Rightarrow> ('s, unit) io" where
  "on_cancel_message E on_cancel msg_type data =
     (if msg_type \<noteq> ''message'' then io_ret ()
      else io_try
        (case x_loads E data of
           Some (JObj d) \<Rightarrow>
             if dict_get d ''action'' = Some (JStr ''cancel'') then on_cancel else io_ret ()
         | Some _ \<Rightarrow> io_raise (Exn AttributeError ''get'')
         | None \<Rightarrow> io_raise (Exn JSONDecodeError data))
        (\<lambda>e. io_ret ()))"

definition interrupt_sdk_process :: "(int \<Rightarrow> ('s, unit) io) \<Rightarrow> int option \<Rightarrow> ('s, bool) io" where
  "interrupt_sdk_process kill pid =
     (case pid of
        None \<Rightarrow> io_ret False
      | Some p \<Rightarrow>
          if p \<le> 0 then io_ret False
          else io_try (io_then (kill p) (io_ret True)) (\<lambda>e. io_ret False))"

section \<open>Ownership\<close>

text \<open>The lock of \<open>k\<close> is held by job \<open>j\<close> until \<open>dl\<close>.\<close>

definition held_value :: "(string \<Rightarrow> json option) \<Rightarrow> string \<Rightarrow> string \<Rightarrow> bool" where
  "held_value l j v \<longleftrightarrow> (\<exists>d. l v = Some (JObj d) \<and> json_ok (JObj d) \<and> dict_get d ''job_id'' = Some (JStr j))"

definition held :: "(string \<Rightarrow> json option) \<Rightarrow> worktree_key \<Rightarrow> string \<Rightarrow> nat \<Rightarrow> rstate \<Rightarrow> bool" where
  "held l k j dl st \<longleftrightarrow> rdeadline st (lock_key k) = Some dl \<and>
     (\<exists>v. rlook st (lock_key k) = Some (RStr v) \<and> held_value l j v)"

text \<open>
  What anyone may do to the lock and its pending prompt while \<open>j\<close> holds it, except that no lock
  object of job \<open>j\<close> releases it.
\<close>

inductive lock_step ::
  "(json \<Rightarrow> string) \<Rightarrow> (string \<Rightarrow> json option) \<Rightarrow> (string list \<Rightarrow> string list) \<Rightarrow> worktree_key \<Rightarrow> string \<Rightarrow>
   rstate \<Rightarrow> rstate \<Rightarrow> bool"
  for d l ord k j where
  try_step: "wl_key w = k \<Longrightarrow> try_acquire (spec_env d l ord) w pid i ttl st = (r1, st') \<Longrightarrow>
     lock_step d l ord k j st st'"
| release_step: "wl_key w = k \<Longrightarrow> wl_job_id w \<noteq> Some j \<Longrightarrow> release (spec_env d l ord) w st = (r2, st') \<Longrightarrow>
     lock_step d l ord k j st st'"
| session_step: "wl_key w = k \<Longrightarrow> set_session_id (spec_env d l ord) w sid st = (r3, st') \<Longrightarrow>
     lock_step d l ord k j st st'"
| interrupted_step: "wl_key w = k \<Longrightarrow> set_interrupted (spec_env d l ord) w st = (r3, st') \<Longrightarrow>
     lock_step d l ord k j st st'"
| pending_step: "wl_key w = k \<Longrightarrow> set_pending_prompt (spec_env d l ord) w now i prompt st = (r3, st') \<Longrightarrow>
     lock_step d l ord k j st st'"
| take_step: "wl_key w = k \<Longrightarrow> get_pending_prompt (spec_env d l ord) w st = (r4, st') \<Longrightarrow>
     lock_step d l ord k j st st'"
| cancel_step: "wl_key w = k \<Longrightarrow> send_cancel_signal (spec_env d l ord) w st = (r3, st') \<Longrightarrow>
     lock_step d l ord k j st st'"
| time_step: "lock_step d l ord k j st (radvance n st)"

lemmas lock_run = io_simps redis_simps redis_commands

lemma held_try:
  assumes "held l k j dl st" "wl_key w = k" "0 < ttl"
  shows "try_acquire (spec_env d l ord) w pid i ttl st = (Inr (False, w), st)"
  using assms by (auto simp: try_acquire_def lock_run held_def)

lemma held_try_any:
  assumes "held l k j dl st" "wl_key w = k"
  shows "snd (try_acquire (spec_env d l ord) w pid i ttl st) = st"
  using assms by (auto simp: try_acquire_def lock_run held_def)

lemma held_release:
  assumes "held l k j dl st" "wl_key w = k" "wl_job_id w \<noteq> Some j"
  shows "release (spec_env d l ord) w st = (Inr (w\<lparr>wl_acquired := False\<rparr>), st)"
  using assms
  by (cases w) (auto simp: release_def release_script_def lock_run held_def held_value_def
      split: option.split)

lemma held_value_update:
  assumes "json_codec d l" "l v = Some (JObj m)" "json_ok (JObj m)"
    "dict_get m ''job_id'' = Some (JStr j)" "field \<noteq> ''job_id''"
  shows "held_value l j (d (JObj (dict_set field (JStr x) m)))"
proof -
  have "json_ok (JObj (dict_set field (JStr x) m))"
    using assms(3) by (intro json_ok_dict_set) simp_all
  with assms json_codec.loads_dumps [OF assms(1) this] show ?thesis by (simp add: held_value_def)
qed

lemma held_update:
  assumes "json_codec d l" "held l k j dl st" "wl_key w = k" "field \<noteq> ''job_id''"
  shows "held l k j dl (snd (update_lock_field (spec_env d l ord) w field x st)) \<and>
    rnow (snd (update_lock_field (spec_env d l ord) w field x st)) = rnow st"
proof -
  obtain v m where v: "rdeadline st (lock_key k) = Some dl" "rlook st (lock_key k) = Some (RStr v)"
    "l v = Some (JObj m)" "json_ok (JObj m)" "dict_get m ''job_id'' = Some (JStr j)"
    using assms(2) by (auto simp: held_def held_value_def)
  note new = held_value_update [OF assms(1) v(3-5) assms(4), of x]
  have "rnow st < dl" using rdeadline_live [OF v(1)] .
  then have "rnow st + nat (int dl - int (rnow st)) = dl" by simp
  with v new assms(3) \<open>rnow st < dl\<close> show ?thesis
    by (simp add: update_lock_field_def update_script_def lock_run held_def)
qed

lemma held_pending:
  "held l k j dl (rput (pending_key k') v t st) = held l k j dl st"
  "held l k j dl (rdrop (pending_key k') st) = held l k j dl st"
  "held l k j dl (st\<lparr>rlog := x\<rparr>) = held l k j dl st"
  by (simp_all add: held_def redis_simps)

lemma held_time: "held l k j dl st \<Longrightarrow> rnow st + n < dl \<Longrightarrow> held l k j dl (radvance n st)"
  by (auto simp: held_def rlook_radvance rdeadline_radvance_Some)

text \<open>No operation sets the server's clock.\<close>

definition keeps_clock :: "(rstate, 'a) io \<Rightarrow> bool" where
  "keeps_clock m \<longleftrightarrow> (\<forall>st. rnow (snd (m st)) = rnow st)"

lemma keeps_clock_ret: "keeps_clock (io_ret x)" "keeps_clock (io_raise e)"
  by (simp_all add: keeps_clock_def io_simps)

lemma keeps_clock_bind:
  assumes "keeps_clock m" "\<And>x. keeps_clock (f x)"
  shows "keeps_clock (io_bind m f)"
  unfolding keeps_clock_def
proof
  fix st
  obtain r st1 where r: "m st = (r, st1)" by (cases "m st")
  then have "rnow st1 = rnow st" using assms(1) unfolding keeps_clock_def by (metis snd_conv)
  with r assms(2) show "rnow (snd (io_bind m f st)) = rnow st"
    by (cases r) (simp_all add: io_simps keeps_clock_def)
qed

lemma keeps_clock_try:
  assumes "keeps_clock m" "\<And>e. keeps_clock (h e)"
  shows "keeps_clock (io_try m h)"
  unfolding keeps_clock_def
proof
  fix st
  obtain r st1 where r: "m st = (r, st1)" by (cases "m st")
  then have "rnow st1 = rnow st" using assms(1) unfolding keeps_clock_def by (metis snd_conv)
  with r assms(2) show "rnow (snd (io_try m h st)) = rnow st"
    by (cases r) (simp_all add: io_simps keeps_clock_def)
qed

lemma keeps_clock_then: "keeps_clock m \<Longrightarrow> keeps_clock n \<Longrightarrow> keeps_clock (io_then m n)"
  by (simp add: io_then_def keeps_clock_bind)

lemma keeps_clock_commands:
  "keeps_clock (x_get (spec_env d l ord) k)" "keeps_clock (x_del (spec_env d l ord) k)"
  "keeps_clock (x_ttl (spec_env d l ord) k)" "keeps_clock (x_setex (spec_env d l ord) k t v)"
  "keeps_clock (x_set_nx_ex (spec_env d l ord) k v t)" "keeps_clock (x_publish (spec_env d l ord) k v)"
  by (auto simp: keeps_clock_def lock_run split: option.split)

lemmas keeps_clock_intros = keeps_clock_ret keeps_clock_bind keeps_clock_try keeps_clock_then
  keeps_clock_commands

lemma lock_operations_keep_clock:
  "keeps_clock (try_acquire (spec_env d l ord) w pid i ttl)"
  "keeps_clock (release (spec_env d l ord) w)"
  "keeps_clock (set_session_id (spec_env d l ord) w sid)"
  "keeps_clock (set_interrupted (spec_env d l ord) w)"
  "keeps_clock (set_pending_prompt (spec_env d l ord) w now i prompt)"
  "keeps_clock (get_pending_prompt (spec_env d l ord) w)"
  "keeps_clock (send_cancel_signal (spec_env d l ord) w)"
  unfolding try_acquire_def release_def release_script_def set_session_id_def set_interrupted_def
    update_lock_field_def update_script_def set_pending_prompt_def get_pending_prompt_def
    take_script_def send_cancel_signal_def
  by (auto intro!: keeps_clock_intros split: option.split json.split)

lemma lock_step_clock: "lock_step d l ord k j st st' \<Longrightarrow> rnow st \<le> rnow st'"
proof (induction rule: lock_step.induct)
qed (use lock_operations_keep_clock [of d l ord] in
    \<open>(simp add: keeps_clock_def, metis snd_conv order_refl)+, simp\<close>)

lemma held_step:
  assumes "lock_step d l ord k j st st'" "json_codec d l" "held l k j dl st"
  shows "rnow st' < dl \<longrightarrow> held l k j dl st'"
  using assms(1,3)
proof (induction rule: lock_step.induct)
  case (try_step w pid i ttl st r1 st')
  then show ?case using held_try_any [of l k j dl st w d ord pid i ttl] by simp
next
  case (release_step w st r2 st')
  then show ?case using held_release [of l k j dl st w d ord] by simp
next
  case (session_step w sid st r3 st')
  then show ?case
    using held_update [OF assms(2) session_step.prems, of w "''session_id''" ord sid]
    by (auto simp: set_session_id_def io_simps split: prod.splits sum.splits if_splits)
next
  case (interrupted_step w st r3 st')
  then show ?case
    using held_update [OF assms(2) interrupted_step.prems, of w "''status''" ord "''interrupted''"]
    by (auto simp: set_interrupted_def io_simps split: prod.splits sum.splits if_splits)
next
  case (pending_step w now i prompt st r3 st')
  then show ?case by (auto simp: set_pending_prompt_def lock_run held_pending)
next
  case (take_step w st r4 st')
  then show ?case
    by (auto simp: get_pending_prompt_def take_script_def lock_run held_pending
        split: option.splits if_splits prod.splits)
next
  case (cancel_step w st r3 st')
  then show ?case by (auto simp: send_cancel_signal_def lock_run held_pending)
next
  case (time_step st n)
  then show ?case by (simp add: held_time)
qed

lemma held_steps:
  assumes "(lock_step d l ord k j)\<^sup>*\<^sup>* st st'" "json_codec d l" "held l k j dl st"
  shows "rnow st' < dl \<longrightarrow> held l k j dl st'"
  using assms(1)
proof (induction rule: rtranclp_induct)
  case base
  then show ?case using assms(3) by simp
next
  case (step st1 st2)
  then show ?case
    using held_step [OF step(2) assms(2), of dl] lock_step_clock [OF step(2)] by linarith
qed

lemma acquired_held:
  assumes "json_codec d l" "try_acquire (spec_env d l ord) w pid j ttl st = (Inr (True, w'), st')"
  shows "held l (wl_key w) j (rnow st + nat ttl) st' \<and> rnow st' = rnow st"
proof -
  have ttl: "0 < ttl" and st': "st' = rput (lock_key (wl_key w)) (RStr (d (lock_value j pid)))
      (Some (rnow st + nat ttl)) st"
    using assms(2) by (auto simp: try_acquire_def lock_run split: if_splits)
  have "l (d (lock_value j pid)) = Some (lock_value j pid)"
    by (rule json_codec.loads_dumps [OF assms(1)]) (simp add: lock_value_def)
  with ttl show ?thesis unfolding st' by (simp add: held_def held_value_def lock_value_def redis_simps)
qed

text \<open>
  C4: mutual exclusion. Once a job has acquired the lock of a worktree, every other attempt to
  acquire it fails, whatever the lock objects of other jobs do (acquire, release, update fields,
  exchange prompts, send cancel signals), until the job's own lock object releases it or the
  lock's time to live has passed.
\<close>

theorem lock_mutual_exclusion:
  assumes "json_codec d l"
    and "try_acquire (spec_env d l ord) w pid j ttl st0 = (Inr (True, w'), st1)"
    and "(lock_step d l ord (wl_key w) j)\<^sup>*\<^sup>* st1 st2" "rnow st2 < rnow st0 + nat ttl"
    and "wl_key w2 = wl_key w" "0 < ttl2"
  shows "try_acquire (spec_env d l ord) w2 pid2 i ttl2 st2 = (Inr (False, w2), st2)"
  using held_try [of l "wl_key w" j "rnow st0 + nat ttl" st2 w2 ttl2]
    held_steps [OF assms(3,1)] acquired_held [OF assms(1,2)] assms(4-6) by blast

definition sample_key :: worktree_key where
  "sample_key = \<lparr>wk_repo = ''o/r'', wk_thread_type = ''pr'', wk_thread_id = ''1'', wk_workflow = ''w''\<rparr>"

definition sample_lock :: worktree_lock where
  "sample_lock = \<lparr>wl_key = sample_key, wl_acquired = False, wl_job_id = None\<rparr>"

definition lock_taken :: rstate where
  "lock_taken = rput (lock_key sample_key) (RStr (print_json (lock_value ''A'' 1))) (Some 600) empty_keyspace"

lemma sample_acquire:
  "try_acquire (spec_env print_json parse_json rev) sample_lock 1 ''A'' 600 empty_keyspace =
     (Inr (True, sample_lock\<lparr>wl_acquired := True, wl_job_id := Some ''A''\<rparr>), lock_taken)"
  by (simp add: try_acquire_def lock_run lock_taken_def sample_lock_def
      empty_keyspace_def [THEN arg_cong [of _ _ rnow]])

theorem lock_mutual_exclusion_witness:
  "try_acquire (spec_env print_json parse_json rev) sample_lock 2 ''B'' 600 (radvance 599 lock_taken) =
     (Inr (False, sample_lock), radvance 599 lock_taken)"
proof -
  have "(lock_step print_json parse_json rev (wl_key sample_lock) ''A'')\<^sup>*\<^sup>* lock_taken (radvance 599 lock_taken)"
    by (intro r_into_rtranclp time_step)
  from lock_mutual_exclusion [OF std_json.json_codec_axioms sample_acquire this, of sample_lock 600]
  show ?thesis by (simp add: lock_taken_def redis_simps empty_keyspace_def [THEN arg_cong [of _ _ rnow]])
qed

section \<open>On a real client\<close>

context redis_server
begin

lemma release_script_sim [sim_intros]:
  "sim view healthy (release_script E k j) (release_script (model_env E ord) k j)"
  unfolding release_script_def model_env_codec
  by (auto intro!: sim_intros split: json.split)

lemma release_sim: "sim view healthy (release E w) (release (model_env E ord) w)"
  unfolding release_def by (intro sim_intros)

lemma set_pending_prompt_sim [sim_intros]:
  "sim view healthy (set_pending_prompt E w n j p) (set_pending_prompt (model_env E ord) w n j p)"
  unfolding set_pending_prompt_def model_env_codec by (intro sim_intros)

lemma get_pending_prompt_sim [sim_intros]:
  "sim view healthy (get_pending_prompt E w) (get_pending_prompt (model_env E ord) w)"
  unfolding get_pending_prompt_def take_script_def model_env_codec by (intro sim_intros)

end

text \<open>
  \<open>release\<close> deletes the lock exactly when it is the caller's own. A lock object that
  believes it holds a lock which meanwhile belongs to another job leaves the keyspace as it is.
\<close>

theorem release_only_own_lock:
  assumes "redis_server E view healthy ord" "healthy s"
    and "wl_acquired w" "wl_job_id w = Some j" "held (x_loads E) (wl_key w) i dl (view s)"
  shows "\<exists>s'. release E w s = (Inr (w\<lparr>wl_acquired := False\<rparr>), s') \<and>
    view s' = (if i = j then rdrop (lock_key (wl_key w)) (view s) else view s)"
proof -
  have "release (model_env E ord) w (view s) = (Inr (w\<lparr>wl_acquired := False\<rparr>),
      if i = j then rdrop (lock_key (wl_key w)) (view s) else view s)"
    using assms(3-5)
    by (auto simp: release_def release_script_def model_env_def lock_run held_def held_value_def)
  from redis_server.sim_run [OF assms(1) redis_server.release_sim [OF assms(1)] assms(2) this]
  show ?thesis by blast
qed

lemma lock_taken_held: "held parse_json sample_key ''A'' 600 lock_taken"
  using acquired_held [OF std_json.json_codec_axioms sample_acquire]
  by (simp add: sample_lock_def empty_keyspace_def [THEN arg_cong [of _ _ rnow]])

theorem release_only_own_lock_witness:
  "\<exists>s'. release flaky_env (sample_lock\<lparr>wl_acquired := True, wl_job_id := Some ''B''\<rparr>)
      \<lparr>fk_state = lock_taken, fk_fault = None\<rparr> =
      (Inr (sample_lock\<lparr>wl_job_id := Some ''B''\<rparr>), s') \<and> fk_state s' = lock_taken"
  using release_only_own_lock [OF flaky.redis_server_axioms,
      of "\<lparr>fk_state = lock_taken, fk_fault = None\<rparr>"
      "sample_lock\<lparr>wl_acquired := True, wl_job_id := Some ''B''\<rparr>" "''B''" "''A''" 600]
    lock_taken_held by (simp add: sample_lock_def)

text \<open>
  A pending prompt is handed out exactly once: \<open>get_pending_prompt\<close> returns what was set
  last, and the next call returns nothing.
\<close>

theorem pending_prompt_taken_once:
  assumes "redis_server E view healthy ord" "healthy s"
  shows "\<exists>s'. io_then (set_pending_prompt E w now job_id prompt)
      (io_bind (get_pending_prompt E w) (\<lambda>a.
       io_bind (get_pending_prompt E w) (\<lambda>b. io_ret (a, b)))) s =
    (Inr (Some \<lparr>pp_job_id = JStr job_id, pp_prompt = JStr prompt, pp_timestamp = JStr now\<rparr>, None), s')"
proof -
  let ?p = "\<lambda>F. io_then (set_pending_prompt F w now job_id prompt)
      (io_bind (get_pending_prompt F w) (\<lambda>a. io_bind (get_pending_prompt F w) (\<lambda>b. io_ret (a, b))))"
  let ?v = "JObj [(''job_id'', JStr job_id), (''prompt'', JStr prompt), (''timestamp'', JStr now)]"
  note codec = redis_server.axioms(1) [OF assms(1)]
  have "x_loads E (x_dumps E ?v) = Some ?v" "x_dumps E ?v \<noteq> []"
    by (simp_all add: json_codec.loads_dumps [OF codec] json_codec.dumps_nonempty [OF codec])
  then obtain st where "?p (model_env E ord) (view s) =
      (Inr (Some \<lparr>pp_job_id = JStr job_id, pp_prompt = JStr prompt, pp_timestamp = JStr now\<rparr>, None), st)"
    by (simp add: set_pending_prompt_def get_pending_prompt_def take_script_def model_env_def lock_run
        pending_prompt_of_def)
  moreover have "sim view healthy (?p E) (?p (model_env E ord))"
    using redis_server.set_pending_prompt_sim [OF assms(1)] redis_server.get_pending_prompt_sim [OF assms(1)]
      redis_server.sim_then [OF assms(1)] redis_server.sim_bind [OF assms(1)] redis_server.sim_ret [OF assms(1)]
    by metis
  ultimately show ?thesis
    using redis_server.sim_run [OF assms(1) _ assms(2)] by blast
qed

theorem pending_prompt_taken_once_witness:
  "\<exists>s'. io_then (set_pending_prompt flaky_env sample_lock ''t'' ''A'' ''go on'')
      (io_bind (get_pending_prompt flaky_env sample_lock) (\<lambda>a.
       io_bind (get_pending_prompt flaky_env sample_lock) (\<lambda>b. io_ret (a, b)))) sample_world =
    (Inr (Some \<lparr>pp_job_id = JStr ''A'', pp_prompt = JStr ''go on'', pp_timestamp = JStr ''t''\<rparr>, None), s')"
  by (rule pending_prompt_taken_once [OF flaky.redis_server_axioms]) simp

text \<open>
  Updating a field does not check whose lock it is. A job whose lock expired and was taken
  over by another one still writes its session id into the new holder's lock.
\<close>

theorem stale_holder_overwrites_session:
  "\<exists>st. io_then (try_acquire (spec_env print_json parse_json rev) sample_lock 1 ''A'' 600)
      (\<lambda>st. io_then (try_acquire (spec_env print_json parse_json rev) sample_lock 2 ''B'' 600)
        (io_then (set_session_id (spec_env print_json parse_json rev)
            (sample_lock\<lparr>wl_acquired := True, wl_job_id := Some ''A''\<rparr>) ''session-of-A'')
          (get_lock_info (spec_env print_json parse_json rev) sample_lock)) (radvance 600 st))
      empty_keyspace =
    (Inr (Some \<lparr>li_job_id = JStr ''B'', li_session_id = JStr ''session-of-A'',
       li_status = JStr ''running'', li_pid = JInt 2\<rparr>), st)"
proof -
  have gone: "rlook (radvance 600 lock_taken) (lock_key sample_key) = None"
    by (simp add: lock_taken_def rlook_radvance redis_simps empty_keyspace_def [THEN arg_cong [of _ _ rnow]])
  have ok: "json_ok (lock_value ''B'' 2)"
    "json_ok (JObj (dict_set ''session_id'' (JStr ''session-of-A'') [(''job_id'', JStr ''B''),
       (''session_id'', JNull), (''status'', JStr ''running''), (''pid'', JInt 2)]))"
    by (simp_all add: lock_value_def)
  have key: "wl_key sample_lock = sample_key" by (simp add: sample_lock_def)
  have now: "rnow lock_taken = 0"
    by (simp add: lock_taken_def redis_simps empty_keyspace_def [THEN arg_cong [of _ _ rnow]])
  show ?thesis
    using sample_acquire gone key now
      parse_print_json [OF ok(1)] print_json_nonempty [OF ok(2)] parse_print_json [OF ok(2)]
    by (simp add: io_simps del: print_json.simps) (simp add: try_acquire_def set_session_id_def update_lock_field_def
        update_script_def get_lock_info_def lock_run lock_value_def lock_info_of_def del: print_json.simps)
qed

end
