(* ===== verification/Session_Store.thy ===== *)
theory Session_Store
  imports Keys
begin

text \<open>
  \<^verbatim>\<open>shared/session_store.py\<close> (conversations that survive between GitHub comments) and
  \<^verbatim>\<open>shared/streaming_session.py\<close> (the browser side of a running session). Both keep a
  hash per session; the streaming store also has a lookup key, a subscriber counter and an inbox.
  Pipelines and Lua scripts are the sequence of their commands. Time stamps are arguments, as is
  \<open>parse_int\<close>, how pydantic reads an integer field from a string.
\<close>

section \<open>Conversation sessions\<close>

record session_info =
  si_session_id :: string
  si_repo :: string
  si_thread_type :: string
  si_thread_id :: string
  si_workflow_name :: string
  si_ref :: string
  si_worktree_path :: string
  si_created_at :: string
  si_last_run :: string
  si_turn_count :: int
  si_status :: string
  si_summary :: "string option"
  si_streaming_token :: "string option"

text \<open>\<open>SessionInfo.model_validate\<close> on a hash of strings.\<close>

definition session_info_of :: "(string \<Rightarrow> int option) \<Rightarrow> string dict \<Rightarrow> session_info option" where
  "session_info_of parse_int h =
     (let required = [''session_id'', ''repo'', ''thread_type'', ''thread_id'', ''workflow_name'', ''ref'',
            ''worktree_path'', ''created_at'', ''last_run''];
          field = (\<lambda>f. opt_default [] (dict_get h f));
          turns = (case dict_get h ''turn_count'' of None \<Rightarrow> Some 0 | Some s \<Rightarrow> parse_int s);
          status = opt_default ''active'' (dict_get h ''status'')
      in if list_all (\<lambda>f. dict_get h f \<noteq> None) required
            \<and> field ''thread_type'' \<in> set [''pr'', ''issue'', ''discussion'']
            \<and> status \<in> set [''active'', ''completed'', ''expired'']
         then map_option (\<lambda>n. \<lparr>si_session_id = field ''session_id'', si_repo = field ''repo'',
                si_thread_type = field ''thread_type'', si_thread_id = field ''thread_id'',
                si_workflow_name = field ''workflow_name'', si_ref = field ''ref'',
                si_worktree_path = field ''worktree_path'', si_created_at = field ''created_at'',
                si_last_run = field ''last_run'', si_turn_count = n, si_status = status,
                si_summary = dict_get h ''summary'', si_streaming_token = dict_get h ''streaming_token''\<rparr>) turns
         else None)"

text \<open>
  \<open>resolve_thread_type\<close>. \<open>event_type.startswith\<close> on a non-string raises.
\<close>

definition resolve_thread_type :: "json dict \<Rightarrow> string result" where
  "resolve_thread_type event_data =
     (case opt_default (JStr []) (dict_get event_data ''event_type'') of
        JStr event_type \<Rightarrow>
          (let payload_pr =
                 (case opt_default (JObj []) (dict_get event_data ''payload'') of
                    JObj payload \<Rightarrow>
                      (case opt_default (JObj []) (dict_get payload ''issue'') of
                         JObj issue \<Rightarrow> py_truthy (opt_default JNull (dict_get issue ''pull_request''))
                       | _ \<Rightarrow> False)
                  | _ \<Rightarrow> False)
           in if str_startswith event_type ''pull_request'' then Inr ''pr''
              else if event_type = ''issue_comment'' \<and>
                     (payload_pr \<or> py_truthy (opt_default JNull (dict_get event_data ''is_pr'')))
              then Inr ''pr''
              else if str_startswith event_type ''discussion'' then Inr ''discussion''
              else Inr ''issue'')
      | _ \<Rightarrow> Inl (Exn AttributeError ''startswith''))"

definition session_map_key :: "string \<Rightarrow> string \<Rightarrow> string \<Rightarrow> string \<Rightarrow> string" where
  "session_map_key repo thread_type thread_id workflow =
     ''session:map:'' @ sanitize_repo_key repo @ '':'' @ thread_type @ '':'' @ thread_id @ '':'' @ workflow"

definition session_pattern :: "string \<Rightarrow> string" where
  "session_pattern repo = ''session:map:'' @ sanitize_repo_key repo @ '':*''"

definition hset_all :: "'s env \<Rightarrow> string \<Rightarrow> string dict \<Rightarrow> ('s, unit) io" where
  "hset_all E key fvs = io_fold (\<lambda>u fv. x_hset E key (fst fv) (snd fv)) () fvs"

definition session_fields ::
  "string \<Rightarrow> string \<Rightarrow> string \<Rightarrow> string \<Rightarrow> string \<Rightarrow> string \<Rightarrow> string \<Rightarrow> string \<Rightarrow> string dict" where
  "session_fields now repo thread_type thread_id workflow session_id worktree_path ref =
     [(''session_id'', session_id), (''repo'', repo), (''thread_type'', thread_type),
      (''thread_id'', thread_id), (''workflow_name'', workflow), (''ref'', ref),
      (''worktree_path'', worktree_path), (''last_run'', now), (''status'', ''active'')]"

definition save_session ::
  "'s env \<Rightarrow> string \<Rightarrow> string \<Rightarrow> string \<Rightarrow> string \<Rightarrow> string \<Rightarrow> string \<Rightarrow> string \<Rightarrow> string \<Rightarrow> int \<Rightarrow>
   string option \<Rightarrow> int \<Rightarrow> string option \<Rightarrow> ('s, unit) io" where
  "save_session E now repo thread_type thread_id workflow session_id worktree_path ref turn_count
     summary ttl_hours streaming_token =
     (let key = session_map_key repo thread_type thread_id workflow in
      io_then (hset_all E key
        (session_fields now repo thread_type thread_id workflow session_id worktree_path ref))
      (io_then (x_hsetnx E key ''created_at'' now)
      (io_then (if turn_count \<noteq> 0
                then io_then (x_hincrby E key ''turn_count'' turn_count) (io_ret ()) else io_ret ())
      (io_then (case summary of None \<Rightarrow> io_ret () | Some t \<Rightarrow> x_hset E key ''summary'' t)
      (io_then (case streaming_token of None \<Rightarrow> io_ret () | Some t \<Rightarrow> x_hset E key ''streaming_token'' t)
      (io_then (x_expire E key (ttl_hours * 3600)) (io_ret ())))))))"

definition read_session :: "'s env \<Rightarrow> (string \<Rightarrow> int option) \<Rightarrow> string \<Rightarrow> ('s, session_info option) io" where
  "read_session E parse_int key =
     io_bind (x_hgetall E key) (\<lambda>data.
       if data = [] then io_ret None else io_ret (session_info_of parse_int data))"

definition get_session ::
  "'s env \<Rightarrow> (string \<Rightarrow> int option) \<Rightarrow> string \<Rightarrow> string \<Rightarrow> string \<Rightarrow> string \<Rightarrow> ('s, session_info option) io" where
  "get_session E parse_int repo thread_type thread_id workflow =
     read_session E parse_int (session_map_key repo thread_type thread_id workflow)"

definition cleanup_streaming ::
  "'s env \<Rightarrow> string \<Rightarrow> string \<Rightarrow> string \<Rightarrow> string \<Rightarrow> string \<Rightarrow> ('s, unit) io" where
  "cleanup_streaming E token repo thread_id workflow thread_type =
     io_then (x_del E (''session:stream:'' @ token))
     (io_then (x_del E (streaming_lookup_key repo thread_id workflow thread_type))
     (io_then (if thread_type \<noteq> [] then x_del E (streaming_lookup_key repo thread_id workflow []) else io_ret 0)
       (io_ret ())))"

definition close_session ::
  "'s env \<Rightarrow> (string \<Rightarrow> int option) \<Rightarrow> string \<Rightarrow> string \<Rightarrow> string \<Rightarrow> string \<Rightarrow> ('s, unit) io" where
  "close_session E parse_int repo thread_type thread_id workflow =
     io_bind (get_session E parse_int repo thread_type thread_id workflow) (\<lambda>info.
       io_then
         (case info of
            None \<Rightarrow> io_ret ()
          | Some i \<Rightarrow>
              if opt_default [] (si_streaming_token i) \<noteq> []
              then io_try (cleanup_streaming E (opt_default [] (si_streaming_token i)) repo thread_id
                     workflow thread_type) (\<lambda>e. io_ret ())
              else io_ret ())
       (io_then (x_del E (session_map_key repo thread_type thread_id workflow)) (io_ret ())))"

text \<open>
  \<open>list_sessions\<close>: \<open>SCAN\<close> is a parameter, \<open>fuel\<close> bounds the number of its batches; \<open>None\<close> when
  the cursor has not come back to zero by then.
\<close>

definition scan_batch ::
  "'s env \<Rightarrow> (string \<Rightarrow> int option) \<Rightarrow> session_info list \<Rightarrow> string list \<Rightarrow> ('s, session_info list) io" where
  "scan_batch E parse_int = io_fold (\<lambda>sessions key.
     io_bind (x_hgetall E key) (\<lambda>data.
       if data = [] then io_ret sessions
       else (case session_info_of parse_int data of
               None \<Rightarrow> io_ret sessions | Some s \<Rightarrow> io_ret (sessions @ [s]))))"

fun list_sessions_loop ::
  "'s env \<Rightarrow> (string \<Rightarrow> int option) \<Rightarrow> (int \<Rightarrow> string \<Rightarrow> ('s, int \<times> string list) io) \<Rightarrow> string \<Rightarrow> nat \<Rightarrow> int \<Rightarrow>
   session_info list \<Rightarrow> ('s, session_info list option) io" where
  "list_sessions_loop E parse_int scan pattern 0 cursor sessions = io_ret None"
| "list_sessions_loop E parse_int scan pattern (Suc fuel) cursor sessions =
     io_bind (scan cursor pattern) (\<lambda>ck.
       io_bind (scan_batch E parse_int sessions (snd ck)) (\<lambda>sessions.
         if fst ck = 0 then io_ret (Some sessions)
         else list_sessions_loop E parse_int scan pattern fuel (fst ck) sessions))"

definition list_sessions ::
  "'s env \<Rightarrow> (string \<Rightarrow> int option) \<Rightarrow> (int \<Rightarrow> string \<Rightarrow> ('s, int \<times> string list) io) \<Rightarrow> nat \<Rightarrow> string \<Rightarrow>
   ('s, session_info list option) io" where
  "list_sessions E parse_int scan fuel repo = list_sessions_loop E parse_int scan (session_pattern repo) fuel 0 []"

definition update_summary ::
  "'s env \<Rightarrow> string \<Rightarrow> string \<Rightarrow> string \<Rightarrow> string \<Rightarrow> string \<Rightarrow> ('s, unit) io" where
  "update_summary E repo thread_type thread_id workflow summary =
     io_try (x_hset E (session_map_key repo thread_type thread_id workflow) ''summary'' summary)
       (\<lambda>e. io_ret ())"

definition increment_turn_count ::
  "'s env \<Rightarrow> string \<Rightarrow> string \<Rightarrow> string \<Rightarrow> string \<Rightarrow> string \<Rightarrow> int \<Rightarrow> ('s, unit) io" where
  "increment_turn_count E last_run repo thread_type thread_id workflow additional_turns =
     (let key = session_map_key repo thread_type thread_id workflow in
      io_try (io_then (x_hincrby E key ''turn_count'' additional_turns) (x_hset E key ''last_run'' last_run))
        (\<lambda>e. io_ret ()))"

section \<open>Streaming sessions\<close>

definition stream_set_ttl :: "'s env \<Rightarrow> string \<Rightarrow> int \<Rightarrow> ('s, unit) io" where
  "stream_set_ttl E token ttl_seconds =
     io_then (x_expire E (SESSION_KEY token) ttl_seconds)
     (io_then (x_expire E (SESSION_INBOX_KEY token) ttl_seconds)
     (io_then (x_expire E (SESSION_SUBSCRIBERS_KEY token) ttl_seconds) (io_ret ())))"

definition propagate_streaming_ttl ::
  "'s env \<Rightarrow> string \<Rightarrow> string \<Rightarrow> string \<Rightarrow> string \<Rightarrow> int \<Rightarrow> string \<Rightarrow> ('s, unit) io" where
  "propagate_streaming_ttl E token repo thread_id workflow ttl_hours thread_type =
     (let ttl_seconds = ttl_hours * 3600 in
      io_then (stream_set_ttl E token ttl_seconds)
      (io_then (x_expire E (streaming_lookup_key repo thread_id workflow thread_type) ttl_seconds)
      (io_then (if thread_type \<noteq> []
                then x_expire E (streaming_lookup_key repo thread_id workflow []) ttl_seconds
                else io_ret False)
        (io_ret ()))))"

definition expire_session ::
  "'s env \<Rightarrow> (string \<Rightarrow> int option) \<Rightarrow> string \<Rightarrow> string \<Rightarrow> string \<Rightarrow> string \<Rightarrow> int \<Rightarrow> ('s, unit) io" where
  "expire_session E parse_int repo thread_type thread_id workflow ttl_hours =
     io_bind (x_expire E (session_map_key repo thread_type thread_id workflow) (ttl_hours * 3600)) (\<lambda>result.
       if \<not> result then io_ret ()
       else io_bind (get_session E parse_int repo thread_type thread_id workflow) (\<lambda>info. case info of
           None \<Rightarrow> io_ret ()
         | Some i \<Rightarrow>
             io_try
               (if opt_default [] (si_streaming_token i) \<noteq> []
                then propagate_streaming_ttl E (opt_default [] (si_streaming_token i)) repo thread_id
                  workflow ttl_hours thread_type
                else io_ret ())
               (\<lambda>e. io_ret ())))"
record stream_args =
  sa_token :: string
  sa_repo :: string
  sa_issue_number :: int
  sa_workflow :: string
  sa_session_proxy_url :: string
  sa_ttl_seconds :: int
  sa_installation_id :: string
  sa_initial_query :: string
  sa_thread_type :: string
  sa_ref :: string
  sa_user :: string
  sa_conversation_config :: string
  sa_session_id :: string

definition stream_fields :: "stream_args \<Rightarrow> string dict" where
  "stream_fields a =
     [(''token'', sa_token a), (''repo'', sa_repo a), (''issue_number'', show_int (sa_issue_number a)),
      (''workflow'', sa_workflow a), (''session_proxy_url'', sa_session_proxy_url a),
      (''status'', ''running''), (''installation_id'', sa_installation_id a),
      (''initial_query'', sa_initial_query a), (''thread_type'', sa_thread_type a), (''ref'', sa_ref a),
      (''user'', sa_user a), (''conversation_config'', sa_conversation_config a),
      (''session_id'', sa_session_id a), (''transcript_path'', []), (''run_count'', ''1'')]"

definition stream_create_session :: "'s env \<Rightarrow> stream_args \<Rightarrow> ('s, unit) io" where
  "stream_create_session E a =
     io_then (hset_all E (SESSION_KEY (sa_token a)) (stream_fields a))
     (io_then (x_expire E (SESSION_KEY (sa_token a)) (sa_ttl_seconds a))
     (io_then (x_setex E
         (streaming_lookup_key (sa_repo a) (show_int (sa_issue_number a)) (sa_workflow a) (sa_thread_type a))
         (sa_ttl_seconds a) (sa_token a))
       (io_ret ())))"

definition stream_get_session :: "'s env \<Rightarrow> string \<Rightarrow> ('s, string dict option) io" where
  "stream_get_session E token =
     io_bind (x_hgetall E (SESSION_KEY token)) (\<lambda>data. io_ret (if data = [] then None else Some data))"

definition verify_token :: "'s env \<Rightarrow> string \<Rightarrow> string \<Rightarrow> ('s, string option) io" where
  "verify_token E lk token =
     io_bind (stream_get_session E token) (\<lambda>session.
       if session \<noteq> None then io_ret (Some token)
       else io_then (x_del E lk) (io_ret None))"

definition find_session :: "'s env \<Rightarrow> string \<Rightarrow> int \<Rightarrow> string \<Rightarrow> string \<Rightarrow> ('s, string option) io" where
  "find_session E repo issue_number workflow thread_type =
     (let lk = streaming_lookup_key repo (show_int issue_number) workflow thread_type in
      io_bind (x_get E lk) (\<lambda>raw.
        if opt_default [] raw \<noteq> [] then verify_token E lk (opt_default [] raw)
        else if thread_type \<noteq> [] then
          io_bind (x_get E (streaming_lookup_key repo (show_int issue_number) workflow [])) (\<lambda>raw.
            if opt_default [] raw \<noteq> [] then verify_token E lk (opt_default [] raw) else io_ret None)
        else io_ret None))"

definition find_active_session :: "'s env \<Rightarrow> string \<Rightarrow> int \<Rightarrow> string \<Rightarrow> string \<Rightarrow> ('s, string option) io" where
  "find_active_session E repo issue_number workflow thread_type =
     io_bind (find_session E repo issue_number workflow thread_type) (\<lambda>token.
       if opt_default [] token = [] then io_ret None
       else io_bind (stream_get_session E (opt_default [] token)) (\<lambda>session. io_ret
         (case session of
            None \<Rightarrow> None
          | Some h \<Rightarrow> if dict_get h ''status'' = Some ''running'' then token else None)))"

definition set_completed :: "'s env \<Rightarrow> string \<Rightarrow> bool \<Rightarrow> string option \<Rightarrow> ('s, unit) io" where
  "set_completed E token is_error session_id =
     (let key = SESSION_KEY token; status = (if is_error then ''error'' else ''completed'')
      in if opt_default [] session_id \<noteq> []
         then hset_all E key [(''status'', status), (''session_id'', opt_default [] session_id)]
         else x_hset E key ''status'' status)"

definition set_running :: "'s env \<Rightarrow> string \<Rightarrow> int \<Rightarrow> ('s, unit) io" where
  "set_running E token ttl_seconds =
     io_then (x_hset E (SESSION_KEY token) ''status'' ''running'')
     (io_then (x_expire E (SESSION_KEY token) ttl_seconds) (io_ret ()))"

definition delete_session :: "'s env \<Rightarrow> string \<Rightarrow> ('s, unit) io" where
  "delete_session E token =
     io_then (x_del E (SESSION_KEY token))
     (io_then (x_del E (SESSION_INBOX_KEY token))
     (io_then (x_del E (SESSION_SUBSCRIBERS_KEY token)) (io_ret ())))"

definition DEFAULT_SESSION_TTL_SECONDS :: int where "DEFAULT_SESSION_TTL_SECONDS = 720 * 3600"

definition increment_subscribers :: "'s env \<Rightarrow> string \<Rightarrow> ('s, int) io" where
  "increment_subscribers E token =
     io_bind (x_incrby E (SESSION_SUBSCRIBERS_KEY token) 1) (\<lambda>count.
       io_then (if count = 1
                then x_expire E (SESSION_SUBSCRIBERS_KEY token) DEFAULT_SESSION_TTL_SECONDS
                else io_ret False)
         (io_ret count))"

definition decrement_subscribers :: "'s env \<Rightarrow> string \<Rightarrow> ('s, int) io" where
  "decrement_subscribers E token =
     io_bind (x_incrby E (SESSION_SUBSCRIBERS_KEY token) (- 1)) (\<lambda>count.
       io_then (if count \<le> 0 then x_del E (SESSION_SUBSCRIBERS_KEY token) else io_ret 0)
         (io_ret count))"

text \<open>\<open>int(raw)\<close> of the counter; any other text raises.\<close>

definition has_subscribers :: "'s env \<Rightarrow> string \<Rightarrow> ('s, bool) io" where
  "has_subscribers E token =
     io_bind (x_get E (SESSION_SUBSCRIBERS_KEY token)) (\<lambda>raw. case raw of
         None \<Rightarrow> io_ret False
       | Some s \<Rightarrow>
           if is_int_text s then io_ret (read_int s > 0)
           else io_raise (Exn ValueError ''invalid literal for int()''))"

definition get_history :: "'s env \<Rightarrow> string \<Rightarrow> ('s, json list) io" where
  "get_history E token =
     io_bind (x_lrange E (SESSION_HISTORY_KEY token) 0 (- 1)) (\<lambda>raws.
       io_ret (List.map_filter (x_loads E) raws))"

definition get_replay_buffer :: "'s env \<Rightarrow> string \<Rightarrow> ('s, json list) io" where
  "get_replay_buffer E token = get_history E token"

definition update_session_id :: "'s env \<Rightarrow> string \<Rightarrow> string \<Rightarrow> ('s, unit) io" where
  "update_session_id E token session_id = x_hset E (SESSION_KEY token) ''session_id'' session_id"

definition update_transcript_path :: "'s env \<Rightarrow> string \<Rightarrow> string \<Rightarrow> ('s, unit) io" where
  "update_transcript_path E token path = x_hset E (SESSION_KEY token) ''transcript_path'' path"

definition increment_run_count :: "'s env \<Rightarrow> string \<Rightarrow> ('s, int) io" where
  "increment_run_count E token = x_hincrby E (SESSION_KEY token) ''run_count'' 1"

definition inbox_message :: "string \<Rightarrow> json" where
  "inbox_message content = JObj [(''type'', JStr ''user_message''), (''content'', JStr content)]"

definition push_inbox_message :: "'s env \<Rightarrow> string \<Rightarrow> string \<Rightarrow> ('s, unit) io" where
  "push_inbox_message E token content =
     io_then (x_rpush E (SESSION_INBOX_KEY token) (x_dumps E (inbox_message content)))
     (io_then (x_expire E (SESSION_INBOX_KEY token) DEFAULT_SESSION_TTL_SECONDS) (io_ret ()))"

text \<open>The content of one inbox entry, nothing for entries that are not user messages.\<close>

definition inbox_content :: "'s env \<Rightarrow> string \<Rightarrow> json option" where
  "inbox_content E raw =
     (case x_loads E raw of
        Some (JObj d) \<Rightarrow>
          if dict_get d ''type'' = Some (JStr ''user_message'')
          then (case dict_get d ''content'' of
                  Some c \<Rightarrow> if py_truthy c then Some c else None
                | None \<Rightarrow> None)
          else None
      | _ \<Rightarrow> None)"

definition pop_inbox_messages :: "'s env \<Rightarrow> string \<Rightarrow> ('s, json list) io" where
  "pop_inbox_messages E token =
     io_bind (x_lrange E (SESSION_INBOX_KEY token) 0 (- 1)) (\<lambda>raw_items.
       io_then (x_del E (SESSION_INBOX_KEY token))
         (io_ret (List.map_filter (inbox_content E) raw_items)))"

section \<open>What a session looks like after it was saved\<close>

definition rhash :: "rstate \<Rightarrow> string \<Rightarrow> string dict" where
  "rhash st k = opt_default [] (as_hash (rlook st k))"

lemmas session_run = io_simps redis_simps redis_commands

lemma hset_all_spec:
  "as_hash (rlook st k) = Some h \<Longrightarrow>
   \<exists>st'. hset_all (spec_env d l ord) k fvs st = (Inr (), st') \<and>
     as_hash (rlook st' k) = Some (fold (\<lambda>fv. dict_set (fst fv) (snd fv)) fvs h) \<and>
     (\<forall>k'. k' \<noteq> k \<longrightarrow> rlook st' k' = rlook st k') \<and> rnow st' = rnow st"
  unfolding hset_all_def
proof (induction fvs arbitrary: st h)
  case Nil
  then show ?case by (simp add: io_simps)
next
  case (Cons fv fvs)
  obtain st1 where st1: "x_hset (spec_env d l ord) k (fst fv) (snd fv) st = (Inr (), st1)"
    "as_hash (rlook st1 k) = Some (dict_set (fst fv) (snd fv) h)"
    "\<forall>k'. k' \<noteq> k \<longrightarrow> rlook st1 k' = rlook st k'" "rnow st1 = rnow st"
    using Cons.prems by (simp add: session_run)
  from Cons.IH [OF st1(2)] st1 show ?case by (simp add: io_simps)
qed

text \<open>The fields of a session after one more \<open>save_session\<close> over the old fields \<open>h\<close>.\<close>

definition saved_field :: "string dict \<Rightarrow> string \<Rightarrow> string dict \<Rightarrow> int \<Rightarrow> string option \<Rightarrow> string option \<Rightarrow> string \<Rightarrow> string option" where
  "saved_field h now base turn_count summary streaming_token f =
     (if f = ''streaming_token'' \<and> streaming_token \<noteq> None then streaming_token
      else if f = ''summary'' \<and> summary \<noteq> None then summary
      else if f = ''turn_count'' \<and> turn_count \<noteq> 0
           then Some (show_int (read_int (opt_default ''0'' (dict_get h f)) + turn_count))
      else if f = ''created_at'' \<and> dict_get h f = None then Some now
      else (case dict_get base f of Some v \<Rightarrow> Some v | None \<Rightarrow> dict_get h f))"

lemma dict_get_fold_set:
  "distinct (map fst fvs) \<Longrightarrow>
   dict_get (fold (\<lambda>fv. dict_set (fst fv) (snd fv)) fvs h) f =
     (case dict_get fvs f of Some v \<Rightarrow> Some v | None \<Rightarrow> dict_get h f)"
proof (induction fvs arbitrary: h)
  case (Cons fv fvs)
  then have "dict_get fvs (fst fv) = None" by (simp add: map_of_eq_None_iff)
  with Cons show ?case by (cases fv) (auto split: option.split)
qed simp

lemma as_hash_Some: "as_hash r = Some h \<Longrightarrow> h \<noteq> [] \<Longrightarrow> r = Some (RHash h)"
  by (cases r rule: as_hash.cases) auto

lemma save_session_spec:
  assumes "as_hash (rlook st k) = Some h" "is_int_text (opt_default ''0'' (dict_get h ''turn_count''))"
    and "k = session_map_key repo tt tid wfl" "0 < ttl"
  shows "\<exists>st' h'. save_session (spec_env d l ord) now repo tt tid wfl sid path ref n summary ttl tok st = (Inr (), st') \<and>
    rlook st' k = Some (RHash h') \<and> h' \<noteq> [] \<and> rdeadline st' k = Some (rnow st + nat (ttl * 3600)) \<and>
    rnow st' = rnow st \<and>
    (\<forall>f. dict_get h' f = saved_field h now (session_fields now repo tt tid wfl sid path ref) n summary tok f)"
proof -
  let ?fs = "session_fields now repo tt tid wfl sid path ref"
  let ?h1 = "fold (\<lambda>fv. dict_set (fst fv) (snd fv)) ?fs h"
  have get1: "dict_get ?h1 f = (case dict_get ?fs f of Some v \<Rightarrow> Some v | None \<Rightarrow> dict_get h f)" for f
    by (rule dict_get_fold_set) (simp add: session_fields_def)
  obtain st1 where st1: "hset_all (spec_env d l ord) k ?fs st = (Inr (), st1)"
      "as_hash (rlook st1 k) = Some ?h1" "rnow st1 = rnow st"
    using hset_all_spec [OF assms(1)] by blast
  have "dict_get ?h1 ''session_id'' \<noteq> None" unfolding get1 by (simp add: session_fields_def)
  then have "?h1 \<noteq> []" by (metis map_of.simps(1))
  with st1(2) have st1_hash: "rlook st1 k = Some (RHash ?h1)" by (rule as_hash_Some)
  have absent: "dict_get ?fs ''created_at'' = None" "dict_get ?fs ''turn_count'' = None"
      "dict_get ?fs ''summary'' = None" "dict_get ?fs ''streaming_token'' = None"
    by (simp_all add: session_fields_def)
  define h2 where "h2 = (if dict_get h ''created_at'' \<noteq> None then ?h1 else dict_set ''created_at'' now ?h1)"
  define h3 where "h3 = (if n = 0 then h2 else dict_set ''turn_count''
      (show_int (read_int (opt_default ''0'' (dict_get h ''turn_count'')) + n)) h2)"
  define h4 where "h4 = (case summary of None \<Rightarrow> h3 | Some t \<Rightarrow> dict_set ''summary'' t h3)"
  define h5 where "h5 = (case tok of None \<Rightarrow> h4 | Some t \<Rightarrow> dict_set ''streaming_token'' t h4)"
  obtain b st2 where st2: "x_hsetnx (spec_env d l ord) k ''created_at'' now st1 = (Inr b, st2)"
      "rlook st2 k = Some (RHash h2)" "rnow st2 = rnow st"
    using st1(3) st1_hash get1 absent
    by (cases "dict_get h ''created_at''") (auto simp: session_run h2_def)
  have turns: "opt_default ''0'' (dict_get h2 ''turn_count'') = opt_default ''0'' (dict_get h ''turn_count'')"
    using absent by (simp add: h2_def get1)
  obtain st3 where st3: "(if n \<noteq> 0 then io_then (x_hincrby (spec_env d l ord) k ''turn_count'' n) (io_ret ())
        else io_ret ()) st2 = (Inr (), st3)"
      "rlook st3 k = Some (RHash h3)" "rnow st3 = rnow st"
    using st2 turns assms(2) by (cases "n = 0") (simp_all add: session_run h3_def Let_def)
  obtain st4 where st4: "(case summary of None \<Rightarrow> io_ret () | Some t \<Rightarrow> x_hset (spec_env d l ord) k ''summary'' t) st3 =
        (Inr (), st4)" "rlook st4 k = Some (RHash h4)" "rnow st4 = rnow st"
    using st3 by (cases summary) (simp_all add: session_run h4_def)
  obtain st5 where st5: "(case tok of None \<Rightarrow> io_ret () | Some t \<Rightarrow> x_hset (spec_env d l ord) k ''streaming_token'' t) st4 =
        (Inr (), st5)" "rlook st5 k = Some (RHash h5)" "rnow st5 = rnow st"
    using st4 by (cases tok) (simp_all add: session_run h5_def)
  have run: "\<exists>st'. save_session (spec_env d l ord) now repo tt tid wfl sid path ref n summary ttl tok st = (Inr (), st') \<and>
      rlook st' k = Some (RHash h5) \<and> rdeadline st' k = Some (rnow st + nat (ttl * 3600)) \<and> rnow st' = rnow st"
    unfolding save_session_def Let_def assms(3) [symmetric]
    using st5(2,3) assms(4)
    by (simp only: io_then_Inr st1(1) st2(1) st3(1) st4(1) st5(1)) (simp add: session_run)
  have get5: "dict_get h5 f = saved_field h now ?fs n summary tok f" for f
    using absent by (auto simp: h2_def h3_def h4_def h5_def get1 saved_field_def split: option.split)
  have "dict_get h5 ''session_id'' \<noteq> None"
    unfolding get5 by (simp add: saved_field_def session_fields_def)
  then have "h5 \<noteq> []" by auto
  with run get5 show ?thesis by blast
qed

lemma saved_session_read:
  assumes "rlook st k = Some (RHash h)" "h \<noteq> []" "k = session_map_key repo tt tid wfl"
    and "tt \<in> set [''pr'', ''issue'', ''discussion'']"
    and "\<forall>f. dict_get h f = saved_field h0 now (session_fields now repo tt tid wfl sid path ref) n summary tok f"
    and "case dict_get h ''turn_count'' of None \<Rightarrow> turns = 0 | Some s \<Rightarrow> parse_int s = Some turns"
  shows "get_session (spec_env d l ord) parse_int repo tt tid wfl st = (Inr (Some
    \<lparr>si_session_id = sid, si_repo = repo, si_thread_type = tt, si_thread_id = tid, si_workflow_name = wfl,
     si_ref = ref, si_worktree_path = path, si_created_at = opt_default now (dict_get h0 ''created_at''),
     si_last_run = now, si_turn_count = turns, si_status = ''active'',
     si_summary = (if summary \<noteq> None then summary else dict_get h0 ''summary''),
     si_streaming_token = (if tok \<noteq> None then tok else dict_get h0 ''streaming_token'')\<rparr>), st)"
proof -
  have turns: "(case dict_get h ''turn_count'' of None \<Rightarrow> Some 0 | Some s \<Rightarrow> parse_int s) = Some turns"
    using assms(6) by (auto split: option.splits)
  have "session_info_of parse_int h = Some
    \<lparr>si_session_id = sid, si_repo = repo, si_thread_type = tt, si_thread_id = tid, si_workflow_name = wfl,
     si_ref = ref, si_worktree_path = path, si_created_at = opt_default now (dict_get h0 ''created_at''),
     si_last_run = now, si_turn_count = turns, si_status = ''active'',
     si_summary = (if summary \<noteq> None then summary else dict_get h0 ''summary''),
     si_streaming_token = (if tok \<noteq> None then tok else dict_get h0 ''streaming_token'')\<rparr>"
    unfolding session_info_of_def Let_def turns using assms(4)
    by (auto simp: assms(5) saved_field_def session_fields_def split: option.split)
  with assms(1-3) show ?thesis
    by (simp add: get_session_def read_session_def session_run)
qed

context redis_server
begin

lemma hset_all_sim [sim_intros]: "sim view healthy (hset_all E k fvs) (hset_all (model_env E ord) k fvs)"
  unfolding hset_all_def by (intro sim_intros)

lemma save_session_sim [sim_intros]:
  "sim view healthy (save_session E now repo tt tid wfl sid path ref n su ttl tok)
     (save_session (model_env E ord) now repo tt tid wfl sid path ref n su ttl tok)"
  unfolding save_session_def Let_def by (intro sim_intros)

lemma get_session_sim [sim_intros]:
  "sim view healthy (get_session E p repo tt tid wfl) (get_session (model_env E ord) p repo tt tid wfl)"
  unfolding get_session_def read_session_def by (intro sim_intros)

lemma increment_turn_count_sim [sim_intros]:
  "sim view healthy (increment_turn_count E now repo tt tid wfl n)
     (increment_turn_count (model_env E ord) now repo tt tid wfl n)"
  unfolding increment_turn_count_def Let_def by (intro sim_intros)

lemma two_saves_sim:
  "sim view healthy
     (io_then (save_session E now1 repo tt tid wfl sid1 path1 ref1 n1 su1 ttl1 tok1)
       (io_then (save_session E now2 repo tt tid wfl sid2 path2 ref2 n2 su2 ttl2 tok2)
         (get_session E p repo tt tid wfl)))
     (io_then (save_session (model_env E ord) now1 repo tt tid wfl sid1 path1 ref1 n1 su1 ttl1 tok1)
       (io_then (save_session (model_env E ord) now2 repo tt tid wfl sid2 path2 ref2 n2 su2 ttl2 tok2)
         (get_session (model_env E ord) p repo tt tid wfl)))"
  by (intro sim_intros)

end

text \<open>
  C18: a conversation that is saved twice reads back with the data of the second save, the
  creation time of the first, and the turns of both added up; a summary or streaming token that
  the second save does not give is kept from the first.
\<close>

theorem session_accumulates:
  assumes "redis_server E view healthy ord" "healthy s"
    and "rlook (view s) (session_map_key repo tt tid wfl) = None" "0 < ttl1" "0 < ttl2"
    and "tt \<in> set [''pr'', ''issue'', ''discussion'']" "\<forall>i. parse_int (show_int i) = Some i"
  shows "\<exists>s'. io_then (save_session E now1 repo tt tid wfl sid1 path1 ref1 n1 su1 ttl1 tok1)
      (io_then (save_session E now2 repo tt tid wfl sid2 path2 ref2 n2 su2 ttl2 tok2)
        (get_session E parse_int repo tt tid wfl)) s =
    (Inr (Some \<lparr>si_session_id = sid2, si_repo = repo, si_thread_type = tt, si_thread_id = tid,
       si_workflow_name = wfl, si_ref = ref2, si_worktree_path = path2, si_created_at = now1,
       si_last_run = now2, si_turn_count = n1 + n2, si_status = ''active'',
       si_summary = (if su2 \<noteq> None then su2 else su1),
       si_streaming_token = (if tok2 \<noteq> None then tok2 else tok1)\<rparr>), s')"
proof -
  let ?k = "session_map_key repo tt tid wfl" and ?M = "spec_env (x_dumps E) (x_loads E) ord"
  have zero: "is_int_text ''0''" "read_int ''0'' = 0"
    by (simp_all add: is_int_text_def is_digit_def read_int_def read_nat_def digit_value_def)
  obtain st1 h1 where 1: "save_session ?M now1 repo tt tid wfl sid1 path1 ref1 n1 su1 ttl1 tok1 (view s) = (Inr (), st1)"
      "rlook st1 ?k = Some (RHash h1)"
      "\<forall>f. dict_get h1 f = saved_field [] now1 (session_fields now1 repo tt tid wfl sid1 path1 ref1) n1 su1 tok1 f"
    using save_session_spec [of "view s" ?k "[]" repo tt tid wfl ttl1] assms(3,4) zero by fastforce
  have t1: "dict_get h1 ''turn_count'' = (if n1 = 0 then None else Some (show_int n1))"
    using 1(3) zero by (simp add: saved_field_def session_fields_def)
  then have int1: "is_int_text (opt_default ''0'' (dict_get h1 ''turn_count''))"
    using zero show_int_text by simp
  obtain st2 h2 where 2: "save_session ?M now2 repo tt tid wfl sid2 path2 ref2 n2 su2 ttl2 tok2 st1 = (Inr (), st2)"
      "rlook st2 ?k = Some (RHash h2)" "h2 \<noteq> []"
      "\<forall>f. dict_get h2 f = saved_field h1 now2 (session_fields now2 repo tt tid wfl sid2 path2 ref2) n2 su2 tok2 f"
    using save_session_spec [of st1 ?k h1 repo tt tid wfl ttl2] 1(2) int1 assms(5) by fastforce
  have t2: "case dict_get h2 ''turn_count'' of None \<Rightarrow> n1 + n2 = 0 | Some s \<Rightarrow> parse_int s = Some (n1 + n2)"
    using 2(4) t1 zero assms(7) by (simp add: saved_field_def session_fields_def)
  let ?info = "\<lparr>si_session_id = sid2, si_repo = repo,
       si_thread_type = tt, si_thread_id = tid, si_workflow_name = wfl, si_ref = ref2, si_worktree_path = path2,
       si_created_at = now1, si_last_run = now2, si_turn_count = n1 + n2, si_status = ''active'',
       si_summary = (if su2 \<noteq> None then su2 else su1),
       si_streaming_token = (if tok2 \<noteq> None then tok2 else tok1)\<rparr>"
  have "get_session ?M parse_int repo tt tid wfl st2 = (Inr (Some ?info), st2)"
    unfolding saved_session_read [OF 2(2,3) refl assms(6) 2(4) t2] using 1(3)
    by (auto simp: saved_field_def session_fields_def)
  with 1(1) 2(1) have "io_then (save_session ?M now1 repo tt tid wfl sid1 path1 ref1 n1 su1 ttl1 tok1)
      (io_then (save_session ?M now2 repo tt tid wfl sid2 path2 ref2 n2 su2 ttl2 tok2)
        (get_session ?M parse_int repo tt tid wfl)) (view s) = (Inr (Some ?info), st2)"
    by (simp add: io_simps)
  from redis_server.sim_run [OF assms(1) redis_server.two_saves_sim [OF assms(1)] assms(2),
      unfolded model_env_def, OF this] show ?thesis by blast
qed


theorem session_accumulates_witness:
  "\<exists>s'. io_then (save_session flaky_env ''t1'' ''o/r'' ''pr'' ''7'' ''review'' ''s1'' ''/w'' ''main'' 3 None 1 (Some ''tok''))
      (io_then (save_session flaky_env ''t2'' ''o/r'' ''pr'' ''7'' ''review'' ''s2'' ''/w'' ''main'' 4 None 1 None)
        (get_session flaky_env (\<lambda>s. Some (read_int s)) ''o/r'' ''pr'' ''7'' ''review'')) sample_world =
    (Inr (Some \<lparr>si_session_id = ''s2'', si_repo = ''o/r'', si_thread_type = ''pr'', si_thread_id = ''7'',
       si_workflow_name = ''review'', si_ref = ''main'', si_worktree_path = ''/w'', si_created_at = ''t1'',
       si_last_run = ''t2'', si_turn_count = 7, si_status = ''active'',
       si_summary = None, si_streaming_token = Some ''tok''\<rparr>), s')"
  using session_accumulates [OF flaky.redis_server_axioms, of sample_world "''o/r''" "''pr''" "''7''" "''review''"
      1 1 "\<lambda>s. Some (read_int s)" "''t1''" "''s1''" "''/w''" "''main''" 3 None "Some ''tok''"
      "''t2''" "''s2''" "''/w''" "''main''" 4 None None]
  by simp

text \<open>
  Counting turns of a session that has expired does not fail and does not do nothing: it
  leaves a record without time to live that \<open>get_session\<close> does not recognise as a session.
\<close>

theorem turn_count_of_expired_session:
  assumes "redis_server E view healthy ord" "healthy s"
    and "rlook (view s) (session_map_key repo tt tid wfl) = None"
  shows "\<exists>s'. io_then (increment_turn_count E now repo tt tid wfl n)
      (get_session E parse_int repo tt tid wfl) s = (Inr None, s') \<and>
    rlook (view s') (session_map_key repo tt tid wfl) =
      Some (RHash [(''turn_count'', show_int n), (''last_run'', now)]) \<and>
    rdeadline (view s') (session_map_key repo tt tid wfl) = None"
proof -
  let ?k = "session_map_key repo tt tid wfl" and ?M = "spec_env (x_dumps E) (x_loads E) ord"
  let ?st = "rstore ?k (RHash [(''turn_count'', show_int n), (''last_run'', now)])
    (rstore ?k (RHash [(''turn_count'', show_int n)]) (view s))"
  have "is_int_text ''0''" "read_int ''0'' = 0"
    by (simp_all add: is_int_text_def is_digit_def read_int_def read_nat_def digit_value_def)
  moreover have dl: "rdeadline (view s) ?k = None" using assms(3) by (simp add: rdeadline_def)
  ultimately have "io_then (increment_turn_count ?M now repo tt tid wfl n)
      (get_session ?M parse_int repo tt tid wfl) (view s) = (Inr None, ?st)"
    using assms(3) by (simp add: increment_turn_count_def get_session_def read_session_def session_run
        session_info_of_def Let_def)
  moreover have "sim view healthy (io_then (increment_turn_count E now repo tt tid wfl n)
      (get_session E parse_int repo tt tid wfl))
      (io_then (increment_turn_count ?M now repo tt tid wfl n) (get_session ?M parse_int repo tt tid wfl))"
    using redis_server.sim_then [OF assms(1) redis_server.increment_turn_count_sim [OF assms(1)]
        redis_server.get_session_sim [OF assms(1)]] by (simp add: model_env_def)
  ultimately show ?thesis
    using redis_server.sim_run [OF assms(1) _ assms(2)] dl by (fastforce simp: redis_simps)
qed

theorem turn_count_of_expired_session_witness:
  "\<exists>s'. io_then (increment_turn_count flaky_env ''t'' ''o/r'' ''pr'' ''7'' ''review'' 2)
      (get_session flaky_env (\<lambda>s. Some (read_int s)) ''o/r'' ''pr'' ''7'' ''review'') sample_world = (Inr None, s') \<and>
    rdeadline (fk_state s') (session_map_key ''o/r'' ''pr'' ''7'' ''review'') = None"
  using turn_count_of_expired_session [OF flaky.redis_server_axioms, of sample_world "''o/r''" "''pr''"
      "''7''" "''review''" "''t''" 2 "\<lambda>s. Some (read_int s)"] by auto

section \<open>Inbox, subscribers and lookup\<close>

definition push_all :: "'s env \<Rightarrow> string \<Rightarrow> string list \<Rightarrow> ('s, unit) io" where
  "push_all E token = io_fold (\<lambda>u c. push_inbox_message E token c) ()"

context redis_server
begin

lemma push_all_sim [sim_intros]: "sim view healthy (push_all E token cs) (push_all (model_env E ord) token cs)"
  unfolding push_all_def push_inbox_message_def model_env_codec by (intro sim_intros)

lemma inbox_content_model [simp]: "inbox_content (model_env E ord) = inbox_content E"
  by (simp add: fun_eq_iff inbox_content_def)

lemma pop_inbox_sim [sim_intros]:
  "sim view healthy (pop_inbox_messages E token) (pop_inbox_messages (model_env E ord) token)"
  unfolding pop_inbox_messages_def inbox_content_model by (intro sim_intros)

lemma push_all_spec:
  "as_list (rlook st (SESSION_INBOX_KEY token)) = Some xs \<Longrightarrow>
   \<exists>st'. push_all (model_env E ord) token cs st = (Inr (), st') \<and>
     as_list (rlook st' (SESSION_INBOX_KEY token)) = Some (xs @ map (x_dumps E \<circ> inbox_message) cs)"
proof (induction cs arbitrary: st xs)
  case Nil
  then show ?case by (simp add: push_all_def io_simps)
next
  case (Cons c cs)
  then obtain st1 where st1: "push_inbox_message (model_env E ord) token c st = (Inr (), st1)"
    "as_list (rlook st1 (SESSION_INBOX_KEY token)) = Some (xs @ [x_dumps E (inbox_message c)])"
    by (simp add: push_inbox_message_def model_env_def session_run DEFAULT_SESSION_TTL_SECONDS_def)
  from Cons.IH [OF st1(2)] st1(1) show ?case by (simp add: push_all_def io_simps)
qed

lemma inbox_content_message:
  "inbox_content E (x_dumps E (inbox_message c)) = (if c = [] then None else Some (JStr c))"
  using loads_dumps [of "inbox_message c"] by (simp add: inbox_content_def inbox_message_def)

lemma inbox_contents:
  "List.map_filter (inbox_content E) (map (x_dumps E \<circ> inbox_message) cs) =
     map JStr (filter (\<lambda>c. c \<noteq> []) cs)"
  by (induction cs) (simp_all add: inbox_content_message)

lemma push_pop:
  assumes "healthy s" "rlook (view s) (SESSION_INBOX_KEY token) = None"
  shows "\<exists>s'. io_then (push_all E token cs) (io_bind (pop_inbox_messages E token) (\<lambda>a.
      io_bind (pop_inbox_messages E token) (\<lambda>b. io_ret (a, b)))) s =
    (Inr (map JStr (filter (\<lambda>c. c \<noteq> []) cs), []), s')"
proof -
  obtain st' where st': "push_all (model_env E ord) token cs (view s) = (Inr (), st')"
    "as_list (rlook st' (SESSION_INBOX_KEY token)) = Some (map (x_dumps E \<circ> inbox_message) cs)"
    using push_all_spec [of "view s" token "[]"] assms(2) by auto
  have "io_then (push_all (model_env E ord) token cs) (io_bind (pop_inbox_messages (model_env E ord) token) (\<lambda>a.
      io_bind (pop_inbox_messages (model_env E ord) token) (\<lambda>b. io_ret (a, b)))) (view s) =
    (Inr (map JStr (filter (\<lambda>c. c \<noteq> []) cs), []), rdrop (SESSION_INBOX_KEY token) (rdrop (SESSION_INBOX_KEY token) st'))"
    using st' by (simp add: pop_inbox_messages_def io_simps)
      (simp add: model_env_def session_run list_range_def inbox_contents)
  moreover have "sim view healthy
      (io_then (push_all E token cs) (io_bind (pop_inbox_messages E token) (\<lambda>a.
        io_bind (pop_inbox_messages E token) (\<lambda>b. io_ret (a, b)))))
      (io_then (push_all (model_env E ord) token cs) (io_bind (pop_inbox_messages (model_env E ord) token) (\<lambda>a.
        io_bind (pop_inbox_messages (model_env E ord) token) (\<lambda>b. io_ret (a, b)))))"
    by (intro sim_intros)
  ultimately show ?thesis using sim_run assms(1) by blast
qed

end

text \<open>
  The messages pushed into an empty inbox come out of one \<open>pop_inbox_messages\<close> complete and
  in order, empty ones dropped, and the next call returns none of them again.
\<close>

theorem inbox_drained_in_order:
  assumes "redis_server E view healthy ord" "healthy s" "rlook (view s) (SESSION_INBOX_KEY token) = None"
  shows "\<exists>s'. io_then (push_all E token cs) (io_bind (pop_inbox_messages E token) (\<lambda>a.
      io_bind (pop_inbox_messages E token) (\<lambda>b. io_ret (a, b)))) s =
    (Inr (map JStr (filter (\<lambda>c. c \<noteq> []) cs), []), s')"
  by (rule redis_server.push_pop [OF assms])

theorem inbox_drained_in_order_witness:
  "\<exists>s'. io_then (push_all flaky_env ''tok'' [''a'', [], ''b'']) (io_bind (pop_inbox_messages flaky_env ''tok'') (\<lambda>a.
      io_bind (pop_inbox_messages flaky_env ''tok'') (\<lambda>b. io_ret (a, b)))) sample_world =
    (Inr ([JStr ''a'', JStr ''b''], []), s')"
  using inbox_drained_in_order [OF flaky.redis_server_axioms, of sample_world "''tok''" "[''a'', [], ''b'']"]
  by simp

text \<open>Browsers come (\<open>True\<close>) and go (\<open>False\<close>).\<close>

definition watch :: "'s env \<Rightarrow> string \<Rightarrow> bool list \<Rightarrow> ('s, unit) io" where
  "watch E token = io_fold (\<lambda>u b.
     io_then (if b then increment_subscribers E token else decrement_subscribers E token) (io_ret ())) ()"

fun watching :: "nat \<Rightarrow> bool list \<Rightarrow> nat option" where
  "watching n [] = Some n"
| "watching n (True # bs) = watching (Suc n) bs"
| "watching 0 (False # bs) = None"
| "watching (Suc n) (False # bs) = watching n bs"

definition counter_is :: "rstate \<Rightarrow> string \<Rightarrow> nat \<Rightarrow> bool" where
  "counter_is st token n \<longleftrightarrow>
     rlook st (SESSION_SUBSCRIBERS_KEY token) = (if n = 0 then None else Some (RStr (show_int (int n))))"

lemma zero_text [simp]: "is_int_text ''0''" "read_int ''0'' = 0"
  by (simp_all add: is_int_text_def is_digit_def read_int_def read_nat_def digit_value_def)

lemma increment_counter:
  assumes "counter_is st token n"
  shows "\<exists>st'. increment_subscribers (spec_env d l ord) token st = (Inr (int n + 1), st') \<and> counter_is st' token (Suc n)"
  using assms show_int_text(1)
  by (cases n) (auto simp: increment_subscribers_def counter_is_def session_run Let_def
      DEFAULT_SESSION_TTL_SECONDS_def add.commute)

lemma decrement_counter:
  assumes "counter_is st token (Suc n)"
  shows "\<exists>st'. decrement_subscribers (spec_env d l ord) token st = (Inr (int n), st') \<and> counter_is st' token n"
  using assms show_int_text(1)
  by (cases n) (auto simp: decrement_subscribers_def counter_is_def session_run Let_def)

lemma watch_spec:
  "counter_is st token n \<Longrightarrow> watching n bs = Some m \<Longrightarrow>
   \<exists>st'. watch (spec_env d l ord) token bs st = (Inr (), st') \<and> counter_is st' token m"
proof (induction n bs arbitrary: st rule: watching.induct)
  case (2 n bs)
  then show ?case using increment_counter [of st token n d l ord] by (force simp: watch_def io_simps)
next
  case (4 n bs)
  then show ?case using decrement_counter [of st token n d l ord] by (force simp: watch_def io_simps)
qed (auto simp: watch_def io_simps)

context redis_server
begin

lemma watch_sim [sim_intros]: "sim view healthy (watch E token bs) (watch (model_env E ord) token bs)"
  unfolding watch_def increment_subscribers_def decrement_subscribers_def by (intro sim_intros)

lemma has_subscribers_sim [sim_intros]:
  "sim view healthy (has_subscribers E token) (has_subscribers (model_env E ord) token)"
  unfolding has_subscribers_def by (intro sim_intros)

end

text \<open>
  After any sequence of browsers connecting and disconnecting, none more often than it
  connected, \<open>has_subscribers\<close> says whether one is still connected; the counter never goes below
  zero and does not outlive its last subscriber.
\<close>

theorem subscribers_counted:
  assumes "redis_server E view healthy ord" "healthy s"
    and "rlook (view s) (SESSION_SUBSCRIBERS_KEY token) = None" "watching 0 bs = Some n"
  shows "\<exists>s'. io_then (watch E token bs) (has_subscribers E token) s = (Inr (0 < n), s') \<and>
    (n = 0 \<longrightarrow> rlook (view s') (SESSION_SUBSCRIBERS_KEY token) = None)"
proof -
  let ?M = "spec_env (x_dumps E) (x_loads E) ord"
  obtain st' where st': "watch ?M token bs (view s) = (Inr (), st')" "counter_is st' token n"
    using watch_spec [OF _ assms(4), of "view s" token "x_dumps E" "x_loads E" ord] assms(3)
    by (auto simp: counter_is_def)
  then have "io_then (watch (model_env E ord) token bs) (has_subscribers (model_env E ord) token) (view s) =
      (Inr (0 < n), st')"
    using show_int_text(1) [of "int n"]
    by (auto simp: has_subscribers_def model_env_def session_run counter_is_def)
  from redis_server.sim_run [OF assms(1) redis_server.sim_then [OF assms(1) redis_server.watch_sim
        [OF assms(1)] redis_server.has_subscribers_sim [OF assms(1)]] assms(2) this]
  show ?thesis using st'(2) by (auto simp: counter_is_def)
qed

theorem subscribers_counted_witness:
  "\<exists>s'. io_then (watch flaky_env ''tok'' [True, True, False]) (has_subscribers flaky_env ''tok'') sample_world =
     (Inr True, s')"
  using subscribers_counted [OF flaky.redis_server_axioms, of sample_world "''tok''" "[True, True, False]" 1]
  by auto

text \<open>A browser session is created, looked up, marked completed and looked up again.\<close>

definition lifecycle ::
  "'s env \<Rightarrow> stream_args \<Rightarrow> bool \<Rightarrow> string option \<Rightarrow> ('s, string option \<times> string option \<times> string option) io" where
  "lifecycle E a is_error session_id =
     io_then (stream_create_session E a)
     (io_bind (find_active_session E (sa_repo a) (sa_issue_number a) (sa_workflow a) (sa_thread_type a)) (\<lambda>x.
     (io_then (set_completed E (sa_token a) is_error session_id)
     (io_bind (find_active_session E (sa_repo a) (sa_issue_number a) (sa_workflow a) (sa_thread_type a)) (\<lambda>y.
      io_bind (find_session E (sa_repo a) (sa_issue_number a) (sa_workflow a) (sa_thread_type a)) (\<lambda>z.
        io_ret (x, y, z)))))))"

lemma lookup_key_neq:
  "\<not> prefix ''lookup:'' token \<Longrightarrow> streaming_lookup_key r t w tt \<noteq> SESSION_KEY token"
  by (auto simp: streaming_lookup_key_def session_keys Let_def prefix_def)

lemma find_session_spec:
  assumes "rlook st (streaming_lookup_key repo (show_int n) w tt) = Some (RStr token)" "token \<noteq> []"
    and "rlook st (SESSION_KEY token) = Some (RHash h)" "h \<noteq> []"
  shows "find_session (spec_env d l ord) repo n w tt st = (Inr (Some token), st)"
    and "find_active_session (spec_env d l ord) repo n w tt st =
      (Inr (if dict_get h ''status'' = Some ''running'' then Some token else None), st)"
  using assms
  by (simp_all add: find_session_def find_active_session_def verify_token_def stream_get_session_def
      session_run Let_def)

lemma stream_create_spec:
  assumes "as_hash (rlook st (SESSION_KEY (sa_token a))) = Some h" "0 < sa_ttl_seconds a"
    and "\<not> prefix ''lookup:'' (sa_token a)"
  shows "\<exists>st' h'. stream_create_session (spec_env d l ord) a st = (Inr (), st') \<and>
    rlook st' (streaming_lookup_key (sa_repo a) (show_int (sa_issue_number a)) (sa_workflow a) (sa_thread_type a)) =
      Some (RStr (sa_token a)) \<and>
    rlook st' (SESSION_KEY (sa_token a)) = Some (RHash h') \<and> h' \<noteq> [] \<and> dict_get h' ''status'' = Some ''running''"
proof -
  let ?k = "SESSION_KEY (sa_token a)"
  let ?h = "fold (\<lambda>fv. dict_set (fst fv) (snd fv)) (stream_fields a) h"
  have st: "dict_get ?h ''status'' = Some ''running''"
    by (subst dict_get_fold_set) (simp_all add: stream_fields_def)
  then have ne: "?h \<noteq> []" by (metis map_of.simps(1) option.distinct(1))
  obtain st1 where st1: "hset_all (spec_env d l ord) ?k (stream_fields a) st = (Inr (), st1)"
      "as_hash (rlook st1 ?k) = Some ?h"
    using hset_all_spec [OF assms(1)] by blast
  have "rlook st1 ?k = Some (RHash ?h)" using as_hash_Some [OF st1(2) ne] .
  then show ?thesis
    using st ne assms(2) lookup_key_neq [OF assms(3)] lookup_key_neq [OF assms(3), THEN not_sym] st1(1)
    by (simp add: stream_create_session_def io_then_Inr) (auto simp: session_run)
qed

lemma set_completed_spec:
  assumes "rlook st (SESSION_KEY token) = Some (RHash h)"
  shows "\<exists>st' h'. set_completed (spec_env d l ord) token is_error sid st = (Inr (), st') \<and>
    rlook st' (SESSION_KEY token) = Some (RHash h') \<and> h' \<noteq> [] \<and>
    dict_get h' ''status'' = Some (if is_error then ''error'' else ''completed'') \<and>
    (\<forall>k. k \<noteq> SESSION_KEY token \<longrightarrow> rlook st' k = rlook st k)"
proof -
  have ne: "dict_set k v m \<noteq> []" for k v and m :: "string dict" by (cases m) auto
  show ?thesis using assms ne
    by (auto simp: set_completed_def hset_all_def session_run Let_def)
qed

context redis_server
begin

lemma lifecycle_sim: "sim view healthy (lifecycle E a e i) (lifecycle (model_env E ord) a e i)"
  unfolding lifecycle_def stream_create_session_def find_active_session_def find_session_def verify_token_def
    stream_get_session_def set_completed_def Let_def
  by (intro sim_intros)

end

text \<open>
  A streaming session is found as active by repository, issue and workflow as soon as it is
  created; once completed, in error or not, it is no longer active but is still found, so that the
  user can re-invoke the agent.
\<close>

theorem streaming_session_lookup:
  assumes "redis_server E view healthy ord" "healthy s"
    and "rlook (view s) (SESSION_KEY (sa_token a)) = None" "0 < sa_ttl_seconds a"
    and "sa_token a \<noteq> []" "\<not> prefix ''lookup:'' (sa_token a)"
  shows "\<exists>s'. lifecycle E a is_error session_id s = (Inr (Some (sa_token a), None, Some (sa_token a)), s')"
proof -
  let ?M = "spec_env (x_dumps E) (x_loads E) ord"
  let ?lk = "streaming_lookup_key (sa_repo a) (show_int (sa_issue_number a)) (sa_workflow a) (sa_thread_type a)"
  obtain st1 h1 where 1: "stream_create_session ?M a (view s) = (Inr (), st1)"
      "rlook st1 ?lk = Some (RStr (sa_token a))" "rlook st1 (SESSION_KEY (sa_token a)) = Some (RHash h1)"
      "h1 \<noteq> []" "dict_get h1 ''status'' = Some ''running''"
    using stream_create_spec [of "view s" a "[]"] assms(3,4,6) by fastforce
  obtain st2 h2 where 2: "set_completed ?M (sa_token a) is_error session_id st1 = (Inr (), st2)"
      "rlook st2 (SESSION_KEY (sa_token a)) = Some (RHash h2)" "h2 \<noteq> []"
      "dict_get h2 ''status'' = Some (if is_error then ''error'' else ''completed'')"
      "rlook st2 ?lk = Some (RStr (sa_token a))"
    using set_completed_spec [OF 1(3)] lookup_key_neq [OF assms(6)] 1(2) by metis
  have "lifecycle (model_env E ord) a is_error session_id (view s) =
      (Inr (Some (sa_token a), None, Some (sa_token a)), st2)"
    using 1(1,5) 2(1,4) find_session_spec [OF 1(2) assms(5) 1(3,4)] find_session_spec [OF 2(5) assms(5) 2(2,3)]
    by (simp add: lifecycle_def io_simps model_env_def)
  from redis_server.sim_run [OF assms(1) redis_server.lifecycle_sim [OF assms(1)] assms(2) this]
  show ?thesis by blast
qed

definition sample_stream :: stream_args where
  "sample_stream = \<lparr>sa_token = ''5b1c'', sa_repo = ''o/r'', sa_issue_number = 7, sa_workflow = ''review'',
     sa_session_proxy_url = [], sa_ttl_seconds = 60, sa_installation_id = [], sa_initial_query = [],
     sa_thread_type = ''pr'', sa_ref = ''main'', sa_user = [], sa_conversation_config = [], sa_session_id = []\<rparr>"

theorem streaming_session_lookup_witness:
  "\<exists>s'. lifecycle flaky_env sample_stream True None sample_world = (Inr (Some ''5b1c'', None, Some ''5b1c''), s')"
  using streaming_session_lookup [OF flaky.redis_server_axioms, of sample_world sample_stream True None]
  by (simp add: sample_stream_def)

end
