(* ===== verification/Workflow_Engine.thy ===== *)
theory Workflow_Engine
  imports Json_Value
begin

text \<open>
  \<^verbatim>\<open>workflows/engine.py\<close>: the tables that route events and commands to workflows, the
  payload filters, and prompt templates. The YAML file has been read and validated by pydantic; the
  model starts from the validated workflows. Template parsing follows \<open>string.Formatter.parse\<close>;
  replacement fields that are more than a plain name (attribute access, conversions, format
  specifications) are formatted by the parameter \<open>rich\<close>. Files are read by the parameter \<open>read\<close>.
\<close>

section \<open>Templates\<close>

datatype segment = Lit string | Field string "char option" string

abbreviation lbrace :: char where "lbrace \<equiv> CHR 0x7B"
abbreviation rbrace :: char where "rbrace \<equiv> CHR 0x7D"

definition fmt_error :: "string \<Rightarrow> 'a result" where
  "fmt_error m = Inl (Exn ValueError m)"

text \<open>The field name, with the character that ended it and the rest.\<close>

fun skip_index :: "string \<Rightarrow> string \<times> string" where
  "skip_index [] = ([], [])"
| "skip_index (c # cs) =
     (if c = CHR '']'' then ([], c # cs) else (case skip_index cs of (a, r) \<Rightarrow> (c # a, r)))"

lemma skip_index_length: "(a, r) = skip_index s \<Longrightarrow> length r \<le> length s"
  by (induction s arbitrary: a r) (auto split: prod.splits if_splits)

function field_name :: "string \<Rightarrow> (string \<times> char option \<times> string) result" where
  "field_name [] = Inr ([], None, [])"
| "field_name (c # cs) =
     (if c = lbrace then fmt_error ''unexpected '{' in field name''
      else if c = CHR ''['' then
        (case skip_index cs of (a, r) \<Rightarrow>
           res_bind (field_name r) (\<lambda>(n, stop, rest). Inr (c # a @ n, stop, rest)))
      else if c = rbrace \<or> c = CHR '':'' \<or> c = CHR ''!'' then Inr ([], Some c, cs)
      else res_bind (field_name cs) (\<lambda>(n, stop, rest). Inr (c # n, stop, rest)))"
  by pat_completeness auto
termination
  by (relation "measure length") (auto dest: skip_index_length)

text \<open>The format specification up to the brace that closes the field.\<close>

fun format_spec :: "nat \<Rightarrow> string \<Rightarrow> (string \<times> string) result" where
  "format_spec n [] = fmt_error ''unmatched '{' in format spec''"
| "format_spec n (c # cs) =
     (if c = rbrace \<and> n \<le> 1 then Inr ([], cs)
      else res_bind (format_spec (if c = lbrace then Suc n else if c = rbrace then n - 1 else n) cs)
        (\<lambda>(s, rest). Inr (c # s, rest)))"

definition parse_field :: "string \<Rightarrow> (segment \<times> string) result" where
  "parse_field s =
     res_bind (field_name s) (\<lambda>(n, stop, rest).
       if stop = Some (CHR ''!'') then
         (case rest of
            [] \<Rightarrow> fmt_error ''end of string while looking for conversion specifier''
          | [c] \<Rightarrow> fmt_error ''unmatched '{' in format spec''
          | c # d # ds \<Rightarrow>
              if d = rbrace then Inr (Field n (Some c) [], ds)
              else if d \<noteq> CHR '':'' then fmt_error ''expected ':' after conversion specifier''
              else res_bind (format_spec 1 ds) (\<lambda>(spec, rest'). Inr (Field n (Some c) spec, rest')))
       else if stop = Some (CHR '':'') then
         res_bind (format_spec 1 rest) (\<lambda>(spec, rest'). Inr (Field n None spec, rest'))
       else if stop = Some rbrace then Inr (Field n None [], rest)
       else fmt_error ''expected '}' before end of string'')"

text \<open>The template, with fuel for its length (every round consumes a character).\<close>

fun literal_run :: "string \<Rightarrow> string \<times> string" where
  "literal_run [] = ([], [])"
| "literal_run (c # cs) =
     (if c = lbrace \<or> c = rbrace then ([], c # cs)
      else (case literal_run cs of (a, r) \<Rightarrow> (c # a, r)))"

fun parse_segments :: "nat \<Rightarrow> string \<Rightarrow> segment list result" where
  "parse_segments 0 s = Inr []"
| "parse_segments (Suc fuel) s =
     (if s = [] then Inr []
      else (case literal_run s of
          (lit, []) \<Rightarrow> Inr [Lit lit]
        | (lit, [c]) \<Rightarrow>
            if c = rbrace then fmt_error ''Single '}' encountered in format string''
            else fmt_error ''Single '{' encountered in format string''
        | (lit, c # d # ds) \<Rightarrow>
            if d = c then res_bind (parse_segments fuel ds) (\<lambda>segs. Inr (Lit (lit @ [c]) # segs))
            else if c = rbrace then fmt_error ''Single '}' encountered in format string''
            else res_bind (parse_field (d # ds)) (\<lambda>(f, rest).
              res_bind (parse_segments fuel rest) (\<lambda>segs. Inr (Lit lit # f # segs)))))"

definition parse_template :: "string \<Rightarrow> segment list result" where
  "parse_template s = parse_segments (length s) s"

fun field_names :: "segment list \<Rightarrow> string list" where
  "field_names [] = []"
| "field_names (Lit l # segs) = field_names segs"
| "field_names (Field n c spec # segs) = n # field_names segs"

definition plain_name :: "string \<Rightarrow> bool" where
  "plain_name n \<longleftrightarrow> n \<noteq> [] \<and> \<not> list_all is_digit n \<and> CHR ''.'' \<notin> set n \<and> CHR ''['' \<notin> set n"

type_synonym rich_format = "json dict \<Rightarrow> string \<Rightarrow> char option \<Rightarrow> string \<Rightarrow> string result"

fun format_segment :: "rich_format \<Rightarrow> json dict \<Rightarrow> segment \<Rightarrow> string result" where
  "format_segment rich vars (Lit l) = Inr l"
| "format_segment rich vars (Field n conv spec) =
     (if plain_name n \<and> conv = None \<and> spec = []
      then (case dict_get vars n of
              None \<Rightarrow> Inl (Exn KeyError n)
            | Some v \<Rightarrow> Inr (py_str v))
      else rich vars n conv spec)"

fun format_segments :: "rich_format \<Rightarrow> json dict \<Rightarrow> segment list \<Rightarrow> string result" where
  "format_segments rich vars [] = Inr []"
| "format_segments rich vars (seg # segs) =
     res_bind (format_segment rich vars seg) (\<lambda>a.
       res_bind (format_segments rich vars segs) (\<lambda>b. Inr (a @ b)))"

text \<open>\<open>template.format(**vars)\<close>\<close>

definition str_format :: "rich_format \<Rightarrow> string \<Rightarrow> json dict \<Rightarrow> string result" where
  "str_format rich template vars = res_bind (parse_template template) (format_segments rich vars)"

section \<open>Configuration\<close>

datatype event_entry = EventName string | EventTrigger (et_event: string) (et_filters: "json dict")

record conversation_config =
  cc_persist :: bool
  cc_ttl_hours :: int
  cc_max_turns :: int
  cc_auto_continue :: bool
  cc_summary_fallback :: bool

definition default_conversation :: conversation_config where
  "default_conversation = \<lparr>cc_persist = False, cc_ttl_hours = 720, cc_max_turns = 50,
     cc_auto_continue = False, cc_summary_fallback = True\<rparr>"

record workflow =
  wf_events :: "event_entry list"
  wf_commands :: "string list"
  wf_filters :: "json dict"
  wf_template :: string
  wf_system_context :: "string option"
  wf_description :: string
  wf_skip_self :: bool
  wf_context :: "json dict"
  wf_conversation :: conversation_config
  wf_streaming :: bool

fun normalize_trigger :: "event_entry \<Rightarrow> string \<times> json dict" where
  "normalize_trigger (EventName e) = (e, [])"
| "normalize_trigger (EventTrigger e fs) = (e, fs)"

record engine =
  en_workflows :: "workflow dict"
  en_event_map :: "string list dict"
  en_command_map :: "string dict"
  en_event_filters :: "((string \<times> string) \<times> json dict) list"

section \<open>Validation\<close>

definition is_slug_char :: "char \<Rightarrow> bool" where
  "is_slug_char c \<longleftrightarrow> CHR ''a'' \<le> c \<and> c \<le> CHR ''z'' \<or> is_digit c"

text \<open>The regular expression; \<open>$\<close> also matches before a final newline.\<close>

definition is_slug :: "string \<Rightarrow> bool" where
  "is_slug s \<longleftrightarrow> list_all (\<lambda>p. p \<noteq> [] \<and> list_all is_slug_char p) (str_split CHR ''-'' s)"

definition name_matches :: "string \<Rightarrow> bool" where
  "name_matches s \<longleftrightarrow> is_slug s \<or> (s \<noteq> [] \<and> List.last s = CHR 0x0A \<and> is_slug (butlast s))"

definition check_name :: "string \<Rightarrow> unit result" where
  "check_name name =
     (if \<not> name_matches name then Inl (Exn ValueError (''Invalid workflow name '' @ name))
      else if length name > 50 then Inl (Exn ValueError (''Workflow name too long '' @ name))
      else if name \<in> set [''test'', ''debug'', ''admin'', ''system'']
           then Inl (Exn ValueError (''Workflow name is reserved '' @ name))
      else Inr ())"

fun check_all :: "('a \<Rightarrow> unit result) \<Rightarrow> 'a list \<Rightarrow> unit result" where
  "check_all f [] = Inr ()"
| "check_all f (x # xs) = res_bind (f x) (\<lambda>_. check_all f xs)"

definition validate_workflow_names :: "workflow dict \<Rightarrow> unit result" where
  "validate_workflow_names ws = check_all check_name (map fst ws)"

definition is_md :: "string \<Rightarrow> bool" where
  "is_md s = str_endswith s ''.md''"

definition validate_system_context_files :: "(string \<Rightarrow> bool) \<Rightarrow> workflow dict \<Rightarrow> unit result" where
  "validate_system_context_files file_exists ws =
     check_all (\<lambda>(name, w).
       let sc = opt_default [] (wf_system_context w) in
       if sc \<noteq> [] \<and> is_md sc \<and> \<not> file_exists sc
       then Inl (Exn FileNotFoundError (name @ '' references non-existent system context file: '' @ sc))
       else Inr ()) ws"

definition valid_placeholders :: "string list" where
  "valid_placeholders = [''repo'', ''issue_number'', ''user_query'']"

definition check_text :: "string \<Rightarrow> string \<Rightarrow> string \<Rightarrow> unit result" where
  "check_text name what text =
     (case parse_template text of
        Inl e \<Rightarrow> Inl (Exn ValueError (name @ '' has invalid '' @ what @ '' syntax: '' @ exc_msg e))
      | Inr segs \<Rightarrow>
          if list_all (\<lambda>f. f \<in> set valid_placeholders) (field_names segs) then Inr ()
          else Inl (Exn ValueError (name @ '' '' @ what @ '' uses unknown placeholders'')))"

definition check_templates :: "string \<times> workflow \<Rightarrow> unit result" where
  "check_templates nw =
     (case nw of (name, w) \<Rightarrow>
        if wf_template w = [] then Inl (Exn ValueError (name @ '' has empty template''))
        else res_bind (check_text name ''template'' (wf_template w)) (\<lambda>_.
          let sc = opt_default [] (wf_system_context w) in
          if sc \<noteq> [] \<and> \<not> is_md sc then check_text name ''system_context'' sc else Inr ()))"

definition validate_templates :: "workflow dict \<Rightarrow> unit result" where
  "validate_templates ws = check_all check_templates ws"

section \<open>Building the tables\<close>

definition append_to :: "string \<Rightarrow> 'a \<Rightarrow> 'a list dict \<Rightarrow> 'a list dict" where
  "append_to k x m = dict_set k (opt_default [] (dict_get m k) @ [x]) m"

definition add_event :: "string \<Rightarrow> engine \<Rightarrow> event_entry \<Rightarrow> engine" where
  "add_event name eng entry =
     (case normalize_trigger entry of (ev, fs) \<Rightarrow>
        eng\<lparr>en_event_map := append_to ev name (en_event_map eng),
            en_event_filters := (if fs \<noteq> [] then AList.update (name, ev) fs (en_event_filters eng)
                                 else en_event_filters eng)\<rparr>)"

definition add_command :: "string \<Rightarrow> engine \<Rightarrow> string \<Rightarrow> engine" where
  "add_command name eng command = eng\<lparr>en_command_map := dict_set command name (en_command_map eng)\<rparr>"

definition add_workflow :: "engine \<Rightarrow> string \<times> workflow \<Rightarrow> engine" where
  "add_workflow eng nw =
     (case nw of (name, w) \<Rightarrow>
        foldl (add_command name) (foldl (add_event name) eng (wf_events w)) (wf_commands w))"

definition build_tables :: "workflow dict \<Rightarrow> engine" where
  "build_tables ws =
     foldl add_workflow
       \<lparr>en_workflows = ws, en_event_map = [], en_command_map = [], en_event_filters = []\<rparr> ws"

definition init_engine :: "(string \<Rightarrow> bool) \<Rightarrow> workflow dict \<Rightarrow> engine result" where
  "init_engine file_exists ws =
     res_bind (validate_workflow_names ws) (\<lambda>_.
       let eng = build_tables ws in
       res_bind (validate_system_context_files file_exists ws) (\<lambda>_.
         res_bind (validate_templates ws) (\<lambda>_. Inr eng)))"

section \<open>Routing and filters\<close>

definition get_workflow_for_event :: "engine \<Rightarrow> string \<Rightarrow> string option \<Rightarrow> string list" where
  "get_workflow_for_event eng event_type action =
     (let key = event_type @ ''.'' @ opt_default [] action in
      if opt_default [] action \<noteq> [] \<and> dict_get (en_event_map eng) key \<noteq> None
      then opt_default [] (dict_get (en_event_map eng) key)
      else opt_default [] (dict_get (en_event_map eng) event_type))"

definition should_skip_self :: "engine \<Rightarrow> string \<Rightarrow> string \<Rightarrow> string \<Rightarrow> bool" where
  "should_skip_self eng workflow_name event_actor bot_username =
     (case dict_get (en_workflows eng) workflow_name of
        None \<Rightarrow> True
      | Some w \<Rightarrow> wf_skip_self w \<and> event_actor = bot_username)"

definition get_workflow_for_command :: "engine \<Rightarrow> string \<Rightarrow> string option" where
  "get_workflow_for_command eng command = dict_get (en_command_map eng) command"

definition filter_matches :: "json \<Rightarrow> string \<times> json \<Rightarrow> bool" where
  "filter_matches payload pe =
     py_in_list (resolve_path payload (fst pe))
       (case snd pe of JArr xs \<Rightarrow> xs | e \<Rightarrow> [e])"

definition check_filters :: "engine \<Rightarrow> string \<Rightarrow> json \<Rightarrow> string option \<Rightarrow> bool" where
  "check_filters eng workflow_name payload event_key =
     (case dict_get (en_workflows eng) workflow_name of
        None \<Rightarrow> False
      | Some w \<Rightarrow>
          (let ek = opt_default [] event_key;
               filters = (case map_of (en_event_filters eng) (workflow_name, ek) of
                  Some fs \<Rightarrow> if ek \<noteq> [] then fs else wf_filters w
                | None \<Rightarrow> wf_filters w)
           in list_all (filter_matches payload) filters))"

section \<open>Prompts\<close>

definition escape_query :: "string \<Rightarrow> string" where
  "escape_query q = str_replace_char rbrace [rbrace, rbrace] (str_replace_char lbrace [lbrace, lbrace] q)"

definition issue_text :: "int option \<Rightarrow> json" where
  "issue_text n = (case n of None \<Rightarrow> JStr [] | Some i \<Rightarrow> if i = 0 then JStr [] else JInt i)"

definition prompt_vars :: "string \<Rightarrow> int option \<Rightarrow> string \<Rightarrow> json dict \<Rightarrow> json dict" where
  "prompt_vars repo issue_number user_query kwargs =
     dict_update [(''repo'', JStr repo), (''issue_number'', issue_text issue_number),
       (''user_query'', JStr (escape_query user_query))] kwargs"

definition fill_template :: "rich_format \<Rightarrow> string \<Rightarrow> json dict \<Rightarrow> string result" where
  "fill_template rich template vars =
     res_bind (parse_template template) (\<lambda>segs.
       if list_all (\<lambda>f. dict_get vars f \<noteq> None) (field_names segs)
       then str_format rich template vars
       else fmt_error ''Template requires a field that was not provided'')"

text \<open>\<open>except (KeyError, ValueError)\<close> wraps the error; any other passes.\<close>

definition wrap_template_error :: "string \<Rightarrow> 'a result \<Rightarrow> 'a result" where
  "wrap_template_error name r =
     (case r of
        Inl e \<Rightarrow>
          if exc_isinstance e KeyError \<or> exc_isinstance e ValueError
          then Inl (Exn ValueError (''Invalid template in workflow '' @ name @ '': '' @ exc_msg e))
          else Inl e
      | Inr x \<Rightarrow> Inr x)"

text \<open>Reading a context file, with the errors as they are re-raised.\<close>

definition load_context :: "(string \<Rightarrow> string result) \<Rightarrow> string \<Rightarrow> string result" where
  "load_context read path =
     (case read path of
        Inr t \<Rightarrow> Inr (str_strip t)
      | Inl e \<Rightarrow>
          if exc_isinstance e FileNotFoundError
          then Inl (Exn FileNotFoundError (''System context file missing: '' @ path))
          else if exc_isinstance e PermissionError
          then Inl (Exn PermissionError (''Cannot read system context file: '' @ path))
          else if exc_isinstance e UnicodeDecodeError
          then Inl (Exn ValueError (''System context file has invalid encoding: '' @ path))
          else if exc_isinstance e OSError
          then Inl (Exn OSError (''Failed to read system context file: '' @ path))
          else Inl e)"

definition system_context ::
  "rich_format \<Rightarrow> (string \<Rightarrow> string result) \<Rightarrow> workflow \<Rightarrow> string \<Rightarrow> int option \<Rightarrow> json dict \<Rightarrow> string option result" where
  "system_context rich read w repo issue_number kwargs =
     (let sc = opt_default [] (wf_system_context w) in
      if sc = [] then Inr None
      else res_bind (if is_md sc then load_context read sc else Inr sc) (\<lambda>sc.
        if sc = [] then Inr None
        else (case str_format rich sc
                 (dict_update [(''repo'', JStr repo), (''issue_number'', issue_text issue_number)] kwargs) of
                Inr t \<Rightarrow> Inr (Some t)
              | Inl e \<Rightarrow>
                  if exc_isinstance e KeyError \<or> exc_isinstance e ValueError then Inr None else Inl e)))"

definition build_prompt ::
  "rich_format \<Rightarrow> (string \<Rightarrow> string result) \<Rightarrow> engine \<Rightarrow> string \<Rightarrow> string \<Rightarrow> int option \<Rightarrow> string \<Rightarrow> json dict \<Rightarrow>
   (string \<times> string option) result" where
  "build_prompt rich read eng workflow_name repo issue_number user_query kwargs =
     (case dict_get (en_workflows eng) workflow_name of
        None \<Rightarrow> Inl (Exn ValueError (''Unknown workflow: '' @ workflow_name))
      | Some w \<Rightarrow>
          res_bind (wrap_template_error workflow_name
              (fill_template rich (wf_template w) (prompt_vars repo issue_number user_query kwargs)))
            (\<lambda>prompt.
          res_bind (system_context rich read w repo issue_number kwargs) (\<lambda>ctx.
            Inr (if user_query \<noteq> [] \<and> \<not> str_contains ''{user_query}'' (wf_template w)
                 then prompt @ ''. '' @ user_query else prompt, ctx))))"

definition list_workflows :: "engine \<Rightarrow> string dict" where
  "list_workflows eng =
     map (\<lambda>(name, w). (name, if wf_description w = [] then ''No description'' else wf_description w))
       (en_workflows eng)"

definition get_context_profile :: "engine \<Rightarrow> string \<Rightarrow> json dict" where
  "get_context_profile eng workflow_name =
     (case dict_get (en_workflows eng) workflow_name of None \<Rightarrow> [] | Some w \<Rightarrow> wf_context w)"

definition get_conversation_config :: "engine \<Rightarrow> string \<Rightarrow> conversation_config" where
  "get_conversation_config eng workflow_name =
     (case dict_get (en_workflows eng) workflow_name of
        None \<Rightarrow> default_conversation
      | Some w \<Rightarrow> wf_conversation w)"

section \<open>The tables agree with the configuration\<close>

text \<open>The workflows that list an event, in the order of the file.\<close>

definition listed :: "string \<times> workflow \<Rightarrow> string \<Rightarrow> string list" where
  "listed nw k = map (\<lambda>_. fst nw) (filter (\<lambda>e. fst (normalize_trigger e) = k) (wf_events (snd nw)))"

definition handlers :: "workflow dict \<Rightarrow> string \<Rightarrow> string list" where
  "handlers ws k = concat (map (\<lambda>nw. listed nw k) ws)"

lemma append_to_get: "opt_default [] (dict_get (append_to k x m) k') =
    opt_default [] (dict_get m k') @ (if k' = k then [x] else [])"
  by (simp add: append_to_def)

lemma append_to_None: "dict_get (append_to k x m) k' = None \<longleftrightarrow> dict_get m k' = None \<and> k' \<noteq> k"
  by (auto simp: append_to_def)

lemma add_event_map:
  "opt_default [] (dict_get (en_event_map (foldl (add_event n) eng es)) k) =
     opt_default [] (dict_get (en_event_map eng) k) @
       map (\<lambda>_. n) (filter (\<lambda>e. fst (normalize_trigger e) = k) es)"
  by (induction es arbitrary: eng) (auto simp: add_event_def append_to_get split: prod.split)

lemma add_event_None:
  "dict_get (en_event_map (foldl (add_event n) eng es)) k = None \<longleftrightarrow>
     dict_get (en_event_map eng) k = None \<and> filter (\<lambda>e. fst (normalize_trigger e) = k) es = []"
  by (induction es arbitrary: eng) (auto simp: add_event_def append_to_None split: prod.splits)

lemma add_commands_other [simp]:
  "en_event_map (foldl (add_command n) eng cs) = en_event_map eng"
  "en_event_filters (foldl (add_command n) eng cs) = en_event_filters eng"
  "en_workflows (foldl (add_command n) eng cs) = en_workflows eng"
  by (induction cs arbitrary: eng) (auto simp: add_command_def)

lemma add_events_other [simp]:
  "en_command_map (foldl (add_event n) eng es) = en_command_map eng"
  "en_workflows (foldl (add_event n) eng es) = en_workflows eng"
  by (induction es arbitrary: eng) (auto simp: add_event_def split: prod.split)

lemma add_workflows_event_map:
  "opt_default [] (dict_get (en_event_map (foldl add_workflow eng ws)) k) =
     opt_default [] (dict_get (en_event_map eng) k) @ handlers ws k"
  by (induction ws arbitrary: eng)
    (auto simp: add_workflow_def add_event_map handlers_def listed_def split: prod.split)

lemma add_workflows_None:
  "dict_get (en_event_map (foldl add_workflow eng ws)) k = None \<longleftrightarrow>
     dict_get (en_event_map eng) k = None \<and> handlers ws k = []"
  by (induction ws arbitrary: eng)
    (auto simp: add_workflow_def add_event_None handlers_def listed_def split: prod.split)

lemma add_workflows_keep [simp]: "en_workflows (foldl add_workflow eng ws) = en_workflows eng"
  by (induction ws arbitrary: eng) (auto simp: add_workflow_def split: prod.split)

lemma init_engine_tables: "init_engine ex ws = Inr eng \<Longrightarrow> eng = build_tables ws"
  by (auto simp: init_engine_def res_bind_def split: sum.splits)

lemma en_workflows_build [simp]: "en_workflows (build_tables ws) = ws"
  by (simp add: build_tables_def)

text \<open>
  An event is routed to the workflows whose triggers list \<open>event.action\<close>, in the order of the
  configuration; only when there is none, to those that list the bare event.
\<close>

theorem events_routed_as_configured:
  assumes "init_engine file_exists ws = Inr eng"
  shows "get_workflow_for_event eng event_type action =
    (if opt_default [] action \<noteq> [] \<and> handlers ws (event_type @ ''.'' @ opt_default [] action) \<noteq> []
     then handlers ws (event_type @ ''.'' @ opt_default [] action) else handlers ws event_type)"
  using init_engine_tables [OF assms]
    add_workflows_event_map [of "\<lparr>en_workflows = ws, en_event_map = [], en_command_map = [], en_event_filters = []\<rparr>" ws]
    add_workflows_None [of "\<lparr>en_workflows = ws, en_event_map = [], en_command_map = [], en_event_filters = []\<rparr>" ws]
  by (simp add: get_workflow_for_event_def build_tables_def Let_def)

definition sample_workflow :: workflow where
  "sample_workflow = \<lparr>wf_events = [EventName ''pull_request.opened'',
       EventTrigger ''check_run'' [(''check_run.status'', JStr ''completed'')]],
     wf_commands = [''/review''], wf_filters = [], wf_template = ''Review {repo}: {user_query}'',
     wf_system_context = Some ''You help {user_query}'', wf_description = [], wf_skip_self = True,
     wf_context = [], wf_conversation = default_conversation, wf_streaming = False\<rparr>"

lemma sample_parse:
  "parse_template ''Review {repo}: {user_query}'' =
     Inr [Lit ''Review '', Field ''repo'' None [], Lit '': '', Field ''user_query'' None []]"
  "parse_template ''You help {user_query}'' = Inr [Lit ''You help '', Field ''user_query'' None []]"
  by (code_simp, code_simp)

lemma sample_init: "init_engine (\<lambda>_. True) [(''review-pr'', sample_workflow)] =
    Inr (build_tables [(''review-pr'', sample_workflow)])"
proof -
  have "check_name ''review-pr'' = Inr ()" "\<not> is_md ''You help {user_query}''" by code_simp+
  then show ?thesis
    by (simp add: init_engine_def validate_workflow_names_def validate_system_context_files_def
        validate_templates_def check_templates_def check_text_def res_bind_def sample_parse
        valid_placeholders_def sample_workflow_def)
qed

theorem events_routed_as_configured_witness:
  "get_workflow_for_event (build_tables [(''review-pr'', sample_workflow)]) ''pull_request'' (Some ''opened'') =
     [''review-pr'']"
  using events_routed_as_configured [OF sample_init, of "''pull_request''" "Some ''opened''"]
  by (simp add: handlers_def listed_def sample_workflow_def)

lemma add_commands_get:
  "dict_get (en_command_map (foldl (add_command n) eng cs)) c =
     (if c \<in> set cs then Some n else dict_get (en_command_map eng) c)"
  by (induction cs arbitrary: eng) (auto simp: add_command_def)

lemma add_workflows_command:
  "dict_get (en_command_map (foldl add_workflow eng ws)) c =
     (case filter (\<lambda>nw. c \<in> set (wf_commands (snd nw))) ws of
        [] \<Rightarrow> dict_get (en_command_map eng) c
      | x # xs \<Rightarrow> Some (fst (List.last (x # xs))))"
  by (induction ws arbitrary: eng) (auto simp: add_workflow_def add_commands_get split: prod.split list.split)

text \<open>
  A command runs the last workflow of the configuration that declares it, and no workflow
  when none does.
\<close>

theorem commands_routed_as_configured:
  assumes "init_engine file_exists ws = Inr eng"
  shows "get_workflow_for_command eng c =
    (case filter (\<lambda>nw. c \<in> set (wf_commands (snd nw))) ws of
       [] \<Rightarrow> None | x # xs \<Rightarrow> Some (fst (List.last (x # xs))))"
  using init_engine_tables [OF assms] by (simp add: get_workflow_for_command_def build_tables_def add_workflows_command
      split: list.split)

theorem commands_routed_as_configured_witness:
  "get_workflow_for_command (build_tables [(''review-pr'', sample_workflow)]) ''/review'' = Some ''review-pr''"
  using commands_routed_as_configured [OF sample_init, of "''/review''"] by (simp add: sample_workflow_def)

section \<open>Filters\<close>

text \<open>The filters that apply to an event: those of the last of its triggers that has any, else the workflow's.\<close>

definition event_triggers :: "workflow \<Rightarrow> string \<Rightarrow> (string \<times> json dict) list" where
  "event_triggers w ev = filter (\<lambda>t. fst t = ev \<and> snd t \<noteq> []) (map normalize_trigger (wf_events w))"

definition effective_filters :: "workflow \<Rightarrow> string \<Rightarrow> json dict" where
  "effective_filters w ev =
     (case event_triggers w ev of [] \<Rightarrow> wf_filters w | t # ts \<Rightarrow> snd (List.last (t # ts)))"

lemma add_events_filters:
  "map_of (en_event_filters (foldl (add_event n) eng es)) (m, ev) =
     (case filter (\<lambda>t. fst t = ev \<and> snd t \<noteq> []) (map normalize_trigger es) of
        [] \<Rightarrow> map_of (en_event_filters eng) (m, ev)
      | t # ts \<Rightarrow> if m = n then Some (snd (List.last (t # ts))) else map_of (en_event_filters eng) (m, ev))"
  by (induction es arbitrary: eng)
    (auto simp: add_event_def AList.update_conv' split: prod.splits list.splits)

lemma add_workflows_filters:
  "distinct (map fst ws) \<Longrightarrow> map_of (en_event_filters (foldl add_workflow eng ws)) (m, ev) =
     (case dict_get ws m of
        None \<Rightarrow> map_of (en_event_filters eng) (m, ev)
      | Some w \<Rightarrow>
          (case event_triggers w ev of
             [] \<Rightarrow> map_of (en_event_filters eng) (m, ev)
           | t # ts \<Rightarrow> Some (snd (List.last (t # ts)))))"
proof (induction ws arbitrary: eng)
  case (Cons nw ws)
  obtain n w where nw: "nw = (n, w)" by (cases nw)
  have "dict_get ws n = None" using Cons.prems nw by (simp add: map_of_eq_None_iff)
  with Cons nw show ?case
    by (auto simp: add_workflow_def add_events_filters event_triggers_def split: list.split option.split)
qed simp

text \<open>
  A payload passes the filters of a workflow for an event exactly when the workflow exists and
  the payload's value at every dotted path of the applicable filters is the expected value, or one
  of them when a list is given; filters on the event's own trigger replace the workflow's.
\<close>

theorem filters_applied_as_configured:
  assumes "init_engine file_exists ws = Inr eng" "distinct (map fst ws)" "ev \<noteq> []"
  shows "check_filters eng name payload (Some ev) \<longleftrightarrow>
    (\<exists>w. dict_get ws name = Some w \<and>
       (\<forall>(path, expected) \<in> set (effective_filters w ev).
          py_in_list (resolve_path payload path) (case expected of JArr xs \<Rightarrow> xs | e \<Rightarrow> [e])))"
proof -
  have tab: "map_of (en_event_filters eng) (name, ev) =
      (case dict_get ws name of None \<Rightarrow> None
       | Some w \<Rightarrow> (case event_triggers w ev of [] \<Rightarrow> None | t # ts \<Rightarrow> Some (snd (List.last (t # ts)))))"
    using init_engine_tables [OF assms(1)]
    by (simp add: build_tables_def add_workflows_filters [OF assms(2)] split: option.split list.split)
  have ws: "en_workflows eng = ws" using init_engine_tables [OF assms(1)] by simp
  show ?thesis
  proof (cases "dict_get ws name")
    case (Some w)
    then have "check_filters eng name payload (Some ev) = list_all (filter_matches payload) (effective_filters w ev)"
      using assms(3) by (simp add: check_filters_def ws tab effective_filters_def split: list.split)
    with Some show ?thesis by (auto simp: list_all_iff filter_matches_def case_prod_beta)
  qed (simp add: check_filters_def ws)
qed

theorem filters_applied_as_configured_witness:
  "check_filters (build_tables [(''review-pr'', sample_workflow)]) ''review-pr''
     (JObj [(''check_run'', JObj [(''status'', JStr ''completed'')])]) (Some ''check_run'')"
proof -
  have "effective_filters sample_workflow ''check_run'' = [(''check_run.status'', JStr ''completed'')]"
    by (simp add: effective_filters_def event_triggers_def sample_workflow_def)
  moreover have "py_in_list (resolve_path (JObj [(''check_run'', JObj [(''status'', JStr ''completed'')])])
      ''check_run.status'') [JStr ''completed'']" by code_simp
  ultimately show ?thesis
    using filters_applied_as_configured [OF sample_init, of "''check_run''" "''review-pr''"
      "JObj [(''check_run'', JObj [(''status'', JStr ''completed'')])]"] by simp
qed

section \<open>Prompts\<close>

definition plain_segment :: "segment \<Rightarrow> bool" where
  "plain_segment seg = (case seg of Lit l \<Rightarrow> True | Field n conv spec \<Rightarrow> conv = None \<and> spec = [])"

definition plain_template :: "string \<Rightarrow> bool" where
  "plain_template t = (case parse_template t of Inl e \<Rightarrow> False | Inr segs \<Rightarrow> list_all plain_segment segs)"

lemma check_all_ok: "check_all f xs = Inr () \<Longrightarrow> x \<in> set xs \<Longrightarrow> f x = Inr ()"
  by (induction xs) (auto simp: res_bind_def split: sum.splits)

lemma valid_placeholder_plain: "f \<in> set valid_placeholders \<Longrightarrow> plain_name f"
  by (auto simp: valid_placeholders_def plain_name_def is_digit_def)

lemma format_plain:
  assumes "list_all plain_segment segs" "\<forall>f \<in> set (field_names segs). plain_name f \<and> dict_get vars f \<noteq> None"
  shows "format_segments rich vars segs = Inr (concat (map (\<lambda>s. case s of Lit l \<Rightarrow> l
     | Field n c sp \<Rightarrow> py_str (opt_default JNull (dict_get vars n))) segs))"
  using assms by (induction segs rule: field_names.induct) (auto simp: plain_segment_def res_bind_def)

lemma check_text_ok:
  "check_text name what t = Inr () \<Longrightarrow>
   \<exists>segs. parse_template t = Inr segs \<and> (\<forall>f \<in> set (field_names segs). f \<in> set valid_placeholders)"
  by (auto simp: check_text_def list_all_iff split: sum.splits if_splits)

lemma init_engine_checked:
  assumes "init_engine file_exists ws = Inr eng" "dict_get ws name = Some w"
  shows "\<exists>segs. parse_template (wf_template w) = Inr segs \<and>
      (\<forall>f \<in> set (field_names segs). f \<in> set valid_placeholders)"
    and "wf_system_context w = Some sc \<Longrightarrow> sc \<noteq> [] \<Longrightarrow> \<not> is_md sc \<Longrightarrow>
      \<exists>segs. parse_template sc = Inr segs \<and> (\<forall>f \<in> set (field_names segs). f \<in> set valid_placeholders)"
proof -
  have "validate_templates ws = Inr ()"
    using assms(1) by (auto simp: init_engine_def res_bind_def Let_def split: sum.splits)
  then have c: "check_templates (name, w) = Inr ()"
    using check_all_ok map_of_SomeD [OF assms(2)] unfolding validate_templates_def by fast
  then have "check_text name ''template'' (wf_template w) = Inr ()"
    by (auto simp: check_templates_def res_bind_def Let_def split: if_splits sum.splits)
  then show "\<exists>segs. parse_template (wf_template w) = Inr segs \<and>
      (\<forall>f \<in> set (field_names segs). f \<in> set valid_placeholders)" by (rule check_text_ok)
  show "\<exists>segs. parse_template sc = Inr segs \<and> (\<forall>f \<in> set (field_names segs). f \<in> set valid_placeholders)"
    if "wf_system_context w = Some sc" "sc \<noteq> []" "\<not> is_md sc"
    using c that by (intro check_text_ok [of name "''system_context''"])
      (auto simp: check_templates_def res_bind_def Let_def split: if_splits sum.splits)
qed

lemma prompt_vars_get:
  "dict_get (prompt_vars repo n q []) f =
     (if f = ''repo'' then Some (JStr repo) else if f = ''issue_number'' then Some (issue_text n)
      else if f = ''user_query'' then Some (JStr (escape_query q)) else None)"
  by (simp add: prompt_vars_def dict_update_def)

definition prompt_text :: "string \<Rightarrow> int option \<Rightarrow> string \<Rightarrow> segment list \<Rightarrow> string" where
  "prompt_text repo n q segs = concat (map (\<lambda>s. case s of Lit l \<Rightarrow> l
     | Field f c sp \<Rightarrow> if f = ''repo'' then repo else if f = ''issue_number'' then py_str (issue_text n)
         else escape_query q) segs)"

lemma prompt_filled:
  assumes "init_engine file_exists ws = Inr eng" "dict_get ws name = Some w" "plain_template (wf_template w)"
  shows "\<exists>segs. parse_template (wf_template w) = Inr segs \<and>
    fill_template rich (wf_template w) (prompt_vars repo n q []) = Inr (prompt_text repo n q segs)"
proof -
  obtain segs where segs: "parse_template (wf_template w) = Inr segs"
    "\<forall>f \<in> set (field_names segs). f \<in> set valid_placeholders"
    using init_engine_checked(1) [OF assms(1,2)] by blast
  let ?vars = "prompt_vars repo n q []"
  have pl: "list_all plain_segment segs" using assms(3) segs(1) by (simp add: plain_template_def)
  have have_all: "\<forall>f \<in> set (field_names segs). plain_name f \<and> dict_get ?vars f \<noteq> None"
    using segs(2) valid_placeholder_plain by (auto simp: prompt_vars_get valid_placeholders_def)
  have "concat (map (\<lambda>s. case s of Lit l \<Rightarrow> l | Field m c sp \<Rightarrow>
      py_str (opt_default JNull (dict_get ?vars m))) segs) = prompt_text repo n q segs"
    using segs(2) unfolding prompt_text_def
    by (induction segs rule: field_names.induct) (auto simp: prompt_vars_get valid_placeholders_def)
  with format_plain [OF pl have_all] segs(1) have_all show ?thesis
    by (auto simp: fill_template_def str_format_def res_bind_def list_all_iff)
qed


definition query_workflow :: workflow where
  "query_workflow = sample_workflow\<lparr>wf_template := ''{repo}#{issue_number}'', wf_system_context := None\<rparr>"

lemma query_parse: "parse_template ''{repo}#{issue_number}'' =
    Inr [Lit [], Field ''repo'' None [], Lit ''#'', Field ''issue_number'' None []]"
  by code_simp

lemma query_init: "init_engine (\<lambda>_. True) [(''ask'', query_workflow)] = Inr (build_tables [(''ask'', query_workflow)])"
proof -
  have "check_name ''ask'' = Inr ()" by code_simp
  then show ?thesis
    by (simp add: init_engine_def validate_workflow_names_def validate_system_context_files_def
        validate_templates_def check_templates_def check_text_def res_bind_def query_parse
        valid_placeholders_def sample_workflow_def query_workflow_def)
qed


section \<open>Escaping\<close>

lemma escape_query_simps [simp]:
  "escape_query [] = []"
  "escape_query (c # cs) = (if c = lbrace \<or> c = rbrace then [c, c] else [c]) @ escape_query cs"
  by (auto simp: escape_query_def str_replace_char_def)

lemma escape_query_append: "escape_query (a @ b) = escape_query a @ escape_query b"
  by (induction a) simp_all

lemma escape_query_id: "lbrace \<notin> set q \<Longrightarrow> rbrace \<notin> set q \<Longrightarrow> escape_query q = q"
  by (induction q) auto

lemma literal_run_append:
  "lbrace \<notin> set a \<Longrightarrow> rbrace \<notin> set a \<Longrightarrow> b = [] \<or> hd b = lbrace \<or> hd b = rbrace \<Longrightarrow>
   literal_run (a @ b) = (a, b)"
proof (induction a)
  case Nil
  then show ?case by (cases b) auto
qed auto

lemma parse_escaped:
  "length (escape_query q) \<le> fuel \<Longrightarrow>
   \<exists>lits. parse_segments fuel (escape_query q) = Inr (map Lit lits) \<and> concat lits = q"
proof (induction "length q" arbitrary: q fuel rule: less_induct)
  case less
  define a where "a = takeWhile (\<lambda>c. c \<noteq> lbrace \<and> c \<noteq> rbrace) q"
  define b where "b = dropWhile (\<lambda>c. c \<noteq> lbrace \<and> c \<noteq> rbrace) q"
  have q: "q = a @ b" by (simp add: a_def b_def)
  have a: "lbrace \<notin> set a" "rbrace \<notin> set a" unfolding a_def by (auto dest: set_takeWhileD)
  have esc: "escape_query q = a @ escape_query b" using a by (simp add: q escape_query_append escape_query_id)
  show ?case
  proof (cases b)
    case Nil
    show ?thesis
    proof (cases "a = []")
      case True
      with Nil q esc show ?thesis by (intro exI [of _ "[]"]) (cases fuel; simp)
    next
      case False
      with Nil esc less.prems obtain f where "fuel = Suc f" by (cases fuel) auto
      with False Nil q esc literal_run_append [OF a, of "[]"] show ?thesis
        by (intro exI [of _ "[a]"]) simp
    qed
  next
    case (Cons c cs)
    have c: "c = lbrace \<or> c = rbrace"
      using Cons hd_dropWhile [of "\<lambda>c. c \<noteq> lbrace \<and> c \<noteq> rbrace" q] unfolding b_def by auto
    with esc Cons have e: "escape_query q = a @ c # c # escape_query cs" by auto
    with less.prems obtain f where f: "fuel = Suc f" "length (escape_query cs) \<le> f" by (cases fuel) auto
    have "length cs < length q" using q Cons by simp
    from less.hyps [OF this f(2)] obtain lits where
      l: "parse_segments f (escape_query cs) = Inr (map Lit lits)" "concat lits = cs" by blast
    have "literal_run (a @ c # c # escape_query cs) = (a, c # c # escape_query cs)"
      using c by (intro literal_run_append [OF a]) auto
    with l q Cons f(1) e show ?thesis
      by (intro exI [of _ "(a @ [c]) # lits"]) (simp add: res_bind_def)
  qed
qed

lemma format_lits: "format_segments rich vars (map Lit lits) = Inr (concat lits)"
  by (induction lits) (simp_all add: res_bind_def)

text \<open>
  Doubling the braces of a text makes it inert as a template: formatting the escaped text gives
  back the text, whatever the variables, so that no placeholder of it is ever filled.
\<close>

theorem escaped_text_is_inert: "str_format rich (escape_query q) vars = Inr q"
  using parse_escaped [of q "length (escape_query q)"] format_lits [of rich vars]
  by (auto simp: str_format_def parse_template_def res_bind_def)

text \<open>
  But \<open>build_prompt\<close> inserts the escaped query as a value, which is not formatted again: the
  agent reads every brace of the user's query twice.
\<close>

theorem query_braces_doubled:
  "build_prompt rich read (build_tables [(''ask'', sample_workflow\<lparr>wf_system_context := None\<rparr>)]) ''ask'' ''o/r''
     None ''fix f() { }'' [] = Inr (''Review o/r: fix f() {{ }}'', None)"
proof -
  have "str_contains ''{user_query}'' ''Review {repo}: {user_query}''" by code_simp
  moreover have "plain_name ''repo''" "plain_name ''user_query''"
    by (simp_all add: plain_name_def is_digit_def)
  ultimately show ?thesis
    by (simp add: build_prompt_def sample_workflow_def fill_template_def str_format_def res_bind_def sample_parse
        prompt_vars_get wrap_template_error_def system_context_def)
qed

text \<open>
  A system context that mentions \<open>{user_query}\<close> passes the validation of every engine, but is
  then dropped from each prompt, because it is formatted without that variable.
\<close>

theorem context_with_query_dropped:
  assumes "init_engine file_exists ws = Inr eng" "dict_get ws name = Some w"
    and "plain_template (wf_template w)" "wf_system_context w = Some sc" "sc \<noteq> []" "\<not> is_md sc"
    and "parse_template sc = Inr segs" "list_all plain_segment segs" "''user_query'' \<in> set (field_names segs)"
  shows "\<exists>prompt. build_prompt rich read eng name repo n q [] = Inr (prompt, None)"
proof -
  let ?vars = "dict_update [(''repo'', JStr repo), (''issue_number'', issue_text n)] []"
  have vars: "dict_get ?vars ''user_query'' = None" by (simp add: dict_update_def)
  have pl: "plain_name f" if "f \<in> set (field_names segs)" for f
    using init_engine_checked(2) [OF assms(1,2,4-6)] assms(7) that valid_placeholder_plain by auto
  have "\<exists>m. format_segments rich ?vars segs = Inl (Exn KeyError m)"
    using assms(8,9) pl
  proof (induction segs rule: field_names.induct)
    case (3 f c sp segs)
    then show ?case
      using vars by (cases "dict_get ?vars f") (auto simp: plain_segment_def res_bind_def)
  qed (auto simp: res_bind_def)
  then have "system_context rich read w repo n [] = Inr None"
    using assms(4-7) by (auto simp: system_context_def res_bind_def str_format_def)
  moreover have "en_workflows eng = ws" using init_engine_tables [OF assms(1)] by simp
  ultimately show ?thesis
    using assms(2) prompt_filled [OF assms(1-3), of rich repo n q]
    by (auto simp: build_prompt_def wrap_template_error_def res_bind_def)
qed

theorem context_with_query_dropped_witness:
  "\<exists>prompt. build_prompt (\<lambda>_ _ _ _. Inr []) (\<lambda>_. Inr []) (build_tables [(''review-pr'', sample_workflow)])
     ''review-pr'' ''o/r'' None ''q'' [] = Inr (prompt, None)"
proof -
  have "\<not> is_md ''You help {user_query}''" by code_simp
  then show ?thesis
    by (intro context_with_query_dropped [OF sample_init, of _ sample_workflow "''You help {user_query}''"
        "[Lit ''You help '', Field ''user_query'' None []]"])
      (simp_all add: sample_workflow_def plain_template_def sample_parse plain_segment_def)
qed

end
