(* ===== verification/Payload_Extractor.thy ===== *)
theory Payload_Extractor
  imports Json_Value
begin

text \<open>
  \<^verbatim>\<open>services/webhook/payload_extractor.py\<close> with the table of
  \<^verbatim>\<open>services/webhook/extraction_rules.py\<close>: which fields of a webhook payload become the
  issue number, git reference, user and extra data of a job. \<open>as_int\<close> is pydantic's conversion
  of a value to an integer.
\<close>

section \<open>Rules\<close>

record extraction_rule =
  er_path :: string
  er_required :: bool
  er_default :: json

record extraction_config =
  ec_issue_number :: "extraction_rule option"
  ec_ref :: "extraction_rule option"
  ec_user :: extraction_rule
  ec_extra :: "extraction_rule dict"

record extracted_fields =
  ef_issue_number :: "int option"
  ef_ref :: string
  ef_user :: string
  ef_extra :: "json dict"

definition rule :: "string \<Rightarrow> extraction_rule" where
  "rule p = \<lparr>er_path = p, er_required = False, er_default = JNull\<rparr>"

definition required_rule :: "string \<Rightarrow> extraction_rule" where
  "required_rule p = \<lparr>er_path = p, er_required = True, er_default = JNull\<rparr>"

definition default_user :: extraction_rule where
  "default_user = rule ''sender.login''"

definition event_config ::
  "extraction_rule option \<Rightarrow> extraction_rule option \<Rightarrow> extraction_rule \<Rightarrow> extraction_rule dict \<Rightarrow> extraction_config" where
  "event_config n r u ex = \<lparr>ec_issue_number = n, ec_ref = r, ec_user = u, ec_extra = ex\<rparr>"

definition THREAD_RULES :: "extraction_config dict" where
  "THREAD_RULES = [
      (''pull_request'', event_config (Some (required_rule ''pull_request.number'')) (Some (rule
         ''pull_request.number'')) (rule ''pull_request.user.login'') []),
      (''pull_request_review'', event_config (Some (required_rule ''pull_request.number'')) (Some
         (rule ''pull_request.number'')) (rule ''review.user.login'') []),
      (''pull_request_review_comment'', event_config (Some (required_rule ''pull_request.number''))
         (Some (rule ''pull_request.number'')) (rule ''comment.user.login'') []),
      (''pull_request_review_thread'', event_config (Some (required_rule ''pull_request.number''))
         (Some (rule ''pull_request.number'')) default_user []),
      (''issues'', event_config (Some (required_rule ''issue.number'')) None (rule
         ''issue.user.login'') []),
      (''issue_comment'', event_config (Some (required_rule ''issue.number'')) None (rule
         ''comment.user.login'') []),
      (''sub_issues'', event_config (Some (rule ''sub_issue.number'')) None default_user
         [(''parent_issue_number'', (rule ''parent_issue.number''))]),
      (''discussion'', event_config (Some (rule ''discussion.number'')) None (rule
         ''discussion.user.login'') []),
      (''discussion_comment'', event_config (Some (rule ''discussion.number'')) None (rule
         ''comment.user.login'') [])]"

definition CI_RULES :: "extraction_config dict" where
  "CI_RULES = [
      (''workflow_job'', event_config (Some (rule ''workflow_job.run_id'')) (Some (rule
         ''workflow_job.head_branch'')) default_user [(''run_id'', (rule ''workflow_job.run_id'')),
         (''workflow_name_gh'', (rule ''workflow_job.workflow_name'')), (''job_name'', (rule
         ''workflow_job.name'')), (''conclusion'', (rule ''workflow_job.conclusion'')),
         (''head_branch'', (rule ''workflow_job.head_branch''))]),
      (''workflow_run'', event_config (Some (rule ''workflow_run.id'')) (Some (rule
         ''workflow_run.head_branch'')) default_user [(''run_id'', (rule ''workflow_run.id'')),
         (''workflow_name_gh'', (rule ''workflow_run.name'')), (''conclusion'', (rule
         ''workflow_run.conclusion'')), (''head_branch'', (rule ''workflow_run.head_branch''))]),
      (''workflow_dispatch'', event_config None (Some (rule ''ref'')) default_user [(''workflow'',
         (rule ''workflow'')), (''inputs'', (rule ''inputs''))]),
      (''check_run'', event_config (Some (rule ''check_run.check_suite.id'')) (Some (rule
         ''check_run.check_suite.head_branch'')) default_user [(''run_id'', (rule
         ''check_run.id'')), (''conclusion'', (rule ''check_run.conclusion'')), (''head_branch'',
         (rule ''check_run.check_suite.head_branch''))]),
      (''check_suite'', event_config None (Some (rule ''check_suite.head_branch'')) default_user
         [(''head_branch'', (rule ''check_suite.head_branch'')), (''conclusion'', (rule
         ''check_suite.conclusion''))]),
      (''status'', event_config None None default_user [(''state'', (rule ''state'')), (''sha'',
         (rule ''sha'')), (''context'', (rule ''context'')), (''description'', (rule
         ''description''))])]"

definition REPOSITORY_RULES :: "extraction_config dict" where
  "REPOSITORY_RULES = [
      (''release'', event_config None (Some (rule ''release.tag_name'')) default_user
         [(''tag_name'', (rule ''release.tag_name'')), (''release_name'', (rule ''release.name'')),
         (''release_body'', (rule ''release.body''))]),
      (''push'', event_config None (Some (rule ''ref'')) default_user []),
      (''create'', event_config None (Some (rule ''ref'')) default_user [(''ref_type'', (rule
         ''ref_type''))]),
      (''delete'', event_config None (Some (rule ''ref'')) default_user [(''ref_type'', (rule
         ''ref_type''))]),
      (''commit_comment'', event_config None None (rule ''comment.user.login'') [(''commit_id'',
         (rule ''comment.commit_id''))]),
      (''repository_dispatch'', event_config None (Some (rule ''branch'')) default_user
         [(''client_payload'', (rule ''client_payload''))]),
      (''deployment'', event_config None (Some (rule ''deployment.ref'')) default_user
         [(''environment'', (rule ''deployment.environment''))]),
      (''deployment_status'', event_config None (Some (rule ''deployment.ref'')) default_user
         [(''environment'', (rule ''deployment.environment'')), (''state'', (rule
         ''deployment_status.state''))])]"

definition MANAGEMENT_RULES :: "extraction_config dict" where
  "MANAGEMENT_RULES = [
      (''label'', event_config None None default_user [(''label_name'', (rule ''label.name'')),
         (''label_color'', (rule ''label.color''))]),
      (''milestone'', event_config None None default_user [(''milestone_title'', (rule
         ''milestone.title''))]),
      (''star'', event_config None None default_user []),
      (''watch'', event_config None None default_user []),
      (''fork'', event_config None None default_user [(''fork_full_name'', (rule
         ''forkee.full_name''))]),
      (''gollum'', event_config None None default_user [(''pages'', (rule ''pages''))]),
      (''repository'', event_config None None default_user []),
      (''branch_protection_configuration'', event_config None None default_user []),
      (''branch_protection_rule'', event_config None None default_user [(''rule_name'', (rule
         ''rule.name''))]),
      (''member'', event_config None None default_user [(''member_login'', (rule
         ''member.login''))]),
      (''team'', event_config None None default_user []),
      (''organization'', event_config None None default_user []),
      (''installation'', event_config None None default_user []),
      (''installation_repositories'', event_config None None default_user []),
      (''ping'', event_config None None default_user []),
      (''package'', event_config None None default_user []),
      (''merge_group'', event_config None (Some (rule ''merge_group.head_ref'')) default_user
         [(''head_sha'', (rule ''merge_group.head_sha'')), (''base_ref'', (rule
         ''merge_group.base_ref''))])]"

definition SECURITY_RULES :: "extraction_config dict" where
  "SECURITY_RULES = [
      (''secret_scanning_alert'', event_config None None default_user [(''alert_number'', (rule
         ''alert.number''))]),
      (''dependabot_alert'', event_config None None default_user [(''alert_number'', (rule
         ''alert.number''))]),
      (''code_scanning_alert'', event_config None None default_user [(''alert_number'', (rule
         ''alert.number''))])]"

definition EXTRACTION_RULES :: "extraction_config dict" where
  "EXTRACTION_RULES =
     THREAD_RULES @ CI_RULES @ REPOSITORY_RULES @ MANAGEMENT_RULES @ SECURITY_RULES"

section \<open>Extraction\<close>

definition REF_STRATEGIES :: "string dict" where
  "REF_STRATEGIES =
     [(''pull_request'', ''pr''), (''pull_request_review'', ''pr''), (''pull_request_review_comment'', ''pr''),
      (''pull_request_review_thread'', ''pr''),
      (''workflow_job'', ''heads''), (''workflow_run'', ''heads''), (''check_run'', ''heads''),
      (''check_suite'', ''heads''), (''deployment'', ''heads''), (''deployment_status'', ''heads''),
      (''repository_dispatch'', ''heads''),
      (''push'', ''passthrough''), (''merge_group'', ''passthrough''), (''workflow_dispatch'', ''passthrough''),
      (''create'', ''create_delete''), (''delete'', ''create_delete''),
      (''issue_comment'', ''main'')]"

text \<open>The payload is the parsed object; an action is a string or absent.\<close>

definition find_config :: "extraction_config dict \<Rightarrow> string \<Rightarrow> string option \<Rightarrow> extraction_config option" where
  "find_config rules event_type action =
     (case dict_get rules (event_type @ ''.'' @ opt_default [] action) of
        Some c \<Rightarrow> if opt_default [] action \<noteq> [] then Some c else dict_get rules event_type
      | None \<Rightarrow> dict_get rules event_type)"

definition extract_field :: "extraction_rule option \<Rightarrow> json \<Rightarrow> json result" where
  "extract_field r data =
     (case r of
        None \<Rightarrow> Inr JNull
      | Some ru \<Rightarrow>
          (let value = resolve_path data (er_path ru) in
           if value = JNull then
             (if er_required ru
              then Inl (Exn ValueError (''Required field at path '' @ [CHR 0x27] @ er_path ru @ [CHR 0x27] @
                 '' is missing from payload''))
              else Inr (er_default ru))
           else Inr value))"

definition resolve_ref :: "string \<Rightarrow> extraction_rule option \<Rightarrow> json dict \<Rightarrow> string result" where
  "resolve_ref event_type ref_rule data =
     (case ref_rule of
        None \<Rightarrow> Inr ''main''
      | Some ru \<Rightarrow>
          res_bind (extract_field (Some ru) (JObj data)) (\<lambda>raw_ref.
            if raw_ref = JNull then Inr ''main''
            else
              (let strategy = opt_default ''passthrough'' (dict_get REF_STRATEGIES event_type) in
               if strategy = ''pr'' then Inr (''refs/pull/'' @ py_str raw_ref @ ''/head'')
               else if strategy = ''heads'' then Inr (''refs/heads/'' @ py_str raw_ref)
               else if strategy = ''main'' then Inr ''main''
               else if strategy = ''create_delete'' then
                 (if opt_default (JStr ''branch'') (dict_get data ''ref_type'') = JStr ''tag''
                  then Inr (''refs/tags/'' @ py_str raw_ref)
                  else Inr (''refs/heads/'' @ py_str raw_ref))
               else Inr (py_str raw_ref))))"

fun extract_extra :: "extraction_rule dict \<Rightarrow> json \<Rightarrow> json dict result" where
  "extract_extra [] data = Inr []"
| "extract_extra ((name, ru) # rest) data =
     res_bind (extract_field (Some ru) data) (\<lambda>v.
       res_bind (extract_extra rest data) (\<lambda>more. Inr ((name, v) # more)))"

text \<open>\<open>ExtractedFields(...)\<close>: a validation error is a \<open>ValueError\<close>.\<close>

definition extracted ::
  "(json \<Rightarrow> int option) \<Rightarrow> json \<Rightarrow> string \<Rightarrow> json \<Rightarrow> json dict \<Rightarrow> extracted_fields result" where
  "extracted as_int issue_number ref user extra =
     (case user of
        JStr u \<Rightarrow>
          if issue_number = JNull
          then Inr \<lparr>ef_issue_number = None, ef_ref = ref, ef_user = u, ef_extra = extra\<rparr>
          else (case as_int issue_number of
                  Some n \<Rightarrow> Inr \<lparr>ef_issue_number = Some n, ef_ref = ref, ef_user = u, ef_extra = extra\<rparr>
                | None \<Rightarrow> Inl (Exn ValueError ''validation error for ExtractedFields''))
      | _ \<Rightarrow> Inl (Exn ValueError ''validation error for ExtractedFields''))"

definition extract_fields ::
  "(json \<Rightarrow> int option) \<Rightarrow> extraction_config dict \<Rightarrow> string \<Rightarrow> string option \<Rightarrow> json dict \<Rightarrow> extracted_fields result" where
  "extract_fields as_int rules event_type action data =
     (case find_config rules event_type action of
        None \<Rightarrow>
          extracted as_int JNull ''main'' (py_or (resolve_path (JObj data) ''sender.login'') (JStr ''unknown'')) []
      | Some config \<Rightarrow>
          res_bind (extract_field (ec_issue_number config) (JObj data)) (\<lambda>issue_number.
          res_bind (resolve_ref event_type (ec_ref config) data) (\<lambda>ref.
          res_bind (extract_field (Some (ec_user config)) (JObj data)) (\<lambda>user.
          res_bind (extract_extra (ec_extra config) (JObj data)) (\<lambda>extra.
            extracted as_int issue_number ref (py_or user (JStr ''unknown'')) extra)))))"

section \<open>Which rule applies\<close>

text \<open>No key of the table names an action, so the rule depends on the event type alone.\<close>

lemma rule_keys_unqualified: "list_all (\<lambda>e. CHR ''.'' \<notin> set (fst e)) EXTRACTION_RULES"
  by (simp add: EXTRACTION_RULES_def THREAD_RULES_def CI_RULES_def REPOSITORY_RULES_def
      MANAGEMENT_RULES_def SECURITY_RULES_def)

lemma find_config_event: "find_config EXTRACTION_RULES event_type action = dict_get EXTRACTION_RULES event_type"
proof -
  have "dict_get EXTRACTION_RULES (event_type @ ''.'' @ a) = None" for a
    using rule_keys_unqualified by (fastforce simp: map_of_eq_None_iff list_all_iff)
  then show ?thesis by (simp add: find_config_def)
qed

definition pr_events :: "string list" where
  "pr_events = [''pull_request'', ''pull_request_review'', ''pull_request_review_comment'',
     ''pull_request_review_thread'']"

definition issue_events :: "string list" where
  "issue_events = [''issues'', ''issue_comment'']"

text \<open>The rule of a pull-request event differs from the others only in where the user is read.\<close>

lemma thread_rule: "dict_get THREAD_RULES k = Some c \<Longrightarrow> dict_get EXTRACTION_RULES k = Some c"
  by (simp add: EXTRACTION_RULES_def map_add_def)

lemma pr_events_cases:
  assumes "event_type \<in> set pr_events"
  obtains "event_type = ''pull_request''" | "event_type = ''pull_request_review''"
    | "event_type = ''pull_request_review_comment''" | "event_type = ''pull_request_review_thread''"
  using assms unfolding pr_events_def list.set insert_iff by blast

lemma pr_rule:
  assumes "event_type \<in> set pr_events"
  obtains u where "dict_get EXTRACTION_RULES event_type =
    Some (event_config (Some (required_rule ''pull_request.number'')) (Some (rule ''pull_request.number'')) (rule u) [])"
proof -
  have "\<exists>u. dict_get THREAD_RULES event_type =
    Some (event_config (Some (required_rule ''pull_request.number'')) (Some (rule ''pull_request.number'')) (rule u) [])"
    by (rule pr_events_cases [OF assms]; hypsubst; simp add: THREAD_RULES_def default_user_def; blast?)
  then show ?thesis using thread_rule that by blast
qed

lemma pr_strategy: "event_type \<in> set pr_events \<Longrightarrow> dict_get REF_STRATEGIES event_type = Some ''pr''"
  by (erule pr_events_cases; hypsubst; simp add: REF_STRATEGIES_def)

lemma issue_rule:
  assumes "event_type \<in> set issue_events"
  obtains u where "dict_get EXTRACTION_RULES event_type =
    Some (event_config (Some (required_rule ''issue.number'')) None (rule u) [])"
proof -
  have "event_type = ''issues'' \<or> event_type = ''issue_comment''"
    using assms unfolding issue_events_def list.set insert_iff by blast
  then have "\<exists>u. dict_get THREAD_RULES event_type =
      Some (event_config (Some (required_rule ''issue.number'')) None (rule u) [])"
    by (elim disjE; hypsubst; simp add: THREAD_RULES_def; blast?)
  then show ?thesis using thread_rule that by blast
qed

definition required_path :: "string \<Rightarrow> string" where
  "required_path event_type = (if event_type \<in> set pr_events then ''pull_request.number'' else ''issue.number'')"

definition user_path :: "string \<Rightarrow> string" where
  "user_path event_type =
     (case dict_get EXTRACTION_RULES event_type of None \<Rightarrow> ''sender.login'' | Some c \<Rightarrow> er_path (ec_user c))"

section \<open>Properties\<close>

text \<open>
  A pull-request event whose number is an integer yields that number and the reference
  \<open>refs/pull/N/head\<close>, whatever its action; the user is the one at the path of its rule, or
  \<open>unknown\<close> when that is empty or missing. An issue event yields its number and \<open>main\<close>.
\<close>

theorem thread_events_extracted:
  assumes "event_type \<in> set (pr_events @ issue_events)"
    and "resolve_path (JObj data) (required_path event_type) = JInt n" and "as_int (JInt n) = Some n"
    and "resolve_path (JObj data) (user_path event_type) \<in> {JNull, JStr user}"
  shows "extract_fields as_int EXTRACTION_RULES event_type action data =
     Inr \<lparr>ef_issue_number = Some n,
          ef_ref = (if event_type \<in> set pr_events then ''refs/pull/'' @ show_int n @ ''/head'' else ''main''),
          ef_user = (if resolve_path (JObj data) (user_path event_type) \<in> {JNull, JStr []} then ''unknown'' else user),
          ef_extra = []\<rparr>"
proof (cases "event_type \<in> set pr_events")
  case True
  then obtain u where "dict_get EXTRACTION_RULES event_type =
      Some (event_config (Some (required_rule ''pull_request.number'')) (Some (rule ''pull_request.number'')) (rule u) [])"
    by (rule pr_rule)
  with True assms pr_strategy [OF True] show ?thesis
    by (auto simp: extract_fields_def find_config_event event_config_def required_rule_def rule_def
        extract_field_def resolve_ref_def extracted_def required_path_def user_path_def py_or_def)
next
  case False
  with assms(1) have "event_type \<in> set issue_events" by simp
  then obtain u where "dict_get EXTRACTION_RULES event_type =
      Some (event_config (Some (required_rule ''issue.number'')) None (rule u) [])"
    by (rule issue_rule)
  with False assms show ?thesis
    by (auto simp: extract_fields_def find_config_event event_config_def required_rule_def rule_def
        extract_field_def resolve_ref_def extracted_def required_path_def user_path_def py_or_def)
qed

definition sample_pr :: "json dict" where
  "sample_pr = [(''action'', JStr ''opened''),
     (''repository'', JObj [(''full_name'', JStr ''o/r'')]),
     (''pull_request'', JObj [(''number'', JInt 7), (''user'', JObj [(''login'', JStr ''ann'')])]),
     (''installation'', JObj [(''id'', JInt 5)]),
     (''sender'', JObj [(''login'', JStr ''ann'')])]"

definition json_int :: "json \<Rightarrow> int option" where
  "json_int v = (case v of JInt n \<Rightarrow> Some n | _ \<Rightarrow> None)"

lemma sample_pr_paths:
  "resolve_path (JObj sample_pr) ''pull_request.number'' = JInt 7"
  "resolve_path (JObj sample_pr) ''pull_request.user.login'' = JStr ''ann''"
  by (simp_all add: resolve_path_def resolve_path_or_def sample_pr_def)

lemma pull_request_paths:
  "required_path ''pull_request'' = ''pull_request.number''"
  "user_path ''pull_request'' = ''pull_request.user.login''"
  by (simp_all add: required_path_def pr_events_def user_path_def EXTRACTION_RULES_def THREAD_RULES_def
      event_config_def rule_def)

theorem thread_events_extracted_witness:
  "extract_fields json_int EXTRACTION_RULES ''pull_request'' (Some ''opened'') sample_pr =
     Inr \<lparr>ef_issue_number = Some 7, ef_ref = ''refs/pull/7/head'', ef_user = ''ann'', ef_extra = []\<rparr>"
  using thread_events_extracted [of "''pull_request''" sample_pr 7 json_int "''ann''" "Some ''opened''"]
  by (simp add: sample_pr_paths pull_request_paths json_int_def) (simp add: pr_events_def show_int_def show_nat.simps)

text \<open>
  When the number of such an event is missing or null, the extraction raises \<open>ValueError\<close>
  naming the path, whatever else the payload holds.
\<close>

theorem missing_number_rejected:
  assumes "event_type \<in> set (pr_events @ issue_events)"
    and "resolve_path (JObj data) (required_path event_type) = JNull"
  shows "extract_fields as_int EXTRACTION_RULES event_type action data =
     Inl (Exn ValueError (''Required field at path '' @ [CHR 0x27] @ required_path event_type @ [CHR 0x27] @
       '' is missing from payload''))"
proof -
  obtain r u where "dict_get EXTRACTION_RULES event_type =
      Some (event_config (Some (required_rule (required_path event_type))) r (rule u) [])"
  proof (cases "event_type \<in> set pr_events")
    case True
    from pr_rule [OF True] that show ?thesis using True by (auto simp: required_path_def)
  next
    case False
    with assms(1) have "event_type \<in> set issue_events" by simp
    from issue_rule [OF this] that show ?thesis using False by (auto simp: required_path_def)
  qed
  with assms(2) show ?thesis
    by (auto simp: extract_fields_def find_config_event event_config_def required_rule_def extract_field_def)
qed

theorem missing_number_rejected_witness:
  "extract_fields json_int EXTRACTION_RULES ''issues'' None [(''issue'', JObj [(''number'', JNull)])] =
     Inl (Exn ValueError (''Required field at path '' @ [CHR 0x27] @ ''issue.number'' @ [CHR 0x27] @
       '' is missing from payload''))"
  using missing_number_rejected [of "''issues''" "[(''issue'', JObj [(''number'', JNull)])]" json_int None]
  by (simp add: issue_events_def pr_events_def required_path_def resolve_path_def resolve_path_or_def)

end
