(* ===== verification/Webhook.thy ===== *)
theory Webhook
  imports Workflow_Engine Payload_Extractor
begin

text \<open>
  \<^verbatim>\<open>services/webhook/main.py\<close>: the handler that turns a GitHub event into a job. The three
  queues it publishes to, the HMAC and pydantic's integer conversion are parameters; \<open>data\<close> is
  the parsed body (\<open>None\<close> when the body is not JSON). The response is a status and a message, or
  an \<open>HTTPException\<close>.
\<close>

section \<open>Signature\<close>

text \<open>\<open>hexdigest\<close> is HMAC-SHA256 of the payload under the secret.\<close>

definition verify_signature :: "(string \<Rightarrow> string \<Rightarrow> string) \<Rightarrow> string \<Rightarrow> string \<Rightarrow> string \<Rightarrow> bool" where
  "verify_signature hexdigest payload signature secret =
     (if signature = [] \<or> secret = [] then False
      else ''sha256='' @ hexdigest secret payload = signature)"

section \<open>Commands\<close>

text \<open>
  \<open>re.match(r"^(/\S+)\s*(.*)", body.strip())\<close>: the command and the query, which ends at the first
  newline after its start because \<open>.\<close> does not match one.
\<close>

definition match_command :: "string \<Rightarrow> (string \<times> string) option" where
  "match_command s =
     (case s of
        [] \<Rightarrow> None
      | c # cs \<Rightarrow>
          (let word = takeWhile (\<lambda>x. \<not> is_space x) cs;
               rest = dropWhile is_space (dropWhile (\<lambda>x. \<not> is_space x) cs)
           in if c = CHR ''/'' \<and> word \<noteq> []
              then Some (c # word, takeWhile (\<lambda>x. x \<noteq> CHR 0x0A) rest)
              else None))"

definition parse_command :: "string \<Rightarrow> (string \<times> string) option" where
  "parse_command body = map_option (\<lambda>(c, q). (c, str_strip q)) (match_command (str_strip body))"

definition is_command_char :: "char \<Rightarrow> bool" where
  "is_command_char c \<longleftrightarrow> CHR ''a'' \<le> c \<and> c \<le> CHR ''z'' \<or> is_digit c \<or> c = CHR ''-''"

definition valid_command :: "string \<Rightarrow> bool" where
  "valid_command command =
     (case command of
        [] \<Rightarrow> False
      | c # cs \<Rightarrow> c = CHR ''/'' \<and> cs \<noteq> [] \<and> list_all is_command_char cs)"

section \<open>Cleanup messages\<close>

definition thread_message :: "string \<Rightarrow> json \<Rightarrow> string \<Rightarrow> json \<Rightarrow> json dict" where
  "thread_message act repo thread_type number =
     [(''action'', JStr act), (''repo'', repo), (''thread_type'', JStr thread_type),
      (''thread_id'', JStr (py_str number))]"

text \<open>
  One block of the function: if the event matches and the number is there, the message; otherwise
  go on to the next block.
\<close>

definition thread_block ::
  "bool \<Rightarrow> json \<Rightarrow> string \<Rightarrow> string \<Rightarrow> json \<Rightarrow> string \<Rightarrow> json dict option result \<Rightarrow> json dict option result" where
  "thread_block matches data obj act repo thread_type next =
     (if matches
      then res_bind (jget2 data obj ''number'' JNull) (\<lambda>number.
        if py_truthy number then Inr (Some (thread_message act repo thread_type number)) else next)
      else next)"

definition build_cleanup_message :: "string \<Rightarrow> json \<Rightarrow> json \<Rightarrow> json \<Rightarrow> json dict option result" where
  "build_cleanup_message event_type action data repo =
     (let is_action = (\<lambda>as. list_ex (\<lambda>a. action = JStr a) as) in
      thread_block (event_type = ''pull_request'' \<and> is_action [''closed'']) data ''pull_request''
        ''expire_thread'' repo ''pr''
     (thread_block (event_type = ''issues'' \<and> is_action [''closed'']) data ''issue''
        ''expire_thread'' repo ''issue''
     (thread_block (event_type = ''discussion'' \<and> is_action [''closed'', ''deleted'', ''locked'']) data ''discussion''
        ''expire_thread'' repo ''discussion''
     (res_bind (if event_type = ''delete'' then jget data ''ref_type'' JNull else Inr JNull) (\<lambda>ref_type.
      res_bind (if ref_type = JStr ''branch'' then jget data ''ref'' JNull else Inr JNull) (\<lambda>branch.
        if py_truthy branch
        then Inr (Some [(''action'', JStr ''cleanup_branch''), (''repo'', repo), (''branch'', branch)])
        else
     thread_block (event_type = ''pull_request'' \<and> is_action [''reopened'']) data ''pull_request''
        ''revive_thread'' repo ''pr''
     (thread_block (event_type = ''issues'' \<and> is_action [''reopened'']) data ''issue''
        ''revive_thread'' repo ''issue''
     (thread_block (event_type = ''discussion'' \<and> is_action [''reopened'', ''unlocked'']) data ''discussion''
        ''revive_thread'' repo ''discussion''
     (Inr None)))))))))"

section \<open>The handler\<close>

record webhook_config =
  wc_secret :: string
  wc_bot_username :: string
  wc_rules :: "extraction_config dict"
  wc_engine :: engine

record 's queues =
  q_jobs :: "json \<Rightarrow> ('s, unit) io"
  q_sync :: "json \<Rightarrow> ('s, unit) io"
  q_cleanup :: "json \<Rightarrow> ('s, unit) io"

record request =
  rq_payload :: string
  rq_signature :: string
  rq_event :: string
  rq_data :: "json option"

definition reply :: "string \<Rightarrow> string \<Rightarrow> json dict" where
  "reply status message = [(''status'', JStr status), (''message'', JStr message)]"

text \<open>\<open>action\<close> as the routing sees it: absent when falsy, else its text.\<close>

definition action_text :: "json \<Rightarrow> string option" where
  "action_text action = (if py_truthy action then Some (py_str action) else None)"

text \<open>\<open>a or b or c or "open"\<close>; an operand is evaluated only when those before it are falsy.\<close>

definition issue_state :: "json \<Rightarrow> json result" where
  "issue_state data =
     res_bind (jget2 data ''issue'' ''state'' JNull) (\<lambda>a.
       if py_truthy a then Inr a
       else res_bind (jget2 data ''pull_request'' ''state'' JNull) (\<lambda>b.
         if py_truthy b then Inr b
         else res_bind (jget2 data ''discussion'' ''state'' JNull) (\<lambda>c.
           Inr (py_or c (JStr ''open'')))))"

definition event_fields :: "string \<Rightarrow> json \<Rightarrow> json \<Rightarrow> json dict result" where
  "event_fields event_type action data =
     res_bind (issue_state data) (\<lambda>st.
     res_bind (jget2 data ''installation'' ''id'' (JStr [])) (\<lambda>inst.
       Inr [(''event_type'', JStr event_type), (''action'', action), (''issue_state'', st),
            (''installation_id'', JStr (py_str inst))]))"

text \<open>What the comment overlay decides: stop with a reply, or go on with a command and query.\<close>

datatype overlay = Stop "json dict" | Go "string option" string

definition comment_overlay :: "string \<Rightarrow> json \<Rightarrow> json \<Rightarrow> overlay result" where
  "comment_overlay event_type action data =
     (if event_type = ''issue_comment'' \<and> action = JStr ''created''
      then res_bind (jget2 data ''comment'' ''body'' (JStr [])) (\<lambda>body.
        case body of
          JStr b \<Rightarrow>
            (case parse_command b of
               None \<Rightarrow> Inr (Stop (reply ''ignored'' ''No command found in comment''))
             | Some (command, user_query) \<Rightarrow>
                 if length command > 50
                 then Inr (Stop (reply ''error'' ''Command is too long (max 50 characters)''))
                 else if \<not> valid_command command
                 then Inr (Stop (reply ''error''
                        (''Invalid command format. Use lowercase letters, numbers, and hyphens only.'')))
                 else Inr (Go (Some command) user_query))
        | _ \<Rightarrow> Inl (Exn AttributeError ''strip''))
      else Inr (Go None []))"

text \<open>\<open>key in value\<close>: dict keys, list elements or substrings.\<close>

fun py_in :: "string \<Rightarrow> json \<Rightarrow> bool result" where
  "py_in key (JObj d) = Inr (dict_get d key \<noteq> None)"
| "py_in key (JArr xs) = Inr (JStr key \<in> set xs)"
| "py_in key (JStr s) = Inr (str_contains key s)"
| "py_in key _ = Inl (Exn TypeError ''argument is not iterable'')"

definition job_ref :: "string \<Rightarrow> json \<Rightarrow> extracted_fields \<Rightarrow> string result" where
  "job_ref event_type data fs =
     (if event_type = ''issue_comment''
      then res_bind (jget data ''issue'' (JObj [])) (\<lambda>issue.
           res_bind (py_in ''pull_request'' issue) (\<lambda>on_pr.
             Inr (case ef_issue_number fs of
                    Some n \<Rightarrow> if on_pr \<and> n \<noteq> 0 then ''refs/pull/'' @ show_int n @ ''/head'' else ef_ref fs
                  | None \<Rightarrow> ef_ref fs)))
      else Inr (ef_ref fs))"

definition choose_workflow :: "engine \<Rightarrow> string option \<Rightarrow> string \<Rightarrow> json \<Rightarrow> json \<Rightarrow> string option" where
  "choose_workflow eng command event_type action data =
     (case command of
        Some c \<Rightarrow> get_workflow_for_command eng c
      | None \<Rightarrow>
          if event_type = [] then None
          else
            (let event_key = (case action_text action of None \<Rightarrow> event_type | Some a \<Rightarrow> event_type @ ''.'' @ a)
             in List.find (\<lambda>candidate. check_filters eng candidate data (Some event_key))
                  (get_workflow_for_event eng event_type (action_text action))))"

definition skips_self :: "webhook_config \<Rightarrow> string \<Rightarrow> json \<Rightarrow> bool" where
  "skips_self cfg workflow_name event_actor =
     (wc_bot_username cfg \<noteq> [] \<and>
      should_skip_self (wc_engine cfg) workflow_name
        (case event_actor of JStr a \<Rightarrow> a | _ \<Rightarrow> []) (wc_bot_username cfg))"

definition agent_job ::
  "json \<Rightarrow> extracted_fields \<Rightarrow> json dict \<Rightarrow> string \<Rightarrow> string \<Rightarrow> string \<Rightarrow> json" where
  "agent_job repo fs event_data user_query ref workflow_name =
     JObj [(''repository'', repo),
           (''issue_number'', case ef_issue_number fs of None \<Rightarrow> JNull | Some n \<Rightarrow> JInt n),
           (''event_data'', JObj event_data),
           (''user_query'', JStr user_query),
           (''user'', JStr (ef_user fs)),
           (''ref'', JStr ref),
           (''workflow_name'', JStr workflow_name)]"

text \<open>From the extraction to the published job.\<close>

definition route_event ::
  "webhook_config \<Rightarrow> (json \<Rightarrow> int option) \<Rightarrow> 's queues \<Rightarrow> string \<Rightarrow> json dict \<Rightarrow> json \<Rightarrow> json \<Rightarrow> json dict \<Rightarrow>
   string option \<Rightarrow> string \<Rightarrow> ('s, json dict) io" where
  "route_event cfg as_int qs event_type data action repo event_data command user_query =
     (case extract_fields as_int (wc_rules cfg) event_type (action_text action) data of
        Inl e \<Rightarrow>
          if exc_isinstance e ValueError then io_raise (Exn (HTTPException 422) (exc_msg e)) else io_raise e
      | Inr fs \<Rightarrow>
          io_bind (io_of_result (job_ref event_type (JObj data) fs)) (\<lambda>ref.
            let event_data = dict_update event_data (ef_extra fs) in
            case choose_workflow (wc_engine cfg) command event_type action (JObj data) of
              None \<Rightarrow> io_ret (reply ''ignored'' ''No workflow configured for this event'')
            | Some workflow_name \<Rightarrow>
                if workflow_name = [] then io_ret (reply ''ignored'' ''No workflow configured for this event'')
                else io_bind (io_of_result (jget2 (JObj data) ''sender'' ''login'' (JStr []))) (\<lambda>event_actor.
                  if skips_self cfg workflow_name event_actor
                  then io_ret (reply ''ignored''
                    (''Skipping event from bot itself (skip_self enabled for workflow '' @ [CHR 0x27] @ workflow_name @
                      [CHR 0x27] @ '')''))
                  else io_then (q_jobs qs (agent_job repo fs event_data user_query ref workflow_name))
                    (io_ret (reply ''accepted'' ''Agent is processing your request'')))))"

definition handle_thread_event ::
  "webhook_config \<Rightarrow> (json \<Rightarrow> int option) \<Rightarrow> 's queues \<Rightarrow> string \<Rightarrow> json dict \<Rightarrow> json \<Rightarrow> json \<Rightarrow> ('s, json dict) io" where
  "handle_thread_event cfg as_int qs event_type data action repo =
     io_bind (io_of_result (event_fields event_type action (JObj data))) (\<lambda>event_data.
     io_bind (io_of_result (comment_overlay event_type action (JObj data))) (\<lambda>ov. case ov of
         Stop r \<Rightarrow> io_ret r
       | Go command user_query \<Rightarrow>
           route_event cfg as_int qs event_type data action repo
             (case command of None \<Rightarrow> event_data | Some c \<Rightarrow> dict_set ''command'' (JStr c) event_data)
             command user_query))"

definition handle_cleanup ::
  "webhook_config \<Rightarrow> 's queues \<Rightarrow> string \<Rightarrow> json dict \<Rightarrow> json \<Rightarrow> json \<Rightarrow> ('s, json dict option) io" where
  "handle_cleanup cfg qs event_type data action repo =
     (if py_truthy repo \<and> event_type \<in> set [''pull_request'', ''issues'', ''delete''] then
        io_bind (io_of_result (build_cleanup_message event_type action (JObj data) repo)) (\<lambda>msg. case msg of
            None \<Rightarrow> io_ret None
          | Some m \<Rightarrow>
              io_then (q_cleanup qs (JObj m))
                (io_ret (if get_workflow_for_event (wc_engine cfg) event_type (action_text action) = []
                   then Some (reply ''accepted'' (''Worktree cleanup queued ('' @
                     py_str (opt_default JNull (dict_get m ''action'')) @ '')''))
                   else None)))
      else io_ret None)"

definition handle_event ::
  "webhook_config \<Rightarrow> (json \<Rightarrow> int option) \<Rightarrow> 's queues \<Rightarrow> request \<Rightarrow> ('s, json dict) io" where
  "handle_event cfg as_int qs rq =
     (case rq_data rq of
        None \<Rightarrow> io_raise (Exn JSONDecodeError ''body'')
      | Some j \<Rightarrow>
          io_bind (io_of_result (jget j ''action'' (JStr []))) (\<lambda>action.
          io_bind (io_of_result (jget2 j ''repository'' ''full_name'' JNull)) (\<lambda>repo.
            case j of
              JObj data \<Rightarrow>
                if rq_event rq = ''push'' then
                  (let ref = opt_default JNull (dict_get data ''ref'') in
                   if py_truthy repo \<and> py_truthy ref
                   then io_then (q_sync qs (JObj [(''repo'', repo), (''ref'', ref)]))
                     (io_ret (reply ''accepted'' ''Proactive sync triggered''))
                   else io_ret (reply ''ignored'' ''Push event missing repo or ref''))
                else
                  io_bind (handle_cleanup cfg qs (rq_event rq) data action repo) (\<lambda>early. case early of
                      Some r \<Rightarrow> io_ret r
                    | None \<Rightarrow> handle_thread_event cfg as_int qs (rq_event rq) data action repo)
            | _ \<Rightarrow> io_raise (Exn AttributeError ''get''))))"

fun is_http :: "exn \<Rightarrow> bool" where
  "is_http (Exn (HTTPException n) m) = True"
| "is_http e = False"

definition webhook ::
  "(string \<Rightarrow> string \<Rightarrow> string) \<Rightarrow> webhook_config \<Rightarrow> (json \<Rightarrow> int option) \<Rightarrow> 's queues \<Rightarrow> request \<Rightarrow>
   ('s, json dict) io" where
  "webhook hexdigest cfg as_int qs rq =
     io_try
       (if wc_secret cfg \<noteq> [] \<and> \<not> verify_signature hexdigest (rq_payload rq) (rq_signature rq) (wc_secret cfg)
        then io_raise (Exn (HTTPException 401) ''Invalid signature'')
        else handle_event cfg as_int qs rq)
       (\<lambda>e. if is_http e then io_raise e else io_raise (Exn (HTTPException 500) (exc_msg e)))"

section \<open>Properties\<close>

text \<open>
  Queues that record what is published, in order, under the name of the queue; \<open>up\<close> says which
  publications succeed.
\<close>

type_synonym publications = "(string \<times> json) list"

definition log_publish :: "(string \<times> json \<Rightarrow> bool) \<Rightarrow> string \<Rightarrow> json \<Rightarrow> (publications, unit) io" where
  "log_publish up q m = (\<lambda>s. if up (q, m) then (Inr (), s @ [(q, m)]) else (Inl (Exn QueueError q), s))"

definition log_queues :: "(string \<times> json \<Rightarrow> bool) \<Rightarrow> publications queues" where
  "log_queues up = \<lparr>q_jobs = log_publish up ''jobs'', q_sync = log_publish up ''sync'',
     q_cleanup = log_publish up ''cleanup''\<rparr>"

lemma log_queues_run [simp]:
  "q_jobs (log_queues up) m s = log_publish up ''jobs'' m s"
  "q_sync (log_queues up) m s = log_publish up ''sync'' m s"
  "q_cleanup (log_queues up) m s = log_publish up ''cleanup'' m s"
  by (simp_all add: log_queues_def)

definition authentic :: "(string \<Rightarrow> string \<Rightarrow> string) \<Rightarrow> webhook_config \<Rightarrow> request \<Rightarrow> bool" where
  "authentic hexdigest cfg rq \<longleftrightarrow>
     wc_secret cfg = [] \<or> verify_signature hexdigest (rq_payload rq) (rq_signature rq) (wc_secret cfg)"

text \<open>
  When a secret is configured, a request whose signature is empty or is not the HMAC of its
  body is answered 401 and leaves the world of the queues untouched, whatever they are.
\<close>

theorem unauthentic_request_rejected:
  assumes "wc_secret cfg \<noteq> []"
    and "rq_signature rq = [] \<or> rq_signature rq \<noteq> ''sha256='' @ hexdigest (wc_secret cfg) (rq_payload rq)"
  shows "webhook hexdigest cfg as_int qs rq s = (Inl (Exn (HTTPException 401) ''Invalid signature''), s)"
  using assms by (auto simp: webhook_def verify_signature_def io_simps)

definition sample_config :: webhook_config where
  "sample_config = \<lparr>wc_secret = ''s3cret'', wc_bot_username = ''bot'', wc_rules = EXTRACTION_RULES,
     wc_engine = build_tables [(''review-pr'', sample_workflow)]\<rparr>"

definition sample_request :: "string \<Rightarrow> request" where
  "sample_request sig = \<lparr>rq_payload = ''body'', rq_signature = sig, rq_event = ''pull_request'',
     rq_data = Some (JObj sample_pr)\<rparr>"

theorem unauthentic_request_rejected_witness:
  "webhook (\<lambda>secret body. secret @ body) sample_config json_int (log_queues (\<lambda>_. True)) (sample_request ''forged'') [] =
     (Inl (Exn (HTTPException 401) ''Invalid signature''), [])"
  using unauthentic_request_rejected [of sample_config "sample_request ''forged''" "\<lambda>secret body. secret @ body"
      json_int "log_queues (\<lambda>_. True)" "[]"]
  by (simp add: sample_config_def sample_request_def)

subsection \<open>What a recorded job says\<close>

text \<open>
  The workflow a request is meant for: the one of its command, or else the first of the workflows
  of its event whose filters pass.
\<close>

definition routes_to :: "engine \<Rightarrow> string option \<Rightarrow> string \<Rightarrow> json \<Rightarrow> json \<Rightarrow> string \<Rightarrow> bool" where
  "routes_to eng command event_type action data w \<longleftrightarrow>
     (case command of
        Some c \<Rightarrow> get_workflow_for_command eng c = Some w
      | None \<Rightarrow> \<exists>before after.
          get_workflow_for_event eng event_type (action_text action) = before @ w # after \<and>
          (\<forall>v \<in> set (w # before). check_filters eng v data
             (Some (case action_text action of None \<Rightarrow> event_type | Some a \<Rightarrow> event_type @ ''.'' @ a)) \<longleftrightarrow> v = w))"

lemma find_split:
  "List.find P xs = Some w \<Longrightarrow> \<exists>before after. xs = before @ w # after \<and> (\<forall>v \<in> set (w # before). P v \<longleftrightarrow> v = w)"
proof (induction xs)
  case (Cons x xs)
  show ?case
  proof (cases "P x")
    case True
    with Cons.prems have "x # xs = [] @ w # xs" "P w" by simp_all
    then show ?thesis by force
  next
    case False
    with Cons obtain before after where "xs = before @ w # after" "\<forall>v \<in> set (w # before). P v \<longleftrightarrow> v = w" by auto
    with False have "x # xs = (x # before) @ w # after \<and> (\<forall>v \<in> set (w # x # before). P v \<longleftrightarrow> v = w)" by auto
    then show ?thesis by blast
  qed
qed simp

lemma choose_workflow_routes:
  assumes "choose_workflow eng command event_type action data = Some w"
  shows "routes_to eng command event_type action data w"
proof (cases command)
  case None
  then show ?thesis
    using assms by (auto simp only: choose_workflow_def routes_to_def option.case Let_def dest!: find_split split: if_splits)
next
  case (Some c)
  then show ?thesis using assms by (simp add: choose_workflow_def routes_to_def)
qed

definition with_command :: "string option \<Rightarrow> json dict \<Rightarrow> json dict" where
  "with_command command base = (case command of None \<Rightarrow> base | Some c \<Rightarrow> dict_set ''command'' (JStr c) base)"

definition routed_job :: "webhook_config \<Rightarrow> (json \<Rightarrow> int option) \<Rightarrow> string \<Rightarrow> json dict \<Rightarrow> json \<Rightarrow> bool" where
  "routed_job cfg as_int event_type data job \<longleftrightarrow>
     (\<exists>action repo command user_query fs base ref w actor.
        jget (JObj data) ''action'' (JStr []) = Inr action \<and>
        jget2 (JObj data) ''repository'' ''full_name'' JNull = Inr repo \<and>
        event_fields event_type action (JObj data) = Inr base \<and>
        comment_overlay event_type action (JObj data) = Inr (Go command user_query) \<and>
        extract_fields as_int (wc_rules cfg) event_type (action_text action) data = Inr fs \<and>
        job_ref event_type (JObj data) fs = Inr ref \<and>
        routes_to (wc_engine cfg) command event_type action (JObj data) w \<and> w \<noteq> [] \<and>
        jget2 (JObj data) ''sender'' ''login'' (JStr []) = Inr actor \<and> \<not> skips_self cfg w actor \<and>
        job = agent_job repo fs (dict_update (with_command command base) (ef_extra fs)) user_query ref w)"

lemma route_event_log:
  assumes "route_event cfg as_int (log_queues up) event_type data action repo (with_command command base) command user_query s =
      (r, s')"
    and "event_fields event_type action (JObj data) = Inr base"
    and "jget (JObj data) ''action'' (JStr []) = Inr action"
    and "jget2 (JObj data) ''repository'' ''full_name'' JNull = Inr repo"
    and "comment_overlay event_type action (JObj data) = Inr (Go command user_query)"
  shows "s' = s \<or> (\<exists>job. s' = s @ [(''jobs'', job)] \<and> routed_job cfg as_int event_type data job \<and>
           r = Inr (reply ''accepted'' ''Agent is processing your request''))"
  using assms unfolding route_event_def
  by (auto simp: io_simps log_publish_def routed_job_def Let_def simp del: jget.simps
      split: sum.splits option.splits if_splits intro: choose_workflow_routes)

lemma handle_thread_event_log:
  assumes "handle_thread_event cfg as_int (log_queues up) event_type data action repo s = (r, s')"
    and "jget (JObj data) ''action'' (JStr []) = Inr action"
    and "jget2 (JObj data) ''repository'' ''full_name'' JNull = Inr repo"
  shows "s' = s \<or> (\<exists>job. s' = s @ [(''jobs'', job)] \<and> routed_job cfg as_int event_type data job \<and>
           r = Inr (reply ''accepted'' ''Agent is processing your request''))"
proof (cases "event_fields event_type action (JObj data)")
  case (Inl e)
  with assms(1) show ?thesis by (auto simp: handle_thread_event_def io_simps)
next
  case base: (Inr base)
  show ?thesis
  proof (cases "comment_overlay event_type action (JObj data)")
    case (Inl e)
    with assms(1) base show ?thesis by (auto simp: handle_thread_event_def io_simps)
  next
    case ov: (Inr ov)
    show ?thesis
    proof (cases ov)
      case (Stop m)
      with assms(1) base ov show ?thesis by (auto simp: handle_thread_event_def io_simps)
    next
      case (Go command user_query)
      with assms(1) base ov have "route_event cfg as_int (log_queues up) event_type data action repo (with_command command base)
          command user_query s = (r, s')"
        by (simp add: handle_thread_event_def io_bind_run io_of_result_run with_command_def)
      from route_event_log [OF this base assms(2,3)] ov Go show ?thesis by simp
    qed
  qed
qed

lemma handle_cleanup_log:
  assumes "handle_cleanup cfg (log_queues up) event_type data action repo s = (r, s')"
  obtains ms where "s' = s @ map (\<lambda>m. (''cleanup'', JObj m)) ms" "length ms \<le> 1"
    "\<And>m. m \<in> set ms \<Longrightarrow> build_cleanup_message event_type action (JObj data) repo = Inr (Some m) \<and>
       event_type \<in> set [''pull_request'', ''issues'', ''delete'']"
proof (cases "s' = s")
  case True
  then show ?thesis using that [of "[]"] by simp
next
  case False
  with assms obtain m where "build_cleanup_message event_type action (JObj data) repo = Inr (Some m)"
    "s' = s @ [(''cleanup'', JObj m)]" "event_type \<in> set [''pull_request'', ''issues'', ''delete'']"
    unfolding handle_cleanup_def
    by (auto simp: io_simps log_publish_def split: sum.splits option.splits if_splits)
  then show ?thesis using that [of "[m]"] by simp
qed

text \<open>What one request sends: a sync request, or at most one cleanup and then at most one job.\<close>

lemma handle_event_log:
  assumes "handle_event cfg as_int (log_queues up) rq [] = (r, sent)" and "rq_event rq \<noteq> ''push''" and "sent \<noteq> []"
  obtains data ms jobs where "rq_data rq = Some (JObj data)"
    "sent = map (\<lambda>m. (''cleanup'', JObj m)) ms @ map (Pair ''jobs'') jobs" "length ms \<le> 1" "length jobs \<le> 1"
    "\<And>m. m \<in> set ms \<Longrightarrow> \<exists>action repo. build_cleanup_message (rq_event rq) action (JObj data) repo = Inr (Some m) \<and>
       rq_event rq \<in> set [''pull_request'', ''issues'', ''delete'']"
    "\<And>job. job \<in> set jobs \<Longrightarrow> routed_job cfg as_int (rq_event rq) data job \<and>
       r = Inr (reply ''accepted'' ''Agent is processing your request'')"
proof -
  from assms obtain data action repo early s1 where d: "rq_data rq = Some (JObj data)"
    and a: "jget (JObj data) ''action'' (JStr []) = Inr action"
    and p: "jget2 (JObj data) ''repository'' ''full_name'' JNull = Inr repo"
    and c: "handle_cleanup cfg (log_queues up) (rq_event rq) data action repo [] = (early, s1)"
    and h: "s1 = sent \<or> early = Inr None \<and>
      handle_thread_event cfg as_int (log_queues up) (rq_event rq) data action repo s1 = (r, sent)"
    unfolding handle_event_def
    by (auto simp: io_simps jget2_def split: sum.splits option.splits json.splits prod.splits)
  obtain ms where ms: "s1 = map (\<lambda>m. (''cleanup'', JObj m)) ms" "length ms \<le> 1"
    "\<And>m. m \<in> set ms \<Longrightarrow> build_cleanup_message (rq_event rq) action (JObj data) repo = Inr (Some m) \<and>
       rq_event rq \<in> set [''pull_request'', ''issues'', ''delete'']"
    using handle_cleanup_log [OF c] by auto
  from h consider "sent = s1"
    | job where "sent = s1 @ [(''jobs'', job)]" "routed_job cfg as_int (rq_event rq) data job"
        "r = Inr (reply ''accepted'' ''Agent is processing your request'')"
    using handle_thread_event_log [OF _ a p] by blast
  then show ?thesis
  proof cases
    case 1
    show ?thesis by (rule that [OF d, of ms "[]"]) (use 1 ms in auto)
  next
    case (2 job)
    show ?thesis by (rule that [OF d, of ms "[job]"]) (use 2 ms in auto)
  qed
qed

lemma webhook_log:
  assumes "webhook hexdigest cfg as_int (log_queues up) rq s = (r, sent)" and "sent \<noteq> s"
  obtains r' where "authentic hexdigest cfg rq" "handle_event cfg as_int (log_queues up) rq s = (r', sent)"
    "\<And>x. r' = Inr x \<Longrightarrow> r = Inr x"
  using assms
  by (auto simp: webhook_def authentic_def io_simps split: sum.splits if_splits prod.splits)

lemma push_log:
  assumes "handle_event cfg as_int (log_queues up) rq [] = (r, sent)" and "rq_event rq = ''push''"
  shows "\<forall>e \<in> set sent. fst e = ''sync''"
  using assms
  by (auto simp: handle_event_def io_simps log_publish_def Let_def split: sum.splits option.splits json.splits if_splits)

lemma published_job_routed:
  assumes "webhook hexdigest cfg as_int (log_queues up) rq [] = (r, sent)" and "(''jobs'', job) \<in> set sent"
  shows "authentic hexdigest cfg rq \<and> rq_event rq \<noteq> ''push'' \<and>
     r = Inr (reply ''accepted'' ''Agent is processing your request'') \<and>
     (\<exists>data ms. rq_data rq = Some (JObj data) \<and> routed_job cfg as_int (rq_event rq) data job \<and>
        sent = map (\<lambda>m. (''cleanup'', JObj m)) ms @ [(''jobs'', job)] \<and> length ms \<le> 1)"
proof -
  from assms(2) have "sent \<noteq> []" by auto
  then obtain r' where auth: "authentic hexdigest cfg rq"
    and h: "handle_event cfg as_int (log_queues up) rq [] = (r', sent)" and r': "\<And>x. r' = Inr x \<Longrightarrow> r = Inr x"
    using webhook_log [OF assms(1)] by blast
  have np: "rq_event rq \<noteq> ''push''"
  proof
    assume "rq_event rq = ''push''"
    from push_log [OF h this] assms(2) show False by force
  qed
  obtain data ms jobs where d: "rq_data rq = Some (JObj data)"
    and sent: "sent = map (\<lambda>m. (''cleanup'', JObj m)) ms @ map (Pair ''jobs'') jobs" "length ms \<le> 1" "length jobs \<le> 1"
    and jobs: "\<And>j. j \<in> set jobs \<Longrightarrow> routed_job cfg as_int (rq_event rq) data j \<and>
       r' = Inr (reply ''accepted'' ''Agent is processing your request'')"
    by (rule handle_event_log [OF h np \<open>sent \<noteq> []\<close>]) blast
  from assms(2) sent have "job \<in> set jobs" by auto
  with sent(3) have "jobs = [job]" by (cases jobs) auto
  with jobs [OF \<open>job \<in> set jobs\<close>] sent d auth np r' show ?thesis by auto
qed


subsection \<open>A pull request that is queued\<close>

definition pr_event_data :: "string \<Rightarrow> json dict \<Rightarrow> json dict \<Rightarrow> json dict" where
  "pr_event_data action pd inst =
     [(''event_type'', JStr ''pull_request''), (''action'', JStr action),
      (''issue_state'', py_or (opt_default JNull (dict_get pd ''state'')) (JStr ''open'')),
      (''installation_id'', JStr (py_str (opt_default (JStr []) (dict_get inst ''id''))))]"

definition pr_fields :: "int \<Rightarrow> string \<Rightarrow> extracted_fields" where
  "pr_fields n user = \<lparr>ef_issue_number = Some n, ef_ref = ''refs/pull/'' @ show_int n @ ''/head'', ef_user = user, ef_extra = []\<rparr>"

lemma no_pr_cleanup:
  assumes "act \<notin> {''closed'', ''reopened''}"
  shows "build_cleanup_message ''pull_request'' (JStr act) data repo = Inr None"
  using assms by (simp add: build_cleanup_message_def thread_block_def)

lemma pr_extracted:
  assumes "dict_get data ''pull_request'' = Some (JObj pd)" and "dict_get pd ''number'' = Some (JInt n)"
    and "dict_get pd ''user'' = Some (JObj ud)" and "dict_get ud ''login'' = Some (JStr user)" and "user \<noteq> []"
    and "as_int (JInt n) = Some n"
  shows "extract_fields as_int EXTRACTION_RULES ''pull_request'' action data = Inr (pr_fields n user)"
proof -
  have pr: "''pull_request'' \<in> set pr_events" by (simp add: pr_events_def)
  have cfg: "dict_get EXTRACTION_RULES ''pull_request'' = Some (event_config
      (Some (required_rule ''pull_request.number'')) (Some (rule ''pull_request.number''))
      (rule ''pull_request.user.login'') [])"
    by (rule thread_rule) (simp add: THREAD_RULES_def)
  show ?thesis
    using assms
    by (simp add: extract_fields_def find_config_event cfg event_config_def required_rule_def rule_def
        extract_field_def resolve_ref_def extracted_def pr_strategy [OF pr] py_or_def resolve_path_def
        resolve_path_or_def pr_fields_def)
qed


definition concat_digest :: "string \<Rightarrow> string \<Rightarrow> string" where
  "concat_digest secret body = secret @ body"

definition sample_job :: json where
  "sample_job = agent_job (JStr ''o/r'') (pr_fields 7 ''ann'')
     (pr_event_data ''opened'' [] [(''id'', JInt 5)]) [] ''refs/pull/7/head'' ''review-pr''"

lemma sample_run:
  "webhook concat_digest sample_config json_int (log_queues (\<lambda>_. True)) (sample_request ''sha256=s3cretbody'') [] =
     (Inr (reply ''accepted'' ''Agent is processing your request''), [(''jobs'', sample_job)])"
  by code_simp


lemma sample_candidate:
  "List.find (\<lambda>w. check_filters (wc_engine sample_config) w (JObj sample_pr) (Some ''pull_request.opened''))
     (get_workflow_for_event (wc_engine sample_config) ''pull_request'' (Some ''opened'')) = Some ''review-pr''"
  "\<not> should_skip_self (wc_engine sample_config) ''review-pr'' ''ann'' ''bot''"
  by code_simp+


subsection \<open>Commands\<close>

lemma not_space_newline: "\<not> is_space c \<Longrightarrow> c \<noteq> CHR 0x0A"
  by (auto simp: is_space_def)

lemma str_strip_keep:
  assumes "s \<noteq> []" and "\<not> is_space (hd s)" and "\<not> is_space (List.last s)"
  shows "str_strip s = s"
proof -
  have "dropWhile is_space s = s" using assms(1,2) by (cases s) auto
  moreover have "dropWhile is_space (rev s) = rev s" using assms(1,3) by (cases s rule: rev_cases) auto
  ultimately show ?thesis by (simp add: str_strip_def str_lstrip_def str_rstrip_def)
qed

text \<open>Stripping a text that starts with a kept part only shortens what follows that part.\<close>

lemma str_strip_append:
  assumes "s \<noteq> []" and "\<not> is_space (hd s)" and "\<not> is_space (List.last s)"
  obtains t where "str_strip (s @ tail) = s @ t" "prefix t tail"
proof -
  have l: "dropWhile is_space (s @ tail) = s @ tail" using assms(1,2) by (cases s) auto
  have keep: "dropWhile is_space (rev s) = rev s" using assms(1,3) by (cases s rule: rev_cases) auto
  show ?thesis
  proof (cases "\<forall>c \<in> set tail. is_space c")
    case True
    then have "dropWhile is_space (rev tail @ rev s) = rev s" 
      using keep by (subst dropWhile_append2) simp_all
    then show ?thesis using that [of "[]"] l by (simp add: str_strip_def str_lstrip_def str_rstrip_def)
  next
    case False
    then have "dropWhile is_space (rev tail @ rev s) = dropWhile is_space (rev tail) @ rev s"
      by (auto simp: dropWhile_append1)
    moreover have "prefix (rev (dropWhile is_space (rev tail))) tail"
      using suffix_dropWhile [of is_space "rev tail"] by (simp add: suffix_to_prefix)
    ultimately show ?thesis
      using that [of "rev (dropWhile is_space (rev tail))"] l by (simp add: str_strip_def str_lstrip_def str_rstrip_def)
  qed
qed

text \<open>
  A comment that starts with a slash word followed by blanks and a query is read as that
  command with that query. Whatever follows the query's first line break is not part of it:
  a query over several lines is cut to its first line.
\<close>

theorem command_query_first_line:
  assumes "word \<noteq> []" and "list_all (\<lambda>c. \<not> is_space c) word"
    and "blanks \<noteq> []" and "list_all is_space blanks"
    and "q \<noteq> []" and "\<not> is_space (hd q)" and "\<not> is_space (List.last q)" and "CHR 0x0A \<notin> set q"
    and "tail = [] \<or> hd tail = CHR 0x0A"
  shows "parse_command ((CHR ''/'' # word) @ blanks @ q @ tail) = Some (CHR ''/'' # word, q)"
proof -
  let ?s = "(CHR ''/'' # word) @ blanks @ q"
  have slash: "\<not> is_space (CHR ''/'')" by (simp add: is_space_def)
  obtain t where t: "str_strip (?s @ tail) = ?s @ t" "prefix t tail"
    by (rule str_strip_append [of ?s tail]) (use assms slash in auto)
  have ht: "t = [] \<or> hd t = CHR 0x0A"
    using t(2) assms(9) by (cases t; cases tail) auto
  have w: "takeWhile (\<lambda>x. \<not> is_space x) (word @ blanks @ q @ t) = word"
    "dropWhile (\<lambda>x. \<not> is_space x) (word @ blanks @ q @ t) = blanks @ q @ t"
    using assms(2,3,4) by (auto simp: takeWhile_append2 dropWhile_append2 list_all_iff takeWhile_eq_Nil_iff
        dropWhile_eq_self_iff neq_Nil_conv)
  have b: "dropWhile is_space (blanks @ q @ t) = q @ t"
    using assms(4,5,6) by (cases q) (auto simp: dropWhile_append2 list_all_iff)
  have "takeWhile (\<lambda>x. x \<noteq> CHR 0x0A) (q @ t) = q @ takeWhile (\<lambda>x. x \<noteq> CHR 0x0A) t"
    by (rule takeWhile_append2) (use assms(8) in auto)
  moreover have "takeWhile (\<lambda>x. x \<noteq> CHR 0x0A) t = []" using ht by (cases t) auto
  ultimately have l: "takeWhile (\<lambda>x. x \<noteq> CHR 0x0A) (q @ t) = q" by simp
  have "match_command (?s @ t) = Some (CHR ''/'' # word, q)"
    using assms(1) w b l by (simp add: match_command_def Let_def)
  then show ?thesis
    using t(1) str_strip_keep [OF assms(5-7)] by (simp add: parse_command_def)
qed

theorem command_query_first_line_witness:
  "parse_command (''/review'' @ '' '' @ ''look here'' @ [CHR 0x0A] @ ''and there'') = Some (''/review'', ''look here'')"
  using command_query_first_line [of "''review''" "'' ''" "''look here''" "CHR 0x0A # ''and there''"]
  by (simp add: is_space_def)

subsection \<open>Cleanup requests\<close>

text \<open>
  The function that builds cleanup messages answers a closed, deleted or locked discussion
  with a request to expire its thread, but the handler asks it only for pull requests, issues and
  deleted references: no request about a discussion ever publishes a cleanup.
\<close>

theorem discussion_cleanup_unreachable:
  assumes "rq_event rq = ''discussion''" and "rq_data rq = Some (JObj data)"
    and "dict_get data ''discussion'' = Some (JObj dd)" and "dict_get dd ''number'' = Some (JInt n)" and "n \<noteq> 0"
    and "action \<in> {''closed'', ''deleted'', ''locked''}"
    and "webhook hexdigest cfg as_int (log_queues up) rq [] = (r, sent)"
  shows "build_cleanup_message (rq_event rq) (JStr action) (JObj data) repo =
       Inr (Some (thread_message ''expire_thread'' repo ''discussion'' (JInt n))) \<and>
     (\<forall>m. (''cleanup'', m) \<notin> set sent)"
proof
  show "build_cleanup_message (rq_event rq) (JStr action) (JObj data) repo =
       Inr (Some (thread_message ''expire_thread'' repo ''discussion'' (JInt n)))"
    using assms(1-6) by (auto simp: build_cleanup_message_def thread_block_def jget2_def Let_def)
  show "\<forall>m. (''cleanup'', m) \<notin> set sent"
  proof (cases "sent = []")
    case False
    then obtain r' where h: "handle_event cfg as_int (log_queues up) rq [] = (r', sent)"
      using webhook_log [OF assms(7)] by blast
    have np: "rq_event rq \<noteq> ''push''" using assms(1) by simp
    obtain ms jobs where s: "sent = map (\<lambda>m. (''cleanup'', JObj m)) ms @ map (Pair ''jobs'') jobs"
      and ms: "\<And>m. m \<in> set ms \<Longrightarrow> rq_event rq \<in> set [''pull_request'', ''issues'', ''delete'']"
      by (rule handle_event_log [OF h np False]) blast
    have "ms = []" using ms assms(1) by (cases ms) auto
    with s show ?thesis by auto
  qed simp
qed

definition sample_discussion :: "json dict" where
  "sample_discussion = [(''action'', JStr ''closed''), (''repository'', JObj [(''full_name'', JStr ''o/r'')]),
     (''discussion'', JObj [(''number'', JInt 3)])]"

definition discussion_request :: request where
  "discussion_request = \<lparr>rq_payload = ''body'', rq_signature = ''sha256=s3cretbody'', rq_event = ''discussion'',
     rq_data = Some (JObj sample_discussion)\<rparr>"

lemma discussion_run:
  "webhook concat_digest sample_config json_int (log_queues (\<lambda>_. True)) discussion_request [] =
     (Inr (reply ''ignored'' ''No workflow configured for this event''), [])"
  by code_simp

theorem discussion_cleanup_unreachable_witness:
  "build_cleanup_message ''discussion'' (JStr ''closed'') (JObj sample_discussion) (JStr ''o/r'') =
     Inr (Some (thread_message ''expire_thread'' (JStr ''o/r'') ''discussion'' (JInt 3)))"
  using discussion_cleanup_unreachable [OF _ _ _ _ _ _ discussion_run, of sample_discussion
      "[(''number'', JInt 3)]" 3 "''closed''" "JStr ''o/r''"]
  by (simp add: discussion_request_def sample_discussion_def)

end
