(* ===== verification/Message_Queue.thy ===== *)
theory Message_Queue
  imports Retry Fifo
begin

text \<open>
  \<^verbatim>\<open>shared/queue.py\<close>: the Redis and Pub/Sub message queues, and the two functions that wait
  for another service by listening on a channel. The Pub/Sub client, the channel subscription and
  the environment variables are parameters. A listening loop consumes the list of messages that
  arrive, each with the clock reading at its arrival; when the list runs out, the stream has
  ended or is silent.
\<close>

section \<open>The Redis queue\<close>

record redis_queue =
  mq_url :: string
  mq_name :: string
  mq_connected :: bool
  mq_running :: bool

definition mq_connect :: "'s env \<Rightarrow> redis_queue \<Rightarrow> ('s, redis_queue) io" where
  "mq_connect E q =
     (if mq_connected q then io_ret q
      else io_try (io_then (x_connect E (if mq_url q \<noteq> [] then mq_url q else ''redis://localhost:6379''))
             (io_ret (q\<lparr>mq_connected := True\<rparr>)))
        (\<lambda>e. if exc_isinstance e ImportError
             then io_raise (Exn QueueError ''redis package is required for RedisQueue'')
             else if exc_isinstance e OSError
             then io_raise (Exn QueueError (''Failed to connect to Redis: '' @ exc_msg e))
             else io_raise e))"

definition mq_publish :: "'s env \<Rightarrow> redis_queue \<Rightarrow> json \<Rightarrow> ('s, redis_queue) io" where
  "mq_publish E q message =
     io_try
       (io_bind (mq_connect E q) (\<lambda>q'.
        io_then (x_rpush E (mq_name q') (x_dumps E message)) (io_ret q')))
       (\<lambda>e. if exc_isinstance e OSError
            then io_raise (Exn QueueError (''Failed to publish message to Redis: '' @ exc_msg e))
            else if exc_isinstance e TypeError \<or> exc_isinstance e ValueError
            then io_raise (Exn QueueError (''Failed to serialize message: '' @ exc_msg e))
            else io_raise e)"

text \<open>One turn of the loop of \<open>subscribe\<close>, and the loop for as many turns as \<open>_running\<close> allows.\<close>

definition mq_receive :: "'s env \<Rightarrow> string \<Rightarrow> ('s, json option) io" where
  "mq_receive E name =
     io_bind (x_blpop E name 1) (\<lambda>result. case result of
         None \<Rightarrow> io_ret None
       | Some message_json \<Rightarrow>
           (case x_loads E message_json of
              None \<Rightarrow> io_raise (Exn JSONDecodeError message_json)
            | Some message \<Rightarrow> io_ret (Some message)))"

definition mq_turn :: "'s env \<Rightarrow> (real \<Rightarrow> ('s, unit) io) \<Rightarrow> string \<Rightarrow> (json \<Rightarrow> ('s, unit) io) \<Rightarrow> ('s, unit) io" where
  "mq_turn E sleep name callback =
     io_try
       (io_bind (mq_receive E name) (\<lambda>result. case result of None \<Rightarrow> io_ret () | Some message \<Rightarrow> callback message))
       (\<lambda>e. if exc_isinstance e JSONDecodeError then io_ret () else sleep 1)"

fun mq_turns ::
  "'s env \<Rightarrow> (real \<Rightarrow> ('s, unit) io) \<Rightarrow> string \<Rightarrow> (json \<Rightarrow> ('s, unit) io) \<Rightarrow> nat \<Rightarrow> ('s, unit) io" where
  "mq_turns E sleep name callback 0 = io_ret ()"
| "mq_turns E sleep name callback (Suc n) =
     io_then (mq_turn E sleep name callback) (mq_turns E sleep name callback n)"

definition mq_subscribe ::
  "'s env \<Rightarrow> (real \<Rightarrow> ('s, unit) io) \<Rightarrow> redis_queue \<Rightarrow> (json \<Rightarrow> ('s, unit) io) \<Rightarrow> nat \<Rightarrow> ('s, redis_queue) io" where
  "mq_subscribe E sleep q callback turns =
     io_bind (mq_connect E q) (\<lambda>q'.
     io_then (mq_turns E sleep (mq_name q') callback turns) (io_ret (q'\<lparr>mq_running := True\<rparr>)))"

definition mq_close :: "('s, unit) io \<Rightarrow> redis_queue \<Rightarrow> ('s, redis_queue) io" where
  "mq_close aclose q =
     (let q' = q\<lparr>mq_running := False\<rparr> in
      if mq_connected q' then io_then aclose (io_ret q') else io_ret q')"

section \<open>Pub/Sub\<close>

text \<open>
  \<open>import_pubsub\<close> is the import of the client library, \<open>send\<close> its \<open>publish\<close> with the wait for
  the result. A received message is acknowledged after the callback, and rejected when decoding,
  the callback or the acknowledgement fails; \<open>loads\<close> includes the decoding of the bytes.
\<close>

definition pubsub_publish :: "(json \<Rightarrow> string) \<Rightarrow> ('s, unit) io \<Rightarrow> (string \<Rightarrow> ('s, unit) io) \<Rightarrow> json \<Rightarrow> ('s, unit) io" where
  "pubsub_publish dumps import_pubsub send message =
     io_then
       (io_try import_pubsub (\<lambda>e. if exc_isinstance e ImportError
          then io_raise (Exn QueueError ''google-cloud-pubsub is required for PubSubQueue'') else io_raise e))
       (io_try (send (dumps message))
          (\<lambda>e. if exc_isinstance e TypeError \<or> exc_isinstance e ValueError
               then io_raise (Exn QueueError (''Failed to serialize message: '' @ exc_msg e))
               else io_raise (Exn QueueError (''Failed to publish to Pub/Sub: '' @ exc_msg e))))"

definition pubsub_on_message ::
  "(string \<Rightarrow> json option) \<Rightarrow> (json \<Rightarrow> ('s, unit) io) \<Rightarrow> ('s, unit) io \<Rightarrow> ('s, unit) io \<Rightarrow> string \<Rightarrow> ('s, unit) io" where
  "pubsub_on_message loads callback ack nack data =
     io_try
       (case loads data of
          None \<Rightarrow> io_raise (Exn JSONDecodeError data)
        | Some d \<Rightarrow> io_then (callback d) ack)
       (\<lambda>e. nack)"

datatype message_queue = RedisQueue redis_queue | PubSubQueue string

definition get_queue :: "string \<Rightarrow> string \<Rightarrow> string \<Rightarrow> message_queue" where
  "get_queue queue_type redis_url queue_name =
     (if str_lower queue_type = ''pubsub'' then PubSubQueue queue_name
      else RedisQueue \<lparr>mq_url = redis_url, mq_name = queue_name, mq_connected = False, mq_running = False\<rparr>)"

section \<open>Waiting for another service\<close>

record channel_message =
  cm_type :: string
  cm_data :: string

text \<open>The subscription object and the file system as the functions use them.\<close>

record 's pubsub =
  ps_subscribe :: "string \<Rightarrow> ('s, unit) io"
  ps_unsubscribe :: "string \<Rightarrow> ('s, unit) io"
  ps_close :: "('s, unit) io"

datatype verdict = Irrelevant | Complete | Failure string | Malformed exn

definition event_verdict :: "(string \<Rightarrow> json option) \<Rightarrow> string \<Rightarrow> string \<Rightarrow> channel_message \<Rightarrow> verdict" where
  "event_verdict loads repo ref m =
     (if cm_type m \<noteq> ''message'' then Irrelevant
      else
        (case loads (cm_data m) of
           None \<Rightarrow> Irrelevant
         | Some (JObj event) \<Rightarrow>
             if dict_get event ''repo'' = Some (JStr repo) \<and> dict_get event ''ref'' = Some (JStr ref) then
               (if dict_get event ''status'' = Some (JStr ''complete'') then Complete
                else if dict_get event ''status'' = Some (JStr ''error'')
                then Failure (py_str (opt_default (JStr ''unknown error'') (dict_get event ''error'')))
                else Irrelevant)
             else Irrelevant
         | Some _ \<Rightarrow> Malformed (Exn AttributeError ''get'')))"

definition sync_error :: "string \<Rightarrow> exn" where
  "sync_error m = Exn RepositorySyncError m"

text \<open>\<open>None\<close>: the loop is still waiting for a message.\<close>

fun sync_listen ::
  "(string \<Rightarrow> json option) \<Rightarrow> string \<Rightarrow> string \<Rightarrow> string \<Rightarrow> int \<Rightarrow> real \<Rightarrow> (real \<times> channel_message) list \<Rightarrow> bool \<Rightarrow>
   string result option" where
  "sync_listen loads repo ref repo_dir timeout start [] ended =
     (if ended then Some (Inl (sync_error (''Sync event stream ended unexpectedly for '' @ repo @
        '' - no completion event received''))) else None)"
| "sync_listen loads repo ref repo_dir timeout start ((now, m) # ms) ended =
     (if now - start > of_int timeout
      then Some (Inl (sync_error (''Sync timeout for '' @ repo @ '' after '' @ show_int timeout @
             ''s - repo sync worker may be down'')))
      else (case event_verdict loads repo ref m of
          Complete \<Rightarrow> Some (Inr repo_dir)
        | Failure msg \<Rightarrow> Some (Inl (sync_error (''Repo sync failed for '' @ repo @ '': '' @ msg)))
        | Malformed e \<Rightarrow> Some (Inl e)
        | Irrelevant \<Rightarrow> sync_listen loads repo ref repo_dir timeout start ms ended))"

definition request_repo_sync :: "(json \<Rightarrow> ('s, unit) io) \<Rightarrow> string \<Rightarrow> string \<Rightarrow> ('s, unit) io" where
  "request_repo_sync publish repo ref = publish (JObj [(''repo'', JStr repo), (''ref'', JStr ref)])"

definition sync_complete_key :: "string \<Rightarrow> string \<Rightarrow> string" where
  "sync_complete_key repo ref = ''agent:sync:complete:'' @ repo @ '':'' @ ref"

definition sync_lock_key :: "string \<Rightarrow> string" where
  "sync_lock_key repo = ''agent:sync:lock:'' @ repo"

definition bare_repo_dir :: "string \<Rightarrow> string" where
  "bare_repo_dir repo = ''/var/cache/repos/'' @ repo @ ''.git''"

definition unsubscribe_close :: "'s pubsub \<Rightarrow> string \<Rightarrow> ('s, unit) io" where
  "unsubscribe_close P channel = io_then (ps_unsubscribe P channel) (ps_close P)"

definition wait_for_repo_sync ::
  "'s env \<Rightarrow> (string \<Rightarrow> bool) \<Rightarrow> (json \<Rightarrow> ('s, unit) io) \<Rightarrow> 's pubsub \<Rightarrow> string \<Rightarrow> string \<Rightarrow> int \<Rightarrow> real \<Rightarrow>
   (real \<times> channel_message) list \<Rightarrow> bool \<Rightarrow> ('s, string option) io" where
  "wait_for_repo_sync E path_exists publish P repo ref timeout start arrivals ended =
     io_bind (x_get E (sync_complete_key repo ref)) (\<lambda>is_complete.
       if opt_default [] is_complete \<noteq> [] \<and> path_exists (bare_repo_dir repo) then io_ret (Some (bare_repo_dir repo))
       else
         io_bind (x_exists E (sync_lock_key repo)) (\<lambda>lock_held.
         io_then (io_when (\<not> lock_held) (request_repo_sync publish repo ref))
         (io_then (ps_subscribe P ''agent:sync:events'')
           (case sync_listen (x_loads E) repo ref (bare_repo_dir repo) timeout start arrivals ended of
              None \<Rightarrow> io_ret None
            | Some r \<Rightarrow> io_finally (io_of_result (map_sum id Some r)) (unsubscribe_close P ''agent:sync:events'')))))"

text \<open>
  \<open>asyncio.wait_for\<close> cancels the listener at the deadline, whether or not a message arrives.
\<close>

fun indexing_listen ::
  "(string \<Rightarrow> json option) \<Rightarrow> string \<Rightarrow> string \<Rightarrow> real \<Rightarrow> (real \<times> channel_message) list \<Rightarrow> bool \<Rightarrow> unit result" where
  "indexing_listen loads repo ref deadline [] ended =
     (if ended then Inr () else Inl (Exn TimeoutError []))"
| "indexing_listen loads repo ref deadline ((now, m) # ms) ended =
     (if now > deadline then Inl (Exn TimeoutError [])
      else (case event_verdict loads repo ref m of
          Complete \<Rightarrow> Inr ()
        | Failure msg \<Rightarrow> Inr ()
        | Malformed e \<Rightarrow> Inl e
        | Irrelevant \<Rightarrow> indexing_listen loads repo ref deadline ms ended))"

definition indexing_configured :: "string \<Rightarrow> string \<Rightarrow> bool" where
  "indexing_configured indexing_enabled gemini_key =
     (str_lower indexing_enabled = ''true'' \<and> gemini_key \<noteq> [])"

definition indexing_timeout :: "string \<Rightarrow> int \<Rightarrow> exn" where
  "indexing_timeout repo timeout = Exn IndexingTimeoutError
     (''Indexing wait timeout for '' @ repo @ '' after '' @ show_int timeout @
      ''s - indexing worker may be down or slow'')"

definition wait_for_indexing ::
  "'s env \<Rightarrow> bool \<Rightarrow> 's pubsub \<Rightarrow> string \<Rightarrow> string \<Rightarrow> int \<Rightarrow> real \<Rightarrow> (real \<times> channel_message) list \<Rightarrow> bool \<Rightarrow> ('s, unit) io" where
  "wait_for_indexing E configured P repo ref timeout start arrivals ended =
     (if \<not> configured then io_ret ()
      else
        io_bind (io_try (x_hget E (''agent:indexing:meta:'' @ repo) ref) (\<lambda>e. io_ret None)) (\<lambda>existing.
          if opt_default [] existing \<noteq> [] then io_ret ()
          else
            io_then (ps_subscribe P ''agent:indexing:events'')
              (io_finally
                (io_try (io_of_result (indexing_listen (x_loads E) repo ref (start + of_int timeout) arrivals ended))
                   (\<lambda>e. if exc_isinstance e TimeoutError then io_raise (indexing_timeout repo timeout) else io_raise e))
                (unsubscribe_close P ''agent:indexing:events''))))"

section \<open>The queue as a first-in first-out queue\<close>

context redis_server
begin

lemma sim_result [sim_intros]:
  "(\<And>x. sim view healthy (f x) (g x)) \<Longrightarrow> sim view healthy m n \<Longrightarrow>
   sim view healthy (case r of Some x \<Rightarrow> f x | None \<Rightarrow> m) (case r of Some x \<Rightarrow> g x | None \<Rightarrow> n)"
  by (cases r) simp_all

lemma mq_publish_sim [sim_intros]: "sim view healthy (mq_publish E q m) (mq_publish (model_env E ord) q m)"
  unfolding mq_publish_def mq_connect_def model_env_codec by (intro sim_intros)

lemma mq_turn_sim [sim_intros]:
  assumes "\<And>m. sim view healthy (cb m) (cb' m)" "\<And>d. sim view healthy (sl d) (sl' d)"
  shows "sim view healthy (mq_turn E sl name cb) (mq_turn (model_env E ord) sl' name cb')"
  unfolding mq_turn_def mq_receive_def model_env_codec by (intro sim_intros assms)

lemma mq_turns_sim [sim_intros]:
  assumes "\<And>m. sim view healthy (cb m) (cb' m)" "\<And>d. sim view healthy (sl d) (sl' d)"
  shows "sim view healthy (mq_turns E sl name cb n) (mq_turns (model_env E ord) sl' name cb' n)"
  by (induction n) (auto intro!: sim_intros assms)

end

definition mq_sound :: "(string \<Rightarrow> json option) \<Rightarrow> string \<Rightarrow> rstate \<Rightarrow> bool" where
  "mq_sound loads name st \<longleftrightarrow> rlist_ok st name \<and> (\<forall>t \<in> set (rlist st name). loads t \<noteq> None)"

definition mq_items :: "(string \<Rightarrow> json option) \<Rightarrow> string \<Rightarrow> rstate \<Rightarrow> json list" where
  "mq_items loads name st = map (\<lambda>t. opt_default JNull (loads t)) (rlist st name)"

lemma mq_connect_run:
  "mq_connect (spec_env d l ord) q st = (Inr (q\<lparr>mq_connected := True\<rparr>), st)"
  by (simp add: mq_connect_def redis_simps io_simps r_connect_def)

lemma mq_publish_run:
  assumes "as_list (rlook st (mq_name q)) = Some xs"
  shows "mq_publish (spec_env d l ord) q m st =
    (Inr (q\<lparr>mq_connected := True\<rparr>), rstore (mq_name q) (RList (xs @ [d m])) st)"
  using assms by (simp add: mq_publish_def mq_connect_run redis_simps io_simps r_rpush_def)

lemma mq_receive_run:
  assumes "as_list (rlook st name) = Some xs"
  shows "mq_receive (spec_env d l ord) name st =
    (case xs of [] \<Rightarrow> (Inr None, st)
     | t # ts \<Rightarrow> (case l t of None \<Rightarrow> Inl (Exn JSONDecodeError t) | Some m \<Rightarrow> Inr (Some m),
         if ts = [] then rdrop name st else rstore name (RList ts) st))"
  using assms by (cases xs) (auto simp: mq_receive_def redis_simps io_simps r_blpop_def split: option.split)

locale mq_server = redis_server E view healthy ord
  for E :: "'s env" and view healthy ord +
  fixes q :: redis_queue
begin

definition put_message :: "json \<Rightarrow> rstate \<Rightarrow> rstate" where
  "put_message m st = snd (mq_publish (model_env E ord) q m st)"

definition take_message :: "rstate \<Rightarrow> json option \<times> rstate" where
  "take_message st = (case mq_receive (model_env E ord) (mq_name q) st of
     (Inr r, st') \<Rightarrow> (r, st') | (Inl e, st') \<Rightarrow> (None, st'))"

lemma publish_sound:
  assumes "mq_sound (x_loads E) (mq_name q) st" "json_ok m"
  shows "mq_publish (model_env E ord) q m st = (Inr (q\<lparr>mq_connected := True\<rparr>), put_message m st)"
    and "mq_sound (x_loads E) (mq_name q) (put_message m st)"
    and "mq_items (x_loads E) (mq_name q) (put_message m st) = mq_items (x_loads E) (mq_name q) st @ [m]"
    and "k \<noteq> mq_name q \<Longrightarrow> rlook (put_message m st) k = rlook st k"
proof -
  obtain xs where xs: "as_list (rlook st (mq_name q)) = Some xs"
    using assms(1) by (auto simp: mq_sound_def rlist_ok_def)
  note run = mq_publish_run [OF xs, of "x_dumps E" "x_loads E" ord m]
  show "mq_publish (model_env E ord) q m st = (Inr (q\<lparr>mq_connected := True\<rparr>), put_message m st)"
    and "mq_sound (x_loads E) (mq_name q) (put_message m st)"
    and "mq_items (x_loads E) (mq_name q) (put_message m st) = mq_items (x_loads E) (mq_name q) st @ [m]"
    and "k \<noteq> mq_name q \<Longrightarrow> rlook (put_message m st) k = rlook st k"
    using assms xs run
    by (auto simp: put_message_def model_env_def mq_sound_def mq_items_def rlist_ok_def rlist_def redis_simps loads_dumps)
qed

lemma receive_sound:
  assumes "mq_sound (x_loads E) (mq_name q) st" "mq_items (x_loads E) (mq_name q) st = m # ms"
  shows "\<exists>st'. mq_receive (model_env E ord) (mq_name q) st = (Inr (Some m), st') \<and>
    mq_sound (x_loads E) (mq_name q) st' \<and> mq_items (x_loads E) (mq_name q) st' = ms \<and>
    (\<forall>k. k \<noteq> mq_name q \<longrightarrow> rlook st' k = rlook st k)"
proof -
  obtain t ts where ts: "as_list (rlook st (mq_name q)) = Some (t # ts)" "x_loads E t = Some m"
      "map (\<lambda>t. opt_default JNull (x_loads E t)) ts = ms" "\<forall>t \<in> set ts. x_loads E t \<noteq> None"
    using assms by (cases "rlist st (mq_name q)") (auto simp: mq_sound_def mq_items_def rlist_ok_def rlist_def)
  then show ?thesis
    using mq_receive_run [OF ts(1), of "x_dumps E" "x_loads E" ord]
    by (auto simp: model_env_def mq_sound_def mq_items_def rlist_ok_def rlist_def redis_simps)
qed

end

sublocale mq_server \<subseteq> messages: fifo "mq_sound (x_loads E) (mq_name q)" "mq_items (x_loads E) (mq_name q)"
  "\<lambda>m _. json_ok m" put_message take_message
proof
  fix st m
  assume "mq_sound (x_loads E) (mq_name q) st" "json_ok m"
  then show "mq_sound (x_loads E) (mq_name q) (put_message m st)"
    and "mq_items (x_loads E) (mq_name q) (put_message m st) = mq_items (x_loads E) (mq_name q) st @ [m]"
    by (rule publish_sound)+
next
  fix st
  assume "mq_sound (x_loads E) (mq_name q) st" "mq_items (x_loads E) (mq_name q) st = []"
  then have "as_list (rlook st (mq_name q)) = Some []"
    by (auto simp: mq_sound_def mq_items_def rlist_ok_def rlist_def)
  then show "take_message st = (None, st)"
    by (simp add: take_message_def model_env_def mq_receive_run)
next
  fix st m ms
  assume "mq_sound (x_loads E) (mq_name q) st" "mq_items (x_loads E) (mq_name q) st = m # ms"
  from receive_sound [OF this] show "\<exists>st'. take_message st = (Some m, st') \<and>
      mq_sound (x_loads E) (mq_name q) st' \<and> mq_items (x_loads E) (mq_name q) st' = ms"
    by (auto simp: take_message_def)
qed

text \<open>
  A callback that keeps a record of what it was given in another list of the same server, and
  then fails on the messages of its choice.
\<close>

definition recording :: "'s env \<Rightarrow> string \<Rightarrow> (json \<Rightarrow> exn option) \<Rightarrow> json \<Rightarrow> ('s, unit) io" where
  "recording E seen fails m =
     io_then (x_rpush E seen (x_dumps E m))
       (case fails m of None \<Rightarrow> io_ret () | Some e \<Rightarrow> io_raise e)"

definition publish_all :: "'s env \<Rightarrow> redis_queue \<Rightarrow> json list \<Rightarrow> ('s, unit) io" where
  "publish_all E q ms = io_fold (\<lambda>_ m. io_then (mq_publish E q m) (io_ret ())) () ms"

context mq_server
begin

lemma publish_all_run:
  assumes "mq_sound (x_loads E) (mq_name q) st" "\<forall>m \<in> set ms. json_ok m"
  shows "publish_all (model_env E ord) q ms st = (Inr (), fold put_message ms st) \<and>
    (\<forall>k. k \<noteq> mq_name q \<longrightarrow> rlook (fold put_message ms st) k = rlook st k)"
  using assms
proof (induction ms arbitrary: st)
  case Nil
  then show ?case by (simp add: publish_all_def io_simps)
next
  case (Cons m ms)
  then have "json_ok m" by simp
  note m = publish_sound [OF Cons.prems(1) this]
  from Cons.IH [OF m(2)] Cons.prems m(1,4) show ?case by (simp add: publish_all_def io_simps)
qed

lemma recording_turn:
  assumes "mq_sound (x_loads E) (mq_name q) st" "mq_items (x_loads E) (mq_name q) st = m # ms"
    and "seen \<noteq> mq_name q" "rlist_ok st seen"
  shows "\<exists>st'. mq_turn (model_env E ord) (\<lambda>_. io_ret ()) (mq_name q) (recording (model_env E ord) seen fails) st = (Inr (), st') \<and>
    mq_sound (x_loads E) (mq_name q) st' \<and> mq_items (x_loads E) (mq_name q) st' = ms \<and>
    rlist_ok st' seen \<and> rlist st' seen = rlist st seen @ [x_dumps E m]"
proof -
  obtain st1 where 1: "mq_receive (model_env E ord) (mq_name q) st = (Inr (Some m), st1)"
    "mq_sound (x_loads E) (mq_name q) st1" "mq_items (x_loads E) (mq_name q) st1 = ms"
    "rlook st1 seen = rlook st seen"
    using receive_sound [OF assms(1,2)] assms(3) by blast
  obtain xs where xs: "as_list (rlook st seen) = Some xs" using assms(4) by (auto simp: rlist_ok_def)
  let ?st2 = "rstore seen (RList (xs @ [x_dumps E m])) st1"
  have "mq_turn (model_env E ord) (\<lambda>_. io_ret ()) (mq_name q) (recording (model_env E ord) seen fails) st = (Inr (), ?st2)"
    using 1(1,4) xs
    by (auto simp: mq_turn_def recording_def io_simps model_env_def redis_simps r_rpush_def split: option.split)
  moreover have "mq_sound (x_loads E) (mq_name q) ?st2" "mq_items (x_loads E) (mq_name q) ?st2 = ms"
    using 1(2,3) assms(3) by (simp_all add: mq_sound_def mq_items_def rlist_ok_def rlist_def redis_simps)
  moreover have "rlist_ok ?st2 seen" "rlist ?st2 seen = rlist st seen @ [x_dumps E m]"
    using xs by (simp_all add: rlist_ok_def rlist_def redis_simps)
  ultimately show ?thesis by blast
qed

lemma recording_turns:
  assumes "mq_sound (x_loads E) (mq_name q) st" "mq_items (x_loads E) (mq_name q) st = ms"
    and "seen \<noteq> mq_name q" "rlist_ok st seen"
  shows "\<exists>st'. mq_turns (model_env E ord) (\<lambda>_. io_ret ()) (mq_name q) (recording (model_env E ord) seen fails)
      (length ms) st = (Inr (), st') \<and>
    mq_items (x_loads E) (mq_name q) st' = [] \<and> rlist st' seen = rlist st seen @ map (x_dumps E) ms"
  using assms
proof (induction ms arbitrary: st)
  case Nil
  then show ?case by (simp add: io_simps)
next
  case (Cons m ms)
  obtain st1 where "mq_turn (model_env E ord) (\<lambda>_. io_ret ()) (mq_name q) (recording (model_env E ord) seen fails) st = (Inr (), st1)"
    "mq_sound (x_loads E) (mq_name q) st1" "mq_items (x_loads E) (mq_name q) st1 = ms"
    "rlist_ok st1 seen" "rlist st1 seen = rlist st seen @ [x_dumps E m]"
    using recording_turn [OF Cons.prems] by blast
  with Cons.IH [of st1] Cons.prems(3) show ?case by (auto simp: io_then_run)
qed

lemma publish_then_receive:
  assumes "healthy s" "rlook (view s) (mq_name q) = None" "\<forall>m \<in> set ms. json_ok m"
    and "seen \<noteq> mq_name q" "rlist_ok (view s) seen" "\<And>d. sim view healthy (sl d) (io_ret ())"
  shows "\<exists>s1 s2. publish_all E q ms s = (Inr (), s1) \<and>
    mq_turns E sl (mq_name q) (recording E seen fails) (length ms) s1 = (Inr (), s2) \<and>
    mq_items (x_loads E) (mq_name q) (view s2) = [] \<and>
    rlist (view s2) seen = rlist (view s) seen @ map (x_dumps E) ms"
proof -
  have sound: "mq_sound (x_loads E) (mq_name q) (view s)" and empty: "mq_items (x_loads E) (mq_name q) (view s) = []"
    using assms(2) by (simp_all add: mq_sound_def mq_items_def rlist_ok_def rlist_def)
  have adm: "admissible (\<lambda>m _. json_ok m) cs ms" for cs
    using assms(3) by (induction ms arbitrary: cs) auto
  let ?st = "fold put_message ms (view s)"
  note pub = publish_all_run [OF sound assms(3)]
  have "sim view healthy (publish_all E q ms) (publish_all (model_env E ord) q ms)"
    unfolding publish_all_def by (intro sim_intros)
  then obtain s1 where s1: "publish_all E q ms s = (Inr (), s1)" "view s1 = ?st" "healthy s1"
    using sim_run [OF _ assms(1)] pub by blast
  have rec_sim: "sim view healthy (recording E seen fails m) (recording (model_env E ord) seen fails m)" for m
    unfolding recording_def model_env_codec by (intro sim_intros)
  have seen: "rlist_ok ?st seen" "rlist ?st seen = rlist (view s) seen"
    using pub assms(4,5) by (simp_all add: rlist_ok_def rlist_def)
  have "mq_sound (x_loads E) (mq_name q) ?st" "mq_items (x_loads E) (mq_name q) ?st = ms"
    using messages.put_all [OF sound adm] empty by simp_all
  from recording_turns [OF this assms(4) seen(1), of fails] obtain st2 where st2:
    "mq_turns (model_env E ord) (\<lambda>_. io_ret ()) (mq_name q) (recording (model_env E ord) seen fails) (length ms) (view s1) = (Inr (), st2)"
    "mq_items (x_loads E) (mq_name q) st2 = []" "rlist st2 seen = rlist (view s) seen @ map (x_dumps E) ms"
    using s1(2) seen(2) by auto
  have "sim view healthy (mq_turns E sl (mq_name q) (recording E seen fails) (length ms))
      (mq_turns (model_env E ord) (\<lambda>_. io_ret ()) (mq_name q) (recording (model_env E ord) seen fails) (length ms))"
    by (intro mq_turns_sim rec_sim assms(6))
  from sim_run [OF this s1(3) st2(1)] s1(1) st2(2,3) show ?thesis by blast
qed

end

text \<open>
  C17: Messages published to an empty queue are handed to the subscriber's callback one per turn
  of its loop, each exactly once and in the order of publication, whichever of them the callback
  fails on; a failed message is not delivered again, and the queue is empty afterwards.
\<close>

theorem messages_delivered_in_order:
  assumes "redis_server E view healthy ord" and "healthy s" and "rlook (view s) (mq_name q) = None"
    and "\<forall>m \<in> set ms. json_ok m" and "seen \<noteq> mq_name q" and "rlist_ok (view s) seen"
    and "\<And>d. sim view healthy (sleep d) (io_ret ())"
  shows "\<exists>s1 s2. publish_all E q ms s = (Inr (), s1) \<and>
    mq_turns E sleep (mq_name q) (recording E seen fails) (length ms) s1 = (Inr (), s2) \<and>
    mq_items (x_loads E) (mq_name q) (view s2) = [] \<and>
    rlist (view s2) seen = rlist (view s) seen @ map (x_dumps E) ms"
proof -
  have "mq_server E view healthy ord" using assms(1) by (simp add: mq_server_def)
  from mq_server.publish_then_receive [OF this assms(2-7)] show ?thesis .
qed

definition sample_mq :: redis_queue where
  "sample_mq = \<lparr>mq_url = ''redis://r'', mq_name = ''agent-requests'', mq_connected = False, mq_running = False\<rparr>"

interpretation flaky_mq: mq_server flaky_env fk_state "\<lambda>w. fk_fault w = None" rev sample_mq
  by unfold_locales

theorem messages_delivered_in_order_witness:
  "\<exists>s1 s2. publish_all flaky_env sample_mq [JInt 1, JInt 2] sample_world = (Inr (), s1) \<and>
    mq_turns flaky_env (\<lambda>_. io_ret ()) ''agent-requests''
      (recording flaky_env ''seen'' (\<lambda>m. if m = JInt 1 then Some (Exn KeyError ''boom'') else None)) 2 s1 = (Inr (), s2) \<and>
    mq_items parse_json ''agent-requests'' (fk_state s2) = [] \<and>
    rlist (fk_state s2) ''seen'' = [print_json (JInt 1), print_json (JInt 2)]"
  using messages_delivered_in_order [OF flaky.redis_server_axioms, of sample_world sample_mq "[JInt 1, JInt 2]" "''seen''"
      "\<lambda>_. io_ret ()" "\<lambda>m. if m = JInt 1 then Some (Exn KeyError ''boom'') else None"]
  by (simp add: sample_mq_def rlist_ok_def rlist_def flaky.sim_ret numeral_2_eq_2 del: print_json.simps)

section \<open>The waiting functions\<close>

definition undecided :: "(string \<Rightarrow> json option) \<Rightarrow> string \<Rightarrow> string \<Rightarrow> real \<Rightarrow> real \<times> channel_message \<Rightarrow> bool" where
  "undecided loads repo ref deadline a \<longleftrightarrow> fst a \<le> deadline \<and> event_verdict loads repo ref (snd a) = Irrelevant"

lemma sync_listen_skip:
  "list_all (undecided loads repo ref (start + of_int timeout)) pre \<Longrightarrow>
   sync_listen loads repo ref dir timeout start (pre @ ms) ended = sync_listen loads repo ref dir timeout start ms ended"
  by (induction pre) (auto simp: undecided_def)

lemma indexing_listen_skip:
  "list_all (undecided loads repo ref deadline) pre \<Longrightarrow>
   indexing_listen loads repo ref deadline (pre @ ms) ended = indexing_listen loads repo ref deadline ms ended"
  by (induction pre) (auto simp: undecided_def)

text \<open>The calls before the loop succeed from \<open>s\<close>, leaving \<open>s'\<close>; those after it succeed from there.\<close>

definition sync_ready ::
  "'s env \<Rightarrow> (json \<Rightarrow> ('s, unit) io) \<Rightarrow> 's pubsub \<Rightarrow> string \<Rightarrow> string \<Rightarrow> 's \<Rightarrow> 's \<Rightarrow> 's \<Rightarrow> bool" where
  "sync_ready E publish P repo ref s s' s'' \<longleftrightarrow>
     (\<exists>held s1 s2 s3. x_get E (sync_complete_key repo ref) s = (Inr None, s1) \<and>
        x_exists E (sync_lock_key repo) s1 = (Inr held, s2) \<and>
        io_when (\<not> held) (request_repo_sync publish repo ref) s2 = (Inr (), s3) \<and>
        ps_subscribe P ''agent:sync:events'' s3 = (Inr (), s') \<and>
        unsubscribe_close P ''agent:sync:events'' s' = (Inr (), s''))"

lemma wait_for_repo_sync_run:
  assumes "sync_ready E publish P repo ref s s' s''"
  shows "wait_for_repo_sync E path_exists publish P repo ref timeout start arrivals ended s =
    (case sync_listen (x_loads E) repo ref (bare_repo_dir repo) timeout start arrivals ended of
       None \<Rightarrow> (Inr None, s') | Some r \<Rightarrow> (map_sum id Some r, s''))"
proof -
  from assms obtain held s1 s2 s3 where "x_get E (sync_complete_key repo ref) s = (Inr None, s1)"
    "x_exists E (sync_lock_key repo) s1 = (Inr held, s2)"
    "io_when (\<not> held) (request_repo_sync publish repo ref) s2 = (Inr (), s3)"
    "ps_subscribe P ''agent:sync:events'' s3 = (Inr (), s')"
    "unsubscribe_close P ''agent:sync:events'' s' = (Inr (), s'')"
    unfolding sync_ready_def by blast
  then show ?thesis
    by (auto simp: wait_for_repo_sync_def io_bind_run io_then_run io_ret_run io_of_result_run io_finally_def split: option.split)
qed

text \<open>
  While a repository is not yet synced, the wait is decided by the first event about that
  repository and reference that says so: completion within the timeout returns the directory of
  the bare repository, an error raises with its message, and any message at all after the timeout
  raises a timeout; the subscription is closed in each case. When the channel falls silent
  nothing is raised, however long ago the timeout passed: the call keeps waiting.
\<close>

theorem sync_wait_outcome:
  assumes "sync_ready E publish P repo ref s s' s''"
    and "list_all (undecided (x_loads E) repo ref (start + of_int timeout)) pre"
  shows "(t \<le> start + of_int timeout \<and> event_verdict (x_loads E) repo ref m = Complete \<longrightarrow>
      wait_for_repo_sync E path_exists publish P repo ref timeout start (pre @ (t, m) # rest) ended s =
        (Inr (Some (bare_repo_dir repo)), s'')) \<and>
    (t \<le> start + of_int timeout \<and> event_verdict (x_loads E) repo ref m = Failure msg \<longrightarrow>
      wait_for_repo_sync E path_exists publish P repo ref timeout start (pre @ (t, m) # rest) ended s =
        (Inl (sync_error (''Repo sync failed for '' @ repo @ '': '' @ msg)), s'')) \<and>
    (t > start + of_int timeout \<longrightarrow>
      wait_for_repo_sync E path_exists publish P repo ref timeout start (pre @ (t, m) # rest) ended s =
        (Inl (sync_error (''Sync timeout for '' @ repo @ '' after '' @ show_int timeout @
           ''s - repo sync worker may be down'')), s'')) \<and>
    wait_for_repo_sync E path_exists publish P repo ref timeout start pre False s = (Inr None, s')"
proof -
  have silent: "sync_listen (x_loads E) repo ref (bare_repo_dir repo) timeout start pre False = None"
    using sync_listen_skip [OF assms(2), of "bare_repo_dir repo" "[]" False] by simp
  show ?thesis
    unfolding wait_for_repo_sync_run [OF assms(1)] sync_listen_skip [OF assms(2)] silent by auto
qed

definition null_pubsub :: "'s pubsub" where
  "null_pubsub = \<lparr>ps_subscribe = \<lambda>_. io_ret (), ps_unsubscribe = \<lambda>_. io_ret (), ps_close = io_ret ()\<rparr>"

lemma sample_sync_ready: "sync_ready flaky_env (\<lambda>_. io_ret ()) null_pubsub repo ref sample_world sample_world sample_world"
  by (simp add: sync_ready_def flaky_env_def flaky_cmd_def r_get_def r_exists_def request_repo_sync_def
      unsubscribe_close_def null_pubsub_def io_simps) blast

theorem sync_wait_outcome_witness:
  "wait_for_repo_sync flaky_env (\<lambda>_. True) (\<lambda>_. io_ret ()) null_pubsub ''o/r'' ''main'' 300 0
     [(1, \<lparr>cm_type = ''subscribe'', cm_data = []\<rparr>)] False sample_world = (Inr None, sample_world) \<and>
   wait_for_repo_sync flaky_env (\<lambda>_. True) (\<lambda>_. io_ret ()) null_pubsub ''o/r'' ''main'' 300 0
     ([(1, \<lparr>cm_type = ''subscribe'', cm_data = []\<rparr>)] @ (301, \<lparr>cm_type = ''message'', cm_data = []\<rparr>) # []) True sample_world =
     (Inl (sync_error ''Sync timeout for o/r after 300s - repo sync worker may be down''), sample_world)"
  using sync_wait_outcome [OF sample_sync_ready, of "''o/r''" "''main''" 0 300 "[(1, \<lparr>cm_type = ''subscribe'', cm_data = []\<rparr>)]" 301
      "\<lparr>cm_type = ''message'', cm_data = []\<rparr>" "\<lambda>_. True" "[]" True "[]"]
  by (simp add: undecided_def event_verdict_def show_int_def show_nat.simps)



end
