(* ===== verification/Code_Graph.thy ===== *)
theory Code_Graph
  imports Prelude "HOL-Library.List_Lexorder"
begin

text \<open>
  The algorithms of \<^verbatim>\<open>shared/code_graph.py\<close> on the symbol graph, once the rows have been
  fetched: the edge maps, the breadth-first impact analysis in both directions, the flow trace
  with its call chain, the risk assessment, the resolution of the definition that encloses a
  syntax node, and the parser of \<open>git diff\<close>. A Python set is a list without duplicates; where
  the code iterates over one, the order is the parameter \<open>ord\<close>.
\<close>

section \<open>Symbols and edges\<close>

record tag =
  tg_filepath :: string
  tg_name :: string
  tg_kind :: string
  tg_line :: int
  tg_category :: string
  tg_end_line :: int

type_synonym edges = "string list dict"

definition set_add :: "'a \<Rightarrow> 'a list \<Rightarrow> 'a list" where
  "set_add x xs = (if x \<in> set xs then xs else xs @ [x])"

definition neighbours :: "edges \<Rightarrow> string \<Rightarrow> string list" where
  "neighbours e name = opt_default [] (dict_get e name)"

definition add_edge :: "edges \<Rightarrow> string \<times> string \<Rightarrow> edges" where
  "add_edge e p = dict_set (fst p) (set_add (snd p) (neighbours e (fst p))) e"

text \<open>A row lacks a name when the record it refers to is gone.\<close>

definition forward_edges :: "(string option \<times> string option) list \<Rightarrow> edges" where
  "forward_edges rows =
     foldl (\<lambda>e r. let src = opt_default [] (fst r); tgt = opt_default [] (snd r)
                  in if src \<noteq> [] \<and> tgt \<noteq> [] then add_edge e (src, tgt) else e) [] rows"

definition reverse_edges :: "edges \<Rightarrow> edges" where
  "reverse_edges fwd = foldl add_edge [] (concat (map (\<lambda>(src, tgts). map (\<lambda>tgt. (tgt, src)) tgts) fwd))"

section \<open>Impact\<close>

record impact_item =
  im_name :: string
  im_file :: string
  im_line :: int
  im_kind :: string

definition impact_of :: "string \<Rightarrow> tag \<Rightarrow> impact_item" where
  "impact_of name d = \<lparr>im_name = name, im_file = tg_filepath d, im_line = tg_line d, im_kind = tg_category d\<rparr>"

text \<open>
  The two nested loops over one level: a candidate not yet visited is marked and joins the next
  level. The result is the visited set and the next level.
\<close>

fun expand :: "'a list \<Rightarrow> 'a list \<Rightarrow> 'a list \<Rightarrow> 'a list \<times> 'a list" where
  "expand [] visited next = (visited, next)"
| "expand (c # cs) visited next =
     (if c \<in> set visited then expand cs visited next else expand cs (visited @ [c]) (next @ [c]))"

fun bfs_levels ::
  "(string list \<Rightarrow> string list) \<Rightarrow> edges \<Rightarrow> (string \<Rightarrow> tag list) \<Rightarrow> nat \<Rightarrow> nat \<Rightarrow> string list \<Rightarrow> string list \<Rightarrow>
   (nat \<times> impact_item list) list" where
  "bfs_levels ord e defs depth 0 visited current = []"
| "bfs_levels ord e defs depth (Suc n) visited current =
     (case expand (concat (map (\<lambda>name. ord (neighbours e name)) (ord current))) visited [] of
        (visited', next) \<Rightarrow>
          (let items = concat (map (\<lambda>name. map (impact_of name) (defs name)) next) in
           (if items \<noteq> [] then [(depth, items)] else []) @
           (if next = [] then [] else bfs_levels ord e defs (Suc depth) n visited' next)))"

definition bfs_impact ::
  "(string list \<Rightarrow> string list) \<Rightarrow> edges \<Rightarrow> (string \<Rightarrow> tag list) \<Rightarrow> string list \<Rightarrow> nat \<Rightarrow> (nat \<times> impact_item list) list" where
  "bfs_impact ord e defs seed_names max_depth = bfs_levels ord e defs 1 max_depth seed_names seed_names"

definition bfs_upstream where
  "bfs_upstream ord edge_rev defs seed_names max_depth =
     bfs_impact ord (opt_default [] (dict_get edge_rev ''calls'')) defs seed_names max_depth"

definition bfs_downstream where
  "bfs_downstream ord edge_fwd defs seed_names max_depth =
     bfs_impact ord (opt_default [] (dict_get edge_fwd ''calls'')) defs seed_names max_depth"

section \<open>Risk\<close>

definition impact_items :: "(nat \<times> impact_item list) list \<Rightarrow> impact_item list" where
  "impact_items levels = concat (map snd levels)"

definition assess_risk ::
  "(nat \<times> impact_item list) list \<Rightarrow> (nat \<times> impact_item list) list \<Rightarrow> string list \<Rightarrow> string \<times> string" where
  "assess_risk upstream downstream imported_by =
     (let files = map im_file (impact_items upstream) @ map im_file (impact_items downstream);
          total_files = length (remdups (files @ imported_by));
          total_symbols = length (impact_items upstream) + length (impact_items downstream);
          has_tests = list_ex (\<lambda>f. str_contains ''test'' (str_lower f)) files;
          affects = '' risk: affects '' @ show_nat total_files @ '' files and '' @ show_nat total_symbols @ '' symbols'';
          tests = (if has_tests then '' (includes test files)'' else [])
      in if total_files > 10 \<or> total_symbols > 20 then (''high'', ''High'' @ affects @ tests)
         else if total_files > 3 \<or> total_symbols > 5 then (''medium'', ''Medium'' @ affects @ tests)
         else (''low'', ''Low'' @ affects @ tests))"

section \<open>Flow trace\<close>

record flow_step =
  fs_name :: string
  fs_caller :: string
  fs_definition :: "tag option"
  fs_depth :: nat

definition flow_step_of :: "(string \<Rightarrow> tag list) \<Rightarrow> string \<Rightarrow> nat \<Rightarrow> string \<Rightarrow> flow_step" where
  "flow_step_of defs caller depth callee =
     \<lparr>fs_name = callee, fs_caller = caller,
      fs_definition = (case defs callee of [] \<Rightarrow> None | cd # _ \<Rightarrow> Some cd), fs_depth = depth\<rparr>"

lemma expand_visited: "set (fst (expand cs v n)) = set v \<union> set cs"
  by (induction cs v n rule: expand.induct) auto

lemma expand_next: "set (snd (expand cs v n)) = set n \<union> (set cs - set v)"
  by (induction cs v n rule: expand.induct) auto

lemma expandD:
  assumes "(v', new) = expand cs v []"
  shows "set v' = set v \<union> set cs" and "set new = set cs - set v"
  using expand_visited [of cs v "[]"] expand_next [of cs v "[]"] assms [symmetric] by simp_all

definition edge_targets :: "edges \<Rightarrow> string list" where
  "edge_targets e = concat (map snd e)"

lemma neighbours_targets: "set (neighbours e x) \<subseteq> set (edge_targets e)"
  by (cases "dict_get e x") (auto simp: neighbours_def edge_targets_def dest: map_of_SomeD)

text \<open>The loop over the queue; the result is the steps and the visited set.\<close>

function trace_loop ::
  "edges \<Rightarrow> (string \<Rightarrow> tag list) \<Rightarrow> nat \<Rightarrow> string list \<Rightarrow> (string \<times> nat) list \<Rightarrow> flow_step list \<times> string list" where
  "trace_loop e defs max_depth visited [] = ([], visited)"
| "trace_loop e defs max_depth visited ((current_name, depth) # frontier) =
     (if depth \<ge> max_depth then trace_loop e defs max_depth visited frontier
      else
        (case expand (sort (neighbours e current_name)) visited [] of
           (visited', callees) \<Rightarrow>
             (case trace_loop e defs max_depth visited' (frontier @ map (\<lambda>c. (c, depth + 1)) callees) of
                (steps, final) \<Rightarrow> (map (flow_step_of defs current_name (depth + 1)) callees @ steps, final))))"
  by pat_completeness auto
termination
proof (relation "measures [\<lambda>(e, defs, md, v, q). card (set (edge_targets e) - set v), \<lambda>(e, defs, md, v, q). length q]",
    goal_cases)
  case 1
  show ?case by simp
next
  case (2 e defs md v x d q)
  then show ?case by simp
next
  case (3 e defs md v x d q v' new)
  then have v': "set v' = set v \<union> set (neighbours e x)" and new: "set new = set (neighbours e x) - set v"
    by (auto dest: expandD)
  show ?case
  proof (cases "new = []")
    case True
    with new have "set v' = set v" by (auto simp: v')
    with True show ?thesis by simp
  next
    case False
    with new obtain y where y: "y \<in> set (neighbours e x)" "y \<notin> set v" by (cases new) auto
    with neighbours_targets [of e x] have "set (edge_targets e) - set v' \<subset> set (edge_targets e) - set v"
      by (auto simp: v')
    then have "card (set (edge_targets e) - set v') < card (set (edge_targets e) - set v)"
      by (intro psubset_card_mono) auto
    then show ?thesis by simp
  qed
qed

datatype call_chain = Chain (cc_name: string) (cc_callees: "call_chain list") (cc_truncated: bool)

text \<open>\<open>n\<close> is \<open>max_depth - depth\<close> and \<open>path\<close> the names on the current recursion path.\<close>

fun build_call_chain :: "edges \<Rightarrow> string list \<Rightarrow> nat \<Rightarrow> string list \<Rightarrow> string \<Rightarrow> call_chain" where
  "build_call_chain e visited 0 path name = Chain name [] True"
| "build_call_chain e visited (Suc n) path name =
     (if name \<in> set path then Chain name [] True
      else Chain name
        (map (build_call_chain e visited n (name # path))
          (filter (\<lambda>c. c \<in> set visited) (sort (neighbours e name)))) False)"

record flow =
  fl_steps :: "flow_step list"
  fl_max_depth_reached :: bool
  fl_call_chain :: call_chain

definition clamp_depth :: "int \<Rightarrow> int \<Rightarrow> nat" where
  "clamp_depth d hi = nat (max 1 (min d hi))"

definition trace_calls :: "edges \<Rightarrow> (string \<Rightarrow> tag list) \<Rightarrow> string \<Rightarrow> int \<Rightarrow> flow" where
  "trace_calls calls_fwd defs entry_point max_depth =
     (let md = clamp_depth max_depth 50 in
      case trace_loop calls_fwd defs md [entry_point] [(entry_point, 0)] of
        (steps, visited) \<Rightarrow>
          \<lparr>fl_steps = steps, fl_max_depth_reached = list_ex (\<lambda>s. fs_depth s = md) steps,
           fl_call_chain = build_call_chain calls_fwd visited md [] entry_point\<rparr>)"

section \<open>Enclosing definitions\<close>

text \<open>An entry of the definition map: start byte, end byte, name.\<close>

type_synonym def_entry = "nat \<times> nat \<times> string"

definition dedup :: "'a list \<Rightarrow> 'a list" where
  "dedup xs = foldl (\<lambda>seen x. set_add x seen) [] xs"

definition definition_map :: "def_entry list \<Rightarrow> def_entry list" where
  "definition_map entries = dedup (sort_key fst entries)"

definition bisect_right :: "nat list \<Rightarrow> nat \<Rightarrow> nat" where
  "bisect_right xs x = length (takeWhile (\<lambda>y. y \<le> x) xs)"

definition encloses :: "nat \<Rightarrow> nat \<Rightarrow> def_entry \<Rightarrow> bool" where
  "encloses node_start node_end d \<longleftrightarrow> fst d \<le> node_start \<and> node_end \<le> fst (snd d)"

definition def_size :: "def_entry \<Rightarrow> int" where
  "def_size d = int (fst (snd d)) - int (fst d)"

fun tightest :: "nat \<Rightarrow> nat \<Rightarrow> (int \<times> string) option \<Rightarrow> def_entry list \<Rightarrow> (int \<times> string) option" where
  "tightest node_start node_end best [] = best"
| "tightest node_start node_end best (d # ds) =
     tightest node_start node_end
       (if encloses node_start node_end d \<and> (case best of None \<Rightarrow> True | Some (sz, _) \<Rightarrow> def_size d < sz)
        then Some (def_size d, snd (snd d)) else best) ds"

definition find_enclosing_def :: "def_entry list \<Rightarrow> nat \<Rightarrow> nat \<Rightarrow> string option" where
  "find_enclosing_def def_map node_start node_end =
     map_option snd (tightest node_start node_end None
       (rev (take (bisect_right (map fst def_map) node_start) def_map)))"

text \<open>
  The node a relationship is attributed to, given as byte ranges: the smallest enclosing capture,
  but only if it is smaller than the target itself.
\<close>

definition rel_node :: "(nat \<times> nat) list \<Rightarrow> nat \<times> nat \<Rightarrow> nat \<times> nat" where
  "rel_node node_nodes target =
     fst (foldl (\<lambda>(best, sz) node.
         if fst node \<le> fst target \<and> snd target \<le> snd node \<and> int (snd node) - int (fst node) < sz
         then (node, int (snd node) - int (fst node)) else (best, sz))
       (target, int (snd target) - int (fst target)) node_nodes)"

section \<open>\<open>git diff\<close>\<close>

text \<open>\<open>str.splitlines\<close> on ASCII text.\<close>

definition is_line_break :: "char \<Rightarrow> bool" where
  "is_line_break c \<longleftrightarrow> c \<in> set [CHR 0x0A, CHR 0x0B, CHR 0x0C, CHR 0x0D, CHR 0x1C, CHR 0x1D, CHR 0x1E]"

fun lines_from :: "string \<Rightarrow> string \<Rightarrow> string list" where
  "lines_from acc [] = (if acc = [] then [] else [rev acc])"
| "lines_from acc (c # cs) =
     (if c = CHR 0x0D \<and> cs \<noteq> [] \<and> hd cs = CHR 0x0A then rev acc # lines_from [] (tl cs)
      else if is_line_break c then rev acc # lines_from [] cs
      else lines_from (c # acc) cs)"

definition str_splitlines :: "string \<Rightarrow> string list" where
  "str_splitlines s = lines_from [] s"

text \<open>\<open>\d+(?:,\d+)?\<close>: the two numbers and the rest.\<close>

definition match_range :: "string \<Rightarrow> (nat \<times> nat option \<times> string) option" where
  "match_range s =
     (let a = takeWhile is_digit s; r = dropWhile is_digit s in
      if a = [] then None
      else (case r of
          CHR '','' # r' \<Rightarrow>
            (let b = takeWhile is_digit r' in
             if b = [] then Some (read_nat a, None, r)
             else Some (read_nat a, Some (read_nat b), dropWhile is_digit r'))
        | _ \<Rightarrow> Some (read_nat a, None, r)))"

definition strip_prefix :: "string \<Rightarrow> string \<Rightarrow> string option" where
  "strip_prefix p s = (if str_startswith s p then Some (drop (length p) s) else None)"

definition match_hunk :: "string \<Rightarrow> (nat \<times> nat option) option" where
  "match_hunk line =
     Option.bind (strip_prefix ''@@ -'' line) (\<lambda>s1.
     Option.bind (match_range s1) (\<lambda>(_, _, s2).
     Option.bind (strip_prefix '' +'' s2) (\<lambda>s3.
     Option.bind (match_range s3) (\<lambda>(start, count, s4).
     map_option (\<lambda>_. (start, count)) (strip_prefix '' @@'' s4)))))"

record diff_state =
  df_changes :: "(string \<times> (int \<times> int) list) list"
  df_stale :: "string list"
  df_src :: "string option"
  df_dst :: "string option"
  df_ranges :: "(int \<times> int) list"

definition is_set :: "string option \<Rightarrow> bool" where
  "is_set x \<longleftrightarrow> x \<noteq> None \<and> x \<noteq> Some []"

definition diff_flush :: "diff_state \<Rightarrow> diff_state" where
  "diff_flush st =
     (let st' = (case df_dst st of
          Some f \<Rightarrow> if f \<noteq> [] \<and> df_ranges st \<noteq> []
            then st\<lparr>df_changes := df_changes st @ [(f, df_ranges st)]\<rparr> else st
        | None \<Rightarrow> st)
      in st'\<lparr>df_dst := None, df_ranges := []\<rparr>)"

definition diff_line :: "diff_state \<Rightarrow> string \<Rightarrow> diff_state" where
  "diff_line st line =
     (if str_startswith line ''--- a/'' then (diff_flush st)\<lparr>df_src := Some (drop 6 line)\<rparr>
      else if str_startswith line ''+++ b/'' then
        (let dst = drop 6 line;
             stale = (if is_set (df_src st) \<and> df_src st \<noteq> Some dst then [opt_default [] (df_src st)] else [])
         in st\<lparr>df_dst := Some dst, df_stale := df_stale st @ stale, df_src := None\<rparr>)
      else if str_startswith line ''@@'' \<and> is_set (df_dst st) then
        (case match_hunk line of
           None \<Rightarrow> st
         | Some (start, count) \<Rightarrow>
             st\<lparr>df_ranges := df_ranges st @
                [(int start, int start + int (opt_default 1 count) - 1)]\<rparr>)
      else st)"

definition diff_start :: diff_state where
  "diff_start = \<lparr>df_changes = [], df_stale = [], df_src = None, df_dst = None, df_ranges = []\<rparr>"

definition parse_diff_lines :: "string list \<Rightarrow> (string \<times> (int \<times> int) list) list \<times> string list" where
  "parse_diff_lines lines =
     (let st = diff_flush (foldl diff_line diff_start lines) in
      (df_changes st,
       df_stale st @ (if is_set (df_src st) \<and> \<not> is_set (df_dst st) then [opt_default [] (df_src st)] else [])))"

definition parse_git_diff :: "string \<Rightarrow> (string \<times> (int \<times> int) list) list \<times> string list" where
  "parse_git_diff diff_output = parse_diff_lines (str_splitlines diff_output)"

section \<open>Summaries\<close>

record changed_file =
  cf_file :: string
  cf_symbols :: nat
  cf_risk :: string

definition overall_risk :: "changed_file list \<Rightarrow> string" where
  "overall_risk fs =
     (if list_ex (\<lambda>f. cf_risk f = ''high'') fs then ''high''
      else if list_ex (\<lambda>f. cf_risk f = ''medium'') fs then ''medium''
      else ''low'')"

definition summarize_changes :: "changed_file list \<Rightarrow> string" where
  "summarize_changes fs =
     (if fs = [] then ''No symbol-affecting changes detected.''
      else
        (let high = map cf_file (filter (\<lambda>f. cf_risk f = ''high'') fs) in
         show_nat (length fs) @ '' file(s) changed, '' @ show_nat (sum_list (map cf_symbols fs)) @
         '' symbol(s) affected.'' @
         (if high = [] then []
          else '' '' @ show_nat (length high) @ '' file(s) at high risk: '' @ str_join '', '' (take 3 high))))"

definition lang_of_ext :: "string dict" where
  "lang_of_ext = [(''py'', ''python''), (''js'', ''javascript''), (''mjs'', ''javascript''), (''ts'', ''typescript''),
     (''tsx'', ''typescript''), (''jsx'', ''javascript''), (''go'', ''go''), (''rs'', ''rust''), (''java'', ''java'')]"

definition lang_from_filepath :: "string \<Rightarrow> string" where
  "lang_from_filepath filepath =
     (let ext = (if CHR ''.'' \<in> set filepath
                 then str_lower (rev (takeWhile (\<lambda>c. c \<noteq> CHR ''.'') (rev filepath))) else [])
      in opt_default [] (dict_get lang_of_ext ext))"

section \<open>Distance\<close>

definition edge_rel :: "edges \<Rightarrow> (string \<times> string) set" where
  "edge_rel e = {(a, b). b \<in> set (neighbours e a)}"

definition reached_by :: "edges \<Rightarrow> string list \<Rightarrow> nat \<Rightarrow> string set" where
  "reached_by e seeds d = (\<Union>k \<le> d. (edge_rel e ^^ k) `` set seeds)"

text \<open>The names whose shortest path from a seed has exactly \<open>d\<close> edges.\<close>

definition at_distance :: "edges \<Rightarrow> string list \<Rightarrow> nat \<Rightarrow> string set" where
  "at_distance e seeds d = (edge_rel e ^^ d) `` set seeds - (\<Union>k < d. (edge_rel e ^^ k) `` set seeds)"

lemma reached_by_0 [simp]: "reached_by e seeds 0 = set seeds"
  by (simp add: reached_by_def)

lemma at_distance_0 [simp]: "at_distance e seeds 0 = set seeds"
  by (simp add: at_distance_def)

lemma Image_Diff_cover: "R `` B \<subseteq> W \<Longrightarrow> R `` A - W = R `` (A - B) - W"
  by blast

lemma at_distance_Suc: "at_distance e seeds (Suc d) = edge_rel e `` at_distance e seeds d - reached_by e seeds d"
proof -
  have step: "(edge_rel e ^^ Suc d) `` set seeds = edge_rel e `` ((edge_rel e ^^ d) `` set seeds)"
    by (simp add: relcomp_Image)
  have "edge_rel e `` (\<Union>k < d. (edge_rel e ^^ k) `` set seeds) \<subseteq> reached_by e seeds d"
  proof
    fix y
    assume "y \<in> edge_rel e `` (\<Union>k < d. (edge_rel e ^^ k) `` set seeds)"
    then obtain k s x where "k < d" "s \<in> set seeds" "(s, x) \<in> edge_rel e ^^ k" "(x, y) \<in> edge_rel e" by auto
    then have "Suc k \<le> d" "(s, y) \<in> edge_rel e ^^ Suc k" "s \<in> set seeds" by auto
    then show "y \<in> reached_by e seeds d" unfolding reached_by_def by blast
  qed
  from Image_Diff_cover [OF this, of "(edge_rel e ^^ d) `` set seeds"] show ?thesis
    unfolding at_distance_def step lessThan_Suc_atMost by (simp add: reached_by_def)
qed

lemma reached_by_Suc: "reached_by e seeds (Suc d) = reached_by e seeds d \<union> edge_rel e `` at_distance e seeds d"
proof -
  have "reached_by e seeds (Suc d) = reached_by e seeds d \<union> at_distance e seeds (Suc d)"
    unfolding reached_by_def at_distance_def by (auto simp: atMost_Suc lessThan_Suc_atMost)
  then show ?thesis unfolding at_distance_Suc by blast
qed

lemma at_distance_empty_later:
  assumes "at_distance e seeds d = {}" and "d \<le> d'"
  shows "at_distance e seeds d' = {}"
  using assms(2,1) by (induction rule: dec_induct) (auto simp: at_distance_Suc)

lemma reached_by_at_distance: "reached_by e seeds d = (\<Union>k \<le> d. at_distance e seeds k)"
  by (induction d) (auto simp: reached_by_Suc at_distance_Suc atMost_Suc)

lemma at_distance_disjoint: "x \<in> at_distance e seeds d \<Longrightarrow> x \<in> at_distance e seeds d' \<Longrightarrow> d = d'"
proof (rule ccontr)
  assume x: "x \<in> at_distance e seeds d" "x \<in> at_distance e seeds d'" and "d \<noteq> d'"
  then have "d < d' \<or> d' < d" by arith
  with x show False unfolding at_distance_def by blast
qed

section \<open>The level search computes distances\<close>

definition iteration_order :: "(string list \<Rightarrow> string list) \<Rightarrow> bool" where
  "iteration_order ord \<longleftrightarrow> (\<forall>xs. set (ord xs) = set xs)"

lemma bfs_levels_distance:
  assumes "iteration_order ord" "set visited = reached_by e seeds d" "set current = at_distance e seeds d"
  shows "(k, items) \<in> set (bfs_levels ord e defs (Suc d) n visited current) \<Longrightarrow>
      d < k \<and> k \<le> d + n \<and> items \<noteq> []"
    and "(\<exists>items. (k, items) \<in> set (bfs_levels ord e defs (Suc d) n visited current) \<and> i \<in> set items) \<longleftrightarrow>
      d < k \<and> k \<le> d + n \<and> im_name i \<in> at_distance e seeds k \<and> i \<in> impact_of (im_name i) ` set (defs (im_name i))"
proof -
  have both: "((k, items) \<in> set (bfs_levels ord e defs (Suc d) n visited current) \<longrightarrow> d < k \<and> k \<le> d + n \<and> items \<noteq> []) \<and>
    ((\<exists>items. (k, items) \<in> set (bfs_levels ord e defs (Suc d) n visited current) \<and> i \<in> set items) \<longleftrightarrow>
      d < k \<and> k \<le> d + n \<and> im_name i \<in> at_distance e seeds k \<and> i \<in> impact_of (im_name i) ` set (defs (im_name i)))"
    using assms(2,3)
  proof (induction n arbitrary: d visited current)
    case 0
    then show ?case by auto
  next
    case (Suc n)
    let ?cs = "concat (map (\<lambda>name. ord (neighbours e name)) (ord current))"
    obtain v' new where ex: "(v', new) = expand ?cs visited []" by (cases "expand ?cs visited []") simp
    have cs: "set ?cs = edge_rel e `` at_distance e seeds d"
      using Suc.prems(2) assms(1) by (auto simp: iteration_order_def edge_rel_def)
    have v': "set v' = reached_by e seeds (Suc d)"
      using expandD(1) [OF ex] Suc.prems(1) unfolding cs by (simp add: reached_by_Suc)
    have new: "set new = at_distance e seeds (Suc d)"
      using expandD(2) [OF ex] Suc.prems(1) unfolding cs by (simp add: at_distance_Suc)
    define its where "its = concat (map (\<lambda>name. map (impact_of name) (defs name)) new)"
    define more where "more = (if new = [] then [] else bfs_levels ord e defs (Suc (Suc d)) n v' new)"
    have run: "bfs_levels ord e defs (Suc d) (Suc n) visited current =
        (if its \<noteq> [] then [(Suc d, its)] else []) @ more"
      by (simp only: bfs_levels.simps ex [symmetric] prod.case Let_def its_def more_def)
    have here: "i \<in> set its \<longleftrightarrow> im_name i \<in> at_distance e seeds (Suc d) \<and>
        i \<in> impact_of (im_name i) ` set (defs (im_name i))"
      by (auto simp: its_def new impact_of_def)
    have gone: "at_distance e seeds k = {}" if "new = []" "Suc d < k"
      using at_distance_empty_later [of e seeds "Suc d" k] new that by auto
    have rest: "((k, items) \<in> set more \<longrightarrow> Suc d < k \<and> k \<le> Suc d + n \<and> items \<noteq> []) \<and>
      ((\<exists>items. (k, items) \<in> set more \<and> i \<in> set items) \<longleftrightarrow>
        Suc d < k \<and> k \<le> Suc d + n \<and> im_name i \<in> at_distance e seeds k \<and> i \<in> impact_of (im_name i) ` set (defs (im_name i)))"
      using Suc.IH [OF v' new] gone by (auto simp: more_def)
    have mem: "(k, it) \<in> set (bfs_levels ord e defs (Suc d) (Suc n) visited current) \<longleftrightarrow>
        k = Suc d \<and> it = its \<and> its \<noteq> [] \<or> (k, it) \<in> set more" for it
      unfolding run by (cases "its = []") auto
    show ?case
    proof (cases "k = Suc d")
      case True
      then have "(k, it) \<notin> set more" if "i \<in> set it" for it
        using rest that by blast
      moreover have "(k, items) \<notin> set more" using rest True by blast
      moreover have "its \<noteq> []" if "i \<in> set its" using that by auto
      ultimately have "(k, items) \<in> set (bfs_levels ord e defs (Suc d) (Suc n) visited current) \<longrightarrow> items \<noteq> []"
        and "(\<exists>items. (k, items) \<in> set (bfs_levels ord e defs (Suc d) (Suc n) visited current) \<and> i \<in> set items) \<longleftrightarrow>
          i \<in> set its"
        unfolding mem using True by blast+
      with True here show ?thesis by auto
    next
      case False
      then show ?thesis unfolding mem using rest by auto
    qed
  qed
  show "(k, items) \<in> set (bfs_levels ord e defs (Suc d) n visited current) \<Longrightarrow> d < k \<and> k \<le> d + n \<and> items \<noteq> []"
    using both by blast
  show "(\<exists>items. (k, items) \<in> set (bfs_levels ord e defs (Suc d) n visited current) \<and> i \<in> set items) \<longleftrightarrow>
      d < k \<and> k \<le> d + n \<and> im_name i \<in> at_distance e seeds k \<and> i \<in> impact_of (im_name i) ` set (defs (im_name i))"
    using both by blast
qed

text \<open>
  C13: Impact analysis computes graph distance, whatever the order in which sets are iterated: an
  item is reported at depth \<open>k\<close> exactly when \<open>k\<close> is between 1 and the maximum depth, its symbol
  is at distance \<open>k\<close> from the changed symbols along the edges, and it is one of the definitions
  of that symbol.
\<close>

theorem impact_is_distance:
  assumes "iteration_order ord"
  shows "(\<exists>items. (k, items) \<in> set (bfs_impact ord e defs seeds max_depth) \<and> i \<in> set items) \<longleftrightarrow>
    1 \<le> k \<and> k \<le> max_depth \<and> im_name i \<in> at_distance e seeds k \<and> i \<in> impact_of (im_name i) ` set (defs (im_name i))"
  using bfs_levels_distance(2) [where d = 0 and e = e and seeds = seeds and visited = seeds and current = seeds and
      k = k and defs = defs and n = max_depth and i = i, OF assms reached_by_0 [symmetric] at_distance_0 [symmetric]]
  unfolding bfs_impact_def One_nat_def Suc_le_eq add_0 .

definition sample_edges :: edges where
  "sample_edges = [(''a'', [''b'', ''c'']), (''b'', [''c'', ''d'']), (''d'', [''a''])]"

definition sample_defs :: "string \<Rightarrow> tag list" where
  "sample_defs n = [\<lparr>tg_filepath = n @ ''.py'', tg_name = n, tg_kind = ''definition'', tg_line = 1,
     tg_category = ''function'', tg_end_line = 2\<rparr>]"

theorem impact_is_distance_witness:
  "(\<exists>items. (2, items) \<in> set (bfs_impact rev sample_edges sample_defs [''a''] 3) \<and>
     impact_of ''d'' (hd (sample_defs ''d'')) \<in> set items) \<and> ''d'' \<in> at_distance sample_edges [''a''] 2"
proof -
  have "iteration_order rev" by (simp add: iteration_order_def)
  note eq = impact_is_distance [OF this, of 2 sample_edges sample_defs "[''a'']" 3 "impact_of ''d'' (hd (sample_defs ''d''))"]
  have "bfs_impact rev sample_edges sample_defs [''a''] 3 =
      [(1, [impact_of ''c'' (hd (sample_defs ''c'')), impact_of ''b'' (hd (sample_defs ''b''))]),
       (2, [impact_of ''d'' (hd (sample_defs ''d''))])]"
    by code_simp
  then have "\<exists>items. (2, items) \<in> set (bfs_impact rev sample_edges sample_defs [''a''] 3) \<and>
     impact_of ''d'' (hd (sample_defs ''d'')) \<in> set items"
    by simp
  with eq show ?thesis by (simp add: impact_of_def)
qed

section \<open>The queue search computes distances\<close>

lemma expand_acc: "expand cs v n = (v @ snd (expand cs v []), n @ snd (expand cs v []))"
proof (induction cs arbitrary: v n)
  case Nil
  then show ?case by simp
next
  case (Cons c cs)
  show ?case
  proof (cases "c \<in> set v")
    case True
    with Cons [of v n] show ?thesis by simp
  next
    case False
    with Cons [of "v @ [c]" "n @ [c]"] Cons [of "v @ [c]" "[c]"] show ?thesis by simp
  qed
qed

lemma expand_append:
  "expand (as @ bs) v [] =
     (let n1 = snd (expand as v []); n2 = snd (expand bs (v @ n1) []) in (v @ n1 @ n2, n1 @ n2))"
proof (induction as arbitrary: v)
  case Nil
  show ?case using expand_acc [of bs v "[]"] by (simp add: Let_def)
next
  case (Cons a as)
  show ?case
  proof (cases "a \<in> set v")
    case True
    with Cons [of v] show ?thesis by simp
  next
    case False
    with Cons [of "v @ [a]"] expand_acc [of "as @ bs" "v @ [a]" "[a]"] expand_acc [of as "v @ [a]" "[a]"]
    show ?thesis by (simp add: Let_def)
  qed
qed

lemma expand_distinct: "distinct (snd (expand cs v []))"
proof (induction cs arbitrary: v)
  case Nil
  then show ?case by simp
next
  case (Cons c cs)
  show ?case
  proof (cases "c \<in> set v")
    case True
    with Cons show ?thesis by simp
  next
    case False
    have "snd (expand cs (v @ [c]) [c]) = c # snd (expand cs (v @ [c]) [])"
      using expand_acc [of cs "v @ [c]" "[c]"] by simp
    with False Cons [of "v @ [c]"] expand_next [of cs "v @ [c]" "[]"] show ?thesis by simp
  qed
qed

definition steps_at :: "edges \<Rightarrow> string list \<Rightarrow> string list \<Rightarrow> nat \<Rightarrow> flow_step list \<Rightarrow> bool" where
  "steps_at e cur new d steps \<longleftrightarrow>
     map fs_name steps = new \<and>
     (\<forall>s \<in> set steps. fs_depth s = d \<and> fs_caller s \<in> set cur \<and> fs_name s \<in> set (neighbours e (fs_caller s)))"

declare trace_loop.simps(2) [simp del]

text \<open>The queue holds the rest of one level followed by what was found of the next: it finishes the level first.\<close>

lemma trace_level:
  assumes "d < md"
  shows "\<exists>steps. steps_at e cur (snd (expand (concat (map (\<lambda>x. sort (neighbours e x)) cur)) v [])) (Suc d) steps \<and>
    trace_loop e defs md v (map (\<lambda>x. (x, d)) cur @ map (\<lambda>x. (x, Suc d)) nxt) =
      (case expand (concat (map (\<lambda>x. sort (neighbours e x)) cur)) v [] of (v', new) \<Rightarrow>
        (case trace_loop e defs md v' (map (\<lambda>x. (x, Suc d)) (nxt @ new)) of (st, f) \<Rightarrow> (steps @ st, f)))"
proof (induction cur arbitrary: v nxt)
  case Nil
  show ?case by (intro exI [of _ "[]"]) (simp add: steps_at_def split: prod.split)
next
  case (Cons x cur)
  let ?cs = "concat (map (\<lambda>x. sort (neighbours e x)) cur)"
  obtain n1 where e1: "expand (sort (neighbours e x)) v [] = (v @ n1, n1)"
    using expand_acc [of "sort (neighbours e x)" v "[]"] by simp
  obtain n2 where e2: "expand ?cs (v @ n1) [] = (v @ n1 @ n2, n2)"
    using expand_acc [of ?cs "v @ n1" "[]"] by simp
  obtain steps where st: "steps_at e cur (snd (expand ?cs (v @ n1) [])) (Suc d) steps"
    and run: "trace_loop e defs md (v @ n1) (map (\<lambda>x. (x, d)) cur @ map (\<lambda>x. (x, Suc d)) (nxt @ n1)) =
      (case expand ?cs (v @ n1) [] of (v', new) \<Rightarrow>
        (case trace_loop e defs md v' (map (\<lambda>x. (x, Suc d)) ((nxt @ n1) @ new)) of (st, f) \<Rightarrow> (steps @ st, f)))"
    using Cons [of "v @ n1" "nxt @ n1"] by blast
  let ?first = "map (flow_step_of defs x (Suc d)) n1"
  have all: "expand (concat (map (\<lambda>x. sort (neighbours e x)) (x # cur))) v [] = (v @ n1 @ n2, n1 @ n2)"
    by (simp add: expand_append Let_def e1 e2)
  have "set n1 \<subseteq> set (neighbours e x)" using expand_next [of "sort (neighbours e x)" v "[]"] by (auto simp: e1)
  then have "steps_at e (x # cur) (n1 @ n2) (Suc d) (?first @ steps)"
    using st by (auto simp: steps_at_def flow_step_of_def comp_def e2)
  moreover have "trace_loop e defs md v (map (\<lambda>x. (x, d)) (x # cur) @ map (\<lambda>x. (x, Suc d)) nxt) =
      (case trace_loop e defs md (v @ n1) (map (\<lambda>x. (x, d)) cur @ map (\<lambda>x. (x, Suc d)) (nxt @ n1)) of
         (st, f) \<Rightarrow> (?first @ st, f))"
    unfolding list.map append_Cons by (subst trace_loop.simps(2)) (use assms in \<open>simp add: e1\<close>)
  then have "trace_loop e defs md v (map (\<lambda>x. (x, d)) (x # cur) @ map (\<lambda>x. (x, Suc d)) nxt) =
      (case trace_loop e defs md (v @ n1 @ n2) (map (\<lambda>x. (x, Suc d)) (nxt @ n1 @ n2)) of
         (st, f) \<Rightarrow> (?first @ steps @ st, f))"
    unfolding run e2 prod.case by (simp split: prod.split)
  ultimately show ?case unfolding all by (intro exI [of _ "?first @ steps"]) simp
qed

lemma trace_skip: "md \<le> d \<Longrightarrow> trace_loop e defs md v (map (\<lambda>x. (x, d)) cur) = ([], v)"
  by (induction cur) (auto simp: trace_loop.simps(2))

lemma trace_distance:
  assumes "set v = reached_by e seeds d" "set cur = at_distance e seeds d" "d \<le> md"
    and "trace_loop e defs md v (map (\<lambda>x. (x, d)) cur) = (steps, final)"
  shows "(\<lambda>s. (fs_name s, fs_depth s)) ` set steps = {(x, k). d < k \<and> k \<le> md \<and> x \<in> at_distance e seeds k} \<and>
    distinct (map fs_name steps) \<and> set final = reached_by e seeds md \<and>
    (\<forall>s \<in> set steps. fs_caller s \<in> at_distance e seeds (fs_depth s - 1) \<and>
       fs_name s \<in> set (neighbours e (fs_caller s)))"
  using assms
proof (induction "md - d" arbitrary: d v cur steps)
  case 0
  then show ?case by (auto simp: trace_skip)
next
  case (Suc n)
  then have "d < md" by arith
  let ?cs = "concat (map (\<lambda>x. sort (neighbours e x)) cur)"
  obtain v' new where ex: "expand ?cs v [] = (v', new)" by (cases "expand ?cs v []")
  obtain first where first: "steps_at e cur new (Suc d) first"
    and level: "trace_loop e defs md v (map (\<lambda>x. (x, d)) cur) =
      (case trace_loop e defs md v' (map (\<lambda>x. (x, Suc d)) new) of (st, f) \<Rightarrow> (first @ st, f))"
    using trace_level [OF \<open>d < md\<close>, of e cur v defs "[]"] unfolding ex prod.case snd_conv append_Nil list.map(1) append_Nil2
    by blast
  obtain st where run: "trace_loop e defs md v' (map (\<lambda>x. (x, Suc d)) new) = (st, final)" and steps: "steps = first @ st"
    using level Suc.prems(4) by (cases "trace_loop e defs md v' (map (\<lambda>x. (x, Suc d)) new)") simp
  have cs: "set ?cs = edge_rel e `` at_distance e seeds d"
    using Suc.prems(2) by (auto simp: edge_rel_def)
  have v': "set v' = reached_by e seeds (Suc d)"
    using expandD(1) [OF ex [symmetric]] Suc.prems(1) unfolding cs by (simp add: reached_by_Suc)
  have new: "set new = at_distance e seeds (Suc d)"
    using expandD(2) [OF ex [symmetric]] Suc.prems(1) unfolding cs by (simp add: at_distance_Suc)
  have "distinct new" using expand_distinct [of ?cs v] ex by simp
  have IH: "(\<lambda>s. (fs_name s, fs_depth s)) ` set st = {(x, k). Suc d < k \<and> k \<le> md \<and> x \<in> at_distance e seeds k} \<and>
    distinct (map fs_name st) \<and> set final = reached_by e seeds md \<and>
    (\<forall>s \<in> set st. fs_caller s \<in> at_distance e seeds (fs_depth s - 1) \<and> fs_name s \<in> set (neighbours e (fs_caller s)))"
    using Suc.hyps(1) [OF _ v' new _ run] Suc.hyps(2) \<open>d < md\<close> by simp
  have f: "(\<lambda>s. (fs_name s, fs_depth s)) ` set first = (\<lambda>x. (x, Suc d)) ` at_distance e seeds (Suc d)"
    using first unfolding new [symmetric] by (force simp: steps_at_def image_iff)
  have "(\<lambda>s. (fs_name s, fs_depth s)) ` set steps = {(x, k). d < k \<and> k \<le> md \<and> x \<in> at_distance e seeds k}"
  proof -
    have "{(x, k). d < k \<and> k \<le> md \<and> x \<in> at_distance e seeds k} =
        (\<lambda>x. (x, Suc d)) ` at_distance e seeds (Suc d) \<union> {(x, k). Suc d < k \<and> k \<le> md \<and> x \<in> at_distance e seeds k}"
      using \<open>d < md\<close> by (auto simp: image_iff) (metis Suc_lessI)
    with IH f show ?thesis by (simp add: steps image_Un)
  qed
  moreover have "distinct (map fs_name steps)"
  proof -
    have "set (map fs_name st) \<inter> at_distance e seeds (Suc d) = {}"
    proof (rule ccontr)
      assume "\<not> ?thesis"
      then obtain s where s: "s \<in> set st" "fs_name s \<in> at_distance e seeds (Suc d)" by auto
      with IH have "fs_name s \<in> at_distance e seeds (fs_depth s)" "Suc d < fs_depth s" by blast+
      with at_distance_disjoint [OF s(2), of "fs_depth s"] show False by simp
    qed
    with IH first new \<open>distinct new\<close> show ?thesis by (auto simp: steps steps_at_def)
  qed
  moreover have "\<forall>s \<in> set first. fs_caller s \<in> at_distance e seeds (fs_depth s - 1) \<and>
      fs_name s \<in> set (neighbours e (fs_caller s))"
    using first Suc.prems(2) by (auto simp: steps_at_def)
  ultimately show ?case using IH by (auto simp: steps)
qed

text \<open>
  The flow trace lists every symbol within the clamped maximum depth of the entry point
  exactly once, and no other, with its distance as depth and, as caller, a symbol one step nearer
  that calls it; the flag says whether some symbol lies at exactly the maximum depth.
\<close>

theorem flow_is_distance:
  shows "(\<lambda>s. (fs_name s, fs_depth s)) ` set (fl_steps (trace_calls e defs entry max_depth)) =
      {(x, k). 0 < k \<and> k \<le> clamp_depth max_depth 50 \<and> x \<in> at_distance e [entry] k} \<and>
    distinct (map fs_name (fl_steps (trace_calls e defs entry max_depth))) \<and>
    (\<forall>s \<in> set (fl_steps (trace_calls e defs entry max_depth)).
       fs_caller s \<in> at_distance e [entry] (fs_depth s - 1) \<and> fs_name s \<in> set (neighbours e (fs_caller s))) \<and>
    fl_max_depth_reached (trace_calls e defs entry max_depth) =
      (at_distance e [entry] (clamp_depth max_depth 50) \<noteq> {})"
proof -
  let ?md = "clamp_depth max_depth 50"
  obtain steps final where run: "trace_loop e defs ?md [entry] (map (\<lambda>x. (x, 0)) [entry]) = (steps, final)"
    by (cases "trace_loop e defs ?md [entry] (map (\<lambda>x. (x, 0)) [entry])")
  have fl: "fl_steps (trace_calls e defs entry max_depth) = steps"
    "fl_max_depth_reached (trace_calls e defs entry max_depth) = list_ex (\<lambda>s. fs_depth s = ?md) steps"
    using run by (simp_all add: trace_calls_def Let_def)
  have dist: "(\<lambda>s. (fs_name s, fs_depth s)) ` set steps = {(x, k). 0 < k \<and> k \<le> ?md \<and> x \<in> at_distance e [entry] k} \<and>
    distinct (map fs_name steps) \<and> set final = reached_by e [entry] ?md \<and>
    (\<forall>s \<in> set steps. fs_caller s \<in> at_distance e [entry] (fs_depth s - 1) \<and> fs_name s \<in> set (neighbours e (fs_caller s)))"
    by (rule trace_distance [OF _ _ _ run]) simp_all
  have "0 < ?md" by (simp add: clamp_depth_def)
  have "list_ex (\<lambda>s. fs_depth s = ?md) steps \<longleftrightarrow> (\<exists>x. (x, ?md) \<in> (\<lambda>s. (fs_name s, fs_depth s)) ` set steps)"
    by (force simp: list_ex_iff image_iff)
  also have "\<dots> \<longleftrightarrow> at_distance e [entry] ?md \<noteq> {}"
    using dist \<open>0 < ?md\<close> by auto
  finally show ?thesis using dist unfolding fl by blast
qed

theorem flow_is_distance_witness:
  "distinct (map fs_name (fl_steps (trace_calls sample_edges sample_defs ''a'' 20))) \<and>
   (\<lambda>s. (fs_name s, fs_depth s)) ` set (fl_steps (trace_calls sample_edges sample_defs ''a'' 20)) =
     {(x, k). 0 < k \<and> k \<le> clamp_depth 20 50 \<and> x \<in> at_distance sample_edges [''a''] k} \<and>
   map fs_name (fl_steps (trace_calls sample_edges sample_defs ''a'' 20)) = [''b'', ''c'', ''d'']"
proof -
  have "map fs_name (fl_steps (trace_calls sample_edges sample_defs ''a'' 20)) = [''b'', ''c'', ''d'']"
    by code_simp
  with flow_is_distance [of sample_edges sample_defs "''a''" 20] show ?thesis by blast
qed

section \<open>Call chains\<close>

fun chain_height :: "call_chain \<Rightarrow> nat" where
  "chain_height (Chain name callees truncated) = Suc (fold max (map chain_height callees) 0)"

text \<open>A name on its own path ends the branch; the visited names are the only ones below the root.\<close>

fun chain_acyclic :: "string list \<Rightarrow> string list \<Rightarrow> call_chain \<Rightarrow> bool" where
  "chain_acyclic visited path (Chain name callees truncated) =
     (if truncated then callees = []
      else name \<notin> set path \<and>
        (\<forall>c \<in> set callees. cc_name c \<in> set visited \<and> chain_acyclic visited (name # path) c))"

lemma fold_max_le: "(\<forall>x \<in> set xs. x \<le> (b::nat)) \<Longrightarrow> a \<le> b \<Longrightarrow> fold max xs a \<le> b"
  by (induction xs arbitrary: a) auto

lemma cc_name_build [simp]: "cc_name (build_call_chain e visited n path name) = name"
  by (cases n) simp_all

text \<open>
  The nested call chain has at most one level more than the maximum depth, repeats no name on any branch
  except as a truncated leaf, and below its root holds only symbols the trace has visited.
\<close>

theorem call_chain_bounded:
  "chain_height (build_call_chain e visited n path name) \<le> Suc n \<and>
   chain_acyclic visited path (build_call_chain e visited n path name)"
proof (induction n arbitrary: path name)
  case 0
  then show ?case by simp
next
  case (Suc n)
  then show ?case by (auto intro!: fold_max_le)
qed

section \<open>Enclosing definitions\<close>

lemma tightest_None: "tightest a b best ds = None \<longleftrightarrow> best = None \<and> (\<forall>d \<in> set ds. \<not> encloses a b d)"
  by (induction ds arbitrary: best) (auto split: option.splits)

lemma tightest_Some:
  assumes "tightest a b best ds = Some (sz, name)"
  shows "(best = Some (sz, name) \<or> (\<exists>d \<in> set ds. encloses a b d \<and> def_size d = sz \<and> snd (snd d) = name)) \<and>
    (\<forall>d \<in> set ds. encloses a b d \<longrightarrow> sz \<le> def_size d) \<and> (\<forall>s n. best = Some (s, n) \<longrightarrow> sz \<le> s)"
  using assms
proof (induction ds arbitrary: best)
  case Nil
  then show ?case by auto
next
  case (Cons d ds)
  let ?best = "if encloses a b d \<and> (case best of None \<Rightarrow> True | Some (s, _) \<Rightarrow> def_size d < s)
    then Some (def_size d, snd (snd d)) else best"
  have "tightest a b ?best ds = Some (sz, name)" using Cons.prems by simp
  from Cons.IH [OF this] show ?case by (auto split: if_splits option.splits)
qed

lemma dedup_set: "set (foldl (\<lambda>seen x. set_add x seen) acc xs) = set acc \<union> set xs"
  by (induction xs arbitrary: acc) (auto simp: set_add_def)

lemma dedup_sorted:
  "sorted (map f (acc @ xs)) \<Longrightarrow> sorted (map f (foldl (\<lambda>seen x. set_add x seen) acc xs))"
proof (induction xs arbitrary: acc)
  case Nil
  then show ?case by simp
next
  case (Cons x xs)
  have "sorted (map f (set_add x acc @ xs))"
    using Cons.prems by (auto simp: set_add_def sorted_append)
  from Cons.IH [OF this] show ?case by simp
qed

lemma definition_map_sorted: "sorted (map fst (definition_map entries))"
  unfolding definition_map_def dedup_def by (rule dedup_sorted) simp

lemma definition_map_set: "set (definition_map entries) = set entries"
  by (simp add: definition_map_def dedup_def dedup_set)

text \<open>On a sorted list, bisection cuts off exactly the entries that start after the node.\<close>

lemma set_take_bisect:
  "sorted (map fst dm) \<Longrightarrow> set (take (bisect_right (map fst dm) x) dm) = {d \<in> set dm. fst d \<le> x}"
proof (induction dm)
  case Nil
  then show ?case by (simp add: bisect_right_def)
next
  case (Cons d dm)
  show ?case
  proof (cases "fst d \<le> x")
    case True
    with Cons show ?thesis by (auto simp: bisect_right_def)
  next
    case False
    moreover from this Cons.prems have "\<forall>d' \<in> set dm. \<not> fst d' \<le> x" by (fastforce intro: order_trans)
    ultimately show ?thesis by (auto simp: bisect_right_def)
  qed
qed

text \<open>
  C19: The bisecting lookup on the definition map built from any collection of definitions agrees
  with a search through all of them: it finds nothing exactly when no definition encloses the
  node, and otherwise names an enclosing definition whose byte range is smallest.
\<close>

theorem enclosing_def_is_tightest:
  "(find_enclosing_def (definition_map entries) a b = None \<longleftrightarrow> (\<forall>d \<in> set entries. \<not> encloses a b d)) \<and>
   (\<forall>name. find_enclosing_def (definition_map entries) a b = Some name \<longrightarrow>
      (\<exists>d \<in> set entries. encloses a b d \<and> snd (snd d) = name \<and>
         (\<forall>d' \<in> set entries. encloses a b d' \<longrightarrow> def_size d \<le> def_size d')))"
proof -
  let ?cands = "rev (take (bisect_right (map fst (definition_map entries)) a) (definition_map entries))"
  have cands: "d \<in> set ?cands \<and> encloses a b d \<longleftrightarrow> d \<in> set entries \<and> encloses a b d" for d
    using set_take_bisect [OF definition_map_sorted, of entries a]
    by (auto simp: definition_map_set encloses_def)
  have none: "tightest a b None ?cands = None \<longleftrightarrow> (\<forall>d \<in> set entries. \<not> encloses a b d)"
    unfolding tightest_None using cands by blast
  have some: "\<exists>d \<in> set entries. encloses a b d \<and> snd (snd d) = name \<and>
      (\<forall>d' \<in> set entries. encloses a b d' \<longrightarrow> def_size d \<le> def_size d')"
    if "tightest a b None ?cands = Some (sz, name)" for sz name
    using tightest_Some [OF that] cands by (metis option.distinct(1))
  show ?thesis unfolding find_enclosing_def_def using none some by auto
qed

theorem enclosing_def_is_tightest_witness:
  "find_enclosing_def (definition_map [(10, 20, ''inner''), (0, 50, ''outer''), (60, 70, ''other'')]) 12 15 = Some ''inner'' \<and>
   (\<exists>d \<in> set [(10, 20, ''inner''), (0, 50, ''outer''), (60, 70, ''other'')]. encloses 12 15 d \<and> snd (snd d) = ''inner'' \<and>
      (\<forall>d' \<in> set [(10, 20, ''inner''), (0, 50, ''outer''), (60, 70, ''other'')]. encloses 12 15 d' \<longrightarrow> def_size d \<le> def_size d'))"
proof -
  have "find_enclosing_def (definition_map [(10, 20, ''inner''), (0, 50, ''outer''), (60, 70, ''other'')]) 12 15 = Some ''inner''"
    by code_simp
  with enclosing_def_is_tightest [of "[(10, 20, ''inner''), (0, 50, ''outer''), (60, 70, ''other'')]" 12 15]
  show ?thesis by blast
qed

text \<open>An enclosing capture is never smaller than the target it encloses, so it is never chosen.\<close>

lemma rel_node_is_target: "rel_node node_nodes target = target"
proof -
  have "foldl (\<lambda>(best, sz) node.
      if fst node \<le> fst target \<and> snd target \<le> snd node \<and> int (snd node) - int (fst node) < sz
      then (node, int (snd node) - int (fst node)) else (best, sz))
    (target, int (snd target) - int (fst target)) node_nodes = (target, int (snd target) - int (fst target))"
    by (induction node_nodes) auto
  then show ?thesis by (simp add: rel_node_def)
qed

section \<open>Reading a diff back\<close>

text \<open>
  A changed file as \<open>git diff --unified=0\<close> prints it: the two header lines and its hunks, each
  with the old and the new range, the text after the second \<open>@@\<close>, and the changed lines.
\<close>

record hunk =
  hk_old :: "nat \<times> nat option"
  hk_new :: "nat \<times> nat option"
  hk_context :: string
  hk_lines :: "string list"

definition show_range :: "nat \<times> nat option \<Rightarrow> string" where
  "show_range r = show_nat (fst r) @ (case snd r of None \<Rightarrow> [] | Some c \<Rightarrow> '','' @ show_nat c)"

definition hunk_header :: "hunk \<Rightarrow> string" where
  "hunk_header h = ''@@ -'' @ show_range (hk_old h) @ '' +'' @ show_range (hk_new h) @ '' @@'' @ hk_context h"

definition hunk_text :: "hunk \<Rightarrow> string list" where
  "hunk_text h = hunk_header h # hk_lines h"

definition file_text :: "string \<times> hunk list \<Rightarrow> string list" where
  "file_text f = (''--- a/'' @ fst f) # (''+++ b/'' @ fst f) # concat (map hunk_text (snd f))"

text \<open>A changed line starts with its sign; it must not look like a header.\<close>

definition diff_body_line :: "string \<Rightarrow> bool" where
  "diff_body_line l \<longleftrightarrow> \<not> str_startswith l ''--- a/'' \<and> \<not> str_startswith l ''+++ b/'' \<and> \<not> str_startswith l ''@@''"

definition new_range :: "hunk \<Rightarrow> int \<times> int" where
  "new_range h = (int (fst (hk_new h)), int (fst (hk_new h)) + int (opt_default 1 (snd (hk_new h))) - 1)"

lemma str_startswith_append [simp]: "str_startswith (p @ s) p"
  by (simp add: str_startswith_def)

lemma strip_prefix_append [simp]: "strip_prefix p (p @ s) = Some s"
  by (simp add: strip_prefix_def)

lemma takeWhile_digits: "(c = [] \<or> \<not> is_digit (hd c)) \<Longrightarrow> takeWhile is_digit (show_nat n @ c) = show_nat n"
  using show_nat_digits [of n] by (cases c) (auto simp: takeWhile_append2)

lemma dropWhile_digits: "(c = [] \<or> \<not> is_digit (hd c)) \<Longrightarrow> dropWhile is_digit (show_nat n @ c) = c"
  using show_nat_digits [of n] by (cases c) (auto simp: dropWhile_append2)

lemma match_show_range:
  assumes "s \<noteq> []" and "hd s = CHR '' ''"
  shows "match_range (show_range r @ s) = Some (fst r, snd r, s)"
proof -
  from assms obtain s' where s: "s = CHR '' '' # s'" by (cases s) auto
  have sep: "\<not> is_digit (CHR '' '')" "\<not> is_digit (CHR '','')" by (simp_all add: is_digit_def)
  show ?thesis
  proof (cases "snd r")
    case None
    with sep takeWhile_digits [of s "fst r"] dropWhile_digits [of s "fst r"] show ?thesis
      by (simp add: match_range_def show_range_def s Let_def prod_eq_iff)
  next
    case (Some c)
    let ?t = "'','' @ show_nat c @ s"
    have "takeWhile is_digit (show_nat (fst r) @ ?t) = show_nat (fst r)" "dropWhile is_digit (show_nat (fst r) @ ?t) = ?t"
      using sep by (auto intro!: takeWhile_digits dropWhile_digits)
    moreover have "takeWhile is_digit (show_nat c @ s) = show_nat c" "dropWhile is_digit (show_nat c @ s) = s"
      using sep by (auto simp: s intro!: takeWhile_digits dropWhile_digits)
    ultimately show ?thesis
      using Some by (simp add: match_range_def show_range_def Let_def prod_eq_iff)
  qed
qed

lemma match_hunk_header: "match_hunk (hunk_header h) = Some (hk_new h)"
proof -
  have "match_range (show_range (hk_old h) @ '' +'' @ r) = Some (fst (hk_old h), snd (hk_old h), '' +'' @ r)" for r
    by (rule match_show_range) simp_all
  moreover have "match_range (show_range (hk_new h) @ '' @@'' @ r) = Some (fst (hk_new h), snd (hk_new h), '' @@'' @ r)" for r
    by (rule match_show_range) simp_all
  ultimately show ?thesis
    unfolding match_hunk_def hunk_header_def by (simp only: strip_prefix_append) (simp add: strip_prefix_def str_startswith_def)
qed

lemma hunk_header_line:
  "str_startswith (hunk_header h) ''@@''" "\<not> str_startswith (hunk_header h) ''--- a/''" "\<not> str_startswith (hunk_header h) ''+++ b/''"
  by (simp_all add: hunk_header_def str_startswith_def)

lemma diff_body_lines: "list_all diff_body_line ls \<Longrightarrow> foldl diff_line st ls = st"
  by (induction ls arbitrary: st) (simp_all add: diff_body_line_def diff_line_def)

lemma diff_hunks:
  assumes "df_dst st = Some f" "f \<noteq> []" "list_all (\<lambda>h. list_all diff_body_line (hk_lines h)) hs"
  shows "foldl diff_line st (concat (map hunk_text hs)) = st\<lparr>df_ranges := df_ranges st @ map new_range hs\<rparr>"
  using assms
proof (induction hs arbitrary: st)
  case Nil
  then show ?case by simp
next
  case (Cons h hs)
  have "diff_line st (hunk_header h) = st\<lparr>df_ranges := df_ranges st @ [new_range h]\<rparr>"
    using Cons.prems(1,2) by (simp add: diff_line_def hunk_header_line match_hunk_header is_set_def new_range_def split: prod.splits)
  with Cons.IH [of "st\<lparr>df_ranges := df_ranges st @ [new_range h]\<rparr>"] Cons.prems show ?case
    by (simp add: hunk_text_def diff_body_lines)
qed

text \<open>Between files: the state holds the previous file, already complete.\<close>

definition file_changes :: "string \<times> hunk list \<Rightarrow> (string \<times> (int \<times> int) list) list" where
  "file_changes f = (if snd f = [] then [] else [(fst f, map new_range (snd f))])"

lemma diff_files:
  assumes "\<forall>f \<in> set fs. fst f \<noteq> [] \<and> list_all (\<lambda>h. list_all diff_body_line (hk_lines h)) (snd f)"
    and "df_src st = None"
  shows "df_changes (diff_flush (foldl diff_line st (concat (map file_text fs)))) =
      df_changes (diff_flush st) @ concat (map file_changes fs) \<and>
    df_stale (foldl diff_line st (concat (map file_text fs))) = df_stale st \<and>
    df_src (foldl diff_line st (concat (map file_text fs))) = None"
  using assms
proof (induction fs arbitrary: st)
  case Nil
  then show ?case by simp
next
  case (Cons f fs)
  let ?st1 = "(diff_flush st)\<lparr>df_dst := Some (fst f), df_src := None\<rparr>"
  let ?st2 = "?st1\<lparr>df_ranges := map new_range (snd f)\<rparr>"
  have heads: "foldl diff_line st [''--- a/'' @ fst f, ''+++ b/'' @ fst f] = ?st1"
    by (simp add: diff_line_def str_startswith_def diff_flush_def Let_def is_set_def)
  have "foldl diff_line ?st1 (concat (map hunk_text (snd f))) = ?st2"
    using diff_hunks [of ?st1 "fst f" "snd f"] Cons.prems(1) by (simp add: diff_flush_def Let_def)
  with heads have one_file: "foldl diff_line st (file_text f) = ?st2"
    by (simp add: file_text_def)
  have flush: "df_changes (diff_flush ?st2) = df_changes (diff_flush st) @ file_changes f"
    using Cons.prems(1) by (simp add: diff_flush_def Let_def file_changes_def)
  have stale: "df_stale ?st2 = df_stale st" by (simp add: diff_flush_def Let_def split: option.split)
  show ?case
    using Cons.IH [of ?st2] Cons.prems(1) flush stale by (simp add: one_file)
qed



text \<open>
  The header of an added file, \<open>--- /dev/null\<close>, does not close the file before it: the ranges of
  that file are reported for the added one.
\<close>

lemma added_file_takes_ranges:
  "parse_diff_lines [''--- a/x'', ''+++ b/x'', ''@@ -5 +5 @@'', ''--- /dev/null'', ''+++ b/y'', ''@@ -0,0 +1 @@''] =
     ([(''y'', [(5, 5), (1, 1)])], [])"
  by code_simp

text \<open>A deleted file is reported as stale only when it is the last one of the diff.\<close>

lemma deleted_file_not_stale:
  "parse_diff_lines [''--- a/x'', ''+++ /dev/null'', ''@@ -1 +0,0 @@'', ''--- a/y'', ''+++ b/y'', ''@@ -1 +1 @@''] =
     ([(''y'', [(1, 1)])], [])"
  by code_simp

end
