(* ===== verification/Symbol_Index.thy ===== *)
theory Symbol_Index
  imports Code_Graph Keys
begin

text \<open>
  The stateful part of \<^verbatim>\<open>shared/code_graph.py\<close>: \<open>SymbolIndex\<close> with its caches, its
  queries, and the writing of symbols and edges. SurrealDB is a parameter with one operation per
  statement the code sends; each may raise. SHA-256, \<open>git\<close> and the tree-sitter extraction are
  parameters too.
\<close>

section \<open>The database as the code uses it\<close>

record sym_row =
  sr_filepath :: "string option"
  sr_name :: "string option"
  sr_kind :: "string option"
  sr_line :: "int option"
  sr_category :: "string option"
  sr_end_line :: "int option"

record symbol_record =
  sy_id :: string
  sy_name :: string
  sy_kind :: string
  sy_category :: string
  sy_filepath :: string
  sy_line :: int
  sy_end_line :: int
  sy_language :: string
  sy_repo :: string

record edge_record =
  ed_in :: string
  ed_out :: string
  ed_line :: int

record 's surreal =
  sq_defs_named :: "string \<Rightarrow> string \<Rightarrow> ('s, sym_row list) io"
  sq_named :: "string \<Rightarrow> string \<Rightarrow> ('s, sym_row list) io"
  sq_defs_in_file :: "string \<Rightarrow> string \<Rightarrow> int option \<Rightarrow> int option \<Rightarrow> ('s, sym_row list) io"
  sq_defs_in_repo :: "string \<Rightarrow> ('s, sym_row list) io"
  sq_defs_overlapping :: "string \<Rightarrow> int \<Rightarrow> int \<Rightarrow> string \<Rightarrow> ('s, sym_row list) io"
  sq_targets :: "string \<Rightarrow> string \<Rightarrow> string \<Rightarrow> ('s, string option list) io"
  sq_sources :: "string \<Rightarrow> string \<Rightarrow> string \<Rightarrow> ('s, string option list) io"
  sq_edges :: "string \<Rightarrow> string \<Rightarrow> ('s, (string option \<times> string option) list) io"
  sq_scopes :: "string \<Rightarrow> ('s, (string option \<times> string option \<times> int option \<times> string option) list) io"
  sq_parent :: "string \<Rightarrow> int \<Rightarrow> string \<Rightarrow> string \<Rightarrow> ('s, string option list) io"
  sq_commit :: "string \<Rightarrow> ('s, string option list) io"
  sq_def_ids :: "string \<Rightarrow> ('s, (string option \<times> string option \<times> string option) list) io"
  sq_insert_symbols :: "symbol_record list \<Rightarrow> ('s, unit) io"
  sq_insert_edges :: "string \<Rightarrow> edge_record list \<Rightarrow> ('s, unit) io"
  sq_relate :: "string \<Rightarrow> edge_record \<Rightarrow> ('s, unit) io"
  sq_set_commit :: "string \<Rightarrow> string \<Rightarrow> ('s, unit) io"
  sq_delete_edges :: "string \<Rightarrow> string \<Rightarrow> ('s, unit) io"
  sq_delete_symbols :: "string \<Rightarrow> ('s, unit) io"
  sq_delete_file_edges :: "string \<Rightarrow> string \<Rightarrow> string \<Rightarrow> ('s, unit) io"
  sq_delete_file_symbols :: "string \<Rightarrow> string \<Rightarrow> ('s, unit) io"
  sq_sleep :: "real \<Rightarrow> ('s, unit) io"

definition tag_of_row :: "sym_row \<Rightarrow> tag" where
  "tag_of_row r = \<lparr>tg_filepath = opt_default [] (sr_filepath r), tg_name = opt_default [] (sr_name r),
     tg_kind = opt_default ''reference'' (sr_kind r), tg_line = opt_default 0 (sr_line r),
     tg_category = opt_default [] (sr_category r), tg_end_line = opt_default 0 (sr_end_line r)\<rparr>"

definition rows_to_tags :: "sym_row list \<Rightarrow> tag list" where
  "rows_to_tags rows = map tag_of_row rows"

definition VALID_EDGE_TABLES :: "string list" where
  "VALID_EDGE_TABLES = [''calls'', ''imports'', ''inherits'', ''contains_edge'']"

definition assert_valid_table :: "string \<Rightarrow> ('s, unit) io" where
  "assert_valid_table table =
     (if table \<in> set VALID_EDGE_TABLES then io_ret ()
      else io_raise (Exn ValueError (''Unknown edge table '' @ table)))"

text \<open>\<open>_query_with_retry\<close>: \<open>m\<close> attempts are left after this one.\<close>

definition not_retried :: "exn \<Rightarrow> bool" where
  "not_retried e \<longleftrightarrow> exc_isinstance e RuntimeError \<or> str_contains ''401'' (exc_msg e) \<or>
     str_contains ''Unauthorized'' (exc_msg e) \<or> str_contains ''circuit breaker'' (str_lower (exc_msg e))"

fun query_attempts :: "(real \<Rightarrow> ('s, unit) io) \<Rightarrow> nat \<Rightarrow> nat \<Rightarrow> ('s, 'a) io \<Rightarrow> ('s, 'a) io" where
  "query_attempts sleep attempt 0 q = q"
| "query_attempts sleep attempt (Suc m) q =
     io_try q (\<lambda>e. if not_retried e then io_raise e
       else io_then (sleep (0.5 * 2 ^ attempt)) (query_attempts sleep (Suc attempt) m q))"

definition query_with_retry :: "'s surreal \<Rightarrow> ('s, 'a) io \<Rightarrow> ('s, 'a) io" where
  "query_with_retry S q = query_attempts (sq_sleep S) 0 2 q"

section \<open>Edges and scopes\<close>

definition nonempty_set :: "string option list \<Rightarrow> string list" where
  "nonempty_set xs = dedup (filter (\<lambda>x. x \<noteq> []) (map (opt_default []) xs))"

definition get_edge_targets :: "'s surreal \<Rightarrow> string \<Rightarrow> string \<Rightarrow> string \<Rightarrow> ('s, string list) io" where
  "get_edge_targets S name table repo =
     io_then (assert_valid_table table)
       (io_try (io_bind (sq_targets S table name repo) (\<lambda>rows. io_ret (nonempty_set rows))) (\<lambda>e. io_ret []))"

definition get_edge_sources :: "'s surreal \<Rightarrow> string \<Rightarrow> string \<Rightarrow> string \<Rightarrow> ('s, string list) io" where
  "get_edge_sources S name table repo =
     io_then (assert_valid_table table)
       (io_try (io_bind (sq_sources S table name repo) (\<lambda>rows. io_ret (nonempty_set rows))) (\<lambda>e. io_ret []))"

definition get_all_repo_edges :: "'s surreal \<Rightarrow> string \<Rightarrow> string \<Rightarrow> ('s, edges) io" where
  "get_all_repo_edges S table repo =
     io_then (assert_valid_table table)
       (io_try (io_bind (sq_edges S table repo) (\<lambda>rows. io_ret (forward_edges rows))) (\<lambda>e. io_ret []))"

type_synonym scope_map = "((string \<times> int \<times> string) \<times> string) list"

definition add_scope :: "scope_map \<Rightarrow> string option \<times> string option \<times> int option \<times> string option \<Rightarrow> scope_map" where
  "add_scope m row =
     (case row of (child, fp, lnum, parent) \<Rightarrow>
        (case lnum of
           Some l \<Rightarrow>
             if opt_default [] child \<noteq> [] \<and> opt_default [] fp \<noteq> [] \<and> opt_default [] parent \<noteq> []
             then AList.update (opt_default [] fp, l, opt_default [] child) (opt_default [] parent) m else m
         | None \<Rightarrow> m))"

definition get_all_scope_edges :: "'s surreal \<Rightarrow> string \<Rightarrow> ('s, scope_map) io" where
  "get_all_scope_edges S repo =
     io_try (io_bind (sq_scopes S repo) (\<lambda>rows. io_ret (foldl add_scope [] rows))) (\<lambda>e. io_ret [])"

definition resolve_scope :: "'s surreal \<Rightarrow> tag \<Rightarrow> string \<Rightarrow> ('s, string option) io" where
  "resolve_scope S t repo =
     io_try (io_bind (sq_parent S (tg_filepath t) (tg_line t) (tg_name t) repo) (\<lambda>rows. io_ret
         (case rows of Some p # _ \<Rightarrow> if p \<noteq> [] then Some p else None | _ \<Rightarrow> None)))
       (\<lambda>e. io_ret None)"

section \<open>Caches\<close>

record symbol_index =
  sx_repo :: string
  sx_built :: bool
  sx_edge_cache :: "(edges dict \<times> edges dict) option"
  sx_scope_cache :: "scope_map option"
  sx_def_cache :: "tag list dict option"

definition load_edge_cache :: "'s surreal \<Rightarrow> string \<Rightarrow> ('s, edges dict \<times> edges dict) io" where
  "load_edge_cache S repo =
     io_fold (\<lambda>(fwd, bwd) table.
         io_bind (get_all_repo_edges S table repo) (\<lambda>forward.
           io_ret (dict_set table forward fwd, dict_set table (reverse_edges forward) bwd)))
       ([], []) [''calls'', ''imports'', ''inherits'']"

definition get_edge_cache :: "'s surreal \<Rightarrow> symbol_index \<Rightarrow> string \<Rightarrow> ('s, (edges dict \<times> edges dict) \<times> symbol_index) io" where
  "get_edge_cache S ix repo =
     (case sx_edge_cache ix of
        Some c \<Rightarrow> io_ret (c, ix)
      | None \<Rightarrow> io_bind (load_edge_cache S repo) (\<lambda>c. io_ret (c, ix\<lparr>sx_edge_cache := Some c\<rparr>)))"

definition get_scope_cache :: "'s surreal \<Rightarrow> symbol_index \<Rightarrow> string \<Rightarrow> ('s, scope_map \<times> symbol_index) io" where
  "get_scope_cache S ix repo =
     (case sx_scope_cache ix of
        Some c \<Rightarrow> io_ret (c, ix)
      | None \<Rightarrow> io_bind (get_all_scope_edges S repo) (\<lambda>c. io_ret (c, ix\<lparr>sx_scope_cache := Some c\<rparr>)))"

definition group_by_name :: "tag list \<Rightarrow> tag list dict" where
  "group_by_name ts = foldl (\<lambda>m t. dict_set (tg_name t) (opt_default [] (dict_get m (tg_name t)) @ [t]) m) [] ts"

definition get_def_cache :: "'s surreal \<Rightarrow> symbol_index \<Rightarrow> string \<Rightarrow> ('s, tag list dict \<times> symbol_index) io" where
  "get_def_cache S ix repo =
     (case sx_def_cache ix of
        Some c \<Rightarrow> io_ret (c, ix)
      | None \<Rightarrow>
          io_bind (io_try (io_bind (sq_defs_in_repo S repo) (\<lambda>rows. io_ret (group_by_name (rows_to_tags rows))))
              (\<lambda>e. io_ret []))
            (\<lambda>c. io_ret (c, ix\<lparr>sx_def_cache := Some c\<rparr>)))"

definition invalidate_caches :: "symbol_index \<Rightarrow> symbol_index" where
  "invalidate_caches ix = ix\<lparr>sx_edge_cache := None, sx_scope_cache := None, sx_def_cache := None\<rparr>"

definition cached_defs :: "tag list dict \<Rightarrow> string \<Rightarrow> tag list" where
  "cached_defs c name = opt_default [] (dict_get c name)"

section \<open>Queries\<close>

definition dedup_by :: "('a \<Rightarrow> 'k) \<Rightarrow> 'a list \<Rightarrow> 'a list" where
  "dedup_by key xs = snd (foldl (\<lambda>(seen, out) x.
     if key x \<in> set seen then (seen, out) else (seen @ [key x], out @ [x])) ([], []) xs)"

definition DEF_CATEGORIES :: "string list" where
  "DEF_CATEGORIES = [''class'', ''function'', ''method'', ''variable'', ''decorator'']"

definition scope_of :: "symbol_index \<Rightarrow> string option \<Rightarrow> string" where
  "scope_of ix repo = (if opt_default [] repo \<noteq> [] then opt_default [] repo else sx_repo ix)"

definition find_definitions :: "'s surreal \<Rightarrow> symbol_index \<Rightarrow> string \<Rightarrow> string option \<Rightarrow> ('s, tag list) io" where
  "find_definitions S ix name repo =
     (let scope = scope_of ix repo in
      io_bind (sq_defs_named S name scope) (\<lambda>rows.
      io_bind (if rows \<noteq> [] then io_ret (rows_to_tags rows)
               else io_bind (sq_named S name scope) (\<lambda>all_rows.
                 io_ret (filter (\<lambda>t. tg_category t \<in> set DEF_CATEGORIES) (rows_to_tags all_rows))))
        (\<lambda>tags. io_ret (dedup_by (\<lambda>t. (tg_filepath t, tg_line t, tg_category t)) tags))))"

definition find_references :: "'s surreal \<Rightarrow> symbol_index \<Rightarrow> string \<Rightarrow> string option \<Rightarrow> ('s, tag list) io" where
  "find_references S ix name repo =
     io_bind (sq_named S name (scope_of ix repo)) (\<lambda>rows. io_ret (rows_to_tags rows))"

record symbol_context =
  sc_ambiguous :: bool
  sc_definitions :: "tag list"
  sc_scope :: "string option"
  sc_calls :: "string list"
  sc_called_by :: "string list"
  sc_inherits_from :: "string list"
  sc_inherited_by :: "string list"

text \<open>\<open>None\<close>: the symbol was not found.\<close>

definition get_context ::
  "'s surreal \<Rightarrow> symbol_index \<Rightarrow> string \<Rightarrow> string option \<Rightarrow> string option \<Rightarrow> ('s, symbol_context option) io" where
  "get_context S ix symbol_name file_hint repo =
     (let scope = scope_of ix repo in
      io_bind (find_definitions S ix symbol_name (Some scope)) (\<lambda>definitions.
        if definitions = [] then io_ret None
        else
          (let hinted = filter (\<lambda>d. file_hint = Some (tg_filepath d)) definitions;
               chosen = (if is_set file_hint \<and> length definitions > 1 \<and> length hinted = 1 then hinted else definitions)
           in io_bind (if length chosen > 1 then io_ret None else resolve_scope S (hd chosen) scope) (\<lambda>sc.
              io_bind (get_edge_targets S symbol_name ''calls'' scope) (\<lambda>calls.
              io_bind (get_edge_sources S symbol_name ''calls'' scope) (\<lambda>called_by.
              io_bind (get_edge_targets S symbol_name ''inherits'' scope) (\<lambda>inherits_from.
              io_bind (get_edge_sources S symbol_name ''inherits'' scope) (\<lambda>inherited_by.
                io_ret (Some \<lparr>sc_ambiguous = length chosen > 1, sc_definitions = chosen, sc_scope = sc,
                  sc_calls = sort calls, sc_called_by = sort called_by, sc_inherits_from = sort inherits_from,
                  sc_inherited_by = sort inherited_by\<rparr>)))))))))"

record impact =
  ip_symbols :: "tag list"
  ip_upstream :: "(nat \<times> impact_item list) list"
  ip_downstream :: "(nat \<times> impact_item list) list"
  ip_imported_by :: "string list"
  ip_risk :: "string \<times> string"

definition table_edges :: "edges dict \<Rightarrow> string \<Rightarrow> edges" where
  "table_edges c table = opt_default [] (dict_get c table)"

definition get_impact ::
  "'s surreal \<Rightarrow> (string list \<Rightarrow> string list) \<Rightarrow> symbol_index \<Rightarrow> string \<Rightarrow> int option \<Rightarrow> int option \<Rightarrow> int \<Rightarrow> string \<Rightarrow>
   string option \<Rightarrow> ('s, impact \<times> symbol_index) io" where
  "get_impact S ord ix file_path start_line end_line max_depth direction repo =
     (let depth = nat (min (max 1 max_depth) 10); scope = scope_of ix repo in
      io_bind (sq_defs_in_file S file_path scope start_line (if start_line = None then None else end_line)) (\<lambda>rows.
        let file_defs = rows_to_tags rows; affected = dedup (map tg_name file_defs) in
        io_bind (get_edge_cache S ix scope) (\<lambda>((fwd, bwd), ix1).
        io_bind (if direction \<in> set [''upstream'', ''downstream'', ''both''] then get_def_cache S ix1 scope
                 else io_ret ([], ix1)) (\<lambda>(defs, ix2).
          let imported_by = sort (neighbours (table_edges bwd ''imports'') file_path);
              upstream = (if direction \<in> set [''upstream'', ''both'']
                          then bfs_upstream ord bwd (cached_defs defs) affected depth else []);
              downstream = (if direction \<in> set [''downstream'', ''both'']
                          then bfs_downstream ord fwd (cached_defs defs) affected depth else [])
          in io_ret (\<lparr>ip_symbols = file_defs, ip_upstream = upstream, ip_downstream = downstream,
               ip_imported_by = imported_by, ip_risk = assess_risk upstream downstream imported_by\<rparr>, ix2)))))"

record file_overview =
  ov_definitions :: "tag list"
  ov_imports :: "string list"
  ov_imported_by :: "string list"
  ov_classes :: "(string list \<times> string list) dict"

definition add_method :: "scope_map \<Rightarrow> (string list \<times> string list) dict \<Rightarrow> tag \<Rightarrow> (string list \<times> string list) dict" where
  "add_method scopes classes d =
     (case map_of scopes (tg_filepath d, tg_line d, tg_name d) of
        None \<Rightarrow> classes
      | Some parent \<Rightarrow>
          (case dict_get classes parent of
             Some (bases, methods) \<Rightarrow> if parent \<noteq> [] then dict_set parent (bases, methods @ [tg_name d]) classes else classes
           | None \<Rightarrow> classes))"

definition get_file_overview ::
  "'s surreal \<Rightarrow> symbol_index \<Rightarrow> string \<Rightarrow> string option \<Rightarrow> ('s, file_overview \<times> symbol_index) io" where
  "get_file_overview S ix file_path repo =
     (let scope = scope_of ix repo in
      io_bind (sq_defs_in_file S file_path scope None None) (\<lambda>rows.
        let file_defs = rows_to_tags rows in
        io_bind (get_edge_cache S ix scope) (\<lambda>((fwd, bwd), ix1).
        io_bind (get_scope_cache S ix1 scope) (\<lambda>(scopes, ix2).
          let classes = foldl (\<lambda>m d. if tg_category d = ''class''
                then dict_set (tg_name d) (sort (neighbours (table_edges fwd ''inherits'') (tg_name d)), []) m else m)
                [] file_defs
          in io_ret (\<lparr>ov_definitions = file_defs,
               ov_imports = sort (neighbours (table_edges fwd ''imports'') file_path),
               ov_imported_by = sort (neighbours (table_edges bwd ''imports'') file_path),
               ov_classes = foldl (add_method scopes) classes file_defs\<rparr>, ix2)))))"

datatype trace_result = NotFound | Ambiguous "tag list" | Traced tag flow

definition trace_flow ::
  "'s surreal \<Rightarrow> symbol_index \<Rightarrow> string \<Rightarrow> string option \<Rightarrow> int \<Rightarrow> string option \<Rightarrow> ('s, trace_result \<times> symbol_index) io" where
  "trace_flow S ix entry_point file_hint max_depth repo =
     (let scope = scope_of ix repo in
      io_bind (find_definitions S ix entry_point (Some scope)) (\<lambda>found.
        if found = [] then io_ret (NotFound, ix)
        else
          (let definitions = (if is_set file_hint then filter (\<lambda>d. file_hint = Some (tg_filepath d)) found else found) in
           case definitions of
             [] \<Rightarrow> io_raise (Exn IndexError ''list index out of range'')
           | [d] \<Rightarrow>
               io_bind (get_edge_cache S ix scope) (\<lambda>((fwd, bwd), ix1).
               io_bind (get_def_cache S ix1 scope) (\<lambda>(defs, ix2).
                 io_ret (Traced d (trace_calls (table_edges fwd ''calls'') (cached_defs defs) entry_point max_depth), ix2)))
           | _ \<Rightarrow> io_ret (Ambiguous definitions, ix))))"

section \<open>Changes of a working tree\<close>

definition get_symbols_in_range :: "'s surreal \<Rightarrow> string \<Rightarrow> string \<Rightarrow> int \<times> int \<Rightarrow> ('s, tag list) io" where
  "get_symbols_in_range S repo filepath rng =
     io_try (io_bind (sq_defs_overlapping S filepath (fst rng) (snd rng) repo) (\<lambda>rows. io_ret (rows_to_tags rows)))
       (\<lambda>e. io_ret [])"

definition EDGE_TABLES :: "string list" where
  "EDGE_TABLES = [''calls'', ''imports'', ''inherits'', ''contains_edge'']"

text \<open>A failed deletion is logged and skipped.\<close>

definition try_delete :: "'s surreal \<Rightarrow> ('s, unit) io \<Rightarrow> ('s, unit) io" where
  "try_delete S q = io_try (query_with_retry S q) (\<lambda>e. io_ret ())"

definition clear_repo_files :: "'s surreal \<Rightarrow> string \<Rightarrow> string list \<Rightarrow> ('s, unit) io" where
  "clear_repo_files S repo files =
     io_fold (\<lambda>_ filepath.
       io_then (io_fold (\<lambda>_ table. io_then (assert_valid_table table) (try_delete S (sq_delete_file_edges S table filepath repo)))
                  () EDGE_TABLES)
         (try_delete S (sq_delete_file_symbols S filepath repo))) () files"

record change_report = changed_file +
  cr_ranges :: "(int \<times> int) list"
  cr_symbols :: "tag list"
  cr_upstream :: "(nat \<times> impact_item list) list"
  cr_downstream :: "(nat \<times> impact_item list) list"
  cr_risk_summary :: string

definition report_of ::
  "(string list \<Rightarrow> string list) \<Rightarrow> edges dict \<times> edges dict \<Rightarrow> tag list dict \<Rightarrow> string \<Rightarrow> (int \<times> int) list \<Rightarrow> tag list \<Rightarrow>
   change_report" where
  "report_of ord cache defs filepath ranges symbols =
     (let affected = dedup (map tg_name symbols);
          imported_by = sort (neighbours (table_edges (snd cache) ''imports'') filepath);
          upstream = bfs_upstream ord (snd cache) (cached_defs defs) affected 3;
          downstream = bfs_downstream ord (fst cache) (cached_defs defs) affected 3;
          risk = assess_risk upstream downstream imported_by
      in \<lparr>cf_file = filepath, cf_symbols = length symbols, cf_risk = fst risk, cr_ranges = ranges, cr_symbols = symbols,
          cr_upstream = upstream, cr_downstream = downstream, cr_risk_summary = snd risk\<rparr>)"

datatype diff_result = DiffError string | Changes "change_report list" string string

text \<open>\<open>run_git\<close> runs \<open>git diff --unified=0\<close>: return code, output, error output.\<close>

definition detect_changes_from_diff ::
  "'s surreal \<Rightarrow> (string list \<Rightarrow> string list) \<Rightarrow> ('s, int \<times> string \<times> string) io \<Rightarrow> symbol_index \<Rightarrow>
   ('s, diff_result \<times> symbol_index) io" where
  "detect_changes_from_diff S ord run_git ix =
     io_bind (io_try (io_bind run_git (\<lambda>r. io_ret (Inr r))) (\<lambda>e. io_ret (Inl e))) (\<lambda>outcome. case outcome of
         Inl e \<Rightarrow> io_ret (DiffError (''Failed to parse diff: '' @ exc_msg e), ix)
       | Inr (code, out, err) \<Rightarrow>
           if code \<noteq> 0 then io_ret (DiffError (''git diff failed: '' @ err), ix)
           else
             (case parse_git_diff out of (ranges, stale) \<Rightarrow>
              io_then (if stale \<noteq> [] then clear_repo_files S (sx_repo ix) stale else io_ret ())
              (io_bind (get_edge_cache S ix (sx_repo ix)) (\<lambda>(cache, ix1).
               io_bind (io_fold (\<lambda>(reports, ix') entry.
                   io_bind (io_fold (\<lambda>acc rng.
                       io_bind (get_symbols_in_range S (sx_repo ix) (fst entry) rng) (\<lambda>more. io_ret (acc @ more)))
                     [] (snd entry)) (\<lambda>symbols.
                   if symbols = [] then io_ret (reports, ix')
                   else io_bind (get_def_cache S ix' (sx_repo ix)) (\<lambda>(defs, ix'').
                     io_ret (reports @ [report_of ord cache defs (fst entry) (snd entry) symbols], ix''))))
                 ([], ix1) ranges) (\<lambda>(reports, ix2).
                 io_ret (Changes reports (summarize_changes (map changed_file.truncate reports))
                   (overall_risk (map changed_file.truncate reports)), ix2))))))"

section \<open>Writing symbols\<close>

definition symbol_key :: "tag \<Rightarrow> string \<times> string \<times> string \<times> string \<times> int" where
  "symbol_key t = (tg_name t, tg_kind t, tg_category t, tg_filepath t, tg_line t)"

definition symbol_record_of :: "(string \<Rightarrow> string) \<Rightarrow> string \<Rightarrow> tag \<Rightarrow> symbol_record" where
  "symbol_record_of sha256 repo t =
     \<lparr>sy_id = take 40 (sha256 (repo @ '':'' @ tg_filepath t @ '':'' @ tg_kind t @ '':'' @ tg_name t @ '':'' @ show_int (tg_line t))),
      sy_name = tg_name t, sy_kind = tg_kind t, sy_category = tg_category t, sy_filepath = tg_filepath t,
      sy_line = tg_line t, sy_end_line = (if tg_end_line t \<noteq> 0 then tg_end_line t else tg_line t),
      sy_language = lang_from_filepath (tg_filepath t), sy_repo = repo\<rparr>"

definition insert_batch :: "'s surreal \<Rightarrow> symbol_record list \<Rightarrow> ('s, unit) io" where
  "insert_batch S batch = io_try (query_with_retry S (sq_insert_symbols S batch)) (\<lambda>e. io_ret ())"

fun upsert_loop ::
  "'s surreal \<Rightarrow> (string \<Rightarrow> string) \<Rightarrow> string \<Rightarrow> (string \<times> string \<times> string \<times> string \<times> int) list \<Rightarrow> symbol_record list \<Rightarrow>
   tag list \<Rightarrow> ('s, unit) io" where
  "upsert_loop S sha256 repo seen batch [] = (if batch \<noteq> [] then insert_batch S batch else io_ret ())"
| "upsert_loop S sha256 repo seen batch (t # ts) =
     (if symbol_key t \<in> set seen then upsert_loop S sha256 repo seen batch ts
      else
        (let batch' = batch @ [symbol_record_of sha256 repo t]; seen' = seen @ [symbol_key t] in
         if length batch' \<ge> 500
         then io_then (insert_batch S batch') (upsert_loop S sha256 repo seen' [] ts)
         else upsert_loop S sha256 repo seen' batch' ts))"

definition upsert_symbols :: "'s surreal \<Rightarrow> (string \<Rightarrow> string) \<Rightarrow> tag list \<Rightarrow> string \<Rightarrow> ('s, unit) io" where
  "upsert_symbols S sha256 tags repo = upsert_loop S sha256 repo [] [] tags"

section \<open>Writing edges\<close>

record relationship =
  rl_source_file :: string
  rl_source_line :: int
  rl_source_name :: string
  rl_target_name :: string
  rl_target_file :: "string option"
  rl_kind :: string

type_synonym def_ids = "((string \<times> string) \<times> string) list \<times> string dict"

definition add_def_id :: "def_ids \<Rightarrow> string option \<times> string option \<times> string option \<Rightarrow> def_ids" where
  "add_def_id m row =
     (case row of (rid, name, filepath) \<Rightarrow>
        (let r = opt_default [] rid; n = opt_default [] name; f = opt_default [] filepath in
         if r = [] \<or> n = [] then m
         else (AList.update (n, f) r (fst m), if dict_get (snd m) n = None then dict_set n r (snd m) else snd m)))"

definition resolve_edge :: "def_ids \<Rightarrow> relationship \<Rightarrow> edge_record option" where
  "resolve_edge m rel =
     (case map_of (fst m) (rl_source_name rel, rl_source_file rel) of
        None \<Rightarrow> None
      | Some src \<Rightarrow>
          (let by_file = (if is_set (rl_target_file rel)
                          then map_of (fst m) (rl_target_name rel, opt_default [] (rl_target_file rel)) else None);
               tgt = (if by_file = None then dict_get (snd m) (rl_target_name rel) else by_file)
           in case tgt of
                None \<Rightarrow> None
              | Some t \<Rightarrow> if src = t then None else Some \<lparr>ed_in = src, ed_out = t, ed_line = rl_source_line rel\<rparr>))"

definition edges_by_kind :: "def_ids \<Rightarrow> relationship list \<Rightarrow> edge_record list dict" where
  "edges_by_kind m rels =
     foldl (\<lambda>acc rel. case resolve_edge m rel of
         None \<Rightarrow> acc
       | Some e \<Rightarrow> dict_set (rl_kind rel) (opt_default [] (dict_get acc (rl_kind rel)) @ [e]) acc) [] rels"

function batches_of :: "nat \<Rightarrow> 'a list \<Rightarrow> 'a list list" where
  "batches_of n xs = (if xs = [] \<or> n = 0 then [] else take n xs # batches_of n (drop n xs))"
  by pat_completeness auto
termination
  by (relation "measure (\<lambda>(n, xs). length xs)") auto

declare batches_of.simps [simp del]

definition insert_edge_batch :: "'s surreal \<Rightarrow> string \<Rightarrow> edge_record list \<Rightarrow> ('s, unit) io" where
  "insert_edge_batch S kind batch =
     io_try (query_with_retry S (sq_insert_edges S kind batch))
       (\<lambda>e. io_fold (\<lambda>_ edge. io_try (query_with_retry S (sq_relate S kind edge)) (\<lambda>e2. io_ret ())) () batch)"

definition upsert_relationships :: "'s surreal \<Rightarrow> relationship list \<Rightarrow> string \<Rightarrow> ('s, unit) io" where
  "upsert_relationships S relationships repo =
     (if relationships = [] then io_ret ()
      else
        io_bind (io_try (io_bind (sq_def_ids S repo) (\<lambda>rows. io_ret (Some rows))) (\<lambda>e. io_ret None)) (\<lambda>fetched.
          case fetched of
            None \<Rightarrow> io_ret ()
          | Some rows \<Rightarrow>
              io_fold (\<lambda>_ (kind, edges).
                  io_then (assert_valid_table kind)
                    (io_fold (\<lambda>_ batch. insert_edge_batch S kind batch) () (batches_of 500 edges)))
                () (edges_by_kind (foldl add_def_id ([], []) rows) relationships)))"

section \<open>Building the index\<close>

definition is_commit_indexed :: "'s surreal \<Rightarrow> string \<Rightarrow> string \<Rightarrow> ('s, bool) io" where
  "is_commit_indexed S commit_hash repo =
     (if commit_hash = [] \<or> repo = [] then io_ret False
      else io_try (io_bind (sq_commit S commit_hash) (\<lambda>rows. io_ret
             (case rows of [] \<Rightarrow> False | r # _ \<Rightarrow> r = Some commit_hash)))
        (\<lambda>e. io_ret False))"

definition commit_record_id :: "string \<Rightarrow> string" where
  "commit_record_id repo =
     str_replace_char (CHR ''-'') ''_'' (str_replace_char (CHR ''.'') ''_'' (str_replace_char (CHR ''/'') ''_'' repo))"

definition mark_commit_indexed :: "'s surreal \<Rightarrow> string \<Rightarrow> string \<Rightarrow> ('s, unit) io" where
  "mark_commit_indexed S commit_hash repo =
     (if commit_hash = [] \<or> repo = [] then io_ret ()
      else io_try (query_with_retry S (sq_set_commit S (commit_record_id repo) commit_hash)) (\<lambda>e. io_ret ()))"

definition clear_repo_data :: "'s surreal \<Rightarrow> string \<Rightarrow> ('s, unit) io" where
  "clear_repo_data S repo =
     io_then (io_fold (\<lambda>_ table. io_then (assert_valid_table table) (try_delete S (sq_delete_edges S table repo))) () EDGE_TABLES)
       (try_delete S (sq_delete_symbols S repo))"

text \<open>\<open>extract_tags\<close> and \<open>extract_relationships\<close> run tree-sitter over the files of the repository.\<close>

definition build ::
  "'s surreal \<Rightarrow> (string \<Rightarrow> string) \<Rightarrow> bool \<Rightarrow> string \<Rightarrow> ('s, tag list) io \<Rightarrow> ('s, relationship list) io \<Rightarrow> symbol_index \<Rightarrow>
   tag list option \<Rightarrow> relationship list option \<Rightarrow> bool \<Rightarrow> ('s, symbol_index) io" where
  "build S sha256 initialized commit_hash extract_tags extract_relationships ix pre_tags pre_relationships force =
     (if \<not> initialized then io_ret ix
      else
        io_bind (if \<not> force \<and> opt_default [] pre_tags = [] then is_commit_indexed S commit_hash (sx_repo ix)
                 else io_ret False) (\<lambda>indexed.
          if indexed then io_ret (ix\<lparr>sx_built := True\<rparr>)
          else
            io_then (clear_repo_data S (sx_repo ix))
            (io_bind (case pre_tags of Some ts \<Rightarrow> io_ret ts | None \<Rightarrow> extract_tags) (\<lambda>tags.
               if tags = [] then io_ret (ix\<lparr>sx_built := True\<rparr>)
               else
                 io_then (upsert_symbols S sha256 tags (sx_repo ix))
                 (io_bind (case pre_relationships of Some rs \<Rightarrow> io_ret rs | None \<Rightarrow> extract_relationships) (\<lambda>rels.
                  io_then (upsert_relationships S rels (sx_repo ix))
                  (io_then (mark_commit_indexed S commit_hash (sx_repo ix))
                    (io_ret ((invalidate_caches ix)\<lparr>sx_built := True\<rparr>)))))))))"

definition build_incremental ::
  "'s surreal \<Rightarrow> (string \<Rightarrow> string) \<Rightarrow> bool \<Rightarrow> ('s, unit) io \<Rightarrow> string \<Rightarrow> ('s, tag list) io \<Rightarrow> ('s, relationship list) io \<Rightarrow>
   symbol_index \<Rightarrow> string list \<Rightarrow> ('s, symbol_index) io" where
  "build_incremental S sha256 initialized apply_schema commit_hash extract_tags extract_relationships ix changed_files =
     (if \<not> initialized then io_ret ix
      else if changed_files = [] then io_ret (ix\<lparr>sx_built := True\<rparr>)
      else
        io_then apply_schema
        (io_then (clear_repo_files S (sx_repo ix) changed_files)
        (io_bind extract_tags (\<lambda>tags.
           if tags = [] then io_ret (ix\<lparr>sx_built := True\<rparr>)
           else
             io_then (upsert_symbols S sha256 tags (sx_repo ix))
             (io_bind extract_relationships (\<lambda>rels.
              io_then (upsert_relationships S rels (sx_repo ix))
              (io_then (mark_commit_indexed S commit_hash (sx_repo ix))
                (io_ret ((invalidate_caches ix)\<lparr>sx_built := True\<rparr>)))))))))"

section \<open>Edge caches\<close>

lemma neighbours_add_edge:
  "x \<in> set (neighbours (add_edge e p) y) \<longleftrightarrow> p = (y, x) \<or> x \<in> set (neighbours e y)"
  by (cases p) (auto simp: add_edge_def neighbours_def set_add_def)

lemma neighbours_Nil [simp]: "neighbours [] y = []"
  by (simp add: neighbours_def)

lemma neighbours_fold_edges:
  "x \<in> set (neighbours (foldl add_edge e ps) y) \<longleftrightarrow> (y, x) \<in> set ps \<or> x \<in> set (neighbours e y)"
  by (induction ps arbitrary: e) (auto simp: neighbours_add_edge)

definition row_edges :: "(string option \<times> string option) list \<Rightarrow> (string \<times> string) set" where
  "row_edges rows = {(a, b). a \<noteq> [] \<and> b \<noteq> [] \<and> (Some a, Some b) \<in> set rows}"

lemma forward_edges_fold:
  "foldl (\<lambda>e r. let src = opt_default [] (fst r); tgt = opt_default [] (snd r)
       in if src \<noteq> [] \<and> tgt \<noteq> [] then add_edge e (src, tgt) else e) acc rows =
   foldl add_edge acc (filter (\<lambda>p. fst p \<noteq> [] \<and> snd p \<noteq> [])
     (map (\<lambda>r. (opt_default [] (fst r), opt_default [] (snd r))) rows))"
  by (induction rows arbitrary: acc) (simp_all add: Let_def)

lemma opt_default_nonempty: "opt_default [] x = (c :: string) \<Longrightarrow> c \<noteq> [] \<Longrightarrow> x = Some c"
  by (cases x) auto

lemma forward_edges_rel: "edge_rel (forward_edges rows) = row_edges rows"
proof -
  have "(a, b) \<in> edge_rel (forward_edges rows) \<longleftrightarrow>
      (\<exists>r \<in> set rows. a = opt_default [] (fst r) \<and> b = opt_default [] (snd r)) \<and> a \<noteq> [] \<and> b \<noteq> []" for a b
    unfolding forward_edges_def forward_edges_fold edge_rel_def
    by (auto simp: neighbours_fold_edges)
  moreover have "(\<exists>r \<in> set rows. a = opt_default [] (fst r) \<and> b = opt_default [] (snd r)) \<and> a \<noteq> [] \<and> b \<noteq> [] \<longleftrightarrow>
      (a, b) \<in> row_edges rows" for a b
  proof
    assume "(\<exists>r \<in> set rows. a = opt_default [] (fst r) \<and> b = opt_default [] (snd r)) \<and> a \<noteq> [] \<and> b \<noteq> []"
    then obtain r where "r \<in> set rows" "fst r = Some a" "snd r = Some b" "a \<noteq> []" "b \<noteq> []"
      by (metis opt_default_nonempty)
    moreover from this have "r = (Some a, Some b)" by (simp add: prod_eq_iff)
    ultimately show "(a, b) \<in> row_edges rows" by (simp add: row_edges_def)
  next
    assume "(a, b) \<in> row_edges rows"
    then show "(\<exists>r \<in> set rows. a = opt_default [] (fst r) \<and> b = opt_default [] (snd r)) \<and> a \<noteq> [] \<and> b \<noteq> []"
      by (force simp: row_edges_def)
  qed
  ultimately show ?thesis by auto
qed

lemma add_edge_keys: "distinct (map fst e) \<Longrightarrow> distinct (map fst (add_edge e p))"
  by (simp add: add_edge_def distinct_update)

lemma fold_edge_keys: "distinct (map fst e) \<Longrightarrow> distinct (map fst (foldl add_edge e ps))"
  by (induction ps arbitrary: e) (simp_all add: add_edge_keys)

lemma forward_edges_keys: "distinct (map fst (forward_edges rows))"
  unfolding forward_edges_def forward_edges_fold by (rule fold_edge_keys) simp

lemma reverse_edges_rel:
  assumes "distinct (map fst e)"
  shows "edge_rel (reverse_edges e) = (edge_rel e)\<inverse>"
proof -
  have rev: "(b, a) \<in> edge_rel (reverse_edges e) \<longleftrightarrow> (\<exists>tgts. (a, tgts) \<in> set e \<and> b \<in> set tgts)" for a b
    unfolding reverse_edges_def edge_rel_def by (auto simp: neighbours_fold_edges)
  have fwd: "(a, b) \<in> edge_rel e \<longleftrightarrow> (\<exists>tgts. (a, tgts) \<in> set e \<and> b \<in> set tgts)" for a b
  proof (cases "dict_get e a")
    case None
    then have "a \<notin> fst ` set e" by (simp add: map_of_eq_None_iff)
    with None show ?thesis by (force simp: edge_rel_def neighbours_def)
  next
    case (Some ts)
    then have "(a, tgts) \<in> set e \<longleftrightarrow> tgts = ts" for tgts
      using map_of_eq_Some_iff [OF assms, of a tgts] by auto
    with Some show ?thesis by (simp add: edge_rel_def neighbours_def)
  qed
  show ?thesis using rev fwd by auto
qed

text \<open>
  The edge caches of a call, import or inheritance table hold exactly the pairs of names in
  the rows of the table, forwards and backwards: the backward cache is the converse of the
  forward one, so that upstream impact is distance against the direction of the calls.
\<close>

theorem edge_caches_converse:
  assumes "\<And>table. table \<in> set [''calls'', ''imports'', ''inherits''] \<Longrightarrow> sq_edges S table repo s = (Inr (rows table), s)"
    and "table \<in> set [''calls'', ''imports'', ''inherits'']"
  shows "\<exists>fwd bwd. load_edge_cache S repo s = (Inr (fwd, bwd), s) \<and>
    edge_rel (table_edges fwd table) = row_edges (rows table) \<and>
    edge_rel (table_edges bwd table) = (row_edges (rows table))\<inverse>"
proof -
  have one: "get_all_repo_edges S t repo s = (Inr (forward_edges (rows t)), s)"
    if "t \<in> set [''calls'', ''imports'', ''inherits'']" for t
    using assms(1) [OF that] that
    by (auto simp: get_all_repo_edges_def assert_valid_table_def VALID_EDGE_TABLES_def io_simps)
  have "load_edge_cache S repo s = (Inr
      ([(''calls'', forward_edges (rows ''calls'')), (''imports'', forward_edges (rows ''imports'')),
        (''inherits'', forward_edges (rows ''inherits''))],
       [(''calls'', reverse_edges (forward_edges (rows ''calls''))), (''imports'', reverse_edges (forward_edges (rows ''imports''))),
        (''inherits'', reverse_edges (forward_edges (rows ''inherits'')))]), s)"
    by (simp add: load_edge_cache_def io_simps one)
  then show ?thesis
    using assms(2) by (auto simp: table_edges_def forward_edges_rel reverse_edges_rel [OF forward_edges_keys])
qed

text \<open>A database in memory, for the examples: it records the symbol batches it is given.\<close>

definition log_surreal :: "(string \<Rightarrow> (string option \<times> string option) list) \<Rightarrow> symbol_record list list surreal" where
  "log_surreal rows = \<lparr>sq_defs_named = \<lambda>_ _. io_ret [], sq_named = \<lambda>_ _. io_ret [],
     sq_defs_in_file = \<lambda>_ _ _ _. io_ret [], sq_defs_in_repo = \<lambda>_. io_ret [], sq_defs_overlapping = \<lambda>_ _ _ _. io_ret [],
     sq_targets = \<lambda>_ _ _. io_ret [], sq_sources = \<lambda>_ _ _. io_ret [], sq_edges = \<lambda>t _. io_ret (rows t),
     sq_scopes = \<lambda>_. io_ret [], sq_parent = \<lambda>_ _ _ _. io_ret [], sq_commit = \<lambda>_. io_ret [], sq_def_ids = \<lambda>_. io_ret [],
     sq_insert_symbols = \<lambda>b s. (Inr (), s @ [b]), sq_insert_edges = \<lambda>_ _. io_ret (), sq_relate = \<lambda>_ _. io_ret (),
     sq_set_commit = \<lambda>_ _. io_ret (), sq_delete_edges = \<lambda>_ _. io_ret (), sq_delete_symbols = \<lambda>_. io_ret (),
     sq_delete_file_edges = \<lambda>_ _ _. io_ret (), sq_delete_file_symbols = \<lambda>_ _. io_ret (), sq_sleep = \<lambda>_. io_ret ()\<rparr>"

theorem edge_caches_converse_witness:
  "\<exists>fwd bwd. load_edge_cache (log_surreal (\<lambda>_. [(Some ''f'', Some ''g''), (Some ''h'', None)])) ''o/r'' [] = (Inr (fwd, bwd), []) \<and>
    edge_rel (table_edges bwd ''calls'') = {(''g'', ''f'')}"
proof -
  have "row_edges [(Some ''f'', Some ''g''), (Some ''h'', None)] = {(''f'', ''g'')}"
    by (auto simp: row_edges_def)
  moreover have "sq_edges (log_surreal (\<lambda>_. [(Some ''f'', Some ''g''), (Some ''h'', None)])) t ''o/r'' [] =
      (Inr [(Some ''f'', Some ''g''), (Some ''h'', None)], [])" for t
    by (simp add: log_surreal_def io_ret_def)
  ultimately show ?thesis
    using edge_caches_converse [of "log_surreal (\<lambda>_. [(Some ''f'', Some ''g''), (Some ''h'', None)])" "''o/r''" "[]"
        "\<lambda>_. [(Some ''f'', Some ''g''), (Some ''h'', None)]" "''calls''"]
    by auto
qed

section \<open>Batches\<close>

lemma query_attempts_ok: "q s = (Inr x, s') \<Longrightarrow> query_attempts sl a m q s = (Inr x, s')"
  by (cases m) (simp_all add: io_simps)

text \<open>Keep the first tag of each key.\<close>

fun first_of_each :: "('a \<Rightarrow> 'k) \<Rightarrow> 'k list \<Rightarrow> 'a list \<Rightarrow> 'a list" where
  "first_of_each key seen [] = []"
| "first_of_each key seen (x # xs) =
     (if key x \<in> set seen then first_of_each key seen xs else x # first_of_each key (seen @ [key x]) xs)"

lemma first_of_each_distinct:
  "distinct (map key (first_of_each key seen xs)) \<and> set (map key (first_of_each key seen xs)) = key ` set xs - set seen"
  by (induction key seen xs rule: first_of_each.induct) auto

lemma upsert_loop_batches:
  assumes "\<And>b s. sq_insert_symbols S b s = (Inr (), s @ [b])" and "length batch < 500"
  shows "\<exists>bs. upsert_loop S sha repo seen batch tags s = (Inr (), s @ bs) \<and>
    concat bs = batch @ map (symbol_record_of sha repo) (first_of_each symbol_key seen tags) \<and>
    (\<forall>b \<in> set bs. b \<noteq> [] \<and> length b \<le> 500)"
  using assms(2)
proof (induction tags arbitrary: seen batch s)
  case Nil
  have "insert_batch S batch s = (Inr (), s @ [batch])"
    by (simp add: insert_batch_def query_with_retry_def io_simps query_attempts_ok assms(1))
  with Nil show ?case
    by (cases "batch = []") (auto simp: io_simps intro: exI [of _ "[batch]"])
next
  case (Cons t ts)
  let ?b = "batch @ [symbol_record_of sha repo t]"
  have ins: "insert_batch S ?b s = (Inr (), s @ [?b])"
    by (simp add: insert_batch_def query_with_retry_def io_simps query_attempts_ok assms(1))
  consider "symbol_key t \<in> set seen" | "symbol_key t \<notin> set seen" "length ?b < 500" | "symbol_key t \<notin> set seen" "length ?b = 500"
    using Cons.prems by fastforce
  then show ?case
  proof cases
    case 1
    with Cons.IH [of batch seen s] Cons.prems show ?thesis by simp
  next
    case 2
    with Cons.IH [of ?b "seen @ [symbol_key t]" s] show ?thesis by (auto simp: Let_def)
  next
    case 3
    obtain bs where bs: "upsert_loop S sha repo (seen @ [symbol_key t]) [] ts (s @ [?b]) = (Inr (), (s @ [?b]) @ bs)"
      "concat bs = map (symbol_record_of sha repo) (first_of_each symbol_key (seen @ [symbol_key t]) ts)"
      "\<forall>b \<in> set bs. b \<noteq> [] \<and> length b \<le> 500"
      using Cons.IH [of "[]" "seen @ [symbol_key t]" "s @ [?b]"] by auto
    have "upsert_loop S sha repo seen batch (t # ts) s = (Inr (), s @ ?b # bs)"
      using 3 ins bs(1) by (simp add: Let_def io_simps)
    moreover have "\<forall>b \<in> set (?b # bs). b \<noteq> [] \<and> length b \<le> 500" using bs(3) 3 by auto
    ultimately show ?thesis using 3 bs(2) by (intro exI [of _ "?b # bs"]) simp
  qed
qed

text \<open>
  Writing symbols to a database that accepts them sends batches of 1 to 500 records, which
  together are the records of the tags, in order, with only the first tag of each key (name,
  kind, category, file and line).
\<close>

theorem symbols_written_in_batches:
  assumes "\<And>b s. sq_insert_symbols S b s = (Inr (), s @ [b])"
  shows "\<exists>batches. upsert_symbols S sha256 tags repo [] = (Inr (), batches) \<and>
    concat batches = map (symbol_record_of sha256 repo) (first_of_each symbol_key [] tags) \<and>
    (\<forall>b \<in> set batches. b \<noteq> [] \<and> length b \<le> 500)"
  using upsert_loop_batches [OF assms, of "[]" sha256 repo "[]" tags "[]"]
  by (simp add: upsert_symbols_def)

theorem symbols_written_in_batches_witness:
  "\<exists>batches. upsert_symbols (log_surreal (\<lambda>_. [])) id (sample_defs ''f'' @ sample_defs ''g'' @ sample_defs ''f'') ''o/r'' [] =
     (Inr (), batches) \<and>
   concat batches = map (symbol_record_of id ''o/r'') (sample_defs ''f'' @ sample_defs ''g'')"
proof -
  have "sq_insert_symbols (log_surreal (\<lambda>_. [])) b s = (Inr (), s @ [b])" for b s
    by (simp add: log_surreal_def)
  from symbols_written_in_batches [OF this, of id "sample_defs ''f'' @ sample_defs ''g'' @ sample_defs ''f''" "''o/r''"]
  show ?thesis by (auto simp: sample_defs_def symbol_key_def)
qed

section \<open>What the build does not notice\<close>

text \<open>
  The commit check asks for the hash alone: a commit indexed for one repository is taken as
  indexed for every other, and nothing is written for it.
\<close>

lemma commit_of_other_repo_skips_build:
  assumes "sq_commit S h s = (Inr [Some h], s)" and "h \<noteq> []" and "sx_repo ix \<noteq> []"
  shows "build S sha256 True h extract_tags extract_relationships ix None pre_rels False s =
    (Inr (ix\<lparr>sx_built := True\<rparr>), s)"
  using assms by (simp add: build_def is_commit_indexed_def io_simps)

text \<open>A hint that matches no definition of an existing symbol makes the trace fail.\<close>

lemma trace_flow_wrong_hint:
  assumes "find_definitions S ix entry (Some (scope_of ix repo)) s = (Inr ds, s1)" and "ds \<noteq> []"
    and "\<forall>d \<in> set ds. tg_filepath d \<noteq> hint" and "hint \<noteq> []"
  shows "trace_flow S ix entry (Some hint) max_depth repo s = (Inl (Exn IndexError ''list index out of range''), s1)"
proof -
  have "filter (\<lambda>d. Some hint = Some (tg_filepath d)) ds = []" using assms(3) by (auto simp: filter_empty_conv)
  with assms show ?thesis by (simp add: trace_flow_def io_simps is_set_def Let_def)
qed

lemma query_attempts_fail:
  assumes "\<And>s. q s = (Inl e, s)" "\<not> not_retried e" "\<And>d s. sl d s = (Inr (), s)"
  shows "query_attempts sl a m q s = (Inl e, s)"
  using assms by (induction m arbitrary: a s) (simp_all add: io_simps)

lemma upsert_loop_failing:
  assumes "\<And>b s. sq_insert_symbols S b s = (Inl e, s)" "\<not> not_retried e" "\<And>d s. sq_sleep S d s = (Inr (), s)"
  shows "upsert_loop S sha repo seen batch tags s = (Inr (), s)"
proof -
  have "insert_batch S b s = (Inr (), s)" for b s
    using query_attempts_fail [of "sq_insert_symbols S b" e "sq_sleep S", OF assms(1,2,3)]
    by (simp add: insert_batch_def query_with_retry_def io_simps)
  then show ?thesis
    by (induction S sha repo seen batch tags rule: upsert_loop.induct) (simp_all add: Let_def io_simps)
qed

text \<open>A build that could not write a single symbol still records its commit as indexed.\<close>

lemma failed_build_marks_commit:
  assumes "\<And>b s. sq_insert_symbols S b s = (Inl e, s)" and "\<not> not_retried e"
    and "\<And>d s. sq_sleep S d s = (Inr (), s)" and "\<And>t r s. sq_delete_edges S t r s = (Inr (), s)"
    and "\<And>r s. sq_delete_symbols S r s = (Inr (), s)"
    and "sq_set_commit S (commit_record_id (sx_repo ix)) h s = (Inr (), s')"
    and "tags \<noteq> []" and "h \<noteq> []" and "sx_repo ix \<noteq> []"
  shows "build S sha256 True h extract_tags extract_relationships ix (Some tags) (Some []) False s =
    (Inr ((invalidate_caches ix)\<lparr>sx_built := True\<rparr>), s')"
proof -
  have "clear_repo_data S (sx_repo ix) s = (Inr (), s)"
    by (simp add: clear_repo_data_def EDGE_TABLES_def try_delete_def query_with_retry_def query_attempts_ok
        assert_valid_table_def VALID_EDGE_TABLES_def io_simps assms(4,5))
  moreover have "upsert_symbols S sha256 tags (sx_repo ix) s = (Inr (), s)"
    unfolding upsert_symbols_def by (rule upsert_loop_failing [OF assms(1-3)])
  moreover have "mark_commit_indexed S h (sx_repo ix) s = (Inr (), s')"
    using assms(6,8,9) by (simp add: mark_commit_indexed_def query_with_retry_def query_attempts_ok io_simps)
  ultimately show ?thesis
    using assms(7) by (simp add: build_def upsert_relationships_def io_simps)
qed

end
