(* ===== verification/Session_Stream.thy ===== *)
theory Session_Stream
  imports Session_Store Message_Queue
begin

text \<open>
  \<^verbatim>\<open>shared/session_stream.py\<close>: the bridge that publishes the messages of a running agent to
  the browsers and keeps a bounded history of them, and the control channel by which browsers
  send messages back. The agent SDK's message objects are a datatype with the attributes the code
  reads; an attribute is a JSON value or an object known by its \<open>repr\<close>. Time stamps, sleeping,
  the subscription and the flag \<open>_stopped\<close> are parameters.
\<close>

section \<open>The bridge\<close>

definition HISTORY_MAX :: int where "HISTORY_MAX = 2000"
definition HISTORY_TTL_SECONDS :: int where "HISTORY_TTL_SECONDS = 3600"

definition stream_payload :: "string \<Rightarrow> string \<Rightarrow> json dict \<Rightarrow> json" where
  "stream_payload ts msg_type data = JObj [(''type'', JStr msg_type), (''data'', JObj data), (''ts'', JStr ts)]"

definition bridge_publish :: "'s env \<Rightarrow> string \<Rightarrow> string \<Rightarrow> string \<Rightarrow> json dict \<Rightarrow> ('s, unit) io" where
  "bridge_publish E ts token msg_type data =
     (let payload = x_dumps E (stream_payload ts msg_type data) in
      io_try
        (io_then (x_publish E (MSG_CHANNEL token) payload)
        (io_then (x_rpush E (SESSION_HISTORY_KEY token) payload)
        (io_then (x_ltrim E (SESSION_HISTORY_KEY token) (- HISTORY_MAX) (- 1))
        (io_then (x_expire E (SESSION_HISTORY_KEY token) HISTORY_TTL_SECONDS) (io_ret ())))))
        (\<lambda>e. io_ret ()))"

definition publish_init :: "'s env \<Rightarrow> string \<Rightarrow> string \<Rightarrow> string \<Rightarrow> json \<Rightarrow> string \<Rightarrow> ('s, unit) io" where
  "publish_init E ts token repo issue_number workflow =
     bridge_publish E ts token ''session_init''
       [(''repo'', JStr repo), (''issue_number'', issue_number), (''workflow'', JStr workflow)]"

definition publish_user_message :: "'s env \<Rightarrow> string \<Rightarrow> string \<Rightarrow> json \<Rightarrow> ('s, unit) io" where
  "publish_user_message E ts token content = bridge_publish E ts token ''user_message'' [(''content'', content)]"

definition publish_error :: "'s env \<Rightarrow> string \<Rightarrow> string \<Rightarrow> string \<Rightarrow> ('s, unit) io" where
  "publish_error E ts token err = bridge_publish E ts token ''session_error'' [(''error'', JStr err)]"

definition bridge_close :: "'s env \<Rightarrow> string \<Rightarrow> string \<Rightarrow> ('s, unit) io" where
  "bridge_close E ts token = io_try (bridge_publish E ts token ''session_closed'' []) (\<lambda>e. io_ret ())"

subsection \<open>Messages of the agent SDK\<close>

datatype py_attr = Plain json | Object string

datatype content_block = Block "(string \<times> py_attr) list" | Bare string

datatype sdk_message =
    StreamEvent json json
  | AssistantMessage "content_block list"
  | ResultMessage json json json json json
  | OtherMessage string "(string \<times> py_attr) list option"

text \<open>\<open>json.dumps\<close> of a dict that holds an object raises \<open>TypeError\<close>.\<close>

fun plain_attr :: "py_attr \<Rightarrow> json result" where
  "plain_attr (Plain j) = Inr j"
| "plain_attr (Object r) = Inl (Exn TypeError ''Object is not JSON serializable'')"

fun plain_attrs :: "(string \<times> py_attr) list \<Rightarrow> json dict result" where
  "plain_attrs [] = Inr []"
| "plain_attrs ((k, v) # kvs) =
     res_bind (plain_attr v) (\<lambda>j. res_bind (plain_attrs kvs) (\<lambda>d. Inr ((k, j) # d)))"

fun plain_block :: "content_block \<Rightarrow> json result" where
  "plain_block (Block kvs) = res_bind (plain_attrs kvs) (\<lambda>d. Inr (JObj d))"
| "plain_block (Bare s) = Inr (JObj [(''text'', JStr s)])"

fun plain_blocks :: "content_block list \<Rightarrow> json list result" where
  "plain_blocks [] = Inr []"
| "plain_blocks (b # bs) = res_bind (plain_block b) (\<lambda>j. res_bind (plain_blocks bs) (\<lambda>js. Inr (j # js)))"

text \<open>The generic fallback keeps what can be serialised and the \<open>repr\<close> of the rest.\<close>

fun attr_or_repr :: "py_attr \<Rightarrow> json" where
  "attr_or_repr (Plain j) = j"
| "attr_or_repr (Object r) = JStr r"

fun message_event :: "sdk_message \<Rightarrow> (string \<times> json dict) result" where
  "message_event (StreamEvent event session_id) =
     Inr (''stream_event'', [(''event'', event), (''session_id'', session_id)])"
| "message_event (AssistantMessage content) =
     res_bind (plain_blocks content) (\<lambda>js. Inr (''assistant_message'', [(''content'', JArr js)]))"
| "message_event (ResultMessage num_turns duration_ms is_error session_id subtype) =
     Inr (''result'', [(''num_turns'', num_turns), (''duration_ms'', duration_ms), (''is_error'', is_error),
        (''session_id'', session_id), (''subtype'', subtype)])"
| "message_event (OtherMessage type_name attrs) =
     Inr (str_lower type_name,
        (case attrs of None \<Rightarrow> [] | Some kvs \<Rightarrow> map (\<lambda>(k, v). (k, attr_or_repr v)) kvs))"

definition publish_message :: "'s env \<Rightarrow> string \<Rightarrow> string \<Rightarrow> sdk_message \<Rightarrow> ('s, unit) io" where
  "publish_message E ts token m =
     io_try
       (io_bind (io_of_result (message_event m)) (\<lambda>(msg_type, data). bridge_publish E ts token msg_type data))
       (\<lambda>e. io_ret ())"

section \<open>The control channel\<close>

definition inject_entry :: "string \<Rightarrow> json \<Rightarrow> json" where
  "inject_entry ts content = JObj [(''type'', JStr ''user_message''), (''content'', content), (''ts'', JStr ts)]"

text \<open>\<open>interrupt\<close> sets the interrupt event, when there is one.\<close>

definition ctl_dispatch :: "'s env \<Rightarrow> string \<Rightarrow> ('s, unit) io \<Rightarrow> string \<Rightarrow> json \<Rightarrow> ('s, unit) io" where
  "ctl_dispatch E ts interrupt token msg =
     io_bind (io_of_result (jget msg ''type'' JNull)) (\<lambda>msg_type.
       if msg_type = JStr ''inject_message'' then
         io_bind (io_of_result (jget msg ''content'' (JStr []))) (\<lambda>content.
           if \<not> py_truthy content then io_ret ()
           else (case content of
               JStr c \<Rightarrow>
                 if str_strip c = [] then io_ret ()
                 else
                   io_then (x_rpush E (SESSION_INBOX_KEY token) (x_dumps E (inject_entry ts content)))
                   (io_then (x_expire E (SESSION_INBOX_KEY token) DEFAULT_SESSION_TTL_SECONDS) interrupt)
             | _ \<Rightarrow> io_raise (Exn AttributeError ''strip'')))
       else if msg_type = JStr ''stop_agent'' then interrupt
       else io_ret ())"

text \<open>
  The messages of one connection; \<open>True\<close> when the channel was stopped. A message that cannot be
  parsed or dispatched is logged.
\<close>

fun ctl_messages ::
  "'s env \<Rightarrow> string \<Rightarrow> ('s, unit) io \<Rightarrow> ('s, bool) io \<Rightarrow> string \<Rightarrow> channel_message list \<Rightarrow> ('s, bool) io" where
  "ctl_messages E ts interrupt stopped token [] = io_ret False"
| "ctl_messages E ts interrupt stopped token (raw # raws) =
     io_bind stopped (\<lambda>b.
       if b then io_ret True
       else if cm_type raw \<noteq> ''message'' then ctl_messages E ts interrupt stopped token raws
       else
         io_then
           (io_try
             (case x_loads E (cm_data raw) of
                None \<Rightarrow> io_raise (Exn JSONDecodeError (cm_data raw))
              | Some msg \<Rightarrow> ctl_dispatch E ts interrupt token msg)
             (\<lambda>e. io_ret ()))
           (ctl_messages E ts interrupt stopped token raws))"

datatype ctl_outcome = Stopped | Closed

definition CTL_MAX_RETRIES :: nat where "CTL_MAX_RETRIES = 5"

definition CTL_BACKOFF :: "real list" where "CTL_BACKOFF = [1, 2, 4, 8, 16]"

text \<open>
  \<open>subscribe\<close> opens the subscription and gives the messages that arrive on it and, when the
  connection is lost rather than closed, the exception. A lost connection and a closed one are
  treated alike. \<open>attempts\<close> are the ones left.
\<close>

fun ctl_listen_loop ::
  "'s env \<Rightarrow> string \<Rightarrow> ('s, unit) io \<Rightarrow> ('s, bool) io \<Rightarrow> (real \<Rightarrow> ('s, unit) io) \<Rightarrow>
   (string \<Rightarrow> ('s, channel_message list \<times> exn option) io) \<Rightarrow> string \<Rightarrow> nat list \<Rightarrow> ('s, unit) io" where
  "ctl_listen_loop E ts interrupt stopped sleep subscribe token [] = io_ret ()"
| "ctl_listen_loop E ts interrupt stopped sleep subscribe token (attempt # rest) =
     io_bind
       (io_try
         (io_bind (subscribe (CTL_CHANNEL token)) (\<lambda>(raws, lost).
          io_bind (ctl_messages E ts interrupt stopped token raws) (\<lambda>b.
            if b then io_ret Stopped
            else (case lost of Some e \<Rightarrow> io_raise e | None \<Rightarrow> io_ret Closed))))
         (\<lambda>e. io_ret Closed))
       (\<lambda>outcome.
         if outcome = Stopped then io_ret ()
         else io_bind stopped (\<lambda>b.
           if b \<or> attempt \<ge> CTL_MAX_RETRIES then io_ret ()
           else io_then (sleep (CTL_BACKOFF ! attempt))
             (ctl_listen_loop E ts interrupt stopped sleep subscribe token rest)))"

definition ctl_listen ::
  "'s env \<Rightarrow> string \<Rightarrow> ('s, unit) io \<Rightarrow> ('s, bool) io \<Rightarrow> (real \<Rightarrow> ('s, unit) io) \<Rightarrow>
   (string \<Rightarrow> ('s, channel_message list \<times> exn option) io) \<Rightarrow> string \<Rightarrow> ('s, unit) io" where
  "ctl_listen E ts interrupt stopped sleep subscribe token =
     ctl_listen_loop E ts interrupt stopped sleep subscribe token [0..<CTL_MAX_RETRIES + 1]"

section \<open>The history a browser loads\<close>

text \<open>An event is its time stamp, type and data.\<close>

definition publish_events :: "'s env \<Rightarrow> string \<Rightarrow> (string \<times> string \<times> json dict) list \<Rightarrow> ('s, unit) io" where
  "publish_events E token = io_fold (\<lambda>u (ts, msg_type, data). bridge_publish E ts token msg_type data) ()"

definition event_payload :: "string \<times> string \<times> json dict \<Rightarrow> json" where
  "event_payload ev = (case ev of (ts, msg_type, data) \<Rightarrow> stream_payload ts msg_type data)"

definition latest :: "nat \<Rightarrow> 'a list \<Rightarrow> 'a list" where
  "latest n xs = drop (length xs - n) xs"

lemma list_range_latest: "0 < n \<Longrightarrow> list_range (- int n) (- 1) xs = latest n xs"
  by (auto simp: list_range_def Let_def latest_def max_def nat_diff_distrib')

lemma latest_snoc: "latest n (latest n xs @ [x]) = latest n (xs @ [x])"
  by (cases "n \<le> length xs") (auto simp: latest_def Suc_diff_le)

lemma latest_map: "latest n (map f xs) = map f (latest n xs)"
  by (simp add: latest_def drop_map)

context redis_server
begin

lemma sim_prod [sim_intros]:
  "(\<And>a b. sim view healthy (f a b) (g a b)) \<Longrightarrow>
   sim view healthy (case p of (a, b) \<Rightarrow> f a b) (case p of (a, b) \<Rightarrow> g a b)"
  by (cases p) simp

lemma bridge_publish_sim [sim_intros]:
  "sim view healthy (bridge_publish E ts token ty d) (bridge_publish (model_env E ord) ts token ty d)"
  unfolding bridge_publish_def model_env_codec Let_def by (intro sim_intros)

lemma publish_events_sim [sim_intros]:
  "sim view healthy (publish_events E token evs) (publish_events (model_env E ord) token evs)"
  unfolding publish_events_def by (intro sim_intros)

lemma get_history_sim [sim_intros]: "sim view healthy (get_history E token) (get_history (model_env E ord) token)"
  unfolding get_history_def model_env_codec by (intro sim_intros)

lemma bridge_publish_spec:
  assumes "as_list (rlook st (SESSION_HISTORY_KEY token)) = Some xs"
  shows "\<exists>st'. bridge_publish (model_env E ord) ts token ty d st = (Inr (), st') \<and>
     as_list (rlook st' (SESSION_HISTORY_KEY token)) = Some (latest 2000 (xs @ [x_dumps E (stream_payload ts ty d)]))"
  using assms list_range_latest [of 2000 "xs @ [x_dumps E (stream_payload ts ty d)]"]
  by (auto simp: bridge_publish_def model_env_def session_run HISTORY_MAX_def HISTORY_TTL_SECONDS_def Let_def latest_def)

lemma publish_events_spec:
  "as_list (rlook st (SESSION_HISTORY_KEY token)) = Some (latest 2000 xs) \<Longrightarrow>
   \<exists>st'. publish_events (model_env E ord) token evs st = (Inr (), st') \<and>
     as_list (rlook st' (SESSION_HISTORY_KEY token)) = Some (latest 2000 (xs @ map (x_dumps E \<circ> event_payload) evs))"
proof (induction evs arbitrary: st xs)
  case Nil
  then show ?case by (simp add: publish_events_def io_simps)
next
  case (Cons ev evs)
  obtain ts ty d where ev: "ev = (ts, ty, d)" by (cases ev)
  obtain st1 where st1: "bridge_publish (model_env E ord) ts token ty d st = (Inr (), st1)"
    "as_list (rlook st1 (SESSION_HISTORY_KEY token)) = Some (latest 2000 (xs @ [x_dumps E (stream_payload ts ty d)]))"
    using bridge_publish_spec [OF Cons.prems, of ts ty d] by (auto simp: latest_snoc)
  from Cons.IH [OF st1(2)] st1(1) show ?case
    by (simp add: publish_events_def io_simps ev event_payload_def)
qed

lemma history_of_payloads:
  "list_all (json_ok \<circ> event_payload) evs \<Longrightarrow>
   List.map_filter (x_loads E) (map (x_dumps E \<circ> event_payload) evs) = map event_payload evs"
  by (induction evs) (simp_all add: loads_dumps)

end

context redis_server
begin

lemma published_history:
  assumes "healthy s" "rlook (view s) (SESSION_HISTORY_KEY token) = None" "list_all (json_ok \<circ> event_payload) evs"
  shows "\<exists>s'. io_then (publish_events E token evs) (get_history E token) s =
    (Inr (map event_payload (latest 2000 evs)), s')"
proof -
  have "as_list (rlook (view s) (SESSION_HISTORY_KEY token)) = Some (latest 2000 [])"
    using assms(2) by (simp add: latest_def)
  from publish_events_spec [OF this, of evs] obtain st' where st':
    "publish_events (model_env E ord) token evs (view s) = (Inr (), st')"
    "as_list (rlook st' (SESSION_HISTORY_KEY token)) = Some (map (x_dumps E \<circ> event_payload) (latest 2000 evs))"
    by (auto simp: latest_map)
  have "list_all (json_ok \<circ> event_payload) (latest 2000 evs)"
    using assms(3) by (auto simp: list_all_iff latest_def dest: in_set_dropD)
  with st' have "io_then (publish_events (model_env E ord) token evs) (get_history (model_env E ord) token) (view s) =
    (Inr (map event_payload (latest 2000 evs)), st')"
    by (simp add: get_history_def io_simps)
      (simp add: model_env_def session_run list_range_def history_of_payloads)
  moreover have "sim view healthy (io_then (publish_events E token evs) (get_history E token))
      (io_then (publish_events (model_env E ord) token evs) (get_history (model_env E ord) token))"
    by (intro sim_intros)
  ultimately show ?thesis using sim_run assms(1) by blast
qed

end

text \<open>
  A browser that loads the history of a session sees the events published by the agent,
  complete and in order, up to the latest 2000.
\<close>

theorem history_keeps_latest:
  assumes "redis_server E view healthy ord" "healthy s" "rlook (view s) (SESSION_HISTORY_KEY token) = None"
    and "list_all (json_ok \<circ> event_payload) evs"
  shows "\<exists>s'. io_then (publish_events E token evs) (get_history E token) s =
    (Inr (map event_payload (drop (length evs - 2000) evs)), s')"
  using redis_server.published_history [OF assms] by (simp add: latest_def)

theorem history_keeps_latest_witness:
  "\<exists>s'. io_then (publish_events flaky_env ''tok'' [(''t0'', ''a'', []), (''t1'', ''b'', [(''x'', JInt 1)])])
      (get_history flaky_env ''tok'') sample_world =
    (Inr [stream_payload ''t0'' ''a'' [], stream_payload ''t1'' ''b'' [(''x'', JInt 1)]], s')"
  using history_keeps_latest [OF flaky.redis_server_axioms, of sample_world "''tok''"
      "[(''t0'', ''a'', []), (''t1'', ''b'', [(''x'', JInt 1)])]"]
  by (simp add: event_payload_def stream_payload_def)

section \<open>Messages from a browser\<close>

definition inject_message :: "string \<Rightarrow> json" where
  "inject_message content = JObj [(''type'', JStr ''inject_message''), (''content'', JStr content)]"

definition ctl_raw :: "'s env \<Rightarrow> string \<Rightarrow> channel_message" where
  "ctl_raw E content = \<lparr>cm_type = ''message'', cm_data = x_dumps E (inject_message content)\<rparr>"

context redis_server
begin

lemma ctl_dispatch_sim [sim_intros]:
  assumes "sim view healthy i i'"
  shows "sim view healthy (ctl_dispatch E ts i token msg) (ctl_dispatch (model_env E ord) ts i' token msg)"
  unfolding ctl_dispatch_def model_env_codec
  by (intro sim_intros assms; (simp split: json.split)?; (intro conjI allI impI)?; (intro sim_intros assms)?)

lemma ctl_messages_sim [sim_intros]:
  assumes "sim view healthy i i'" "sim view healthy stopped stopped'"
  shows "sim view healthy (ctl_messages E ts i stopped token raws) (ctl_messages (model_env E ord) ts i' stopped' token raws)"
  by (induction raws) (auto intro!: sim_intros sim_result assms)

lemma ctl_inject_spec:
  assumes "as_list (rlook st (SESSION_INBOX_KEY token)) = Some xs" "str_strip c \<noteq> []"
  shows "\<exists>st'. ctl_dispatch (model_env E ord) ts (io_ret ()) token (inject_message c) st = (Inr (), st') \<and>
    as_list (rlook st' (SESSION_INBOX_KEY token)) = Some (xs @ [x_dumps E (inject_entry ts (JStr c))])"
proof -
  from assms(2) have "c \<noteq> []" by (auto simp: str_strip_def str_lstrip_def str_rstrip_def)
  with assms show ?thesis
    by (simp add: ctl_dispatch_def inject_message_def model_env_def session_run DEFAULT_SESSION_TTL_SECONDS_def)
qed

lemma ctl_messages_spec:
  "as_list (rlook st (SESSION_INBOX_KEY token)) = Some xs \<Longrightarrow> list_all (\<lambda>c. str_strip c \<noteq> []) cs \<Longrightarrow>
   \<exists>st'. ctl_messages (model_env E ord) ts (io_ret ()) (io_ret False) token (map (ctl_raw E) cs) st = (Inr False, st') \<and>
     as_list (rlook st' (SESSION_INBOX_KEY token)) = Some (xs @ map (\<lambda>c. x_dumps E (inject_entry ts (JStr c))) cs)"
proof (induction cs arbitrary: st xs)
  case Nil
  then show ?case by (simp add: io_simps)
next
  case (Cons c cs)
  then obtain st1 where st1: "ctl_dispatch (model_env E ord) ts (io_ret ()) token (inject_message c) st = (Inr (), st1)"
    "as_list (rlook st1 (SESSION_INBOX_KEY token)) = Some (xs @ [x_dumps E (inject_entry ts (JStr c))])"
    using ctl_inject_spec [OF Cons.prems(1), of c ts] by auto
  have "x_loads E (x_dumps E (inject_message c)) = Some (inject_message c)"
    by (rule loads_dumps) (simp add: inject_message_def)
  with st1 Cons.IH [OF st1(2)] Cons.prems(2) show ?case
    by (simp add: io_bind_run io_then_run io_try_run io_ret_run [of False st] ctl_raw_def)
qed

lemma injected_content:
  assumes "str_strip c \<noteq> []"
  shows "inbox_content E (x_dumps E (inject_entry ts (JStr c))) = Some (JStr c)"
proof -
  from assms have "c \<noteq> []" by (auto simp: str_strip_def str_lstrip_def str_rstrip_def)
  then show ?thesis
    using loads_dumps [of "inject_entry ts (JStr c)"] by (simp add: inbox_content_def inject_entry_def)
qed

lemma injected_contents:
  "list_all (\<lambda>c. str_strip c \<noteq> []) cs \<Longrightarrow>
   List.map_filter (inbox_content E) (map (\<lambda>c. x_dumps E (inject_entry ts (JStr c))) cs) = map JStr cs"
  by (induction cs) (simp_all add: injected_content)

lemma inject_pop:
  assumes "healthy s" "rlook (view s) (SESSION_INBOX_KEY token) = None" "list_all (\<lambda>c. str_strip c \<noteq> []) cs"
  shows "\<exists>s'. io_then (ctl_messages E ts (io_ret ()) (io_ret False) token (map (ctl_raw E) cs))
      (pop_inbox_messages E token) s = (Inr (map JStr cs), s')"
proof -
  obtain st' where st': "ctl_messages (model_env E ord) ts (io_ret ()) (io_ret False) token (map (ctl_raw E) cs) (view s) =
      (Inr False, st')"
    "as_list (rlook st' (SESSION_INBOX_KEY token)) = Some (map (\<lambda>c. x_dumps E (inject_entry ts (JStr c))) cs)"
    using ctl_messages_spec [of "view s" token "[]" cs ts] assms(2,3) by auto
  have "io_then (ctl_messages (model_env E ord) ts (io_ret ()) (io_ret False) token (map (ctl_raw E) cs))
      (pop_inbox_messages (model_env E ord) token) (view s) = (Inr (map JStr cs), rdrop (SESSION_INBOX_KEY token) st')"
    using st' by (simp add: pop_inbox_messages_def io_simps)
      (simp add: model_env_def session_run list_range_def injected_contents assms(3))
  moreover have "sim view healthy
      (io_then (ctl_messages E ts (io_ret ()) (io_ret False) token (map (ctl_raw E) cs)) (pop_inbox_messages E token))
      (io_then (ctl_messages (model_env E ord) ts (io_ret ()) (io_ret False) token (map (ctl_raw E) cs))
        (pop_inbox_messages (model_env E ord) token))"
    by (intro sim_intros)
  ultimately show ?thesis using sim_run assms(1) by blast
qed

end

text \<open>
  C33: what browsers inject through the control channel reaches the agent: the messages of a
  connection, none of them blank, come out of the inbox complete and in order.
\<close>

theorem injected_messages_reach_agent:
  assumes "redis_server E view healthy ord" "healthy s" "rlook (view s) (SESSION_INBOX_KEY token) = None"
    and "list_all (\<lambda>c. str_strip c \<noteq> []) cs"
  shows "\<exists>s'. io_then (ctl_messages E ts (io_ret ()) (io_ret False) token (map (ctl_raw E) cs))
      (pop_inbox_messages E token) s = (Inr (map JStr cs), s')"
  by (rule redis_server.inject_pop [OF assms])

theorem injected_messages_reach_agent_witness:
  "\<exists>s'. io_then (ctl_messages flaky_env ''t'' (io_ret ()) (io_ret False) ''tok'' (map (ctl_raw flaky_env) [''hi'', ''stop it'']))
      (pop_inbox_messages flaky_env ''tok'') sample_world = (Inr [JStr ''hi'', JStr ''stop it''], s')"
  using injected_messages_reach_agent [OF flaky.redis_server_axioms, of sample_world "''tok''" "[''hi'', ''stop it'']" "''t''"]
  by (simp add: str_strip_def str_lstrip_def str_rstrip_def is_space_def)

text \<open>
  When every connection is refused, lost or closed and nobody stops the channel, the listener
  opens six connections, waits 1, 2, 4, 8 and 16 seconds in between and then ends. The world is
  the number of connections and the waiting times.
\<close>

lemma control_channel_gives_up:
  assumes "\<And>n. outcome n = Inl e \<or> (\<exists>lost. outcome n = Inr ([], lost))"
  shows "ctl_listen E ts i (io_ret False) (\<lambda>d w. (Inr (), (fst w, snd w @ [d])))
      (\<lambda>channel w. (outcome (fst w), (Suc (fst w), snd w))) token (0, []) =
    (Inr (), (6, [1, 2, 4, 8, 16]))"
proof -
  have step: "ctl_listen_loop E ts i (io_ret False) (\<lambda>d w. (Inr (), (fst w, snd w @ [d])))
      (\<lambda>channel w. (outcome (fst w), (Suc (fst w), snd w))) token (k # ks) (n, ds) =
    (if k \<ge> 5 then (Inr (), (Suc n, ds))
     else ctl_listen_loop E ts i (io_ret False) (\<lambda>d w. (Inr (), (fst w, snd w @ [d])))
      (\<lambda>channel w. (outcome (fst w), (Suc (fst w), snd w))) token ks (Suc n, ds @ [CTL_BACKOFF ! k]))" for k ks n ds
    using assms [of n]
    by (auto simp: io_bind_run io_then_run io_try_run io_ret_def io_raise_def CTL_MAX_RETRIES_def split: option.split)
  have "[0..<CTL_MAX_RETRIES + 1] = [0, 1, 2, 3, 4, 5]"
    by (simp add: CTL_MAX_RETRIES_def upt_rec)
  then show ?thesis
    by (simp add: ctl_listen_def step CTL_BACKOFF_def del: ctl_listen_loop.simps)
qed

end
