(* ===== verification/Redis_Frame.thy ===== *)
theory Redis_Frame
  imports Redis_Env
begin

text \<open>
  Which keys a program over a Redis client may touch. \<open>keeps\<close> says that from a healthy world a
  computation leaves the world healthy, the clock and the keys of a set alone; there is one rule
  per command and per control construct, so that a program's frame follows from its text.
\<close>

named_theorems frame_intros

definition keeps :: "('s \<Rightarrow> rstate) \<Rightarrow> ('s \<Rightarrow> bool) \<Rightarrow> string set \<Rightarrow> ('s, 'a) io \<Rightarrow> bool" where
  "keeps view ok K m \<longleftrightarrow> (\<forall>s. ok s \<longrightarrow> ok (snd (m s)) \<and> rnow (view (snd (m s))) = rnow (view s) \<and>
     (\<forall>k \<in> K. rdb (view (snd (m s))) k = rdb (view s) k))"

text \<open>A call that has nothing to do with Redis.\<close>

definition silent :: "('s \<Rightarrow> rstate) \<Rightarrow> ('s \<Rightarrow> bool) \<Rightarrow> ('s, 'a) io \<Rightarrow> bool" where
  "silent view ok m \<longleftrightarrow> (\<forall>s. ok s \<longrightarrow> ok (snd (m s)) \<and> view (snd (m s)) = view s)"

lemma keepsD:
  assumes "keeps view ok K m" "ok s" "m s = (r, s')"
  shows "ok s'" and "rnow (view s') = rnow (view s)" and "k \<in> K \<Longrightarrow> rdb (view s') k = rdb (view s) k"
  using assms by (auto simp: keeps_def dest!: spec [of _ s])

lemma keeps_silent: "silent view ok m \<Longrightarrow> keeps view ok K m"
  by (auto simp: silent_def keeps_def)

lemma keeps_ret [frame_intros]: "keeps view ok K (io_ret x)"
  by (simp add: keeps_def io_simps)

lemma keeps_raise [frame_intros]: "keeps view ok K (io_raise e)"
  by (simp add: keeps_def io_simps)

lemma keeps_of_result [frame_intros]: "keeps view ok K (io_of_result r)"
  by (simp add: keeps_def io_simps)

lemma keeps_bind_result:
  assumes "keeps view ok K m" "\<And>x s s'. m s = (Inr x, s') \<Longrightarrow> keeps view ok K (f x)"
  shows "keeps view ok K (io_bind m f)"
  unfolding keeps_def
proof (intro allI impI)
  fix s
  assume s: "ok s"
  obtain r s1 where m: "m s = (r, s1)" by (cases "m s")
  note 1 = keepsD [OF assms(1) s m]
  show "ok (snd (io_bind m f s)) \<and> rnow (view (snd (io_bind m f s))) = rnow (view s) \<and>
      (\<forall>k \<in> K. rdb (view (snd (io_bind m f s))) k = rdb (view s) k)"
  proof (cases r)
    case (Inl e)
    with m 1 show ?thesis by (simp add: io_simps)
  next
    case (Inr x)
    obtain r2 s2 where f: "f x s1 = (r2, s2)" by (cases "f x s1")
    note 2 = keepsD [OF assms(2) [OF m [unfolded Inr]] 1(1) f]
    from Inr m f 1 2 show ?thesis by (simp add: io_simps)
  qed
qed

lemma keeps_bind [frame_intros]:
  "keeps view ok K m \<Longrightarrow> (\<And>x. keeps view ok K (f x)) \<Longrightarrow> keeps view ok K (io_bind m f)"
  by (rule keeps_bind_result)

lemma keeps_then [frame_intros]:
  "keeps view ok K m \<Longrightarrow> keeps view ok K n \<Longrightarrow> keeps view ok K (io_then m n)"
  unfolding io_then_def by (rule keeps_bind)

lemma keeps_try [frame_intros]:
  assumes "keeps view ok K m" "\<And>e. keeps view ok K (h e)"
  shows "keeps view ok K (io_try m h)"
  unfolding keeps_def
proof (intro allI impI)
  fix s
  assume s: "ok s"
  obtain r s1 where m: "m s = (r, s1)" by (cases "m s")
  note 1 = keepsD [OF assms(1) s m]
  show "ok (snd (io_try m h s)) \<and> rnow (view (snd (io_try m h s))) = rnow (view s) \<and>
      (\<forall>k \<in> K. rdb (view (snd (io_try m h s))) k = rdb (view s) k)"
  proof (cases r)
    case (Inr x)
    with m 1 show ?thesis by (simp add: io_simps)
  next
    case (Inl e)
    obtain r2 s2 where h: "h e s1 = (r2, s2)" by (cases "h e s1")
    note 2 = keepsD [OF assms(2) 1(1) h]
    from Inl m h 1 2 show ?thesis by (simp add: io_simps)
  qed
qed

lemma keeps_if [frame_intros]:
  "(b \<Longrightarrow> keeps view ok K m) \<Longrightarrow> (\<not> b \<Longrightarrow> keeps view ok K n) \<Longrightarrow> keeps view ok K (if b then m else n)"
  by simp

lemma keeps_when [frame_intros]: "keeps view ok K m \<Longrightarrow> keeps view ok K (io_when b m)"
  by (simp add: io_when_def keeps_ret)

lemma keeps_option [frame_intros]:
  "keeps view ok K m \<Longrightarrow> (\<And>x. r = Some x \<Longrightarrow> keeps view ok K (f x)) \<Longrightarrow>
   keeps view ok K (case r of None \<Rightarrow> m | Some x \<Rightarrow> f x)"
  by (cases r) simp_all

lemma keeps_prod [frame_intros]:
  "(\<And>a b. keeps view ok K (f a b)) \<Longrightarrow> keeps view ok K (case p of (a, b) \<Rightarrow> f a b)"
  by (cases p) simp

lemma keeps_fold [frame_intros]:
  assumes "\<And>acc x. keeps view ok K (f acc x)"
  shows "keeps view ok K (io_fold f acc xs)"
  by (induction xs arbitrary: acc) (simp_all add: keeps_ret keeps_bind assms)

lemma keeps_mono: "keeps view ok K m \<Longrightarrow> L \<subseteq> K \<Longrightarrow> keeps view ok L m"
  by (auto simp: keeps_def)

text \<open>The frame of a program over a client follows from the documented command it simulates.\<close>

lemma keeps_sim:
  assumes "sim view ok m n" "\<And>st. rnow (snd (n st)) = rnow st \<and> (\<forall>k \<in> K. rdb (snd (n st)) k = rdb st k)"
  shows "keeps view ok K m"
  using assms unfolding keeps_def sim_def by (metis snd_conv)

lemma rdb_writes:
  "rdb (rput k v d st) k' = (if k' = k then Some (v, d) else rdb st k')"
  "rdb (rdrop k st) k' = (if k' = k then None else rdb st k')"
  "rdb (rstore k v st) k' = (if k' = k then Some (v, rdeadline st k) else rdb st k')"
  by (simp_all add: rput_def rdrop_def rstore_def)

context redis_server
begin

lemma keeps_reads [frame_intros]:
  "keeps view healthy K (x_connect E url)" "keeps view healthy K (x_get E k)" "keeps view healthy K (x_exists E k)"
  "keeps view healthy K (x_ttl E k)" "keeps view healthy K (x_llen E k)" "keeps view healthy K (x_lrange E k a b)"
  "keeps view healthy K (x_smembers E k)" "keeps view healthy K (x_scard E k)" "keeps view healthy K (x_hget E k f)"
  "keeps view healthy K (x_hgetall E k)" "keeps view healthy K (x_zcard E k)" "keeps view healthy K (x_zfirst E k)"
  "keeps view healthy K (x_publish E c m)"
  by ((rule keeps_sim, rule command_laws, simp add: model_env_def redis_simps redis_commands io_simps split: option.split); fail)+

lemma keeps_writes [frame_intros]:
  assumes "k \<notin> K"
  shows "keeps view healthy K (x_setex E k t v)" "keeps view healthy K (x_set_nx_ex E k v t)"
    "keeps view healthy K (x_del E k)" "keeps view healthy K (x_expire E k t)" "keeps view healthy K (x_rpush E k v)"
    "keeps view healthy K (x_blpop E k t)" "keeps view healthy K (x_lpop E k)" "keeps view healthy K (x_ltrim E k a b)"
    "keeps view healthy K (x_sadd E k v)" "keeps view healthy K (x_srem E k v)" "keeps view healthy K (x_hset E k f v)"
    "keeps view healthy K (x_hsetnx E k f v)" "keeps view healthy K (x_hincrby E k f i)" "keeps view healthy K (x_incrby E k i)"
  by ((rule keeps_sim, rule command_laws, insert assms, auto simp: model_env_def redis_simps redis_commands rdb_writes Let_def
        split: option.split list.split); fail)+

end

end
