(* ===== verification/Worktree_Cleanup.thy ===== *)
theory Worktree_Cleanup
  imports Session_Store Job_Queue Webhook Message_Queue Redis_Frame
begin

text \<open>
  \<^verbatim>\<open>shared/worktree_manager.py\<close> (where a conversation's working tree lives, how it is created
  and removed), \<^verbatim>\<open>shared/git_utils.py\<close>, and the maintenance part of
  \<^verbatim>\<open>services/sandbox_executor/sandbox_worker.py\<close>: cleanup requests, orphaned worktrees and the
  main loop. The file system and subprocesses are the parameter \<open>'s host\<close>; paths are strings.
\<close>

section \<open>Git commands\<close>

record 's host =
  ho_home :: string
  ho_exists :: "string \<Rightarrow> ('s, bool) io"
  ho_is_dir :: "string \<Rightarrow> ('s, bool) io"
  ho_is_file :: "string \<Rightarrow> ('s, bool) io"
  ho_iterdir :: "string \<Rightarrow> ('s, string list) io"
  ho_read_text :: "string \<Rightarrow> ('s, string) io"
  ho_mkdir :: "string \<Rightarrow> ('s, unit) io"
  ho_rmtree :: "string \<Rightarrow> ('s, unit) io"
  ho_rmdir :: "string \<Rightarrow> ('s, unit) io"
  ho_exec :: "string list \<Rightarrow> ('s, int option \<times> string \<times> string) io"

definition execute_git_command :: "'s host \<Rightarrow> string list \<Rightarrow> ('s, int \<times> string \<times> string) io" where
  "execute_git_command H cmd =
     (if cmd = [] \<or> hd cmd \<noteq> ''git'' then io_raise (Exn ValueError ''Command must start with git'')
      else io_bind (ho_exec H cmd) (\<lambda>(returncode, out, err). case returncode of
          None \<Rightarrow> io_raise (Exn RuntimeError ''Git command failed to start'')
        | Some code \<Rightarrow> io_ret (code, str_strip out, str_strip err)))"

text \<open>\<open>try: await execute_git_command(...) except: log\<close>\<close>

definition try_git :: "'s host \<Rightarrow> string list \<Rightarrow> ('s, unit) io" where
  "try_git H cmd = io_try (io_then (execute_git_command H cmd) (io_ret ())) (\<lambda>e. io_ret ())"

section \<open>Worktrees\<close>

definition worktree_base :: "string \<Rightarrow> string" where
  "worktree_base home = home @ ''/.claude/worktrees''"

definition thread_dir :: "string \<Rightarrow> string \<Rightarrow> string \<Rightarrow> string \<Rightarrow> string" where
  "thread_dir home repo thread_type thread_id =
     worktree_base home @ ''/'' @ sanitize_repo_key repo @ ''/'' @ thread_type @ ''-'' @ thread_id"

definition get_worktree_path :: "string \<Rightarrow> string \<Rightarrow> string \<Rightarrow> string \<Rightarrow> string \<Rightarrow> string" where
  "get_worktree_path home repo thread_type thread_id workflow = thread_dir home repo thread_type thread_id @ ''/'' @ workflow"

definition worktree_remove :: "string \<Rightarrow> string \<Rightarrow> string list" where
  "worktree_remove bare_repo path = [''git'', ''--git-dir='' @ bare_repo, ''worktree'', ''remove'', ''--force'', path]"

definition worktree_add :: "string \<Rightarrow> string \<Rightarrow> string \<Rightarrow> string list" where
  "worktree_add bare_repo path ref = [''git'', ''--git-dir='' @ bare_repo, ''worktree'', ''add'', ''--detach'', path, ref]"

definition resolve_worktree_ref :: "string \<Rightarrow> string" where
  "resolve_worktree_ref ref =
     (if str_startswith ref ''refs/pull/'' \<or> str_startswith ref ''refs/tags/'' then ref
      else ''refs/remotes/origin/'' @
        (if str_startswith ref ''refs/heads/'' then str_replace ''refs/heads/'' [] ref else str_replace ''refs/'' [] ref))"

definition detect_default_branch :: "'s host \<Rightarrow> string \<Rightarrow> ('s, string) io" where
  "detect_default_branch H bare_repo =
     io_bind (execute_git_command H [''git'', ''--git-dir='' @ bare_repo, ''branch'', ''--list'', ''-r'']) (\<lambda>(code, out, err).
       let branches = map str_strip (filter (\<lambda>b. str_strip b \<noteq> [] \<and> str_contains ''origin/'' b) (str_split CHR 0x0A out)) in
       io_ret (if code = 0 \<and> out \<noteq> [] \<and> branches \<noteq> []
               then ''refs/remotes/origin/'' @ str_replace ''origin/'' [] (hd branches)
               else ''refs/remotes/origin/main''))"

definition fetch_and_checkout :: "'s host \<Rightarrow> string \<Rightarrow> ('s, unit) io" where
  "fetch_and_checkout H path =
     io_then (execute_git_command H [''git'', ''-C'', path, ''fetch'', ''origin''])
     (io_bind (execute_git_command H [''git'', ''-C'', path, ''checkout'', ''FETCH_HEAD'']) (\<lambda>(code, out, err).
        if code \<noteq> 0
        then io_then (execute_git_command H [''git'', ''-C'', path, ''merge'', ''FETCH_HEAD'']) (io_ret ())
        else io_ret ()))"

text \<open>\<open>path.parent\<close>\<close>

definition parent_dir :: "string \<Rightarrow> string" where
  "parent_dir path = rev (drop 1 (dropWhile (\<lambda>c. c \<noteq> CHR ''/'') (rev path)))"

definition create_worktree :: "'s host \<Rightarrow> string \<Rightarrow> string \<Rightarrow> string \<Rightarrow> ('s, unit) io" where
  "create_worktree H bare_repo ref path =
     io_bind (execute_git_command H (worktree_add bare_repo path (resolve_worktree_ref ref))) (\<lambda>(code, out, err).
       if code = 0 then io_ret ()
       else
         io_bind (detect_default_branch H bare_repo) (\<lambda>default_branch.
         io_bind (execute_git_command H (worktree_add bare_repo path default_branch)) (\<lambda>(code, out, err).
           if code \<noteq> 0 then io_raise (Exn RuntimeError (''Failed to create worktree at '' @ path @ '': '' @ err))
           else io_ret ())))"

definition reuse_or_create_worktree :: "'s host \<Rightarrow> string \<Rightarrow> string \<Rightarrow> string \<Rightarrow> string \<Rightarrow> ('s, unit) io" where
  "reuse_or_create_worktree H bare_repo ref path session_mode =
     io_bind (ho_exists H path) (\<lambda>present.
       if present \<and> session_mode \<in> set [''resume'', ''continue''] then fetch_and_checkout H path
       else
         io_then
           (if present then io_then (try_git H (worktree_remove bare_repo path)) (ho_rmtree H path) else io_ret ())
         (io_then (try_git H [''git'', ''--git-dir='' @ bare_repo, ''worktree'', ''prune''])
         (io_then (ho_mkdir H (parent_dir path)) (create_worktree H bare_repo ref path))))"

definition project_dir :: "string \<Rightarrow> string \<Rightarrow> string" where
  "project_dir home path =
     home @ ''/.claude/projects/'' @ str_replace_char CHR 0x5C ''--'' (str_replace_char CHR ''/'' ''--'' path)"

text \<open>The position of \<open>/worktrees/\<close> in the path of a \<open>.git\<close> file, as the text before it.\<close>

fun before_first :: "string \<Rightarrow> string \<Rightarrow> string option" where
  "before_first pat [] = (if pat = [] then Some [] else None)"
| "before_first pat (c # cs) =
     (if str_startswith (c # cs) pat then Some [] else map_option ((#) c) (before_first pat cs))"

definition bare_repo_of_gitfile :: "string \<Rightarrow> string option" where
  "bare_repo_of_gitfile content =
     (let t = str_strip content in
      if str_startswith t ''gitdir: '' then before_first ''/worktrees/'' (drop 8 t) else None)"

definition deregister_worktree :: "'s host \<Rightarrow> string option \<Rightarrow> string \<Rightarrow> ('s, unit) io" where
  "deregister_worktree H bare_repo path =
     io_bind
       (case bare_repo of
          Some b \<Rightarrow> io_ret (Some b)
        | None \<Rightarrow>
            io_bind (ho_is_file H (path @ ''/.git'')) (\<lambda>b.
              if b then io_try (io_bind (ho_read_text H (path @ ''/.git'')) (\<lambda>content. io_ret (bare_repo_of_gitfile content)))
                     (\<lambda>e. io_ret None)
              else io_ret None))
       (\<lambda>bare. if opt_default [] bare \<noteq> [] then try_git H (worktree_remove (opt_default [] bare) path) else io_ret ())"

definition remove_worktree :: "'s host \<Rightarrow> string option \<Rightarrow> string \<Rightarrow> ('s, unit) io" where
  "remove_worktree H bare_repo path =
     io_then (deregister_worktree H bare_repo path)
     (io_then (ho_rmtree H path)
     (io_bind (ho_exists H (project_dir (ho_home H) path)) (\<lambda>b.
        if b then ho_rmtree H (project_dir (ho_home H) path) else io_ret ())))"

definition cleanup_worktrees :: "'s host \<Rightarrow> string \<Rightarrow> string \<Rightarrow> string \<Rightarrow> string option \<Rightarrow> ('s, unit) io" where
  "cleanup_worktrees H repo thread_type thread_id bare_repo =
     (let dir = thread_dir (ho_home H) repo thread_type thread_id in
      io_bind (ho_exists H dir) (\<lambda>b.
        if \<not> b then io_ret ()
        else
          io_bind (ho_iterdir H dir) (\<lambda>workflow_dirs.
          io_then (io_fold (\<lambda>_ d. io_bind (ho_is_dir H d) (\<lambda>b.
               if b then io_try (remove_worktree H bare_repo d) (\<lambda>e. io_ret ()) else io_ret ())) () workflow_dirs)
            (io_try (ho_rmdir H dir) (\<lambda>e. if exc_isinstance e OSError then io_ret () else io_raise e)))))"

definition remove_if_on_branch :: "'s host \<Rightarrow> string \<Rightarrow> string option \<Rightarrow> string \<Rightarrow> ('s, unit) io" where
  "remove_if_on_branch H branch bare_repo path =
     io_try
       (io_bind (execute_git_command H [''git'', ''-C'', path, ''rev-parse'', ''--abbrev-ref'', ''HEAD'']) (\<lambda>(code, out, err).
          if code = 0 \<and> str_contains branch out then remove_worktree H bare_repo path else io_ret ()))
       (\<lambda>e. io_ret ())"

text \<open>Calls \<open>f\<close> on every directory two levels below \<open>dir\<close>.\<close>

definition each_dir :: "'s host \<Rightarrow> string \<Rightarrow> ('b \<Rightarrow> string \<Rightarrow> ('s, 'b) io) \<Rightarrow> 'b \<Rightarrow> ('s, 'b) io" where
  "each_dir H dir f acc =
     io_bind (ho_iterdir H dir) (\<lambda>ds.
       io_fold (\<lambda>a d. io_bind (ho_is_dir H d) (\<lambda>b. if b then f a d else io_ret a)) acc ds)"

definition cleanup_worktrees_by_branch :: "'s host \<Rightarrow> string \<Rightarrow> string \<Rightarrow> string option \<Rightarrow> ('s, unit) io" where
  "cleanup_worktrees_by_branch H repo branch bare_repo =
     (let repo_dir = worktree_base (ho_home H) @ ''/'' @ sanitize_repo_key repo in
      io_bind (ho_exists H repo_dir) (\<lambda>b.
        if \<not> b then io_ret ()
        else each_dir H repo_dir (\<lambda>u thread_dir. each_dir H thread_dir (\<lambda>u d. remove_if_on_branch H branch bare_repo d) ()) ()))"

text \<open>
  \<open>list\<close> enumerates the sessions of a pattern; it gives \<open>None\<close> when the server has not finished
  its scan within the fuel, and then so do the callers.
\<close>

definition detect_orphan_worktrees ::
  "'s host \<Rightarrow> (string \<Rightarrow> ('s, session_info list option) io) \<Rightarrow> ('s, string list option) io" where
  "detect_orphan_worktrees H sessions_of =
     io_bind (ho_exists H (worktree_base (ho_home H))) (\<lambda>b.
       if \<not> b then io_ret (Some [])
       else
         io_bind (sessions_of ''*'') (\<lambda>found. case found of
             None \<Rightarrow> io_ret None
           | Some sessions \<Rightarrow>
               io_bind
                 (each_dir H (worktree_base (ho_home H)) (\<lambda>acc repo_dir. each_dir H repo_dir (\<lambda>acc thread_dir.
                    each_dir H thread_dir (\<lambda>acc d.
                      io_ret (if d \<in> set (map si_worktree_path sessions) then acc else acc @ [d])) acc) acc) [])
                 (\<lambda>orphans. io_ret (Some orphans))))"

section \<open>Maintenance in the sandbox worker\<close>

definition WORKTREE_CLEANUP_QUEUE :: string where "WORKTREE_CLEANUP_QUEUE = ''agent:worktree:cleanup''"
definition ORPHAN_LOCK_KEY :: string where "ORPHAN_LOCK_KEY = ''lock:orphan_cleanup''"
definition ORPHAN_LOCK_TTL_SECONDS :: int where "ORPHAN_LOCK_TTL_SECONDS = 3600"
definition CLOSED_SESSION_TTL_HOURS :: int where "CLOSED_SESSION_TTL_HOURS = 72"
definition REVIVED_SESSION_TTL_HOURS :: int where "REVIVED_SESSION_TTL_HOURS = 720"

record 's worker =
  wk_redis :: "'s env"
  wk_host :: "'s host"
  wk_parse_int :: "string \<Rightarrow> int option"
  wk_scan :: "int \<Rightarrow> string \<Rightarrow> ('s, int \<times> string list) io"
  wk_fuel :: nat

definition sessions_of :: "'s worker \<Rightarrow> string \<Rightarrow> ('s, session_info list option) io" where
  "sessions_of W repo = list_sessions (wk_redis W) (wk_parse_int W) (wk_scan W) (wk_fuel W) repo"

text \<open>Runs \<open>f\<close> on the workflow of every session of the thread; \<open>False\<close> when the scan has not finished.\<close>

definition for_thread_sessions ::
  "'s worker \<Rightarrow> string \<Rightarrow> string \<Rightarrow> string \<Rightarrow> (string \<Rightarrow> ('s, unit) io) \<Rightarrow> ('s, bool) io" where
  "for_thread_sessions W repo thread_type thread_id f =
     io_try
       (io_bind (sessions_of W repo) (\<lambda>found. case found of
           None \<Rightarrow> io_ret False
         | Some sessions \<Rightarrow>
             io_then (io_fold (\<lambda>_ s.
                 if si_thread_type s = thread_type \<and> si_thread_id s = thread_id then f (si_workflow_name s) else io_ret ())
               () sessions)
             (io_ret True)))
       (\<lambda>e. io_ret True)"

definition bare_repo_path :: "string \<Rightarrow> string" where
  "bare_repo_path repo = ''/var/cache/repos/'' @ repo @ ''.git''"

text \<open>A field of a cleanup message; the webhook sends strings.\<close>

definition msg_text :: "json dict \<Rightarrow> string \<Rightarrow> string \<Rightarrow> string" where
  "msg_text m k d = (case dict_get m k of None \<Rightarrow> d | Some j \<Rightarrow> py_str j)"

definition handle_cleanup_message :: "'s worker \<Rightarrow> json dict \<Rightarrow> ('s, bool) io" where
  "handle_cleanup_message W m =
     (let E = wk_redis W; act = opt_default JNull (dict_get m ''action''); repo = msg_text m ''repo'' [];
          tt = msg_text m ''thread_type'' ''issue''; tid = msg_text m ''thread_id'' [];
          bare = Some (bare_repo_path repo) in
      if act = JStr ''cleanup_thread'' then
        io_then (cleanup_worktrees (wk_host W) repo tt tid bare)
          (for_thread_sessions W repo tt tid (\<lambda>w. close_session E (wk_parse_int W) repo tt tid w))
      else if act = JStr ''expire_thread'' then
        for_thread_sessions W repo tt tid (\<lambda>w. expire_session E (wk_parse_int W) repo tt tid w CLOSED_SESSION_TTL_HOURS)
      else if act = JStr ''revive_thread'' then
        for_thread_sessions W repo tt tid (\<lambda>w. expire_session E (wk_parse_int W) repo tt tid w REVIVED_SESSION_TTL_HOURS)
      else if act = JStr ''cleanup_branch'' then
        io_then (cleanup_worktrees_by_branch (wk_host W) repo (msg_text m ''branch'' []) bare) (io_ret True)
      else io_ret True)"

definition handle_cleanup_raw :: "'s worker \<Rightarrow> string \<Rightarrow> ('s, bool) io" where
  "handle_cleanup_raw W raw =
     io_try
       (case x_loads (wk_redis W) raw of
          None \<Rightarrow> io_raise (Exn JSONDecodeError raw)
        | Some (JObj m) \<Rightarrow> handle_cleanup_message W m
        | Some _ \<Rightarrow> io_raise (Exn AttributeError ''get''))
       (\<lambda>e. io_ret True)"

text \<open>The loop over the queue; \<open>False\<close> when the fuel is used up before the queue is empty.\<close>

fun process_cleanup_requests :: "'s worker \<Rightarrow> nat \<Rightarrow> ('s, bool) io" where
  "process_cleanup_requests W 0 = io_ret False"
| "process_cleanup_requests W (Suc n) =
     io_bind (x_lpop (wk_redis W) WORKTREE_CLEANUP_QUEUE) (\<lambda>raw.
       if opt_default [] raw = [] then io_ret True
       else io_bind (handle_cleanup_raw W (opt_default [] raw)) (\<lambda>finished.
         if finished then process_cleanup_requests W n else io_ret False))"

text \<open>
  One round of the orphan loop, and the loop itself: it is given \<open>None\<close> for the client when it is
  started before the queue has connected. \<open>rounds\<close> are the rounds until shutdown, \<open>pause\<close> the hour
  of sleep in between.
\<close>

definition remove_orphan :: "'s host \<Rightarrow> string \<Rightarrow> ('s, unit) io" where
  "remove_orphan H path =
     io_then (ho_rmtree H path)
       (io_bind (ho_exists H (project_dir (ho_home H) path)) (\<lambda>b.
          if b then ho_rmtree H (project_dir (ho_home H) path) else io_ret ()))"

definition orphan_round :: "'s worker \<Rightarrow> ('s, unit) io" where
  "orphan_round W =
     (let E = wk_redis W in
      io_bind (x_set_nx_ex E ORPHAN_LOCK_KEY ''locked'' ORPHAN_LOCK_TTL_SECONDS) (\<lambda>acquired.
        if \<not> acquired then io_ret ()
        else
          io_finally
            (io_try
              (io_bind (detect_orphan_worktrees (wk_host W) (sessions_of W)) (\<lambda>orphans.
                 io_fold (\<lambda>_ path. remove_orphan (wk_host W) path) () (opt_default [] orphans)))
              (\<lambda>e. io_ret ()))
            (io_try (io_then (x_del E ORPHAN_LOCK_KEY) (io_ret ())) (\<lambda>e. io_ret ()))))"

fun orphan_rounds :: "'s worker \<Rightarrow> ('s, unit) io \<Rightarrow> nat \<Rightarrow> ('s, unit) io" where
  "orphan_rounds W pause 0 = io_ret ()"
| "orphan_rounds W pause (Suc n) = io_then (orphan_round W) (io_then pause (orphan_rounds W pause n))"

definition orphan_cleanup_loop :: "'s worker option \<Rightarrow> ('s, unit) io \<Rightarrow> nat \<Rightarrow> ('s, unit) io" where
  "orphan_cleanup_loop redis pause rounds =
     (case redis of None \<Rightarrow> io_ret () | Some W \<Rightarrow> orphan_rounds W pause rounds)"

text \<open>
  One iteration of the main loop: reclaim, clean up, take the next job and process it. The queue
  object connects on its first use; the cleanup is skipped until then, as \<open>job_queue.redis\<close> is
  \<open>None\<close>. The log line reads two fields of the job. An exception costs five seconds.
\<close>

definition worker_iteration ::
  "'s worker \<Rightarrow> job_queue \<Rightarrow> nat \<Rightarrow> json \<Rightarrow> string \<Rightarrow> string \<Rightarrow> (string \<Rightarrow> json \<Rightarrow> ('s, unit) io) \<Rightarrow> (real \<Rightarrow> ('s, unit) io) \<Rightarrow>
   ('s, unit) io" where
  "worker_iteration W q cleanup_fuel ts ts_str err process_job sleep =
     io_try
       (io_then (reclaim_stale_jobs (wk_redis W) q)
       (io_then (process_cleanup_requests W cleanup_fuel)
       (io_bind (get_next_job (wk_redis W) q 5 ts ts_str err) (\<lambda>result. case result of
           None \<Rightarrow> io_ret ()
         | Some (job_id, job_data) \<Rightarrow>
             io_then (io_of_result (json_item job_data ''repo''))
               (io_then (io_of_result (json_item job_data ''issue_number'')) (process_job job_id job_data))))))
       (\<lambda>e. sleep 5)"

text \<open>
  What \<open>main\<close> starts: the orphan loop gets \<open>job_queue.redis\<close>, which a queue that has not connected
  does not have yet.
\<close>

definition start_orphan_loop :: "'s worker \<Rightarrow> job_queue \<Rightarrow> ('s, unit) io \<Rightarrow> nat \<Rightarrow> ('s, unit) io" where
  "start_orphan_loop W q pause rounds = orphan_cleanup_loop (if jq_connected q then Some W else None) pause rounds"
section \<open>Sessions of a thread, as a scan finds them\<close>

text \<open>The keys a scan returns, following its cursor until it is zero again.\<close>

fun scan_keys :: "(int \<Rightarrow> int \<times> string list) \<Rightarrow> nat \<Rightarrow> int \<Rightarrow> string list option" where
  "scan_keys page 0 cursor = None"
| "scan_keys page (Suc n) cursor =
     (if fst (page cursor) = 0 then Some (snd (page cursor))
      else map_option ((@) (snd (page cursor))) (scan_keys page n (fst (page cursor))))"

definition stored_session :: "(string \<Rightarrow> int option) \<Rightarrow> rstate \<Rightarrow> string \<Rightarrow> session_info option" where
  "stored_session parse_int st k =
     (case rlook st k of Some (RHash h) \<Rightarrow> if h = [] then None else session_info_of parse_int h | _ \<Rightarrow> None)"

definition session_hashes :: "rstate \<Rightarrow> bool" where
  "session_hashes st \<longleftrightarrow> (\<forall>k. prefix ''session:map:'' k \<longrightarrow> as_hash (rlook st k) \<noteq> None)"

lemma stored_session_hash:
  "as_hash (rlook st k) = Some h \<Longrightarrow>
   stored_session p st k = (if h = [] then None else session_info_of p h)"
  by (cases "rlook st k" rule: as_hash.cases) (auto simp: stored_session_def)

lemma scan_batch_spec:
  "\<forall>k \<in> set ks. as_hash (rlook st k) \<noteq> None \<Longrightarrow>
   scan_batch (spec_env d l ord) p acc ks st = (Inr (acc @ List.map_filter (stored_session p st) ks), st)"
proof (induction ks arbitrary: acc)
  case Nil
  then show ?case by (simp add: scan_batch_def io_simps)
next
  case (Cons k ks)
  then obtain h where "as_hash (rlook st k) = Some h" by auto
  with Cons show ?case
    by (simp add: scan_batch_def session_run stored_session_hash split: option.split)
qed

lemma map_filter_append: "List.map_filter f (xs @ ys) = List.map_filter f xs @ List.map_filter f ys"
  by (simp add: List.map_filter_def)

lemma set_map_filter: "set (List.map_filter f xs) = {y. \<exists>x \<in> set xs. f x = Some y}"
  by (induction xs) (auto split: option.splits)

lemma list_sessions_spec:
  "scan_keys (page st) n c = Some ks \<Longrightarrow> \<forall>k \<in> set ks. as_hash (rlook st k) \<noteq> None \<Longrightarrow>
   list_sessions_loop (spec_env d l ord) p (\<lambda>c q st. (Inr (page st c), st)) pat n c acc st =
     (Inr (Some (acc @ List.map_filter (stored_session p st) ks)), st)"
proof (induction n arbitrary: c ks acc)
  case (Suc n)
  show ?case
  proof (cases "fst (page st c) = 0")
    case True
    with Suc.prems show ?thesis by (simp add: io_simps scan_batch_spec)
  next
    case False
    with Suc.prems(1) obtain ks' where ks: "scan_keys (page st) n (fst (page st c)) = Some ks'" "ks = snd (page st c) @ ks'"
      by auto
    with Suc.prems(2) have typed: "\<forall>k \<in> set ks'. as_hash (rlook st k) \<noteq> None" "\<forall>k \<in> set (snd (page st c)). as_hash (rlook st k) \<noteq> None"
      by auto
    with False ks(2) Suc.IH [OF ks(1) typed(1)] show ?thesis
      by (simp add: io_simps scan_batch_spec map_filter_append)
  qed
qed simp

lemma map_key_prefix [simp]: "prefix ''session:map:'' (session_map_key r tt tid w)"
  by (simp add: session_map_key_def)

lemma stream_keys_no_map:
  assumes "prefix ''session:map:'' k"
  shows "SESSION_KEY t \<noteq> k" "SESSION_INBOX_KEY t \<noteq> k" "SESSION_SUBSCRIBERS_KEY t \<noteq> k" "streaming_lookup_key a b c d \<noteq> k"
  using assms by (auto simp: session_keys streaming_lookup_key_def Let_def prefix_def)

text \<open>Setting the lifetime of one session: exactly that key gets a new deadline, no value changes.\<close>

definition touched :: "rstate \<Rightarrow> rstate \<Rightarrow> (string \<Rightarrow> bool) \<Rightarrow> nat \<Rightarrow> bool" where
  "touched st st' hit t \<longleftrightarrow> rnow st' = rnow st \<and> (\<forall>k. prefix ''session:map:'' k \<longrightarrow>
     rlook st' k = rlook st k \<and>
     rdeadline st' k = (if hit k \<and> rlook st k \<noteq> None then Some (rnow st + t) else rdeadline st k))"

lemma expire_other:
  "k \<noteq> k' \<Longrightarrow> x_expire (spec_env d l ord) k t st = (r, st') \<Longrightarrow>
   rnow st' = rnow st \<and> rlook st' k' = rlook st k' \<and> rdeadline st' k' = rdeadline st k'"
  by (auto simp: session_run split: option.splits if_splits)

lemma expire_ok: "\<exists>b st'. x_expire (spec_env d l ord) k t st = (Inr b, st')"
  by (auto simp: session_run split: option.split)
text \<open>Commands that return and leave the conversation sessions alone.\<close>

definition quiet :: "(rstate, 'a) io \<Rightarrow> bool" where
  "quiet m \<longleftrightarrow> (\<forall>st. \<exists>x st'. m st = (Inr x, st') \<and> touched st st' (\<lambda>k. False) 0)"

lemma quiet_ret: "quiet (io_ret x)"
  by (simp add: quiet_def io_simps touched_def)

lemma quiet_then:
  assumes "quiet m" "quiet n"
  shows "quiet (io_then m n)"
  unfolding quiet_def
proof
  fix st
  from assms(1) obtain x st1 where 1: "m st = (Inr x, st1)" "touched st st1 (\<lambda>k. False) 0"
    unfolding quiet_def by blast
  from assms(2) obtain y st2 where 2: "n st1 = (Inr y, st2)" "touched st1 st2 (\<lambda>k. False) 0"
    unfolding quiet_def by blast
  from 1 2 show "\<exists>x st'. io_then m n st = (Inr x, st') \<and> touched st st' (\<lambda>k. False) 0"
    by (auto simp: io_simps touched_def)
qed

lemma quiet_if: "quiet m \<Longrightarrow> quiet n \<Longrightarrow> quiet (if b then m else n)"
  by simp

lemma quiet_expire: "(\<And>k'. prefix ''session:map:'' k' \<Longrightarrow> k \<noteq> k') \<Longrightarrow> quiet (x_expire (spec_env d l ord) k t)"
  by (auto simp: quiet_def touched_def session_run split: option.split)

lemma quiet_propagate: "quiet (propagate_streaming_ttl (spec_env d l ord) token r tid w ttl tt)"
  unfolding propagate_streaming_ttl_def stream_set_ttl_def Let_def
  by (intro quiet_then quiet_if quiet_ret quiet_expire stream_keys_no_map)

lemma expire_session_spec:
  assumes "session_hashes st" "0 < ttl"
  shows "\<exists>st'. expire_session (spec_env d l ord) p r tt tid w ttl st = (Inr (), st') \<and>
    touched st st' (\<lambda>k. k = session_map_key r tt tid w) (nat (ttl * 3600))"
proof -
  let ?k = "session_map_key r tt tid w" and ?M = "spec_env d l ord"
  from assms(1) obtain h where h: "as_hash (rlook st ?k) = Some h"
    unfolding session_hashes_def using map_key_prefix by blast
  show ?thesis
  proof (cases "rlook st ?k")
    case None
    then show ?thesis by (auto simp: expire_session_def session_run touched_def)
  next
    case (Some v)
    with h have v: "rlook st ?k = Some (RHash h)" by (cases v) auto
    let ?st = "rput ?k (RHash h) (Some (rnow st + nat (ttl * 3600))) st"
    have 1: "x_expire ?M ?k (ttl * 3600) st = (Inr True, ?st)"
      using v assms(2) by (simp add: session_run)
    have t: "touched st ?st (\<lambda>k. k = ?k) (nat (ttl * 3600))"
      using v assms(2) by (auto simp: touched_def redis_simps)
    obtain i where 2: "get_session ?M p r tt tid w ?st = (Inr i, ?st)"
      using assms(2) by (cases "h = []") (auto simp: get_session_def read_session_def session_run)
    have "quiet (if opt_default [] (si_streaming_token x) \<noteq> []
        then propagate_streaming_ttl ?M (opt_default [] (si_streaming_token x)) r tid w ttl tt else io_ret ())" for x
      by (intro quiet_if quiet_propagate quiet_ret)
    then obtain st2 where st2: "\<And>x. i = Some x \<Longrightarrow> (if opt_default [] (si_streaming_token x) \<noteq> []
        then propagate_streaming_ttl ?M (opt_default [] (si_streaming_token x)) r tid w ttl tt else io_ret ()) ?st = (Inr (), st2)"
        "touched ?st st2 (\<lambda>k. False) 0"
      unfolding quiet_def touched_def by (cases i) fastforce+
    have "expire_session ?M p r tt tid w ttl st = (Inr (), if i = None then ?st else st2)"
      unfolding expire_session_def io_bind_run 1 using 2 st2(1)
      by (cases i) (simp_all add: io_bind_run io_try_run io_ret_run)
    moreover have "touched st (if i = None then ?st else st2) (\<lambda>k. k = ?k) (nat (ttl * 3600))"
      using t st2(2) by (simp add: touched_def)
    ultimately show ?thesis by blast
  qed
qed

lemma touched_hashes: "touched st st' hit t \<Longrightarrow> session_hashes st \<Longrightarrow> session_hashes st'"
  by (simp add: touched_def session_hashes_def)

lemma touched_trans:
  assumes "touched st st1 f t" "touched st1 st2 g t"
  shows "touched st st2 (\<lambda>k. f k \<or> g k) t"
  using assms by (simp add: touched_def)

text \<open>Setting the lifetime of all sessions of a thread.\<close>

lemma expire_thread_spec:
  assumes "session_hashes st" "0 < ttl"
  shows "\<exists>st'. io_fold (\<lambda>_ s. if si_thread_type s = tt \<and> si_thread_id s = tid
      then expire_session (spec_env d l ord) p r tt tid (si_workflow_name s) ttl else io_ret ()) () sessions st = (Inr (), st') \<and>
    touched st st' (\<lambda>k. \<exists>s \<in> set sessions. si_thread_type s = tt \<and> si_thread_id s = tid \<and>
      k = session_map_key r tt tid (si_workflow_name s)) (nat (ttl * 3600))"
  using assms(1)
proof (induction sessions arbitrary: st)
  case Nil
  then show ?case by (simp add: io_simps touched_def)
next
  case (Cons x xs)
  let ?step = "if si_thread_type x = tt \<and> si_thread_id x = tid
      then expire_session (spec_env d l ord) p r tt tid (si_workflow_name x) ttl else io_ret ()"
  let ?hit = "\<lambda>k. si_thread_type x = tt \<and> si_thread_id x = tid \<and> k = session_map_key r tt tid (si_workflow_name x)"
  obtain st1 where 1: "?step st = (Inr (), st1)" "touched st st1 ?hit (nat (ttl * 3600))"
  proof (cases "si_thread_type x = tt \<and> si_thread_id x = tid")
    case True
    with expire_session_spec [OF Cons.prems assms(2), of d l ord p r tt tid "si_workflow_name x"] that
    show ?thesis by auto
  next
    case False
    with that [of st] show ?thesis by (auto simp: io_simps touched_def)
  qed
  from Cons.IH [OF touched_hashes [OF 1(2) Cons.prems]] touched_trans [OF 1(2)] 1(1) show ?case
    by (fastforce simp: io_bind_run bex_Un)
qed
context redis_server
begin

lemma list_sessions_loop_sim:
  assumes "\<And>c. sim view healthy (scan c pat) (\<lambda>st. (Inr (page st c), st))"
  shows "sim view healthy (list_sessions_loop E p scan pat n c acc)
    (list_sessions_loop (model_env E ord) p (\<lambda>c q st. (Inr (page st c), st)) pat n c acc)"
proof (induction n arbitrary: c acc)
  case 0
  show ?case by (simp add: sim_ret)
next
  case (Suc n)
  show ?case unfolding list_sessions_loop.simps scan_batch_def
    by (intro sim_bind assms sim_if sim_ret sim_fold sim_option hgetall_law Suc.IH)
qed

lemma expire_session_sim [sim_intros]:
  "sim view healthy (expire_session E p r tt tid w ttl) (expire_session (model_env E ord) p r tt tid w ttl)"
  unfolding expire_session_def propagate_streaming_ttl_def stream_set_ttl_def Let_def by (intro sim_intros)

lemma list_sessions_loop_keeps:
  assumes "\<And>c. sim view healthy (scan c pat) (\<lambda>st. (Inr (page st c), st))"
  shows "keeps view healthy K (list_sessions_loop E p scan pat n c acc)"
proof (induction n arbitrary: c acc)
  case 0
  show ?case by (simp add: keeps_ret)
next
  case (Suc n)
  have "keeps view healthy K (scan c pat)" for c by (rule keeps_sim [OF assms]) simp
  then show ?case unfolding list_sessions_loop.simps scan_batch_def
    by (intro frame_intros Suc.IH)
qed

lemma expire_session_keeps: "keeps view healthy {WORKTREE_CLEANUP_QUEUE} (expire_session E p r tt tid w ttl)"
  unfolding expire_session_def propagate_streaming_ttl_def stream_set_ttl_def get_session_def read_session_def Let_def
  by (intro frame_intros)
    (simp_all add: WORKTREE_CLEANUP_QUEUE_def session_map_key_def session_keys streaming_lookup_key_def Let_def)

text \<open>What one message that changes the lifetime of a thread does.\<close>

lemma thread_lifetime_run:
  assumes "healthy s" "wk_redis W = E" "0 < ttl"
    and scan: "\<And>c. sim view healthy (wk_scan W c (session_pattern r)) (\<lambda>st. (Inr (page st c), st))"
    and keys: "scan_keys (page (view s)) (wk_fuel W) 0 = Some ks" "\<forall>k \<in> set ks. prefix ''session:map:'' k"
    and "session_hashes (view s)"
  shows "\<exists>s'. for_thread_sessions W r tt tid (\<lambda>w. expire_session E p r tt tid w ttl) s = (Inr True, s') \<and>
    healthy s' \<and> rlook (view s') WORKTREE_CLEANUP_QUEUE = rlook (view s) WORKTREE_CLEANUP_QUEUE \<and>
    touched (view s) (view s') (\<lambda>k. \<exists>i \<in> set (List.map_filter (stored_session (wk_parse_int W) (view s)) ks).
      si_thread_type i = tt \<and> si_thread_id i = tid \<and> k = session_map_key r tt tid (si_workflow_name i)) (nat (ttl * 3600))"
    (is "\<exists>s'. ?run s = _ \<and> _ s'")
proof -
  let ?M = "spec_env (x_dumps E) (x_loads E) ord" and ?found = "List.map_filter (stored_session (wk_parse_int W) (view s)) ks"
  have typed: "\<forall>k \<in> set ks. as_hash (rlook (view s) k) \<noteq> None"
    using keys(2) assms(7) by (simp add: session_hashes_def)
  obtain s1 where s1: "sessions_of W r s = (Inr (Some ?found), s1)" "view s1 = view s" "healthy s1"
    using sim_run [OF list_sessions_loop_sim [of "wk_scan W" "session_pattern r" page, OF scan] assms(1), unfolded model_env_def,
        OF list_sessions_spec [of page, OF keys(1) typed], of "wk_parse_int W" "[]"] assms(2)
    by (auto simp: sessions_of_def list_sessions_def)
  let ?fold = "\<lambda>E. io_fold (\<lambda>_ i. if si_thread_type i = tt \<and> si_thread_id i = tid
      then expire_session E p r tt tid (si_workflow_name i) ttl else io_ret ()) () ?found"
  have sim: "sim view healthy (?fold E) (?fold (model_env E ord))" by (intro sim_intros)
  obtain st2 where st2: "?fold ?M (view s1) = (Inr (), st2)"
      "touched (view s1) st2 (\<lambda>k. \<exists>i \<in> set ?found. si_thread_type i = tt \<and> si_thread_id i = tid \<and>
        k = session_map_key r tt tid (si_workflow_name i)) (nat (ttl * 3600))"
    using expire_thread_spec [of "view s1" ttl tt tid "x_dumps E" "x_loads E" ord p r ?found] assms(3,7) s1(2) by auto
  obtain s2 where s2: "?fold E s1 = (Inr (), s2)" "view s2 = st2" "healthy s2"
    using sim_run [OF sim s1(3), unfolded model_env_def, OF st2(1)] by blast
  have run: "?run s = (Inr True, s2)"
    using s1(1) s2(1) by (simp add: for_thread_sessions_def io_try_run io_bind_run io_then_run io_ret_run)
  have "keeps view healthy {WORKTREE_CLEANUP_QUEUE} (sessions_of W r)"
    using list_sessions_loop_keeps [of "wk_scan W" "session_pattern r" page, OF scan] assms(2) by (simp add: sessions_of_def list_sessions_def)
  then have "keeps view healthy {WORKTREE_CLEANUP_QUEUE} (?run)"
    unfolding for_thread_sessions_def by (intro frame_intros expire_session_keeps)
  note frame = keepsD [OF this assms(1) run]
  have "rlook (view s2) WORKTREE_CLEANUP_QUEUE = rlook (view s) WORKTREE_CLEANUP_QUEUE"
    using frame(2,3) by (simp add: rlook_def split: option.split)
  with run s2 st2(2) s1(2) show ?thesis by auto
qed

end
lemma sep_cut:
  assumes "a @ c # x = b @ c # y" "c \<notin> set a" "c \<notin> set b"
  shows "a = b \<and> x = y"
  using assms
proof (induction a arbitrary: b)
  case Nil
  then show ?case by (cases b) auto
next
  case (Cons d a)
  then show ?case by (cases b) auto
qed

lemma session_key_thread:
  assumes "session_map_key r tt tid w = session_map_key r tt' tid' w'"
    and "CHR '':'' \<notin> set tt" "CHR '':'' \<notin> set tt'" "CHR '':'' \<notin> set tid" "CHR '':'' \<notin> set tid'"
  shows "tt = tt' \<and> tid = tid' \<and> w = w'"
proof -
  from assms(1) have "tt @ CHR '':'' # (tid @ CHR '':'' # w) = tt' @ CHR '':'' # (tid' @ CHR '':'' # w')"
    by (simp add: session_map_key_def)
  from sep_cut [OF this assms(2,3)] have "tt = tt'" "tid @ CHR '':'' # w = tid' @ CHR '':'' # w'" by blast+
  with sep_cut [OF this(2) assms(4,5)] show ?thesis by blast
qed

lemma stored_thread_type: "stored_session p st k = Some i \<Longrightarrow> si_thread_type i \<in> {''pr'', ''issue'', ''discussion''}"
  by (auto simp: stored_session_def session_info_of_def Let_def split: option.splits rval.splits if_splits)

lemma pr_lifetime_message:
  assumes "build_cleanup_message ''pull_request'' (JStr action) data repo = Inr (Some m)"
    and "jget2 data ''pull_request'' ''number'' JNull = Inr (JInt n)"
  shows "action = ''closed'' \<and> m = thread_message ''expire_thread'' repo ''pr'' (JInt n) \<or>
    action = ''reopened'' \<and> m = thread_message ''revive_thread'' repo ''pr'' (JInt n)"
  using assms by (auto simp: build_cleanup_message_def thread_block_def Let_def split: if_splits)
text \<open>
  What \<open>SCAN\<close> documents: from start to end it returns every key that matches the pattern and is
  there all the time. \<open>page\<close> is what one call returns; the session keys are those of \<open>st0\<close>.
\<close>

definition scan_complete :: "'s worker \<Rightarrow> ('s \<Rightarrow> rstate) \<Rightarrow> ('s \<Rightarrow> bool) \<Rightarrow> string \<Rightarrow> rstate \<Rightarrow> bool" where
  "scan_complete W view ok repo st0 \<longleftrightarrow> (\<exists>page.
     (\<forall>c. sim view ok (wk_scan W c (session_pattern repo)) (\<lambda>st. (Inr (page st c), st))) \<and>
     (\<forall>st. (\<forall>k. prefix ''session:map:'' k \<longrightarrow> rlook st k = rlook st0 k) \<longrightarrow>
       (\<exists>ks. scan_keys (page st) (wk_fuel W) 0 = Some ks \<and>
         set ks = {k. prefix (''session:map:'' @ sanitize_repo_key repo @ '':'') k \<and> rlook st0 k \<noteq> None})))"

lemma scan_completeE:
  assumes "scan_complete W view ok repo st0" "\<And>k. prefix ''session:map:'' k \<Longrightarrow> rlook st k = rlook st0 k"
  obtains page ks where "\<And>c. sim view ok (wk_scan W c (session_pattern repo)) (\<lambda>st. (Inr (page st c), st))"
    "scan_keys (page st) (wk_fuel W) 0 = Some ks"
    "\<And>k. k \<in> set ks \<longleftrightarrow> prefix (''session:map:'' @ sanitize_repo_key repo @ '':'') k \<and> rlook st0 k \<noteq> None"
  using assms unfolding scan_complete_def by blast

context redis_server
begin

lemma one_cleanup_run:
  assumes "healthy s" "wk_redis W = E" "rlook (view s) WORKTREE_CLEANUP_QUEUE = None"
    and q: "mq_name q = WORKTREE_CLEANUP_QUEUE" and json: "json_ok (JObj m)"
    and m: "\<And>s1. healthy s1 \<Longrightarrow> view s1 = rdrop WORKTREE_CLEANUP_QUEUE (rstore WORKTREE_CLEANUP_QUEUE (RList [x_dumps E (JObj m)]) (view s)) \<Longrightarrow>
      \<exists>s2. handle_cleanup_message W m s1 = (Inr True, s2) \<and> healthy s2 \<and>
        rlook (view s2) WORKTREE_CLEANUP_QUEUE = None \<and> P (view s1) (view s2)"
  shows "\<exists>s2. io_then (mq_publish E q (JObj m)) (process_cleanup_requests W 2) s = (Inr True, s2) \<and>
    rlook (view s2) WORKTREE_CLEANUP_QUEUE = None \<and>
    P (rdrop WORKTREE_CLEANUP_QUEUE (rstore WORKTREE_CLEANUP_QUEUE (RList [x_dumps E (JObj m)]) (view s))) (view s2)"
proof -
  let ?Q = WORKTREE_CLEANUP_QUEUE and ?M = "spec_env (x_dumps E) (x_loads E) ord" and ?raw = "x_dumps E (JObj m)"
  have lpop: "sim view healthy (x_lpop E ?Q) (x_lpop ?M ?Q)" using lpop_law [of ?Q] by (simp add: model_env_def)
  have "mq_publish ?M q (JObj m) (view s) = (Inr (q\<lparr>mq_connected := True\<rparr>), rstore ?Q (RList [?raw]) (view s))"
    using mq_publish_run [of "view s" q "[]" "x_dumps E" "x_loads E" ord "JObj m"] assms(3) q by simp
  then obtain s0 where s0: "mq_publish E q (JObj m) s = (Inr (q\<lparr>mq_connected := True\<rparr>), s0)"
      "view s0 = rstore ?Q (RList [?raw]) (view s)" "healthy s0"
    using sim_run [OF mq_publish_sim assms(1), unfolded model_env_def] by blast
  have "x_lpop ?M ?Q (view s0) = (Inr (Some ?raw), rdrop ?Q (view s0))" by (simp add: s0 session_run)
  then obtain s1 where s1: "x_lpop E ?Q s0 = (Inr (Some ?raw), s1)" "view s1 = rdrop ?Q (view s0)" "healthy s1"
    using sim_run [OF lpop s0(3)] by blast
  obtain s2 where s2: "handle_cleanup_message W m s1 = (Inr True, s2)" "healthy s2" "rlook (view s2) ?Q = None"
      "P (view s1) (view s2)"
    using m [of s1] s0(2) s1(2,3) by auto
  have "x_lpop ?M ?Q (view s2) = (Inr None, view s2)" using s2(3) by (simp add: session_run)
  then obtain s3 where s3: "x_lpop E ?Q s2 = (Inr None, s3)" "view s3 = view s2"
    using sim_run [OF lpop s2(2)] by blast
  have raw: "handle_cleanup_raw W ?raw s1 = (Inr True, s2)" "?raw \<noteq> []"
    using s2(1) loads_dumps [OF json] dumps_nonempty [OF json] assms(2) by (simp_all add: handle_cleanup_raw_def io_try_run)
  have "process_cleanup_requests W 2 s0 = (Inr True, s3)"
    using s1(1) raw s3(1) assms(2)
    by (simp add: numeral_2_eq_2 io_bind_run io_ret_run)
  with s0 s1 s2 s3 show ?thesis by (metis io_then_Inr)
qed

end
lemma thread_message_json: "json_ok (JObj (thread_message act (JStr repo) tt (JInt n)))"
  by (simp add: thread_message_def)

lemma show_int_no_colon: "CHR '':'' \<notin> set (show_int n)"
proof
  assume "CHR '':'' \<in> set (show_int n)"
  with show_int_text(2) [of n] have "is_numchar (CHR '':'')" by (simp only: list_all_iff)
  then show False by (simp add: is_numchar_def)
qed

context redis_server
begin

lemma lifetime_message_run:
  assumes "healthy s1" "wk_redis W = E" "scan_complete W view healthy repo st0" "session_hashes st0"
    and st0: "\<And>k. prefix ''session:map:'' k \<Longrightarrow> rlook (view s1) k = rlook st0 k"
    and "rlook (view s1) WORKTREE_CLEANUP_QUEUE = None"
    and act: "(act, hours) \<in> {(''expire_thread'', 72), (''revive_thread'', 720)}"
  shows "\<exists>s2. handle_cleanup_message W (thread_message act (JStr repo) ''pr'' (JInt n)) s1 = (Inr True, s2) \<and> healthy s2 \<and>
    rlook (view s2) WORKTREE_CLEANUP_QUEUE = None \<and>
    touched (view s1) (view s2) (\<lambda>k. \<exists>k' i. prefix (''session:map:'' @ sanitize_repo_key repo @ '':'') k' \<and>
      stored_session (wk_parse_int W) st0 k' = Some i \<and> si_thread_type i = ''pr'' \<and> si_thread_id i = show_int n \<and>
      k = session_map_key repo ''pr'' (show_int n) (si_workflow_name i)) (nat (hours * 3600))"
proof -
  obtain page ks where scan: "\<And>c. sim view healthy (wk_scan W c (session_pattern repo)) (\<lambda>st. (Inr (page st c), st))"
    and ks: "scan_keys (page (view s1)) (wk_fuel W) 0 = Some ks"
      "\<And>k. k \<in> set ks \<longleftrightarrow> prefix (''session:map:'' @ sanitize_repo_key repo @ '':'') k \<and> rlook st0 k \<noteq> None"
    using scan_completeE [OF assms(3) st0] by blast
  have pre: "prefix ''session:map:'' k" if "prefix (''session:map:'' @ sanitize_repo_key repo @ '':'') k" for k
    using that by (auto simp: prefix_def)
  then have keys: "\<forall>k \<in> set ks. prefix ''session:map:'' k" using ks(2) by blast
  have hashes: "session_hashes (view s1)" using assms(4) st0 by (simp add: session_hashes_def)
  have hours: "0 < hours" using act by auto
  have st: "stored_session p (view s1) k = stored_session p st0 k" if "prefix ''session:map:'' k" for p k
    using st0 [OF that] by (simp add: stored_session_def)
  have found: "i \<in> set (List.map_filter (stored_session (wk_parse_int W) (view s1)) ks) \<longleftrightarrow>
      (\<exists>k. prefix (''session:map:'' @ sanitize_repo_key repo @ '':'') k \<and> stored_session (wk_parse_int W) st0 k = Some i)" for i
  proof -
    have "k \<in> set ks" if "prefix (''session:map:'' @ sanitize_repo_key repo @ '':'') k" "stored_session p st0 k = Some i" for k p
      using that ks(2) by (auto simp: stored_session_def split: option.splits)
    then show ?thesis using keys st ks(2) by (auto simp: set_map_filter)
  qed
  have run: "handle_cleanup_message W (thread_message act (JStr repo) ''pr'' (JInt n)) =
      for_thread_sessions W repo ''pr'' (show_int n) (\<lambda>w. expire_session E (wk_parse_int W) repo ''pr'' (show_int n) w hours)"
    using act assms(2)
    by (auto simp: handle_cleanup_message_def thread_message_def msg_text_def Let_def
        CLOSED_SESSION_TTL_HOURS_def REVIVED_SESSION_TTL_HOURS_def)
  have hit: "(\<lambda>k. \<exists>i \<in> set (List.map_filter (stored_session (wk_parse_int W) (view s1)) ks).
        si_thread_type i = ''pr'' \<and> si_thread_id i = show_int n \<and> k = session_map_key repo ''pr'' (show_int n) (si_workflow_name i)) =
      (\<lambda>k. \<exists>k' i. prefix (''session:map:'' @ sanitize_repo_key repo @ '':'') k' \<and>
        stored_session (wk_parse_int W) st0 k' = Some i \<and> si_thread_type i = ''pr'' \<and> si_thread_id i = show_int n \<and>
        k = session_map_key repo ''pr'' (show_int n) (si_workflow_name i))"
    unfolding fun_eq_iff Bex_def found by blast
  show ?thesis unfolding run hit [symmetric]
    using thread_lifetime_run [OF assms(1,2) hours scan ks(1) keys hashes, of "''pr''" "show_int n" "wk_parse_int W"] assms(6)
    by simp
qed

end
text \<open>
  C12: a pull request is closed or reopened. The message that the webhook builds for it, published
  on the cleanup queue, is taken off the queue by the sandbox worker, and every stored session of
  the pull request then expires 72 hours, or 30 days, from now; no session loses data and the
  sessions of other threads of the repository keep their deadline. The session keys hold hashes
  and the scan is complete.
\<close>

theorem closed_thread_sessions_expire:
  assumes "redis_server E view healthy ord" "healthy s" "wk_redis W = E"
    and "scan_complete W view healthy repo (view s)" "session_hashes (view s)"
    and "rlook (view s) WORKTREE_CLEANUP_QUEUE = None" "mq_name q = WORKTREE_CLEANUP_QUEUE"
    and "build_cleanup_message ''pull_request'' (JStr action) data (JStr repo) = Inr (Some m)"
    and "jget2 data ''pull_request'' ''number'' JNull = Inr (JInt n)"
  shows "\<exists>s'. io_then (mq_publish E q (JObj m)) (process_cleanup_requests W 2) s = (Inr True, s') \<and>
    rlook (view s') WORKTREE_CLEANUP_QUEUE = None \<and>
    (\<forall>k i. stored_session (wk_parse_int W) (view s) k = Some i \<and> CHR '':'' \<notin> set (si_thread_id i) \<and>
        k = session_map_key repo (si_thread_type i) (si_thread_id i) (si_workflow_name i) \<longrightarrow>
      rlook (view s') k = rlook (view s) k \<and>
      rdeadline (view s') k =
        (if si_thread_type i = ''pr'' \<and> si_thread_id i = show_int n
         then Some (rnow (view s) + (if action = ''closed'' then 72 * 3600 else 30 * 24 * 3600))
         else rdeadline (view s) k))"
proof -
  let ?Q = WORKTREE_CLEANUP_QUEUE and ?p = "wk_parse_int W"
  obtain act hours where act: "(act, hours :: int) \<in> {(''expire_thread'', 72), (''revive_thread'', 720)}"
    and m: "m = thread_message act (JStr repo) ''pr'' (JInt n)"
    and t: "nat (hours * 3600) = (if action = ''closed'' then 72 * 3600 else 30 * 24 * 3600)"
    using pr_lifetime_message [OF assms(8,9)] that [of "''expire_thread''" 72] that [of "''revive_thread''" 720] by auto
  let ?hit = "\<lambda>k. \<exists>k' i. prefix (''session:map:'' @ sanitize_repo_key repo @ '':'') k' \<and>
      stored_session ?p (view s) k' = Some i \<and> si_thread_type i = ''pr'' \<and> si_thread_id i = show_int n \<and>
      k = session_map_key repo ''pr'' (show_int n) (si_workflow_name i)"
  let ?st1 = "rdrop ?Q (rstore ?Q (RList [x_dumps E (JObj m)]) (view s))"
  have sess: "rlook ?st1 k = rlook (view s) k \<and> rdeadline ?st1 k = rdeadline (view s) k" if "prefix ''session:map:'' k" for k
    using that by (auto simp: redis_simps WORKTREE_CLEANUP_QUEUE_def)
  have handled: "\<exists>s2. handle_cleanup_message W m s1 = (Inr True, s2) \<and> healthy s2 \<and> rlook (view s2) ?Q = None \<and>
      touched (view s1) (view s2) ?hit (nat (hours * 3600))" if "healthy s1" "view s1 = ?st1" for s1
    unfolding m using that(2) sess
    by (intro redis_server.lifetime_message_run [OF assms(1) that(1) assms(3-5) _ _ act]) (simp_all add: m redis_simps)
  have json: "json_ok (JObj m)" unfolding m by (rule thread_message_json)
  obtain s2
    where run: "io_then (mq_publish E q (JObj m)) (process_cleanup_requests W 2) s = (Inr True, s2)"
      "rlook (view s2) ?Q = None" "touched ?st1 (view s2) ?hit (nat (hours * 3600))"
    using redis_server.one_cleanup_run [OF assms(1-3,6,7) json,
        where P = "\<lambda>a b. touched a b ?hit (nat (hours * 3600))", OF handled] by blast
  have "rlook (view s2) k = rlook (view s) k \<and> rdeadline (view s2) k =
      (if si_thread_type i = ''pr'' \<and> si_thread_id i = show_int n
       then Some (rnow (view s) + (if action = ''closed'' then 72 * 3600 else 30 * 24 * 3600)) else rdeadline (view s) k)"
    if i: "stored_session ?p (view s) k = Some i" "CHR '':'' \<notin> set (si_thread_id i)"
      "k = session_map_key repo (si_thread_type i) (si_thread_id i) (si_workflow_name i)" for k i
  proof -
    have k: "prefix ''session:map:'' k" "prefix (''session:map:'' @ sanitize_repo_key repo @ '':'') k"
      by (simp_all add: i(3) session_map_key_def)
    have live: "rlook (view s) k \<noteq> None" using i(1) by (cases "rlook (view s) k") (simp_all add: stored_session_def)
    have "CHR '':'' \<notin> set (si_thread_type i)" using stored_thread_type [OF i(1)] by auto
    then have "?hit k \<longleftrightarrow> si_thread_type i = ''pr'' \<and> si_thread_id i = show_int n"
      using i k(2) show_int_no_colon session_key_thread [of repo "si_thread_type i" "si_thread_id i" "si_workflow_name i" "''pr''" "show_int n"]
      by fastforce
    with run(3) k live sess [OF k(1)] show ?thesis by (simp add: touched_def redis_simps t [symmetric])
  qed
  with run(1,2) show ?thesis by blast
qed
text \<open>A world with one session, on a server that scans in one page.\<close>

definition kept_session :: "string dict" where
  "kept_session = [(''session_id'', ''s1''), (''repo'', ''o/r''), (''thread_type'', ''pr''), (''thread_id'', ''7''),
     (''workflow_name'', ''review''), (''ref'', ''main''), (''worktree_path'', ''/w''), (''created_at'', ''t''), (''last_run'', ''t'')]"

definition session_world :: flaky where
  "session_world = \<lparr>fk_state = rput (session_map_key ''o/r'' ''pr'' ''7'' ''review'') (RHash kept_session) None empty_keyspace,
     fk_fault = None\<rparr>"

definition one_page :: "rstate \<Rightarrow> int \<Rightarrow> int \<times> string list" where
  "one_page st c = (0, filter (\<lambda>k. rlook st k \<noteq> None) [session_map_key ''o/r'' ''pr'' ''7'' ''review''])"

definition silent_host :: "flaky host" where
  "silent_host = \<lparr>ho_home = ''/root'', ho_exists = \<lambda>p. io_ret False, ho_is_dir = \<lambda>p. io_ret False,
     ho_is_file = \<lambda>p. io_ret False, ho_iterdir = \<lambda>p. io_ret [], ho_read_text = \<lambda>p. io_ret [],
     ho_mkdir = \<lambda>p. io_ret (), ho_rmtree = \<lambda>p. io_ret (), ho_rmdir = \<lambda>p. io_ret (),
     ho_exec = \<lambda>c. io_ret (Some 0, [], [])\<rparr>"

definition sample_worker :: "flaky worker" where
  "sample_worker = \<lparr>wk_redis = flaky_env, wk_host = silent_host, wk_parse_int = \<lambda>s. Some (read_int s),
     wk_scan = \<lambda>c pat. flaky_cmd (\<lambda>st. (Inr (one_page st c), st)), wk_fuel = 1\<rparr>"

lemma sample_worker_scans: "scan_complete sample_worker fk_state (\<lambda>w. fk_fault w = None) ''o/r'' (fk_state session_world)"
  unfolding scan_complete_def
proof (intro exI conjI allI impI)
  fix c
  show "sim fk_state (\<lambda>w. fk_fault w = None) (wk_scan sample_worker c (session_pattern ''o/r'')) (\<lambda>st. (Inr (one_page st c), st))"
    by (simp add: sample_worker_def flaky_cmd_sim)
next
  let ?k = "session_map_key ''o/r'' ''pr'' ''7'' ''review''"
  fix st
  assume "\<forall>k. prefix ''session:map:'' k \<longrightarrow> rlook st k = rlook (fk_state session_world) k"
  then have "rlook st ?k = rlook (fk_state session_world) ?k" by simp
  then show "scan_keys (one_page st) (wk_fuel sample_worker) 0 = Some [?k]"
    by (simp add: sample_worker_def one_page_def session_world_def redis_simps)
  show "set [?k] = {k. prefix (''session:map:'' @ sanitize_repo_key ''o/r'' @ '':'') k \<and> rlook (fk_state session_world) k \<noteq> None}"
    by (auto simp: session_world_def redis_simps) (simp add: session_map_key_def)
qed

theorem closed_thread_sessions_expire_witness:
  "\<exists>s'. io_then (mq_publish flaky_env \<lparr>mq_url = [], mq_name = WORKTREE_CLEANUP_QUEUE, mq_connected = False, mq_running = False\<rparr>
      (JObj (thread_message ''expire_thread'' (JStr ''o/r'') ''pr'' (JInt 7)))) (process_cleanup_requests sample_worker 2) session_world =
      (Inr True, s') \<and>
    rlook (fk_state s') (session_map_key ''o/r'' ''pr'' ''7'' ''review'') = Some (RHash kept_session) \<and>
    rdeadline (fk_state s') (session_map_key ''o/r'' ''pr'' ''7'' ''review'') = Some 259200"
proof -
  let ?k = "session_map_key ''o/r'' ''pr'' ''7'' ''review''"
  let ?data = "JObj [(''pull_request'', JObj [(''number'', JInt 7)])]"
  let ?m = "thread_message ''expire_thread'' (JStr ''o/r'') ''pr'' (JInt 7)"
  have seven: "show_int 7 = ''7''" by code_simp
  have i: "\<exists>i. stored_session (wk_parse_int sample_worker) (fk_state session_world) ?k = Some i \<and>
      si_thread_type i = ''pr'' \<and> si_thread_id i = ''7'' \<and> si_workflow_name i = ''review''"
    by (simp add: stored_session_def session_world_def redis_simps kept_session_def session_info_of_def)
  have m: "build_cleanup_message ''pull_request'' (JStr ''closed'') ?data (JStr ''o/r'') = Inr (Some ?m)"
      "jget2 ?data ''pull_request'' ''number'' JNull = Inr (JInt 7)"
    by (simp_all add: build_cleanup_message_def thread_block_def jget2_def)
  have "session_hashes (fk_state session_world)" "rlook (fk_state session_world) WORKTREE_CLEANUP_QUEUE = None"
      "wk_redis sample_worker = flaky_env" "fk_fault session_world = None"
    by (auto simp: session_hashes_def session_world_def redis_simps sample_worker_def WORKTREE_CLEANUP_QUEUE_def session_map_key_def)
  from closed_thread_sessions_expire [OF flaky.redis_server_axioms this(4,3) sample_worker_scans this(1,2), where q =
      "\<lparr>mq_url = [], mq_name = WORKTREE_CLEANUP_QUEUE, mq_connected = False, mq_running = False\<rparr>", OF _ m] i seven
  show ?thesis by (fastforce simp: session_world_def redis_simps empty_keyspace_def)
qed
section \<open>Where worktrees live, and which of them are removed\<close>

text \<open>
  Two conversations share a working directory only if they agree in repository, thread type,
  thread and workflow, given GitHub's rules for owners and names without slashes.
\<close>

theorem worktrees_isolated:
  assumes "get_worktree_path home (o1 @ ''/'' @ n1) tt1 id1 w1 = get_worktree_path home (o2 @ ''/'' @ n2) tt2 id2 w2"
    and "is_owner o1" "is_owner o2" "CHR ''/'' \<notin> set n1 \<union> set n2 \<union> set id1 \<union> set id2"
    and "tt1 \<in> set [''pr'', ''issue'', ''discussion'']" "tt2 \<in> set [''pr'', ''issue'', ''discussion'']"
  shows "o1 = o2 \<and> n1 = n2 \<and> tt1 = tt2 \<and> id1 = id2 \<and> w1 = w2"
proof -
  have san: "sanitize_repo_key (o1 @ ''/'' @ n1) = o1 @ ''--'' @ n1" "sanitize_repo_key (o2 @ ''/'' @ n2) = o2 @ ''--'' @ n2"
    using assms(2-4) by (auto simp: is_owner_def intro!: sanitize_full_name [simplified])
  have slash: "CHR ''/'' \<notin> set (o1 @ ''--'' @ n1)" "CHR ''/'' \<notin> set (o2 @ ''--'' @ n2)"
      "CHR ''/'' \<notin> set (tt1 @ ''-'' @ id1)" "CHR ''/'' \<notin> set (tt2 @ ''-'' @ id2)"
    using assms(2-6) by (auto simp: is_owner_def)
  have dash: "CHR ''-'' \<notin> set tt1" "CHR ''-'' \<notin> set tt2" using assms(5,6) by auto
  have "(o1 @ ''--'' @ n1) @ CHR ''/'' # ((tt1 @ ''-'' @ id1) @ CHR ''/'' # w1) =
      (o2 @ ''--'' @ n2) @ CHR ''/'' # ((tt2 @ ''-'' @ id2) @ CHR ''/'' # w2)"
    using assms(1) san by (simp add: get_worktree_path_def thread_dir_def)
  from sep_cut [OF this slash(1,2)] have repo: "o1 @ ''--'' @ n1 = o2 @ ''--'' @ n2"
    and rest: "(tt1 @ ''-'' @ id1) @ CHR ''/'' # w1 = (tt2 @ ''-'' @ id2) @ CHR ''/'' # w2" by blast+
  from sep_cut [OF rest slash(3,4)] have thread: "tt1 @ CHR ''-'' # id1 = tt2 @ CHR ''-'' # id2" "w1 = w2" by auto
  from repo san assms(2-4) sanitize_repo_key_injective [of o1 o2 n1 n2] sep_cut [OF thread(1) dash] thread(2)
  show ?thesis by simp
qed

theorem worktrees_isolated_witness:
  "is_owner ''a'' \<and> (''a'' = ''a'' \<and> ''b-c'' = ''b-c'' \<and> ''pr'' = ''pr'' \<and> ''7'' = ''7'' \<and> ''review'' = ''review'')"
proof -
  have "is_owner ''a''"
    by (auto simp: is_owner_def sublist_def suffix_def append_eq_Cons_conv Cons_eq_append_conv)
  with worktrees_isolated [of "''/root''" "''a''" "''b-c''" "''pr''" "''7''" "''review''" "''a''" "''b-c''" "''pr''" "''7''" "''review''"]
  show ?thesis by simp
qed

lemma io_fold_inv:
  assumes "\<And>a x s r s'. P a \<Longrightarrow> f a x s = (Inr r, s') \<Longrightarrow> P r"
  shows "P acc \<Longrightarrow> io_fold f acc xs s = (Inr r, s') \<Longrightarrow> P r"
proof (induction xs arbitrary: acc s)
  case (Cons x xs)
  then obtain a s1 where "f acc x s = (Inr a, s1)" "io_fold f a xs s1 = (Inr r, s')"
    by (auto simp: io_bind_run split: prod.splits sum.splits)
  with Cons assms show ?case by blast
qed (simp add: io_simps)

lemma each_dir_inv:
  assumes "\<And>a d s r s'. P a \<Longrightarrow> f a d s = (Inr r, s') \<Longrightarrow> P r"
    and "P acc" "each_dir H dir f acc s = (Inr r, s')"
  shows "P r"
proof -
  let ?g = "\<lambda>a d. io_bind (ho_is_dir H d) (\<lambda>b. if b then f a d else io_ret a)"
  from assms(3) obtain ds s1 where "io_fold ?g acc ds s1 = (Inr r, s')"
    by (auto simp: each_dir_def io_bind_run split: prod.splits sum.splits)
  moreover have "P r'" if "P a" "?g a d t = (Inr r', t')" for a d t r' t'
    using that assms(1) by (auto simp: io_bind_run io_ret_run split: prod.splits sum.splits if_splits)
  ultimately show ?thesis using io_fold_inv [of P ?g] assms(2) by blast
qed

text \<open>
  The worktrees that the maintenance loop regards as orphaned, and then deletes, do not
  contain the worktree of any session that was found.
\<close>

theorem live_worktrees_kept:
  assumes "detect_orphan_worktrees (wk_host W) (sessions_of W) s = (Inr (Some orphans), s')" "orphans \<noteq> []"
  shows "\<exists>sessions s1 s2. sessions_of W ''*'' s1 = (Inr (Some sessions), s2) \<and>
    (\<forall>i \<in> set sessions. si_worktree_path i \<notin> set orphans)"
proof -
  let ?H = "wk_host W"
  let ?leaf = "\<lambda>sessions acc d. io_ret (if d \<in> set (map si_worktree_path sessions) then acc else acc @ [d])"
  obtain sessions s1 s2 s3 where found: "sessions_of W ''*'' s1 = (Inr (Some sessions), s2)"
    and dirs: "each_dir ?H (worktree_base (ho_home ?H)) (\<lambda>acc repo_dir. each_dir ?H repo_dir (\<lambda>acc thread_dir.
        each_dir ?H thread_dir (?leaf sessions) acc) acc) [] s2 = (Inr orphans, s3)"
    using assms unfolding detect_orphan_worktrees_def
    by (auto simp: io_bind_run io_ret_run split: prod.splits sum.splits if_splits option.splits)
  let ?P = "\<lambda>ds. \<forall>i \<in> set sessions. si_worktree_path i \<notin> set ds"
  have leaf: "?P r" if "?P a" "?leaf sessions a d t = (Inr r, t')" for a d t r t'
    using that by (auto simp: io_ret_run split: if_splits)
  have thread: "?P r" if "?P a" "each_dir ?H d (?leaf sessions) a t = (Inr r, t')" for a d t r t'
    by (rule each_dir_inv [of ?P, OF _ that]) (erule (1) leaf)
  have repo: "?P r" if "?P a" "each_dir ?H d (\<lambda>acc thread_dir. each_dir ?H thread_dir (?leaf sessions) acc) a t = (Inr r, t')" for a d t r t'
    by (rule each_dir_inv [of ?P, OF _ that]) (erule (1) thread)
  have "?P orphans"
    by (rule each_dir_inv [of ?P, OF _ _ dirs]) (erule (1) repo, simp)
  with found show ?thesis by blast
qed
definition tree_worker :: "flaky worker" where
  "tree_worker = sample_worker\<lparr>wk_host := silent_host\<lparr>ho_exists := \<lambda>p. io_ret True, ho_is_dir := \<lambda>p. io_ret True,
     ho_iterdir := \<lambda>p. io_ret (if p = worktree_base ''/root'' then [''r''] else if p = ''r'' then [''t'']
       else if p = ''t'' then [''/w'', ''/x''] else [])\<rparr>\<rparr>"

lemma tree_worker_run:
  "detect_orphan_worktrees (wk_host tree_worker) (sessions_of tree_worker) session_world = (Inr (Some [''/x'']), session_world)"
proof -
  have wt: "worktree_base ''/root'' \<noteq> ''r''" "worktree_base ''/root'' \<noteq> ''t''" by (simp_all add: worktree_base_def)
  have "sessions_of tree_worker ''*'' session_world = (Inr (Some [the (session_info_of (\<lambda>s. Some (read_int s)) kept_session)]), session_world)"
    by (simp add: sessions_of_def list_sessions_def tree_worker_def sample_worker_def one_page_def session_world_def
        scan_batch_def flaky_cmd_def flaky_env_def session_run kept_session_def session_info_of_def)
  moreover have "si_worktree_path (the (session_info_of (\<lambda>s. Some (read_int s)) kept_session)) = ''/w''"
    by (simp add: kept_session_def session_info_of_def)
  ultimately show ?thesis using wt
    by (simp add: detect_orphan_worktrees_def each_dir_def tree_worker_def silent_host_def io_simps)
qed

theorem live_worktrees_kept_witness:
  "\<exists>sessions s1 s2. sessions_of tree_worker ''*'' s1 = (Inr (Some sessions), s2) \<and>
    (\<forall>i \<in> set sessions. si_worktree_path i \<notin> set [''/x''])"
  by (rule live_worktrees_kept [OF tree_worker_run]) simp

text \<open>The loop over orphans that \<open>main\<close> starts ends at once: the queue has not connected yet.\<close>

lemma orphan_loop_not_started: "\<not> jq_connected q \<Longrightarrow> start_orphan_loop W q pause rounds = io_ret ()"
  by (simp add: start_orphan_loop_def orphan_cleanup_loop_def)

text \<open>A branch whose name contains the deleted one counts as deleted.\<close>

lemma branch_substring:
  "str_contains ''fix'' ''fix-2''" "str_contains ''HEAD'' ''HEAD''"
  by code_simp+

end
