(* ===== verification/Sdk_Options.thy ===== *)
theory Sdk_Options
  imports Session_Stream Retry "HOL-Library.List_Lexorder" "HOL-Library.Char_ord"
begin

text \<open>
  \<^verbatim>\<open>shared/sdk_factory.py\<close> (the builder of the options of an agent session and its system
  prompt), \<^verbatim>\<open>shared/post_processing.py\<close> (the jobs that follow a session) and
  \<^verbatim>\<open>shared/sdk_executor.py\<close> (running a session with retries). Environment variables are the
  record \<open>sdk_settings\<close>. The builder's methods return the updated builder. A hook keeps the objects
  it captured: the repository context as it was when the hook was added, and the list of buffered
  jobs, which is the builder's list until it is flushed.
\<close>

section \<open>The builder\<close>

record sdk_settings =
  se_sonnet :: string
  se_haiku :: string
  se_buffer_size :: int
  se_memory :: bool
  se_retrospector :: bool
  se_indexing :: bool
  se_langfuse :: bool
  se_allow_host_mcp :: bool
  se_claude_json :: "json option"
  se_plugin_dirs :: "string list"
  se_home :: string

record capture =
  cp_repo :: string
  cp_workflow_name :: json
  cp_ref :: json
  cp_context :: "json dict"
  cp_memory :: bool
  cp_retrospector :: bool
  cp_indexing :: bool

datatype hook = LangfuseHook "string option" | CaptureHook capture

record sdk_builder =
  sb_cwd :: string
  sb_model :: "string option"
  sb_allowed_tools :: "string list"
  sb_mcp_servers :: "json dict"
  sb_plugins :: "json list"
  sb_hooks :: "hook list dict"
  sb_add_dirs :: "string list"
  sb_system_prompt :: "string option"
  sb_agents :: "json option"
  sb_repo_context :: "json dict"
  sb_structural_context :: "string option"
  sb_thread_history :: "string option"
  sb_pending_post_jobs :: "json dict list"
  sb_resume :: "string option"
  sb_continue_conversation :: bool
  sb_fork_session :: bool
  sb_include_partial_messages :: bool
  sb_session_signature :: "string option"
  sb_max_buffer_size :: int

definition new_builder :: "sdk_settings \<Rightarrow> string \<Rightarrow> sdk_builder" where
  "new_builder S cwd = \<lparr>sb_cwd = cwd, sb_model = None, sb_allowed_tools = [], sb_mcp_servers = [], sb_plugins = [],
     sb_hooks = [], sb_add_dirs = [], sb_system_prompt = None, sb_agents = None, sb_repo_context = [],
     sb_structural_context = None, sb_thread_history = None, sb_pending_post_jobs = [], sb_resume = None,
     sb_continue_conversation = False, sb_fork_session = False, sb_include_partial_messages = False,
     sb_session_signature = None, sb_max_buffer_size = se_buffer_size S\<rparr>"

definition with_model :: "string \<Rightarrow> sdk_builder \<Rightarrow> sdk_builder" where
  "with_model model b = b\<lparr>sb_model := Some model\<rparr>"

definition with_sonnet :: "sdk_settings \<Rightarrow> sdk_builder \<Rightarrow> sdk_builder" where
  "with_sonnet S b = b\<lparr>sb_model := Some (se_sonnet S)\<rparr>"

definition with_haiku :: "sdk_settings \<Rightarrow> sdk_builder \<Rightarrow> sdk_builder" where
  "with_haiku S b = b\<lparr>sb_model := Some (se_haiku S)\<rparr>"

definition with_max_buffer_size :: "int \<Rightarrow> sdk_builder \<Rightarrow> sdk_builder" where
  "with_max_buffer_size n b = b\<lparr>sb_max_buffer_size := n\<rparr>"

definition with_github_mcp :: "string \<Rightarrow> sdk_builder \<Rightarrow> sdk_builder" where
  "with_github_mcp token b = b\<lparr>sb_mcp_servers := dict_set ''github'' (JObj [(''type'', JStr ''http''),
     (''url'', JStr ''https://api.githubcopilot.com/mcp''),
     (''headers'', JObj [(''Authorization'', JStr (''Bearer '' @ token))])]) (sb_mcp_servers b)\<rparr>"

definition with_memory_mcp :: "string \<Rightarrow> sdk_builder \<Rightarrow> sdk_builder" where
  "with_memory_mcp repo b = b\<lparr>sb_mcp_servers := dict_set ''memory'' (JObj [(''type'', JStr ''stdio''),
     (''command'', JStr ''python3''), (''args'', JArr [JStr ''/app/mcp_servers/memory/server.py'']),
     (''env'', JObj [(''GITHUB_REPOSITORY'', JStr repo), (''PYTHONPATH'', JStr ''/app'')])]) (sb_mcp_servers b)\<rparr>"

definition with_plugin :: "string \<Rightarrow> sdk_builder \<Rightarrow> sdk_builder" where
  "with_plugin path b = b\<lparr>sb_plugins := sb_plugins b @ [JObj [(''type'', JStr ''local''), (''path'', JStr path)]]\<rparr>"

text \<open>The directories of \<open>~/.claude/plugins\<close>, in the order of \<open>os.listdir\<close>.\<close>

definition with_auto_discovered_plugins :: "sdk_settings \<Rightarrow> sdk_builder \<Rightarrow> sdk_builder" where
  "with_auto_discovered_plugins S b =
     fold (\<lambda>name. with_plugin (se_home S @ ''/.claude/plugins/'' @ name))
       (filter (\<lambda>name. \<not> str_startswith name ''.'') (se_plugin_dirs S)) b"

definition with_tools :: "string list \<Rightarrow> sdk_builder \<Rightarrow> sdk_builder" where
  "with_tools tools b = b\<lparr>sb_allowed_tools := sb_allowed_tools b @ tools\<rparr>"

text \<open>\<open>_discover_host_mcp_names\<close>; \<open>se_claude_json\<close> is the parsed file, \<open>None\<close> when it is missing or unreadable.\<close>

fun json_keys :: "json \<Rightarrow> string list result" where
  "json_keys (JObj d) = Inr (map fst d)"
| "json_keys _ = Inl (Exn AttributeError ''keys'')"

definition discover_host_mcp_names :: "sdk_settings \<Rightarrow> string \<Rightarrow> string list result" where
  "discover_host_mcp_names S cwd =
     (case se_claude_json S of
        None \<Rightarrow> Inr []
      | Some data \<Rightarrow>
          res_bind (res_bind (jget data ''mcpServers'' (JObj [])) json_keys) (\<lambda>names.
            if cwd = [] then Inr (sort (remdups names))
            else
              res_bind (jget data ''projects'' (JObj [])) (\<lambda>projects.
              res_bind (jget projects cwd JNull) (\<lambda>direct.
              res_bind (json_keys projects) (\<lambda>ks.
              res_bind (if py_truthy direct then Inr direct
                        else jget projects (opt_default [] (List.find (\<lambda>k. str_lower k = str_lower cwd) ks)) (JObj [])) (\<lambda>entry.
              res_bind (case entry of JObj d \<Rightarrow> res_bind (jget entry ''mcpServers'' (JObj [])) json_keys | _ \<Rightarrow> Inr []) (\<lambda>more_names.
                Inr (sort (remdups (names @ more_names))))))))))"

definition FULL_TOOLSET :: "string list" where
  "FULL_TOOLSET = [''Task'', ''Skill'', ''Agent'', ''Bash'', ''Read'', ''Write'', ''Edit'', ''List'', ''Search'', ''Grep'', ''Glob'',
     ''mcp__github__*'', ''mcp__github_actions__*'', ''mcp__memory__memory_read'', ''mcp__codebase_tools__*'']"

definition with_full_toolset :: "sdk_settings \<Rightarrow> sdk_builder \<Rightarrow> sdk_builder result" where
  "with_full_toolset S b =
     res_bind (if se_allow_host_mcp S then discover_host_mcp_names S (sb_cwd b) else Inr []) (\<lambda>names.
       Inr (with_tools (FULL_TOOLSET @ map (\<lambda>name. ''mcp__'' @ name @ ''__*'') names) b))"

definition with_retrospector_toolset :: "sdk_builder \<Rightarrow> sdk_builder" where
  "with_retrospector_toolset =
     with_tools [''Skill'', ''Bash'', ''Glob'', ''Grep'', ''Read'', ''Write'', ''Edit'', ''mcp__github__*'']"

definition with_memory_toolset :: "sdk_builder \<Rightarrow> sdk_builder" where
  "with_memory_toolset = with_tools [''Read'', ''Write'', ''Edit'', ''List'', ''mcp__memory__*'']"

definition with_agents :: "json \<Rightarrow> sdk_builder \<Rightarrow> sdk_builder" where
  "with_agents agents b = b\<lparr>sb_agents := Some agents\<rparr>"

definition setup_langfuse_hooks :: "sdk_settings \<Rightarrow> string option \<Rightarrow> hook list dict" where
  "setup_langfuse_hooks S parent_span_id =
     (if se_langfuse S then [(''Stop'', [LangfuseHook parent_span_id]), (''SubagentStop'', [LangfuseHook parent_span_id])] else [])"

definition with_langfuse_hooks :: "sdk_settings \<Rightarrow> string option \<Rightarrow> sdk_builder \<Rightarrow> sdk_builder" where
  "with_langfuse_hooks S parent_span_id b = b\<lparr>sb_hooks := dict_update (sb_hooks b) (setup_langfuse_hooks S parent_span_id)\<rparr>"

definition add_hook :: "hook \<Rightarrow> string \<Rightarrow> hook list dict \<Rightarrow> hook list dict" where
  "add_hook h event hooks = dict_set event (opt_default [] (dict_get hooks event) @ [h]) hooks"

definition with_transcript_staging :: "sdk_settings \<Rightarrow> string \<Rightarrow> json \<Rightarrow> json \<Rightarrow> sdk_builder \<Rightarrow> sdk_builder" where
  "with_transcript_staging S repo workflow_name ref b =
     (let h = CaptureHook \<lparr>cp_repo = repo, cp_workflow_name = workflow_name, cp_ref = ref, cp_context = sb_repo_context b,
              cp_memory = se_memory S, cp_retrospector = se_retrospector S, cp_indexing = se_indexing S\<rparr> in
      if se_memory S \<or> se_retrospector S
      then b\<lparr>sb_hooks := add_hook h ''SubagentStop'' (add_hook h ''Stop'' (sb_hooks b))\<rparr>
      else b)"

text \<open>\<open>capture_and_buffer\<close>: what the hook appends to the buffered jobs.\<close>

definition hook_field :: "json dict \<Rightarrow> string \<Rightarrow> json \<Rightarrow> json" where
  "hook_field input k d = opt_default d (dict_get input k)"

definition transcript_path_of :: "json dict \<Rightarrow> json" where
  "transcript_path_of input =
     (if hook_field input ''hook_event_name'' (JStr ''Stop'') = JStr ''SubagentStop''
      then hook_field input ''agent_transcript_path'' JNull
      else py_or (hook_field input ''transcriptPath'' JNull) (hook_field input ''transcript_path'' JNull))"

definition capture_and_buffer :: "capture \<Rightarrow> json dict \<Rightarrow> json dict list \<Rightarrow> json dict list \<times> bool" where
  "capture_and_buffer c input pending =
     (let event = hook_field input ''hook_event_name'' (JStr ''Stop''); path = transcript_path_of input in
      if \<not> py_truthy path then (pending, False)
      else (pending @
        (if cp_memory c then
          [[(''type'', JStr ''memory''), (''repo'', JStr (cp_repo c)), (''transcript_path'', path), (''event'', event),
            (''claude_md'', hook_field (cp_context c) ''claude_md'' JNull),
            (''memory_index'', hook_field (cp_context c) ''memory_index'' JNull)]] else []) @
        (if cp_retrospector c then
          [[(''type'', JStr ''retrospector''), (''repo'', JStr (cp_repo c)), (''transcript_path'', path), (''event'', event),
            (''workflow_name'', cp_workflow_name c),
            (''session_meta'', JObj [(''num_turns'', hook_field input ''num_turns'' (JInt 0)),
               (''is_error'', hook_field input ''is_error'' (JBool False)), (''duration_ms'', hook_field input ''duration_ms'' (JInt 0)),
               (''agent_id'', hook_field input ''agent_id'' JNull), (''agent_type'', hook_field input ''agent_type'' JNull)])]] else []) @
        (if cp_indexing c then
          [[(''type'', JStr ''indexing''), (''repo'', JStr (cp_repo c)), (''event'', event), (''ref'', cp_ref c)]] else []), True))"

definition with_session_resume :: "string \<Rightarrow> sdk_builder \<Rightarrow> sdk_builder" where
  "with_session_resume session_id b = b\<lparr>sb_resume := Some session_id\<rparr>"

definition with_session_continue :: "sdk_builder \<Rightarrow> sdk_builder" where
  "with_session_continue b = b\<lparr>sb_continue_conversation := True\<rparr>"

definition with_session_fork :: "string \<Rightarrow> sdk_builder \<Rightarrow> sdk_builder" where
  "with_session_fork session_id b = b\<lparr>sb_resume := Some session_id, sb_fork_session := True\<rparr>"

definition with_writable_dir :: "string \<Rightarrow> sdk_builder \<Rightarrow> sdk_builder" where
  "with_writable_dir path b = b\<lparr>sb_add_dirs := sb_add_dirs b @ [path]\<rparr>"

definition with_system_prompt :: "string option \<Rightarrow> sdk_builder \<Rightarrow> sdk_builder" where
  "with_system_prompt prompt b = (if opt_default [] prompt \<noteq> [] then b\<lparr>sb_system_prompt := prompt\<rparr> else b)"

definition quoted :: "string \<Rightarrow> string" where "quoted s = CHR 0x22 # s @ [CHR 0x22]"

definition context_part :: "string \<Rightarrow> string \<Rightarrow> string option \<Rightarrow> string list" where
  "context_part opening closing t =
     (if str_strip (opt_default [] t) \<noteq> [] then [opening @ nl @ str_strip (opt_default [] t) @ nl @ closing] else [])"

definition opt_json :: "string option \<Rightarrow> json" where
  "opt_json t = (case t of None \<Rightarrow> JNull | Some s \<Rightarrow> JStr s)"

definition with_repository_context :: "string option \<Rightarrow> string option \<Rightarrow> sdk_builder \<Rightarrow> sdk_builder" where
  "with_repository_context claude_md memory_index b =
     (let b' = b\<lparr>sb_repo_context := [(''claude_md'', opt_json claude_md), (''memory_index'', opt_json memory_index)]\<rparr>;
          parts = context_part (''<memory name='' @ quoted ''index.md'' @ ''>'') ''</memory>'' memory_index @
                  context_part ''<repository_context>'' ''</repository_context>'' claude_md;
          repo_context = str_join (nl @ nl) parts in
      if parts = [] then b'
      else if opt_default [] (sb_system_prompt b) \<noteq> []
      then b'\<lparr>sb_system_prompt := Some (repo_context @ nl @ nl @ opt_default [] (sb_system_prompt b))\<rparr>
      else b'\<lparr>sb_system_prompt := Some repo_context\<rparr>)"

definition with_structural_context :: "string option \<Rightarrow> sdk_builder \<Rightarrow> sdk_builder" where
  "with_structural_context file_tree b =
     (if str_strip (opt_default [] file_tree) \<noteq> []
      then b\<lparr>sb_structural_context := Some (''<repo_structure>'' @ nl @ str_strip (opt_default [] file_tree) @ nl @ ''</repo_structure>'')\<rparr>
      else b)"

definition with_thread_history :: "string option \<Rightarrow> sdk_builder \<Rightarrow> sdk_builder" where
  "with_thread_history history b =
     (if str_strip (opt_default [] history) \<noteq> [] then b\<lparr>sb_thread_history := Some (str_strip (opt_default [] history))\<rparr> else b)"

definition with_streaming :: "sdk_builder \<Rightarrow> sdk_builder" where
  "with_streaming b = b\<lparr>sb_include_partial_messages := True\<rparr>"

definition with_session_signature :: "string \<Rightarrow> sdk_builder \<Rightarrow> sdk_builder" where
  "with_session_signature session_url b = b\<lparr>sb_session_signature := Some session_url\<rparr>"

text \<open>
  \<open>with_repository_context_auto\<close>: both fetches are optional, and either may fail. The HTTP request
  and the file system are arguments.
\<close>

definition auto_claude_md ::
  "bool \<Rightarrow> ('s, string) io \<Rightarrow> (string \<Rightarrow> string \<Rightarrow> ('s, nat \<times> string) io) \<Rightarrow> string \<Rightarrow> ('s, string option) io" where
  "auto_claude_md configured token http_get repo =
     (if \<not> configured then io_ret None
      else io_bind token (\<lambda>github_token.
           io_bind (http_get (''https://api.github.com/repos/'' @ repo @ ''/contents/CLAUDE.md'') github_token) (\<lambda>(status, body).
             io_ret (if status = 200 then Some body else None))))"

definition auto_memory ::
  "string \<Rightarrow> (string \<Rightarrow> ('s, bool) io) \<Rightarrow> (string \<Rightarrow> ('s, string) io) \<Rightarrow> string \<Rightarrow> ('s, string option) io" where
  "auto_memory home path_exists read_file repo =
     (let path = home @ ''/.claude/memory/'' @ repo @ ''/memory/index.md'' in
      io_bind (path_exists path) (\<lambda>b. if b then io_bind (read_file path) (\<lambda>t. io_ret (Some t)) else io_ret None))"

definition with_repository_context_auto ::
  "bool \<Rightarrow> bool \<Rightarrow> ('s, string option) io \<Rightarrow> ('s, string option) io \<Rightarrow> sdk_builder \<Rightarrow> ('s, sdk_builder) io" where
  "with_repository_context_auto want_claude_md want_memory fetch_md fetch_memory b =
     io_bind (if want_claude_md then io_try fetch_md (\<lambda>e. io_ret None) else io_ret None) (\<lambda>claude_md.
     io_bind (if want_memory then io_try fetch_memory (\<lambda>e. io_ret None) else io_ret None) (\<lambda>memory_index.
       io_ret (with_repository_context claude_md memory_index b)))"

section \<open>The system prompt and its budget\<close>

definition SYSTEM_PROMPT_BUDGET :: nat where "SYSTEM_PROMPT_BUDGET = 12000"

text \<open>\<open>len(text.split())\<close>: the number of runs of characters that are not white space.\<close>

fun word_count :: "bool \<Rightarrow> string \<Rightarrow> nat" where
  "word_count in_word [] = 0"
| "word_count in_word (c # cs) =
     (if is_space c then word_count False cs
      else if in_word then word_count True cs else Suc (word_count True cs))"

text \<open>\<open>max(1, int(n * 1.3))\<close>; the product of the double nearest to 1.3 with an integer is never rounded below \<open>13 n / 10\<close>.\<close>

definition estimate_tokens :: "string \<Rightarrow> nat" where
  "estimate_tokens t = max 1 (13 * word_count False t div 10)"

fun keep_first :: "nat \<Rightarrow> string list \<Rightarrow> string list \<Rightarrow> string list" where
  "keep_first m kept [] = kept"
| "keep_first m kept (line # ls) =
     (if m < estimate_tokens (str_join nl (kept @ [line])) then kept else keep_first m (kept @ [line]) ls)"

fun keep_last :: "nat \<Rightarrow> string list \<Rightarrow> string list \<Rightarrow> string list" where
  "keep_last m kept [] = kept"
| "keep_last m kept (line # ls) =
     (if m < estimate_tokens (str_join nl (line # kept)) then kept else keep_last m (line # kept) ls)"

definition truncate_text :: "string \<Rightarrow> nat \<Rightarrow> bool \<Rightarrow> string option" where
  "truncate_text t m from_top =
     (let ls = str_split CHR 0x0A t in
      if estimate_tokens t \<le> m then Some t
      else if from_top then
        (let kept = keep_last m [] (rev ls) in
         if kept = [] then None else Some (''... (older comments truncated)'' @ nl @ str_join nl kept))
      else
        (let kept = keep_first m [] ls in
         if kept = [] then None else Some (str_join nl kept @ nl @ ''... (truncated)'')))"

text \<open>The dash in the last sentence of the source is not an ASCII character.\<close>

definition signature_instruction :: "string \<Rightarrow> string" where
  "signature_instruction url =
     ''When posting any GitHub comment (via add_issue_comment or pull_request_review_write), you MUST append this signature at the very end of your comment:'' @
     nl @ nl @ ''---'' @ nl @ ''[Link to remote control this session]('' @ url @ '')'' @ nl @ nl @
     ''Do not include this signature in PR descriptions, commit messages, or any other output - only GitHub comments.''"

definition prompt_component :: "string option \<Rightarrow> string list" where
  "prompt_component t = (if str_strip (opt_default [] t) \<noteq> [] then [str_strip (opt_default [] t)] else [])"

definition signature_component :: "sdk_builder \<Rightarrow> string list" where
  "signature_component b =
     (if opt_default [] (sb_session_signature b) \<noteq> [] then [signature_instruction (opt_default [] (sb_session_signature b))] else [])"

text \<open>The prompt and the signature, kept whole as long as they fit; the loop ends at the first one that does not.\<close>

fun add_fixed :: "nat \<Rightarrow> string list \<Rightarrow> string list \<times> nat" where
  "add_fixed budget [] = ([], budget)"
| "add_fixed budget (t # ts) =
     (if estimate_tokens t \<le> budget
      then (case add_fixed (budget - estimate_tokens t) ts of (parts, rest) \<Rightarrow> (t # parts, rest))
      else (case truncate_text t budget False of Some u \<Rightarrow> ([u], 0) | None \<Rightarrow> ([], budget)))"

definition add_optional :: "nat \<Rightarrow> bool \<Rightarrow> string list \<Rightarrow> string list \<times> nat" where
  "add_optional budget from_top ts =
     (case ts of
        [] \<Rightarrow> ([], budget)
      | t # _ \<Rightarrow>
          if budget = 0 then ([], budget)
          else if estimate_tokens t \<le> budget then ([t], budget - estimate_tokens t)
          else (case truncate_text t budget from_top of Some u \<Rightarrow> ([u], 0) | None \<Rightarrow> ([], budget)))"

definition assemble_system_prompt :: "sdk_builder \<Rightarrow> string option" where
  "assemble_system_prompt b =
     (let structural = prompt_component (sb_structural_context b); history = prompt_component (sb_thread_history b);
          fixed = prompt_component (sb_system_prompt b) @ signature_component b;
          components = structural @ history @ fixed in
      if components = [] then None
      else if sum_list (map estimate_tokens components) \<le> SYSTEM_PROMPT_BUDGET then Some (str_join (nl @ nl) components)
      else
        (let (parts1, budget1) = add_fixed SYSTEM_PROMPT_BUDGET fixed;
             (parts2, budget2) = add_optional budget1 True history;
             (parts3, budget3) = add_optional budget2 False structural;
             parts = parts1 @ parts2 @ parts3 in
         if parts = [] then None else Some (str_join (nl @ nl) parts)))"

text \<open>\<open>build\<close>: the options are the builder with the model and the prompt filled in.\<close>

definition build_options :: "sdk_settings \<Rightarrow> sdk_builder \<Rightarrow> sdk_builder" where
  "build_options S b = b\<lparr>sb_model := Some (if opt_default [] (sb_model b) \<noteq> [] then opt_default [] (sb_model b) else se_sonnet S),
     sb_system_prompt := assemble_system_prompt b\<rparr>"

section \<open>Bounds of the system prompt\<close>

lemma word_count_append:
  "word_count w (a @ b) \<le> word_count w a + word_count False b"
proof (induction a arbitrary: w)
  case Nil
  show ?case by (induction b arbitrary: w) (auto simp: le_SucI)
next
  case (Cons c a)
  then show ?case by (auto simp: add_mono)
qed

lemma word_count_space: "is_space c \<Longrightarrow> word_count w (a @ c # b) = word_count w a + word_count False b"
  by (induction a arbitrary: w) auto

lemma nl_space [simp]: "is_space (CHR 0x0A)"
  by (simp add: is_space_def)

lemma word_count_nl: "word_count w (a @ nl @ b) = word_count w a + word_count False b"
  by (simp add: nl_def word_count_space)

lemma word_count_join:
  "word_count False (str_join (nl @ nl) ts) = (\<Sum>t\<leftarrow>ts. word_count False t)"
proof (induction "nl @ nl" ts rule: str_join.induct)
  case (3 x y ys)
  have "word_count False (nl @ str_join (nl @ nl) (y # ys)) = word_count False (str_join (nl @ nl) (y # ys))"
    by (simp add: nl_def)
  with 3 show ?case using word_count_nl [of False x "nl @ str_join (nl @ nl) (y # ys)"] by simp
qed simp_all

lemma estimate_words: "13 * word_count False t \<le> 10 * estimate_tokens t + 9"
  unfolding estimate_tokens_def by linarith

lemma keep_first_fits:
  "(kept = [] \<or> estimate_tokens (str_join nl kept) \<le> m) \<Longrightarrow> keep_first m kept ls \<noteq> [] \<Longrightarrow>
   estimate_tokens (str_join nl (keep_first m kept ls)) \<le> m"
  by (induction m kept ls rule: keep_first.induct) (auto split: if_splits)

lemma keep_last_fits:
  "(kept = [] \<or> estimate_tokens (str_join nl kept) \<le> m) \<Longrightarrow> keep_last m kept ls \<noteq> [] \<Longrightarrow>
   estimate_tokens (str_join nl (keep_last m kept ls)) \<le> m"
  by (induction m kept ls rule: keep_last.induct) (auto split: if_splits)

text \<open>Truncation keeps to the budget but for the four words, at most, of its own note.\<close>

lemma truncate_words:
  assumes "truncate_text t m from_top = Some u"
  shows "13 * word_count False u \<le> 10 * m + 61"
proof -
  have markers: "word_count False ''... (older comments truncated)'' = 4" "word_count False ''... (truncated)'' = 2"
    by (simp_all add: is_space_def)
  consider "u = t" "estimate_tokens t \<le> m"
    | ls where "u = ''... (older comments truncated)'' @ nl @ str_join nl ls" "estimate_tokens (str_join nl ls) \<le> m"
    | ls where "u = str_join nl ls @ nl @ ''... (truncated)''" "estimate_tokens (str_join nl ls) \<le> m"
    using assms unfolding truncate_text_def Let_def
    by (auto split: if_splits simp: keep_first_fits keep_last_fits)
  then show ?thesis
  proof cases
    case 1
    with estimate_words [of t] show ?thesis by simp
  next
    case 2
    then show ?thesis
      using estimate_words [of "str_join nl ls"] word_count_nl [of False "''... (older comments truncated)''" "str_join nl ls"] markers
      by simp
  next
    case 3
    then show ?thesis
      using estimate_words [of "str_join nl ls"] word_count_nl [of False "str_join nl ls" "''... (truncated)''"] markers
      by simp
  qed
qed
abbreviation total_words :: "string list \<Rightarrow> nat" where
  "total_words ts \<equiv> (\<Sum>t\<leftarrow>ts. word_count False t)"

text \<open>What a list of parts may cost: its share of the budget, rounding, and one note if the budget is used up.\<close>

definition within_share :: "nat \<Rightarrow> nat \<Rightarrow> string list \<times> nat \<Rightarrow> bool" where
  "within_share B n p \<longleftrightarrow> snd p \<le> B \<and> length (fst p) \<le> n \<and>
     13 * total_words (fst p) + 10 * snd p \<le> 10 * B + 9 * length (fst p) + (if snd p = 0 then 52 else 0)"

lemma truncated_share: "truncate_text t B from_top = Some u \<Longrightarrow> within_share B (Suc n) ([u], 0)"
  using truncate_words [of t B from_top u] by (simp add: within_share_def)

lemma add_fixed_share: "within_share B (length ts) (add_fixed B ts)"
proof (induction B ts rule: add_fixed.induct)
  case (1 B)
  show ?case by (simp add: within_share_def)
next
  case (2 B t ts)
  show ?case
  proof (cases "estimate_tokens t \<le> B")
    case True
    obtain ps r where p: "add_fixed (B - estimate_tokens t) ts = (ps, r)" by fastforce
    with 2 True have "within_share (B - estimate_tokens t) (length ts) (ps, r)" by simp
    with True estimate_words [of t] p show ?thesis by (auto simp: within_share_def)
  next
    case False
    then show ?thesis
      by (auto simp: truncated_share split: option.split) (simp add: within_share_def)
  qed
qed

lemma add_optional_share: "within_share B 1 (add_optional B from_top ts)"
proof (cases ts)
  case Nil
  then show ?thesis by (simp add: add_optional_def within_share_def)
next
  case (Cons t ts')
  then show ?thesis
    using estimate_words [of t] truncated_share [of t B from_top _ 0]
    by (auto simp: add_optional_def split: option.split) (auto simp: within_share_def)
qed

lemma add_optional_empty: "add_optional 0 from_top ts = ([], 0)"
  by (simp add: add_optional_def split: list.split)

text \<open>
  C11: however long the prompt, the comment history and the file tree are, the assembled system
  prompt is estimated at no more than eight tokens above the budget.
\<close>

theorem system_prompt_within_budget:
  assumes "assemble_system_prompt b = Some p"
  shows "estimate_tokens p \<le> SYSTEM_PROMPT_BUDGET + 8"
proof -
  let ?structural = "prompt_component (sb_structural_context b)" and ?history = "prompt_component (sb_thread_history b)"
  let ?fixed = "prompt_component (sb_system_prompt b) @ signature_component b"
  let ?components = "?structural @ ?history @ ?fixed"
  have few: "length ?fixed \<le> 2" "length ?components \<le> 4"
    by (simp_all add: prompt_component_def signature_component_def)
  have bound: "estimate_tokens (str_join (nl @ nl) ts) \<le> SYSTEM_PROMPT_BUDGET + 8"
    if "13 * total_words ts \<le> 10 * SYSTEM_PROMPT_BUDGET + 88" for ts
    using that by (simp add: estimate_tokens_def word_count_join SYSTEM_PROMPT_BUDGET_def)
  show ?thesis
  proof (cases "sum_list (map estimate_tokens ?components) \<le> SYSTEM_PROMPT_BUDGET")
    case True
    have "13 * total_words ts \<le> 10 * sum_list (map estimate_tokens ts) + 9 * length ts" for ts
    proof (induction ts)
      case (Cons t ts)
      with estimate_words [of t] show ?case by simp
    qed simp
    from this [of ?components] True few(2) have "13 * total_words ?components \<le> 10 * SYSTEM_PROMPT_BUDGET + 88" by linarith
    moreover have "p = str_join (nl @ nl) ?components"
      using assms True by (simp add: assemble_system_prompt_def Let_def split: if_splits)
    ultimately show ?thesis using bound by blast
  next
    case False
    obtain ps1 b1 where 1: "add_fixed SYSTEM_PROMPT_BUDGET ?fixed = (ps1, b1)" by fastforce
    obtain ps2 b2 where 2: "add_optional b1 True ?history = (ps2, b2)" by fastforce
    obtain ps3 b3 where 3: "add_optional b2 False ?structural = (ps3, b3)" by fastforce
    have s1: "within_share SYSTEM_PROMPT_BUDGET (length ?fixed) (ps1, b1)" using add_fixed_share 1 by metis
    have s2: "within_share b1 1 (ps2, b2)" using add_optional_share 2 by metis
    have s3: "within_share b2 1 (ps3, b3)" using add_optional_share 3 by metis
    have "ps2 = []" if "b1 = 0" using that 2 by (simp add: add_optional_empty)
    moreover have "ps3 = []" if "b2 = 0" using that 3 by (simp add: add_optional_empty)
    moreover have "b2 = 0" if "b1 = 0" using that 2 by (simp add: add_optional_empty)
    ultimately have "13 * total_words (ps1 @ ps2 @ ps3) \<le> 10 * SYSTEM_PROMPT_BUDGET + 88"
      using s1 s2 s3 few(1) unfolding within_share_def
      by (cases "b1 = 0"; cases "b2 = 0"; cases "b3 = 0") auto
    moreover have "p = str_join (nl @ nl) (ps1 @ ps2 @ ps3)"
      using assms False 1 2 3 by (simp add: assemble_system_prompt_def Let_def split: if_splits)
    ultimately show ?thesis using bound by blast
  qed
qed
definition sample_settings :: sdk_settings where
  "sample_settings = \<lparr>se_sonnet = ''sonnet'', se_haiku = ''haiku'', se_buffer_size = 4194304, se_memory = True,
     se_retrospector = True, se_indexing = False, se_langfuse = False, se_allow_host_mcp = False, se_claude_json = None,
     se_plugin_dirs = [], se_home = ''/root''\<rparr>"

definition sample_builder :: sdk_builder where
  "sample_builder = with_thread_history (Some ''fixes 1'') (with_system_prompt (Some ''be kind'') (new_builder sample_settings ''/w''))"

theorem system_prompt_within_budget_witness:
  "assemble_system_prompt sample_builder = Some (''fixes 1'' @ nl @ nl @ ''be kind'') \<and>
   estimate_tokens (''fixes 1'' @ nl @ nl @ ''be kind'') \<le> SYSTEM_PROMPT_BUDGET + 8"
proof -
  have "assemble_system_prompt sample_builder = Some (''fixes 1'' @ nl @ nl @ ''be kind'')"
    by (simp add: sample_builder_def with_thread_history_def with_system_prompt_def new_builder_def prompt_component_def
        str_strip_def str_lstrip_def str_rstrip_def is_space_def assemble_system_prompt_def signature_component_def
        estimate_tokens_def SYSTEM_PROMPT_BUDGET_def)
  with system_prompt_within_budget [OF this] show ?thesis by simp
qed

text \<open>
  The documentation of the method promises that the session signature is always included. A
  prompt that does not fit uses up the budget and ends the loop before the signature's turn.
\<close>

theorem long_prompt_drops_signature:
  assumes "sb_system_prompt b = Some t" "str_strip t = t" "SYSTEM_PROMPT_BUDGET < estimate_tokens t"
    and "estimate_tokens (hd (str_split CHR 0x0A t)) \<le> SYSTEM_PROMPT_BUDGET"
  shows "assemble_system_prompt b =
    Some (str_join nl (keep_first SYSTEM_PROMPT_BUDGET [] (str_split CHR 0x0A t)) @ nl @ ''... (truncated)'')"
proof -
  have ne: "t \<noteq> []" using assms(3) by (auto simp: estimate_tokens_def SYSTEM_PROMPT_BUDGET_def)
  obtain l ls where l: "str_split CHR 0x0A t = l # ls" by (cases "str_split CHR 0x0A t") auto
  have mono: "kept \<noteq> [] \<Longrightarrow> keep_first m kept ls \<noteq> []" for m kept ls
    by (induction m kept ls rule: keep_first.induct) auto
  have "keep_first SYSTEM_PROMPT_BUDGET [] (str_split CHR 0x0A t) \<noteq> []"
    using assms(4) mono [of "[l]"] by (simp add: l)
  then have cut: "truncate_text t SYSTEM_PROMPT_BUDGET False =
      Some (str_join nl (keep_first SYSTEM_PROMPT_BUDGET [] (str_split CHR 0x0A t)) @ nl @ ''... (truncated)'')"
    using assms(3) by (simp add: truncate_text_def Let_def)
  have comp: "prompt_component (sb_system_prompt b) = [t]" using assms(1,2) ne by (simp add: prompt_component_def)
  have "add_fixed SYSTEM_PROMPT_BUDGET (t # signature_component b) =
      ([str_join nl (keep_first SYSTEM_PROMPT_BUDGET [] (str_split CHR 0x0A t)) @ nl @ ''... (truncated)''], 0)"
    using cut assms(3) by simp
  then show ?thesis
    using assms(3) unfolding assemble_system_prompt_def Let_def comp by (simp add: add_optional_empty)
qed
definition long_prompt :: "nat \<Rightarrow> string" where
  "long_prompt n = concat (replicate n (''a'' @ nl)) @ ''a''"

lemma long_prompt_facts:
  "word_count False (long_prompt n) = Suc n" "str_strip (long_prompt n) = long_prompt n"
  "hd (str_split CHR 0x0A (long_prompt n)) = ''a''"
proof -
  have a: "\<not> is_space (CHR ''a'')" by (simp add: is_space_def)
  show "word_count False (long_prompt n) = Suc n"
    by (induction n) (simp_all add: long_prompt_def nl_def a)
  show "str_strip (long_prompt n) = long_prompt n"
    by (cases n) (simp_all add: long_prompt_def nl_def str_strip_def str_lstrip_def str_rstrip_def a)
  show "hd (str_split CHR 0x0A (long_prompt n)) = ''a''"
    by (cases n) (simp_all add: long_prompt_def nl_def)
qed

theorem long_prompt_drops_signature_witness:
  "assemble_system_prompt (with_session_signature ''https://x'' (with_system_prompt (Some (long_prompt 9300)) sample_builder)) =
    Some (str_join nl (keep_first SYSTEM_PROMPT_BUDGET [] (str_split CHR 0x0A (long_prompt 9300))) @ nl @ ''... (truncated)'')"
  by (rule long_prompt_drops_signature)
    (simp_all add: with_session_signature_def with_system_prompt_def long_prompt_facts estimate_tokens_def SYSTEM_PROMPT_BUDGET_def,
     simp add: long_prompt_def)

section \<open>Jobs after a session\<close>

text \<open>Two attempts to push a payload, with a pause in between; building the payload may itself raise.\<close>

definition enqueue_twice :: "'s env \<Rightarrow> (real \<Rightarrow> ('s, unit) io) \<Rightarrow> string \<Rightarrow> json result \<Rightarrow> ('s, unit) io" where
  "enqueue_twice E sleep queue payload =
     (let push = io_bind (io_of_result payload) (\<lambda>p. io_then (x_rpush E queue (x_dumps E p)) (io_ret ())) in
      io_try push (\<lambda>e. io_then (sleep 1) (io_try push (\<lambda>e. io_ret ()))))"

definition enqueue_memory_job ::
  "'s env \<Rightarrow> (real \<Rightarrow> ('s, unit) io) \<Rightarrow> json \<Rightarrow> json \<Rightarrow> json \<Rightarrow> json \<Rightarrow> json \<Rightarrow> ('s, unit) io" where
  "enqueue_memory_job E sleep repo transcript_path hook_event claude_md memory_index =
     enqueue_twice E sleep ''agent:memory:requests'' (Inr (JObj [(''repo'', repo), (''transcript_path'', transcript_path),
       (''hook_event'', hook_event), (''claude_md'', claude_md), (''memory_index'', memory_index)]))"

definition enqueue_retrospector_job ::
  "'s env \<Rightarrow> (real \<Rightarrow> ('s, unit) io) \<Rightarrow> json \<Rightarrow> json \<Rightarrow> json \<Rightarrow> json \<Rightarrow> json \<Rightarrow> ('s, unit) io" where
  "enqueue_retrospector_job E sleep repo transcript_path hook_event workflow_name session_meta =
     enqueue_twice E sleep ''agent:retrospector:requests'' (Inr (JObj [(''repo'', repo), (''transcript_path'', transcript_path),
       (''hook_event'', hook_event), (''workflow_name'', workflow_name), (''session_meta'', session_meta)]))"

definition indexing_payload :: "json \<Rightarrow> json \<Rightarrow> json \<Rightarrow> json result" where
  "indexing_payload repo hook_event ref =
     (case hook_event of
        JStr event \<Rightarrow> Inr (JObj [(''repo'', repo), (''ref'', py_or ref (JStr ''main'')), (''trigger'', JStr (''job_'' @ str_lower event))])
      | _ \<Rightarrow> Inl (Exn AttributeError ''lower''))"

definition enqueue_indexing_job :: "'s env \<Rightarrow> (real \<Rightarrow> ('s, unit) io) \<Rightarrow> json \<Rightarrow> json \<Rightarrow> json \<Rightarrow> ('s, unit) io" where
  "enqueue_indexing_job E sleep repo hook_event ref =
     enqueue_twice E sleep ''agent:indexing:requests'' (indexing_payload repo hook_event ref)"

definition job_item :: "json dict \<Rightarrow> string \<Rightarrow> json result" where
  "job_item job k = (case dict_get job k of Some v \<Rightarrow> Inr v | None \<Rightarrow> Inl (Exn KeyError k))"

text \<open>
  The dictionary of the jobs seen, keyed by transcript, event and type: a later job takes the
  place of an earlier one with the same key.
\<close>

type_synonym post_key = "json \<times> json \<times> json"

definition post_key_of :: "json dict \<Rightarrow> post_key result" where
  "post_key_of job = res_bind (job_item job ''type'') (\<lambda>t.
     Inr (opt_default (JStr []) (dict_get job ''transcript_path''), opt_default JNull (dict_get job ''event''), t))"

fun dedup_jobs :: "(post_key \<times> json dict) list \<Rightarrow> json dict list \<Rightarrow> (post_key \<times> json dict) list result" where
  "dedup_jobs seen [] = Inr seen"
| "dedup_jobs seen (job # jobs) = res_bind (post_key_of job) (\<lambda>k. dedup_jobs (AList.update k job seen) jobs)"

definition flush_one :: "'s env \<Rightarrow> (real \<Rightarrow> ('s, unit) io) \<Rightarrow> json dict \<Rightarrow> ('s, unit) io" where
  "flush_one E sleep job =
     io_try
       (io_bind (io_of_result (job_item job ''type'')) (\<lambda>t.
          if t = JStr ''memory'' then
            io_bind (io_of_result (job_item job ''repo'')) (\<lambda>repo.
            io_bind (io_of_result (job_item job ''transcript_path'')) (\<lambda>path.
            io_bind (io_of_result (job_item job ''event'')) (\<lambda>event.
              enqueue_memory_job E sleep repo path event (opt_default JNull (dict_get job ''claude_md''))
                (opt_default JNull (dict_get job ''memory_index'')))))
          else if t = JStr ''retrospector'' then
            io_bind (io_of_result (job_item job ''repo'')) (\<lambda>repo.
            io_bind (io_of_result (job_item job ''transcript_path'')) (\<lambda>path.
            io_bind (io_of_result (job_item job ''event'')) (\<lambda>event.
              enqueue_retrospector_job E sleep repo path event (opt_default JNull (dict_get job ''workflow_name''))
                (opt_default (JObj []) (dict_get job ''session_meta'')))))
          else if t = JStr ''indexing'' then
            io_bind (io_of_result (job_item job ''repo'')) (\<lambda>repo.
            io_bind (io_of_result (job_item job ''event'')) (\<lambda>event.
              enqueue_indexing_job E sleep repo event (opt_default JNull (dict_get job ''ref''))))
          else io_ret ()))
       (\<lambda>e. io_ret ())"

definition flush_post_jobs :: "'s env \<Rightarrow> (real \<Rightarrow> ('s, unit) io) \<Rightarrow> json dict list \<Rightarrow> ('s, unit) io" where
  "flush_post_jobs E sleep jobs =
     (if jobs = [] then io_ret ()
      else io_bind (io_of_result (dedup_jobs [] jobs)) (\<lambda>seen.
        io_fold (\<lambda>_ job. flush_one E sleep job) () (map snd seen)))"

definition flush_pending_post_jobs :: "'s env \<Rightarrow> (real \<Rightarrow> ('s, unit) io) \<Rightarrow> sdk_builder \<Rightarrow> ('s, sdk_builder) io" where
  "flush_pending_post_jobs E sleep b =
     io_then (flush_post_jobs E sleep (sb_pending_post_jobs b)) (io_ret (b\<lparr>sb_pending_post_jobs := []\<rparr>))"

section \<open>Running a session\<close>

abbreviation SDKError :: exc_class where "SDKError \<equiv> OtherException ''SDKError''"
abbreviation SDKTimeoutError :: exc_class where "SDKTimeoutError \<equiv> OtherException ''SDKTimeoutError''"

record sdk_result =
  sr_response :: string
  sr_session_id :: json
  sr_num_turns :: json
  sr_duration_ms :: json
  sr_is_error :: json

text \<open>A text block is the block whose only attribute is its text.\<close>

fun text_of_block :: "content_block \<Rightarrow> string list" where
  "text_of_block (Block [(k, Plain (JStr t))]) = (if k = ''text'' then [t] else [])"
| "text_of_block _ = []"

text \<open>
  The messages of a session up to and including its result; \<open>publish\<close> passes each of them to the
  streaming bridge, if there is one. The second component says whether the result was seen.
\<close>

fun receive_messages ::
  "(sdk_message \<Rightarrow> ('s, unit) io) \<Rightarrow> sdk_result \<Rightarrow> string list \<Rightarrow> sdk_message list \<Rightarrow> ('s, (sdk_result \<times> string list) \<times> bool) io" where
  "receive_messages publish info parts [] = io_ret ((info, parts), False)"
| "receive_messages publish info parts (m # ms) =
     io_then (publish m)
       (case m of
          AssistantMessage blocks \<Rightarrow> receive_messages publish info (parts @ concat (map text_of_block blocks)) ms
        | ResultMessage num_turns duration_ms is_error session_id subtype \<Rightarrow>
            io_ret ((info\<lparr>sr_num_turns := num_turns, sr_duration_ms := duration_ms, sr_is_error := is_error,
              sr_session_id := session_id\<rparr>, parts), True)
        | _ \<Rightarrow> receive_messages publish info parts ms)"

definition no_result :: sdk_result where
  "no_result = \<lparr>sr_response = [], sr_session_id = JNull, sr_num_turns = JInt 0, sr_duration_ms = JInt 0, sr_is_error = JBool False\<rparr>"

text \<open>
  \<open>_execute_sdk_once\<close> with \<open>collect_text\<close>. \<open>session\<close> is the client: the messages it delivers, and
  what ends the stream early.
\<close>

definition execute_sdk_once ::
  "('s, sdk_message list \<times> exn option) io \<Rightarrow> (sdk_message \<Rightarrow> ('s, unit) io) \<Rightarrow> int \<Rightarrow> ('s, sdk_result) io" where
  "execute_sdk_once session publish sdk_timeout =
     io_bind
       (io_try
         (io_bind session (\<lambda>(messages, fault).
          io_bind (receive_messages publish no_result [] messages) (\<lambda>(received, finished).
            case fault of
              Some e \<Rightarrow> if finished then io_ret received else io_raise e
            | None \<Rightarrow> io_ret received)))
         (\<lambda>e. if exc_isinstance e TimeoutError
              then io_raise (Exn SDKTimeoutError (''SDK execution timed out after '' @ show_int sdk_timeout @ ''s''))
              else io_raise (Exn SDKError (''SDK execution failed: '' @ exc_msg e))))
       (\<lambda>(info, parts).
          if str_strip (str_join nl parts) = [] then io_raise (Exn SDKError ''SDK returned empty response'')
          else io_ret (info\<lparr>sr_response := str_join nl parts\<rparr>))"

text \<open>The attempts that are left, numbered from \<open>attempt\<close>; the list holds the ones after this one.\<close>

fun sdk_attempts :: "('s, 'a) io \<Rightarrow> (real \<Rightarrow> ('s, unit) io) \<Rightarrow> real \<Rightarrow> nat list \<Rightarrow> exn option \<Rightarrow> ('s, 'a) io" where
  "sdk_attempts once sleep delay0 [] last_error =
     io_raise (case last_error of Some e \<Rightarrow> e | None \<Rightarrow> Exn RuntimeError ''SDK execution failed without capturing an error'')"
| "sdk_attempts once sleep delay0 (attempt # rest) last_error =
     (\<lambda>s. case once s of
        (Inr x, s') \<Rightarrow> (Inr x, s')
      | (Inl e, s') \<Rightarrow>
          if exc_cls e = SDKTimeoutError \<or> \<not> is_transient_error e then (Inl e, s')
          else io_then (if rest \<noteq> [] then sleep (delay0 * 3 ^ attempt) else io_ret ())
                 (sdk_attempts once sleep delay0 rest (Some e)) s')"

definition execute_sdk ::
  "('s, sdk_message list \<times> exn option) io \<Rightarrow> (sdk_message \<Rightarrow> ('s, unit) io) \<Rightarrow> (real \<Rightarrow> ('s, unit) io) \<Rightarrow> int \<Rightarrow> nat \<Rightarrow> real \<Rightarrow>
   ('s, sdk_result) io" where
  "execute_sdk session publish sleep sdk_timeout max_retries retry_base_delay =
     sdk_attempts (execute_sdk_once session publish sdk_timeout) sleep retry_base_delay [0..<max_retries] None"
section \<open>Each buffered job is enqueued once\<close>

text \<open>The queue and the payload of a job as the hooks buffer it.\<close>

definition post_payload :: "json dict \<Rightarrow> (string \<times> json) option" where
  "post_payload job =
     (case (dict_get job ''type'', dict_get job ''repo'', dict_get job ''event'', dict_get job ''transcript_path'') of
        (Some (JStr t), Some repo, Some (JStr event), path) \<Rightarrow>
          if t = ''memory'' then map_option (\<lambda>p. (''agent:memory:requests'', JObj [(''repo'', repo), (''transcript_path'', p),
            (''hook_event'', JStr event), (''claude_md'', opt_default JNull (dict_get job ''claude_md'')),
            (''memory_index'', opt_default JNull (dict_get job ''memory_index''))])) path
          else if t = ''retrospector'' then map_option (\<lambda>p. (''agent:retrospector:requests'', JObj [(''repo'', repo),
            (''transcript_path'', p), (''hook_event'', JStr event), (''workflow_name'', opt_default JNull (dict_get job ''workflow_name'')),
            (''session_meta'', opt_default (JObj []) (dict_get job ''session_meta''))])) path
          else if t = ''indexing'' then Some (''agent:indexing:requests'', JObj [(''repo'', repo),
            (''ref'', py_or (opt_default JNull (dict_get job ''ref'')) (JStr ''main'')), (''trigger'', JStr (''job_'' @ str_lower event))])
          else None
      | _ \<Rightarrow> None)"

definition post_queues :: "string set" where
  "post_queues = {''agent:memory:requests'', ''agent:retrospector:requests'', ''agent:indexing:requests''}"

definition job_key :: "json dict \<Rightarrow> post_key" where
  "job_key job = (opt_default (JStr []) (dict_get job ''transcript_path''), opt_default JNull (dict_get job ''event''),
     opt_default JNull (dict_get job ''type''))"

lemma post_payload_key: "post_payload job \<noteq> None \<Longrightarrow> post_key_of job = Inr (job_key job)"
  by (auto simp: post_payload_def post_key_of_def job_item_def job_key_def split: option.splits json.splits if_splits)

lemma post_payload_queue: "post_payload job = Some (q, p) \<Longrightarrow> q \<in> post_queues"
  by (auto simp: post_payload_def post_queues_def split: option.splits json.splits if_splits)

lemma bind_of_Inr: "io_bind (io_of_result (Inr x)) f = f x"
  by (simp add: fun_eq_iff io_bind_run io_of_result_run)

lemma flush_one_eq:
  assumes "post_payload job = Some (q, p)"
  shows "flush_one E sleep job = io_try (enqueue_twice E sleep q (Inr p)) (\<lambda>e. io_ret ())"
proof -
  obtain t repo event where "dict_get job ''type'' = Some (JStr t)" "dict_get job ''repo'' = Some repo"
    "dict_get job ''event'' = Some (JStr event)"
    using assms by (auto simp: post_payload_def split: option.splits json.splits)
  then show ?thesis using assms
    by (auto simp: bind_of_Inr post_payload_def flush_one_def job_item_def enqueue_memory_job_def enqueue_retrospector_job_def
        enqueue_indexing_job_def indexing_payload_def split: if_splits)
qed

text \<open>Deduplication: one entry per key, holding the last job with that key.\<close>

lemma dedup_jobs_spec:
  assumes "\<forall>job \<in> set jobs. post_payload job \<noteq> None" "distinct (map fst seen)"
  shows "\<exists>d. dedup_jobs seen jobs = Inr d \<and> distinct (map fst d) \<and>
    map_of d = map_of seen ++ map_of (rev (map (\<lambda>job. (job_key job, job)) jobs)) \<and>
    snd ` set d \<subseteq> snd ` set seen \<union> set jobs"
  using assms
proof (induction jobs arbitrary: seen)
  case (Cons job jobs)
  let ?seen = "AList.update (job_key job) job seen"
  from Cons.prems have key: "post_key_of job = Inr (job_key job)" by (simp add: post_payload_key)
  have "distinct (map fst ?seen)" using Cons.prems(2) by (rule AList.distinct_update)
  moreover have "\<forall>job \<in> set jobs. post_payload job \<noteq> None" using Cons.prems(1) by simp
  ultimately obtain d where d: "dedup_jobs ?seen jobs = Inr d" "distinct (map fst d)"
    "map_of d = map_of ?seen ++ map_of (rev (map (\<lambda>job. (job_key job, job)) jobs))" "snd ` set d \<subseteq> snd ` set ?seen \<union> set jobs"
    using Cons.IH [of ?seen] by blast
  have "snd ` set ?seen \<subseteq> insert job (snd ` set seen)"
    by (induction seen) auto
  with d(4) have jobs: "snd ` set d \<subseteq> insert job (snd ` set seen) \<union> set jobs" by blast
  have "map_of ?seen ++ m = map_of seen ++ ([job_key job \<mapsto> job] ++ m)" for m
    by (simp add: AList.update_conv' map_add_upd_left)
  with d(3) have "map_of d = map_of seen ++ map_of (rev (map (\<lambda>job. (job_key job, job)) (job # jobs)))" by simp
  with d(1,2) key jobs show ?case by simp
qed simp

lemma enqueue_run:
  assumes "as_list (rlook st q) = Some xs"
  shows "io_try (enqueue_twice (spec_env d l ord) sleep q (Inr p)) (\<lambda>e. io_ret ()) st =
    (Inr (), rstore q (RList (xs @ [d p])) st)"
  using assms by (simp add: enqueue_twice_def Let_def io_simps redis_simps redis_commands)

lemma flush_run:
  assumes "\<forall>job \<in> set jobs. post_payload job \<noteq> None" "\<forall>q \<in> post_queues. rlist_ok st q"
  shows "\<exists>st'. io_fold (\<lambda>_ job. flush_one (spec_env d l ord) sleep job) () jobs st = (Inr (), st') \<and>
    (\<forall>q \<in> post_queues. rlist_ok st' q \<and> rlist st' q =
      rlist st q @ map (\<lambda>job. d (snd (the (post_payload job)))) (filter (\<lambda>job. fst (the (post_payload job)) = q) jobs))"
  using assms
proof (induction jobs arbitrary: st)
  case Nil
  then show ?case by (simp add: io_simps)
next
  case (Cons job jobs)
  obtain q p where p: "post_payload job = Some (q, p)" using Cons.prems(1) by auto
  then have q: "q \<in> post_queues" by (rule post_payload_queue)
  then obtain xs where xs: "as_list (rlook st q) = Some xs" using Cons.prems(2) by (auto simp: rlist_ok_def)
  let ?st = "rstore q (RList (xs @ [d p])) st"
  have step: "flush_one (spec_env d l ord) sleep job st = (Inr (), ?st)"
    unfolding flush_one_eq [OF p] by (rule enqueue_run [OF xs])
  have "rlist_ok ?st q' \<and> rlist ?st q' = rlist st q' @ (if q' = q then [d p] else [])" if "q' \<in> post_queues" for q'
    using that Cons.prems(2) xs by (simp add: rlist_ok_def rlist_def redis_simps)
  with Cons.IH [of ?st] Cons.prems(1) step p show ?case
    by (fastforce simp: io_bind_run)
qed
context redis_server
begin

lemma flush_one_sim:
  assumes "\<And>d. sim view healthy (sleep d) (io_ret ())"
  shows "sim view healthy (flush_one E sleep job) (flush_one (model_env E ord) (\<lambda>d. io_ret ()) job)"
  unfolding flush_one_def enqueue_memory_job_def enqueue_retrospector_job_def enqueue_indexing_job_def enqueue_twice_def
    Let_def model_env_codec
  by (intro sim_intros assms)

lemma flush_once:
  assumes "healthy s" "\<And>d. sim view healthy (sleep d) (io_ret ())"
    and "\<forall>job \<in> set jobs. post_payload job \<noteq> None" "\<forall>q \<in> post_queues. rlist_ok (view s) q"
  shows "\<exists>s' seen. flush_post_jobs E sleep jobs s = (Inr (), s') \<and> distinct (map fst seen) \<and>
    map_of seen = map_of (rev (map (\<lambda>job. (job_key job, job)) jobs)) \<and>
    (\<forall>q \<in> post_queues. rlist (view s') q = rlist (view s) q @
      map (\<lambda>job. x_dumps E (snd (the (post_payload job)))) (filter (\<lambda>job. fst (the (post_payload job)) = q) (map snd seen)))"
proof -
  obtain seen where seen: "dedup_jobs [] jobs = Inr seen" "distinct (map fst seen)"
    "map_of seen = map_of (rev (map (\<lambda>job. (job_key job, job)) jobs))" "snd ` set seen \<subseteq> set jobs"
    using dedup_jobs_spec [OF assms(3), of "[]"] by auto
  then have ok: "\<forall>job \<in> set (map snd seen). post_payload job \<noteq> None" using assms(3) by auto
  let ?fold = "\<lambda>E sl. io_fold (\<lambda>_ job. flush_one E sl job) () (map snd seen)"
  have sim: "sim view healthy (?fold E sleep) (?fold (model_env E ord) (\<lambda>d. io_ret ()))"
    by (intro sim_fold flush_one_sim assms(2))
  obtain st' where st': "?fold (spec_env (x_dumps E) (x_loads E) ord) (\<lambda>d. io_ret ()) (view s) = (Inr (), st')"
      "\<forall>q \<in> post_queues. rlist_ok st' q \<and> rlist st' q = rlist (view s) q @
        map (\<lambda>job. x_dumps E (snd (the (post_payload job)))) (filter (\<lambda>job. fst (the (post_payload job)) = q) (map snd seen))"
    using flush_run [OF ok assms(4)] by blast
  obtain s' where s': "?fold E sleep s = (Inr (), s')" "view s' = st'"
    using sim_run [OF sim assms(1), unfolded model_env_def, OF st'(1)] by blast
  have "flush_post_jobs E sleep jobs s = (Inr (), s')" if "jobs \<noteq> []"
    using that s'(1) seen(1) by (simp add: flush_post_jobs_def bind_of_Inr)
  moreover have "flush_post_jobs E sleep jobs s = (Inr (), s)" "seen = []" if "jobs = []"
    using that seen(1) by (simp_all add: flush_post_jobs_def io_ret_run)
  ultimately show ?thesis using seen(2,3) st'(2) s'(2) by (cases "jobs = []") fastforce+
qed

end

text \<open>
  Flushing the jobs that the hooks buffered during a session pushes, for every combination of
  transcript, event and type, the last job buffered and no other one, each on the queue of its
  type behind what is there.
\<close>

theorem post_jobs_enqueued_once:
  assumes "redis_server E view healthy ord" "healthy s" "\<forall>d. sim view healthy (sleep d) (io_ret ())"
    and "\<forall>job \<in> set jobs. post_payload job \<noteq> None" "\<forall>q \<in> post_queues. rlist_ok (view s) q"
  shows "\<exists>s' seen. flush_post_jobs E sleep jobs s = (Inr (), s') \<and> distinct (map fst seen) \<and>
    map_of seen = map_of (rev (map (\<lambda>job. (job_key job, job)) jobs)) \<and>
    (\<forall>q \<in> post_queues. rlist (view s') q = rlist (view s) q @
      map (\<lambda>job. x_dumps E (snd (the (post_payload job)))) (filter (\<lambda>job. fst (the (post_payload job)) = q) (map snd seen)))"
  using redis_server.flush_once [OF assms(1,2) _ assms(4,5)] assms(3) by blast

definition sample_capture :: capture where
  "sample_capture = \<lparr>cp_repo = ''o/r'', cp_workflow_name = JStr ''review'', cp_ref = JStr ''main'', cp_context = [],
     cp_memory = True, cp_retrospector = False, cp_indexing = False\<rparr>"

definition sample_pending :: "json dict list" where
  "sample_pending = fst (capture_and_buffer sample_capture [(''transcript_path'', JStr ''/t'')]
     (fst (capture_and_buffer sample_capture [(''transcript_path'', JStr ''/t'')] [])))"

theorem post_jobs_enqueued_once_witness:
  "length sample_pending = 2 \<and>
   (\<exists>s' seen. flush_post_jobs flaky_env (\<lambda>d. io_ret ()) sample_pending sample_world = (Inr (), s') \<and> distinct (map fst seen) \<and>
    map_of seen = map_of (rev (map (\<lambda>job. (job_key job, job)) sample_pending)))"
proof -
  have "\<forall>job \<in> set sample_pending. post_payload job \<noteq> None" "length sample_pending = 2"
    by (simp_all add: sample_pending_def capture_and_buffer_def sample_capture_def hook_field_def transcript_path_of_def py_or_def
        post_payload_def Let_def)
  moreover have "sim fk_state (\<lambda>w. fk_fault w = None) (io_ret ()) (io_ret ())" by (simp add: sim_def io_simps)
  ultimately show ?thesis
    using post_jobs_enqueued_once [OF flaky.redis_server_axioms, of sample_world "\<lambda>d. io_ret ()" sample_pending]
    by (auto simp: rlist_ok_def)
qed

text \<open>
  The hook that buffers memory jobs captures the repository context before the builder has one:
  the context is set on a new dictionary, so the job carries none.
\<close>

lemma staged_context_is_empty:
  "sb_hooks (with_repository_context md mem (with_transcript_staging S repo w ref (new_builder S cwd))) =
   (if se_memory S \<or> se_retrospector S then
      [(''Stop'', [CaptureHook \<lparr>cp_repo = repo, cp_workflow_name = w, cp_ref = ref, cp_context = [], cp_memory = se_memory S,
          cp_retrospector = se_retrospector S, cp_indexing = se_indexing S\<rparr>]),
       (''SubagentStop'', [CaptureHook \<lparr>cp_repo = repo, cp_workflow_name = w, cp_ref = ref, cp_context = [], cp_memory = se_memory S,
          cp_retrospector = se_retrospector S, cp_indexing = se_indexing S\<rparr>])]
    else [])"
  by (simp add: with_repository_context_def with_transcript_staging_def new_builder_def add_hook_def Let_def)

section \<open>A session that returns has said something\<close>

lemma execute_sdk_nonempty:
  assumes "execute_sdk session publish sleep t n d s = (Inr r, s')"
  shows "str_strip (sr_response r) \<noteq> []"
proof -
  have once: "str_strip (sr_response r) \<noteq> []" if "execute_sdk_once session publish t s = (Inr r, s')" for s r s'
    using that by (auto simp: execute_sdk_once_def io_bind_run io_ret_run io_raise_run split: prod.splits sum.splits if_splits)
  have "str_strip (sr_response r) \<noteq> []"
    if "sdk_attempts (execute_sdk_once session publish t) sleep d ks e s = (Inr r, s')" for ks e s
    using that
  proof (induction ks arbitrary: e s)
    case Nil
    then show ?case by (simp add: io_raise_run)
  next
    case (Cons k ks)
    show ?case
    proof (cases "execute_sdk_once session publish t s")
      case (Pair a s1)
      with Cons once show ?thesis
        by (cases a) (auto simp: io_then_run io_raise_run split: if_splits prod.splits sum.splits)
    qed
  qed
  then show ?thesis using assms by (simp add: execute_sdk_def)
qed

end
