(* ===== verification/Sandbox_Processor.thy ===== *)
theory Sandbox_Processor
  imports Sdk_Options Worktree_Lock Worktree_Cleanup Agent_Worker
begin

text \<open>
  \<^verbatim>\<open>services/sandbox_executor/processor.py\<close> and \<^verbatim>\<open>utils.py\<close>: the job processor, which
  takes a job from its worktree to a recorded outcome. The processor object is part of the state,
  so that an exception does not undo what the methods stored in it. The file system, subprocesses,
  the agent client, repository set-up, the structural context and the thread history are fields of
  the record \<open>'s sandbox\<close>; so are the messages that arrive while a function waits, and what ends a
  run of the agent. The fields of the job are what the request processor writes.
\<close>

section \<open>The processor object\<close>

abbreviation WorktreeCreationError :: exc_class where "WorktreeCreationError \<equiv> OtherException ''WorktreeCreationError''"

definition MAX_AUTO_CONTINUES :: nat where "MAX_AUTO_CONTINUES = 10"
definition FALLBACK_CONVERSATION_TTL_HOURS :: int where "FALLBACK_CONVERSATION_TTL_HOURS = 720"
definition SDK_MAX_RETRIES :: nat where "SDK_MAX_RETRIES = 3"
definition SDK_RETRY_BASE_DELAY :: real where "SDK_RETRY_BASE_DELAY = 5"

text \<open>
  How a run of the agent ends: by itself (the flags say whether the cancel signal of another job
  and the user's request to stop came all the same, too late), because of the cancel signal (the
  flag says whether the user has asked to stop as well), or because the user asked to stop. A run
  that is cut short has delivered some messages.
\<close>

datatype run_end =
    Completed bool bool
  | Superseded "sdk_message list" bool
  | UserStop "sdk_message list"

record 's sandbox =
  sx_redis :: "'s env"
  sx_queue :: job_queue
  sx_host :: "'s host"
  sx_exec_in :: "string \<Rightarrow> string list \<Rightarrow> ('s, int option \<times> string \<times> string) io"
  sx_auth :: "string \<Rightarrow> 's auth_env"
  sx_path_exists :: "string \<Rightarrow> bool"
  sx_sync_publish :: "json \<Rightarrow> ('s, unit) io"
  sx_pubsub :: "'s pubsub"
  sx_sync_timeout :: int
  sx_sync_start :: real
  sx_sync_arrivals :: "(real \<times> channel_message) list"
  sx_sync_ended :: bool
  sx_index_configured :: bool
  sx_index_timeout :: int
  sx_index_start :: real
  sx_index_arrivals :: "(real \<times> channel_message) list"
  sx_index_ended :: bool
  sx_now :: string
  sx_time :: string
  sx_pid :: int
  sx_sleep :: "real \<Rightarrow> ('s, unit) io"
  sx_parse_int :: "string \<Rightarrow> int option"
  sx_mkdtemp :: "string \<Rightarrow> string \<Rightarrow> ('s, string) io"
  sx_write_file :: "string \<Rightarrow> string \<Rightarrow> ('s, unit) io"
  sx_remove_file :: "string \<Rightarrow> ('s, unit) io"
  sx_bot_username :: string
  sx_bot_email :: string
  sx_getenv_token :: "('s, json) io"
  sx_setenv_token :: "string \<Rightarrow> ('s, unit) io"
  sx_delenv_token :: "('s, unit) io"
  sx_repo_setup :: "string \<Rightarrow> string \<Rightarrow> ('s, unit) io"
  sx_http_get :: "string \<Rightarrow> string \<Rightarrow> ('s, nat \<times> json option) io"
  sx_focus_files :: "string \<Rightarrow> json \<Rightarrow> ('s, string list) io"
  sx_structural_context :: "string \<Rightarrow> string \<Rightarrow> json list \<Rightarrow> json \<Rightarrow> json \<Rightarrow> ('s, string) io"
  sx_thread_config :: "json \<Rightarrow> bool result"
  sx_thread_history :: "string \<Rightarrow> json \<Rightarrow> json \<Rightarrow> string \<Rightarrow> json \<Rightarrow> ('s, string) io"
  sx_write_mcp_json :: "string \<Rightarrow> string \<Rightarrow> ('s, unit) io"
  sx_settings :: sdk_settings
  sx_agents :: json
  sx_model :: string
  sx_proxy_url :: string
  sx_sdk_timeout :: int
  sx_client :: "json \<Rightarrow> sdk_builder \<Rightarrow> ('s, sdk_message list \<times> exn option) io"
  sx_hook_inputs :: "nat \<Rightarrow> json dict list"
  sx_run_end :: "nat \<Rightarrow> ('s, run_end) io"
  sx_control_stop :: "('s, unit) io"

record processor =
  pr_job_id :: string
  pr_job_data :: "json dict"
  pr_workspace :: string
  pr_repo_dir :: string
  pr_builder :: "sdk_builder option"
  pr_persist :: bool
  pr_session_mode :: string
  pr_session_id :: "string option"
  pr_lock :: "worktree_lock option"
  pr_bridge :: "string option"
  pr_control :: bool
  pr_listening :: bool
  pr_repo :: string
  pr_issue_number :: json
  pr_ref :: string
  pr_thread_type :: string
  pr_thread_id :: string
  pr_workflow_name :: string
  pr_file_tree :: string
  pr_thread_history :: string
  pr_parent_span_id :: "string option"

definition data_field :: "json dict \<Rightarrow> string \<Rightarrow> json \<Rightarrow> json" where
  "data_field d k dflt = opt_default dflt (dict_get d k)"

text \<open>A field that holds a string or \<open>None\<close>.\<close>

definition text_option :: "json \<Rightarrow> string option" where
  "text_option j = (case j of JNull \<Rightarrow> None | _ \<Rightarrow> Some (py_str j))"

definition new_processor :: "string \<Rightarrow> json dict \<Rightarrow> processor" where
  "new_processor job_id d = \<lparr>pr_job_id = job_id, pr_job_data = d, pr_workspace = [], pr_repo_dir = [], pr_builder = None,
     pr_persist = False, pr_session_mode = py_str (py_or (data_field d ''session_mode'' JNull) (JStr ''new'')),
     pr_session_id = text_option (data_field d ''session_id'' JNull), pr_lock = None, pr_bridge = None, pr_control = False, pr_listening = False,
     pr_repo = py_str (data_field d ''repo'' (JStr ''unknown'')), pr_issue_number = data_field d ''issue_number'' (JInt 0),
     pr_ref = py_str (data_field d ''ref'' (JStr ''main'')), pr_thread_type = py_str (data_field d ''thread_type'' (JStr ''issue'')),
     pr_thread_id = py_str (data_field d ''issue_number'' (JInt 0)),
     pr_workflow_name = py_str (py_or (data_field d ''workflow_name'' JNull) (JStr ''generic'')),
     pr_file_tree = [], pr_thread_history = [], pr_parent_span_id = text_option (data_field d ''parent_span_id'' JNull)\<rparr>"

text \<open>Methods run on the world and the processor together.\<close>

type_synonym ('s, 'a) pio = "('s \<times> processor, 'a) io"

definition outside :: "('s, 'a) io \<Rightarrow> ('s, 'a) pio" where
  "outside m = (\<lambda>(s, p). case m s of (r, s') \<Rightarrow> (r, (s', p)))"

definition self :: "('s, processor) pio" where
  "self = (\<lambda>(s, p). (Inr p, (s, p)))"

definition modify :: "(processor \<Rightarrow> processor) \<Rightarrow> ('s, unit) pio" where
  "modify f = (\<lambda>(s, p). (Inr (), (s, f p)))"

text \<open>\<open>try: m except Exception: log\<close>\<close>

definition attempt :: "('s, unit) io \<Rightarrow> ('s, unit) io" where
  "attempt m = io_try m (\<lambda>e. io_ret ())"

definition job_field :: "string \<Rightarrow> json \<Rightarrow> ('s, json) pio" where
  "job_field k dflt = io_bind self (\<lambda>p. io_ret (data_field (pr_job_data p) k dflt))"

definition job_entry :: "string \<Rightarrow> ('s, json) pio" where
  "job_entry k = io_bind self (\<lambda>p. io_of_result (json_item (JObj (pr_job_data p)) k))"

definition set_job_field :: "string \<Rightarrow> json \<Rightarrow> ('s, unit) pio" where
  "set_job_field k v = modify (\<lambda>p. p\<lparr>pr_job_data := dict_set k v (pr_job_data p)\<rparr>)"

text \<open>\<open>self.job_queue.complete_job\<close>\<close>

definition finish_job :: "'s sandbox \<Rightarrow> json dict \<Rightarrow> json dict \<Rightarrow> string \<Rightarrow> ('s, unit) pio" where
  "finish_job X pre post status =
     io_bind self (\<lambda>p. outside (complete_job (sx_redis X) (sx_queue X) (pr_job_id p)
       (JObj ([(''status'', JStr status)] @ pre @ [(''repo'', JStr (pr_repo p)), (''issue_number'', pr_issue_number p)] @ post)) status))"

section \<open>Worktree set-up\<close>

definition validate_job :: "'s sandbox \<Rightarrow> ('s, bool) pio" where
  "validate_job X =
     io_bind self (\<lambda>p.
       if validate_job_id (pr_job_id p) then io_ret True
       else io_then (attempt (finish_job X [(''error'', JStr (''Invalid job_id format: '' @ pr_job_id p))] [] ''error'')) (io_ret False))"

definition refresh_job_token :: "'s sandbox \<Rightarrow> ('s, unit) pio" where
  "refresh_job_token X =
     io_bind (job_field ''installation_id'' JNull) (\<lambda>inst.
       if py_truthy inst
       then attempt (io_bind (outside (get_token (sx_auth X (py_str inst)))) (\<lambda>token. set_job_field ''github_token'' (JStr token)))
       else io_ret ())"

definition processor_key :: "processor \<Rightarrow> worktree_key" where
  "processor_key p = \<lparr>wk_repo = pr_repo p, wk_thread_type = pr_thread_type p, wk_thread_id = pr_thread_id p,
     wk_workflow = pr_workflow_name p\<rparr>"

definition DEFAULT_LOCK_TTL :: int where "DEFAULT_LOCK_TTL = 600"

definition lock_try :: "'s sandbox \<Rightarrow> worktree_lock \<Rightarrow> ('s, bool) pio" where
  "lock_try X w =
     io_bind self (\<lambda>p.
     io_bind (outside (acquire (sx_redis X) (sx_sleep X) w (sx_pid X) (sx_now X) (pr_job_id p) 0 DEFAULT_LOCK_TTL)) (\<lambda>(acquired, w').
     io_then (modify (\<lambda>p. p\<lparr>pr_lock := Some w'\<rparr>)) (io_ret acquired)))"

text \<open>Resume the conversation that the waiting prompt interrupted.\<close>

definition take_pending :: "'s sandbox \<Rightarrow> worktree_lock \<Rightarrow> ('s, unit) pio" where
  "take_pending X w =
     io_bind (outside (get_pending_prompt (sx_redis X) w)) (\<lambda>pending. case pending of
         None \<Rightarrow> io_ret ()
       | Some pp \<Rightarrow>
           io_then (set_job_field ''prompt'' (pp_prompt pp))
           (io_bind self (\<lambda>p.
            io_bind (outside (get_session (sx_redis X) (sx_parse_int X) (pr_repo p) (pr_thread_type p) (pr_thread_id p)
                (pr_workflow_name p))) (\<lambda>existing. case existing of
                Some i \<Rightarrow>
                  if si_session_id i \<noteq> []
                  then modify (\<lambda>p. p\<lparr>pr_session_mode := ''resume'', pr_session_id := Some (si_session_id i)\<rparr>)
                  else modify (\<lambda>p. p\<lparr>pr_session_mode := ''new''\<rparr>)
              | None \<Rightarrow> modify (\<lambda>p. p\<lparr>pr_session_mode := ''new''\<rparr>)))))"

definition take_lock :: "'s sandbox \<Rightarrow> ('s, unit) pio" where
  "take_lock X =
     io_bind self (\<lambda>p.
       let w = \<lparr>wl_key = processor_key p, wl_acquired = False, wl_job_id = None\<rparr> in
       io_then (modify (\<lambda>p. p\<lparr>pr_lock := Some w\<rparr>))
       (io_bind (lock_try X w) (\<lambda>acquired.
          if acquired then io_ret ()
          else
            io_then (outside (get_lock_info (sx_redis X) w))
            (io_bind (job_field ''prompt'' (JStr [])) (\<lambda>prompt.
             io_then (outside (set_pending_prompt (sx_redis X) w (sx_now X) (pr_job_id p) (py_str prompt)))
            (io_then (outside (send_cancel_signal (sx_redis X) w))
            (io_bind (outside (wait_for_release (sx_redis X) (sx_sleep X) w 300)) (\<lambda>released.
               if \<not> released then io_raise (Exn WorktreeCreationError ''Timeout waiting for worktree lock'')
               else
                 io_bind (lock_try X w) (\<lambda>acquired.
                   if \<not> acquired then io_raise (Exn WorktreeCreationError ''Failed to acquire worktree lock'')
                   else take_pending X w)))))))))"

definition git :: "'s sandbox \<Rightarrow> string list \<Rightarrow> ('s, int \<times> string \<times> string) io" where
  "git X cmd = execute_git_command (sx_host X) cmd"

definition git_in :: "'s sandbox \<Rightarrow> string \<Rightarrow> string list \<Rightarrow> ('s, int \<times> string \<times> string) io" where
  "git_in X cwd cmd = execute_git_command ((sx_host X)\<lparr>ho_exec := sx_exec_in X cwd\<rparr>) cmd"

definition ephemeral_worktree :: "'s sandbox \<Rightarrow> ('s, unit) pio" where
  "ephemeral_worktree X =
     (let dir = ho_home (sx_host X) @ ''/.claude/worktrees/ephemeral'' in
      io_bind self (\<lambda>p.
      io_then (outside (ho_mkdir (sx_host X) dir))
      (io_bind (outside (sx_mkdtemp X (''job_'' @ take 8 (pr_job_id p) @ ''_'') dir)) (\<lambda>workspace.
       io_then (outside (ho_rmdir (sx_host X) workspace))
      (io_then (modify (\<lambda>p. p\<lparr>pr_workspace := workspace\<rparr>))
      (io_bind (outside (git X (worktree_add (pr_repo_dir p) workspace (resolve_worktree_ref (pr_ref p))))) (\<lambda>(code, out, err).
         if code = 0 then io_ret ()
         else
           io_bind (outside (detect_default_branch (sx_host X) (pr_repo_dir p))) (\<lambda>default_branch.
           io_bind (outside (git X (worktree_add (pr_repo_dir p) workspace default_branch))) (\<lambda>(code, out, err).
             if code \<noteq> 0 then io_raise (Exn WorktreeCreationError (''Failed to create worktree: '' @ err))
             else io_ret ())))))))))"

definition persistent_worktree :: "'s sandbox \<Rightarrow> ('s, unit) pio" where
  "persistent_worktree X =
     io_then (take_lock X)
     (io_bind self (\<lambda>p.
        let path = get_worktree_path (ho_home (sx_host X)) (pr_repo p) (pr_thread_type p) (pr_thread_id p) (pr_workflow_name p) in
        io_then (outside (reuse_or_create_worktree (sx_host X) (pr_repo_dir p) (pr_ref p) path (pr_session_mode p)))
          (modify (\<lambda>p. p\<lparr>pr_workspace := path\<rparr>))))"

text \<open>\<open>False\<close>: the repository sync has neither finished nor failed, and the job still waits for it.\<close>

definition setup_worktree :: "'s sandbox \<Rightarrow> ('s, bool) pio" where
  "setup_worktree X =
     io_then (refresh_job_token X)
     (io_bind self (\<lambda>p.
      io_bind (outside (wait_for_repo_sync (sx_redis X) (sx_path_exists X) (sx_sync_publish X) (sx_pubsub X) (pr_repo p) (pr_ref p)
          (sx_sync_timeout X) (sx_sync_start X) (sx_sync_arrivals X) (sx_sync_ended X))) (\<lambda>synced. case synced of
          None \<Rightarrow> io_ret False
        | Some dir \<Rightarrow>
            io_then (modify (\<lambda>p. p\<lparr>pr_repo_dir := dir\<rparr>))
            (io_then (attempt (outside (wait_for_indexing (sx_redis X) (sx_index_configured X) (sx_pubsub X) (pr_repo p) (pr_ref p)
                (sx_index_timeout X) (sx_index_start X) (sx_index_arrivals X) (sx_index_ended X))))
            (io_bind (job_field ''conversation_config'' JNull) (\<lambda>cc.
             io_bind (io_of_result (jget (py_or cc (JObj [])) ''persist'' (JBool False))) (\<lambda>persist.
             io_then (modify (\<lambda>p. p\<lparr>pr_persist := py_truthy persist\<rparr>))
             (io_then (if py_truthy persist then persistent_worktree X else ephemeral_worktree X) (io_ret True)))))))))"

section \<open>Credentials, set-up commands and context\<close>

definition is_safe_char :: "char \<Rightarrow> bool" where
  "is_safe_char c \<longleftrightarrow> CHR ''a'' \<le> c \<and> c \<le> CHR ''z'' \<or> CHR ''A'' \<le> c \<and> c \<le> CHR ''Z'' \<or> is_digit c \<or> is_space c \<or>
     c \<in> set ''.-[]@''"

definition is_safe_name :: "string \<Rightarrow> bool" where
  "is_safe_name s \<longleftrightarrow> s \<noteq> [] \<and> list_all is_safe_char s"

definition credentials_file :: "string \<Rightarrow> string" where
  "credentials_file workspace = workspace @ ''/.git-credentials''"

definition configure_git :: "'s sandbox \<Rightarrow> ('s, unit) pio" where
  "configure_git X =
     io_bind self (\<lambda>p.
       let ws = pr_workspace p; creds = credentials_file ws in
       io_bind (outside (git_in X ws [''git'', ''config'', ''credential.helper'', ''store --file='' @ creds])) (\<lambda>(code, out, err).
         if code \<noteq> 0 then io_raise (Exn WorktreeCreationError (''Failed to configure git credentials: '' @ err))
         else
           io_bind (job_entry ''github_token'') (\<lambda>token.
           io_then (outside (sx_write_file X creds (''https://x-access-token:'' @ py_str token @ ''@github.com'' @ nl)))
           (if \<not> is_safe_name (sx_bot_username X)
            then io_raise (Exn ValueError (''BOT_USERNAME contains invalid characters: '' @ repr_str (sx_bot_username X)))
            else if \<not> is_safe_name (sx_bot_email X)
            then io_raise (Exn ValueError (''BOT_USER_EMAIL contains invalid characters: '' @ repr_str (sx_bot_email X)))
            else
              io_then (outside (git_in X ws [''git'', ''config'', ''user.name'', sx_bot_username X]))
              (io_then (outside (git_in X ws [''git'', ''config'', ''user.email'', sx_bot_email X])) (io_ret ()))))))"

definition run_repo_setup :: "'s sandbox \<Rightarrow> ('s, unit) pio" where
  "run_repo_setup X = io_bind self (\<lambda>p. attempt (outside (sx_repo_setup X (pr_workspace p) (pr_repo p))))"

text \<open>The changed files of a pull request; anything that goes wrong gives none.\<close>

fun file_paths :: "json list \<Rightarrow> json list result" where
  "file_paths [] = Inr []"
| "file_paths (JObj d # fs) =
     res_bind (file_paths fs) (\<lambda>ps. Inr (case dict_get d ''path'' of Some j \<Rightarrow> j # ps | None \<Rightarrow> ps))"
| "file_paths (JStr s # fs) = (if str_contains ''path'' s then Inl (Exn TypeError ''indices'') else file_paths fs)"
| "file_paths (JArr xs # fs) = (if JStr ''path'' \<in> set xs then Inl (Exn TypeError ''indices'') else file_paths fs)"
| "file_paths (_ # fs) = Inl (Exn TypeError ''not iterable'')"

definition changed_files :: "'s sandbox \<Rightarrow> processor \<Rightarrow> ('s, json list) io" where
  "changed_files X p =
     (let token = data_field (pr_job_data p) ''github_token'' JNull in
      if py_truthy (pr_issue_number p) \<and> py_truthy token then
        io_try
          (io_bind (sx_http_get X (''https://api.github.com/repos/'' @ pr_repo p @ ''/pulls/'' @ py_str (pr_issue_number p) @ ''/files'')
              (py_str token)) (\<lambda>(status, body).
             if status \<noteq> 200 then io_ret []
             else (case body of
                 Some (JArr fs) \<Rightarrow> io_of_result (file_paths fs)
               | Some (JObj d) \<Rightarrow> io_of_result (file_paths (map (JStr \<circ> fst) d))
               | _ \<Rightarrow> io_raise (Exn TypeError ''not iterable''))))
          (\<lambda>e. io_ret [])
      else io_ret [])"

definition structural_text :: "'s sandbox \<Rightarrow> processor \<Rightarrow> ('s, string) io" where
  "structural_text X p =
     (let profile = data_field (pr_job_data p) ''context_profile'' (JObj []) in
      io_bind (if py_truthy profile then io_of_result (jget profile ''repomap_budget'' (JInt 4096)) else io_ret (JInt 4096)) (\<lambda>budget.
      io_bind (if py_truthy profile then io_of_result (jget profile ''include_test_files'' (JBool True)) else io_ret (JBool True)) (\<lambda>tests.
      io_bind (io_of_result (jget profile ''personalized'' (JBool False))) (\<lambda>personalized.
      io_bind
        (if py_truthy personalized then
           io_bind (changed_files X p) (\<lambda>mentioned.
           io_bind (io_of_result (jget profile ''priority_focus'' (JArr []))) (\<lambda>focus.
             if py_truthy focus
             then io_bind (sx_focus_files X (pr_workspace p) focus) (\<lambda>files. io_ret (mentioned @ map JStr files))
             else io_ret mentioned))
         else io_ret [])
        (\<lambda>mentioned. sx_structural_context X (pr_workspace p) (pr_repo p) mentioned budget tests)))))"

definition history_text :: "'s sandbox \<Rightarrow> processor \<Rightarrow> ('s, string) io" where
  "history_text X p =
     io_bind (io_of_result (jget (data_field (pr_job_data p) ''context_profile'' (JObj [])) ''thread_history'' (JObj []))) (\<lambda>raw.
     io_bind (io_of_result (sx_thread_config X raw)) (\<lambda>enabled.
       if enabled \<and> py_truthy (pr_issue_number p)
       then io_bind (io_of_result (json_item (JObj (pr_job_data p)) ''github_token'')) (\<lambda>token.
         sx_thread_history X (pr_repo p) (pr_issue_number p) token (pr_thread_type p) raw)
       else io_ret (pr_thread_history p)))"

definition prepare_context :: "'s sandbox \<Rightarrow> ('s, unit) pio" where
  "prepare_context X =
     io_then (attempt (io_bind self (\<lambda>p. io_bind (outside (structural_text X p)) (\<lambda>t. modify (\<lambda>p. p\<lparr>pr_file_tree := t\<rparr>)))))
     (io_then (attempt (io_bind self (\<lambda>p. io_bind (outside (history_text X p)) (\<lambda>t. modify (\<lambda>p. p\<lparr>pr_thread_history := t\<rparr>)))))
     (io_bind self (\<lambda>p. outside (sx_write_mcp_json X (pr_workspace p) (pr_repo p)))))"

section \<open>Options of a run\<close>

definition configure_builder ::
  "sdk_settings \<Rightarrow> json \<Rightarrow> string \<Rightarrow> string \<Rightarrow> string \<Rightarrow> string option \<Rightarrow> string option \<Rightarrow> string option \<Rightarrow> string option \<Rightarrow>
   string \<Rightarrow> string \<Rightarrow> sdk_builder \<Rightarrow> sdk_builder result" where
  "configure_builder S agents repo workflow_name ref parent_span_id sys_context claude_md memory_index history file_tree b =
     res_bind (with_full_toolset S (with_auto_discovered_plugins S b)) (\<lambda>b. Inr
       (with_structural_context (Some file_tree)
       (with_thread_history (Some history)
       (with_repository_context claude_md memory_index
       (with_system_prompt sys_context
       (with_writable_dir (se_home S @ ''/.claude/memory/'' @ repo @ ''/memory'')
       (with_transcript_staging S repo (JStr workflow_name) (JStr ref)
       (with_langfuse_hooks S parent_span_id
       (with_agents agents b)))))))))"

definition job_string :: "processor \<Rightarrow> string \<Rightarrow> string option" where
  "job_string p k = text_option (data_field (pr_job_data p) k JNull)"

text \<open>Which session the run continues: the first run follows the job, the others the run before.\<close>

definition continue_session :: "processor \<Rightarrow> nat \<Rightarrow> string option \<Rightarrow> sdk_builder \<Rightarrow> sdk_builder" where
  "continue_session p continue_count sid b =
     (let s = opt_default [] sid in
      if continue_count = 0 then
        if pr_session_mode p = ''resume'' \<and> s \<noteq> [] then with_session_resume s b
        else if pr_session_mode p = ''fork'' \<and> s \<noteq> [] then with_session_fork s b
        else if pr_session_mode p = ''continue'' then with_session_continue b
        else b
      else if s \<noteq> [] then with_session_resume s b else b)"

definition add_summary :: "processor \<Rightarrow> nat \<Rightarrow> sdk_builder \<Rightarrow> sdk_builder" where
  "add_summary p continue_count b =
     (let summary = data_field (pr_job_data p) ''conversation_summary'' JNull in
      if py_truthy summary \<and> pr_session_mode p \<in> {''resume'', ''continue''} \<and> continue_count = 0
      then with_system_prompt (Some (opt_default [] (job_string p ''system_context'') @
        nl @ nl @ ''## Previous Conversation Context'' @ nl @ py_str summary)) b
      else b)"

definition add_streaming :: "string \<Rightarrow> processor \<Rightarrow> sdk_builder \<Rightarrow> sdk_builder" where
  "add_streaming session_proxy_url p b =
     (case pr_bridge p of
        None \<Rightarrow> b
      | Some token \<Rightarrow>
          (let b = with_streaming b; url = rev (dropWhile (\<lambda>c. c = CHR ''/'') (rev (str_strip session_proxy_url))) in
           if url = [] then b
           else with_session_signature (build_session_url url (repo_owner (pr_repo p)) (repo_name (pr_repo p)) (pr_thread_type p)
             (pr_issue_number p) (pr_workflow_name p)) b))"

definition agent_builder :: "'s sandbox \<Rightarrow> processor \<Rightarrow> nat \<Rightarrow> string option \<Rightarrow> sdk_builder result" where
  "agent_builder X p continue_count sid =
     res_bind (configure_builder (sx_settings X) (sx_agents X) (pr_repo p) (pr_workflow_name p) (pr_ref p) (pr_parent_span_id p)
         (job_string p ''system_context'') (job_string p ''claude_md'') (job_string p ''memory_index'') (pr_thread_history p)
         (pr_file_tree p) (with_model (sx_model X) (new_builder (sx_settings X) (pr_workspace p)))) (\<lambda>b.
       Inr (add_streaming (sx_proxy_url X) p (add_summary p continue_count (continue_session p continue_count sid b))))"

text \<open>
  The hooks that the client calls during a run; each has registered itself for an event.
\<close>

definition fire_hook :: "json dict \<Rightarrow> sdk_builder \<Rightarrow> sdk_builder" where
  "fire_hook input b =
     (case hook_field input ''hook_event_name'' (JStr ''Stop'') of
        JStr event \<Rightarrow> fold (\<lambda>h b. case h of
            CaptureHook c \<Rightarrow> b\<lparr>sb_pending_post_jobs := fst (capture_and_buffer c input (sb_pending_post_jobs b))\<rparr>
          | LangfuseHook parent \<Rightarrow> b) (opt_default [] (dict_get (sb_hooks b) event)) b
      | _ \<Rightarrow> b)"

definition fire_hooks :: "json dict list \<Rightarrow> sdk_builder \<Rightarrow> sdk_builder" where
  "fire_hooks inputs b = fold fire_hook inputs b"

section \<open>Streaming\<close>

definition run_count :: "(string \<Rightarrow> int option) \<Rightarrow> string dict option \<Rightarrow> int result" where
  "run_count parse_int session_meta =
     (case parse_int (case session_meta of None \<Rightarrow> ''1'' | Some h \<Rightarrow> opt_default ''1'' (dict_get h ''run_count'')) of
        Some n \<Rightarrow> Inr n
      | None \<Rightarrow> Inl (Exn ValueError ''invalid literal for int()''))"

definition session_token :: "processor \<Rightarrow> json" where
  "session_token p = data_field (pr_job_data p) ''session_token'' JNull"

definition start_streaming :: "'s sandbox \<Rightarrow> ('s, unit) pio" where
  "start_streaming X =
     io_bind self (\<lambda>p.
       let token = py_str (session_token p); E = sx_redis X; ts = sx_now X in
       if py_truthy (data_field (pr_job_data p) ''streaming_enabled'' JNull) \<and> py_truthy (session_token p) then
         io_try
           (io_then (modify (\<lambda>p. p\<lparr>pr_bridge := Some token, pr_control := True, pr_listening := True\<rparr>))
           (io_then (outside (publish_init E ts token (pr_repo p) (pr_issue_number p) (pr_workflow_name p)))
           (io_bind (outside (stream_get_session E token)) (\<lambda>session_meta.
            io_bind (io_of_result (run_count (sx_parse_int X) session_meta)) (\<lambda>n.
              outside (bridge_publish E ts token ''run_start''
                [(''run_number'', JInt n), (''session_id'', opt_json (pr_session_id p))]))))))
           (\<lambda>e. modify (\<lambda>p. p\<lparr>pr_bridge := None, pr_control := False\<rparr>))
       else io_ret ())"

definition publish_to_bridge :: "'s sandbox \<Rightarrow> string option \<Rightarrow> sdk_message \<Rightarrow> ('s, unit) io" where
  "publish_to_bridge X bridge m =
     (case bridge of None \<Rightarrow> io_ret () | Some token \<Rightarrow> publish_message (sx_redis X) (sx_now X) token m)"

definition flush_jobs :: "'s sandbox \<Rightarrow> ('s, unit) pio" where
  "flush_jobs X =
     io_bind self (\<lambda>p. case pr_builder p of
         None \<Rightarrow> io_ret ()
       | Some b \<Rightarrow>
           io_then (modify (\<lambda>p. p\<lparr>pr_builder := Some (b\<lparr>sb_pending_post_jobs := []\<rparr>)\<rparr>))
           (io_then (outside (flush_pending_post_jobs (sx_redis X) (sx_sleep X) b)) (io_ret ())))"

section \<open>The agent loop\<close>

text \<open>A result with the flag \<open>is_cancelled\<close>.\<close>

type_synonym run_result = "sdk_result \<times> bool"

datatype loop_end = SupersededEnd | EndedWith "run_result option"

definition run_sdk :: "'s sandbox \<Rightarrow> processor \<Rightarrow> json \<Rightarrow> sdk_builder \<Rightarrow> ('s, sdk_result) io" where
  "run_sdk X p prompt b =
     execute_sdk (sx_client X prompt (build_options (sx_settings X) b)) (publish_to_bridge X (pr_bridge p)) (sx_sleep X)
       (sx_sdk_timeout X) SDK_MAX_RETRIES SDK_RETRY_BASE_DELAY"

text \<open>One run: its result, whether it was interrupted, and whether the user asked to stop.\<close>

definition run_agent :: "'s sandbox \<Rightarrow> nat \<Rightarrow> json \<Rightarrow> sdk_builder \<Rightarrow> ('s, sdk_result option \<times> bool \<times> bool) pio" where
  "run_agent X continue_count prompt b =
     io_bind self (\<lambda>p.
       let delivered = (\<lambda>ms. io_fold (\<lambda>_ m. publish_to_bridge X (pr_bridge p) m) () ms) in
       case pr_lock p of
         None \<Rightarrow> io_bind (outside (run_sdk X p prompt b)) (\<lambda>r. io_ret (Some r, False, False))
       | Some w \<Rightarrow>
           io_bind (outside (sx_run_end X continue_count)) (\<lambda>how. case how of
               Completed cancel stop \<Rightarrow> io_bind (outside (run_sdk X p prompt b)) (\<lambda>r. io_ret (Some r, cancel, stop))
             | Superseded ms stop \<Rightarrow>
                 io_then (outside (delivered ms)) (io_then (outside (set_interrupted (sx_redis X) w)) (io_ret (None, True, stop)))
             | UserStop ms \<Rightarrow> io_then (outside (delivered ms)) (io_ret (None, True, True))))"

definition take_inbox :: "'s sandbox \<Rightarrow> ('s, json list) pio" where
  "take_inbox X =
     io_bind self (\<lambda>p.
       if pr_bridge p \<noteq> None \<and> py_truthy (session_token p)
       then outside (pop_inbox_messages (sx_redis X) (py_str (session_token p)))
       else io_ret [])"

fun all_text :: "json list \<Rightarrow> string list option" where
  "all_text [] = Some []"
| "all_text (JStr s # js) = map_option (Cons s) (all_text js)"
| "all_text _ = None"

definition inbox_prompt :: "json \<Rightarrow> json list \<Rightarrow> json result" where
  "inbox_prompt first others =
     (if others = [] then Inr first
      else (case (first, all_text others) of
          (JStr s, Some ts) \<Rightarrow> Inr (JStr (s @ nl @ nl @ ''(Follow-up: '' @ str_join ''; '' ts @ '')''))
        | _ \<Rightarrow> Inl (Exn TypeError ''can only concatenate str'')))"

definition announce_continue :: "'s sandbox \<Rightarrow> json \<Rightarrow> ('s, unit) pio" where
  "announce_continue X message =
     io_bind self (\<lambda>p.
       let token = opt_default [] (pr_bridge p); E = sx_redis X; ts = sx_now X in
       io_then (outside (publish_user_message E ts token message))
       (io_then (outside (publish_init E ts token (pr_repo p) (pr_issue_number p) (pr_workflow_name p)))
         (outside (set_running E (py_str (session_token p)) DEFAULT_SESSION_TTL_SECONDS))))"

definition stopped_result :: "string option \<Rightarrow> run_result" where
  "stopped_result sid = (no_result\<lparr>sr_session_id := opt_json sid, sr_response := ''Stopped by user''\<rparr>, True)"

definition result_session :: "run_result option \<Rightarrow> string option" where
  "result_session result = Option.bind result (\<lambda>r. text_option (sr_session_id (fst r)))"

fun sdk_loop :: "'s sandbox \<Rightarrow> nat list \<Rightarrow> json \<Rightarrow> string option \<Rightarrow> run_result option \<Rightarrow> ('s, loop_end) pio" where
  "sdk_loop X [] prompt sid result = io_ret (EndedWith result)"
| "sdk_loop X (continue_count # counts) prompt sid result =
     io_bind self (\<lambda>p.
     io_bind (io_of_result (agent_builder X p continue_count sid)) (\<lambda>b.
     io_then (modify (\<lambda>p. p\<lparr>pr_builder := Some (fire_hooks (sx_hook_inputs X continue_count) b)\<rparr>))
     (io_bind (run_agent X continue_count prompt b) (\<lambda>(res, interrupted, stop).
        let result = (case res of Some r \<Rightarrow> Some (r, False) | None \<Rightarrow> result) in
        if interrupted \<and> \<not> stop then
          io_then (finish_job X [] [(''message'', JStr ''Interrupted by new prompt, session saved for continuation'')] ''superseded'')
            (io_ret SupersededEnd)
        else if result = None \<and> \<not> interrupted then io_raise (Exn RuntimeError ''SDK execution returned no result'')
        else
          io_bind (take_inbox X) (\<lambda>messages. case messages of
              m # ms \<Rightarrow>
                io_bind (io_of_result (inbox_prompt m ms)) (\<lambda>prompt.
                io_then (announce_continue X m)
                  (sdk_loop X counts prompt (result_session result) result))
            | [] \<Rightarrow> io_ret (EndedWith (if interrupted \<and> stop \<and> result = None then Some (stopped_result sid) else result)))))))"

definition end_streaming :: "'s sandbox \<Rightarrow> run_result option \<Rightarrow> ('s, unit) pio" where
  "end_streaming X result =
     io_bind self (\<lambda>p. case pr_bridge p of
         None \<Rightarrow> io_ret ()
       | Some token \<Rightarrow>
           attempt (outside
             (io_then (if py_truthy (session_token p)
                       then set_completed (sx_redis X) (py_str (session_token p))
                         (case result of None \<Rightarrow> False | Some r \<Rightarrow> py_truthy (sr_is_error (fst r))) (result_session result)
                       else io_ret ())
               (bridge_close (sx_redis X) (sx_now X) token))))"

definition stop_control :: "'s sandbox \<Rightarrow> ('s, unit) pio" where
  "stop_control X =
     io_bind self (\<lambda>p.
       if pr_control p
       then attempt (io_then (modify (\<lambda>p. p\<lparr>pr_listening := False\<rparr>)) (outside (sx_control_stop X)))
       else io_ret ())"

definition set_environment_token :: "'s sandbox \<Rightarrow> json \<Rightarrow> ('s, unit) pio" where
  "set_environment_token X token =
     (case token of JStr t \<Rightarrow> outside (sx_setenv_token X t) | _ \<Rightarrow> io_raise (Exn TypeError ''str expected''))"

definition execute_sdk_loop :: "'s sandbox \<Rightarrow> ('s, run_result option) pio" where
  "execute_sdk_loop X =
     io_bind (job_entry ''github_token'') (\<lambda>token.
     io_then (set_environment_token X token)
     (io_then (start_streaming X)
     (io_bind (job_entry ''prompt'') (\<lambda>prompt.
      io_bind self (\<lambda>p.
      io_bind (sdk_loop X [0..<MAX_AUTO_CONTINUES + 1] prompt (pr_session_id p) None) (\<lambda>how. case how of
          SupersededEnd \<Rightarrow> io_ret None
        | EndedWith result \<Rightarrow>
            io_then (end_streaming X result)
            (io_then (stop_control X)
            (io_then (flush_jobs X) (io_ret result)))))))))"

section \<open>Session metadata\<close>

text \<open>\<open>re.match(r"^[a-zA-Z0-9_-]+$", s)\<close>: the dollar sign also matches before a final line feed.\<close>

definition is_id_char :: "char \<Rightarrow> bool" where
  "is_id_char c \<longleftrightarrow> CHR ''a'' \<le> c \<and> c \<le> CHR ''z'' \<or> CHR ''A'' \<le> c \<and> c \<le> CHR ''Z'' \<or> is_digit c \<or> c = CHR ''_'' \<or> c = CHR ''-''"

definition is_session_id :: "string \<Rightarrow> bool" where
  "is_session_id s \<longleftrightarrow> (let t = (if str_endswith s nl then butlast s else s) in t \<noteq> [] \<and> list_all is_id_char t)"

text \<open>\<open>re.sub(r"[^a-zA-Z0-9]", "-", cwd)\<close>\<close>

definition sanitize_cwd :: "string \<Rightarrow> string" where
  "sanitize_cwd cwd = map (\<lambda>c. if CHR ''a'' \<le> c \<and> c \<le> CHR ''z'' \<or> CHR ''A'' \<le> c \<and> c \<le> CHR ''Z'' \<or> is_digit c then c else CHR ''-'') cwd"

text \<open>The directories that are left, and how many were looked at.\<close>

fun scan_projects :: "'s host \<Rightarrow> string \<Rightarrow> nat \<Rightarrow> string list \<Rightarrow> ('s, string option) io" where
  "scan_projects H session_id count [] = io_ret None"
| "scan_projects H session_id count (d # ds) =
     (if count \<ge> 200 then io_ret None
      else io_bind (ho_is_dir H d) (\<lambda>is_dir.
        if \<not> is_dir then scan_projects H session_id (count + 1) ds
        else
          let candidate = d @ ''/'' @ session_id @ ''.jsonl'' in
          io_bind (ho_exists H candidate) (\<lambda>found.
            if found then io_ret (Some candidate) else scan_projects H session_id (count + 1) ds)))"

definition find_transcript_path :: "'s host \<Rightarrow> string \<Rightarrow> string \<Rightarrow> ('s, string option) io" where
  "find_transcript_path H session_id cwd =
     (if \<not> is_session_id session_id then io_ret None
      else
        let projects_dir = ho_home H @ ''/.claude/projects''; direct = projects_dir @ ''/'' @ sanitize_cwd cwd @ ''/'' @ session_id @ ''.jsonl'';
            scan = io_bind (ho_iterdir H projects_dir) (scan_projects H session_id 0) in
        io_bind (ho_exists H projects_dir) (\<lambda>found.
          if \<not> found then io_ret None
          else if cwd \<noteq> []
          then io_bind (ho_exists H direct) (\<lambda>found. if found then io_ret (Some direct) else scan)
          else scan))"

definition write_transcript_meta :: "'s sandbox \<Rightarrow> string \<Rightarrow> json \<Rightarrow> ('s, unit) io" where
  "write_transcript_meta X transcript_path meta =
     attempt (sx_write_file X (with_suffix transcript_path ''.meta.json'') (x_dumps (sx_redis X) meta))"

fun json_int :: "json \<Rightarrow> int result" where
  "json_int (JInt i) = Inr i"
| "json_int _ = Inl (Exn TypeError ''an integer is required'')"

definition session_ttl_hours :: "json dict \<Rightarrow> int result" where
  "session_ttl_hours job =
     res_bind (jget (data_field job ''event_data'' (JObj [])) ''issue_state'' (JStr ''open'')) (\<lambda>issue_state.
       if issue_state = JStr ''closed'' then Inr CLOSED_SESSION_TTL_HOURS
       else res_bind (jget (data_field job ''conversation_config'' (JObj [])) ''ttl_hours'' (JInt FALLBACK_CONVERSATION_TTL_HOURS)) json_int)"

definition store_session :: "'s sandbox \<Rightarrow> processor \<Rightarrow> sdk_result \<Rightarrow> ('s, unit) io" where
  "store_session X p r =
     (let sid = py_str (sr_session_id r) in
      io_bind (io_of_result (session_ttl_hours (pr_job_data p))) (\<lambda>ttl_hours.
      io_bind (io_of_result (if py_truthy (sr_num_turns r) then json_int (sr_num_turns r) else Inr 0)) (\<lambda>turns.
      io_then (save_session (sx_redis X) (sx_now X) (pr_repo p) (pr_thread_type p) (pr_thread_id p) (pr_workflow_name p) sid
          (pr_workspace p) (pr_ref p) turns None ttl_hours (text_option (session_token p)))
        (case pr_lock p of None \<Rightarrow> io_ret () | Some w \<Rightarrow> set_session_id (sx_redis X) w sid))))"

definition transcript_meta :: "processor \<Rightarrow> json" where
  "transcript_meta p = JObj
     [(''installation_id'', data_field (pr_job_data p) ''installation_id'' (JStr [])), (''ref'', JStr (pr_ref p)),
      (''user'', data_field (pr_job_data p) ''user'' (JStr ''remote-control'')), (''thread_type'', JStr (pr_thread_type p)),
      (''conversation_config'', data_field (pr_job_data p) ''conversation_config'' (JStr []))]"

definition store_stream_session :: "'s sandbox \<Rightarrow> processor \<Rightarrow> sdk_result \<Rightarrow> ('s, unit) io" where
  "store_stream_session X p r =
     (let token = py_str (session_token p); sid = py_str (sr_session_id r) in
      io_then (if pr_bridge p = None then update_session_id (sx_redis X) token sid else io_ret ())
      (io_bind (find_transcript_path (sx_host X) sid (pr_workspace p)) (\<lambda>path. case path of
          None \<Rightarrow> io_ret ()
        | Some path \<Rightarrow>
            io_then (update_transcript_path (sx_redis X) token path) (write_transcript_meta X path (transcript_meta p)))))"

definition record_session :: "'s sandbox \<Rightarrow> sdk_result \<Rightarrow> ('s, unit) pio" where
  "record_session X r =
     io_bind self (\<lambda>p.
     io_then (if py_truthy (sr_session_id r) \<and> pr_persist p then attempt (outside (store_session X p r)) else io_ret ())
       (if py_truthy (sr_session_id r) \<and> py_truthy (session_token p) then attempt (outside (store_stream_session X p r)) else io_ret ()))"

section \<open>Outcomes\<close>

definition mark_success :: "'s sandbox \<Rightarrow> sdk_result \<Rightarrow> ('s, unit) pio" where
  "mark_success X r = finish_job X [(''response'', JStr (sr_response r))] [(''session_id'', sr_session_id r)] ''success''"

definition mark_cancelled :: "'s sandbox \<Rightarrow> sdk_result \<Rightarrow> ('s, unit) pio" where
  "mark_cancelled X r = finish_job X [(''response'', JStr (sr_response r))] [(''session_id'', sr_session_id r)] ''cancelled''"

definition error_category :: "exn \<Rightarrow> string" where
  "error_category e =
     (if exc_isinstance e WorktreeCreationError \<or> exc_isinstance e RepositorySyncError then ''infrastructure''
      else if exc_isinstance e SDKError \<or> exc_isinstance e SDKTimeoutError then ''sdk''
      else if exc_isinstance e TimeoutError then ''timeout''
      else ''execution'')"

definition mark_stream_error :: "'s sandbox \<Rightarrow> exn \<Rightarrow> ('s, unit) pio" where
  "mark_stream_error X e =
     io_bind self (\<lambda>p.
       let token = py_str (session_token p); E = sx_redis X in
       if py_truthy (session_token p)
       then attempt (outside
         (io_then (set_completed E token True None)
         (io_then (publish_error E (sx_now X) token (exc_msg e)) (bridge_close E (sx_now X) token))))
       else io_ret ())"

definition handle_error :: "'s sandbox \<Rightarrow> exn \<Rightarrow> ('s, unit) pio" where
  "handle_error X e =
     io_then (attempt (flush_jobs X))
     (io_then (mark_stream_error X e)
       (finish_job X [(''error'', JStr (exc_msg e)), (''error_type'', JStr (class_name (exc_cls e))),
          (''error_category'', JStr (error_category e)), (''timestamp'', JFloat (sx_time X))] [] ''error''))"

section \<open>Cleaning up\<close>

definition release_lock :: "'s sandbox \<Rightarrow> ('s, unit) pio" where
  "release_lock X =
     io_bind self (\<lambda>p. case pr_lock p of
         None \<Rightarrow> io_ret ()
       | Some w \<Rightarrow> attempt (io_bind (outside (release (sx_redis X) w)) (\<lambda>w. modify (\<lambda>p. p\<lparr>pr_lock := Some w\<rparr>))))"

definition clear_environment_token :: "'s sandbox \<Rightarrow> ('s, unit) pio" where
  "clear_environment_token X =
     io_try
       (io_bind self (\<lambda>p.
        io_bind (outside (sx_getenv_token X)) (\<lambda>token.
          if token = data_field (pr_job_data p) ''github_token'' JNull then outside (sx_delenv_token X) else io_ret ())))
       (\<lambda>e. if exc_isinstance e KeyError then io_ret () else io_raise e)"

definition remove_credentials :: "'s sandbox \<Rightarrow> ('s, unit) pio" where
  "remove_credentials X =
     io_bind self (\<lambda>p. attempt (outside
       (if pr_workspace p = [] then io_ret ()
        else io_bind (ho_exists (sx_host X) (credentials_file (pr_workspace p))) (\<lambda>found.
          if found then sx_remove_file X (credentials_file (pr_workspace p)) else io_ret ()))))"

definition remove_once :: "'s sandbox \<Rightarrow> string \<Rightarrow> string \<Rightarrow> ('s, unit) io" where
  "remove_once X repo_dir workspace =
     io_bind (if repo_dir = [] then io_ret False else ho_exists (sx_host X) workspace) (\<lambda>registered.
       if registered then
         io_then (git X [''git'', ''--git-dir='' @ repo_dir, ''worktree'', ''remove'', ''--force'', workspace]) (io_ret ())
       else io_bind (ho_exists (sx_host X) workspace) (\<lambda>found.
         if found then ho_rmtree (sx_host X) workspace else io_ret ()))"

text \<open>The list holds the attempts that are left.\<close>

fun remove_workspace :: "'s sandbox \<Rightarrow> string \<Rightarrow> string \<Rightarrow> nat list \<Rightarrow> ('s, unit) io" where
  "remove_workspace X repo_dir workspace [] = io_ret ()"
| "remove_workspace X repo_dir workspace (n # ns) =
     (\<lambda>s. case remove_once X repo_dir workspace s of
        (Inr u, s') \<Rightarrow> (Inr (), s')
      | (Inl e, s') \<Rightarrow> if n < 2 then io_then (sx_sleep X 1) (remove_workspace X repo_dir workspace ns) s'
                       else remove_workspace X repo_dir workspace ns s')"

definition cleanup :: "'s sandbox \<Rightarrow> ('s, unit) pio" where
  "cleanup X =
     io_then (release_lock X)
     (io_then (clear_environment_token X)
     (io_then (remove_credentials X)
     (io_bind self (\<lambda>p.
        if pr_workspace p \<noteq> [] \<and> \<not> pr_persist p
        then outside (remove_workspace X (pr_repo_dir p) (pr_workspace p) [0..<3])
        else io_ret ()))))"

section \<open>Processing a job\<close>

text \<open>The body of \<open>process\<close>; \<open>False\<close> while the job still waits for the repository.\<close>

definition process_body :: "'s sandbox \<Rightarrow> ('s, bool) pio" where
  "process_body X =
     io_bind (validate_job X) (\<lambda>valid.
       if \<not> valid then io_ret True
       else io_bind (setup_worktree X) (\<lambda>ready.
         if \<not> ready then io_ret False
         else
           io_then (configure_git X)
           (io_then (run_repo_setup X)
           (io_then (prepare_context X)
           (io_bind (execute_sdk_loop X) (\<lambda>result. case result of
               None \<Rightarrow> io_ret True
             | Some (r, cancelled) \<Rightarrow>
                 io_then (record_session X r)
                 (io_then (if cancelled then mark_cancelled X r else mark_success X r) (io_ret True))))))))"

definition process :: "'s sandbox \<Rightarrow> ('s, bool) pio" where
  "process X = (\<lambda>sp.
     case process_body X sp of
       (Inr False, sp') \<Rightarrow> (Inr False, sp')
     | (Inr True, sp') \<Rightarrow> io_then (cleanup X) (io_ret True) sp'
     | (Inl e, sp') \<Rightarrow> io_finally (io_then (handle_error X e) (io_ret True)) (cleanup X) sp')"

definition process_job :: "'s sandbox \<Rightarrow> string \<Rightarrow> json dict \<Rightarrow> ('s, bool) io" where
  "process_job X job_id job_data =
     (\<lambda>s. case process X (s, new_processor job_id job_data) of (r, s', p) \<Rightarrow> (r, s'))"

end
