(* ===== verification/Job_Outcome.thy ===== *)
theory Job_Outcome
  imports Sandbox_Processor
begin

text \<open>
  Every job that the sandbox processor takes up ends with a recorded outcome. The proof needs only
  which keys the steps may touch (the frame rules of \<open>Redis_Frame\<close>, lifted to methods of the
  processor) and that \<open>complete_job\<close> records the outcome it is given.
\<close>

section \<open>Frames of methods\<close>

text \<open>A healthy world and a processor working on job \<open>i\<close>.\<close>

definition working_on :: "('s \<Rightarrow> bool) \<Rightarrow> string \<Rightarrow> 's \<times> processor \<Rightarrow> bool" where
  "working_on ok i sp \<longleftrightarrow> ok (fst sp) \<and> pr_job_id (snd sp) = i"

abbreviation method_keeps :: "('s \<Rightarrow> rstate) \<Rightarrow> ('s \<Rightarrow> bool) \<Rightarrow> string \<Rightarrow> ('s, 'a) pio \<Rightarrow> bool" where
  "method_keeps view ok i m \<equiv> keeps (\<lambda>sp. view (fst sp)) (working_on ok i) job_keys m"

lemma keeps_outside [frame_intros]:
  "keeps view ok job_keys m \<Longrightarrow> method_keeps view ok i (outside m)"
  by (auto simp: keeps_def outside_def working_on_def split: prod.splits; metis snd_conv)

lemma keeps_self [frame_intros]: "method_keeps view ok i self"
  by (auto simp: keeps_def self_def)

lemma keeps_modify [frame_intros]:
  "(\<And>p. pr_job_id (f p) = pr_job_id p) \<Longrightarrow> method_keeps view ok i (modify f)"
  by (auto simp: keeps_def modify_def working_on_def)

lemma keeps_attempt [frame_intros]: "keeps view ok K m \<Longrightarrow> keeps view ok K (attempt m)"
  unfolding attempt_def by (intro frame_intros)

lemma keeps_finally [frame_intros]:
  assumes "keeps view ok K m" "keeps view ok K f"
  shows "keeps view ok K (io_finally m f)"
  unfolding keeps_def
proof (intro allI impI)
  fix s
  assume s: "ok s"
  obtain r s1 where m: "m s = (r, s1)" by (cases "m s")
  obtain r2 s2 where f: "f s1 = (r2, s2)" by (cases "f s1")
  have "io_finally m f s = ((case r2 of Inl e \<Rightarrow> Inl e | Inr x \<Rightarrow> r), s2)"
    using m f by (simp add: io_finally_def split: sum.split)
  with keepsD [OF assms(1) s m] keepsD [OF assms(2) _ f]
  show "ok (snd (io_finally m f s)) \<and> rnow (view (snd (io_finally m f s))) = rnow (view s) \<and>
      (\<forall>k \<in> K. rdb (view (snd (io_finally m f s))) k = rdb (view s) k)"
    by simp
qed

lemma keeps_job_field [frame_intros]: "method_keeps view ok i (job_field k d)"
  unfolding job_field_def by (intro frame_intros)

lemma keeps_job_entry [frame_intros]: "method_keeps view ok i (job_entry k)"
  unfolding job_entry_def by (intro frame_intros)

lemma keeps_set_job_field [frame_intros]: "method_keeps view ok i (set_job_field k v)"
  unfolding set_job_field_def by (intro frame_intros) simp

section \<open>What the processor calls\<close>

text \<open>Nothing the processor calls outside Redis touches the keys of the job queue.\<close>

definition clear_of_jobs :: "('s \<Rightarrow> rstate) \<Rightarrow> ('s \<Rightarrow> bool) \<Rightarrow> 's sandbox \<Rightarrow> bool" where
  "clear_of_jobs view ok X \<longleftrightarrow>
     (\<forall>p. keeps view ok job_keys (ho_exists (sx_host X) p)) \<and> (\<forall>p. keeps view ok job_keys (ho_is_dir (sx_host X) p)) \<and>
     (\<forall>p. keeps view ok job_keys (ho_iterdir (sx_host X) p)) \<and> (\<forall>p. keeps view ok job_keys (ho_mkdir (sx_host X) p)) \<and>
     (\<forall>p. keeps view ok job_keys (ho_rmtree (sx_host X) p)) \<and> (\<forall>p. keeps view ok job_keys (ho_rmdir (sx_host X) p)) \<and>
     (\<forall>c. keeps view ok job_keys (ho_exec (sx_host X) c)) \<and> (\<forall>d c. keeps view ok job_keys (sx_exec_in X d c)) \<and>
     (\<forall>t. keeps view ok job_keys (ae_read (sx_auth X t))) \<and> (\<forall>t a. keeps view ok job_keys (ae_write (sx_auth X t) a)) \<and>
     (\<forall>t. keeps view ok job_keys (ae_clock (sx_auth X t))) \<and> (\<forall>t u v. keeps view ok job_keys (ae_post (sx_auth X t) u v)) \<and>
     (\<forall>t d. keeps view ok job_keys (ae_sleep (sx_auth X t) d)) \<and> (\<forall>j. keeps view ok job_keys (sx_sync_publish X j)) \<and>
     (\<forall>c. keeps view ok job_keys (ps_subscribe (sx_pubsub X) c)) \<and> (\<forall>c. keeps view ok job_keys (ps_unsubscribe (sx_pubsub X) c)) \<and>
     keeps view ok job_keys (ps_close (sx_pubsub X)) \<and> (\<forall>d. keeps view ok job_keys (sx_sleep X d)) \<and>
     (\<forall>a b. keeps view ok job_keys (sx_mkdtemp X a b)) \<and> (\<forall>a b. keeps view ok job_keys (sx_write_file X a b)) \<and>
     (\<forall>a. keeps view ok job_keys (sx_remove_file X a)) \<and> keeps view ok job_keys (sx_getenv_token X) \<and>
     (\<forall>t. keeps view ok job_keys (sx_setenv_token X t)) \<and> keeps view ok job_keys (sx_delenv_token X) \<and>
     (\<forall>a b. keeps view ok job_keys (sx_repo_setup X a b)) \<and> (\<forall>a b. keeps view ok job_keys (sx_http_get X a b)) \<and>
     (\<forall>a b. keeps view ok job_keys (sx_focus_files X a b)) \<and> (\<forall>a b c d e. keeps view ok job_keys (sx_structural_context X a b c d e)) \<and>
     (\<forall>a b c d e. keeps view ok job_keys (sx_thread_history X a b c d e)) \<and> (\<forall>a b. keeps view ok job_keys (sx_write_mcp_json X a b)) \<and>
     (\<forall>a b. keeps view ok job_keys (sx_client X a b)) \<and> (\<forall>c. keeps view ok job_keys (sx_run_end X c)) \<and>
     keeps view ok job_keys (sx_control_stop X)"

lemma clear_calls:
  assumes "clear_of_jobs view ok X"
  shows "keeps view ok job_keys (ho_exists (sx_host X) p)" "keeps view ok job_keys (ho_is_dir (sx_host X) p)"
    "keeps view ok job_keys (ho_iterdir (sx_host X) p)" "keeps view ok job_keys (ho_mkdir (sx_host X) p)"
    "keeps view ok job_keys (ho_rmtree (sx_host X) p)" "keeps view ok job_keys (ho_rmdir (sx_host X) p)"
    "keeps view ok job_keys (ho_exec (sx_host X) c)" "keeps view ok job_keys (sx_exec_in X d c)"
    "keeps view ok job_keys (ae_read (sx_auth X t))" "keeps view ok job_keys (ae_write (sx_auth X t) a)"
    "keeps view ok job_keys (ae_clock (sx_auth X t))" "keeps view ok job_keys (ae_post (sx_auth X t) u v)"
    "keeps view ok job_keys (ae_sleep (sx_auth X t) delay)" "keeps view ok job_keys (sx_sync_publish X j)"
    "keeps view ok job_keys (ps_subscribe (sx_pubsub X) p)" "keeps view ok job_keys (ps_unsubscribe (sx_pubsub X) p)"
    "keeps view ok job_keys (ps_close (sx_pubsub X))" "keeps view ok job_keys (sx_sleep X delay)"
    "keeps view ok job_keys (sx_mkdtemp X u v)" "keeps view ok job_keys (sx_write_file X u v)"
    "keeps view ok job_keys (sx_remove_file X u)" "keeps view ok job_keys (sx_getenv_token X)"
    "keeps view ok job_keys (sx_setenv_token X u)" "keeps view ok job_keys (sx_delenv_token X)"
    "keeps view ok job_keys (sx_repo_setup X u v)" "keeps view ok job_keys (sx_http_get X u v)"
    "keeps view ok job_keys (sx_focus_files X u j)" "keeps view ok job_keys (sx_structural_context X u v js j1 j2)"
    "keeps view ok job_keys (sx_thread_history X u j1 j2 v j3)" "keeps view ok job_keys (sx_write_mcp_json X u v)"
    "keeps view ok job_keys (sx_client X j b)" "keeps view ok job_keys (sx_run_end X n)" "keeps view ok job_keys (sx_control_stop X)"
  using assms by (simp_all add: clear_of_jobs_def)

lemma not_job_keys_either:
  "lock_key k \<notin> job_keys" "pending_key k \<notin> job_keys" "session_map_key repo tt tid w \<notin> job_keys" "SESSION_INBOX_KEY t \<notin> job_keys"
  "''agent:memory:requests'' \<notin> job_keys" "''agent:retrospector:requests'' \<notin> job_keys" "''agent:indexing:requests'' \<notin> job_keys"
  by (simp_all add: job_keys_def lock_key_def pending_key_def session_map_key_def session_keys)

lemmas frame_keys = not_job_keys not_job_keys_either

lemma keeps_list [frame_intros]:
  "keeps view ok K m \<Longrightarrow> (\<And>x ys. xs = x # ys \<Longrightarrow> keeps view ok K (f x ys)) \<Longrightarrow>
   keeps view ok K (case xs of [] \<Rightarrow> m | x # ys \<Rightarrow> f x ys)"
  by (cases xs) simp_all

lemma keeps_json [frame_intros]:
  assumes "keeps view ok K a" "\<And>b. keeps view ok K (f1 b)" "\<And>i. keeps view ok K (f2 i)" "\<And>r. keeps view ok K (f3 r)"
    "\<And>s. keeps view ok K (f4 s)" "\<And>xs. keeps view ok K (f5 xs)" "\<And>d. keeps view ok K (f6 d)"
  shows "keeps view ok K (case_json a f1 f2 f3 f4 f5 f6 j)"
  using assms by (cases j) simp_all

lemma keeps_receive_messages [frame_intros]:
  assumes "\<And>m. keeps view ok K (publish m)"
  shows "keeps view ok K (receive_messages publish info parts ms)"
  using assms by (induction publish info parts ms rule: receive_messages.induct)
    (auto intro!: keeps_ret keeps_then split: sdk_message.split)

lemma keeps_sdk_attempts [frame_intros]:
  assumes "keeps view ok K once" "\<And>d. keeps view ok K (sleep d)"
  shows "keeps view ok K (sdk_attempts once sleep delay0 ns e)"
proof (induction ns arbitrary: e)
  case Nil
  show ?case by (simp add: keeps_raise)
next
  case (Cons n ns)
  let ?next = "\<lambda>e. if exc_cls e = SDKTimeoutError \<or> \<not> is_transient_error e then io_raise e
    else io_then (if ns \<noteq> [] then sleep (delay0 * 3 ^ n) else io_ret ()) (sdk_attempts once sleep delay0 ns (Some e))"
  have "sdk_attempts once sleep delay0 (n # ns) e = io_try once ?next"
    by (auto simp: fun_eq_iff io_try_run io_raise_run split: prod.split sum.split)
  moreover have "keeps view ok K (io_try once ?next)" by (intro frame_intros assms Cons.IH)
  ultimately show ?case by simp
qed

lemma keeps_execute_sdk [frame_intros]:
  assumes "keeps view ok K session" "\<And>m. keeps view ok K (publish m)" "\<And>d. keeps view ok K (sleep d)"
  shows "keeps view ok K (execute_sdk session publish sleep t n delay0)"
  unfolding execute_sdk_def execute_sdk_once_def by (intro frame_intros assms)

context redis_server
begin

lemma keeps_bridge [frame_intros]:
  "keeps view healthy job_keys (bridge_publish E ts token ty d)" "keeps view healthy job_keys (publish_init E ts token repo n w)"
  "keeps view healthy job_keys (publish_error E ts token e)" "keeps view healthy job_keys (bridge_close E ts token)"
  "keeps view healthy job_keys (publish_message E ts token m)"
  unfolding bridge_publish_def publish_init_def publish_error_def bridge_close_def publish_message_def Let_def
  by (intro frame_intros frame_keys)+

lemma keeps_stream_store [frame_intros]:
  "keeps view healthy job_keys (stream_get_session E token)" "keeps view healthy job_keys (set_completed E token b sid)"
  "keeps view healthy job_keys (update_session_id E token sid1)" "keeps view healthy job_keys (update_transcript_path E token path)"
  "keeps view healthy job_keys (pop_inbox_messages E token)"
  unfolding stream_get_session_def set_completed_def update_session_id_def update_transcript_path_def pop_inbox_messages_def
    hset_all_def Let_def
  by (intro frame_intros frame_keys)+

lemma keeps_session_store [frame_intros]:
  "keeps view healthy job_keys (save_session E now repo tt tid w sid path ref n summary ttl token)"
  unfolding save_session_def hset_all_def Let_def by (intro frame_intros frame_keys)

lemma keeps_flush [frame_intros]:
  assumes "\<And>d. keeps view healthy job_keys (sleep d)"
  shows "keeps view healthy job_keys (flush_pending_post_jobs E sleep b)"
  unfolding flush_pending_post_jobs_def flush_post_jobs_def flush_one_def enqueue_memory_job_def enqueue_retrospector_job_def
    enqueue_indexing_job_def enqueue_twice_def Let_def
  by (intro frame_intros frame_keys assms)

lemma keeps_wait_loop [frame_intros]:
  assumes "\<And>d. keeps view healthy K (sleep d)"
  shows "keeps view healthy K (wait_loop E sleep key n)"
  by (induction n) (auto intro!: frame_intros assms)

lemma keeps_lock [frame_intros]:
  assumes "\<And>d. keeps view healthy job_keys (sleep d)"
  shows "keeps view healthy job_keys (acquire E sleep w pid now i t ttl)" "keeps view healthy job_keys (wait_for_release E sleep w t)"
  unfolding acquire_def try_acquire_def set_pending_prompt_def wait_for_release_def
  by (intro frame_intros frame_keys assms)+

lemma keeps_lock_calls [frame_intros]:
  "keeps view healthy job_keys (set_pending_prompt E w now i prompt)" "keeps view healthy job_keys (send_cancel_signal E w)"
  "keeps view healthy job_keys (get_lock_info E w)" "keeps view healthy job_keys (get_pending_prompt E w)"
  "keeps view healthy job_keys (set_interrupted E w)" "keeps view healthy job_keys (set_session_id E w sid)"
  "keeps view healthy job_keys (release E w)"
  unfolding set_pending_prompt_def send_cancel_signal_def get_lock_info_def get_pending_prompt_def take_script_def set_interrupted_def
    set_session_id_def update_lock_field_def update_script_def release_def release_script_def
  by (intro frame_intros frame_keys)+

end

context redis_server
begin

lemma keeps_sync_wait [frame_intros]:
  assumes "\<And>c. keeps view healthy job_keys (ps_subscribe P c)" "\<And>c. keeps view healthy job_keys (ps_unsubscribe P c)"
    "keeps view healthy job_keys (ps_close P)" "\<And>j. keeps view healthy job_keys (publish j)"
  shows "keeps view healthy job_keys (wait_for_repo_sync E path_exists publish P repo ref t start arrivals ended)"
  unfolding wait_for_repo_sync_def request_repo_sync_def unsubscribe_close_def
  by (intro frame_intros assms)

lemma keeps_indexing_wait [frame_intros]:
  assumes "\<And>c. keeps view healthy job_keys (ps_subscribe P c)" "\<And>c. keeps view healthy job_keys (ps_unsubscribe P c)"
    "keeps view healthy job_keys (ps_close P)"
  shows "keeps view healthy job_keys (wait_for_indexing E configured P repo ref t start arrivals ended)"
  unfolding wait_for_indexing_def unsubscribe_close_def
  by (intro frame_intros assms)

end

lemma keeps_git:
  assumes "\<And>c. keeps view ok K (ho_exec H c)"
  shows "keeps view ok K (execute_git_command H cmd)" "keeps view ok K (try_git H cmd)"
    "keeps view ok K (detect_default_branch H bare)" "keeps view ok K (fetch_and_checkout H path)"
    "keeps view ok K (create_worktree H bare ref path)"
  unfolding create_worktree_def detect_default_branch_def fetch_and_checkout_def try_git_def execute_git_command_def Let_def
  by (intro frame_intros assms)+

lemma keeps_worktree:
  assumes "\<And>c. keeps view ok K (ho_exec H c)" "\<And>p. keeps view ok K (ho_exists H p)" "\<And>p. keeps view ok K (ho_rmtree H p)"
    "\<And>p. keeps view ok K (ho_mkdir H p)"
  shows "keeps view ok K (reuse_or_create_worktree H bare ref path mode)"
  unfolding reuse_or_create_worktree_def by (intro frame_intros assms keeps_git)

lemma keeps_find_transcript:
  assumes "\<And>p. keeps view ok K (ho_exists H p)" "\<And>p. keeps view ok K (ho_is_dir H p)" "\<And>p. keeps view ok K (ho_iterdir H p)"
  shows "keeps view ok K (find_transcript_path H sid cwd)"
proof -
  have "keeps view ok K (scan_projects H sid n ds)" for n ds
    by (induction ds arbitrary: n) (auto simp: Let_def intro!: frame_intros assms)
  then show ?thesis unfolding find_transcript_path_def Let_def by (intro frame_intros assms)
qed

lemma keeps_get_token_of:
  assumes "keeps view ok K (ae_read A)" "\<And>a. keeps view ok K (ae_write A a)" "keeps view ok K (ae_clock A)"
    "\<And>u v. keeps view ok K (ae_post A u v)" "\<And>d. keeps view ok K (ae_sleep A d)"
  shows "keeps view ok K (get_token A)"
  unfolding get_token_def refresh_token_once_def by (intro frame_intros assms)

lemma keeps_run_end [frame_intros]:
  assumes "\<And>a b. keeps view ok K (f1 a b)" "\<And>ms a. keeps view ok K (f2 ms a)" "\<And>ms. keeps view ok K (f3 ms)"
  shows "keeps view ok K (case_run_end f1 f2 f3 r)"
  using assms by (cases r) simp_all

section \<open>The steps before an outcome\<close>

context redis_server
begin

lemma setup_frame:
  assumes X: "sx_redis X = E" "clear_of_jobs view healthy X"
  shows "method_keeps view healthy i (setup_worktree X)"
proof -
  note calls = frame_intros clear_calls [OF X(2)] keeps_get_token_of keeps_git keeps_worktree keeps_streaming_calls
  have token: "method_keeps view healthy i (refresh_job_token X)"
    unfolding refresh_job_token_def by (intro calls)
  have tried: "method_keeps view healthy i (lock_try X w)" for w
    unfolding lock_try_def X(1) by (intro calls) simp
  have pending: "method_keeps view healthy i (take_pending X w)" for w
    unfolding take_pending_def X(1) by (intro calls; simp)
  have lock: "method_keeps view healthy i (take_lock X)"
    unfolding take_lock_def X(1) Let_def by (intro calls tried pending; simp)
  have persistent: "method_keeps view healthy i (persistent_worktree X)"
    unfolding persistent_worktree_def Let_def by (intro calls lock; simp)
  have ephemeral: "method_keeps view healthy i (ephemeral_worktree X)"
    unfolding ephemeral_worktree_def git_def Let_def by (intro calls; simp)
  show ?thesis
    unfolding setup_worktree_def X(1) by (intro calls token persistent ephemeral; simp)
qed

lemma prepare_frame:
  assumes X: "sx_redis X = E" "clear_of_jobs view healthy X"
  shows "method_keeps view healthy i (configure_git X)" "method_keeps view healthy i (run_repo_setup X)"
    "method_keeps view healthy i (prepare_context X)"
proof -
  note calls = frame_intros clear_calls [OF X(2)]
  have "keeps view healthy job_keys (git_in X cwd cmd)" for cwd cmd
    unfolding git_in_def by (rule keeps_git) (simp add: clear_calls [OF X(2)])
  then show "method_keeps view healthy i (configure_git X)"
    unfolding configure_git_def Let_def by (intro calls)
  show "method_keeps view healthy i (run_repo_setup X)"
    unfolding run_repo_setup_def by (intro calls)
  show "method_keeps view healthy i (prepare_context X)"
    unfolding prepare_context_def structural_text_def history_text_def changed_files_def Let_def by (intro calls; simp)
qed

lemma loop_frame:
  assumes X: "sx_redis X = E" "clear_of_jobs view healthy X"
  shows "method_keeps view healthy i (set_environment_token X token)" "method_keeps view healthy i (start_streaming X)"
    "method_keeps view healthy i (run_agent X c prompt b)" "method_keeps view healthy i (take_inbox X)"
    "method_keeps view healthy i (announce_continue X m)" "method_keeps view healthy i (end_streaming X result)"
    "method_keeps view healthy i (stop_control X)" "method_keeps view healthy i (flush_jobs X)"
proof -
  note calls = frame_intros clear_calls [OF X(2)] keeps_streaming_calls
  have publish: "keeps view healthy job_keys (publish_to_bridge X bridge m)" for bridge m
    unfolding publish_to_bridge_def X(1) by (intro calls)
  show "method_keeps view healthy i (set_environment_token X token)"
    unfolding set_environment_token_def by (intro calls)
  show "method_keeps view healthy i (start_streaming X)"
    unfolding start_streaming_def X(1) Let_def by (intro calls; simp)
  show "method_keeps view healthy i (run_agent X c prompt b)"
    unfolding run_agent_def run_sdk_def X(1) Let_def by (intro calls publish)
  show "method_keeps view healthy i (take_inbox X)"
    unfolding take_inbox_def X(1) by (intro calls)
  show "method_keeps view healthy i (announce_continue X m)"
    unfolding announce_continue_def X(1) Let_def by (intro calls)
  show "method_keeps view healthy i (end_streaming X result)"
    unfolding end_streaming_def X(1) by (intro calls)
  show "method_keeps view healthy i (stop_control X)"
    unfolding stop_control_def by (intro calls; simp)
  show "method_keeps view healthy i (flush_jobs X)"
    unfolding flush_jobs_def X(1) by (intro calls; simp)
qed

lemma end_frame:
  assumes X: "sx_redis X = E" "clear_of_jobs view healthy X"
  shows "method_keeps view healthy i (record_session X r)" "method_keeps view healthy i (mark_stream_error X e)"
    "method_keeps view healthy i (cleanup X)"
proof -
  note calls = frame_intros clear_calls [OF X(2)]
  show "method_keeps view healthy i (record_session X r)"
    unfolding record_session_def store_session_def store_stream_session_def write_transcript_meta_def X(1) Let_def
    by (intro calls keeps_find_transcript)
  show "method_keeps view healthy i (mark_stream_error X e)"
    unfolding mark_stream_error_def X(1) Let_def by (intro calls)
  have once: "keeps view healthy job_keys (remove_once X dir ws)" for dir ws
    unfolding remove_once_def git_def by (intro calls keeps_git)
  have step: "remove_workspace X dir ws (n # ns) = io_try (remove_once X dir ws) (\<lambda>e. if n < 2
      then io_then (sx_sleep X 1) (remove_workspace X dir ws ns) else remove_workspace X dir ws ns)" for dir ws n ns
    by (auto simp: fun_eq_iff io_try_run split: prod.split sum.split)
  have "keeps view healthy job_keys (remove_workspace X dir ws ns)" for dir ws ns
  proof (induction ns)
    case Nil
    show ?case by (simp add: keeps_ret)
  next
    case (Cons n ns)
    show ?case unfolding step by (intro calls once Cons.IH)
  qed
  then show "method_keeps view healthy i (cleanup X)"
    unfolding cleanup_def release_lock_def clear_environment_token_def remove_credentials_def X(1) by (intro calls; simp)
qed

end

section \<open>Outcomes\<close>

text \<open>
  The outcome of job \<open>i\<close> is stored: its status is one of the four final ones, its result says the
  same, and the job is no longer being processed.
\<close>

definition has_outcome :: "(json \<Rightarrow> string) \<Rightarrow> string \<Rightarrow> rstate \<Rightarrow> bool" where
  "has_outcome dumps i st \<longleftrightarrow> i \<notin> set (processing st) \<and>
     (\<exists>status \<in> {''success'', ''error'', ''cancelled'', ''superseded''}. \<exists>fields.
        rlook st (job_status_key i) = Some (RStr status) \<and>
        rlook st (job_result_key i) = Some (RStr (dumps (JObj ((''status'', JStr status) # fields)))))"

text \<open>
  From a well-formed queue a method leaves a well-formed queue, and when it returns a value in \<open>P\<close>,
  the job has its outcome.
\<close>

definition records ::
  "('s \<Rightarrow> rstate) \<Rightarrow> ('s \<Rightarrow> bool) \<Rightarrow> (json \<Rightarrow> string) \<Rightarrow> string \<Rightarrow> ('a \<Rightarrow> bool) \<Rightarrow> ('s, 'a) pio \<Rightarrow> bool" where
  "records view ok dumps i P m \<longleftrightarrow>
     (\<forall>sp. working_on ok i sp \<longrightarrow> jq_wf (view (fst sp)) \<longrightarrow>
        working_on ok i (snd (m sp)) \<and> jq_wf (view (fst (snd (m sp)))) \<and>
        (\<forall>x. fst (m sp) = Inr x \<longrightarrow> P x \<longrightarrow> has_outcome dumps i (view (fst (snd (m sp))))))"

lemma recordsD:
  assumes "records view ok dumps i P m" "working_on ok i sp" "jq_wf (view (fst sp))" "m sp = (r, sp')"
  shows "working_on ok i sp'" "jq_wf (view (fst sp'))" "r = Inr x \<Longrightarrow> P x \<Longrightarrow> has_outcome dumps i (view (fst sp'))"
  using assms(1) [unfolded records_def, rule_format, OF assms(2,3)] assms(4) by simp_all

lemma frame_queue:
  assumes "method_keeps view ok i m" "working_on ok i sp" "m sp = (r, sp')"
  shows "jq_wf (view (fst sp')) = jq_wf (view (fst sp))"
    "has_outcome dumps i (view (fst sp')) = has_outcome dumps i (view (fst sp))"
proof -
  note k = keepsD [OF assms]
  have keys: "job_status_key i \<in> job_keys" "job_result_key i \<in> job_keys" by (simp_all add: job_keys_def jq_keys)
  have "rlook (view (fst sp')) k = rlook (view (fst sp)) k" if "k \<in> job_keys" for k
    using k(2) k(3) [OF that] by (simp only: rlook_def)
  with queue_on_job_keys [of "view (fst sp')" "view (fst sp)"] k(2,3) keys
  show "jq_wf (view (fst sp')) = jq_wf (view (fst sp))"
    "has_outcome dumps i (view (fst sp')) = has_outcome dumps i (view (fst sp))"
    by (simp_all add: has_outcome_def)
qed

lemma records_frame:
  assumes "method_keeps view ok i m" "\<And>sp x. fst (m sp) = Inr x \<Longrightarrow> \<not> P x"
  shows "records view ok dumps i P m"
  unfolding records_def
proof (intro allI impI conjI)
  fix sp
  assume sp: "working_on ok i sp" "jq_wf (view (fst sp))"
  obtain r sp' where m: "m sp = (r, sp')" by (cases "m sp")
  from keepsD(1) [OF assms(1) sp(1) m] m show "working_on ok i (snd (m sp))" by simp
  from frame_queue(1) [OF assms(1) sp(1) m] sp(2) m show "jq_wf (view (fst (snd (m sp))))" by simp
next
  fix sp x
  assume "fst (m sp) = Inr x" "P x"
  with assms(2) show "has_outcome dumps i (view (fst (snd (m sp))))" by blast
qed

lemma records_ret: "\<not> P x \<Longrightarrow> records view ok dumps i P (io_ret x)"
  by (rule records_frame) (auto simp: io_ret_run intro: keeps_ret)

lemma records_raise: "records view ok dumps i P (io_raise e)"
  by (rule records_frame) (auto simp: io_raise_run intro: keeps_raise)

lemma records_cong:
  "(\<And>sp. working_on ok i sp \<Longrightarrow> m sp = n sp) \<Longrightarrow> records view ok dumps i P n \<Longrightarrow> records view ok dumps i P m"
  by (simp add: records_def)

lemma records_if:
  "(b \<Longrightarrow> records view ok dumps i P m) \<Longrightarrow> (\<not> b \<Longrightarrow> records view ok dumps i P n) \<Longrightarrow> records view ok dumps i P (if b then m else n)"
  by simp

text \<open>
  After a step that may itself have recorded the outcome, the rest either leaves the queue alone
  or records it.
\<close>

lemma records_seq:
  assumes "records view ok dumps i P m"
    and "\<And>x sp sp'. m sp = (Inr x, sp') \<Longrightarrow> P x \<and> method_keeps view ok i (f x) \<or> records view ok dumps i Q (f x)"
  shows "records view ok dumps i Q (io_bind m f)"
  unfolding records_def
proof (intro allI impI)
  fix sp
  assume sp: "working_on ok i sp" "jq_wf (view (fst sp))"
  obtain r sp1 where m: "m sp = (r, sp1)" by (cases "m sp")
  note 1 = recordsD [OF assms(1) sp m]
  show "working_on ok i (snd (io_bind m f sp)) \<and> jq_wf (view (fst (snd (io_bind m f sp)))) \<and>
      (\<forall>x. fst (io_bind m f sp) = Inr x \<longrightarrow> Q x \<longrightarrow> has_outcome dumps i (view (fst (snd (io_bind m f sp)))))"
  proof (cases r)
    case (Inl e)
    with m 1 show ?thesis by (simp add: io_bind_run)
  next
    case (Inr x)
    obtain r2 sp2 where f: "f x sp1 = (r2, sp2)" by (cases "f x sp1")
    consider (kept) "P x" "method_keeps view ok i (f x)" | (later) "records view ok dumps i Q (f x)"
      using assms(2) [OF m [unfolded Inr]] by blast
    then show ?thesis
    proof cases
      case kept
      with m Inr f 1 keepsD(1) [OF kept(2) 1(1) f] frame_queue [OF kept(2) 1(1) f] show ?thesis by (simp add: io_bind_run)
    next
      case later
      with m Inr f recordsD [OF later 1(1,2) f] show ?thesis by (simp add: io_bind_run)
    qed
  qed
qed

lemma records_weaken: "records view ok dumps i P m \<Longrightarrow> (\<And>x. Q x \<Longrightarrow> P x) \<Longrightarrow> records view ok dumps i Q m"
  by (simp add: records_def)

lemma records_bind:
  assumes "method_keeps view ok i m" "\<And>x sp sp'. m sp = (Inr x, sp') \<Longrightarrow> records view ok dumps i P (f x)"
  shows "records view ok dumps i P (io_bind m f)"
  by (rule records_seq [OF records_frame [OF assms(1), of "\<lambda>_. False"]]) (auto intro: assms(2))

lemma records_then:
  "method_keeps view ok i m \<Longrightarrow> records view ok dumps i P n \<Longrightarrow> records view ok dumps i P (io_then m n)"
  unfolding io_then_def by (rule records_bind)

lemma records_before_then:
  "records view ok dumps i (\<lambda>_. True) m \<Longrightarrow> method_keeps view ok i n \<Longrightarrow> records view ok dumps i P (io_then m n)"
  unfolding io_then_def by (rule records_seq) auto

lemma records_after:
  assumes "records view ok dumps i P m" "\<And>x. method_keeps view ok i (f x)"
    and "\<And>x sp y sp'. f x sp = (Inr y, sp') \<Longrightarrow> Q y \<Longrightarrow> P x"
  shows "records view ok dumps i Q (io_bind m f)"
proof (rule records_seq [OF assms(1)])
  fix x
  show "P x \<and> method_keeps view ok i (f x) \<or> records view ok dumps i Q (f x)"
  proof (cases "P x")
    case False
    then have "fst (f x sp) = Inr y \<Longrightarrow> \<not> Q y" for sp y using assms(3) [of x sp y] by (cases "f x sp") auto
    then show ?thesis using records_frame [OF assms(2)] by blast
  qed (simp add: assms(2))
qed

context redis_server
begin

lemma finish_job_records:
  assumes X: "sx_redis X = E" "0 < jq_ttl (sx_queue X)" and "status \<in> {''success'', ''error'', ''cancelled'', ''superseded''}"
  shows "records view healthy (x_dumps E) i P (finish_job X pre post status)"
    and "working_on healthy i sp \<Longrightarrow> jq_wf (view (fst sp)) \<Longrightarrow> fst (finish_job X pre post status sp) = Inr ()"
proof -
  have run: "\<exists>s'. finish_job X pre post status (s, p) = (Inr (), (s', p)) \<and> healthy s' \<and> jq_wf (view s') \<and>
      has_outcome (x_dumps E) i (view s')" if s: "healthy s" "pr_job_id p = i" "jq_wf (view s)" for s p
  proof -
    let ?result = "JObj ([(''status'', JStr status)] @ pre @ [(''repo'', JStr (pr_repo p)), (''issue_number'', pr_issue_number p)] @ post)"
    obtain st' where st': "complete_job (model_env E ord) (sx_queue X) i ?result status (view s) = (Inr (), st')"
      "jq_wf st'" "processing st' = removeAll i (processing (view s))"
      "rlook st' (job_result_key i) = Some (RStr (x_dumps E ?result))" "rlook st' (job_status_key i) = Some (RStr status)"
      using complete_job_spec [OF s(3) X(2), of "x_dumps E" "x_loads E" ord i ?result status] by (auto simp: model_env_def)
    obtain s' where s': "complete_job E (sx_queue X) i ?result status s = (Inr (), s')" "healthy s'" "view s' = st'"
      using sim_run [OF complete_job_sim s(1) st'(1)] by blast
    have "finish_job X pre post status (s, p) = (Inr (), (s', p))"
      using s'(1) s(2) X(1) by (simp add: finish_job_def self_def outside_def io_bind_run)
    moreover have "has_outcome (x_dumps E) i (view s')"
      unfolding has_outcome_def s'(3) using st'(3-5) assms(3) by fastforce
    ultimately show ?thesis using s'(2,3) st'(2) by blast
  qed
  show "records view healthy (x_dumps E) i P (finish_job X pre post status)"
    unfolding records_def working_on_def using run by fastforce
  show "fst (finish_job X pre post status sp) = Inr ()" if "working_on healthy i sp" "jq_wf (view (fst sp))"
    using run [of "fst sp" "snd sp"] that by (auto simp: working_on_def)
qed

end

section \<open>The agent loop\<close>

text \<open>The user asked to stop this run.\<close>

fun user_stopped :: "run_end \<Rightarrow> bool" where
  "user_stopped (Completed cancel stop) = False"
| "user_stopped (Superseded ms stop) = stop"
| "user_stopped (UserStop ms) = True"

definition never_stopped :: "'s sandbox \<Rightarrow> nat \<Rightarrow> bool" where
  "never_stopped X c \<longleftrightarrow> (\<forall>s r s'. sx_run_end X c s = (Inr r, s') \<longrightarrow> \<not> user_stopped r)"

lemma never_stoppedD: "never_stopped X c \<Longrightarrow> sx_run_end X c s = (Inr r, s') \<Longrightarrow> \<not> user_stopped r"
  by (auto simp: never_stopped_def)

lemma run_agent_result:
  assumes "run_agent X c prompt b sp = (Inr (res, interrupted, stop), sp')" "never_stopped X c" "\<not> interrupted \<or> stop"
  shows "res \<noteq> None"
  using assms
  by (auto simp: run_agent_def Let_def io_bind_run io_then_run self_def outside_def io_ret_run
      split: option.splits prod.splits sum.splits run_end.splits dest: never_stoppedD)

text \<open>
  The loop ends without a result and without an outcome only if it had none before and the user
  stopped all of its runs.
\<close>

definition unfinished :: "'s sandbox \<Rightarrow> nat list \<Rightarrow> run_result option \<Rightarrow> loop_end \<Rightarrow> bool" where
  "unfinished X cs result how \<longleftrightarrow>
     how = EndedWith None \<and> result = None \<and> (\<forall>c \<in> set cs. \<not> never_stopped X c)"

definition settled :: "'s sandbox \<Rightarrow> nat list \<Rightarrow> run_result option \<Rightarrow> loop_end \<Rightarrow> bool" where
  "settled X cs result how \<longleftrightarrow> how = SupersededEnd \<or> how = EndedWith None \<and> \<not> unfinished X cs result how"

context redis_server
begin

lemma sdk_loop_records:
  assumes X: "sx_redis X = E" "clear_of_jobs view healthy X" "0 < jq_ttl (sx_queue X)"
  shows "records view healthy (x_dumps E) i (settled X cs result) (sdk_loop X cs prompt sid result)"
proof (induction cs arbitrary: prompt sid result)
  case Nil
  show ?case
    by simp (rule records_ret, auto simp: settled_def unfinished_def)
next
  case (Cons c cs)
  note frame = keeps_of_result keeps_self loop_frame [OF X(1,2)] keeps_modify
  let ?super = "finish_job X [] [(''message'', JStr ''Interrupted by new prompt, session saved for continuation'')] ''superseded''"
  let ?res = "\<lambda>r. case r of Some x \<Rightarrow> Some (x, False) | None \<Rightarrow> result"
  let ?next = "\<lambda>res interrupted stop messages. case messages of
      m # ms \<Rightarrow> io_bind (io_of_result (inbox_prompt m ms)) (\<lambda>prompt.
        io_then (announce_continue X m) (sdk_loop X cs prompt (result_session res) res))
    | [] \<Rightarrow> io_ret (EndedWith (if interrupted \<and> stop \<and> res = None then Some (stopped_result sid) else res))"
  let ?inbox = "\<lambda>res interrupted stop. io_bind (take_inbox X) (?next res interrupted stop)"
  have inbox: "records view healthy (x_dumps E) i (settled X (c # cs) result) (?inbox res interrupted stop)"
    if res: "res = None \<Longrightarrow> interrupted \<and> stop \<and> result = None \<and> \<not> never_stopped X c" for res interrupted stop
  proof (rule records_bind [OF frame(6)])
    fix messages :: "json list"
    have step: "settled X (c # cs) result how \<Longrightarrow> settled X cs res how" for how
      using res by (cases res) (auto simp: settled_def unfinished_def)
    show "records view healthy (x_dumps E) i (settled X (c # cs) result) (?next res interrupted stop messages)"
    proof (cases messages)
      case Nil
      then show ?thesis using res by (auto simp: settled_def intro!: records_ret)
    next
      case (Cons m ms)
      then show ?thesis
        using records_weaken [OF local.Cons.IH step] by (auto intro!: records_bind records_then frame)
    qed
  qed
  have after: "records view healthy (x_dumps E) i (settled X (c # cs) result)
      (if interrupted \<and> \<not> stop then io_then ?super (io_ret SupersededEnd)
       else if ?res r = None \<and> \<not> interrupted then io_raise (Exn RuntimeError ''SDK execution returned no result'')
       else ?inbox (?res r) interrupted stop)"
    if "run_agent X c prompt b sp = (Inr (r, interrupted, stop), sp')" for b r interrupted stop sp sp'
  proof -
    have super: "records view healthy (x_dumps E) i (settled X (c # cs) result) (io_then ?super (io_ret SupersededEnd))"
      by (rule records_before_then [OF finish_job_records(1) [OF X(1,3)] keeps_ret]) simp
    have none: "?res r = None \<Longrightarrow> \<not> (interrupted \<and> \<not> stop) \<Longrightarrow> \<not> never_stopped X c \<and> result = None"
      using run_agent_result [OF that] by (auto split: option.splits)
    have continue: "records view healthy (x_dumps E) i (settled X (c # cs) result) (?inbox (?res r) interrupted stop)"
      if "\<not> (interrupted \<and> \<not> stop)" "\<not> (?res r = None \<and> \<not> interrupted)"
      by (rule inbox) (use none that in blast)
    show ?thesis by (rule records_if [OF super records_if [OF records_raise continue]])
  qed
  show ?case
    unfolding sdk_loop.simps Let_def
    by (rule records_bind [OF keeps_self], rule records_bind [OF keeps_of_result], rule records_then [OF keeps_modify], simp,
        rule records_bind [OF frame(5)]) (auto intro: after)
qed

lemma execute_sdk_loop_records:
  assumes X: "sx_redis X = E" "clear_of_jobs view healthy X" "0 < jq_ttl (sx_queue X)"
    and c: "c \<le> MAX_AUTO_CONTINUES" "never_stopped X c"
  shows "records view healthy (x_dumps E) i (\<lambda>result. result = None) (execute_sdk_loop X)"
proof -
  let ?finish = "\<lambda>how. case how of SupersededEnd \<Rightarrow> io_ret None
    | EndedWith result \<Rightarrow> io_then (end_streaming X result) (io_then (stop_control X) (io_then (flush_jobs X) (io_ret result)))"
  have c_in: "c \<in> set [0..<MAX_AUTO_CONTINUES + 1]" using c(1) by (auto simp: less_Suc_eq_le simp del: upt_Suc)
  have loop: "records view healthy (x_dumps E) i (\<lambda>result. result = None)
      (io_bind (sdk_loop X [0..<MAX_AUTO_CONTINUES + 1] prompt sid None) ?finish)" for prompt sid
  proof (rule records_after [OF sdk_loop_records [OF X]])
    show "method_keeps view healthy i (?finish how)" for how
      by (cases how) (auto intro!: frame_intros loop_frame [OF X(1,2)])
    show "settled X [0..<MAX_AUTO_CONTINUES + 1] None how" if "?finish how sp = (Inr result, sp')" "result = None" for how sp result sp'
      using that c(2) c_in
      by (cases how) (auto simp: settled_def unfinished_def io_then_run io_ret_run split: prod.splits sum.splits simp del: upt_Suc)
  qed
  then show ?thesis
    unfolding execute_sdk_loop_def
    by (rule records_bind [OF keeps_job_entry records_then [OF loop_frame(1) [OF X(1,2)] records_then [OF loop_frame(2) [OF X(1,2)]
          records_bind [OF keeps_job_entry records_bind [OF keeps_self]]]]])
qed

end

lemma attempt_returns: "fst (attempt m s) = Inr ()"
  by (auto simp: attempt_def io_try_run io_ret_run split: prod.split sum.split)

context redis_server
begin

lemma validate_job_records:
  assumes X: "sx_redis X = E" "0 < jq_ttl (sx_queue X)"
  shows "records view healthy (x_dumps E) i Not (validate_job X)"
proof -
  let ?done = "finish_job X [(''error'', JStr (''Invalid job_id format: '' @ i))] [] ''error''"
  have "records view healthy (x_dumps E) i (\<lambda>_. True) (attempt ?done)"
    unfolding records_def
  proof (intro allI impI)
    fix sp
    assume sp: "working_on healthy i sp" "jq_wf (view (fst sp))"
    have "fst (?done sp) = Inr ()" by (rule finish_job_records(2) [OF X _ sp]) simp
    then obtain sp' where run: "?done sp = (Inr (), sp')" by (cases "?done sp") auto
    moreover have "attempt ?done sp = ?done sp" using run by (simp add: attempt_def io_try_run)
    ultimately show "working_on healthy i (snd (attempt ?done sp)) \<and> jq_wf (view (fst (snd (attempt ?done sp)))) \<and>
        (\<forall>x. fst (attempt ?done sp) = Inr x \<longrightarrow> True \<longrightarrow> has_outcome (x_dumps E) i (view (fst (snd (attempt ?done sp)))))"
      using recordsD [OF finish_job_records(1) [OF X] sp run] by simp
  qed
  then have "records view healthy (x_dumps E) i Not (io_then (attempt ?done) (io_ret False))"
    by (rule records_before_then) (rule keeps_ret)
  then have "records view healthy (x_dumps E) i Not (if validate_job_id i then io_ret True else io_then (attempt ?done) (io_ret False))"
    by (simp add: records_ret)
  moreover have "validate_job X sp = (if validate_job_id i then io_ret True else io_then (attempt ?done) (io_ret False)) sp"
    if "working_on healthy i sp" for sp
    using that by (cases sp) (auto simp: validate_job_def self_def io_bind_run working_on_def)
  ultimately show ?thesis by (rule records_cong [rotated])
qed

lemma process_body_records:
  assumes X: "sx_redis X = E" "clear_of_jobs view healthy X" "0 < jq_ttl (sx_queue X)"
    and c: "c \<le> MAX_AUTO_CONTINUES" "never_stopped X c"
  shows "records view healthy (x_dumps E) i id (process_body X)"
proof -
  let ?mark = "\<lambda>result. case result of None \<Rightarrow> io_ret True
    | Some (r, cancelled) \<Rightarrow> io_then (record_session X r) (io_then (if cancelled then mark_cancelled X r else mark_success X r) (io_ret True))"
  have marked: "records view healthy (x_dumps E) i id (?mark (Some (r, cancelled)))" for r cancelled
    unfolding option.case prod.case mark_cancelled_def mark_success_def
    by (rule records_then [OF end_frame(1) [OF X(1,2)]], rule records_before_then)
      (auto intro!: finish_job_records(1) [OF X(1,3)] keeps_ret)
  have "records view healthy (x_dumps E) i id (io_bind (execute_sdk_loop X) ?mark)"
  proof (rule records_seq [OF execute_sdk_loop_records [OF X c]])
    fix result
    show "result = None \<and> method_keeps view healthy i (?mark result) \<or> records view healthy (x_dumps E) i id (?mark result)"
      using marked by (cases result) (auto intro: keeps_ret)
  qed
  then have run: "records view healthy (x_dumps E) i id (io_then (configure_git X) (io_then (run_repo_setup X)
      (io_then (prepare_context X) (io_bind (execute_sdk_loop X) ?mark))))"
    by (intro records_then prepare_frame [OF X(1,2)])
  let ?work = "io_bind (setup_worktree X) (\<lambda>ready. if \<not> ready then io_ret False else io_then (configure_git X) (io_then (run_repo_setup X)
      (io_then (prepare_context X) (io_bind (execute_sdk_loop X) ?mark))))"
  have work: "records view healthy (x_dumps E) i id ?work"
  proof (rule records_bind [OF setup_frame [OF X(1,2)]])
    fix ready
    show "records view healthy (x_dumps E) i id (if \<not> ready then io_ret False else io_then (configure_git X) (io_then (run_repo_setup X)
      (io_then (prepare_context X) (io_bind (execute_sdk_loop X) ?mark))))"
      using run records_ret [of id False] by (cases ready) auto
  qed
  show ?thesis
    unfolding process_body_def
  proof (rule records_seq [OF validate_job_records [OF X(1,3)]])
    fix valid
    show "\<not> valid \<and> method_keeps view healthy i (if \<not> valid then io_ret True else ?work) \<or>
        records view healthy (x_dumps E) i id (if \<not> valid then io_ret True else ?work)"
      using work keeps_ret by (cases valid) auto
  qed
qed

lemma handle_error_records:
  assumes X: "sx_redis X = E" "clear_of_jobs view healthy X" "0 < jq_ttl (sx_queue X)"
    and sp: "working_on healthy i sp" "jq_wf (view (fst sp))" and run: "handle_error X e sp = (r, sp')"
  shows "r = Inr ()" "working_on healthy i sp'" "has_outcome (x_dumps E) i (view (fst sp'))"
proof -
  obtain sp1 where 1: "attempt (flush_jobs X) sp = (Inr (), sp1)"
    using attempt_returns [of "flush_jobs X" sp] by (cases "attempt (flush_jobs X) sp") auto
  have "fst (mark_stream_error X e sp1) = Inr ()"
    by (cases sp1) (simp add: mark_stream_error_def self_def io_bind_run io_ret_run attempt_returns Let_def)
  then obtain sp2 where 2: "mark_stream_error X e sp1 = (Inr (), sp2)" by (cases "mark_stream_error X e sp1") auto
  note f1 = keeps_attempt [OF loop_frame(8) [OF X(1,2)]] and f2 = end_frame(2) [OF X(1,2)]
  note ok1 = keepsD(1) [OF f1 sp(1) 1] frame_queue(1) [OF f1 sp(1) 1]
  note ok2 = keepsD(1) [OF f2 ok1(1) 2] frame_queue(1) [OF f2 ok1(1) 2]
  have wf2: "jq_wf (view (fst sp2))" using ok1(2) ok2(2) sp(2) by simp
  let ?m = "finish_job X [(''error'', JStr (exc_msg e)), (''error_type'', JStr (class_name (exc_cls e))),
    (''error_category'', JStr (error_category e)), (''timestamp'', JFloat (sx_time X))] [] ''error''"
  have m: "?m sp2 = (r, sp')" using run 1 2 by (simp add: handle_error_def io_then_run)
  have "fst (?m sp2) = Inr ()" by (rule finish_job_records(2) [OF X(1,3) _ ok2(1) wf2]) simp
  then show r: "r = Inr ()" using m by simp
  show "working_on healthy i sp'" "has_outcome (x_dumps E) i (view (fst sp'))"
    using recordsD [OF finish_job_records(1) [OF X(1,3), where P = "\<lambda>_. True"] ok2(1) wf2 m] r by auto
qed

lemma process_outcome:
  assumes X: "sx_redis X = E" "clear_of_jobs view healthy X" "0 < jq_ttl (sx_queue X)"
    and c: "c \<le> MAX_AUTO_CONTINUES" "never_stopped X c" and s: "healthy s" "jq_wf (view s)"
    and run: "process_job X i d s = (r, s')" and ended: "r \<noteq> Inr False"
  shows "has_outcome (x_dumps E) i (view s')"
proof -
  let ?sp = "(s, new_processor i d)"
  have sp: "working_on healthy i ?sp" "jq_wf (view (fst ?sp))" using s by (simp_all add: working_on_def new_processor_def)
  obtain p' where run: "process X ?sp = (r, (s', p'))" using run by (auto simp: process_job_def split: prod.splits)
  obtain r1 sp1 where body: "process_body X ?sp = (r1, sp1)" by (cases "process_body X ?sp")
  note 1 = recordsD [OF process_body_records [OF X c] sp body]
  note clean = end_frame(3) [OF X(1,2)]
  have done_after: "has_outcome (x_dumps E) i (view s')"
    if "working_on healthy i sp2" "has_outcome (x_dumps E) i (view (fst sp2))" "cleanup X sp2 = (r3, (s', p'))" for sp2 r3
    using frame_queue(2) [OF clean that(1,3)] that(2) by simp
  show ?thesis
  proof (cases r1)
    case (Inr b)
    with run body ended have b by (auto simp: process_def split: bool.splits)
    obtain r3 where "cleanup X sp1 = (r3, (s', p'))"
      using run body Inr \<open>b\<close> by (auto simp: process_def io_then_run io_ret_run split: prod.splits sum.splits)
    then show ?thesis using done_after [OF 1(1) 1(3)] Inr \<open>b\<close> by simp
  next
    case (Inl e)
    obtain r2 sp2 where h: "handle_error X e sp1 = (r2, sp2)" by (cases "handle_error X e sp1")
    note 2 = handle_error_records [OF X 1(1,2) h]
    obtain r3 where "cleanup X sp2 = (r3, (s', p'))"
      using run body Inl h by (auto simp: process_def io_finally_def io_then_run io_ret_run 2(1) split: prod.splits sum.splits)
    then show ?thesis using done_after [OF 2(2,3)] by simp
  qed
qed

end

section \<open>Waiting for the repository\<close>

lemma refresh_keeps_repo:
  assumes "refresh_job_token X (s, p) = (r, (s', p'))"
  shows "pr_repo p' = pr_repo p \<and> pr_ref p' = pr_ref p"
  using assms
  by (auto simp: refresh_job_token_def job_field_def set_job_field_def attempt_def self_def modify_def outside_def io_bind_run
      io_try_run io_ret_run split: if_splits prod.splits sum.splits)

lemma map_sum_Some: "map_sum id Some x \<noteq> Inr None"
  by (cases x) simp_all

lemma setup_waiting:
  assumes "setup_worktree X (s, p) = (Inr False, sp')"
  shows "sync_listen (x_loads (sx_redis X)) (pr_repo p) (pr_ref p) (bare_repo_dir (pr_repo p)) (sx_sync_timeout X) (sx_sync_start X)
    (sx_sync_arrivals X) (sx_sync_ended X) = None"
proof -
  obtain r s1 p1 where 1: "refresh_job_token X (s, p) = (r, (s1, p1))" by (metis prod.collapse)
  let ?wait = "wait_for_repo_sync (sx_redis X) (sx_path_exists X) (sx_sync_publish X) (sx_pubsub X) (pr_repo p1) (pr_ref p1)
    (sx_sync_timeout X) (sx_sync_start X) (sx_sync_arrivals X) (sx_sync_ended X)"
  have "\<exists>s2. ?wait s1 = (Inr None, s2)"
    using assms 1
    by (auto simp: setup_worktree_def io_bind_run io_then_run self_def outside_def io_ret_run split: prod.splits sum.splits option.splits)
  then show ?thesis
    using refresh_keeps_repo [OF 1]
    by (auto simp: map_sum_Some wait_for_repo_sync_def io_bind_run io_then_run io_ret_run io_finally_def io_of_result_run
        split: prod.splits sum.splits option.splits if_splits)
qed

lemma body_waiting:
  assumes "process_body X sp = (Inr False, sp')"
  shows "\<exists>s. setup_worktree X (s, snd sp) = (Inr False, sp')"
proof -
  obtain s1 p1 where valid: "validate_job X sp = (Inr True, (s1, p1))"
      and body: "io_bind (setup_worktree X) (\<lambda>ready. if \<not> ready then io_ret False
        else io_then (configure_git X) (io_then (run_repo_setup X) (io_then (prepare_context X)
          (io_bind (execute_sdk_loop X) (\<lambda>result. case result of None \<Rightarrow> io_ret True
            | Some (r, cancelled) \<Rightarrow> io_then (record_session X r)
                (io_then (if cancelled then mark_cancelled X r else mark_success X r) (io_ret True))))))) (s1, p1) = (Inr False, sp')"
    using assms unfolding process_body_def by (auto simp: io_bind_run io_ret_run split: prod.splits sum.splits if_splits)
  have "p1 = snd sp"
    using valid by (cases sp) (auto simp: validate_job_def self_def io_bind_run io_ret_run io_then_run split: if_splits prod.splits sum.splits)
  moreover have "setup_worktree X (s1, p1) = (Inr False, sp')"
    using body by (auto simp: io_bind_run io_then_run io_ret_run split: prod.splits sum.splits if_splits option.splits)
  ultimately show ?thesis by blast
qed

text \<open>
  C3: a job that the sandbox processor takes up ends with a recorded outcome, whatever fails on the
  way: its status is success, error, cancelled or superseded, the stored result says the same, and
  the job has left the processing set. The only other ending is that no event about the repository
  has arrived yet and the job still waits for it. This needs a Redis server that answers, and a run
  of the agent that the user does not stop: a user who stops all eleven runs of the loop while
  leaving messages for each of them would leave the job without an outcome.
\<close>

theorem processed_job_has_outcome:
  assumes "redis_server E view healthy ord" "healthy s" "jq_wf (view s)"
    and "sx_redis X = E" "clear_of_jobs view healthy X" "0 < jq_ttl (sx_queue X)"
    and "c \<le> MAX_AUTO_CONTINUES" "never_stopped X c"
    and run: "process_job X i d s = (r, s')"
  shows "has_outcome (x_dumps E) i (view s') \<or>
    r = Inr False \<and> sync_listen (x_loads E) (pr_repo (new_processor i d)) (pr_ref (new_processor i d))
      (bare_repo_dir (pr_repo (new_processor i d))) (sx_sync_timeout X) (sx_sync_start X) (sx_sync_arrivals X) (sx_sync_ended X) = None"
proof (cases "r = Inr False")
  case True
  obtain p' where "process X (s, new_processor i d) = (Inr False, (s', p'))"
    using run True by (auto simp: process_job_def split: prod.splits)
  then have "process_body X (s, new_processor i d) = (Inr False, (s', p'))"
    by (auto simp: process_def io_then_run io_ret_run io_finally_def split: prod.splits sum.splits bool.splits)
  then obtain s0 where "setup_worktree X (s0, new_processor i d) = (Inr False, (s', p'))"
    using body_waiting by fastforce
  from setup_waiting [OF this] assms(4) True show ?thesis by simp
next
  case False
  with redis_server.process_outcome [OF assms(1,4-8,2,3) run] show ?thesis by blast
qed

text \<open>A sandbox whose repository cannot be synced, and a job in it.\<close>

definition sample_sandbox :: "flaky sandbox" where
  "sample_sandbox = \<lparr>sx_redis = flaky_env, sx_queue = sample_queue,
     sx_host = \<lparr>ho_home = ''/root'', ho_exists = \<lambda>p. io_ret True, ho_is_dir = \<lambda>p. io_ret False, ho_is_file = \<lambda>p. io_ret False,
       ho_iterdir = \<lambda>p. io_ret [], ho_read_text = \<lambda>p. io_ret [], ho_mkdir = \<lambda>p. io_ret (), ho_rmtree = \<lambda>p. io_ret (),
       ho_rmdir = \<lambda>p. io_ret (), ho_exec = \<lambda>c. io_ret (Some 0, [], [])\<rparr>,
     sx_exec_in = \<lambda>d c. io_ret (Some 0, [], []),
     sx_auth = \<lambda>t. \<lparr>ae_read = io_raise (Exn OSError []), ae_write = \<lambda>a. io_ret (), ae_clock = io_ret 0, ae_jwt = \<lambda>n a k. Inr [],
       ae_post = \<lambda>u t. io_ret (500, None), ae_sleep = \<lambda>d. io_ret ()\<rparr>,
     sx_path_exists = \<lambda>p. True, sx_sync_publish = \<lambda>j. io_ret (),
     sx_pubsub = \<lparr>ps_subscribe = \<lambda>c. io_ret (), ps_unsubscribe = \<lambda>c. io_ret (), ps_close = io_ret ()\<rparr>,
     sx_sync_timeout = 60, sx_sync_start = 0,
     sx_sync_arrivals = [],
     sx_sync_ended = True, sx_index_configured = False, sx_index_timeout = 60, sx_index_start = 0, sx_index_arrivals = [],
     sx_index_ended = False, sx_now = ''t'', sx_time = ''1.0'', sx_pid = 7, sx_sleep = \<lambda>d. io_ret (), sx_parse_int = \<lambda>t. None,
     sx_mkdtemp = \<lambda>a b. io_ret ''/w'', sx_write_file = \<lambda>a b. io_ret (), sx_remove_file = \<lambda>a. io_ret (),
     sx_bot_username = ''bot'', sx_bot_email = ''bot@x'', sx_getenv_token = io_ret JNull, sx_setenv_token = \<lambda>t. io_ret (),
     sx_delenv_token = io_ret (), sx_repo_setup = \<lambda>a b. io_ret (), sx_http_get = \<lambda>a b. io_ret (404, None),
     sx_focus_files = \<lambda>a b. io_ret [], sx_structural_context = \<lambda>a b c d e. io_ret [], sx_thread_config = \<lambda>j. Inr False,
     sx_thread_history = \<lambda>a b c d e. io_ret [], sx_write_mcp_json = \<lambda>a b. io_ret (), sx_settings = sample_settings, sx_agents = JNull,
     sx_model = ''m'', sx_proxy_url = [], sx_sdk_timeout = 1800,
     sx_client = \<lambda>j b. io_ret ([AssistantMessage [Block [(''text'', Plain (JStr ''done''))]],
       ResultMessage (JInt 1) (JInt 5) (JBool False) JNull JNull], None),
     sx_hook_inputs = \<lambda>c. [], sx_run_end = \<lambda>c. io_ret (Completed False False), sx_control_stop = io_ret ()\<rparr>"

definition sample_job :: "json dict" where
  "sample_job = [(''repo'', JStr ''o/r''), (''ref'', JStr ''main''), (''github_token'', JStr ''t''), (''prompt'', JStr ''p'')]"

abbreviation sample_uuid :: string where "sample_uuid \<equiv> ''123e4567-e89b-12d3-a456-426614174000''"

lemma sample_sandbox_clear: "clear_of_jobs fk_state (\<lambda>w. fk_fault w = None) sample_sandbox"
  by (simp add: clear_of_jobs_def sample_sandbox_def keeps_ret keeps_raise)

lemma sample_job_run:
  "fst (process_job sample_sandbox sample_uuid sample_job sample_world) = Inr True"
  by code_simp

theorem processed_job_has_outcome_witness:
  "has_outcome print_json sample_uuid (fk_state (snd (process_job sample_sandbox sample_uuid sample_job sample_world)))"
proof -
  obtain s' where run: "process_job sample_sandbox sample_uuid sample_job sample_world = (Inr True, s')"
    using sample_job_run by (metis prod.collapse)
  have "never_stopped sample_sandbox 0" by (simp add: never_stopped_def sample_sandbox_def io_ret_run)
  from processed_job_has_outcome [OF flaky.redis_server_axioms, of sample_world sample_sandbox 0 sample_uuid sample_job, OF _ _ _ sample_sandbox_clear _ _ this run]
  show ?thesis using run by (simp add: sample_world_def empty_keyspace_wf sample_sandbox_def sample_queue_def flaky_env_def)
qed

section \<open>The options of a run\<close>

text \<open>The part of the options that says which session is continued.\<close>

definition session_part :: "sdk_builder \<Rightarrow> string option \<times> bool \<times> bool" where
  "session_part b = (sb_resume b, sb_fork_session b, sb_continue_conversation b)"

lemma session_part_kept:
  "session_part (with_model m b) = session_part b" "session_part (with_tools ts b) = session_part b"
  "session_part (with_plugin path b) = session_part b" "session_part (with_agents a b) = session_part b"
  "session_part (with_langfuse_hooks S parent b) = session_part b" "session_part (with_transcript_staging S repo w ref b) = session_part b"
  "session_part (with_writable_dir path b) = session_part b" "session_part (with_system_prompt t b) = session_part b"
  "session_part (with_repository_context md mem b) = session_part b" "session_part (with_thread_history t b) = session_part b"
  "session_part (with_structural_context t b) = session_part b" "session_part (with_streaming b) = session_part b"
  "session_part (with_session_signature url b) = session_part b" "session_part (add_summary p c b) = session_part b"
  by (simp_all add: session_part_def with_model_def with_tools_def with_plugin_def with_agents_def with_langfuse_hooks_def
      with_transcript_staging_def with_writable_dir_def with_system_prompt_def with_repository_context_def with_thread_history_def
      with_structural_context_def with_streaming_def with_session_signature_def add_summary_def Let_def)

lemma session_part_streaming: "session_part (add_streaming url p b) = session_part b"
  by (simp add: add_streaming_def session_part_kept Let_def split: option.split)

lemma session_part_plugins: "session_part (with_auto_discovered_plugins S b) = session_part b"
proof -
  have "session_part (fold (\<lambda>name. with_plugin (f name)) ns b) = session_part b" for f ns
    by (induction ns arbitrary: b) (simp_all add: session_part_kept)
  then show ?thesis by (simp add: with_auto_discovered_plugins_def)
qed

lemma session_part_configured:
  "configure_builder S agents repo w ref parent ctx md mem hist tree b = Inr b' \<Longrightarrow> session_part b' = session_part b"
  by (auto simp: configure_builder_def with_full_toolset_def res_bind_def session_part_kept session_part_plugins split: sum.splits if_splits)



text \<open>
  A first run that resumes a conversation with a summary: its system prompt is the workflow's
  context and the summary. What \<open>with_repository_context\<close> had put before it, the repository's
  \<open>CLAUDE.md\<close> and the memory index, is gone.
\<close>

lemma summary_replaces_repository_context:
  assumes "agent_builder X p 0 sid = Inr b" "pr_session_mode p \<in> {''resume'', ''continue''}"
    and "py_truthy (data_field (pr_job_data p) ''conversation_summary'' JNull)"
  shows "sb_system_prompt b = Some (opt_default [] (job_string p ''system_context'') @ nl @ nl @ ''## Previous Conversation Context'' @ nl @
    py_str (data_field (pr_job_data p) ''conversation_summary'' JNull))"
  using assms
  by (auto simp: agent_builder_def res_bind_def add_streaming_def add_summary_def with_system_prompt_def with_streaming_def
      with_session_signature_def nl_def Let_def split: sum.splits option.split)

end
