(* ===== verification/Redis_Log.thy ===== *)
theory Redis_Log
  imports Redis_Frame
begin

text \<open>
  Which computations publish nothing: \<open>mute\<close> adds to the frame of a computation that the log of
  published messages stays as it is; there is one rule per control construct.
\<close>

text \<open>A computation that keeps the keys of a set and publishes nothing.\<close>

definition mute :: "('s \<Rightarrow> rstate) \<Rightarrow> ('s \<Rightarrow> bool) \<Rightarrow> string set \<Rightarrow> ('s, 'a) io \<Rightarrow> bool" where
  "mute view ok K m \<longleftrightarrow> keeps view ok K m \<and> (\<forall>s. ok s \<longrightarrow> rlog (view (snd (m s))) = rlog (view s))"

named_theorems mute_intros

lemma mute_ret [mute_intros]: "mute view ok K (io_ret x)"
  by (simp add: mute_def keeps_ret io_ret_run)

lemma mute_raise [mute_intros]: "mute view ok K (io_raise e)"
  by (simp add: mute_def keeps_raise io_raise_run)

lemma mute_of_result [mute_intros]: "mute view ok K (io_of_result r)"
  by (simp add: mute_def keeps_of_result io_of_result_run)

lemma mute_bind [mute_intros]:
  assumes "mute view ok K m" "\<And>x. mute view ok K (f x)"
  shows "mute view ok K (io_bind m f)"
proof -
  have "rlog (view (snd (io_bind m f s))) = rlog (view s)" if s: "ok s" for s
  proof -
    obtain r s1 where m: "m s = (r, s1)" by (cases "m s")
    have 1: "ok s1" "rlog (view s1) = rlog (view s)"
      using assms(1) s m keepsD(1) [of view ok K m s r s1] by (auto simp: mute_def dest!: spec [of _ s])
    then show ?thesis using assms(2) m by (cases r) (auto simp: io_bind_run mute_def)
  qed
  then show ?thesis using assms keeps_bind [of view ok K m f] by (simp add: mute_def)
qed

lemma mute_then [mute_intros]:
  "mute view ok K m \<Longrightarrow> mute view ok K n \<Longrightarrow> mute view ok K (io_then m n)"
  unfolding io_then_def by (rule mute_bind)

lemma mute_try [mute_intros]:
  assumes "mute view ok K m" "\<And>e. mute view ok K (h e)"
  shows "mute view ok K (io_try m h)"
proof -
  have "rlog (view (snd (io_try m h s))) = rlog (view s)" if s: "ok s" for s
  proof -
    obtain r s1 where m: "m s = (r, s1)" by (cases "m s")
    have 1: "ok s1" "rlog (view s1) = rlog (view s)"
      using assms(1) s m keepsD(1) [of view ok K m s r s1] by (auto simp: mute_def dest!: spec [of _ s])
    then show ?thesis using assms(2) m by (cases r) (auto simp: io_try_run mute_def)
  qed
  then show ?thesis using assms keeps_try [of view ok K m h] by (simp add: mute_def)
qed

lemma mute_cases [mute_intros]:
  "(b \<Longrightarrow> mute view ok K m) \<Longrightarrow> (\<not> b \<Longrightarrow> mute view ok K n) \<Longrightarrow> mute view ok K (if b then m else n)"
  "(\<And>x y. mute view ok K (f x y)) \<Longrightarrow> mute view ok K (case p of (x, y) \<Rightarrow> f x y)"
  "mute view ok K m \<Longrightarrow> (\<And>x. mute view ok K (g x)) \<Longrightarrow> mute view ok K (case r of None \<Rightarrow> m | Some x \<Rightarrow> g x)"
  by (auto split: prod.split option.split)

lemma muteD:
  assumes "mute view ok K m" "ok s" "m s = (r, s')"
  shows "ok s'" "rlog (view s') = rlog (view s)" "rnow (view s') = rnow (view s)" "k' \<in> K \<Longrightarrow> rdb (view s') k' = rdb (view s) k'"
proof -
  have K: "keeps view ok K m" and L: "rlog (view (snd (m s))) = rlog (view s)" using assms(1,2) by (auto simp: mute_def)
  note keepsD [OF K assms(2,3)]
  then show "ok s'" "rnow (view s') = rnow (view s)" "k' \<in> K \<Longrightarrow> rdb (view s') k' = rdb (view s) k'" by simp_all
  show "rlog (view s') = rlog (view s)" using L assms(3) by simp
qed

lemma mute_silent: "silent view ok m \<Longrightarrow> mute view ok K m"
  by (auto simp: mute_def silent_def keeps_def)

lemma mute_fold [mute_intros]:
  assumes "\<And>acc x. mute view ok K (f acc x)"
  shows "mute view ok K (io_fold f acc xs)"
  by (induction xs arbitrary: acc) (simp_all add: mute_ret mute_bind assms)

text \<open>Reading and writing hashes publishes nothing.\<close>

lemma mute_sim:
  assumes "sim view ok m n" "\<And>st. rnow (snd (n st)) = rnow st \<and> rlog (snd (n st)) = rlog st \<and> (\<forall>k \<in> K. rdb (snd (n st)) k = rdb st k)"
  shows "mute view ok K m"
  using assms unfolding mute_def keeps_def sim_def by (metis snd_conv)

lemma log_unwritten: "rlog (rput k v d st) = rlog st" "rlog (rdrop k st) = rlog st" "rlog (rstore k v st) = rlog st"
  by (simp_all add: rput_def rdrop_def rstore_def)

context redis_server
begin

lemma mute_hash [mute_intros]:
  "mute view healthy K (x_hget E k f)"
  "k \<notin> K \<Longrightarrow> mute view healthy K (x_hset E k f v)"
  "k \<notin> K \<Longrightarrow> mute view healthy K (x_del E k)"
  by (rule mute_sim, rule command_laws, auto simp: model_env_def redis_simps redis_commands rdb_writes log_unwritten Let_def
        split: option.split)+

end

end
