(* ===== verification/Sync_Worker.thy ===== *)
theory Sync_Worker
  imports Redis_Log Message_Queue Worktree_Cleanup Agent_Worker
begin

text \<open>
  \<^verbatim>\<open>services/repo_sync/sync_worker.py\<close>: the worker that clones and fetches bare
  repositories, and what its events mean to the jobs that wait for them (\<open>wait_for_repo_sync\<close>). The
  lock object of the Redis client, the shell, the file system and the authentication service are
  parameters. The lock object may write the lock's own key; nothing else outside Redis touches it.
\<close>

section \<open>Shell commands\<close>

text \<open>\<open>execute_git_command\<close> with a string, which goes through the shell.\<close>

definition execute_git_text ::
  "(string \<Rightarrow> ('s, int option \<times> string \<times> string) io) \<Rightarrow> string \<Rightarrow> ('s, int \<times> string \<times> string) io" where
  "execute_git_text shell cmd =
     (if \<not> str_startswith (str_strip cmd) ''git '' \<and> str_strip cmd \<noteq> ''git''
      then io_raise (Exn ValueError ''Command must start with git'')
      else io_bind (shell cmd) (\<lambda>(returncode, out, err). case returncode of
          None \<Rightarrow> io_raise (Exn RuntimeError ''Git command failed to start'')
        | Some code \<Rightarrow> io_ret (code, str_strip out, str_strip err)))"

definition single_quoted :: "string \<Rightarrow> string" where "single_quoted s = CHR 0x27 # s @ [CHR 0x27]"

definition refspec_command :: "string \<Rightarrow> string" where
  "refspec_command repo_dir =
     ''git --git-dir='' @ repo_dir @ '' config remote.origin.fetch '' @ single_quoted ''+refs/heads/*:refs/remotes/origin/*''"

definition fetch_command :: "string \<Rightarrow> string" where
  "fetch_command repo_dir =
     ''git --git-dir='' @ repo_dir @ '' fetch origin '' @ single_quoted ''+refs/heads/*:refs/remotes/origin/*'' @ '' '' @
     single_quoted ''+refs/tags/*:refs/tags/*'' @ '' '' @ single_quoted ''+refs/pull/*/head:refs/pull/*/head''"

section \<open>One request\<close>

record 's sync_env =
  sy_redis :: "'s env"
  sy_host :: "'s host"
  sy_shell :: "string \<Rightarrow> ('s, int option \<times> string \<times> string) io"
  sy_service :: "('s, unit) io"
  sy_auth :: "'s auth_env"
  sy_acquire :: "string \<Rightarrow> ('s, bool) io"
  sy_release :: "string \<Rightarrow> ('s, unit) io"

definition sync_token :: "'s sync_env \<Rightarrow> ('s, string option) io" where
  "sync_token Y =
     io_try
       (io_then (sy_service Y)
       (io_bind (ae_read (sy_auth Y)) (\<lambda>a.
          if is_configured a then io_bind (get_token (sy_auth Y)) (\<lambda>t. io_ret (Some t)) else io_ret None)))
       (\<lambda>e. io_ret None)"

definition auth_prefix :: "string option \<Rightarrow> string" where
  "auth_prefix token =
     (if opt_default [] token \<noteq> [] then ''https://x-access-token:'' @ opt_default [] token @ ''@'' else ''https://'')"

text \<open>Clone or update the bare repository: the message of the failure that is reported, if any.\<close>

definition fetch_repository :: "'s sync_env \<Rightarrow> string option \<Rightarrow> string \<Rightarrow> ('s, string option) io" where
  "fetch_repository Y token repo =
     (let repo_dir = bare_repo_dir repo; url = auth_prefix token @ ''github.com/'' @ repo @ ''.git''; git = execute_git_text (sy_shell Y) in
      io_bind (ho_exists (sy_host Y) repo_dir) (\<lambda>found.
        if \<not> found then
          io_bind (git (''git clone --bare '' @ url @ '' '' @ repo_dir)) (\<lambda>(code, out, err).
            if code \<noteq> 0 then io_ret (Some (''Clone failed: '' @ err))
            else
              io_then (git (refspec_command repo_dir))
              (io_then (git (fetch_command repo_dir)) (io_ret None)))
        else
          io_then
            (if opt_default [] token \<noteq> []
             then io_then (git (''git --git-dir='' @ repo_dir @ '' remote set-url origin '' @ url)) (io_ret ()) else io_ret ())
          (io_bind (git (fetch_command repo_dir)) (\<lambda>(code, out, err).
             io_ret (if code \<noteq> 0 then Some (''Fetch failed: '' @ err) else None)))))"

definition publish_sync :: "'s sync_env \<Rightarrow> json \<Rightarrow> json \<Rightarrow> json dict \<Rightarrow> ('s, unit) io" where
  "publish_sync Y repo ref extra =
     x_publish (sy_redis Y) ''agent:sync:events''
       (x_dumps (sy_redis Y) (JObj ([(''repo'', repo), (''ref'', ref)] @ extra)))"

definition sync_failed :: "'s sync_env \<Rightarrow> json \<Rightarrow> json \<Rightarrow> string \<Rightarrow> ('s, unit) io" where
  "sync_failed Y repo ref msg = publish_sync Y repo ref [(''status'', JStr ''error''), (''error'', JStr msg)]"

definition sync_repository :: "'s sync_env \<Rightarrow> string option \<Rightarrow> json \<Rightarrow> json \<Rightarrow> ('s, unit) io" where
  "sync_repository Y token repo ref =
     io_bind (fetch_repository Y token (py_str repo)) (\<lambda>failure. case failure of
         Some msg \<Rightarrow> sync_failed Y repo ref msg
       | None \<Rightarrow>
           io_then (x_setex (sy_redis Y) (sync_complete_key (py_str repo) (py_str ref)) 3600 ''1'')
             (publish_sync Y repo ref [(''status'', JStr ''complete'')]))"

definition process_sync_request :: "'s sync_env \<Rightarrow> json \<Rightarrow> ('s, unit) io" where
  "process_sync_request Y message =
     io_bind (io_of_result (jget message ''repo'' JNull)) (\<lambda>repo.
     io_bind (io_of_result (jget message ''ref'' (JStr ''main''))) (\<lambda>ref.
       if \<not> py_truthy repo then io_ret ()
       else
         io_bind (sync_token Y) (\<lambda>token.
         io_then (ho_mkdir (sy_host Y) (parent_dir (bare_repo_dir (py_str repo))))
         (io_bind (sy_acquire Y (sync_lock_key (py_str repo))) (\<lambda>acquired.
            if \<not> acquired then io_ret ()
            else io_finally
              (io_try (sync_repository Y token repo ref)
                 (\<lambda>e. io_try (sync_failed Y repo ref (exc_msg e)) (\<lambda>e. io_ret ())))
              (sy_release Y (sync_lock_key (py_str repo))))))))"

definition sync_handler :: "'s sync_env \<Rightarrow> bool \<Rightarrow> json \<Rightarrow> ('s, unit) io" where
  "sync_handler Y shutdown message = (if shutdown then io_ret () else process_sync_request Y message)"

definition sync_main :: "'s sync_env \<Rightarrow> (real \<Rightarrow> ('s, unit) io) \<Rightarrow> redis_queue \<Rightarrow> bool \<Rightarrow> nat \<Rightarrow> ('s, redis_queue) io" where
  "sync_main Y sleep q shutdown turns = mq_subscribe (sy_redis Y) sleep q (sync_handler Y shutdown) turns"

section \<open>Every request is answered\<close>

text \<open>A computation that touches no key but \<open>k\<close> and publishes nothing.\<close>

abbreviation quiet_but :: "('s \<Rightarrow> rstate) \<Rightarrow> ('s \<Rightarrow> bool) \<Rightarrow> string \<Rightarrow> ('s, 'a) io \<Rightarrow> bool" where
  "quiet_but view ok k m \<equiv> mute view ok (- {k}) m"

definition sync_clear :: "('s \<Rightarrow> rstate) \<Rightarrow> ('s \<Rightarrow> bool) \<Rightarrow> string \<Rightarrow> 's sync_env \<Rightarrow> bool" where
  "sync_clear view ok k Y \<longleftrightarrow>
     (\<forall>p. quiet_but view ok k (ho_exists (sy_host Y) p)) \<and> (\<forall>p. quiet_but view ok k (ho_mkdir (sy_host Y) p)) \<and>
     (\<forall>c. quiet_but view ok k (sy_shell Y c)) \<and> quiet_but view ok k (sy_service Y) \<and>
     quiet_but view ok k (ae_read (sy_auth Y)) \<and> (\<forall>a. quiet_but view ok k (ae_write (sy_auth Y) a)) \<and>
     quiet_but view ok k (ae_clock (sy_auth Y)) \<and> (\<forall>u t. quiet_but view ok k (ae_post (sy_auth Y) u t)) \<and>
     (\<forall>d. quiet_but view ok k (ae_sleep (sy_auth Y) d)) \<and> quiet_but view ok k (sy_acquire Y k) \<and> quiet_but view ok k (sy_release Y k)"

lemma sync_calls:
  assumes "sync_clear view ok k Y"
  shows "quiet_but view ok k (ho_exists (sy_host Y) p)" "quiet_but view ok k (ho_mkdir (sy_host Y) p)"
    "quiet_but view ok k (sy_shell Y c)" "quiet_but view ok k (sy_service Y)" "quiet_but view ok k (ae_read (sy_auth Y))"
    "quiet_but view ok k (ae_write (sy_auth Y) a)" "quiet_but view ok k (ae_clock (sy_auth Y))"
    "quiet_but view ok k (ae_post (sy_auth Y) u t)" "quiet_but view ok k (ae_sleep (sy_auth Y) d)"
    "quiet_but view ok k (sy_acquire Y k)" "quiet_but view ok k (sy_release Y k)"
  using assms by (simp_all add: sync_clear_def)

lemma mute_retry [mute_intros]:
  assumes "quiet_but view ok k func" "\<And>d. quiet_but view ok k (sleep d)"
  shows "quiet_but view ok k (async_retry c name sleep func)"
proof -
  have "quiet_but view ok k (retry_loop c name sleep func ks)" for ks
    by (induction ks) (auto intro!: mute_intros assms split: sum.split)
  then show ?thesis by (simp add: async_retry_def)
qed

lemma quiet_token:
  assumes "sync_clear view ok k Y"
  shows "quiet_but view ok k (sync_token Y)"
  unfolding sync_token_def get_token_def refresh_token_once_def io_when_def by (intro mute_intros sync_calls [OF assms])

lemma quiet_git_text: "(\<And>c. quiet_but view ok k (shell c)) \<Longrightarrow> quiet_but view ok k (execute_git_text shell cmd)"
  unfolding execute_git_text_def by (intro mute_intros)

lemma quiet_fetch:
  assumes "sync_clear view ok k Y"
  shows "quiet_but view ok k (fetch_repository Y token repo)"
  unfolding fetch_repository_def Let_def by (intro mute_intros quiet_git_text sync_calls [OF assms])

text \<open>How the published event is read by a job that waits for the repository.\<close>

definition answers :: "(string \<Rightarrow> json option) \<Rightarrow> string \<Rightarrow> string \<Rightarrow> string \<Rightarrow> rstate \<Rightarrow> bool" where
  "answers loads repo ref data st \<longleftrightarrow>
     (let m = \<lparr>cm_type = ''message'', cm_data = data\<rparr> in
      event_verdict loads repo ref m = Complete \<and> rlook st (sync_complete_key repo ref) = Some (RStr ''1'') \<and>
        rdeadline st (sync_complete_key repo ref) = Some (rnow st + 3600) \<or>
      (\<exists>msg. event_verdict loads repo ref m = Failure msg))"

lemma complete_key_not_lock: "sync_complete_key repo ref \<in> - {sync_lock_key repo'}"
  by (simp add: sync_complete_key_def sync_lock_key_def)

context redis_server
begin

lemma publish_run:
  assumes "healthy s"
  obtains s' where "x_publish E c m s = (Inr (), s')" "healthy s'" "view s' = (view s)\<lparr>rlog := rlog (view s) @ [(c, m)]\<rparr>"
proof -
  have law: "sim view healthy (x_publish E c m) (x_publish (model_env E ord) c m)" by (rule command_laws)
  have "x_publish (model_env E ord) c m (view s) = (Inr (), (view s)\<lparr>rlog := rlog (view s) @ [(c, m)]\<rparr>)"
    by (simp add: model_env_def redis_simps redis_commands)
  from sim_run [OF law assms this] that show thesis by blast
qed

lemma setex_run:
  assumes "healthy s" "0 < t"
  obtains s' where "x_setex E k t v s = (Inr (), s')" "healthy s'" "view s' = rput k (RStr v) (Some (rnow (view s) + nat t)) (view s)"
proof -
  have law: "sim view healthy (x_setex E k t v) (x_setex (model_env E ord) k t v)" by (rule command_laws)
  have "x_setex (model_env E ord) k t v (view s) = (Inr (), rput k (RStr v) (Some (rnow (view s) + nat t)) (view s))"
    using assms(2) by (simp add: model_env_def redis_simps redis_commands)
  from sim_run [OF law assms(1) this] that show thesis by blast
qed

lemma event_read:
  assumes "distinct (map fst ((''repo'', JStr repo) # (''ref'', JStr ref) # extra))" "\<forall>p \<in> set extra. json_ok (snd p)"
  shows "event_verdict (x_loads E) repo ref \<lparr>cm_type = ''message'', cm_data = x_dumps E (JObj ([(''repo'', JStr repo), (''ref'', JStr ref)] @ extra))\<rparr> =
    (if dict_get extra ''status'' = Some (JStr ''complete'') then Complete
     else if dict_get extra ''status'' = Some (JStr ''error'') then Failure (py_str (opt_default (JStr ''unknown error'') (dict_get extra ''error'')))
     else Irrelevant)"
proof -
  have "x_loads E (x_dumps E (JObj ([(''repo'', JStr repo), (''ref'', JStr ref)] @ extra))) = Some (JObj ([(''repo'', JStr repo), (''ref'', JStr ref)] @ extra))"
    using assms by (intro loads_dumps) simp
  then show ?thesis by (simp add: event_verdict_def)
qed

lemma failed_run:
  assumes "sy_redis Y = E" "healthy s"
  obtains s' data where "sync_failed Y (JStr repo) (JStr ref) msg s = (Inr (), s')" "healthy s'"
    "view s' = (view s)\<lparr>rlog := rlog (view s) @ [(''agent:sync:events'', data)]\<rparr>" "\<And>st. answers (x_loads E) repo ref data st"
proof -
  let ?data = "x_dumps E (JObj ([(''repo'', JStr repo), (''ref'', JStr ref)] @ [(''status'', JStr ''error''), (''error'', JStr msg)]))"
  obtain s' where s': "x_publish E ''agent:sync:events'' ?data s = (Inr (), s')" "healthy s'"
      "view s' = (view s)\<lparr>rlog := rlog (view s) @ [(''agent:sync:events'', ?data)]\<rparr>"
    using publish_run [OF assms(2)] .
  have "answers (x_loads E) repo ref ?data st" for st
    unfolding answers_def Let_def by (subst (1 2) event_read) auto
  then show thesis using that s' assms(1) by (simp add: sync_failed_def publish_sync_def)
qed

text \<open>The body that runs under the lock publishes one event that answers the request.\<close>

lemma sync_body_run:
  assumes Y: "sy_redis Y = E" "sync_clear view healthy (sync_lock_key repo) Y" and s: "healthy s"
  shows "\<exists>s' data. io_try (sync_repository Y token (JStr repo) (JStr ref))
      (\<lambda>e. io_try (sync_failed Y (JStr repo) (JStr ref) (exc_msg e)) (\<lambda>e. io_ret ())) s = (Inr (), s') \<and> healthy s' \<and>
    rlog (view s') = rlog (view s) @ [(''agent:sync:events'', data)] \<and> answers (x_loads E) repo ref data (view s')"
proof -
  obtain r s1 where f: "fetch_repository Y token repo s = (r, s1)" by (cases "fetch_repository Y token repo s")
  note q = muteD [OF quiet_fetch [OF Y(2)] s f]
  have failed: "\<exists>s' data. sync_failed Y (JStr repo) (JStr ref) msg s1 = (Inr (), s') \<and> healthy s' \<and>
      rlog (view s') = rlog (view s) @ [(''agent:sync:events'', data)] \<and> answers (x_loads E) repo ref data (view s')" for msg
  proof -
    obtain s' data where "sync_failed Y (JStr repo) (JStr ref) msg s1 = (Inr (), s')" "healthy s'"
      "view s' = (view s1)\<lparr>rlog := rlog (view s1) @ [(''agent:sync:events'', data)]\<rparr>" "\<And>st. answers (x_loads E) repo ref data st"
      using failed_run [OF Y(1) q(1)] by blast
    then show ?thesis using q(2) by auto
  qed
  consider (error) e where "r = Inl e" | (failure) msg where "r = Inr (Some msg)" | (fine) "r = Inr None"
    by (cases r) auto
  then show ?thesis
  proof cases
    case error
    then show ?thesis using failed [of "exc_msg e"] f by (auto simp: sync_repository_def io_try_run io_bind_run)
  next
    case failure
    then show ?thesis using failed [of msg] f by (auto simp: sync_repository_def io_try_run io_bind_run)
  next
    case fine
    let ?key = "sync_complete_key repo ref"
    let ?data = "x_dumps E (JObj ([(''repo'', JStr repo), (''ref'', JStr ref)] @ [(''status'', JStr ''complete'')]))"
    obtain s2 where s2: "x_setex E ?key 3600 ''1'' s1 = (Inr (), s2)" "healthy s2"
        "view s2 = rput ?key (RStr ''1'') (Some (rnow (view s1) + 3600)) (view s1)"
      using setex_run [OF q(1), of 3600 ?key "''1''"] by auto
    obtain s3 where s3: "x_publish E ''agent:sync:events'' ?data s2 = (Inr (), s3)" "healthy s3"
        "view s3 = (view s2)\<lparr>rlog := rlog (view s2) @ [(''agent:sync:events'', ?data)]\<rparr>"
      using publish_run [OF s2(2)] .
    have "answers (x_loads E) repo ref ?data (view s3)"
      unfolding answers_def Let_def by (subst (1 2) event_read) (auto simp: s2(3) s3(3) redis_simps rlook_def rdeadline_def rput_def)
    moreover have "rlog (view s3) = rlog (view s) @ [(''agent:sync:events'', ?data)]" using q(2) by (simp add: s2(3) s3(3) rput_def)
    moreover have "io_try (sync_repository Y token (JStr repo) (JStr ref))
        (\<lambda>e. io_try (sync_failed Y (JStr repo) (JStr ref) (exc_msg e)) (\<lambda>e. io_ret ())) s = (Inr (), s3)"
      using f fine s2(1) s3(1) Y(1) by (simp add: sync_repository_def publish_sync_def io_try_run io_bind_run io_then_run)
    ultimately show ?thesis using s3(2) by blast
  qed
qed

lemma answered:
  assumes Y: "sy_redis Y = E" "sync_clear view healthy (sync_lock_key repo) Y" and s: "healthy s" and "repo \<noteq> []"
    and lock: "\<And>w. fst (sy_acquire Y (sync_lock_key repo) w) = Inr True" and dir: "\<And>p w. fst (ho_mkdir (sy_host Y) p w) = Inr ()"
    and run: "process_sync_request Y (JObj [(''repo'', JStr repo), (''ref'', JStr ref)]) s = (r, s')"
  shows "\<exists>data. rlog (view s') = rlog (view s) @ [(''agent:sync:events'', data)] \<and> answers (x_loads E) repo ref data (view s')"
proof -
  let ?k = "sync_lock_key repo"
  obtain token s1 where 1: "sync_token Y s = (Inr token, s1)"
    by (cases "sync_token Y s") (auto simp: sync_token_def io_try_run io_ret_run split: prod.splits sum.splits)
  obtain s2 where 2: "ho_mkdir (sy_host Y) (parent_dir (bare_repo_dir repo)) s1 = (Inr (), s2)" using dir by (metis prod.collapse)
  obtain s3 where 3: "sy_acquire Y ?k s2 = (Inr True, s3)" using lock by (metis prod.collapse)
  note q1 = muteD [OF quiet_token [OF Y(2)] s 1]
  note q2 = muteD [OF sync_calls(2) [OF Y(2)] q1(1) 2]
  note q3 = muteD [OF sync_calls(10) [OF Y(2)] q2(1) 3]
  obtain s4 data where 4: "io_try (sync_repository Y token (JStr repo) (JStr ref))
      (\<lambda>e. io_try (sync_failed Y (JStr repo) (JStr ref) (exc_msg e)) (\<lambda>e. io_ret ())) s3 = (Inr (), s4)" "healthy s4"
      "rlog (view s4) = rlog (view s3) @ [(''agent:sync:events'', data)]" "answers (x_loads E) repo ref data (view s4)"
    using sync_body_run [OF Y q3(1)] by blast
  obtain r5 s5 where 5: "sy_release Y ?k s4 = (r5, s5)" by (cases "sy_release Y ?k s4")
  note q5 = muteD [OF sync_calls(11) [OF Y(2)] 4(2) 5]
  have "s' = s5"
    using run 1 2 3 4(1) 5 assms(4)
    by (simp add: process_sync_request_def io_bind_run io_then_run io_of_result_run io_finally_def split: sum.splits)
  moreover have "rlook (view s5) (sync_complete_key repo ref) = rlook (view s4) (sync_complete_key repo ref)"
    by (simp only: rlook_def q5(3) q5(4) [OF complete_key_not_lock])
  then have "answers (x_loads E) repo ref data (view s5)"
    using 4(4) q5(3) q5(4) [OF complete_key_not_lock] by (auto simp: answers_def Let_def rdeadline_def)
  ultimately show ?thesis using q1(2) q2(2) q3(2) q5(2) 4(3) by simp
qed

end

text \<open>
  C8: a sync request that gets the repository's lock is answered by exactly one event, whether
  git succeeds, fails or raises. A job that waits for that repository and reference, and receives
  the event before its timeout, stops waiting: either it returns the bare repository, and then the
  completion is recorded for an hour, so that later jobs do not wait at all; or it raises the
  synchronisation error with the worker's message.
\<close>

theorem sync_answers_waiting_jobs:
  assumes "redis_server E view healthy ord" "healthy s" "sy_redis Y = E" "sync_clear view healthy (sync_lock_key repo) Y" "repo \<noteq> []"
    and "\<And>w. fst (sy_acquire Y (sync_lock_key repo) w) = Inr True" "\<And>p w. fst (ho_mkdir (sy_host Y) p w) = Inr ()"
    and "process_sync_request Y (JObj [(''repo'', JStr repo), (''ref'', JStr ref)]) s = (r, s')"
    and "list_all (undecided (x_loads E) repo ref (start + of_int timeout)) pre" "t \<le> start + of_int timeout"
  shows "\<exists>data res. rlog (view s') = rlog (view s) @ [(''agent:sync:events'', data)] \<and>
    sync_listen (x_loads E) repo ref (bare_repo_dir repo) timeout start (pre @ (t, \<lparr>cm_type = ''message'', cm_data = data\<rparr>) # rest) ended =
      Some res \<and>
    (res = Inr (bare_repo_dir repo) \<and> rlook (view s') (sync_complete_key repo ref) = Some (RStr ''1'') \<and>
       rdeadline (view s') (sync_complete_key repo ref) = Some (rnow (view s') + 3600) \<or>
     (\<exists>msg. res = Inl (sync_error (''Repo sync failed for '' @ repo @ '': '' @ msg))))"
proof -
  obtain data where data: "rlog (view s') = rlog (view s) @ [(''agent:sync:events'', data)]" "answers (x_loads E) repo ref data (view s')"
    using redis_server.answered [OF assms(1,3,4,2,5-8)] by blast
  then show ?thesis
    using assms(10) by (auto simp: sync_listen_skip [OF assms(9)] answers_def Let_def)
qed

definition sample_sync :: "flaky sync_env" where
  "sample_sync = \<lparr>sy_redis = flaky_env,
     sy_host = \<lparr>ho_home = ''/root'', ho_exists = \<lambda>p. io_ret False, ho_is_dir = \<lambda>p. io_ret False, ho_is_file = \<lambda>p. io_ret False,
       ho_iterdir = \<lambda>p. io_ret [], ho_read_text = \<lambda>p. io_ret [], ho_mkdir = \<lambda>p. io_ret (), ho_rmtree = \<lambda>p. io_ret (),
       ho_rmdir = \<lambda>p. io_ret (), ho_exec = \<lambda>c. io_ret (Some 0, [], [])\<rparr>,
     sy_shell = \<lambda>c. io_ret (Some 128, [], ''not found''), sy_service = io_raise (Exn ValueError ''no credentials''),
     sy_auth = \<lparr>ae_read = io_raise (Exn OSError []), ae_write = \<lambda>a. io_ret (), ae_clock = io_ret 0, ae_jwt = \<lambda>n a k. Inr [],
       ae_post = \<lambda>u t. io_ret (500, None), ae_sleep = \<lambda>d. io_ret ()\<rparr>,
     sy_acquire = \<lambda>k. io_ret True, sy_release = \<lambda>k. io_ret ()\<rparr>"

lemma sample_sync_clear: "sync_clear fk_state (\<lambda>w. fk_fault w = None) k sample_sync"
  by (simp add: sync_clear_def sample_sync_def mute_ret mute_raise)

theorem sync_answers_waiting_jobs_witness:
  "\<exists>data. rlog (fk_state (snd (process_sync_request sample_sync (JObj [(''repo'', JStr ''o/r''), (''ref'', JStr ''main'')]) sample_world))) =
    [(''agent:sync:events'', data)]"
proof -
  obtain r s' where run: "process_sync_request sample_sync (JObj [(''repo'', JStr ''o/r''), (''ref'', JStr ''main'')]) sample_world = (r, s')"
    by (cases "process_sync_request sample_sync (JObj [(''repo'', JStr ''o/r''), (''ref'', JStr ''main'')]) sample_world")
  from sync_answers_waiting_jobs [OF flaky.redis_server_axioms _ _ sample_sync_clear _ _ _ run, of 0 10 "[]" 5] run show ?thesis
    by (auto simp: sample_sync_def io_ret_run sample_world_def empty_keyspace_def)
qed

text \<open>A request that does not get the lock publishes nothing: whoever waits for its reference hears no answer to it.\<close>

lemma unlocked_request_unanswered:
  assumes "sync_clear view ok (sync_lock_key repo) Y" "ok s" "\<And>w. fst (sy_acquire Y (sync_lock_key repo) w) = Inr False"
    and "process_sync_request Y (JObj [(''repo'', JStr repo), (''ref'', JStr ref)]) s = (r, s')"
  shows "rlog (view s') = rlog (view s)"
proof -
  let ?m = "io_bind (sync_token Y) (\<lambda>token. io_then (ho_mkdir (sy_host Y) (parent_dir (bare_repo_dir repo)))
    (io_bind (sy_acquire Y (sync_lock_key repo)) (\<lambda>acquired. io_ret ())))"
  have "quiet_but view ok (sync_lock_key repo) ?m"
    by (intro mute_intros quiet_token [OF assms(1)] sync_calls [OF assms(1)])
  moreover have "snd (process_sync_request Y (JObj [(''repo'', JStr repo), (''ref'', JStr ref)]) s) = s \<or>
      snd (process_sync_request Y (JObj [(''repo'', JStr repo), (''ref'', JStr ref)]) s) = snd (?m s)"
    using assms(3)
    by (auto simp: process_sync_request_def io_bind_run io_then_run io_of_result_run io_ret_run split: prod.splits sum.splits)
      (metis fst_conv sum.inject(2))+
  ultimately show ?thesis using assms(2,4) by (auto simp: mute_def)
qed

end
