(* ===== verification/Repo_Setup.thy ===== *)
theory Repo_Setup
  imports Prelude
begin

text \<open>
  \<^verbatim>\<open>repo_setup/engine.py\<close>: which set-up commands a repository has, and running them one by one
  within a shared time budget. Starting a process, the clock and the file system are parameters; the
  YAML file is the configuration record, validated by its schema.
\<close>

section \<open>Configuration\<close>

record repo_config =
  rc_setup_commands :: "string list"
  rc_timeout :: int
  rc_env :: "string dict option"
  rc_stop_on_failure :: bool

record default_config = repo_config +
  rc_enabled :: bool

record setup_config =
  su_repositories :: "repo_config dict"
  su_default :: default_config

definition empty_default :: default_config where
  "empty_default = \<lparr>rc_setup_commands = [], rc_timeout = 300, rc_env = None, rc_stop_on_failure = True, rc_enabled = False\<rparr>"

text \<open>
  Loading the file: \<open>None\<close> when there is none; a validation or parse error becomes a \<open>ValueError\<close>.
\<close>

definition load_setup :: "setup_config result option \<Rightarrow> setup_config result" where
  "load_setup r =
     (case r of
        None \<Rightarrow> Inr \<lparr>su_repositories = [], su_default = empty_default\<rparr>
      | Some (Inr c) \<Rightarrow> Inr c
      | Some (Inl e) \<Rightarrow>
          if exc_cls e = OtherException ''ValidationError'' \<or> exc_cls e = OtherException ''YAMLError''
          then Inl (Exn ValueError ''Invalid repo setup configuration'') else Inl e)"

definition get_setup_config :: "setup_config \<Rightarrow> string \<Rightarrow> repo_config option" where
  "get_setup_config c repo =
     (case dict_get (su_repositories c) repo of
        Some r \<Rightarrow> Some r
      | None \<Rightarrow>
          if rc_enabled (su_default c) \<and> rc_setup_commands (su_default c) \<noteq> []
          then Some (repo_config.truncate (su_default c)) else None)"

definition list_configured_repos :: "setup_config \<Rightarrow> string list" where
  "list_configured_repos c = map fst (su_repositories c)"

section \<open>One command\<close>

text \<open>How a process ends: with an exit code and its output, or killed at the deadline.\<close>

datatype process_end = Exited int string string | TimedOut

record command_result =
  cr_command :: string
  cr_success :: bool
  cr_exit_code :: "int option"
  cr_error :: "string option"
  cr_error_category :: "string option"
  cr_error_type :: "string option"
  cr_stdout :: "string option"
  cr_stderr :: "string option"
  cr_timeout :: "real option"

record 's setup_env =
  se_environ :: "string dict"
  se_path_exists :: "string \<Rightarrow> ('s, bool) io"
  se_make_dir :: "string \<Rightarrow> ('s, unit) io"
  se_md5 :: "string \<Rightarrow> string"
  se_time :: "('s, real) io"
  se_run :: "string list \<Rightarrow> string \<Rightarrow> string dict \<Rightarrow> real \<Rightarrow> ('s, process_end) io"

definition failed_result :: "string \<Rightarrow> string \<Rightarrow> string option \<Rightarrow> string option \<Rightarrow> command_result" where
  "failed_result cmd err category ty = \<lparr>cr_command = cmd, cr_success = False, cr_exit_code = None, cr_error = Some err,
     cr_error_category = category, cr_error_type = ty, cr_stdout = None, cr_stderr = None, cr_timeout = None\<rparr>"

definition command_failure :: "string \<Rightarrow> exn \<Rightarrow> command_result" where
  "command_failure cmd e =
     (if exc_isinstance e OSError then failed_result cmd (exc_msg e) (Some ''os_error'') (Some ''OSError'')
      else if exc_isinstance e (OtherException ''MemoryError'')
      then failed_result cmd (exc_msg e) (Some ''resource_exhaustion'') (Some ''MemoryError'')
      else failed_result cmd (exc_msg e) (Some ''unknown'') (Some (class_name (exc_cls e))))"

definition run_command :: "'s setup_env \<Rightarrow> string \<Rightarrow> string \<Rightarrow> string dict \<Rightarrow> real \<Rightarrow> ('s, command_result) io" where
  "run_command U cmd workspace env timeout =
     io_try
       (io_bind (se_run U [''/bin/bash'', ''-c'', cmd] workspace env timeout) (\<lambda>how. io_ret (case how of
           Exited code out err \<Rightarrow> \<lparr>cr_command = cmd, cr_success = (code = 0), cr_exit_code = Some code, cr_error = None,
             cr_error_category = None, cr_error_type = None, cr_stdout = Some out, cr_stderr = Some err, cr_timeout = None\<rparr>
         | TimedOut \<Rightarrow> (failed_result cmd ''timeout'' (Some ''timeout'') None)\<lparr>cr_timeout := Some timeout\<rparr>)))
       (\<lambda>e. io_ret (command_failure cmd e))"

section \<open>All commands\<close>

definition add_env :: "string \<times> string \<Rightarrow> string dict \<Rightarrow> string dict" where
  "add_env kv env =
     (case kv of (k, v) \<Rightarrow>
        if k = ''PATH'' \<and> str_contains ''$PATH'' v
        then dict_set k (str_replace ''$PATH'' (opt_default [] (dict_get env ''PATH'')) v) env
        else dict_set k v env)"

definition setup_environment :: "'s setup_env \<Rightarrow> string \<Rightarrow> repo_config \<Rightarrow> ('s, string dict) io" where
  "setup_environment U workspace c =
     (let env = fold add_env (opt_default [] (rc_env c)) (se_environ U);
          cache_dir = ''/var/cache/repos/fast_cache/'' @ take 12 (se_md5 U workspace) in
      io_bind (se_path_exists U ''/var/cache/repos'') (\<lambda>found.
        if found then io_then (se_make_dir U cache_dir) (io_ret (dict_set ''FAST_CACHE'' cache_dir env))
        else io_ret env))"

text \<open>The loop: the results so far, and whether all were successful.\<close>

fun run_commands ::
  "'s setup_env \<Rightarrow> string \<Rightarrow> string dict \<Rightarrow> repo_config \<Rightarrow> real \<Rightarrow> string list \<Rightarrow> command_result list \<Rightarrow> bool \<Rightarrow>
   ('s, command_result list \<times> bool) io" where
  "run_commands U workspace env c start [] results ok = io_ret (results, ok)"
| "run_commands U workspace env c start (cmd # cmds) results ok =
     io_bind (se_time U) (\<lambda>now.
       let remaining = of_int (rc_timeout c) - (now - start) in
       if remaining \<le> 0 then io_ret (results @ [failed_result cmd ''timeout'' None None], False)
       else
         io_bind (run_command U cmd workspace env remaining) (\<lambda>r.
           if \<not> cr_success r then
             if rc_stop_on_failure c then io_ret (results @ [r], False)
             else run_commands U workspace env c start cmds (results @ [r]) False
           else run_commands U workspace env c start cmds (results @ [r]) ok))"

record setup_result =
  st_results :: "command_result list"
  st_all_successful :: bool
  st_elapsed_seconds :: "real option"
  st_skipped :: bool

definition run_setup :: "'s setup_env \<Rightarrow> string \<Rightarrow> repo_config \<Rightarrow> ('s, setup_result) io" where
  "run_setup U workspace c =
     (if rc_setup_commands c = []
      then io_ret \<lparr>st_results = [], st_all_successful = True, st_elapsed_seconds = None, st_skipped = True\<rparr>
      else
        io_bind (setup_environment U workspace c) (\<lambda>env.
        io_bind (se_time U) (\<lambda>start.
        io_bind (run_commands U workspace env c start (rc_setup_commands c) [] True) (\<lambda>(results, ok).
        io_bind (se_time U) (\<lambda>now.
          io_ret \<lparr>st_results = results, st_all_successful = ok, st_elapsed_seconds = Some (now - start), st_skipped = False\<rparr>)))))"

section \<open>What the result says\<close>

text \<open>Whether the commands were stopped: by a failure, or by the time budget.\<close>

definition budget_exhausted :: "command_result \<Rightarrow> bool" where
  "budget_exhausted r \<longleftrightarrow> r = failed_result (cr_command r) ''timeout'' None None"

definition faithful_results :: "repo_config \<Rightarrow> string list \<Rightarrow> command_result list \<Rightarrow> bool \<Rightarrow> bool" where
  "faithful_results c cmds rs ok \<longleftrightarrow>
     map cr_command rs = take (length rs) cmds \<and>
     (ok \<longleftrightarrow> list_all cr_success rs) \<and>
     (length rs < length cmds \<longrightarrow> rs \<noteq> [] \<and> \<not> cr_success (List.last rs) \<and> (rc_stop_on_failure c \<or> budget_exhausted (List.last rs))) \<and>
     (rc_stop_on_failure c \<longrightarrow> list_all cr_success (butlast rs))"

lemma run_command_name: "run_command U cmd w env t s = (Inr r, s') \<Longrightarrow> cr_command r = cmd"
  by (auto simp: run_command_def command_failure_def failed_result_def io_try_run io_bind_run io_ret_run
      split: prod.splits sum.splits process_end.splits if_splits)

lemma run_commands_results:
  assumes "run_commands U w env c start cmds rs ok s = (Inr (rs', ok'), s')"
  shows "\<exists>new. rs' = rs @ new \<and> faithful_results c cmds new (list_all cr_success new) \<and> (ok' \<longleftrightarrow> ok \<and> list_all cr_success new)"
  using assms
proof (induction cmds arbitrary: rs ok s)
  case Nil
  then show ?case by (auto simp: io_ret_run faithful_results_def)
next
  case (Cons cmd cmds)
  obtain now s1 where now: "se_time U s = (Inr now, s1)"
    using Cons.prems by (auto simp: io_bind_run split: prod.splits sum.splits)
  let ?left = "of_int (rc_timeout c) - (now - start)"
  show ?case
  proof (cases "?left \<le> 0")
    case True
    then have "rs' = rs @ [failed_result cmd ''timeout'' None None]" "\<not> ok'"
      using Cons.prems now by (auto simp: io_bind_run io_ret_run)
    then show ?thesis
      by (auto simp: faithful_results_def failed_result_def budget_exhausted_def)
  next
    case False
    obtain r s2 where r: "run_command U cmd w env ?left s1 = (Inr r, s2)"
      using Cons.prems now False by (auto simp: io_bind_run Let_def split: prod.splits sum.splits)
    note name = run_command_name [OF r]
    show ?thesis
    proof (cases "\<not> cr_success r \<and> rc_stop_on_failure c")
      case True
      then have "rs' = rs @ [r]" "\<not> ok'" using Cons.prems now False r by (auto simp: io_bind_run io_ret_run Let_def)
      then show ?thesis using True name by (auto simp: faithful_results_def)
    next
      case go: False
      then have "run_commands U w env c start cmds (rs @ [r]) (ok \<and> cr_success r) s2 = (Inr (rs', ok'), s')"
        using Cons.prems now False r by (auto simp: io_bind_run Let_def split: if_splits)
      from Cons.IH [OF this] obtain new where new: "rs' = (rs @ [r]) @ new" "faithful_results c cmds new (list_all cr_success new)"
          "ok' \<longleftrightarrow> (ok \<and> cr_success r) \<and> list_all cr_success new" by blast
      from new(2) go name have "faithful_results c (cmd # cmds) (r # new) (list_all cr_success (r # new))"
        by (cases "new = []") (auto simp: faithful_results_def)
      with new(1,3) show ?thesis by (intro exI [of _ "r # new"]) auto
    qed
  qed
qed

text \<open>
  The result of setting up a repository says what happened to its commands. The results are
  those of the first commands, in order, each under its own name; everything is reported as
  successful exactly if every command ran and succeeded; commands are left out only after a failure
  that the configuration says to stop at, or because the time budget was used up; and when it says
  so, nothing runs after a failure.
\<close>

theorem setup_reports_commands:
  assumes "run_setup U workspace c s = (Inr r, s')"
  shows "map cr_command (st_results r) = take (length (st_results r)) (rc_setup_commands c) \<and>
    (st_all_successful r \<longleftrightarrow> map cr_command (st_results r) = rc_setup_commands c \<and> list_all cr_success (st_results r)) \<and>
    (length (st_results r) < length (rc_setup_commands c) \<longrightarrow>
       rc_stop_on_failure c \<or> budget_exhausted (List.last (st_results r))) \<and>
    (rc_stop_on_failure c \<longrightarrow> list_all cr_success (butlast (st_results r)))"
proof (cases "rc_setup_commands c = []")
  case True
  then show ?thesis using assms by (auto simp: run_setup_def io_ret_run)
next
  case False
  obtain env start s1 s2 rs ok where run: "run_commands U workspace env c start (rc_setup_commands c) [] True s1 = (Inr (rs, ok), s2)"
      and r: "st_results r = rs" "st_all_successful r = ok"
    using assms False by (auto simp: run_setup_def io_bind_run io_ret_run split: prod.splits sum.splits)
  from run_commands_results [OF run] have f: "faithful_results c (rc_setup_commands c) rs ok" and ok: "ok \<longleftrightarrow> list_all cr_success rs" by auto
  have "length rs = length (rc_setup_commands c)" if "list_all cr_success rs"
  proof (rule ccontr)
    have le: "length rs \<le> length (rc_setup_commands c)"
      using f by (metis faithful_results_def length_map length_take min.cobounded1)
    assume "length rs \<noteq> length (rc_setup_commands c)"
    with le f have "rs \<noteq> []" "\<not> cr_success (List.last rs)" by (auto simp: faithful_results_def)
    with that show False by (simp add: list_all_iff)
  qed
  with f ok r show ?thesis by (auto simp: faithful_results_def)
qed

definition sample_setup :: "unit setup_env" where
  "sample_setup = \<lparr>se_environ = [(''PATH'', ''/bin'')], se_path_exists = \<lambda>p. io_ret True, se_make_dir = \<lambda>p. io_ret (), se_md5 = \<lambda>t. t,
     se_time = io_ret 0, se_run = \<lambda>cmd w env t. io_ret (if cmd ! 2 = ''make'' then Exited 2 [] [] else Exited 0 [] [])\<rparr>"

definition sample_repo_config :: repo_config where
  "sample_repo_config = \<lparr>rc_setup_commands = [''venv'', ''make'', ''test''], rc_timeout = 300,
     rc_env = Some [(''PATH'', ''/venv/bin:$PATH'')], rc_stop_on_failure = True\<rparr>"

lemma sample_setup_run:
  "case run_setup sample_setup ''/w'' sample_repo_config () of (Inl e, s) \<Rightarrow> False
     | (Inr r, s) \<Rightarrow> length (st_results r) = 2 \<and> \<not> st_all_successful r"
  by (simp add: run_setup_def setup_environment_def sample_setup_def sample_repo_config_def run_command_def failed_result_def add_env_def
      io_bind_run io_then_run io_try_run io_ret_run Let_def)

theorem setup_reports_commands_witness:
  "case run_setup sample_setup ''/w'' sample_repo_config () of (Inl e, s) \<Rightarrow> False
     | (Inr r, s) \<Rightarrow> map cr_command (st_results r) = [''venv'', ''make''] \<and> \<not> st_all_successful r \<and> list_all cr_success (butlast (st_results r))"
proof -
  obtain r where run: "run_setup sample_setup ''/w'' sample_repo_config () = (Inr r, ())"
    using sample_setup_run by (auto split: prod.splits sum.splits)
  with sample_setup_run have "length (st_results r) = 2" "\<not> st_all_successful r" by simp_all
  with setup_reports_commands [OF run] run show ?thesis by (simp add: sample_repo_config_def)
qed

end
