(* ===== verification/Transcript_Loader.thy ===== *)
theory Transcript_Loader
  imports Keys
begin

text \<open>
  \<^verbatim>\<open>services/session_proxy/transcript_loader.py\<close>: finding the SDK's transcript of a
  session and turning it into the messages the browser renders. The files are a parameter, a record
  of the reads the code makes of them; a file that is opened gives its lines and, when reading
  stops early, the exception. \<open>loads\<close> is \<open>json.loads\<close>, \<open>now i\<close> the time stamp of the i-th
  message.
\<close>

section \<open>Files\<close>

record transcript_files =
  tf_root :: string
  tf_exists :: "string \<Rightarrow> bool"
  tf_is_dir :: "string \<Rightarrow> bool"
  tf_iterdir :: "string \<Rightarrow> string list result"
  tf_jsonl :: "string \<Rightarrow> string list result"
  tf_mtime :: "string \<Rightarrow> real result"
  tf_lines :: "string \<Rightarrow> string list \<times> exn option"
  tf_read :: "string \<Rightarrow> string result"

text \<open>\<open>CLAUDE_HOME / "projects"\<close>\<close>

definition PROJECTS_DIR :: "transcript_files \<Rightarrow> string" where
  "PROJECTS_DIR F = tf_root F @ ''/projects''"

definition subpath :: "string \<Rightarrow> string \<Rightarrow> string" where
  "subpath d n = d @ ''/'' @ n"

section \<open>Finding a transcript\<close>

definition id_char :: "char \<Rightarrow> bool" where
  "id_char c \<longleftrightarrow> c \<in> set ''abcdefghijklmnopqrstuvwxyzABCDEFGHIJKLMNOPQRSTUVWXYZ0123456789_-''"

text \<open>
  \<open>_SESSION_ID_RE.match\<close>: \<open>$\<close> also matches before a line feed that ends the string.
\<close>

definition session_id_matches :: "string \<Rightarrow> bool" where
  "session_id_matches s =
     (let t = (if s \<noteq> [] \<and> last s = CHR 0x0A then butlast s else s) in t \<noteq> [] \<and> list_all id_char t)"

definition validate_session_id :: "string \<Rightarrow> unit result" where
  "validate_session_id session_id =
     (if session_id_matches session_id then Inr ()
      else Inl (Exn ValueError (''Invalid session_id format: '' @ repr_str session_id)))"

fun scan_for :: "transcript_files \<Rightarrow> string \<Rightarrow> string list \<Rightarrow> string option" where
  "scan_for F session_id [] = None"
| "scan_for F session_id (project_dir # dirs) =
     (if \<not> tf_is_dir F (subpath (PROJECTS_DIR F) project_dir) then scan_for F session_id dirs
      else (let candidate = subpath (subpath (PROJECTS_DIR F) project_dir) (session_id @ ''.jsonl'')
            in if tf_exists F candidate then Some candidate else scan_for F session_id dirs))"

definition find_transcript :: "transcript_files \<Rightarrow> string \<Rightarrow> string option result" where
  "find_transcript F session_id =
     res_bind (validate_session_id session_id) (\<lambda>u.
       if \<not> tf_exists F (PROJECTS_DIR F) then Inr None
       else res_bind (tf_iterdir F (PROJECTS_DIR F)) (\<lambda>dirs. Inr (scan_for F session_id dirs)))"

fun find_all_transcripts :: "transcript_files \<Rightarrow> string list \<Rightarrow> string list result" where
  "find_all_transcripts F [] = Inr []"
| "find_all_transcripts F (sid # sids) =
     res_bind (validate_session_id sid) (\<lambda>u.
     res_bind (find_transcript F sid) (\<lambda>path.
     res_bind (find_all_transcripts F sids) (\<lambda>found.
       Inr (case path of None \<Rightarrow> found | Some p \<Rightarrow> p # found))))"

text \<open>
  Whether a text block mentions the issue: \<open>issue_str in block.get("text", "")\<close> raises for a number
  or null, looks for the whole string among the items of a list and the keys of a dict.
\<close>

fun json_contains :: "string \<Rightarrow> json \<Rightarrow> bool result" where
  "json_contains p (JStr s) = Inr (str_contains p s)"
| "json_contains p (JArr xs) = Inr (py_in_list (JStr p) xs)"
| "json_contains p (JObj d) = Inr (dict_get d p \<noteq> None)"
| "json_contains p _ = Inl (Exn TypeError ''argument is not iterable'')"

fun block_mentions :: "string \<Rightarrow> json \<Rightarrow> bool result" where
  "block_mentions p (JObj d) =
     (if dict_get d ''type'' = Some (JStr ''text'') then json_contains p (opt_default (JStr []) (dict_get d ''text''))
      else Inr False)"
| "block_mentions p _ = Inr False"

fun any_mentions :: "string \<Rightarrow> json list \<Rightarrow> bool result" where
  "any_mentions p [] = Inr False"
| "any_mentions p (b # bs) = res_bind (block_mentions p b) (\<lambda>m. if m then Inr True else any_mentions p bs)"

definition entry_mentions :: "string \<Rightarrow> json \<Rightarrow> bool result" where
  "entry_mentions p entry =
     res_bind (jget entry ''type'' JNull) (\<lambda>ty.
       if ty \<noteq> JStr ''user'' then Inr False
       else res_bind (jget2 entry ''message'' ''content'' (JStr [])) (\<lambda>content. case content of
           JStr s \<Rightarrow> Inr (str_contains p s)
         | JArr bs \<Rightarrow> any_mentions p bs
         | _ \<Rightarrow> Inr False))"

text \<open>
  The scan of the first 30 lines. An exception, of an entry or of reading, ends it without a match.
\<close>

fun scan_lines :: "(string \<Rightarrow> json option) \<Rightarrow> string \<Rightarrow> string list \<Rightarrow> bool" where
  "scan_lines loads p [] = False"
| "scan_lines loads p (raw_line # raw_lines) =
     (let line = str_strip raw_line in
      if line = [] then scan_lines loads p raw_lines
      else (case loads line of
          None \<Rightarrow> scan_lines loads p raw_lines
        | Some entry \<Rightarrow>
            (case entry_mentions p entry of
               Inl e \<Rightarrow> False
             | Inr m \<Rightarrow> if m then True else scan_lines loads p raw_lines)))"

definition transcript_matches ::
  "transcript_files \<Rightarrow> (string \<Rightarrow> json option) \<Rightarrow> string \<Rightarrow> int \<Rightarrow> string \<Rightarrow> bool" where
  "transcript_matches F loads path issue_number workflow =
     scan_lines loads (CHR ''#'' # show_int issue_number) (take 30 (fst (tf_lines F path)))"

fun stat_all :: "transcript_files \<Rightarrow> string list \<Rightarrow> (real \<times> string) list result" where
  "stat_all F [] = Inr []"
| "stat_all F (p # ps) =
     res_bind (tf_mtime F p) (\<lambda>t. res_bind (stat_all F ps) (\<lambda>rest. Inr ((t, p) # rest)))"

fun repo_candidates ::
  "transcript_files \<Rightarrow> (string \<Rightarrow> json option) \<Rightarrow> string \<Rightarrow> int \<Rightarrow> string \<Rightarrow> string list \<Rightarrow> (real \<times> string) list result" where
  "repo_candidates F loads repo_segment issue_number workflow [] = Inr []"
| "repo_candidates F loads repo_segment issue_number workflow (project_dir # dirs) =
     (let d = subpath (PROJECTS_DIR F) project_dir in
      if \<not> tf_is_dir F d \<or> \<not> str_contains repo_segment project_dir
      then repo_candidates F loads repo_segment issue_number workflow dirs
      else
        res_bind (tf_jsonl F d) (\<lambda>names.
        res_bind (stat_all F (filter (\<lambda>p. transcript_matches F loads p issue_number workflow) (map (subpath d) names))) (\<lambda>found.
        res_bind (repo_candidates F loads repo_segment issue_number workflow dirs) (\<lambda>rest. Inr (found @ rest)))))"

text \<open>The stable descending sort by time; its head is the first of the latest.\<close>

fun most_recent :: "(real \<times> string) list \<Rightarrow> string option" where
  "most_recent [] = None"
| "most_recent ((t, p) # rest) =
     (if list_all (\<lambda>q. fst q \<le> t) rest then Some p else most_recent rest)"

definition find_transcript_by_repo ::
  "transcript_files \<Rightarrow> (string \<Rightarrow> json option) \<Rightarrow> string \<Rightarrow> int \<Rightarrow> string \<Rightarrow> string option result" where
  "find_transcript_by_repo F loads repo issue_number workflow =
     (if \<not> tf_exists F (PROJECTS_DIR F) then Inr None
      else
        res_bind (tf_iterdir F (PROJECTS_DIR F)) (\<lambda>dirs.
        res_bind (repo_candidates F loads (sanitize_repo_key repo) issue_number workflow dirs) (\<lambda>candidates.
          Inr (most_recent candidates))))"

definition load_transcript_meta :: "transcript_files \<Rightarrow> (string \<Rightarrow> json option) \<Rightarrow> string \<Rightarrow> json" where
  "load_transcript_meta F loads transcript_path =
     (let meta_path = with_suffix transcript_path ''.meta.json'' in
      if \<not> tf_exists F meta_path then JObj []
      else (case tf_read F meta_path of
          Inl e \<Rightarrow> JObj []
        | Inr s \<Rightarrow> opt_default (JObj []) (loads s)))"

section \<open>The messages of a transcript\<close>

text \<open>
  Iterating over \<open>content\<close>: a dict gives its keys, which are not blocks; null, a number or a
  Boolean raises.
\<close>

fun content_blocks :: "json \<Rightarrow> json dict list result" where
  "content_blocks (JArr bs) = Inr (List.map_filter (\<lambda>b. case b of JObj d \<Rightarrow> Some d | _ \<Rightarrow> None) bs)"
| "content_blocks (JObj d) = Inr []"
| "content_blocks (JStr s) = Inr []"
| "content_blocks _ = Inl (Exn TypeError ''object is not iterable'')"

fun join_texts :: "json list \<Rightarrow> string list result" where
  "join_texts [] = Inr []"
| "join_texts (JStr s # js) = res_bind (join_texts js) (\<lambda>ss. Inr (s # ss))"
| "join_texts (j # js) = Inl (Exn TypeError ''sequence item: expected str instance'')"

definition extract_user_text :: "json \<Rightarrow> string result" where
  "extract_user_text content =
     (case content of
        JStr s \<Rightarrow> Inr s
      | _ \<Rightarrow>
          res_bind (content_blocks content) (\<lambda>blocks.
          res_bind (join_texts (map (\<lambda>d. opt_default (JStr []) (dict_get d ''text''))
              (filter (\<lambda>d. dict_get d ''type'' = Some (JStr ''text'')) blocks))) (\<lambda>parts.
            Inr (str_join '' '' parts))))"

definition assistant_block :: "json dict \<Rightarrow> json option" where
  "assistant_block d =
     (if dict_get d ''type'' = Some (JStr ''text'')
      then Some (JObj [(''type'', JStr ''text''), (''text'', opt_default (JStr []) (dict_get d ''text''))])
      else if dict_get d ''type'' = Some (JStr ''tool_use'')
      then Some (JObj [(''type'', JStr ''tool_use''), (''name'', opt_default (JStr []) (dict_get d ''name'')),
             (''input'', opt_default (JObj []) (dict_get d ''input''))])
      else if dict_get d ''type'' = Some (JStr ''thinking'') then Some (JObj [(''type'', JStr ''thinking'')])
      else None)"

definition extract_assistant_blocks :: "json \<Rightarrow> json list result" where
  "extract_assistant_blocks content =
     (case content of
        JStr s \<Rightarrow> Inr [JObj [(''type'', JStr ''text''), (''text'', JStr s)]]
      | _ \<Rightarrow> res_bind (content_blocks content) (\<lambda>blocks. Inr (List.map_filter assistant_block blocks)))"

definition ws_message :: "string \<Rightarrow> json \<Rightarrow> string \<Rightarrow> json" where
  "ws_message ty content ts =
     JObj [(''type'', JStr ty), (''data'', JObj [(''content'', content)]), (''ts'', JStr ts)]"

text \<open>The message one entry adds, if any.\<close>

definition entry_message :: "string \<Rightarrow> json \<Rightarrow> json option result" where
  "entry_message ts entry =
     res_bind (jget entry ''type'' JNull) (\<lambda>entry_type.
       if entry_type \<in> set [JStr ''queue-operation'', JStr ''progress'', JStr ''system''] then Inr None
       else
         res_bind (jget entry ''message'' (JObj [])) (\<lambda>msg.
         res_bind (jget msg ''role'' JNull) (\<lambda>r.
         res_bind (jget msg ''content'' (JStr [])) (\<lambda>content.
           let role = py_or r entry_type in
           if role = JStr ''user'' then
             res_bind (extract_user_text content) (\<lambda>t.
               Inr (if t \<noteq> [] then Some (ws_message ''user_message'' (JStr t) ts) else None))
           else if role = JStr ''assistant'' then
             res_bind (extract_assistant_blocks content) (\<lambda>blocks.
               Inr (if blocks \<noteq> [] then Some (ws_message ''assistant_message'' (JArr blocks) ts) else None))
           else Inr None))))"

text \<open>
  The loop over the lines with the messages so far. An exception ends it; what was collected is
  returned.
\<close>

fun history_loop :: "(string \<Rightarrow> json option) \<Rightarrow> (nat \<Rightarrow> string) \<Rightarrow> json list \<Rightarrow> string list \<Rightarrow> json list" where
  "history_loop loads now messages [] = messages"
| "history_loop loads now messages (raw_line # raw_lines) =
     (let line = str_strip raw_line in
      if line = [] then history_loop loads now messages raw_lines
      else (case loads line of
          None \<Rightarrow> history_loop loads now messages raw_lines
        | Some entry \<Rightarrow>
            (case entry_message (now (length messages)) entry of
               Inl e \<Rightarrow> messages
             | Inr None \<Rightarrow> history_loop loads now messages raw_lines
             | Inr (Some m) \<Rightarrow> history_loop loads now (messages @ [m]) raw_lines)))"

definition load_transcript_history ::
  "transcript_files \<Rightarrow> (string \<Rightarrow> json option) \<Rightarrow> (nat \<Rightarrow> string) \<Rightarrow> string \<Rightarrow> json list" where
  "load_transcript_history F loads now transcript_path =
     history_loop loads now [] (fst (tf_lines F transcript_path))"
section \<open>What the browser's client can read\<close>

text \<open>The type of a message of the history and of its blocks.\<close>

fun browser_block :: "json \<Rightarrow> bool" where
  "browser_block (JObj [(a, JStr ty), (b, v)]) = (a = ''type'' \<and> ty = ''text'' \<and> b = ''text'')"
| "browser_block (JObj [(a, JStr ty), (b, v), (c, w)]) = (a = ''type'' \<and> ty = ''tool_use'' \<and> b = ''name'' \<and> c = ''input'')"
| "browser_block (JObj [(a, JStr ty)]) = (a = ''type'' \<and> ty = ''thinking'')"
| "browser_block _ = False"

fun browser_message_ok :: "json \<Rightarrow> bool" where
  "browser_message_ok (JObj [(a, JStr ty), (b, JObj [(c, content)]), (d, JStr ts)]) =
     (a = ''type'' \<and> b = ''data'' \<and> c = ''content'' \<and> d = ''ts'' \<and>
      (case content of
         JStr t \<Rightarrow> ty = ''user_message'' \<and> t \<noteq> []
       | JArr bs \<Rightarrow> ty = ''assistant_message'' \<and> bs \<noteq> [] \<and> list_all browser_block bs
       | _ \<Rightarrow> False))"
| "browser_message_ok _ = False"

lemma assistant_block_ok: "assistant_block d = Some j \<Longrightarrow> browser_block j"
  by (auto simp: assistant_block_def split: if_splits)

lemma list_all_map_filter: "(\<And>x y. f x = Some y \<Longrightarrow> Q y) \<Longrightarrow> list_all Q (List.map_filter f xs)"
  by (induction xs) (simp_all split: option.split)

lemma extracted_blocks_ok:
  assumes "extract_assistant_blocks content = Inr bs"
  shows "list_all browser_block bs"
  using assms list_all_map_filter [of assistant_block browser_block, OF assistant_block_ok]
  by (cases content) (auto simp: extract_assistant_blocks_def)

lemma entry_message_ok:
  assumes "entry_message ts entry = Inr (Some m)"
  shows "browser_message_ok m"
proof -
  from assms consider
      t where "t \<noteq> []" "m = ws_message ''user_message'' (JStr t) ts"
    | content bs where "extract_assistant_blocks content = Inr bs" "bs \<noteq> []" "m = ws_message ''assistant_message'' (JArr bs) ts"
    by (auto simp: entry_message_def res_bind_Inr_iff Let_def split: if_splits)
  then show ?thesis by cases (auto simp: ws_message_def extracted_blocks_ok)
qed

lemma history_loop_ok:
  "list_all browser_message_ok messages \<Longrightarrow> list_all browser_message_ok (history_loop loads now messages lines)"
  by (induction loads now messages lines rule: history_loop.induct)
    (auto simp: Let_def entry_message_ok split: option.split sum.split)

text \<open>
  Loading a transcript that grew in the meantime only appends: what the browser already has stays,
  unless an entry could not be read.
\<close>

lemma history_loop_prefix: "prefix messages (history_loop loads now messages lines)"
proof (induction lines arbitrary: messages)
  case Nil
  then show ?case by simp
next
  case (Cons raw lines)
  have "prefix messages (history_loop loads now (messages @ [m]) lines)" for m
    using Cons.IH [of "messages @ [m]"] by (rule append_prefixD)
  with Cons.IH [of messages] show ?case by (simp add: Let_def split: option.split sum.split)
qed

lemma history_grows: "prefix (history_loop loads now messages xs) (history_loop loads now messages (xs @ ys))"
  by (induction loads now messages xs rule: history_loop.induct)
    (auto simp: Let_def history_loop_prefix split: option.split sum.split)


lemma scan_for_Some:
  "scan_for F sid dirs = Some path \<Longrightarrow>
   \<exists>d \<in> set dirs. path = subpath (subpath (PROJECTS_DIR F) d) (sid @ ''.jsonl'') \<and> tf_exists F path"
  by (induction F sid dirs rule: scan_for.induct) (auto simp: Let_def split: if_splits)

lemma not_id_char: "\<not> id_char CHR ''/''" "\<not> id_char CHR ''.''"
  by (simp_all add: id_char_def)

lemma session_id_chars:
  assumes "session_id_matches s"
  shows "CHR ''/'' \<notin> set s \<and> CHR ''.'' \<notin> set s"
proof -
  have ids: "CHR ''/'' \<notin> set t \<and> CHR ''.'' \<notin> set t" if "list_all id_char t" for t
    using that not_id_char by (auto simp: list_all_iff)
  show ?thesis
  proof (cases "s \<noteq> [] \<and> last s = CHR 0x0A")
    case True
    then have "s = butlast s @ [CHR 0x0A]" by (metis append_butlast_last_id)
    then have "set s = insert (CHR 0x0A) (set (butlast s))" by (metis Un_insert_right list.simps(15) set_append set_empty sup_bot_right empty_set)
    then show ?thesis using True assms ids [of "butlast s"] by (simp add: session_id_matches_def Let_def)
  next
    case False
    then show ?thesis using assms ids [of s] by (auto simp: session_id_matches_def Let_def)
  qed
qed

text \<open>
  C37: a session id cannot lead outside the directory of transcripts: the file found is the one of
  that name directly inside a listed project directory, and the id has no path separator and no dot.
\<close>

theorem transcript_inside_projects:
  assumes "find_transcript F session_id = Inr (Some path)"
  shows "\<exists>dirs d. tf_iterdir F (PROJECTS_DIR F) = Inr dirs \<and> d \<in> set dirs \<and> tf_exists F path \<and>
    path = PROJECTS_DIR F @ ''/'' @ d @ ''/'' @ session_id @ ''.jsonl'' \<and>
    CHR ''/'' \<notin> set session_id \<and> CHR ''.'' \<notin> set session_id"
proof -
  obtain dirs where dirs: "tf_iterdir F (PROJECTS_DIR F) = Inr dirs" "scan_for F session_id dirs = Some path"
    and m: "session_id_matches session_id"
    using assms by (auto simp: find_transcript_def validate_session_id_def res_bind_Inr_iff split: if_splits)
  from scan_for_Some [OF dirs(2)] dirs(1) session_id_chars [OF m] show ?thesis
    by (auto simp: subpath_def)
qed

definition sample_files :: transcript_files where
  "sample_files = \<lparr>tf_root = ''/h'', tf_exists = (\<lambda>p. True), tf_is_dir = (\<lambda>p. True),
     tf_iterdir = (\<lambda>p. Inr [''-work-o--r'']), tf_jsonl = (\<lambda>p. Inr [''s-1.jsonl'']), tf_mtime = (\<lambda>p. Inr 0),
     tf_lines = (\<lambda>p. ([], None)), tf_read = (\<lambda>p. Inr [])\<rparr>"

theorem transcript_inside_projects_witness:
  "find_transcript sample_files ''s-1'' = Inr (Some ''/h/projects/-work-o--r/s-1.jsonl'') \<and> CHR ''/'' \<notin> set ''s-1''"
proof -
  have run: "find_transcript sample_files ''s-1'' = Inr (Some ''/h/projects/-work-o--r/s-1.jsonl'')"
    by (simp add: find_transcript_def validate_session_id_def session_id_matches_def id_char_def sample_files_def
        PROJECTS_DIR_def subpath_def)
  from transcript_inside_projects [OF this] run show ?thesis by blast
qed

end
