(* ===== verification/Session_Proxy.thy ===== *)
theory Session_Proxy
  imports Transcript_Loader Sandbox_Processor
begin

text \<open>
  \<^verbatim>\<open>services/session_proxy/main.py\<close>: the bridge between the browsers and Redis. A browser
  opens a WebSocket by a readable path, gets the conversation so far, then the live messages; what
  it sends goes to the running agent, or, when the session has ended, becomes a job that resumes it.
  The WebSocket, the subscription and the transcript files are parameters; the UUIDs drawn and the
  time stamp taken while one message is handled come with the message.
\<close>

section \<open>Sessions and paths\<close>

record 's proxy =
  px_redis :: "'s env"
  px_files :: transcript_files
  px_public_url :: string
  px_allowed_origins :: string
  px_now :: "nat \<Rightarrow> string"
  px_subscribe :: "string \<Rightarrow> ('s, unit) io"
  px_unsubscribe :: "string \<Rightarrow> ('s, unit) io"

record 's websocket =
  ws_accept :: "('s, unit) io"
  ws_send_text :: "string \<Rightarrow> ('s, unit) io"
  ws_close :: "int \<Rightarrow> string \<Rightarrow> ('s, unit) io"
  ws_origin :: string

record browser_message =
  bm_text :: string
  bm_token :: string
  bm_job_id :: string
  bm_ts :: string

record session_path =
  sp_owner :: string
  sp_repo :: string
  sp_segment :: string
  sp_number :: string
  sp_workflow :: string

definition SENSITIVE_SESSION_FIELDS :: "string list" where
  "SENSITIVE_SESSION_FIELDS = [''installation_id'']"

definition sanitize_session :: "json dict \<Rightarrow> json dict" where
  "sanitize_session session = filter (\<lambda>(k, v). k \<notin> set SENSITIVE_SESSION_FIELDS) session"

text \<open>A hash of Redis, all strings, as a dict of JSON values.\<close>

definition redis_session :: "string dict \<Rightarrow> json dict" where
  "redis_session h = map (\<lambda>(k, v). (k, JStr v)) h"

text \<open>
  \<open>int(s)\<close>: white space around, a sign, and decimal digits with single underscores between them.
\<close>

fun dec_digits :: "string \<Rightarrow> bool" where
  "dec_digits [] = False"
| "dec_digits [c] = is_digit c"
| "dec_digits (c # d # cs) =
     (is_digit c \<and> (if d = CHR ''_'' then dec_digits cs else dec_digits (d # cs)))"

definition py_int :: "string \<Rightarrow> int result" where
  "py_int s =
     (let t = str_strip s;
          u = (if take 1 t = ''-'' \<or> take 1 t = ''+'' then drop 1 t else t);
          n = int (read_nat (filter is_digit u))
      in if dec_digits u then Inr (if take 1 t = ''-'' then - n else n)
         else Inl (Exn ValueError ''invalid literal for int()''))"

record parsed_path =
  pp_repo :: string
  pp_issue_number :: int
  pp_workflow :: string
  pp_thread_type :: string

definition parse_session_path :: "session_path \<Rightarrow> parsed_path result" where
  "parse_session_path p =
     res_bind (py_int (sp_number p)) (\<lambda>n. Inr
       \<lparr>pp_repo = sp_owner p @ ''/'' @ sp_repo p, pp_issue_number = n, pp_workflow = sp_workflow p,
        pp_thread_type = url_segment_to_thread_type (sp_segment p)\<rparr>)"

definition resolve_session :: "'s env \<Rightarrow> session_path \<Rightarrow> ('s, (string \<times> json dict) option) io" where
  "resolve_session E p =
     io_bind (io_of_result (parse_session_path p)) (\<lambda>parsed.
     io_bind (find_session E (pp_repo parsed) (pp_issue_number parsed) (pp_workflow parsed) (pp_thread_type parsed)) (\<lambda>token.
       if opt_default [] token = [] then io_ret None
       else io_bind (stream_get_session E (opt_default [] token)) (\<lambda>session. io_ret
         (map_option (\<lambda>h. (opt_default [] token, redis_session h)) session))))"

section \<open>Sessions known only by their transcript\<close>

fun json_items :: "json \<Rightarrow> json dict result" where
  "json_items (JObj d) = Inr d"
| "json_items _ = Inl (Exn AttributeError ''items'')"

definition transcript_token :: "string \<Rightarrow> string" where
  "transcript_token path = ''transcript:'' @ path_stem path"

definition transcript_session :: "'s proxy \<Rightarrow> session_path \<Rightarrow> int \<Rightarrow> string \<Rightarrow> json dict result" where
  "transcript_session P p issue_number path =
     (let meta = load_transcript_meta (px_files P) (x_loads (px_redis P)) path;
          thread_type = url_segment_to_thread_type (sp_segment p);
          full_url = build_session_url (str_strip (px_public_url P)) (sp_owner p) (sp_repo p) thread_type
            (JInt issue_number) (sp_workflow p)
      in res_bind (json_items meta) (\<lambda>fields. Inr (dict_update
           [(''token'', JStr (transcript_token path)), (''repo'', JStr (sp_owner p @ ''/'' @ sp_repo p)),
            (''issue_number'', JStr (show_int issue_number)), (''workflow'', JStr (sp_workflow p)),
            (''thread_type'', JStr thread_type), (''status'', JStr ''completed''), (''session_proxy_url'', JStr full_url)]
           (sanitize_session fields))))"

definition resolve_transcript :: "'s proxy \<Rightarrow> session_path \<Rightarrow> int \<Rightarrow> (string \<times> json dict) option result" where
  "resolve_transcript P p issue_number =
     res_bind (find_transcript_by_repo (px_files P) (x_loads (px_redis P)) (sp_owner p @ ''/'' @ sp_repo p)
         issue_number (sp_workflow p)) (\<lambda>path. case path of
       None \<Rightarrow> Inr None
     | Some path \<Rightarrow> res_bind (transcript_session P p issue_number path) (\<lambda>session.
         Inr (Some (transcript_token path, session))))"

text \<open>The resolve endpoint: the status code and the body.\<close>

definition found_body :: "string \<Rightarrow> json dict \<Rightarrow> json" where
  "found_body token session = JObj [(''status'', JStr ''found''), (''token'', JStr token), (''session'', JObj session)]"

definition pending_body :: json where
  "pending_body = JObj [(''status'', JStr ''pending''),
     (''message'', JStr ''No active session for this issue/workflow yet.'')]"

definition resolve_endpoint :: "'s proxy \<Rightarrow> session_path \<Rightarrow> ('s, int \<times> json) io" where
  "resolve_endpoint P p =
     (case py_int (sp_number p) of
        Inl e \<Rightarrow> io_raise (Exn (HTTPException 400) ''Issue number must be an integer'')
      | Inr issue_number \<Rightarrow>
          io_bind (resolve_session (px_redis P) p) (\<lambda>found. case found of
              Some (token, session) \<Rightarrow> io_ret (200, found_body token (sanitize_session session))
            | None \<Rightarrow>
                io_bind (io_of_result (resolve_transcript P p issue_number)) (\<lambda>found. case found of
                    Some (token, session) \<Rightarrow> io_ret (200, found_body token session)
                  | None \<Rightarrow> io_ret (404, pending_body))))"

definition resolve_token_from_path :: "'s proxy \<Rightarrow> session_path \<Rightarrow> ('s, (string \<times> json dict) option) io" where
  "resolve_token_from_path P p =
     io_bind (resolve_session (px_redis P) p) (\<lambda>found.
       if found \<noteq> None then io_ret found
       else (case py_int (sp_number p) of
           Inl e \<Rightarrow> io_ret None
         | Inr issue_number \<Rightarrow> io_of_result (resolve_transcript P p issue_number)))"

section \<open>Jobs that resume a session\<close>

definition JOB_TTL_SECONDS :: int where "JOB_TTL_SECONDS = 3600"
definition DEFAULT_SESSION_TTL_HOURS :: int where "DEFAULT_SESSION_TTL_HOURS = 720"

definition proxy_create_job :: "'s env \<Rightarrow> string \<Rightarrow> json \<Rightarrow> ('s, string) io" where
  "proxy_create_job E job_id job_data =
     io_then (x_setex E (job_data_key job_id) JOB_TTL_SECONDS (x_dumps E job_data))
     (io_then (x_setex E (job_status_key job_id) JOB_TTL_SECONDS ''pending'')
     (io_then (x_rpush E PENDING_JOB_QUEUE job_id) (io_ret job_id)))"

definition session_value :: "json dict \<Rightarrow> string \<Rightarrow> json \<Rightarrow> json" where
  "session_value session k dflt = opt_default dflt (dict_get session k)"

definition digits_or_zero :: "string \<Rightarrow> int" where
  "digits_or_zero s = (if s \<noteq> [] \<and> list_all is_digit s then int (read_nat s) else 0)"

definition build_job_data :: "json dict \<Rightarrow> string \<Rightarrow> json dict \<Rightarrow> string \<Rightarrow> json" where
  "build_job_data session content conversation_config token =
     (let issue_number = digits_or_zero (py_str (session_value session ''issue_number'' (JStr ''0'')));
          session_id = session_value session ''session_id'' (JStr [])
      in JObj
        [(''repo'', session_value session ''repo'' (JStr [])),
         (''issue_number'', JInt issue_number),
         (''prompt'', JStr content),
         (''user'', session_value session ''user'' (JStr ''remote-control'')),
         (''workflow_name'', session_value session ''workflow'' (JStr ''generic'')),
         (''ref'', session_value session ''ref'' (JStr ''main'')),
         (''session_mode'', JStr (if py_truthy session_id then ''resume'' else ''new'')),
         (''session_id'', py_or session_id JNull),
         (''session_token'', JStr token),
         (''streaming_enabled'', JBool True),
         (''installation_id'', session_value session ''installation_id'' (JStr [])),
         (''thread_type'', session_value session ''thread_type'' (JStr ''issue'')),
         (''thread_id'', JStr (show_int issue_number)),
         (''conversation_config'', JObj conversation_config),
         (''user_query'', JStr content),
         (''event_data'', JObj [(''event_type'', JStr ''remote_control'')])])"

definition set_default :: "string \<Rightarrow> 'v \<Rightarrow> 'v dict \<Rightarrow> 'v dict" where
  "set_default k v d = (if dict_get d k = None then d @ [(k, v)] else d)"

definition fallback_config :: "json dict" where
  "fallback_config = [(''persist'', JBool True), (''ttl_hours'', JInt DEFAULT_SESSION_TTL_HOURS),
     (''max_turns'', JInt 20), (''auto_continue'', JBool False)]"

text \<open>
  The configuration of the session: \<open>json.loads\<close> of anything but a string raises \<open>TypeError\<close>,
  which is caught like a text that is not JSON; \<open>setdefault\<close> on anything but a dict raises.
\<close>

definition session_config :: "(string \<Rightarrow> json option) \<Rightarrow> json dict \<Rightarrow> json \<Rightarrow> json dict result" where
  "session_config loads fallback raw =
     (case (if \<not> py_truthy raw then JObj fallback
            else (case raw of JStr s \<Rightarrow> opt_default (JObj fallback) (loads s) | _ \<Rightarrow> JObj fallback)) of
        JObj d \<Rightarrow> Inr (set_default ''persist'' (JBool True) d)
      | _ \<Rightarrow> Inl (Exn AttributeError ''setdefault''))"

definition resume_config :: "(string \<Rightarrow> json option) \<Rightarrow> json dict \<Rightarrow> json dict result" where
  "resume_config loads session =
     (let raw = session_value session ''conversation_config'' (JStr [])
      in session_config loads (if py_truthy raw then fallback_config else []) raw)"

text \<open>
  \<open>ttl_hours * 3600\<close>: a float, a string or a list multiplies too, but is no argument \<open>EXPIRE\<close>
  accepts (\<open>None\<close>).
\<close>

fun ttl_seconds_of :: "json \<Rightarrow> int option result" where
  "ttl_seconds_of (JInt n) = Inr (Some (n * 3600))"
| "ttl_seconds_of (JBool b) = Inr (Some (if b then 3600 else 0))"
| "ttl_seconds_of JNull = Inl (Exn TypeError ''unsupported operand'')"
| "ttl_seconds_of (JObj d) = Inl (Exn TypeError ''unsupported operand'')"
| "ttl_seconds_of _ = Inr None"

definition resume_running :: "'s env \<Rightarrow> string \<Rightarrow> int option \<Rightarrow> ('s, unit) io" where
  "resume_running E token ttl_seconds =
     (case ttl_seconds of
        Some n \<Rightarrow> set_running E token n
      | None \<Rightarrow> io_then (x_hset E (SESSION_KEY token) ''status'' ''running'') (io_raise not_integer))"

definition user_message :: "string \<Rightarrow> string \<Rightarrow> json" where
  "user_message content ts =
     JObj [(''type'', JStr ''user_message''), (''data'', JObj [(''content'', JStr content)]), (''ts'', JStr ts)]"

definition handle_resume_message ::
  "'s env \<Rightarrow> string \<Rightarrow> string \<Rightarrow> string \<Rightarrow> string \<Rightarrow> json dict \<Rightarrow> ('s, unit) io" where
  "handle_resume_message E job_id now token content session =
     io_bind (io_of_result (resume_config (x_loads E) session)) (\<lambda>conversation_config.
     io_bind (io_of_result (ttl_seconds_of
         (opt_default (JInt DEFAULT_SESSION_TTL_HOURS) (dict_get conversation_config ''ttl_hours'')))) (\<lambda>ttl_seconds.
     io_then (resume_running E token ttl_seconds)
     (io_then (increment_run_count E token)
       (let user_msg = x_dumps E (user_message content now) in
        io_then (x_publish E (MSG_CHANNEL token) user_msg)
        (io_then (x_rpush E (SESSION_HISTORY_KEY token) user_msg)
        (io_then (proxy_create_job E job_id (build_job_data session content conversation_config token))
          (io_ret ())))))))"

section \<open>From the browser to Redis\<close>

text \<open>
  One message of the browser, with the status of the session read anew. \<open>swallow\<close> is the handler
  that logs: a message that cannot be handled does not end the connection.
\<close>

definition swallow :: "('s, unit) io \<Rightarrow> ('s, unit) io" where
  "swallow m = io_try m (\<lambda>e. io_ret ())"

text \<open>\<open>msg.get("content", "").strip()\<close>\<close>

definition message_content :: "json \<Rightarrow> string result" where
  "message_content msg =
     res_bind (jget msg ''content'' (JStr [])) (\<lambda>c. case c of
         JStr s \<Rightarrow> Inr (str_strip s)
       | _ \<Rightarrow> Inl (Exn AttributeError ''strip''))"

definition parse_text :: "(string \<Rightarrow> json option) \<Rightarrow> string \<Rightarrow> json result" where
  "parse_text loads s = (case loads s of None \<Rightarrow> Inl (Exn JSONDecodeError s) | Some j \<Rightarrow> Inr j)"

definition inject_from_browser :: "'s env \<Rightarrow> string \<Rightarrow> browser_message \<Rightarrow> string \<Rightarrow> ('s, unit) io" where
  "inject_from_browser E token b content =
     io_bind (stream_get_session E token) (\<lambda>session.
       let current_status = (case session of None \<Rightarrow> ''unknown'' | Some h \<Rightarrow> opt_default ''unknown'' (dict_get h ''status'')) in
       if current_status \<in> set [''completed'', ''error''] \<and> session \<noteq> None
       then handle_resume_message E (bm_job_id b) (bm_ts b) token content (redis_session (opt_default [] session))
       else
         io_then (x_publish E (MSG_CHANNEL token) (x_dumps E (user_message content (bm_ts b))))
           (x_publish E (CTL_CHANNEL token) (bm_text b)))"

definition forward_browser :: "'s env \<Rightarrow> string \<Rightarrow> browser_message \<Rightarrow> ('s, unit) io" where
  "forward_browser E token b = swallow
     (io_bind (io_of_result (parse_text (x_loads E) (bm_text b))) (\<lambda>msg.
      io_bind (io_of_result (jget msg ''type'' JNull)) (\<lambda>ty.
        if ty = JStr ''inject_message'' then
          io_bind (io_of_result (message_content msg)) (\<lambda>content.
            if content = [] then io_ret () else inject_from_browser E token b content)
        else x_publish E (CTL_CHANNEL token) (bm_text b))))"

definition ws_to_redis :: "'s env \<Rightarrow> string \<Rightarrow> browser_message list \<Rightarrow> ('s, unit) io" where
  "ws_to_redis E token bs = io_fold (\<lambda>u b. forward_browser E token b) () bs"

section \<open>Bringing a transcript back to life\<close>

text \<open>
  A value of a Redis hash: the client encodes numbers as their text and refuses null, Booleans and
  containers.
\<close>

fun hash_text :: "json \<Rightarrow> string result" where
  "hash_text (JStr s) = Inr s"
| "hash_text (JInt n) = Inr (show_int n)"
| "hash_text (JFloat r) = Inr r"
| "hash_text _ = Inl (Exn RedisError ''Invalid input of type'')"

text \<open>The table of URL segments is looked up by any hashable value.\<close>

fun hashable_text :: "json \<Rightarrow> string result" where
  "hashable_text (JStr s) = Inr s"
| "hashable_text (JArr xs) = Inl (Exn TypeError ''unhashable type'')"
| "hashable_text (JObj d) = Inl (Exn TypeError ''unhashable type'')"
| "hashable_text _ = Inr []"

fun only_text :: "string \<Rightarrow> json \<Rightarrow> string result" where
  "only_text what (JStr s) = Inr s"
| "only_text what _ = Inl (Exn AttributeError what)"

text \<open>\<open>repo.partition("/")\<close>, first and last part.\<close>

definition partition_slash :: "string \<Rightarrow> string \<times> string" where
  "partition_slash s = (takeWhile (\<lambda>c. c \<noteq> CHR ''/'') s, drop 1 (dropWhile (\<lambda>c. c \<noteq> CHR ''/'') s))"

definition rehydrated_session ::
  "string \<Rightarrow> string \<Rightarrow> string \<Rightarrow> json dict \<Rightarrow> int \<Rightarrow> stream_args result" where
  "rehydrated_session public_url new_token session_id session issue_number =
     (let workflow = session_value session ''workflow'' (JStr ''generic'');
          thread_type = session_value session ''thread_type'' (JStr ''issue'') in
      res_bind (only_text ''partition'' (session_value session ''repo'' (JStr []))) (\<lambda>repo.
      res_bind (hashable_text thread_type) (\<lambda>url_type.
      res_bind (hash_text workflow) (\<lambda>workflow_text.
      res_bind (hash_text (session_value session ''installation_id'' (JStr []))) (\<lambda>installation_id.
      res_bind (hash_text thread_type) (\<lambda>thread_type_text.
      res_bind (hash_text (session_value session ''ref'' (JStr ''main''))) (\<lambda>ref.
      res_bind (hash_text (session_value session ''user'' (JStr ''remote-control''))) (\<lambda>user. Inr
        \<lparr>sa_token = new_token, sa_repo = repo, sa_issue_number = issue_number, sa_workflow = workflow_text,
         sa_session_proxy_url = build_session_url (str_strip public_url) (fst (partition_slash repo))
           (snd (partition_slash repo)) url_type (JInt issue_number) (py_str workflow),
         sa_ttl_seconds = DEFAULT_SESSION_TTL_SECONDS, sa_installation_id = installation_id,
         sa_initial_query = [], sa_thread_type = thread_type_text, sa_ref = ref, sa_user = user,
         sa_conversation_config = [], sa_session_id = session_id\<rparr>))))))))"

text \<open>
  One message while the session is only a transcript: the token of the new session, or nothing
  when the message is no user message.
\<close>

definition rehydrate_message ::
  "'s proxy \<Rightarrow> 's websocket \<Rightarrow> string \<Rightarrow> json dict \<Rightarrow> int \<Rightarrow> browser_message \<Rightarrow> ('s, string option) io" where
  "rehydrate_message P W session_id session issue_number b =
     (let E = px_redis P; new_token = bm_token b in
      io_bind (io_of_result (parse_text (x_loads E) (bm_text b))) (\<lambda>msg.
      io_bind (io_of_result (jget msg ''type'' JNull)) (\<lambda>ty.
        if ty \<noteq> JStr ''inject_message'' then io_ret None
        else
          io_bind (io_of_result (message_content msg)) (\<lambda>content.
            if content = [] then io_ret None
            else
              io_bind (io_of_result (rehydrated_session (px_public_url P) new_token session_id session issue_number)) (\<lambda>a.
              io_then (stream_create_session E a)
              (io_bind (io_of_result (session_config (x_loads E) [(''persist'', JBool True)]
                  (session_value session ''conversation_config'' (JStr [])))) (\<lambda>conversation_config.
              io_then (proxy_create_job E (bm_job_id b) (build_job_data session content conversation_config new_token))
              (io_then (set_running E new_token DEFAULT_SESSION_TTL_SECONDS)
              (io_then (increment_run_count E new_token)
              (io_then (ws_send_text W (x_dumps E (user_message content (bm_ts b))))
                (io_ret (Some new_token))))))))))))"

text \<open>
  The first message that works wins; the messages after it are left. Nothing when the browser
  disconnects before.
\<close>

fun rehydrate_loop ::
  "'s proxy \<Rightarrow> 's websocket \<Rightarrow> string \<Rightarrow> json dict \<Rightarrow> int \<Rightarrow> browser_message list \<Rightarrow>
   ('s, (string \<times> browser_message list) option) io" where
  "rehydrate_loop P W session_id session issue_number [] = io_ret None"
| "rehydrate_loop P W session_id session issue_number (b # bs) =
     io_bind (io_try (rehydrate_message P W session_id session issue_number b) (\<lambda>e. io_ret None)) (\<lambda>token.
       case token of
         Some t \<Rightarrow> io_ret (Some (t, bs))
       | None \<Rightarrow> rehydrate_loop P W session_id session issue_number bs)"

definition transcript_id :: "string \<Rightarrow> string" where
  "transcript_id token = drop (length ''transcript:'') token"

definition rehydrate_transcript_session ::
  "'s proxy \<Rightarrow> 's websocket \<Rightarrow> string \<Rightarrow> json dict \<Rightarrow> browser_message list \<Rightarrow>
   ('s, (string \<times> browser_message list) option) io" where
  "rehydrate_transcript_session P W token session bs =
     io_bind (io_of_result (only_text ''isdigit'' (session_value session ''issue_number'' (JStr ''0'')))) (\<lambda>issue_number_str.
       rehydrate_loop P W (if str_startswith token ''transcript:'' then transcript_id token else []) session
         (digits_or_zero issue_number_str) bs)"

section \<open>The WebSocket\<close>

text \<open>
  \<open>urlparse(origin).hostname\<close>: the network location between \<open>//\<close> and the path, without user
  and port. An unbalanced bracket raises; the address inside brackets is not checked here.
\<close>

definition is_alpha :: "char \<Rightarrow> bool" where
  "is_alpha c \<longleftrightarrow> (CHR ''a'' \<le> c \<and> c \<le> CHR ''z'') \<or> (CHR ''A'' \<le> c \<and> c \<le> CHR ''Z'')"

definition is_scheme_char :: "char \<Rightarrow> bool" where
  "is_scheme_char c \<longleftrightarrow> is_alpha c \<or> is_digit c \<or> c \<in> set ''+-.''"

definition without_scheme :: "string \<Rightarrow> string" where
  "without_scheme u =
     (let s = takeWhile (\<lambda>c. c \<noteq> CHR '':'') u in
      if s \<noteq> u \<and> s \<noteq> [] \<and> is_alpha (hd s) \<and> list_all is_scheme_char s then drop (length s + 1) u else u)"

definition url_netloc :: "string \<Rightarrow> string" where
  "url_netloc url =
     (let u = filter (\<lambda>c. c \<notin> {CHR 0x09, CHR 0x0A, CHR 0x0D}) (dropWhile (\<lambda>c. c \<le> CHR '' '') url);
          r = without_scheme u
      in if str_startswith r ''//'' then takeWhile (\<lambda>c. c \<notin> set ''/?#'') (drop 2 r) else [])"

definition after_last :: "char \<Rightarrow> string \<Rightarrow> string" where
  "after_last c s = rev (takeWhile (\<lambda>x. x \<noteq> c) (rev s))"

definition url_hostname :: "string \<Rightarrow> string result" where
  "url_hostname url =
     (let netloc = url_netloc url; hostinfo = after_last CHR ''@'' netloc in
      if (CHR ''['' \<in> set netloc) \<noteq> (CHR '']'' \<in> set netloc) then Inl (Exn ValueError ''Invalid IPv6 URL'')
      else
        (let host = (if CHR ''['' \<in> set hostinfo
                then takeWhile (\<lambda>c. c \<noteq> CHR '']'') (drop 1 (dropWhile (\<lambda>c. c \<noteq> CHR ''['') hostinfo))
                else takeWhile (\<lambda>c. c \<noteq> CHR '':'') hostinfo);
             zone = dropWhile (\<lambda>c. c \<noteq> CHR ''%'') host
         in Inr (str_lower (takeWhile (\<lambda>c. c \<noteq> CHR ''%'') host) @ zone)))"

definition origin_allowed :: "string \<Rightarrow> string \<Rightarrow> bool result" where
  "origin_allowed allowed_origins origin =
     (if allowed_origins = ''*'' then Inr True
      else if allowed_origins = [] then
        (if origin = [] then Inr True
         else res_bind (url_hostname origin) (\<lambda>hostname. Inr (hostname \<in> set [''localhost'', ''127.0.0.1'', ''::1''])))
      else
        (let origin_list = filter (\<lambda>x. x \<noteq> []) (map str_strip (str_split CHR '','' allowed_origins))
         in Inr (origin = [] \<or> origin \<in> set origin_list)))"

definition session_meta_event :: "json dict \<Rightarrow> string \<Rightarrow> json" where
  "session_meta_event session ts = stream_payload ts ''session_meta'' (sanitize_session session)"

definition transcript_result_event :: "string \<Rightarrow> string \<Rightarrow> json" where
  "transcript_result_event session_id ts = stream_payload ts ''result''
     [(''num_turns'', JInt 0), (''duration_ms'', JInt 0), (''is_error'', JBool False),
      (''session_id'', JStr session_id), (''subtype'', JNull)]"

text \<open>The history goes out until a send fails.\<close>

fun send_history :: "'s env \<Rightarrow> 's websocket \<Rightarrow> json list \<Rightarrow> ('s, unit) io" where
  "send_history E W [] = io_ret ()"
| "send_history E W (msg # msgs) =
     io_bind (io_try (io_then (ws_send_text W (x_dumps E msg)) (io_ret True)) (\<lambda>e. io_ret False)) (\<lambda>sent.
       if sent then send_history E W msgs else io_ret ())"

definition load_history :: "'s proxy \<Rightarrow> json dict \<Rightarrow> string \<Rightarrow> ('s, json list) io" where
  "load_history P session token =
     (let F = px_files P; E = px_redis P;
          messages = (\<lambda>path. load_transcript_history F (x_loads E) (px_now P) path);
          by_id = io_bind (io_of_result (only_text ''match'' (session_value session ''session_id'' (JStr [])))) (\<lambda>session_id.
            if session_id = [] then get_history E token
            else io_bind (io_of_result (find_transcript F session_id)) (\<lambda>found_path. case found_path of
                Some path \<Rightarrow>
                  if messages path \<noteq> [] then io_then (update_transcript_path E token path) (io_ret (messages path))
                  else get_history E token
              | None \<Rightarrow> get_history E token))
      in io_bind (io_of_result (only_text ''Path'' (session_value session ''transcript_path'' (JStr [])))) (\<lambda>path.
           if path \<noteq> [] \<and> tf_exists F path \<and> messages path \<noteq> [] then io_ret (messages path) else by_id))"

text \<open>
  The live phase: what the browser sends and what Redis publishes, in the order in which the two
  tasks handle it. The subscription never ends by itself and the browser's side returns when the
  browser is gone, so after the last event the handler waits (\<open>Waiting\<close>); only an exception of
  the Redis side ends it.
\<close>

datatype live_event = FromBrowser browser_message | FromRedis channel_message

datatype session_end = Rejected | Ended | Waiting

definition forward_redis :: "'s websocket \<Rightarrow> channel_message \<Rightarrow> ('s, unit) io" where
  "forward_redis W raw = (if cm_type raw \<noteq> ''message'' then io_ret () else ws_send_text W (cm_data raw))"

fun live_step :: "'s proxy \<Rightarrow> 's websocket \<Rightarrow> string \<Rightarrow> live_event \<Rightarrow> ('s, unit) io" where
  "live_step P W token (FromBrowser b) = forward_browser (px_redis P) token b"
| "live_step P W token (FromRedis raw) = forward_redis W raw"

definition live_phase :: "'s proxy \<Rightarrow> 's websocket \<Rightarrow> string \<Rightarrow> live_event list \<Rightarrow> ('s, session_end) io" where
  "live_phase P W token events =
     io_try
       (io_then (px_subscribe P (MSG_CHANNEL token))
         (io_try
           (io_then (io_fold (\<lambda>u ev. live_step P W token ev) () events) (io_ret Waiting))
           (\<lambda>e. io_then (px_unsubscribe P (MSG_CHANNEL token)) (io_raise e))))
       (\<lambda>e. io_then (decrement_subscribers (px_redis P) token) (io_ret Ended))"

definition close_with :: "'s websocket \<Rightarrow> int \<Rightarrow> string \<Rightarrow> ('s, session_end) io" where
  "close_with W code reason = io_then (ws_close W code reason) (io_ret Rejected)"

definition live_mode ::
  "'s proxy \<Rightarrow> 's websocket \<Rightarrow> json dict \<Rightarrow> string \<Rightarrow> bool \<Rightarrow> live_event list \<Rightarrow> ('s, session_end) io" where
  "live_mode P W session token history_sent events =
     (let E = px_redis P in
      io_then (increment_subscribers E token)
      (io_then
        (if history_sent then io_ret ()
         else io_bind (load_history P session token) (\<lambda>history.
           io_then (send_history E W history)
             (ws_send_text W (x_dumps E (session_meta_event session (px_now P 0))))))
        (live_phase P W token events)))"

definition replay_transcript :: "'s proxy \<Rightarrow> 's websocket \<Rightarrow> json dict \<Rightarrow> string \<Rightarrow> string \<Rightarrow> ('s, unit) io" where
  "replay_transcript P W session session_id path =
     (let E = px_redis P; ts = px_now P 0 in
      io_then (send_history E W (load_transcript_history (px_files P) (x_loads E) (px_now P) path))
      (io_then (ws_send_text W (x_dumps E (session_meta_event session ts)))
      (io_then (ws_send_text W (x_dumps E (transcript_result_event session_id ts)))
        (ws_send_text W (x_dumps E (stream_payload ts ''session_closed'' []))))))"

definition transcript_mode ::
  "'s proxy \<Rightarrow> 's websocket \<Rightarrow> json dict \<Rightarrow> string \<Rightarrow> browser_message list \<Rightarrow> live_event list \<Rightarrow> ('s, session_end) io" where
  "transcript_mode P W session token bs events =
     (let E = px_redis P; session_id = transcript_id token in
      io_bind (io_of_result (find_transcript (px_files P) session_id)) (\<lambda>transcript_path. case transcript_path of
          None \<Rightarrow> close_with W 4404 ''Transcript file not found''
        | Some path \<Rightarrow>
            io_then (replay_transcript P W session session_id path)
            (io_bind (rehydrate_transcript_session P W token session bs) (\<lambda>result. case result of
                None \<Rightarrow> io_ret Ended
              | Some (new_token, rest) \<Rightarrow>
                  io_bind (stream_get_session E new_token) (\<lambda>updated. case updated of
                      None \<Rightarrow> close_with W 4500 ''Session creation failed''
                    | Some h \<Rightarrow>
                        io_then (ws_send_text W (x_dumps E (session_meta_event (redis_session h) (px_now P 0))))
                          (live_mode P W (redis_session h) new_token True (map FromBrowser rest @ events)))))))"

definition websocket_session ::
  "'s proxy \<Rightarrow> 's websocket \<Rightarrow> session_path \<Rightarrow> browser_message list \<Rightarrow> live_event list \<Rightarrow> ('s, session_end) io" where
  "websocket_session P W p bs events =
     io_then (ws_accept W)
     (io_bind (io_of_result (origin_allowed (px_allowed_origins P) (ws_origin W))) (\<lambda>allowed.
       if \<not> allowed then close_with W 4403 ''Origin not allowed''
       else (case py_int (sp_number p) of
           Inl e \<Rightarrow> close_with W 4400 ''Issue number must be an integer''
         | Inr n \<Rightarrow>
             io_bind (resolve_token_from_path P p) (\<lambda>found. case found of
                 None \<Rightarrow> close_with W 4404 ''Session not found''
               | Some (token, session) \<Rightarrow>
                   if str_startswith token ''transcript:'' then transcript_mode P W session token bs events
                   else live_mode P W session token False events))))"

text \<open>The health endpoint: \<open>ping\<close> is the client's call.\<close>

definition health :: "('s, bool) io \<Rightarrow> ('s, int \<times> json) io" where
  "health ping =
     io_try
       (io_then ping (io_ret (200, JObj [(''status'', JStr ''ok''), (''redis'', JStr ''connected'')])))
       (\<lambda>e. io_ret (503, JObj [(''status'', JStr ''error''), (''redis'', JStr (exc_msg e))]))"

section \<open>A message to a session, over the documented commands\<close>

lemma rlog_writes [simp]:
  "rlog (rput k v d st) = rlog st" "rlog (rdrop k st) = rlog st" "rlog (rstore k v st) = rlog st"
  by (simp_all add: rput_def rdrop_def rstore_def)

text \<open>A write to a key that is none of the queue's.\<close>

lemma queue_writes_elsewhere [simp]:
  assumes "k \<notin> job_keys"
  shows "jq_wf (rput k v d st) = jq_wf st" "pending (rput k v d st) = pending st"
    "processing (rput k v d st) = processing st" "dead_letters (rput k v d st) = dead_letters st"
    "job_text (rput k v d st) = job_text st"
    "jq_wf (rstore k v st) = jq_wf st" "pending (rstore k v st) = pending st"
    "processing (rstore k v st) = processing st" "dead_letters (rstore k v st) = dead_letters st"
    "job_text (rstore k v st) = job_text st"
proof -
  have "rdb (rput k v d st) k' = rdb st k'" "rdb (rstore k v st) k' = rdb st k'" if "k' \<in> job_keys" for k'
    using that assms by (auto simp: rstore_def rput_def)
  then show "jq_wf (rput k v d st) = jq_wf st" "pending (rput k v d st) = pending st"
    "processing (rput k v d st) = processing st" "dead_letters (rput k v d st) = dead_letters st"
    "job_text (rput k v d st) = job_text st"
    "jq_wf (rstore k v st) = jq_wf st" "pending (rstore k v st) = pending st"
    "processing (rstore k v st) = processing st" "dead_letters (rstore k v st) = dead_letters st"
    "job_text (rstore k v st) = job_text st"
    using queue_on_job_keys [of "rput k v d st" st] queue_on_job_keys [of "rstore k v st" st] by (simp_all add: rnow_writes)
qed

lemma queue_log [simp]:
  "jq_wf (st\<lparr>rlog := l\<rparr>) = jq_wf st" "pending (st\<lparr>rlog := l\<rparr>) = pending st"
  "processing (st\<lparr>rlog := l\<rparr>) = processing st" "dead_letters (st\<lparr>rlog := l\<rparr>) = dead_letters st"
  "job_text (st\<lparr>rlog := l\<rparr>) = job_text st"
  using queue_on_job_keys [of "st\<lparr>rlog := l\<rparr>" st] by simp_all

lemma queue_key_neq:
  assumes "k \<notin> job_keys"
  shows "k \<noteq> PENDING_JOB_QUEUE" "k \<noteq> job_data_key i" "k \<noteq> job_status_key i"
  using assms by (auto simp: job_keys_def jq_keys)

text \<open>The queue after one more job, as \<open>JobQueue.create_job\<close> leaves it.\<close>

lemma proxy_create_job_spec:
  assumes "jq_wf st"
  shows "\<exists>st'. proxy_create_job (spec_env d l ord) i j st = (Inr i, st') \<and> jq_wf st' \<and>
    pending st' = pending st @ [i] \<and> processing st' = processing st \<and> dead_letters st' = dead_letters st \<and>
    job_text st' = (job_text st)(i := d j) \<and> rlog st' = rlog st \<and>
    (\<forall>k. k \<notin> job_keys \<longrightarrow> rlook st' k = rlook st k)"
  using assms by (auto simp: proxy_create_job_def JOB_TTL_SECONDS_def jq_run jq_wf_writes fun_eq_iff queue_key_neq)

lemma set_running_spec:
  assumes "rlook st (SESSION_KEY token) = Some (RHash h)" "0 < n" "is_int_text (opt_default ''0'' (dict_get h ''run_count''))"
  shows "\<exists>st' h'. io_then (set_running (spec_env d l ord) token n) (increment_run_count (spec_env d l ord) token) st =
      (Inr (read_int (opt_default ''0'' (dict_get h ''run_count'')) + 1), st') \<and>
    rlook st' (SESSION_KEY token) = Some (RHash h') \<and> dict_get h' ''status'' = Some ''running'' \<and>
    rlog st' = rlog st \<and> jq_wf st' = jq_wf st \<and> pending st' = pending st \<and> processing st' = processing st \<and>
    dead_letters st' = dead_letters st \<and> job_text st' = job_text st \<and>
    (\<forall>k. k \<noteq> SESSION_KEY token \<longrightarrow> rlook st' k = rlook st k)"
  using assms by (simp add: set_running_def increment_run_count_def session_run not_job_keys Let_def)

text \<open>
  A session that has ended and whose configuration \<open>cfg\<close> gives it time to live.
\<close>

definition resumable :: "(string \<Rightarrow> json option) \<Rightarrow> string dict \<Rightarrow> json dict \<Rightarrow> bool" where
  "resumable loads h cfg \<longleftrightarrow>
     dict_get h ''status'' \<in> {Some ''completed'', Some ''error''} \<and> is_int_text (opt_default ''0'' (dict_get h ''run_count'')) \<and>
     resume_config loads (redis_session h) = Inr cfg \<and>
     (case ttl_seconds_of (opt_default (JInt DEFAULT_SESSION_TTL_HOURS) (dict_get cfg ''ttl_hours'')) of
        Inr (Some n) \<Rightarrow> 0 < n | _ \<Rightarrow> False)"

definition said :: "'s env \<Rightarrow> string \<times> string \<times> string \<Rightarrow> browser_message" where
  "said E m = (case m of (content, job_id, ts) \<Rightarrow>
     \<lparr>bm_text = x_dumps E (inject_message content), bm_token = [], bm_job_id = job_id, bm_ts = ts\<rparr>)"

text \<open>What was published on the control channel of a session.\<close>

definition controls :: "string \<Rightarrow> rstate \<Rightarrow> string list" where
  "controls token st = map snd (filter (\<lambda>p. fst p = CTL_CHANNEL token) (rlog st))"

lemma channel_neq [simp]: "MSG_CHANNEL token \<noteq> CTL_CHANNEL token"
  by (simp add: session_keys)

lemma history_key_neq [simp]: "SESSION_HISTORY_KEY t \<noteq> SESSION_KEY t'"
  by (simp add: session_keys)

lemma resume_spec:
  assumes "jq_wf st" "rlook st (SESSION_KEY token) = Some (RHash h)" "resumable l h cfg"
    and "as_list (rlook st (SESSION_HISTORY_KEY token)) \<noteq> None"
  shows "\<exists>st' h'. handle_resume_message (spec_env d l ord) i ts token c (redis_session h) st = (Inr (), st') \<and>
    jq_wf st' \<and> pending st' = pending st @ [i] \<and> processing st' = processing st \<and> dead_letters st' = dead_letters st \<and>
    job_text st' = (job_text st)(i := d (build_job_data (redis_session h) c cfg token)) \<and>
    controls token st' = controls token st \<and>
    rlook st' (SESSION_KEY token) = Some (RHash h') \<and> dict_get h' ''status'' = Some ''running''"
proof -
  let ?E = "spec_env d l ord"
  obtain n where n: "ttl_seconds_of (opt_default (JInt DEFAULT_SESSION_TTL_HOURS) (dict_get cfg ''ttl_hours'')) = Inr (Some n)"
    "0 < n" and cfg: "resume_config l (redis_session h) = Inr cfg" and rc: "is_int_text (opt_default ''0'' (dict_get h ''run_count''))"
    using assms(3) by (auto simp: resumable_def split: sum.splits option.splits)
  obtain st1 h1 where 1: "io_then (set_running ?E token n) (increment_run_count ?E token) st =
      (Inr (read_int (opt_default ''0'' (dict_get h ''run_count'')) + 1), st1)"
    and h1: "rlook st1 (SESSION_KEY token) = Some (RHash h1)" "dict_get h1 ''status'' = Some ''running''"
    and s1: "rlog st1 = rlog st" "jq_wf st1 = jq_wf st" "pending st1 = pending st" "processing st1 = processing st"
      "dead_letters st1 = dead_letters st" "job_text st1 = job_text st" "\<forall>k. k \<noteq> SESSION_KEY token \<longrightarrow> rlook st1 k = rlook st k"
    using set_running_spec [OF assms(2) n(2) rc, of d l ord] by blast
  obtain sa where sa: "set_running ?E token n st = (Inr (), sa)"
    "increment_run_count ?E token sa = (Inr (read_int (opt_default ''0'' (dict_get h ''run_count'')) + 1), st1)"
    using 1 by (auto simp: io_then_run split: prod.splits sum.splits)
  obtain xs where xs: "as_list (rlook st1 (SESSION_HISTORY_KEY token)) = Some xs"
    using assms(4) s1(7) by auto
  define st2 where "st2 = rstore (SESSION_HISTORY_KEY token) (RList (xs @ [d (user_message c ts)]))
    (st1\<lparr>rlog := rlog st1 @ [(MSG_CHANNEL token, d (user_message c ts))]\<rparr>)"
  have s2: "jq_wf st2 = jq_wf st" "pending st2 = pending st" "processing st2 = processing st" "dead_letters st2 = dead_letters st"
    "job_text st2 = job_text st" "rlook st2 (SESSION_KEY token) = Some (RHash h1)" "controls token st2 = controls token st"
    using h1 s1 by (simp_all add: st2_def not_job_keys redis_simps controls_def history_key_neq [symmetric])
  obtain st3 where 3: "proxy_create_job ?E i (build_job_data (redis_session h) c cfg token) st2 = (Inr i, st3)"
    and s3: "jq_wf st3" "pending st3 = pending st2 @ [i]" "processing st3 = processing st2" "dead_letters st3 = dead_letters st2"
      "job_text st3 = (job_text st2)(i := d (build_job_data (redis_session h) c cfg token))" "rlog st3 = rlog st2"
      "\<forall>k. k \<notin> job_keys \<longrightarrow> rlook st3 k = rlook st2 k"
    using proxy_create_job_spec [of st2 d l ord i] assms(1) s2(1) by blast
  have "handle_resume_message ?E i ts token c (redis_session h) st = (Inr (), st3)"
    using sa 3 xs unfolding st2_def
    by (simp add: handle_resume_message_def resume_running_def cfg n redis_simps io_bind_run io_then_run io_of_result_run
        io_ret_run Let_def r_publish_def r_rpush_def)
  moreover have "rlook st3 (SESSION_KEY token) = Some (RHash h1)"
    using s3(7) s2(6) by (simp add: not_job_keys)
  moreover have "controls token st3 = controls token st"
    using s3(6) s2(7) by (simp add: controls_def)
  ultimately show ?thesis using s2 s3 h1(2) by simp
qed

text \<open>A message is handled by what the session's status says when it arrives.\<close>

lemma forward_said:
  assumes "x_loads E (x_dumps E (inject_message c)) = Some (inject_message c)" "str_strip c \<noteq> []"
  shows "forward_browser E token (said E (c, i, ts)) = swallow (inject_from_browser E token (said E (c, i, ts)) (str_strip c))"
  using assms by (simp add: forward_browser_def said_def parse_text_def inject_message_def message_content_def fun_eq_iff
      swallow_def io_simps)

lemma forward_ended_spec:
  assumes "jq_wf st" "rlook st (SESSION_KEY token) = Some (RHash h)" "resumable (x_loads E) h cfg"
    and "as_list (rlook st (SESSION_HISTORY_KEY token)) \<noteq> None"
    and "x_loads E (x_dumps E (inject_message c)) = Some (inject_message c)" "str_strip c \<noteq> []"
  shows "\<exists>st' h'. forward_browser (model_env E ord) token (said E (c, i, ts)) st = (Inr (), st') \<and>
    jq_wf st' \<and> pending st' = pending st @ [i] \<and> processing st' = processing st \<and> dead_letters st' = dead_letters st \<and>
    job_text st' = (job_text st)(i := x_dumps E (build_job_data (redis_session h) (str_strip c) cfg token)) \<and>
    controls token st' = controls token st \<and>
    rlook st' (SESSION_KEY token) = Some (RHash h') \<and> dict_get h' ''status'' = Some ''running''"
proof -
  have "h \<noteq> []" "opt_default ''unknown'' (dict_get h ''status'') \<in> {''completed'', ''error''}"
    using assms(3) by (auto simp: resumable_def)
  then have "inject_from_browser (model_env E ord) token (said E (c, i, ts)) (str_strip c) st =
      handle_resume_message (model_env E ord) i ts token (str_strip c) (redis_session h) st"
    using assms(2) by (simp add: inject_from_browser_def stream_get_session_def model_env_def session_run said_def Let_def)
  moreover have "said E m = said (model_env E ord) m" for m by (simp add: said_def split: prod.split)
  ultimately show ?thesis
    using resume_spec [OF assms(1-4), of "x_dumps E" ord i ts "str_strip c"] forward_said [of "model_env E ord" c token i ts] assms(5,6)
    by (auto simp: swallow_def io_try_run model_env_def [symmetric])
qed

lemma forward_running_spec:
  assumes "rlook st (SESSION_KEY token) = Some (RHash h)" "dict_get h ''status'' = Some ''running''"
    and "x_loads E (x_dumps E (inject_message c)) = Some (inject_message c)" "str_strip c \<noteq> []"
  shows "forward_browser (model_env E ord) token (said E (c, i, ts)) st =
    (Inr (), st\<lparr>rlog := rlog st @ [(MSG_CHANNEL token, x_dumps E (user_message (str_strip c) ts)),
       (CTL_CHANNEL token, x_dumps E (inject_message c))]\<rparr>)"
proof -
  have "h \<noteq> []" using assms(2) by auto
  moreover have "said E m = said (model_env E ord) m" for m by (simp add: said_def split: prod.split)
  ultimately show ?thesis
    using assms forward_said [of "model_env E ord" c token i ts]
    by (simp add: swallow_def inject_from_browser_def stream_get_session_def model_env_def session_run said_def Let_def)
qed

lemma ws_running_spec:
  assumes "\<And>c. x_loads E (x_dumps E (inject_message c)) = Some (inject_message c)"
  shows "rlook st (SESSION_KEY token) = Some (RHash h) \<Longrightarrow> dict_get h ''status'' = Some ''running'' \<Longrightarrow>
    list_all (\<lambda>m. str_strip (fst m) \<noteq> []) ms \<Longrightarrow>
    \<exists>evs. ws_to_redis (model_env E ord) token (map (said E) ms) st = (Inr (), st\<lparr>rlog := rlog st @ evs\<rparr>) \<and>
      map snd (filter (\<lambda>p. fst p = CTL_CHANNEL token) evs) = map (\<lambda>m. x_dumps E (inject_message (fst m))) ms"
proof (induction ms arbitrary: st)
  case Nil
  then show ?case by (auto simp: ws_to_redis_def io_simps intro!: exI [of _ "[]"])
next
  case (Cons m ms)
  obtain c i ts where m: "m = (c, i, ts)" by (cases m)
  let ?evs = "[(MSG_CHANNEL token, x_dumps E (user_message (str_strip c) ts)), (CTL_CHANNEL token, x_dumps E (inject_message c))]"
  have step: "forward_browser (model_env E ord) token (said E m) st = (Inr (), st\<lparr>rlog := rlog st @ ?evs\<rparr>)"
    using forward_running_spec [OF Cons.prems(1,2) assms] Cons.prems(3) by (simp add: m)
  obtain evs where "ws_to_redis (model_env E ord) token (map (said E) ms) (st\<lparr>rlog := rlog st @ ?evs\<rparr>) =
      (Inr (), st\<lparr>rlog := rlog st @ ?evs\<rparr>\<lparr>rlog := rlog (st\<lparr>rlog := rlog st @ ?evs\<rparr>) @ evs\<rparr>)"
    "map snd (filter (\<lambda>p. fst p = CTL_CHANNEL token) evs) = map (\<lambda>m. x_dumps E (inject_message (fst m))) ms"
    using Cons.IH [of "st\<lparr>rlog := rlog st @ ?evs\<rparr>"] Cons.prems by (auto simp: redis_simps)
  then show ?case
    using step by (intro exI [of _ "?evs @ evs"]) (simp add: ws_to_redis_def io_bind_run m)
qed

context redis_server
begin

lemma sim_swallow [sim_intros]: "sim view healthy m n \<Longrightarrow> sim view healthy (swallow m) (swallow n)"
  unfolding swallow_def by (intro sim_intros)

lemma handle_resume_message_sim [sim_intros]:
  "sim view healthy (handle_resume_message E i ts token c h) (handle_resume_message (model_env E ord) i ts token c h)"
  unfolding handle_resume_message_def resume_running_def set_running_def increment_run_count_def proxy_create_job_def
    model_env_codec Let_def by (intro sim_intros)

lemma forward_browser_sim [sim_intros]:
  "sim view healthy (forward_browser E token b) (forward_browser (model_env E ord) token b)"
  unfolding forward_browser_def inject_from_browser_def stream_get_session_def model_env_codec Let_def by (intro sim_intros)

lemma ws_to_redis_sim [sim_intros]:
  "sim view healthy (ws_to_redis E token bs) (ws_to_redis (model_env E ord) token bs)"
  unfolding ws_to_redis_def by (intro sim_intros)

lemma follow_ups:
  assumes "healthy s" "jq_wf (view s)" "rlook (view s) (SESSION_KEY token) = Some (RHash h)" "resumable (x_loads E) h cfg"
    and "as_list (rlook (view s) (SESSION_HISTORY_KEY token)) \<noteq> None" "list_all (\<lambda>m. str_strip (fst m) \<noteq> []) ((c, i, ts) # ms)"
  shows "\<exists>s'. ws_to_redis E token (map (said E) ((c, i, ts) # ms)) s = (Inr (), s') \<and> jq_wf (view s') \<and>
    pending (view s') = pending (view s) @ [i] \<and>
    job_text (view s') = (job_text (view s))(i := x_dumps E (build_job_data (redis_session h) (str_strip c) cfg token)) \<and>
    controls token (view s') = controls token (view s) @ map (\<lambda>m. x_dumps E (inject_message (fst m))) ms"
proof -
  have codec: "x_loads E (x_dumps E (inject_message c)) = Some (inject_message c)" for c
    by (rule loads_dumps) (simp add: inject_message_def)
  obtain st1 h1 where 1: "forward_browser (model_env E ord) token (said E (c, i, ts)) (view s) = (Inr (), st1)"
    "jq_wf st1" "pending st1 = pending (view s) @ [i]"
    "job_text st1 = (job_text (view s))(i := x_dumps E (build_job_data (redis_session h) (str_strip c) cfg token))"
    "controls token st1 = controls token (view s)" "rlook st1 (SESSION_KEY token) = Some (RHash h1)"
    "dict_get h1 ''status'' = Some ''running''"
    using forward_ended_spec [OF assms(2-5) codec, of c ord i ts] assms(6) by auto
  have "list_all (\<lambda>m. str_strip (fst m) \<noteq> []) ms" using assms(6) by simp
  then obtain evs where 2: "ws_to_redis (model_env E ord) token (map (said E) ms) st1 = (Inr (), st1\<lparr>rlog := rlog st1 @ evs\<rparr>)"
    "map snd (filter (\<lambda>p. fst p = CTL_CHANNEL token) evs) = map (\<lambda>m. x_dumps E (inject_message (fst m))) ms"
    using ws_running_spec [OF codec 1(6,7)] by blast
  have "ws_to_redis (model_env E ord) token (map (said E) ((c, i, ts) # ms)) (view s) = (Inr (), st1\<lparr>rlog := rlog st1 @ evs\<rparr>)"
    using 1(1) 2(1) by (simp add: ws_to_redis_def io_bind_run)
  from sim_run [OF ws_to_redis_sim assms(1) this] 1 2(2) show ?thesis
    by (auto simp: controls_def)
qed

end


definition ended_session :: "string dict" where
  "ended_session = [(''repo'', ''o/r''), (''issue_number'', ''7''), (''workflow'', ''triage-issue''), (''status'', ''completed''),
     (''session_id'', ''abc''), (''run_count'', ''1'')]"

definition ended_world :: flaky where
  "ended_world = \<lparr>fk_state = rput (SESSION_KEY ''tok'') (RHash ended_session) None empty_keyspace, fk_fault = None\<rparr>"

lemma ended_resumable: "resumable parse_json ended_session [(''persist'', JBool True)]"
  by (simp add: resumable_def ended_session_def resume_config_def session_config_def session_value_def redis_session_def
      set_default_def DEFAULT_SESSION_TTL_HOURS_def is_int_text_def is_digit_def)


section \<open>What rehydration loses\<close>

text \<open>
  The sandbox writes a meta file next to a transcript, with the GitHub installation and the
  conversation's configuration as an object. None of it reaches the job that resumes the transcript:
  the installation is removed before the session is built, the configuration is read as if it were a
  text, and the SDK's session id, which is the transcript's name, is not among the fields the job is
  built from. So the job starts a new conversation.
\<close>

lemma rehydrated_job_forgets:
  assumes "load_transcript_meta (px_files P) (x_loads (px_redis P)) path = transcript_meta p"
    and "dict_get (pr_job_data p) ''conversation_config'' = Some (JObj cfg)"
  shows "\<exists>session. transcript_session P sp n path = Inr session \<and>
    session_config (x_loads (px_redis P)) [(''persist'', JBool True)] (session_value session ''conversation_config'' (JStr [])) =
      Inr [(''persist'', JBool True)] \<and>
    (let job = build_job_data session content [(''persist'', JBool True)] token in
       jget job ''session_mode'' JNull = Inr (JStr ''new'') \<and> jget job ''session_id'' (JStr []) = Inr JNull \<and>
       jget job ''installation_id'' JNull = Inr (JStr []))"
  using assms(2)
  by (simp add: transcript_session_def assms(1) transcript_meta_def data_field_def Let_def sanitize_session_def
      SENSITIVE_SESSION_FIELDS_def dict_update_def session_config_def session_value_def set_default_def build_job_data_def py_or_def)

section \<open>Subscribers\<close>

text \<open>
  A browser that closes its side is counted as a subscriber until something is published: after
  any messages of the browser the handler is still waiting, with the counter as it was increased.
\<close>

lemma browser_side_waits:
  assumes "px_subscribe P (MSG_CHANNEL token) s = (Inr (), s1)"
  shows "live_phase P W token (map FromBrowser bs) s = (Inr Waiting, snd (ws_to_redis (px_redis P) token bs s1))"
proof -
  have fwd: "fst (forward_browser (px_redis P) token b s) = Inr ()" for b s
    by (simp add: forward_browser_def swallow_def io_simps split: prod.split sum.split)
  have fold: "io_fold (\<lambda>u ev. live_step P W token ev) () (map FromBrowser bs) s =
      (Inr (), snd (io_fold (\<lambda>u b. forward_browser (px_redis P) token b) () bs s))" for s
  proof (induction bs arbitrary: s)
    case Nil
    then show ?case by (simp add: io_ret_run)
  next
    case (Cons b bs)
    obtain s' where "forward_browser (px_redis P) token b s = (Inr (), s')"
      using fwd [of b s] by (cases "forward_browser (px_redis P) token b s") auto
    with Cons show ?case by (simp add: io_bind_run)
  qed
  show ?thesis
    using assms by (simp add: live_phase_def ws_to_redis_def io_try_run io_then_run io_ret_run fold)
qed

text \<open>
  The counter is also left increased when sending the history's end fails, which happens before the
  handler's \<open>try\<close>.
\<close>

lemma failed_send_keeps_count:
  assumes "increment_subscribers (px_redis P) token s = (Inr n, s1)" "load_history P session token s1 = (Inr [], s2)"
    and "\<And>m. ws_send_text W m = io_raise e"
  shows "live_mode P W session token False events s = (Inl e, s2)"
  using assms by (simp add: live_mode_def Let_def io_simps)

end
