(* ===== verification/Mcp_Server.thy ===== *)
theory Mcp_Server
  imports Json_Text
begin

text \<open>
  \<^verbatim>\<open>mcp_servers/base.py\<close>: the loop of the tool servers, JSON-RPC over standard input and
  output. The request handler is an argument, a computation over the server's world; \<open>dumps\<close>
  and \<open>loads\<close> are the JSON module. The lines of the input are given; an empty one is the end of
  the input.
\<close>

section \<open>One request\<close>

definition MAX_RESPONSE_BYTES :: nat where "MAX_RESPONSE_BYTES = 1024 * 1024"

text \<open>\<open>key in value\<close>\<close>

fun member_of :: "string \<Rightarrow> json \<Rightarrow> bool result" where
  "member_of k (JObj d) = Inr (dict_get d k \<noteq> None)"
| "member_of k (JArr xs) = Inr (py_in_list (JStr k) xs)"
| "member_of k (JStr s) = Inr (str_contains k s)"
| "member_of k _ = Inl (Exn TypeError ''argument is not iterable'')"

definition rpc_output :: "json \<Rightarrow> json dict \<Rightarrow> json dict" where
  "rpc_output request_id response =
     [(''jsonrpc'', JStr ''2.0''), (''id'', request_id),
      (case dict_get response ''error'' of Some e \<Rightarrow> (''error'', e) | None \<Rightarrow> (''result'', JObj response))]"

definition truncated_result :: "string \<Rightarrow> json" where
  "truncated_result encoded = JObj
     [(''content'', JArr [JObj [(''type'', JStr ''text''),
        (''text'', JStr (take MAX_RESPONSE_BYTES encoded @ [CHR 0x0A, CHR 0x0A] @ ''[RESPONSE TRUNCATED: exceeded 1MB limit]''))]]),
      (''isError'', JBool True)]"

definition bounded_output :: "(json \<Rightarrow> string) \<Rightarrow> json dict \<Rightarrow> json dict" where
  "bounded_output dumps output =
     (let encoded = dumps (JObj output) in
      if length encoded > MAX_RESPONSE_BYTES then dict_set ''result'' (truncated_result encoded) output else output)"

definition rpc_error :: "int \<Rightarrow> string \<Rightarrow> json dict" where
  "rpc_error code message =
     [(''jsonrpc'', JStr ''2.0''), (''error'', JObj [(''code'', JInt code), (''message'', JStr message)]), (''id'', JNull)]"

text \<open>A handler gives the members of its response. A request without an id gets no response.\<close>

type_synonym 's handler = "json \<Rightarrow> ('s, json dict) io"

definition process_line ::
  "(json \<Rightarrow> string) \<Rightarrow> (string \<Rightarrow> json option) \<Rightarrow> 's handler \<Rightarrow> string \<Rightarrow> ('s, json dict option) io" where
  "process_line dumps loads handle line =
     io_try
       (case loads line of
          None \<Rightarrow> io_raise (Exn JSONDecodeError line)
        | Some request \<Rightarrow>
            io_bind (io_of_result (member_of ''id'' request)) (\<lambda>has_id.
              if \<not> has_id then io_ret None
              else
                io_bind (handle request) (\<lambda>response.
                io_bind (io_of_result (jget request ''id'' JNull)) (\<lambda>request_id.
                  io_ret (Some (bounded_output dumps (rpc_output request_id response)))))))
       (\<lambda>e. io_ret (Some
          (if exc_isinstance e JSONDecodeError then rpc_error (- 32700) ''Parse error''
           else rpc_error (- 32603) ''Internal error'')))"

text \<open>What the tools reply: a text, or an error.\<close>

definition tool_error :: "int \<Rightarrow> string \<Rightarrow> json dict" where
  "tool_error code message = [(''error'', JObj [(''code'', JInt code), (''message'', JStr message)])]"

definition text_content :: "string \<Rightarrow> json dict" where
  "text_content t = [(''content'', JArr [JObj [(''type'', JStr ''text''), (''text'', JStr t)]])]"

section \<open>The loop\<close>

fun run_server ::
  "(json \<Rightarrow> string) \<Rightarrow> (string \<Rightarrow> json option) \<Rightarrow> 's handler \<Rightarrow> string list \<Rightarrow> ('s, string list) io" where
  "run_server dumps loads handle [] = io_ret []"
| "run_server dumps loads handle (line # lines) =
     (if line = [] then io_ret []
      else
        io_bind (process_line dumps loads handle line) (\<lambda>out.
        io_bind (run_server dumps loads handle lines) (\<lambda>outs.
          io_ret (case out of None \<Rightarrow> outs | Some d \<Rightarrow> (dumps (JObj d) @ [CHR 0x0A]) # outs))))"

section \<open>Every request is answered\<close>

text \<open>The lines that expect a response: all but the JSON values without an id.\<close>

definition expects_response :: "(string \<Rightarrow> json option) \<Rightarrow> string \<Rightarrow> bool" where
  "expects_response loads line =
     (case loads line of None \<Rightarrow> True | Some request \<Rightarrow> member_of ''id'' request \<noteq> Inr False)"

definition request_id_of :: "(string \<Rightarrow> json option) \<Rightarrow> string \<Rightarrow> json" where
  "request_id_of loads line =
     (case loads line of Some (JObj d) \<Rightarrow> opt_default JNull (dict_get d ''id'') | _ \<Rightarrow> JNull)"

text \<open>
  A response: the protocol's version, the id of the request or null, and a result or an error; null
  stands for the id only in an error.
\<close>

definition responds_to :: "(string \<Rightarrow> json option) \<Rightarrow> string \<Rightarrow> json dict \<Rightarrow> bool" where
  "responds_to loads line out \<longleftrightarrow>
     dict_get out ''jsonrpc'' = Some (JStr ''2.0'') \<and>
     (dict_get out ''result'' \<noteq> None \<or> dict_get out ''error'' \<noteq> None) \<and>
     (dict_get out ''id'' = Some (request_id_of loads line) \<or>
      dict_get out ''id'' = Some JNull \<and> dict_get out ''error'' \<noteq> None)"

lemma rpc_error_responds: "responds_to loads line (rpc_error c m)"
  by (simp add: responds_to_def rpc_error_def)

lemma bounded_output_responds:
  assumes "loads line = Some (JObj d)" "dict_get d ''id'' = Some i"
  shows "responds_to loads line (bounded_output dumps (rpc_output i response))"
  using assms by (simp add: responds_to_def bounded_output_def rpc_output_def request_id_of_def Let_def split: option.split)

lemma process_line_responds:
  "\<exists>out s'. process_line dumps loads handle line s = (Inr out, s') \<and>
     (if expects_response loads line then \<exists>d. out = Some d \<and> responds_to loads line d else out = None)"
proof (cases "loads line")
  case None
  then show ?thesis
    by (simp add: process_line_def io_simps expects_response_def rpc_error_responds)
next
  case (Some request)
  show ?thesis
  proof (cases "\<exists>d. request = JObj d")
    case True
    then obtain d where d: "request = JObj d" by blast
    obtain r s' where h: "handle request s = (r, s')" by (cases "handle request s")
    with d Some show ?thesis
      by (cases "dict_get d ''id''"; cases r)
        (auto simp: process_line_def io_simps expects_response_def rpc_error_responds intro!: bounded_output_responds)
  next
    case False
    obtain r s' where h: "handle request s = (r, s')" by (cases "handle request s")
    from False have "jget request k x = Inl (Exn AttributeError ''get'')" for k x by (cases request) auto
    with Some h show ?thesis
      by (cases "member_of ''id'' request"; cases r) (auto simp: process_line_def io_simps expects_response_def rpc_error_responds)
  qed
qed

text \<open>
  C29: whatever the handler does, the server answers every request that has an id and every line
  that is not JSON, once and in the order of the input, until the input ends; nothing else is
  written, and no request stops the server.
\<close>

theorem requests_answered:
  "\<exists>outs s'. run_server dumps loads handle lines s = (Inr (map (\<lambda>d. dumps (JObj d) @ [CHR 0x0A]) outs), s') \<and>
     list_all2 (responds_to loads) (filter (expects_response loads) (takeWhile (\<lambda>l. l \<noteq> []) lines)) outs"
proof (induction lines arbitrary: s)
  case Nil
  then show ?case by (simp add: io_ret_run)
next
  case (Cons line lines)
  show ?case
  proof (cases "line = []")
    case True
    then show ?thesis by (simp add: io_ret_run)
  next
    case False
    obtain out s1 where 1: "process_line dumps loads handle line s = (Inr out, s1)"
      "if expects_response loads line then \<exists>d. out = Some d \<and> responds_to loads line d else out = None"
      using process_line_responds [of dumps loads handle line s] by blast
    obtain outs s2 where 2: "run_server dumps loads handle lines s1 = (Inr (map (\<lambda>d. dumps (JObj d) @ [CHR 0x0A]) outs), s2)"
      "list_all2 (responds_to loads) (filter (expects_response loads) (takeWhile (\<lambda>l. l \<noteq> []) lines)) outs"
      using Cons by blast
    show ?thesis
    proof (cases "expects_response loads line")
      case True
      then obtain d where "out = Some d" "responds_to loads line d" using 1(2) by auto
      with 1(1) 2 False True show ?thesis by (intro exI [of _ "d # outs"]) (simp add: io_bind_run io_ret_run)
    next
      case no: False
      with 1 2 False show ?thesis by (intro exI [of _ outs]) (simp add: io_bind_run io_ret_run)
    qed
  qed
qed

end
