(* ===== verification/Memory_Server.thy ===== *)
theory Memory_Server
  imports Mcp_Server "HOL-Library.List_Lexorder"
begin

text \<open>
  \<^verbatim>\<open>mcp_servers/memory\<close>: the two tools by which an agent reads and writes the memory
  files of a repository, and the requests they answer. A path is the list of its components below
  the root; the files are an association list of directories and texts. \<open>resolve\<close>, what
  \<open>Path.resolve\<close> makes of a path (dots and symbolic links removed), belongs to the operating
  system and is a parameter.
\<close>

section \<open>Paths and files\<close>

type_synonym path = "string list"

datatype node = Directory | Regular string

type_synonym files = "(path \<times> node) list"

text \<open>\<open>base / s\<close>: an absolute \<open>s\<close> replaces the base; empty components and single dots are dropped.\<close>

definition components :: "string \<Rightarrow> path" where
  "components s = filter (\<lambda>c. c \<noteq> [] \<and> c \<noteq> ''.'') (str_split CHR ''/'' s)"

definition join_path :: "path \<Rightarrow> string \<Rightarrow> path" where
  "join_path base s = (if str_startswith s ''/'' then components s else base @ components s)"

text \<open>\<open>str(path)\<close>\<close>

definition path_text :: "path \<Rightarrow> string" where
  "path_text p = CHR ''/'' # str_join ''/'' p"

definition children :: "files \<Rightarrow> path \<Rightarrow> string list" where
  "children fs d = sort (remdups (map (\<lambda>p. List.last (fst p)) (filter (\<lambda>p. fst p \<noteq> [] \<and> butlast (fst p) = d) fs)))"

definition text_of :: "files \<Rightarrow> path \<Rightarrow> string option" where
  "text_of fs p = (case map_of fs p of Some (Regular s) \<Rightarrow> Some s | _ \<Rightarrow> None)"

definition is_directory :: "files \<Rightarrow> path \<Rightarrow> bool" where
  "is_directory fs p \<longleftrightarrow> p = [] \<or> map_of fs p = Some Directory"

text \<open>\<open>mkdir(parents=True, exist_ok=True)\<close>: a regular file on the way raises an \<open>OSError\<close>.\<close>

definition make_parents :: "path \<Rightarrow> files \<Rightarrow> files result" where
  "make_parents p fs =
     (if list_ex (\<lambda>q. text_of fs q \<noteq> None) (prefixes p) then Inl (Exn OSError ''Not a directory'')
      else Inr (fold (\<lambda>q fs. if is_directory fs q then fs else AList.update q Directory fs) (prefixes p) fs))"

definition write_text :: "path \<Rightarrow> string \<Rightarrow> files \<Rightarrow> files result" where
  "write_text p content fs =
     (if is_directory fs p then Inl (Exn OSError ''Is a directory'') else Inr (AList.update p (Regular content) fs))"

section \<open>The tools\<close>

definition get_memory_dir :: "path \<Rightarrow> string \<Rightarrow> path" where
  "get_memory_dir home repo = join_path (join_path (home @ [''.claude'', ''memory'']) repo) ''memory''"

definition validate_path :: "(path \<Rightarrow> path) \<Rightarrow> path \<Rightarrow> path \<Rightarrow> unit result" where
  "validate_path resolve full_path base_dir =
     (if prefix (resolve base_dir) (resolve full_path) then Inr ()
      else Inl (Exn ValueError (''Invalid path: outside memory directory ('' @ path_text full_path @ '' not in '' @ path_text base_dir @ '')'')))"

text \<open>The longest path bounds how deep the listing goes.\<close>

definition depth :: "files \<Rightarrow> nat" where
  "depth fs = fold max (map (\<lambda>p. length (fst p)) fs) 0"

lemma fold_max_ge: "(x::nat) \<in> insert m (set xs) \<Longrightarrow> x \<le> fold max xs m"
proof (induction xs arbitrary: m x)
  case (Cons a xs)
  have "max a m \<le> fold max xs (max a m)" by (rule Cons.IH) simp
  with Cons show ?case by auto
qed simp

lemma depth_ge: "map_of fs p = Some n \<Longrightarrow> length p \<le> depth fs"
  unfolding depth_def by (rule fold_max_ge) (force dest: map_of_SomeD)

function list_files :: "files \<Rightarrow> path \<Rightarrow> string \<Rightarrow> string list" where
  "list_files fs d pre = concat (map (\<lambda>n.
     (case map_of fs (d @ [n]) of
        Some (Regular s) \<Rightarrow> [pre @ n]
      | Some Directory \<Rightarrow> list_files fs (d @ [n]) (pre @ n @ ''/'')
      | None \<Rightarrow> [])) (children fs d))"
  by pat_completeness auto
termination
  by (relation "measure (\<lambda>(fs, d, pre). depth fs - length d)") (auto dest: depth_ge)

declare list_files.simps [simp del]

definition MAX_CHARS :: nat where "MAX_CHARS = 100000"

text \<open>\<open>read_text\<close> turns every line ending into a newline.\<close>

fun universal_newlines :: "string \<Rightarrow> string" where
  "universal_newlines [] = []"
| "universal_newlines (c # s) =
     (if c = CHR 0x0D
      then CHR 0x0A # universal_newlines (if take 1 s = [CHR 0x0A] then drop 1 s else s)
      else c # universal_newlines s)"

definition read_result :: "string \<Rightarrow> json" where
  "read_result content =
     (let total_size = length content; truncated = total_size > MAX_CHARS in JObj
       [(''content'', JStr (if truncated then take MAX_CHARS content @ [CHR 0x0A, CHR 0x0A] @ ''... [truncated, file is larger]''
           else content)),
        (''truncated'', JBool truncated), (''total_size'', JInt (int total_size))])"

definition memory_read :: "(path \<Rightarrow> path) \<Rightarrow> path \<Rightarrow> string option \<Rightarrow> string \<Rightarrow> files \<Rightarrow> json result" where
  "memory_read resolve home file_path repo fs =
     (let memory_dir = get_memory_dir home repo in
      case file_path of
        None \<Rightarrow>
          Inr (JObj [(''files'', JArr (if \<not> is_directory fs memory_dir \<and> text_of fs memory_dir = None then []
            else map JStr (list_files fs memory_dir [])))])
      | Some name \<Rightarrow>
          (let full_path = resolve (join_path memory_dir name) in
           res_bind (validate_path resolve full_path memory_dir) (\<lambda>u.
             if is_directory fs full_path then Inl (Exn ValueError (''Path is not a file: '' @ name))
             else (case text_of fs full_path of
                 None \<Rightarrow> Inl (Exn FileNotFoundError (''Memory file not found: '' @ name))
               | Some content \<Rightarrow> Inr (read_result (universal_newlines content))))))"

definition memory_write :: "(path \<Rightarrow> path) \<Rightarrow> path \<Rightarrow> string \<Rightarrow> string \<Rightarrow> string \<Rightarrow> (files, json) io" where
  "memory_write resolve home name content repo =
     (\<lambda>fs. let memory_dir = get_memory_dir home repo; full_path = resolve (join_path memory_dir name) in
        case res_bind (validate_path resolve full_path memory_dir) (\<lambda>u. make_parents (butlast full_path) fs) of
          Inl e \<Rightarrow> (Inl e, fs)
        | Inr fs1 \<Rightarrow>
            (case write_text full_path content fs1 of
               Inl e \<Rightarrow> (Inl e, fs1)
             | Inr fs2 \<Rightarrow> (Inr (JObj [(''success'', JBool True), (''path'', JStr name), (''size'', JInt (int (length content)))]), fs2)))"

section \<open>The requests\<close>

definition property_schema :: "string \<Rightarrow> string \<Rightarrow> string \<times> json" where
  "property_schema name description = (name, JObj [(''type'', JStr ''string''), (''description'', JStr description)])"

definition memory_tools :: json where
  "memory_tools = JArr
     [JObj [(''name'', JStr ''memory_read''),
        (''description'', JStr (''Read memory files from the repository's memory directory. '' @
           ''Call without file_path to list all files, or with file_path to read a specific file. '' @
           ''Memory files contain persistent knowledge about the repository: architecture, '' @
           ''known issues, commands, and other facts learned from previous sessions.'')),
        (''inputSchema'', JObj [(''type'', JStr ''object''), (''properties'', JObj
           [property_schema ''file_path'' (''Optional: Path to memory file relative to memory root. '' @
              ''Examples: 'index.md', 'architecture/auth.md', 'issues/bug-123.md'. '' @
              ''Omit to list all available memory files.'')])])],
      JObj [(''name'', JStr ''memory_write''),
        (''description'', JStr (''Create or update a memory file in the repository's memory directory. '' @
           ''Use for documenting architecture, known issues, commands, decisions, or other '' @
           ''persistent knowledge that should be remembered across sessions. '' @
           ''The file will be created if it doesn't exist, or overwritten if it does.'')),
        (''inputSchema'', JObj [(''type'', JStr ''object''), (''properties'', JObj
           [property_schema ''file_path'' (''Path to memory file relative to memory root. '' @
              ''Examples: 'architecture/auth.md', 'issues/payment-race.md', 'commands.md'. '' @
              ''Parent directories will be created automatically.''),
            property_schema ''content'' (''Full content to write to the file. This will overwrite existing content, '' @
              ''so read the file first if you want to update rather than replace.'')]),
           (''required'', JArr [JStr ''file_path'', JStr ''content''])])]]"

definition path_argument :: "json \<Rightarrow> string result" where
  "path_argument j = (case j of JStr s \<Rightarrow> Inr s | _ \<Rightarrow> Inl (Exn TypeError ''unsupported operand type''))"

definition content_argument :: "json \<Rightarrow> string result" where
  "content_argument j = (case j of JStr s \<Rightarrow> Inr s | _ \<Rightarrow> Inl (Exn TypeError ''data must be str''))"

text \<open>
  \<open>memory_write\<close> with a path that is a string and any content: the content is looked at when
  it is written, after the parents were made.
\<close>

definition write_any :: "(path \<Rightarrow> path) \<Rightarrow> path \<Rightarrow> string \<Rightarrow> json \<Rightarrow> string \<Rightarrow> (files, json) io" where
  "write_any resolve home name content repo =
     (case content_argument content of
        Inr s \<Rightarrow> memory_write resolve home name s repo
      | Inl e \<Rightarrow> (\<lambda>fs.
          let full_path = resolve (join_path (get_memory_dir home repo) name) in
          case res_bind (validate_path resolve full_path (get_memory_dir home repo)) (\<lambda>u. make_parents (butlast full_path) fs) of
            Inl e' \<Rightarrow> (Inl e', fs)
          | Inr fs1 \<Rightarrow> (Inl e, fs1)))"

definition call_tool ::
  "(json \<Rightarrow> string) \<Rightarrow> (path \<Rightarrow> path) \<Rightarrow> path \<Rightarrow> string \<Rightarrow> json \<Rightarrow> json \<Rightarrow> (files, json dict) io" where
  "call_tool pretty resolve home repo tool_name arguments =
     io_try
       (if tool_name = JStr ''memory_read'' then
          io_bind (io_of_result (jget arguments ''file_path'' JNull)) (\<lambda>p.
          io_bind (io_of_result (if p = JNull then Inr None else res_bind (path_argument p) (\<lambda>s. Inr (Some s)))) (\<lambda>file_path.
          io_bind (\<lambda>fs. (memory_read resolve home file_path repo fs, fs)) (\<lambda>result. io_ret (text_content (pretty result)))))
        else if tool_name = JStr ''memory_write'' then
          io_bind (io_of_result (json_item arguments ''file_path'')) (\<lambda>p.
          io_bind (io_of_result (json_item arguments ''content'')) (\<lambda>c.
          io_bind (io_of_result (path_argument p)) (\<lambda>name.
          io_bind (write_any resolve home name c repo) (\<lambda>result. io_ret (text_content (pretty result))))))
        else io_ret (tool_error (- 32601) (''Unknown tool: '' @ py_str tool_name)))
       (\<lambda>e. io_ret
          (if exc_isinstance e FileNotFoundError then tool_error (- 32603) (''File not found: '' @ exc_msg e)
           else if exc_isinstance e ValueError then tool_error (- 32602) (''Invalid input: '' @ exc_msg e)
           else tool_error (- 32603) (''Tool execution failed: '' @ class_name (exc_cls e) @ '': '' @ exc_msg e)))"

text \<open>\<open>repo\<close> is the environment variable \<open>GITHUB_REPOSITORY\<close>, empty when it is not set.\<close>

definition memory_handle :: "(json \<Rightarrow> string) \<Rightarrow> (path \<Rightarrow> path) \<Rightarrow> path \<Rightarrow> string \<Rightarrow> files handler" where
  "memory_handle pretty resolve home repo request =
     io_bind (io_of_result (jget request ''method'' JNull)) (\<lambda>method.
     io_bind (io_of_result (jget request ''params'' (JObj []))) (\<lambda>params.
       if method = JStr ''initialize'' then
         io_bind (io_of_result (jget params ''protocolVersion'' (JStr ''2024-11-05''))) (\<lambda>version. io_ret
           [(''protocolVersion'', version), (''capabilities'', JObj [(''tools'', JObj [])]),
            (''serverInfo'', JObj [(''name'', JStr ''memory''), (''version'', JStr ''1.0.0'')])])
       else if method = JStr ''tools/list'' then io_ret [(''tools'', memory_tools)]
       else if method = JStr ''tools/call'' then
         io_bind (io_of_result (jget params ''name'' JNull)) (\<lambda>tool_name.
         io_bind (io_of_result (jget params ''arguments'' (JObj []))) (\<lambda>arguments.
           if repo = [] then io_ret (tool_error (- 32603) ''GITHUB_REPOSITORY environment variable not set'')
           else call_tool pretty resolve home repo tool_name arguments))
       else io_ret (tool_error (- 32601) (''Unknown method: '' @ py_str method))))"

section \<open>What the tools may touch\<close>

text \<open>Resolving is idempotent: its result has no dots and no links left.\<close>

definition resolves :: "(path \<Rightarrow> path) \<Rightarrow> bool" where
  "resolves resolve \<longleftrightarrow> (\<forall>p. resolve (resolve p) = resolve p)"

lemma text_of_update [simp]: "text_of (AList.update p n fs) q = (if q = p then (case n of Regular s \<Rightarrow> Some s | Directory \<Rightarrow> None) else text_of fs q)"
  by (simp add: text_of_def AList.update_conv' split: node.split)

lemma make_parents_text:
  assumes "make_parents p fs = Inr fs'"
  shows "text_of fs' q = text_of fs q"
proof -
  have "text_of (fold (\<lambda>q fs. if is_directory fs q then fs else AList.update q Directory fs) qs fs) q = text_of fs q"
    if "\<forall>r \<in> set qs. text_of fs r = None" for qs
    using that
  proof (induction qs arbitrary: fs)
    case (Cons r qs)
    then show ?case by (auto simp: Cons.IH)
  qed simp
  with assms show ?thesis by (auto simp: make_parents_def list_ex_iff split: if_splits)
qed

lemma validated_inside: "resolves resolve \<Longrightarrow> validate_path resolve (resolve p) base = Inr u \<Longrightarrow> prefix (resolve base) (resolve p)"
  by (auto simp: validate_path_def resolves_def split: if_splits)

text \<open>A computation after which the text at \<open>q\<close> is the one before.\<close>

definition leaves :: "path \<Rightarrow> (files, 'a) io \<Rightarrow> bool" where
  "leaves q m \<longleftrightarrow> (\<forall>fs. text_of (snd (m fs)) q = text_of fs q)"

lemma leaves_pure: "leaves q (io_ret x)" "leaves q (io_raise e)" "leaves q (io_of_result r)" "leaves q (\<lambda>fs. (f fs, fs))"
  by (simp_all add: leaves_def io_simps)

lemma leaves_bind: "leaves q m \<Longrightarrow> (\<And>x. leaves q (f x)) \<Longrightarrow> leaves q (io_bind m f)"
  by (auto simp: leaves_def io_bind_run split: prod.split sum.split) (metis snd_conv)+

lemma leaves_try: "leaves q m \<Longrightarrow> (\<And>e. leaves q (h e)) \<Longrightarrow> leaves q (io_try m h)"
  by (auto simp: leaves_def io_try_run split: prod.split sum.split) (metis snd_conv)+

lemma leaves_if: "leaves q m \<Longrightarrow> leaves q n \<Longrightarrow> leaves q (if b then m else n)"
  by simp

lemma leaves_option: "leaves q m \<Longrightarrow> (\<And>x. leaves q (f x)) \<Longrightarrow> leaves q (case r of None \<Rightarrow> m | Some x \<Rightarrow> f x)"
  by (cases r) auto

lemmas leaves_intros = leaves_pure leaves_bind leaves_try leaves_if leaves_option

lemma leaves_write:
  assumes "resolves resolve" "\<not> prefix (resolve (get_memory_dir home repo)) q"
  shows "leaves q (write_any resolve home name content repo)"
  using assms validated_inside [OF assms(1)]
  by (auto simp: leaves_def write_any_def memory_write_def Let_def write_text_def res_bind_def make_parents_text
      split: sum.splits if_splits)

lemma leaves_handle:
  assumes "resolves resolve" "\<not> prefix (resolve (get_memory_dir home repo)) q"
  shows "leaves q (memory_handle pretty resolve home repo request)"
  unfolding memory_handle_def call_tool_def by (intro leaves_intros leaves_write [OF assms])

lemma leaves_process_line: "(\<And>r. leaves q (handle r)) \<Longrightarrow> leaves q (process_line dumps loads handle line)"
  unfolding process_line_def by (intro leaves_intros)

lemma leaves_server: "(\<And>r. leaves q (handle r)) \<Longrightarrow> leaves q (run_server dumps loads handle lines)"
  by (induction lines) (auto intro!: leaves_intros leaves_process_line simp del: run_server.simps simp: run_server.simps)

text \<open>
  C28: whatever is sent to the memory server, it changes no file outside the memory directory of
  its repository: dots, absolute paths and symbolic links in a request do not lead out.
\<close>

theorem memory_server_confined:
  assumes "resolves resolve" "\<not> prefix (resolve (get_memory_dir home repo)) q"
  shows "text_of (snd (run_server dumps loads (memory_handle pretty resolve home repo) lines fs)) q = text_of fs q"
  using leaves_server [of q "memory_handle pretty resolve home repo", OF leaves_handle [OF assms]] by (simp add: leaves_def)

text \<open>A resolver without symbolic links: double dots go up.\<close>

fun go_up :: "path \<Rightarrow> path \<Rightarrow> path" where
  "go_up acc [] = rev acc"
| "go_up acc (c # cs) = (if c = ''..'' then go_up (drop 1 acc) cs else go_up (c # acc) cs)"

lemma go_up_plain: "''..'' \<notin> set cs \<Longrightarrow> go_up acc cs = rev acc @ cs"
  by (induction cs arbitrary: acc) auto

lemma go_up_clean: "''..'' \<notin> set acc \<Longrightarrow> ''..'' \<notin> set (go_up acc cs)"
  by (induction cs arbitrary: acc) (auto dest: in_set_dropD)

lemma go_up_resolves: "resolves (go_up [])"
  using go_up_clean [of "[]"] by (simp add: resolves_def go_up_plain)

definition escape_request :: json where
  "escape_request = JObj [(''id'', JInt 1), (''method'', JStr ''tools/call''),
     (''params'', JObj [(''name'', JStr ''memory_write''),
        (''arguments'', JObj [(''file_path'', JStr ''../../../../../.bashrc''), (''content'', JStr ''x'')])])]"

theorem memory_server_confined_witness:
  "text_of (snd (run_server print_json parse_json (memory_handle print_json (go_up []) [''home'', ''bot''] ''o/r'')
     [print_json escape_request] [([''home'', ''bot'', ''.bashrc''], Regular ''old'')])) [''home'', ''bot'', ''.bashrc''] = Some ''old''"
proof -
  have "\<not> prefix (go_up [] (get_memory_dir [''home'', ''bot''] ''o/r'')) [''home'', ''bot'', ''.bashrc'']"
    by (simp add: get_memory_dir_def join_path_def components_def str_startswith_def)
  moreover have "text_of [([''home'', ''bot'', ''.bashrc''], Regular ''old'')] [''home'', ''bot'', ''.bashrc''] = Some ''old''"
    by (simp add: text_of_def)
  ultimately show ?thesis using memory_server_confined [OF go_up_resolves] by (simp del: run_server.simps)
qed

section \<open>Writing and reading\<close>

lemma universal_newlines_id: "CHR 0x0D \<notin> set s \<Longrightarrow> universal_newlines s = s"
  by (induction s) auto

lemma carriage_returns_lost: "CHR 0x0D \<notin> set (universal_newlines s)"
  by (induction s rule: universal_newlines.induct) (auto split: list.splits)


definition sample_memory :: files where "sample_memory = [([''h''], Directory)]"

lemma sample_memory_write:
  "\<exists>fs'. memory_write (go_up []) [''h''] ''notes/a.md'' ''text'' ''o/r'' sample_memory =
    (Inr (JObj [(''success'', JBool True), (''path'', JStr ''notes/a.md''), (''size'', JInt 4)]), fs')"
  by (simp add: memory_write_def get_memory_dir_def join_path_def components_def str_startswith_def Let_def validate_path_def
      make_parents_def write_text_def text_of_def is_directory_def sample_memory_def)


end
