(* ===== verification/Actions_Server.thy ===== *)
theory Actions_Server
  imports Mcp_Server
begin

text \<open>
  \<^verbatim>\<open>mcp_servers/github_actions\<close>: the tools by which an agent reads the workflow runs of
  GitHub Actions, and the requests they answer. HTTP is a parameter (the URL and whether redirects
  are followed give a status and a body), as are the regular-expression engine for the search and
  the token of the environment, empty when there is none. Integer arguments are JSON integers, as
  the tools' schema says; for any other value \<open>TypeError\<close> is raised.
\<close>

section \<open>Responses\<close>

record 's actions_env =
  gx_token :: string
  gx_get :: "string \<Rightarrow> bool \<Rightarrow> ('s, nat \<times> string) io"
  gx_loads :: "string \<Rightarrow> json option"
  gx_search :: "string \<Rightarrow> bool \<Rightarrow> string \<Rightarrow> bool result"

definition AuthenticationError :: exc_class where "AuthenticationError = OtherException ''AuthenticationError''"

text \<open>\<open>raise_for_status\<close> passes what is a success.\<close>

definition get_text :: "'s actions_env \<Rightarrow> string \<Rightarrow> bool \<Rightarrow> ('s, string) io" where
  "get_text G url follow =
     io_bind (gx_get G url follow) (\<lambda>(status, body).
       if 200 \<le> status \<and> status < 300 then io_ret body
       else io_raise (Exn (OtherException ''HTTPStatusError'') url))"

definition get_json :: "'s actions_env \<Rightarrow> string \<Rightarrow> ('s, json) io" where
  "get_json G url =
     io_bind (get_text G url False) (\<lambda>body. case gx_loads G body of
         None \<Rightarrow> io_raise (Exn JSONDecodeError body)
       | Some j \<Rightarrow> io_ret j)"

definition with_token :: "'s actions_env \<Rightarrow> ('s, 'a) io \<Rightarrow> ('s, 'a) io" where
  "with_token G m =
     (if gx_token G = [] then io_raise (Exn AuthenticationError ''GITHUB_TOKEN not available in environment'') else m)"

text \<open>The required members by \<open>[]\<close>, in the order given, then the optional ones by \<open>get\<close>.\<close>

definition members :: "string list \<Rightarrow> string list \<Rightarrow> json \<Rightarrow> json dict result" where
  "members required optionals j =
     res_bind (res_map (\<lambda>k. res_bind (json_item j k) (\<lambda>v. Inr (k, v))) required) (\<lambda>r.
     res_bind (res_map (\<lambda>k. res_bind (jget j k JNull) (\<lambda>v. Inr (k, v))) optionals) (\<lambda>os. Inr (r @ os)))"

section \<open>The tools\<close>

definition api_url :: "json \<Rightarrow> json \<Rightarrow> string \<Rightarrow> json \<Rightarrow> string" where
  "api_url owner repo kind n =
     ''https://api.github.com/repos/'' @ py_str owner @ ''/'' @ py_str repo @ ''/actions/'' @ kind @ ''/'' @ py_str n"

definition get_workflow_run_summary :: "'s actions_env \<Rightarrow> json \<Rightarrow> json \<Rightarrow> json \<Rightarrow> ('s, json dict) io" where
  "get_workflow_run_summary G owner repo run_id = with_token G
     (io_bind (get_json G (api_url owner repo ''runs'' run_id)) (\<lambda>run_data.
      io_bind (get_json G (api_url owner repo ''runs'' run_id @ ''/jobs'')) (\<lambda>jobs_data.
      io_of_result
        (res_bind (jget jobs_data ''jobs'' (JArr [])) (\<lambda>jobs.
         res_bind (json_iter jobs) (\<lambda>jobs.
         res_bind (res_map (members [''id'', ''name'', ''status''] [''conclusion'', ''started_at'', ''completed_at'']) jobs) (\<lambda>summary.
         res_bind (members [''id'', ''name'', ''status''] [''conclusion''] run_data) (\<lambda>run1.
         res_bind (members [''event'', ''created_at'', ''updated_at'', ''html_url''] [] run_data) (\<lambda>run2.
           Inr ((''run_id'', opt_default JNull (dict_get run1 ''id'')) # tl run1 @ run2 @ [(''jobs'', JArr (map JObj summary))]))))))))))"

text \<open>
  \<open>re.sub(r"^\d{4}-\d{2}-\d{2}T[\d:.]+Z\s+", "", line)\<close>
\<close>

definition date_prefix :: "string \<Rightarrow> bool" where
  "date_prefix s \<longleftrightarrow> length s = 11 \<and>
     list_all (\<lambda>i. is_digit (s ! i)) [0, 1, 2, 3, 5, 6, 8, 9] \<and> s ! 4 = CHR ''-'' \<and> s ! 7 = CHR ''-'' \<and> s ! 10 = CHR ''T''"

definition strip_timestamp :: "string \<Rightarrow> string" where
  "strip_timestamp line =
     (let rest = drop 11 line; clock = takeWhile (\<lambda>c. is_digit c \<or> c = CHR '':'' \<or> c = CHR ''.'') rest;
          after = drop (length clock) rest
      in if date_prefix (take 11 line) \<and> clock \<noteq> [] \<and> take 1 after = ''Z'' \<and> takeWhile is_space (drop 1 after) \<noteq> []
         then dropWhile is_space (drop 1 after) else line)"

text \<open>\<open>xs[a:b]\<close> and \<open>xs[a:]\<close>, with negative indices counted from the far side.\<close>

definition clamp_index :: "int \<Rightarrow> nat \<Rightarrow> nat" where
  "clamp_index i n = nat (if i < 0 then max 0 (i + int n) else min i (int n))"

definition py_from :: "int \<Rightarrow> 'a list \<Rightarrow> 'a list" where
  "py_from a xs = drop (clamp_index a (length xs)) xs"

definition py_slice :: "int \<Rightarrow> int \<Rightarrow> 'a list \<Rightarrow> 'a list" where
  "py_slice a b xs = take (clamp_index b (length xs) - clamp_index a (length xs)) (py_from a xs)"

definition get_job_logs_raw ::
  "'s actions_env \<Rightarrow> json \<Rightarrow> json \<Rightarrow> json \<Rightarrow> int \<Rightarrow> int \<Rightarrow> ('s, json dict) io" where
  "get_job_logs_raw G owner repo job_id start_line num_lines =
     (let num_lines = min num_lines 500 in with_token G
       (io_bind (get_text G (api_url owner repo ''jobs'' job_id @ ''/logs'') True) (\<lambda>logs_text.
          let clean_lines = map strip_timestamp (str_split CHR 0x0A logs_text);
              chunk = py_slice start_line (start_line + num_lines) clean_lines
          in io_ret [(''total_lines'', JInt (int (length clean_lines))), (''start_line'', JInt start_line),
            (''end_line'', JInt (start_line + int (length chunk))), (''num_lines_returned'', JInt (int (length chunk))),
            (''lines'', JStr (str_join nl chunk))])))"

fun find_matches :: "(string \<Rightarrow> bool result) \<Rightarrow> string list \<Rightarrow> int \<Rightarrow> nat \<Rightarrow> string list \<Rightarrow> json list result" where
  "find_matches search lines context_lines i [] = Inr []"
| "find_matches search lines context_lines i (line # rest) =
     res_bind (search line) (\<lambda>m.
     res_bind (find_matches search lines context_lines (Suc i) rest) (\<lambda>found. Inr
       (if m then
          (let start = max 0 (int i - context_lines); finish = min (int (length lines)) (int i + context_lines + 1) in
           JObj [(''line_number'', JInt (int i + 1)), (''matched_line'', JStr line),
             (''context'', JStr (str_join nl (py_slice start finish lines)))] # found)
        else found)))"

definition search_job_logs ::
  "'s actions_env \<Rightarrow> json \<Rightarrow> json \<Rightarrow> json \<Rightarrow> string \<Rightarrow> int \<Rightarrow> bool \<Rightarrow> ('s, json dict) io" where
  "search_job_logs G owner repo job_id pattern context_lines case_sensitive = with_token G
     (io_bind (get_text G (api_url owner repo ''jobs'' job_id @ ''/logs'') True) (\<lambda>logs_text.
        let lines = str_split CHR 0x0A logs_text in
        io_bind (io_of_result (find_matches (gx_search G pattern (\<not> case_sensitive)) lines context_lines 0 lines)) (\<lambda>matches.
          io_ret [(''job_id'', job_id), (''pattern'', JStr pattern), (''total_matches'', JInt (int (length matches))),
            (''matches'', JArr (take 30 matches)), (''truncated'', JBool (length matches > 30))])))"

definition failed_step :: "json \<Rightarrow> json dict option result" where
  "failed_step step =
     res_bind (jget step ''conclusion'' JNull) (\<lambda>c.
       if c = JStr ''failure''
       then res_bind (members [''name'', ''number'', ''status'', ''conclusion''] [''started_at'', ''completed_at''] step) (\<lambda>d. Inr (Some d))
       else Inr None)"

definition get_failed_steps :: "'s actions_env \<Rightarrow> json \<Rightarrow> json \<Rightarrow> json \<Rightarrow> int \<Rightarrow> ('s, json dict) io" where
  "get_failed_steps G owner repo job_id log_lines_per_step = with_token G
     (io_bind (get_json G (api_url owner repo ''jobs'' job_id)) (\<lambda>job_data.
      io_bind (get_text G (api_url owner repo ''jobs'' job_id @ ''/logs'') True) (\<lambda>logs_text.
      let logs_lines = str_split CHR 0x0A logs_text; total_lines = int (length logs_lines) in
      io_of_result
        (res_bind (jget job_data ''steps'' (JArr [])) (\<lambda>steps.
         res_bind (json_iter steps) (\<lambda>steps.
         res_bind (res_map failed_step steps) (\<lambda>found.
           let failed_steps = List.map_filter id found;
               lines_to_include = min (log_lines_per_step * max (int (length failed_steps)) 1) (min total_lines 500);
               excerpt = str_join nl (py_from (- lines_to_include) logs_lines);
               log_excerpt = (if lines_to_include < total_lines
                 then ''... (showing last '' @ show_int lines_to_include @ '' of '' @ show_int total_lines @ '' lines) ...'' @ nl @ nl @ excerpt
                 else excerpt)
           in res_bind (json_item job_data ''id'') (\<lambda>i.
              res_bind (json_item job_data ''name'') (\<lambda>name.
              res_bind (jget job_data ''conclusion'' JNull) (\<lambda>conclusion. Inr
                [(''job_id'', i), (''job_name'', name), (''job_conclusion'', conclusion),
                 (''failed_steps_count'', JInt (int (length failed_steps))), (''failed_steps'', JArr (map JObj failed_steps)),
                 (''log_excerpt'', JStr log_excerpt), (''log_excerpt_lines'', JInt lines_to_include),
                 (''total_log_lines'', JInt total_lines)]))))))))))"

section \<open>The requests\<close>

definition schema_property :: "string \<Rightarrow> string \<Rightarrow> string \<Rightarrow> json dict \<Rightarrow> string \<times> json" where
  "schema_property name ty description dflt =
     (name, JObj ([(''type'', JStr ty), (''description'', JStr description)] @ dflt))"

definition tool_schema :: "string \<Rightarrow> string \<Rightarrow> (string \<times> json) list \<Rightarrow> string list \<Rightarrow> json" where
  "tool_schema name description properties required = JObj
     [(''name'', JStr name), (''description'', JStr description),
      (''inputSchema'', JObj [(''type'', JStr ''object''), (''properties'', JObj properties),
         (''required'', JArr (map JStr required))])]"

definition TOOLS :: json where
  "TOOLS =
     (let owner = schema_property ''owner'' ''string'' ''Repository owner'' [];
          repo = schema_property ''repo'' ''string'' ''Repository name'' [];
          job = schema_property ''job_id'' ''string'' ''Job ID from workflow run'' []
      in JArr
       [tool_schema ''get_workflow_run_summary''
          ''Get high-level summary of a workflow run without logs. Use this FIRST to identify failed jobs.''
          [owner, repo, schema_property ''run_id'' ''string'' ''Workflow run ID'' []] [''owner'', ''repo'', ''run_id''],
        tool_schema ''get_failed_steps''
          ''Extract only failed steps from a job with their logs. Most efficient for diagnosis.''
          [owner, repo, job, schema_property ''log_lines_per_step'' ''integer'' ''Max lines to include per failed step''
             [(''default'', JInt 100)]] [''owner'', ''repo'', ''job_id''],
        tool_schema ''get_job_logs_raw''
          ''Get paginated job logs. Use start_line and num_lines to read logs in chunks (default: 500 lines per call).''
          [owner, repo, job,
           schema_property ''start_line'' ''integer'' ''Line number to start from (0-indexed, default: 0)'' [(''default'', JInt 0)],
           schema_property ''num_lines'' ''integer'' ''Number of lines to return (default: 500)'' [(''default'', JInt 500)]]
          [''owner'', ''repo'', ''job_id''],
        tool_schema ''search_job_logs''
          ''Search for specific patterns in job logs. Returns matching lines with context.''
          [owner, repo, job, schema_property ''pattern'' ''string'' ''Regex pattern or keyword to search'' [],
           schema_property ''context_lines'' ''integer'' ''Number of lines before/after match to include'' [(''default'', JInt 5)],
           schema_property ''case_sensitive'' ''boolean'' ''Whether search is case-sensitive'' [(''default'', JBool False)]]
          [''owner'', ''repo'', ''job_id'', ''pattern'']])"

fun int_argument :: "json \<Rightarrow> int result" where
  "int_argument (JInt n) = Inr n"
| "int_argument (JBool b) = Inr (if b then 1 else 0)"
| "int_argument _ = Inl (Exn TypeError ''unsupported operand type'')"

fun pattern_argument :: "json \<Rightarrow> string result" where
  "pattern_argument (JStr s) = Inr s"
| "pattern_argument _ = Inl (Exn TypeError ''first argument must be string or compiled pattern'')"

text \<open>\<open>f"{result[k]}"\<close>\<close>

definition shown :: "json dict \<Rightarrow> string \<Rightarrow> string result" where
  "shown d k = res_bind (json_item (JObj d) k) (\<lambda>v. Inr (py_str v))"

definition job_line :: "json \<Rightarrow> string result" where
  "job_line job =
     res_bind (json_item job ''conclusion'') (\<lambda>c. res_bind (json_item job ''name'') (\<lambda>n. res_bind (json_item job ''id'') (\<lambda>i. Inr
       (''  - ['' @ py_str (py_or c (JStr ''running'')) @ ''] '' @ py_str n @ '' (ID: '' @ py_str i @ '')''))))"

definition summary_text :: "json dict \<Rightarrow> string result" where
  "summary_text result =
     res_bind (res_map (shown result) [''run_id'', ''name'', ''status'', ''conclusion'', ''event'', ''html_url'']) (\<lambda>vs.
     res_bind (json_item (JObj result) ''jobs'') (\<lambda>jobs.
     res_bind (json_iter jobs) (\<lambda>jobs.
     res_bind (res_map job_line jobs) (\<lambda>lines. Inr
       (''Workflow Run Summary:'' @ nl @
        concat (map (\<lambda>(label, v). ''- '' @ label @ '': '' @ v @ nl)
          (zip [''Run ID'', ''Name'', ''Status'', ''Conclusion'', ''Event'', ''URL''] vs)) @ nl @
        ''Jobs ('' @ show_int (int (length jobs)) @ ''):'' @ nl @ str_join nl lines)))))"

definition step_text :: "json \<Rightarrow> string result" where
  "step_text step =
     res_bind (res_map (\<lambda>k. res_bind (json_item step k) (\<lambda>v. Inr (py_str v)))
         [''number'', ''name'', ''status'', ''conclusion'', ''started_at'', ''completed_at'', ''log_excerpt'']) (\<lambda>vs. Inr
       (''Step '' @ vs ! 0 @ '': '' @ vs ! 1 @ nl @ ''Status: '' @ vs ! 2 @ '' / '' @ vs ! 3 @ nl @
        ''Started: '' @ vs ! 4 @ nl @ ''Completed: '' @ vs ! 5 @ nl @ nl @ ''Log Excerpt:'' @ nl @ vs ! 6))"

definition failed_steps_text :: "json dict \<Rightarrow> string result" where
  "failed_steps_text result =
     res_bind (json_item (JObj result) ''failed_steps_count'') (\<lambda>count.
     res_bind (shown result ''job_name'') (\<lambda>name.
       if count = JInt 0 then Inr (''Job '' @ CHR 0x27 # name @ CHR 0x27 # '' has no failed steps.'')
       else
         res_bind (json_item (JObj result) ''failed_steps'') (\<lambda>steps.
         res_bind (json_iter steps) (\<lambda>steps.
         res_bind (res_map step_text steps) (\<lambda>texts.
         res_bind (shown result ''job_conclusion'') (\<lambda>conclusion. Inr
           (''Failed Steps for Job: '' @ name @ nl @ ''Job Conclusion: '' @ conclusion @ nl @
            ''Failed Steps: '' @ py_str count @ nl @ nl @ str_join (nl @ nl) texts)))))))"

definition logs_text :: "json dict \<Rightarrow> string result" where
  "logs_text result =
     res_bind (res_map (shown result) [''total_lines'', ''start_line'', ''end_line'', ''num_lines_returned'', ''lines'']) (\<lambda>vs. Inr
       (''Job Logs (Paginated)'' @ nl @ ''Total Lines: '' @ vs ! 0 @ nl @ ''Showing: Lines '' @ vs ! 1 @ '' to '' @ vs ! 2 @
        '' ('' @ vs ! 3 @ '' lines)'' @ nl @ nl @ vs ! 4))"

definition match_text :: "json \<Rightarrow> string result" where
  "match_text m =
     res_bind (res_map (\<lambda>k. res_bind (json_item m k) (\<lambda>v. Inr (py_str v))) [''line_number'', ''matched_line'', ''context'']) (\<lambda>vs. Inr
       (''Match at line '' @ vs ! 0 @ '':'' @ nl @ vs ! 1 @ nl @ nl @ ''Context:'' @ nl @ vs ! 2))"

definition search_text :: "json dict \<Rightarrow> string result" where
  "search_text result =
     res_bind (res_map (json_item (JObj result)) [''total_matches'', ''matches'', ''truncated'']) (\<lambda>vs.
     res_bind (shown result ''pattern'') (\<lambda>pattern.
       if vs ! 0 = JInt 0 then Inr (''No matches found for pattern: '' @ pattern)
       else
         res_bind (json_iter (vs ! 1)) (\<lambda>matches.
         res_bind (res_map match_text matches) (\<lambda>texts.
           let note = (if py_truthy (vs ! 2)
             then nl @ nl @ ''Note: Showing first 50 of '' @ py_str (vs ! 0) @ '' matches.'' else [])
           in Inr (''Search Results for: '' @ pattern @ nl @ ''Total Matches: '' @ py_str (vs ! 0) @ note @ nl @ nl @
                str_join (nl @ nl) texts)))))"

text \<open>The text of a tool's result, or the tool's own exception.\<close>

definition run_tool :: "'s actions_env \<Rightarrow> string \<Rightarrow> json \<Rightarrow> ('s, string) io" where
  "run_tool G tool_name arguments =
     io_bind (io_of_result (json_item arguments ''owner'')) (\<lambda>owner.
     io_bind (io_of_result (json_item arguments ''repo'')) (\<lambda>repo.
       if tool_name = ''get_workflow_run_summary'' then
         io_bind (io_of_result (json_item arguments ''run_id'')) (\<lambda>run_id.
         io_bind (get_workflow_run_summary G owner repo run_id) (\<lambda>result. io_of_result (summary_text result)))
       else
         io_bind (io_of_result (json_item arguments ''job_id'')) (\<lambda>job_id.
           if tool_name = ''get_failed_steps'' then
             io_bind (io_of_result (res_bind (jget arguments ''log_lines_per_step'' (JInt 100)) int_argument)) (\<lambda>n.
             io_bind (get_failed_steps G owner repo job_id n) (\<lambda>result. io_of_result (failed_steps_text result)))
           else if tool_name = ''get_job_logs_raw'' then
             io_bind (io_of_result (res_bind (jget arguments ''start_line'' (JInt 0)) int_argument)) (\<lambda>start_line.
             io_bind (io_of_result (res_bind (jget arguments ''num_lines'' (JInt 500)) int_argument)) (\<lambda>num_lines.
             io_bind (get_job_logs_raw G owner repo job_id start_line num_lines) (\<lambda>result. io_of_result (logs_text result))))
           else
             io_bind (io_of_result (res_bind (json_item arguments ''pattern'') pattern_argument)) (\<lambda>pattern.
             io_bind (io_of_result (res_bind (jget arguments ''context_lines'' (JInt 5)) int_argument)) (\<lambda>context_lines.
             io_bind (io_of_result (jget arguments ''case_sensitive'' (JBool False))) (\<lambda>case_sensitive.
             io_bind (search_job_logs G owner repo job_id pattern context_lines (py_truthy case_sensitive)) (\<lambda>result.
               io_of_result (search_text result))))))))"

definition tool_names :: "string list" where
  "tool_names = [''get_workflow_run_summary'', ''get_failed_steps'', ''get_job_logs_raw'', ''search_job_logs'']"

definition handle_tool_call :: "'s actions_env \<Rightarrow> json \<Rightarrow> ('s, json dict) io" where
  "handle_tool_call G params =
     io_bind (io_of_result (jget params ''name'' JNull)) (\<lambda>tool_name.
     io_bind (io_of_result (jget params ''arguments'' (JObj []))) (\<lambda>arguments.
       if tool_name \<in> set (map JStr tool_names) then
         io_try
           (io_bind (run_tool G (py_str tool_name) arguments) (\<lambda>t. io_ret (text_content t)))
           (\<lambda>e. io_ret (tool_error (- 32603) (''Tool execution failed: '' @ class_name (exc_cls e) @ '': '' @ exc_msg e)))
       else io_ret (tool_error (- 32601) (''Unknown tool: '' @ py_str tool_name))))"

definition actions_handle :: "'s actions_env \<Rightarrow> 's handler" where
  "actions_handle G request =
     io_bind (io_of_result (jget request ''method'' JNull)) (\<lambda>method.
     io_bind (io_of_result (jget request ''params'' (JObj []))) (\<lambda>params.
       if method = JStr ''initialize'' then
         io_bind (io_of_result (jget params ''protocolVersion'' (JStr ''2024-11-05''))) (\<lambda>version. io_ret
           [(''protocolVersion'', version), (''capabilities'', JObj [(''tools'', JObj [])]),
            (''serverInfo'', JObj [(''name'', JStr ''github_actions''), (''version'', JStr ''1.0.0'')])])
       else if method = JStr ''tools/list'' then io_ret [(''tools'', TOOLS)]
       else if method = JStr ''tools/call'' then handle_tool_call G params
       else io_ret (tool_error (- 32601) (''Unknown method: '' @ py_str method))))"

section \<open>Paging through a log\<close>

definition log_page :: "json dict \<Rightarrow> string" where
  "log_page result = py_str (opt_default JNull (dict_get result ''lines''))"

lemma clamp_nat: "clamp_index (int x) n = min x n"
  by (simp add: clamp_index_def min_def)

lemma py_slice_page: "py_slice (int a) (int a + int k) xs = take k (drop a xs)"
  unfolding of_nat_add [symmetric] py_slice_def py_from_def clamp_nat
  by (cases "a \<le> length xs") (auto simp: min_def)

text \<open>The consecutive pages of \<open>k\<close> elements, joined, are the whole.\<close>

lemma str_join_append: "xs \<noteq> [] \<Longrightarrow> ys \<noteq> [] \<Longrightarrow> str_join sep (xs @ ys) = str_join sep xs @ sep @ str_join sep ys"
  by (induction sep xs rule: str_join.induct) (auto, metis list.exhaust str_join.simps(3))

lemma joined_pages:
  assumes "0 < k"
  shows "n * k < length xs \<Longrightarrow> length xs \<le> Suc n * k \<Longrightarrow>
    str_join sep (map (\<lambda>i. str_join sep (take k (drop (i * k) xs))) [0..<Suc n]) = str_join sep xs"
proof (induction n arbitrary: xs)
  case 0
  then show ?case by simp
next
  case (Suc n)
  have len: "n * k < length (drop k xs)" "length (drop k xs) \<le> Suc n * k" using Suc.prems by auto
  have "k < length xs" using Suc.prems by auto
  have "map (\<lambda>i. str_join sep (take k (drop (i * k) xs))) [0..<Suc (Suc n)] =
      str_join sep (take k xs) # map (\<lambda>i. str_join sep (take k (drop (i * k) (drop k xs)))) [0..<Suc n]"
    by (simp add: upt_conv_Cons [of 0 "Suc (Suc n)"] map_Suc_upt [symmetric] comp_def add.commute del: upt_Suc)
  then have "str_join sep (map (\<lambda>i. str_join sep (take k (drop (i * k) xs))) [0..<Suc (Suc n)]) =
      str_join sep (take k xs) @ sep @ str_join sep (map (\<lambda>i. str_join sep (take k (drop (i * k) (drop k xs)))) [0..<Suc n])"
    by (cases "map (\<lambda>i. str_join sep (take k (drop (i * k) (drop k xs)))) [0..<Suc n]") (simp_all del: upt_Suc)
  also have "\<dots> = str_join sep (take k xs) @ sep @ str_join sep (drop k xs)"
    using Suc.IH [OF len] by (simp del: upt_Suc)
  also have "\<dots> = str_join sep (take k xs @ drop k xs)"
    using \<open>k < length xs\<close> assms by (subst str_join_append) auto
  finally show ?case by simp
qed

definition serves_log :: "'s actions_env \<Rightarrow> json \<Rightarrow> json \<Rightarrow> json \<Rightarrow> string \<Rightarrow> bool" where
  "serves_log G owner repo job_id text \<longleftrightarrow> gx_token G \<noteq> [] \<and>
     (\<forall>s. fst (gx_get G (api_url owner repo ''jobs'' job_id @ ''/logs'') True s) = Inr (200, text))"

lemma log_page_run:
  assumes "serves_log G owner repo job_id text" "k \<le> 500"
  shows "\<exists>r s'. get_job_logs_raw G owner repo job_id (int a) (int k) s = (Inr r, s') \<and>
    log_page r = str_join nl (take k (drop a (map strip_timestamp (str_split CHR 0x0A text)))) \<and>
    dict_get r ''num_lines_returned'' = Some (JInt (int (length (take k (drop a (str_split CHR 0x0A text))))))"
proof -
  obtain s' where "gx_get G (api_url owner repo ''jobs'' job_id @ ''/logs'') True s = (Inr (200, text), s')"
    using assms(1) unfolding serves_log_def by (metis prod.collapse)
  moreover have "min (int k) 500 = int k" using assms(2) by simp
  ultimately show ?thesis
    using assms(1) by (simp add: get_job_logs_raw_def with_token_def serves_log_def get_text_def io_simps py_slice_page log_page_def Let_def)
qed

text \<open>
  C31: an agent that reads a job's log page by page, with any page size up to the limit of 500
  lines, has read the whole log: the pages joined are the log without its time stamps, however many
  lines it has.
\<close>

theorem log_pages_complete:
  assumes "serves_log G owner repo job_id text" "0 < k" "k \<le> 500"
    and "n * k < length (str_split CHR 0x0A text)" "length (str_split CHR 0x0A text) \<le> Suc n * k"
    and "\<And>i. i \<le> n \<Longrightarrow> \<exists>s s'. get_job_logs_raw G owner repo job_id (int (i * k)) (int k) s = (Inr (page i), s')"
  shows "str_join nl (map (log_page \<circ> page) [0..<Suc n]) = str_join nl (map strip_timestamp (str_split CHR 0x0A text))"
proof -
  have "log_page (page i) = str_join nl (take k (drop (i * k) (map strip_timestamp (str_split CHR 0x0A text))))" if i: "i \<le> n" for i
  proof -
    obtain s s' where "get_job_logs_raw G owner repo job_id (int (i * k)) (int k) s = (Inr (page i), s')"
      using assms(6) [OF i] by blast
    with log_page_run [OF assms(1,3), of "i * k" s] show ?thesis by auto
  qed
  then have m: "map (log_page \<circ> page) [0..<Suc n] =
      map (\<lambda>i. str_join nl (take k (drop (i * k) (map strip_timestamp (str_split CHR 0x0A text))))) [0..<Suc n]"
    by (intro map_cong) auto
  show ?thesis
    unfolding m by (rule joined_pages [OF assms(2)]) (simp_all only: length_map assms(4,5))
qed

definition sample_log :: string where
  "sample_log = ''2024-03-27T12:34:56.7Z one'' @ nl @ ''two'' @ nl @ ''three''"

definition sample_actions :: "unit actions_env" where
  "sample_actions = \<lparr>gx_token = ''t'', gx_get = \<lambda>u f. io_ret (200, sample_log), gx_loads = \<lambda>s. None, gx_search = \<lambda>p i l. Inr False\<rparr>"

theorem log_pages_complete_witness:
  "(case (get_job_logs_raw sample_actions (JStr ''o'') (JStr ''r'') (JInt 1) 0 2 (),
         get_job_logs_raw sample_actions (JStr ''o'') (JStr ''r'') (JInt 1) 2 2 ()) of
      ((Inr p, s), (Inr q, t)) \<Rightarrow> log_page p @ nl @ log_page q = ''one'' @ nl @ ''two'' @ nl @ ''three''
    | _ \<Rightarrow> False)"
proof -
  let ?run = "\<lambda>i::nat. get_job_logs_raw sample_actions (JStr ''o'') (JStr ''r'') (JInt 1) (int (i * 2)) (int 2) ()"
  have serves: "serves_log sample_actions (JStr ''o'') (JStr ''r'') (JInt 1) sample_log"
    by (simp add: serves_log_def sample_actions_def io_ret_run)
  define page where "page i = projr (fst (?run i))" for i
  have page: "?run i = (Inr (page i), ())" for i
    using log_page_run [OF serves, of 2 "i * 2" "()"] by (auto simp: page_def)
  have split: "str_split CHR 0x0A sample_log = [''2024-03-27T12:34:56.7Z one'', ''two'', ''three'']"
    by (simp add: sample_log_def nl_def)
  have "map strip_timestamp (str_split CHR 0x0A sample_log) = [''one'', ''two'', ''three'']"
    by (simp add: split strip_timestamp_def date_prefix_def is_digit_def is_space_def Let_def)
  moreover have "[0..<Suc 1] = [0, 1]" by simp
  ultimately have "log_page (page 0) @ nl @ log_page (page 1) = ''one'' @ nl @ ''two'' @ nl @ ''three''"
    using log_pages_complete [OF serves, of 2 1 page] page by (simp add: split)
  then show ?thesis using page [of 0] page [of 1] by simp
qed

section \<open>Failed steps\<close>

text \<open>
  The reply to \<open>get_failed_steps\<close> reads an excerpt from every step, but the tool puts the
  excerpt beside the steps: as soon as a step has failed, the call ends with a \<open>KeyError\<close>.
\<close>

lemma failed_step_no_excerpt: "failed_step step = Inr (Some d) \<Longrightarrow> dict_get d ''log_excerpt'' = None"
  by (auto simp: failed_step_def members_def res_bind_Inr_iff split: if_splits)

lemma failed_steps_unreadable:
  assumes "step_text (JObj d) = Inr t"
  shows "dict_get d ''log_excerpt'' \<noteq> None"
  using assms by (auto simp: step_text_def res_bind_Inr_iff json_item_def split: option.splits)

lemma failed_steps_result:
  assumes "get_failed_steps G owner repo job_id n s = (Inr result, s')"
  shows "\<exists>found steps. res_map failed_step steps = Inr found \<and>
    dict_get result ''failed_steps'' = Some (JArr (map JObj (List.map_filter id found))) \<and>
    dict_get result ''failed_steps_count'' = Some (JInt (int (length (List.map_filter id found))))"
  using assms
  by (auto simp: get_failed_steps_def with_token_def io_bind_run io_of_result_run io_raise_run Let_def res_bind_Inr_iff
      split: if_splits prod.splits sum.splits)

lemma failed_steps_tool_fails:
  assumes "get_failed_steps G owner repo job_id n s = (Inr result, s')" "failed_steps_text result = Inr t"
  shows "dict_get result ''failed_steps_count'' = Some (JInt 0)"
proof (rule ccontr)
  assume c: "dict_get result ''failed_steps_count'' \<noteq> Some (JInt 0)"
  obtain found steps where steps: "res_map failed_step steps = Inr found"
    and r: "dict_get result ''failed_steps'' = Some (JArr (map JObj (List.map_filter id found)))"
      "dict_get result ''failed_steps_count'' = Some (JInt (int (length (List.map_filter id found))))"
    using failed_steps_result [OF assms(1)] by blast
  have found: "\<forall>r \<in> set found. \<exists>step. failed_step step = Inr r" using res_map_range [OF steps] by blast
  from c r(2) obtain d where d: "d \<in> set (List.map_filter id found)" by (cases "List.map_filter id found") auto
  then have "Some d \<in> set found" by (auto simp: map_filter_def)
  with found obtain step where "failed_step step = Inr (Some d)" by blast
  then have no: "dict_get d ''log_excerpt'' = None" by (rule failed_step_no_excerpt)
  from assms(2) c r obtain texts where "res_map step_text (map JObj (List.map_filter id found)) = Inr texts"
    by (auto simp: failed_steps_text_def json_item_def res_bind_Inr_iff split: if_splits)
  from res_map_domain [OF this] d obtain t where "step_text (JObj d) = Inr t" by fastforce
  with failed_steps_unreadable no show False by blast
qed

text \<open>An excerpt of zero lines is the whole log.\<close>

lemma zero_lines_is_everything: "py_from (- 0) lines = lines"
  by (simp add: py_from_def clamp_index_def)

end
