(* ===== verification/Thread_History.thy ===== *)
theory Thread_History
  imports Json_Text
begin

text \<open>
  \<^verbatim>\<open>shared/thread_history.py\<close>: the conversation of an issue, a pull request or a
  discussion, fetched page by page and formatted for the system prompt. HTTP is a parameter (URL and
  page number, or the variables of a GraphQL query, give a status and a body), and so is
  \<open>loads\<close>. The fields of a comment are the JSON values of the API.
\<close>

section \<open>Comments\<close>

definition MAX_COMMENT_PAGES :: nat where "MAX_COMMENT_PAGES = 5"
definition MAX_TOTAL_COMMENTS :: nat where "MAX_TOTAL_COMMENTS = 500"

record 's history_env =
  hx_client :: "('s, unit) io"
  hx_get :: "string \<Rightarrow> nat option \<Rightarrow> ('s, nat \<times> string) io"
  hx_post :: "json dict \<Rightarrow> ('s, nat \<times> string) io"
  hx_loads :: "string \<Rightarrow> json option"

record history_config =
  hc_enabled :: bool
  hc_max_comments :: int
  hc_include_pr_reviews :: bool
  hc_include_issue_body :: bool

definition default_history :: history_config where
  "default_history = \<lparr>hc_enabled = True, hc_max_comments = 100, hc_include_pr_reviews = True, hc_include_issue_body = True\<rparr>"

record thread_reply =
  th_author :: json
  th_created :: json
  th_body :: json

record thread_comment = thread_reply +
  th_context :: "string option"
  th_replies :: "thread_reply list"

record thread_root =
  tr_title :: json
  tr_body :: json
  tr_author :: json
  tr_created :: json
  tr_state :: json
  tr_labels :: "json list"
  tr_category :: json

text \<open>\<open>xs[:n]\<close>\<close>

definition up_to :: "int \<Rightarrow> 'a list \<Rightarrow> 'a list" where
  "up_to n xs = take (nat (if n < 0 then int (length xs) + n else n)) xs"

definition body_of :: "json \<Rightarrow> json result" where
  "body_of c = res_bind (jget c ''body'' (JStr [])) (\<lambda>b. Inr (py_or b (JStr [])))"

text \<open>\<open>c.get("user", {}).get("login", "unknown")\<close>\<close>

definition login_of :: "json \<Rightarrow> json result" where
  "login_of c = jget2 c ''user'' ''login'' (JStr ''unknown'')"

text \<open>\<open>(c.get("author") or {}).get("login", "unknown")\<close>\<close>

definition author_of :: "json \<Rightarrow> json result" where
  "author_of c = res_bind (jget c ''author'' JNull) (\<lambda>a. jget (py_or a (JObj [])) ''login'' (JStr ''unknown''))"

definition comment_entry :: "json \<Rightarrow> thread_comment result" where
  "comment_entry c =
     res_bind (login_of c) (\<lambda>author. res_bind (jget c ''created_at'' (JStr [])) (\<lambda>created. res_bind (body_of c) (\<lambda>body. Inr
       \<lparr>th_author = author, th_created = created, th_body = body, th_context = None, th_replies = []\<rparr>)))"

definition review_entry :: "json \<Rightarrow> thread_comment result" where
  "review_entry c =
     res_bind (comment_entry c) (\<lambda>e.
     res_bind (jget c ''path'' JNull) (\<lambda>path.
       if py_truthy path
       then res_bind (jget c ''original_line'' (JStr ''?'')) (\<lambda>line. Inr
         (e\<lparr>th_context := Some (py_str path @ '':'' @ py_str line)\<rparr>))
       else Inr e))"

text \<open>Entries until the first that raises, and whether one did.\<close>

fun collect :: "(json \<Rightarrow> 'c result) \<Rightarrow> json list \<Rightarrow> 'c list \<times> bool" where
  "collect entry [] = ([], False)"
| "collect entry (c # cs) =
     (case entry c of
        Inl e \<Rightarrow> ([], True)
      | Inr x \<Rightarrow> (case collect entry cs of (xs, failed) \<Rightarrow> (x # xs, failed)))"

section \<open>Pages\<close>

text \<open>One page: the new entries, whether an exception ended it, and whether more pages may follow.\<close>

definition fetch_page :: "'s history_env \<Rightarrow> (json \<Rightarrow> 'c result) \<Rightarrow> string \<Rightarrow> nat \<Rightarrow> ('s, 'c list \<times> bool \<times> bool) io" where
  "fetch_page H entry url page =
     io_try
       (io_bind (hx_get H url (Some (page + 1))) (\<lambda>(status, body).
          if status \<noteq> 200 then io_ret ([], False, False)
          else (case hx_loads H body of
              None \<Rightarrow> io_raise (Exn JSONDecodeError body)
            | Some page_comments \<Rightarrow>
                if \<not> py_truthy page_comments then io_ret ([], False, False)
                else io_bind (io_of_result (json_iter page_comments)) (\<lambda>cs.
                  case collect entry cs of (new, failed) \<Rightarrow> io_ret (new, failed, length cs \<ge> 100)))))
       (\<lambda>e. io_ret ([], True, False))"

fun fetch_pages ::
  "'s history_env \<Rightarrow> (json \<Rightarrow> 'c result) \<Rightarrow> string \<Rightarrow> nat list \<Rightarrow> 'c list \<Rightarrow> ('s, 'c list) io" where
  "fetch_pages H entry url [] comments = io_ret comments"
| "fetch_pages H entry url (page # pages) comments =
     io_bind (fetch_page H entry url page) (\<lambda>(new, failed, more).
       let comments = comments @ new in
       if failed then io_ret comments
       else if length comments \<ge> MAX_TOTAL_COMMENTS then io_ret (take MAX_TOTAL_COMMENTS comments)
       else if \<not> more then io_ret comments
       else fetch_pages H entry url pages comments)"

definition repo_url :: "string \<Rightarrow> string \<Rightarrow> int \<Rightarrow> string" where
  "repo_url repo endpoint n = ''https://api.github.com/repos/'' @ repo @ ''/'' @ endpoint @ ''/'' @ show_int n"

definition fetch_comments :: "'s history_env \<Rightarrow> string \<Rightarrow> int \<Rightarrow> int \<Rightarrow> ('s, thread_comment list) io" where
  "fetch_comments H repo issue_number max_comments =
     io_bind (fetch_pages H comment_entry (repo_url repo ''issues'' issue_number @ ''/comments'') [0..<MAX_COMMENT_PAGES] [])
       (\<lambda>comments. io_ret (up_to max_comments comments))"

definition fetch_pr_review_comments :: "'s history_env \<Rightarrow> string \<Rightarrow> int \<Rightarrow> int \<Rightarrow> ('s, thread_comment list) io" where
  "fetch_pr_review_comments H repo pr_number max_comments =
     io_bind (fetch_pages H review_entry (repo_url repo ''pulls'' pr_number @ ''/comments'') [0..<MAX_COMMENT_PAGES] [])
       (\<lambda>comments. io_ret (up_to max_comments comments))"

section \<open>The root of the thread\<close>

definition root_entry :: "json \<Rightarrow> thread_root result" where
  "root_entry data =
     res_bind (jget data ''title'' (JStr [])) (\<lambda>title.
     res_bind (body_of data) (\<lambda>body.
     res_bind (login_of data) (\<lambda>author.
     res_bind (jget data ''created_at'' (JStr [])) (\<lambda>created.
     res_bind (jget data ''state'' (JStr [])) (\<lambda>state.
     res_bind (jget data ''labels'' (JArr [])) (\<lambda>labels.
     res_bind (json_iter labels) (\<lambda>labels.
     res_bind (res_map (\<lambda>lbl. jget lbl ''name'' (JStr [])) labels) (\<lambda>names. Inr
       \<lparr>tr_title = title, tr_body = body, tr_author = author, tr_created = created, tr_state = state, tr_labels = names,
        tr_category = JNull\<rparr>))))))))"

definition fetch_issue_body :: "'s history_env \<Rightarrow> string \<Rightarrow> int \<Rightarrow> bool \<Rightarrow> ('s, thread_root option) io" where
  "fetch_issue_body H repo issue_number is_pr =
     io_try
       (io_bind (hx_get H (repo_url repo (if is_pr then ''pulls'' else ''issues'') issue_number) None) (\<lambda>(status, body).
          if status \<noteq> 200 then io_ret None
          else (case hx_loads H body of
              None \<Rightarrow> io_raise (Exn JSONDecodeError body)
            | Some data \<Rightarrow> io_bind (io_of_result (root_entry data)) (\<lambda>r. io_ret (Some r)))))
       (\<lambda>e. io_ret None)"

section \<open>Discussions\<close>

definition reply_entry :: "json \<Rightarrow> thread_reply result" where
  "reply_entry r =
     res_bind (author_of r) (\<lambda>author. res_bind (jget r ''createdAt'' (JStr [])) (\<lambda>created. res_bind (body_of r) (\<lambda>body. Inr
       \<lparr>th_author = author, th_created = created, th_body = body\<rparr>)))"

definition discussion_entry :: "json \<Rightarrow> thread_comment result" where
  "discussion_entry node =
     res_bind (reply_entry node) (\<lambda>e.
     res_bind (jget2 node ''replies'' ''nodes'' (JArr [])) (\<lambda>replies.
     res_bind (if py_truthy replies then json_iter replies else Inr []) (\<lambda>replies.
     res_bind (res_map reply_entry replies) (\<lambda>rs. Inr (thread_reply.extend e \<lparr>th_context = None, th_replies = rs\<rparr>)))))"

definition label_name :: "json \<Rightarrow> json option result" where
  "label_name lbl = res_bind (jget lbl ''name'' JNull) (\<lambda>n. Inr (if py_truthy n then Some n else None))"

definition discussion_root :: "json \<Rightarrow> thread_root result" where
  "discussion_root disc =
     res_bind (jget2 disc ''labels'' ''nodes'' (JArr [])) (\<lambda>nodes.
     res_bind (json_iter nodes) (\<lambda>nodes.
     res_bind (res_map label_name nodes) (\<lambda>labels.
     res_bind (jget disc ''title'' (JStr [])) (\<lambda>title.
     res_bind (body_of disc) (\<lambda>body.
     res_bind (author_of disc) (\<lambda>author.
     res_bind (jget disc ''createdAt'' (JStr [])) (\<lambda>created.
     res_bind (jget disc ''category'' JNull) (\<lambda>category.
     res_bind (jget (py_or category (JObj [])) ''name'' (JStr [])) (\<lambda>category. Inr
       \<lparr>tr_title = title, tr_body = body, tr_author = author, tr_created = created, tr_state = JStr ''open'',
        tr_labels = List.map_filter id labels, tr_category = category\<rparr>)))))))))"

text \<open>The discussion of a response; nothing when GraphQL reports errors or knows none.\<close>

definition discussion_of :: "json \<Rightarrow> json option result" where
  "discussion_of data =
     res_bind (jget data ''errors'' JNull) (\<lambda>errors.
       if py_truthy errors then Inr None
       else
         res_bind (jget2 data ''data'' ''repository'' (JObj [])) (\<lambda>repository.
         res_bind (jget repository ''discussion'' JNull) (\<lambda>disc. Inr (if py_truthy disc then Some disc else None))))"

definition next_cursor :: "json \<Rightarrow> json option result" where
  "next_cursor comment_page =
     res_bind (jget comment_page ''pageInfo'' (JObj [])) (\<lambda>page_info.
     res_bind (jget page_info ''hasNextPage'' JNull) (\<lambda>more.
       if py_truthy more then res_bind (jget page_info ''endCursor'' JNull) (\<lambda>c. Inr (Some c)) else Inr None))"

text \<open>What a page adds to the root and the comments, and the cursor of the next page, if any.\<close>

definition discussion_page ::
  "thread_root option \<Rightarrow> thread_comment list \<Rightarrow> json \<Rightarrow> thread_root option \<times> thread_comment list \<times> json option" where
  "discussion_page origin comments disc =
     (case (case origin of Some r \<Rightarrow> Inr r | None \<Rightarrow> discussion_root disc) of
        Inl e \<Rightarrow> (origin, comments, None)
      | Inr r \<Rightarrow>
          (case res_bind (jget disc ''comments'' (JObj [])) (\<lambda>cp. res_bind (jget cp ''nodes'' (JArr [])) (\<lambda>ns.
                  res_bind (json_iter ns) (\<lambda>ns. Inr (cp, ns)))) of
             Inl e \<Rightarrow> (Some r, comments, None)
           | Inr (comment_page, nodes) \<Rightarrow>
               (case collect discussion_entry nodes of (new, failed) \<Rightarrow>
                  let comments = comments @ new in
                  if failed then (Some r, comments, None)
                  else (case next_cursor comment_page of
                      Inr (Some c) \<Rightarrow>
                        if length comments \<ge> MAX_TOTAL_COMMENTS then (Some r, take MAX_TOTAL_COMMENTS comments, None)
                        else (Some r, comments, Some c)
                    | _ \<Rightarrow> (Some r, comments, None)))))"

definition discussion_variables :: "string \<Rightarrow> int \<Rightarrow> int \<Rightarrow> json \<Rightarrow> json dict" where
  "discussion_variables repo n max_comments cursor =
     [(''owner'', JStr (takeWhile (\<lambda>c. c \<noteq> CHR ''/'') repo)),
      (''name'', JStr (drop 1 (dropWhile (\<lambda>c. c \<noteq> CHR ''/'') repo))),
      (''number'', JInt n), (''first'', JInt (min max_comments 100)), (''after'', cursor)]"

definition post_discussion :: "'s history_env \<Rightarrow> json dict \<Rightarrow> ('s, json option) io" where
  "post_discussion H variables =
     io_try
       (io_bind (hx_post H variables) (\<lambda>(status, body).
          if status \<noteq> 200 then io_ret None
          else (case hx_loads H body of
              None \<Rightarrow> io_raise (Exn JSONDecodeError body)
            | Some data \<Rightarrow> io_of_result (discussion_of data))))
       (\<lambda>e. io_ret None)"

fun discussion_pages ::
  "'s history_env \<Rightarrow> string \<Rightarrow> int \<Rightarrow> int \<Rightarrow> nat \<Rightarrow> json \<Rightarrow> thread_root option \<Rightarrow> thread_comment list \<Rightarrow>
   ('s, thread_root option \<times> thread_comment list) io" where
  "discussion_pages H repo n max_comments 0 cursor origin comments = io_ret (origin, comments)"
| "discussion_pages H repo n max_comments (Suc pages) cursor origin comments =
     io_bind (post_discussion H (discussion_variables repo n max_comments cursor)) (\<lambda>disc. case disc of
         None \<Rightarrow> io_ret (origin, comments)
       | Some disc \<Rightarrow>
           (case discussion_page origin comments disc of
              (origin, comments, None) \<Rightarrow> io_ret (origin, comments)
            | (origin, comments, Some c) \<Rightarrow> discussion_pages H repo n max_comments pages c origin comments))"

definition fetch_discussion ::
  "'s history_env \<Rightarrow> string \<Rightarrow> int \<Rightarrow> int \<Rightarrow> ('s, thread_root option \<times> thread_comment list) io" where
  "fetch_discussion H repo n max_comments =
     io_bind (discussion_pages H repo n max_comments MAX_COMMENT_PAGES JNull None []) (\<lambda>(origin, comments).
       io_ret (origin, up_to max_comments comments))"

section \<open>The text of a thread\<close>

text \<open>\<open>x.strip()\<close>, and \<open>", ".join(xs)\<close> on values.\<close>

fun json_strip :: "json \<Rightarrow> string result" where
  "json_strip (JStr s) = Inr (str_strip s)"
| "json_strip _ = Inl (Exn AttributeError ''strip'')"

fun str_item :: "json \<Rightarrow> string result" where
  "str_item (JStr s) = Inr s"
| "str_item _ = Inl (Exn TypeError ''sequence item: expected str instance'')"

definition thread_label :: "bool \<Rightarrow> bool \<Rightarrow> string" where
  "thread_label is_pr is_discussion =
     (if is_discussion then ''Discussion'' else if is_pr then ''Pull Request'' else ''Issue'')"

definition labels_text :: "json list \<Rightarrow> string result" where
  "labels_text labels =
     (if labels = [] then Inr []
      else res_bind (res_map str_item labels) (\<lambda>ls. Inr ('' [Labels: '' @ str_join '', '' ls @ '']'')))"

definition root_parts :: "string \<Rightarrow> thread_root \<Rightarrow> string list result" where
  "root_parts label r =
     res_bind (labels_text (tr_labels r)) (\<lambda>labels_str.
     res_bind (json_strip (tr_body r)) (\<lambda>body_text.
       let category_str = (if py_truthy (tr_category r) then '' [Category: '' @ py_str (tr_category r) @ '']'' else []);
           state_str = (if py_truthy (tr_state r) then '' ('' @ py_str (tr_state r) @ '')'' else [])
       in Inr
         [''## Original '' @ label @ '': '' @ py_str (tr_title r) @ state_str @ labels_str @ category_str,
          ''**Author:** '' @ py_str (tr_author r)
            @ (if py_truthy (tr_created r) then '' | **Created:** '' @ py_str (tr_created r) else []),
          if body_text \<noteq> [] then body_text else ''(No description provided)'']))"

text \<open>A numbered entry: its heading, the author, the date, what a review comment is about, and the body.\<close>

definition entry_text :: "string \<Rightarrow> nat \<Rightarrow> 'a thread_reply_scheme \<Rightarrow> string option \<Rightarrow> string result" where
  "entry_text heading i c context =
     res_bind (json_strip (th_body c)) (\<lambda>body. Inr
       (heading @ show_nat i @ nl @ ''**'' @ py_str (th_author c) @ ''**''
         @ (if py_truthy (th_created c) then '' | '' @ py_str (th_created c) else [])
         @ (case context of None \<Rightarrow> [] | Some about \<Rightarrow> '' | `'' @ about @ ''`'')
         @ nl @ (if body \<noteq> [] then body else ''(no content)'')))"

definition reply_texts :: "thread_reply list \<Rightarrow> string list result" where
  "reply_texts rs = res_map (\<lambda>(j, r). entry_text ''#### Reply '' j r None) (zip [1..<Suc (length rs)] rs)"

definition comment_parts :: "thread_comment list \<Rightarrow> string list result" where
  "comment_parts comments =
     res_bind
       (res_map (\<lambda>(i, c). res_bind (entry_text ''### Comment '' i c None) (\<lambda>t.
            res_bind (reply_texts (th_replies c)) (\<lambda>ts. Inr (t # ts))))
          (zip [1..<Suc (length comments)] comments))
       (\<lambda>parts. Inr ((nl @ ''## Comments ('' @ show_nat (length comments) @ '')'') # concat parts))"

definition review_parts :: "thread_comment list \<Rightarrow> string list result" where
  "review_parts comments =
     res_bind
       (res_map (\<lambda>(i, c). entry_text ''### Review Comment '' i c (th_context c)) (zip [1..<Suc (length comments)] comments))
       (\<lambda>parts. Inr ((nl @ ''## Review Comments ('' @ show_nat (length comments) @ '')'') # parts))"

definition truncation_note :: string where
  "truncation_note = nl @ ''---'' @ nl @ ''*Older comments truncated '' @ [CHR 0xE2, CHR 0x80, CHR 0x94]
     @ '' only recent history shown.*'' @ nl @ ''---''"

definition format_thread_history ::
  "thread_root option \<Rightarrow> thread_comment list \<Rightarrow> thread_comment list option \<Rightarrow> bool \<Rightarrow> bool \<Rightarrow> bool \<Rightarrow> string result" where
  "format_thread_history issue_body comments review_comments is_pr is_discussion truncated =
     res_bind (case issue_body of None \<Rightarrow> Inr [] | Some r \<Rightarrow> root_parts (thread_label is_pr is_discussion) r) (\<lambda>opening.
     res_bind (if comments = [] then Inr [] else comment_parts comments) (\<lambda>discussion.
     res_bind (case review_comments of None \<Rightarrow> Inr [] | Some rs \<Rightarrow> if rs = [] then Inr [] else review_parts rs) (\<lambda>reviews.
       let parts = opening @ (if truncated then [truncation_note] else []) @ discussion @ reviews
       in Inr (if parts = [] then []
               else ''<thread_history>'' @ nl @ str_join (nl @ nl) parts @ nl @ ''</thread_history>''))))"

definition fetch_thread ::
  "'s history_env \<Rightarrow> string \<Rightarrow> int \<Rightarrow> string \<Rightarrow> history_config \<Rightarrow>
   ('s, thread_root option \<times> thread_comment list \<times> thread_comment list option) io" where
  "fetch_thread H repo issue_number thread_type config =
     io_then (hx_client H)
       (if thread_type = ''discussion''
        then io_bind (fetch_discussion H repo issue_number (hc_max_comments config)) (\<lambda>(issue_body, comments).
               io_ret (issue_body, comments, None))
        else
          io_bind (if hc_include_issue_body config then fetch_issue_body H repo issue_number (thread_type = ''pr'') else io_ret None)
            (\<lambda>issue_body.
          io_bind (fetch_comments H repo issue_number (hc_max_comments config)) (\<lambda>comments.
          io_bind (if thread_type = ''pr'' \<and> hc_include_pr_reviews config
                   then io_bind (fetch_pr_review_comments H repo issue_number (hc_max_comments config)) (\<lambda>rs. io_ret (Some rs))
                   else io_ret None) (\<lambda>review_comments.
            io_ret (issue_body, comments, review_comments)))))"

definition fetch_and_format_thread_history ::
  "'s history_env \<Rightarrow> string \<Rightarrow> int \<Rightarrow> string \<Rightarrow> history_config option \<Rightarrow> ('s, string) io" where
  "fetch_and_format_thread_history H repo issue_number thread_type config =
     (let config = (case config of None \<Rightarrow> default_history | Some c \<Rightarrow> c) in
      if \<not> hc_enabled config then io_ret []
      else
        io_bind
          (io_try
            (io_bind (fetch_thread H repo issue_number thread_type config) (\<lambda>t. io_ret (Some t)))
            (\<lambda>e. io_ret None))
          (\<lambda>fetched. case fetched of
              None \<Rightarrow> io_ret []
            | Some (issue_body, comments, review_comments) \<Rightarrow>
                io_of_result (format_thread_history issue_body comments review_comments (thread_type = ''pr'')
                  (thread_type = ''discussion'') (int (length comments) \<ge> hc_max_comments config))))"

section \<open>What is fetched\<close>

text \<open>An API with all the comments of the thread, a hundred to a page.\<close>

definition serves_comments :: "'s history_env \<Rightarrow> string \<Rightarrow> json list \<Rightarrow> (nat \<Rightarrow> string) \<Rightarrow> bool" where
  "serves_comments H url all body \<longleftrightarrow>
     (\<forall>p s. hx_get H url (Some (p + 1)) s = (Inr (200, body p), s) \<and>
            hx_loads H (body p) = Some (JArr (take 100 (drop (p * 100) all))))"

text \<open>The entries of the comments before the first that cannot be read.\<close>

definition readable :: "(json \<Rightarrow> 'c result) \<Rightarrow> json list \<Rightarrow> 'c list" where
  "readable entry cs = map (projr \<circ> entry) (takeWhile (\<lambda>c. \<not> isl (entry c)) cs)"

lemma collect_readable: "collect entry cs = (readable entry cs, \<exists>c \<in> set cs. isl (entry c))"
  by (induction cs) (auto simp: readable_def split: sum.splits)

lemma readable_length: "\<forall>c \<in> set cs. \<not> isl (entry c) \<Longrightarrow> length (readable entry cs) = length cs"
  by (induction cs) (auto simp: readable_def)

lemma readable_append:
  "readable entry (xs @ ys) = readable entry xs @ (if \<exists>c \<in> set xs. isl (entry c) then [] else readable entry ys)"
  by (induction xs) (auto simp: readable_def)

lemma fetch_page_run:
  assumes "serves_comments H url all body"
  shows "fetch_page H entry url p s =
    (let cs = take 100 (drop (p * 100) all) in
     (Inr (readable entry cs, \<exists>c \<in> set cs. isl (entry c), length cs \<ge> 100), s))"
  using assms
  by (simp add: fetch_page_def serves_comments_def io_try_run io_bind_run io_ret_run io_of_result_run collect_readable
      readable_def Let_def)

lemma page_of_all:
  fixes p :: nat
  shows "take (p * 100) all @ take 100 (drop (p * 100) all) = take (Suc p * 100) all"
  using take_add [of "p * 100" 100 all] by (simp add: add.commute)

lemma readable_prefix:
  assumes "\<exists>c \<in> set (take k all). isl (entry c)" "k \<le> n"
  shows "readable entry (take n all) = readable entry (take k all)"
proof -
  have "take n all = take k all @ take (n - k) (drop k all)" using take_add [of k "n - k" all] assms(2) by simp
  with assms(1) show ?thesis by (simp add: readable_append)
qed

lemma readable_upto:
  assumes "\<not> (\<exists>c \<in> set (take k all). isl (entry c))"
  shows "readable entry (take k all) @ readable entry (take n (drop k all)) = readable entry (take (k + n) all)"
  using assms by (simp add: take_add readable_append)

lemma fetch_pages_run:
  assumes "serves_comments H url all body" "p \<le> 5" "p * 100 \<le> length all"
    and "\<not> (\<exists>c \<in> set (take (p * 100) all). isl (entry c))"
  shows "fetch_pages H entry url [p..<5] (readable entry (take (p * 100) all)) s = (Inr (readable entry (take 500 all)), s)"
  using assms(2-)
proof (induction "5 - p" arbitrary: p)
  case 0
  then show ?case by (simp add: io_ret_run)
next
  case (Suc k)
  then have p: "p < 5" "[p..<5] = p # [Suc p..<5]" by (simp_all add: upt_rec)
  let ?cs = "take 100 (drop (p * 100) all)"
  let ?now = "readable entry (take (Suc p * 100) all)"
  let ?bad = "\<exists>c \<in> set (take (Suc p * 100) all). isl (entry c)"
  have now: "readable entry (take (p * 100) all) @ readable entry ?cs = ?now"
    using readable_upto [OF Suc.prems(3), of 100] by (simp add: add.commute)
  have bad: "(\<exists>c \<in> set ?cs. isl (entry c)) = ?bad"
    using Suc.prems(3) unfolding page_of_all [symmetric] set_append by blast
  have step: "fetch_pages H entry url [p..<5] (readable entry (take (p * 100) all)) s =
      (if ?bad then (Inr ?now, s)
       else if length ?now \<ge> 500 then (Inr (take 500 ?now), s)
       else if \<not> length ?cs \<ge> 100 then (Inr ?now, s)
       else fetch_pages H entry url [Suc p..<5] ?now s)"
    unfolding p(2) fetch_pages.simps io_bind_run fetch_page_run [OF assms(1)] Let_def prod.case sum.case now bad
    by (simp add: io_ret_run MAX_TOTAL_COMMENTS_def del: mult_Suc)
  show ?case
  proof (cases ?bad)
    case True
    then show ?thesis using step readable_prefix [OF True, of 500] p(1) by (simp del: mult_Suc)
  next
    case ok: False
    then have len: "length ?now = min (length all) (Suc p * 100)" by (simp add: readable_length del: mult_Suc)
    show ?thesis
    proof (cases "length ?cs \<ge> 100")
      case False
      then have "length all < Suc p * 100" by simp
      moreover from this p(1) have "length all < 500" by simp
      ultimately show ?thesis using step ok False len by (simp del: mult_Suc)
    next
      case True
      then have full: "Suc p * 100 \<le> length all" using p(1) Suc.prems(2) by simp
      show ?thesis
      proof (cases "p = 4")
        case True
        then show ?thesis using step ok full len by simp
      next
        case False
        then have "length ?now < 500" "Suc p \<le> 5" using len p(1) by simp_all
        then show ?thesis using step ok full True Suc(1) [of "Suc p"] Suc(2) by (simp del: mult_Suc)
      qed
    qed
  qed
qed


definition sample_comment :: "string \<Rightarrow> json" where
  "sample_comment who = JObj [(''user'', JObj [(''login'', JStr who)]), (''body'', JStr ''hi'')]"

definition sample_history :: "unit history_env" where
  "sample_history = \<lparr>hx_client = io_ret (),
     hx_get = \<lambda>u p. io_ret (200, if p = Some 1 then ''one'' else ''none''), hx_post = \<lambda>v. io_ret (404, []),
     hx_loads = \<lambda>t. Some (JArr (if t = ''one'' then [sample_comment ''ann'', JObj [(''user'', JNull)], sample_comment ''bob''] else []))\<rparr>"


text \<open>A comment of a deleted account, whose user is null, ends the history.\<close>

lemma ghost_comment_unreadable:
  assumes "dict_get d ''user'' = Some JNull"
  shows "isl (comment_entry (JObj d))"
  using assms by (simp add: comment_entry_def login_of_def jget2_def)

text \<open>
  The comments kept are the oldest. The note that older ones are missing is added when exactly the
  number asked for was found, even when nothing is missing.
\<close>

lemma truncation_keeps_oldest: "0 \<le> m \<Longrightarrow> prefix (up_to m xs) xs"
  by (simp add: up_to_def take_is_prefix)

lemma nothing_missing_noted:
  assumes "hc_enabled config" "hc_max_comments config = int (length comments)"
    and "fetch_thread H repo n thread_type config s = (Inr (origin, comments, reviews), s')"
  shows "fetch_and_format_thread_history H repo n thread_type (Some config) s =
    (format_thread_history origin comments reviews (thread_type = ''pr'') (thread_type = ''discussion'') True, s')"
  using assms
  by (simp add: fetch_and_format_thread_history_def io_bind_run io_try_run io_ret_run io_of_result_run)

text \<open>Fetching never fails; only the formatting of what was fetched can raise.\<close>

lemma failed_fetch_is_empty:
  assumes "fetch_thread H repo n thread_type (case config of None \<Rightarrow> default_history | Some c \<Rightarrow> c) s = (Inl e, s')"
  shows "fst (fetch_and_format_thread_history H repo n thread_type config s) = Inr []"
  using assms by (auto simp: fetch_and_format_thread_history_def Let_def io_bind_run io_try_run io_ret_run)

lemma nameless_label_raises:
  assumes "JNull \<in> set (tr_labels r)"
  shows "isl (format_thread_history (Some r) comments reviews is_pr is_discussion truncated)"
proof -
  have "isl (res_map str_item ls)" if "JNull \<in> set ls" for ls
    using that by (induction ls) (auto simp: res_bind_def split: sum.splits)
  with assms obtain e where "res_map str_item (tr_labels r) = Inl e" by (metis isl_def)
  with assms show ?thesis by (auto simp: format_thread_history_def root_parts_def labels_text_def)
qed

end
