(* ===== verification/Indexing_Worker.thy ===== *)
theory Indexing_Worker
  imports Redis_Log Symbol_Index Sync_Worker
begin

text \<open>
  \<^verbatim>\<open>services/indexing_worker/indexing_worker.py\<close>: chunks a repository, embeds the chunks
  with a cache, and stores them beside the code graph; it starts from the sync worker's events and
  answers the jobs that wait for the index. The embedding service, git, the file system, the database,
  the syntax-tree extraction and the route maps are parameters. An embedding is a JSON value, null or
  empty when the service has none.
\<close>

section \<open>Chunks\<close>

record chunk =
  ck_filepath :: string
  ck_name :: string
  ck_kind :: string
  ck_language :: string
  ck_start_line :: int
  ck_end_line :: int
  ck_content :: string
  ck_parent :: "string option"

definition chunk_embed_text :: "chunk \<Rightarrow> string" where
  "chunk_embed_text c =
     ''# '' @ ck_filepath c @ '' | '' @ ck_kind c @ '': ''
       @ (if opt_default [] (ck_parent c) \<noteq> [] then opt_default [] (ck_parent c) @ ''.'' else [])
       @ ck_name c @ nl @ ck_content c"

record 's indexer =
  ix_redis :: "'s env"
  ix_api_key :: string
  ix_model :: string
  ix_batch_size :: int
  ix_sha256 :: "string \<Rightarrow> string"
  ix_embed :: "string list \<Rightarrow> ('s, json list) io"
  ix_sleep :: "nat \<Rightarrow> ('s, unit) io"
  ix_ensure :: "('s, unit) io"
  ix_surreal :: "'s surreal"
  ix_initialized :: bool
  ix_delete_file :: "string \<Rightarrow> string \<Rightarrow> ('s, unit) io"
  ix_merge :: "string \<Rightarrow> json dict \<Rightarrow> ('s, unit) io"
  ix_schema :: "('s, unit) io"
  ix_head :: "string \<Rightarrow> ('s, string) io"
  ix_tags :: "string \<Rightarrow> string list option \<Rightarrow> ('s, tag list) io"
  ix_relationships :: "string \<Rightarrow> string list option \<Rightarrow> ('s, relationship list) io"
  ix_routes :: "string \<Rightarrow> ('s, json list) io"
  ix_upsert_routes :: "json list \<Rightarrow> string \<Rightarrow> ('s, unit) io"
  ix_tools :: "string \<Rightarrow> ('s, json list) io"
  ix_upsert_tools :: "json list \<Rightarrow> string \<Rightarrow> ('s, unit) io"
  ix_ignore_spec :: "string \<Rightarrow> ('s, string list) io"
  ix_source_files :: "string \<Rightarrow> string list \<Rightarrow> ('s, string list) io"
  ix_chunk_file :: "string \<Rightarrow> string \<Rightarrow> ('s, chunk list) io"
  ix_is_file :: "string \<Rightarrow> ('s, bool) io"
  ix_is_dir :: "string \<Rightarrow> ('s, bool) io"
  ix_mkdtemp :: "string \<Rightarrow> ('s, string) io"
  ix_rmtree :: "string \<Rightarrow> ('s, unit) io"
  ix_git :: "string option \<Rightarrow> string list \<Rightarrow> ('s, int \<times> string \<times> string) io"

text \<open>The list of what \<open>f\<close> gives on each element, one after the other.\<close>

fun io_map :: "('a \<Rightarrow> ('s, 'b) io) \<Rightarrow> 'a list \<Rightarrow> ('s, 'b list) io" where
  "io_map f [] = io_ret []"
| "io_map f (x # xs) = io_bind (f x) (\<lambda>y. io_bind (io_map f xs) (\<lambda>ys. io_ret (y # ys)))"

definition chunk_repo :: "'s indexer \<Rightarrow> string \<Rightarrow> string list option \<Rightarrow> ('s, chunk list) io" where
  "chunk_repo I worktree changed_files =
     io_bind (ix_ignore_spec I worktree) (\<lambda>ignore_spec.
       case changed_files of
         Some [] \<Rightarrow> io_ret []
       | Some files \<Rightarrow>
           io_bind (io_map (\<lambda>rel. io_bind (ix_is_file I (worktree @ ''/'' @ rel)) (\<lambda>is_file.
               if is_file then ix_chunk_file I (worktree @ ''/'' @ rel) worktree else io_ret [])) files)
             (\<lambda>cs. io_ret (concat cs))
       | None \<Rightarrow>
           io_bind (ix_source_files I worktree ignore_spec) (\<lambda>files.
           io_bind (io_map (\<lambda>path. ix_chunk_file I path worktree) files) (\<lambda>cs. io_ret (concat cs))))"

section \<open>The embedding cache\<close>

definition cache_key :: "'s indexer \<Rightarrow> string" where "cache_key I = ''agent:indexing:cache:'' @ ix_model I"

text \<open>A result that is null counts as missing, but only a missing entry is asked for again.\<close>

fun read_cached :: "(string \<Rightarrow> json option) \<Rightarrow> nat \<Rightarrow> string option list \<Rightarrow> (json list \<times> nat list) result" where
  "read_cached loads i [] = Inr ([], [])"
| "read_cached loads i (raw # raws) =
     res_bind (case raw of None \<Rightarrow> Inr JNull
         | Some r \<Rightarrow> (case loads r of None \<Rightarrow> Inl (Exn JSONDecodeError r) | Some j \<Rightarrow> Inr j)) (\<lambda>v.
     res_bind (read_cached loads (Suc i) raws) (\<lambda>(vs, misses). Inr
       (v # vs, if raw = None then i # misses else misses)))"

definition get_cached_embeddings :: "'s indexer \<Rightarrow> 's env \<Rightarrow> string list \<Rightarrow> ('s, json list \<times> nat list) io" where
  "get_cached_embeddings I E contents =
     io_try
       (io_bind (io_map (\<lambda>c. x_hget E (cache_key I) (ix_sha256 I c)) contents) (\<lambda>cached.
          io_of_result (read_cached (x_loads E) 0 cached)))
       (\<lambda>e. io_ret (replicate (length contents) JNull, [0..<length contents]))"

definition cache_embeddings :: "'s indexer \<Rightarrow> 's env \<Rightarrow> string list \<Rightarrow> json list \<Rightarrow> ('s, unit) io" where
  "cache_embeddings I E contents embeddings =
     io_try
       (hset_all E (cache_key I)
         (fold (\<lambda>(c, e) m. dict_set (ix_sha256 I c) (x_dumps E e) m) (zip contents embeddings) []))
       (\<lambda>e. io_ret ())"

section \<open>Embedding\<close>

definition max_retries :: nat where "max_retries = 5"

definition rate_limited :: "exn \<Rightarrow> bool" where
  "rate_limited e \<longleftrightarrow> str_contains ''429'' (exc_msg e) \<or> str_contains ''RESOURCE_EXHAUSTED'' (exc_msg e)"

fun embed_batch :: "'s indexer \<Rightarrow> string list \<Rightarrow> nat list \<Rightarrow> ('s, json list) io" where
  "embed_batch I batch [] = io_ret []"
| "embed_batch I batch (attempt # attempts) =
     io_try (ix_embed I batch)
       (\<lambda>e. if rate_limited e \<and> attempt < max_retries - 1
            then io_then (ix_sleep I (2 ^ (attempt + 1))) (embed_batch I batch attempts)
            else io_raise e)"

text \<open>\<open>range(0, n, step)\<close>\<close>

definition batch_offsets :: "nat \<Rightarrow> int \<Rightarrow> nat list result" where
  "batch_offsets n step =
     (if step = 0 then Inl (Exn ValueError ''range() arg 3 must not be zero'')
      else Inr (if step < 0 then [] else map (\<lambda>k. k * nat step) [0..<(n + nat step - 1) div nat step]))"

definition with_values :: "nat \<Rightarrow> json list \<Rightarrow> (nat \<times> json) list" where
  "with_values i vs = filter (\<lambda>(j, v). py_truthy v) (zip [i..<i + length vs] vs)"

definition embed_texts :: "'s indexer \<Rightarrow> string list \<Rightarrow> ('s, json list \<times> nat list) io" where
  "embed_texts I texts =
     io_bind (io_of_result (batch_offsets (length texts) (ix_batch_size I))) (\<lambda>offsets.
     io_bind (io_map (\<lambda>i.
         io_bind (embed_batch I (take (nat (ix_batch_size I)) (drop i texts)) [0..<max_retries]) (\<lambda>vs. io_ret (with_values i vs)))
       offsets) (\<lambda>batches. io_ret (map snd (concat batches), map fst (concat batches))))"

text \<open>The embedding of the \<open>i\<close>-th text: from the cache, or new, or none.\<close>

definition merged_embedding :: "json list \<Rightarrow> nat list \<Rightarrow> (nat \<times> json) list \<Rightarrow> nat \<Rightarrow> json list result" where
  "merged_embedding cached_results miss_indices local_to_embed i =
     (if cached_results ! i \<noteq> JNull then Inr [cached_results ! i]
      else (case map_of (zip miss_indices [0..<length miss_indices]) i of
          None \<Rightarrow> Inl (Exn KeyError (show_nat i))
        | Some pos \<Rightarrow> Inr (case map_of (rev local_to_embed) pos of None \<Rightarrow> [] | Some e \<Rightarrow> [e])))"

definition list_item :: "'a list \<Rightarrow> nat \<Rightarrow> 'a result" where
  "list_item xs i = (if i < length xs then Inr (xs ! i) else Inl (Exn IndexError ''list index out of range''))"

definition batch_embed :: "'s indexer \<Rightarrow> 's env option \<Rightarrow> string list \<Rightarrow> ('s, json list) io" where
  "batch_embed I redis_client texts =
     (if texts = [] then io_ret []
      else
        io_bind (case redis_client of
            Some E \<Rightarrow> get_cached_embeddings I E texts
          | None \<Rightarrow> io_ret (replicate (length texts) JNull, [0..<length texts])) (\<lambda>(cached_results, miss_indices).
          if miss_indices = [] then io_ret cached_results
          else
            let miss_texts = map (\<lambda>i. texts ! i) miss_indices in
            io_bind (embed_texts I miss_texts) (\<lambda>(new_embeddings, valid_local_indices).
            io_then
              (case redis_client of
                 Some E \<Rightarrow>
                   if new_embeddings = [] then io_ret ()
                   else io_bind (io_of_result (res_map (list_item miss_texts) valid_local_indices)) (\<lambda>valid_texts.
                     cache_embeddings I E valid_texts new_embeddings)
               | None \<Rightarrow> io_ret ())
              (io_of_result
                (res_bind (res_map (merged_embedding cached_results miss_indices (zip valid_local_indices new_embeddings))
                    [0..<length texts])
                  (\<lambda>es. Inr (concat es)))))))"

section \<open>Storing the chunks\<close>

definition chunk_symbol_id :: "'s indexer \<Rightarrow> chunk \<Rightarrow> string \<Rightarrow> string" where
  "chunk_symbol_id I c repo =
     take 40 (ix_sha256 I (repo @ '':'' @ ck_filepath c @ '':'' @ ck_kind c @ '':'' @ ck_name c @ '':'' @ show_int (ck_start_line c)))"

definition chunk_record :: "string \<Rightarrow> chunk \<Rightarrow> json \<Rightarrow> json dict" where
  "chunk_record repo c embedding =
     [(''name'', JStr (ck_name c)), (''kind'', JStr ''definition''), (''category'', JStr (ck_kind c)),
      (''filepath'', JStr (ck_filepath c)), (''line'', JInt (ck_start_line c)), (''end_line'', JInt (ck_end_line c)),
      (''language'', JStr (ck_language c)), (''repo'', JStr repo), (''embedding'', embedding),
      (''content'', JStr (take 2000 (ck_content c)))]"

definition upsert_chunk :: "'s indexer \<Rightarrow> string \<Rightarrow> nat \<Rightarrow> chunk \<times> json \<Rightarrow> ('s, nat) io" where
  "upsert_chunk I repo count ce =
     io_try
       (io_then (ix_merge I (chunk_symbol_id I (fst ce) repo) (chunk_record repo (fst ce) (snd ce))) (io_ret (Suc count)))
       (\<lambda>e. io_ret count)"

definition upsert_chunks :: "'s indexer \<Rightarrow> string \<Rightarrow> chunk list \<Rightarrow> json list \<Rightarrow> string list \<Rightarrow> ('s, nat) io" where
  "upsert_chunks I repo chunks embeddings removed_files =
     io_then (io_fold (\<lambda>u f. io_try (ix_delete_file I repo f) (\<lambda>e. io_ret ())) () removed_files)
       (io_fold (upsert_chunk I repo) 0 (zip chunks embeddings))"

section \<open>Git\<close>

definition removed_path :: "string \<Rightarrow> string option result" where
  "removed_path line =
     (case str_split CHR 0x09 line of
        status # rest \<Rightarrow>
          if status = [] then Inl (Exn IndexError ''string index out of range'')
          else if hd status \<in> {CHR ''D'', CHR ''R''} then
            (case rest of [] \<Rightarrow> Inl (Exn IndexError ''list index out of range'') | path # more_fields \<Rightarrow> Inr (Some (str_strip path)))
          else Inr None
      | [] \<Rightarrow> Inr None)"

text \<open>A command that fails, or whose output cannot be read, gives no files.\<close>

definition git_diff_files :: "'s indexer \<Rightarrow> string \<Rightarrow> string \<Rightarrow> string \<Rightarrow> bool \<Rightarrow> ('s, string list) io" where
  "git_diff_files I worktree old_commit new_commit deleted_only =
     io_try
       (if deleted_only then
          io_bind (ix_git I (Some worktree) [''diff'', ''--name-status'', ''--diff-filter=DR'', old_commit, new_commit])
            (\<lambda>(code, out, err).
               if code = 0 \<and> out \<noteq> [] then
                 io_bind (io_of_result (res_map removed_path (str_splitlines out))) (\<lambda>ps.
                   io_ret (filter (\<lambda>f. f \<noteq> []) (List.map_filter id ps)))
               else io_ret [])
        else
          io_bind (ix_git I (Some worktree) [''diff'', ''--name-only'', ''--diff-filter=ACMR'', old_commit, new_commit])
            (\<lambda>(code, out, err).
               if code = 0 \<and> out \<noteq> [] then io_ret (filter (\<lambda>f. f \<noteq> []) (map str_strip (str_splitlines out))) else io_ret []))
       (\<lambda>e. io_ret [])"

definition get_commit_hash :: "'s indexer \<Rightarrow> string \<Rightarrow> ('s, string) io" where
  "get_commit_hash I worktree =
     io_bind
       (io_try (io_bind (ix_git I (Some worktree) [''rev-parse'', ''HEAD'']) (\<lambda>(code, out, err). io_ret (Inr (code, out))))
          (\<lambda>e. io_ret (Inl e)))
       (\<lambda>r. case r of
            Inl e \<Rightarrow> io_raise (Exn RuntimeError (''Failed to get commit hash from '' @ worktree @ '': '' @ exc_msg e))
          | Inr (code, out) \<Rightarrow>
              if code = 0 then io_ret (str_strip out)
              else io_raise (Exn RuntimeError (''git rev-parse HEAD failed in '' @ worktree @ '' (exit code '' @ show_int code @ '')'')))"

definition bare_ref :: "string \<Rightarrow> string" where
  "bare_ref ref =
     (if str_startswith ref ''refs/pull/'' \<or> str_startswith ref ''refs/tags/'' then ref
      else ''refs/remotes/origin/'' @ (if str_startswith ref ''refs/heads/'' then str_replace ''refs/heads/'' [] ref else ref))"

definition index_worktree_add :: "'s indexer \<Rightarrow> string \<Rightarrow> string \<Rightarrow> string \<Rightarrow> ('s, int \<times> string \<times> string) io" where
  "index_worktree_add I repo worktree ref =
     ix_git I None [''--git-dir='' @ bare_repo_dir repo, ''worktree'', ''add'', ''--detach'', worktree, ref]"

text \<open>A string method on anything but a string raises.\<close>

definition string_of :: "string \<Rightarrow> json \<Rightarrow> string result" where
  "string_of attr j = (case j of JStr s \<Rightarrow> Inr s | _ \<Rightarrow> Inl (Exn AttributeError attr))"

definition index_create_worktree :: "'s indexer \<Rightarrow> json \<Rightarrow> json \<Rightarrow> ('s, string option) io" where
  "index_create_worktree I repo ref =
     io_bind (ix_is_dir I (bare_repo_dir (py_str repo))) (\<lambda>found.
       if \<not> found then io_ret None
       else
         io_bind (io_of_result (string_of ''replace'' repo)) (\<lambda>repo.
         io_bind (ix_mkdtemp I (''idx_'' @ str_replace_char CHR ''/'' ''_'' repo @ ''_'')) (\<lambda>worktree.
         io_bind (io_of_result (string_of ''startswith'' ref)) (\<lambda>ref.
           io_try
             (io_bind (index_worktree_add I repo worktree (bare_ref ref)) (\<lambda>(code, out, err).
                if code = 0 then io_ret (Some worktree)
                else
                  io_bind (index_worktree_add I repo worktree ''refs/remotes/origin/main'') (\<lambda>(code, out, err).
                    if code = 0 then io_ret (Some worktree)
                    else io_then (ix_rmtree I worktree) (io_ret None))))
             (\<lambda>e. io_then (ix_rmtree I worktree) (io_ret None))))))"

definition cleanup_worktree :: "'s indexer \<Rightarrow> string \<Rightarrow> string \<Rightarrow> ('s, unit) io" where
  "cleanup_worktree I repo worktree =
     io_then
       (io_try (io_then (ix_git I None [''--git-dir='' @ bare_repo_dir repo, ''worktree'', ''remove'', ''--force'', worktree]) (io_ret ()))
          (\<lambda>e. io_ret ()))
       (ix_rmtree I worktree)"

section \<open>Metadata and events\<close>

definition META_KEY :: "string \<Rightarrow> string" where "META_KEY repo = ''agent:indexing:meta:'' @ repo"

definition migrate_meta_key :: "'s env \<Rightarrow> string \<Rightarrow> ('s, unit) io" where
  "migrate_meta_key E key = io_try (io_then (x_del E key) (io_ret ())) (\<lambda>e. io_ret ())"

definition wrong_type :: "exn \<Rightarrow> bool" where "wrong_type e \<longleftrightarrow> str_contains ''WRONGTYPE'' (exc_msg e)"

definition indexed_commit :: "(string \<Rightarrow> json option) \<Rightarrow> string \<Rightarrow> string option result" where
  "indexed_commit loads raw =
     (case loads raw of
        None \<Rightarrow> Inl (Exn JSONDecodeError ''Expecting value'')
      | Some meta \<Rightarrow> res_bind (jget meta ''indexed_commit'' (JStr [])) (\<lambda>c. Inr (if py_str c = [] then None else Some (py_str c))))"

definition get_previous_commit :: "'s env option \<Rightarrow> string \<Rightarrow> string \<Rightarrow> ('s, string option) io" where
  "get_previous_commit redis_client repo ref =
     (case redis_client of
        None \<Rightarrow> io_ret None
      | Some E \<Rightarrow>
          io_try
            (io_bind (x_hget E (META_KEY repo) ref) (\<lambda>raw.
               if opt_default [] raw = [] then io_ret None
               else io_of_result (indexed_commit (x_loads E) (opt_default [] raw))))
            (\<lambda>e. if wrong_type e then io_then (migrate_meta_key E (META_KEY repo)) (io_ret None) else io_ret None))"

definition index_meta :: "string \<Rightarrow> nat \<Rightarrow> json" where
  "index_meta commit_hash chunk_count = JObj [(''indexed_commit'', JStr commit_hash), (''chunk_count'', JInt (int chunk_count))]"

definition update_indexing_metadata :: "'s env option \<Rightarrow> string \<Rightarrow> string \<Rightarrow> nat \<Rightarrow> string \<Rightarrow> ('s, unit) io" where
  "update_indexing_metadata redis_client repo commit_hash chunk_count ref =
     (case redis_client of
        None \<Rightarrow> io_ret ()
      | Some E \<Rightarrow>
          let meta = x_dumps E (index_meta commit_hash chunk_count) in
          io_try (x_hset E (META_KEY repo) ref meta)
            (\<lambda>e. if wrong_type e then io_then (migrate_meta_key E (META_KEY repo)) (x_hset E (META_KEY repo) ref meta)
                 else io_ret ()))"

definition index_event :: "json \<Rightarrow> json \<Rightarrow> string \<Rightarrow> string \<Rightarrow> json" where
  "index_event repo ref status error = JObj
     ([(''status'', JStr status), (''repo'', repo), (''ref'', ref)] @ (if error \<noteq> [] then [(''error'', JStr error)] else []))"

definition publish_indexing_event :: "'s env option \<Rightarrow> json \<Rightarrow> json \<Rightarrow> string \<Rightarrow> string \<Rightarrow> ('s, unit) io" where
  "publish_indexing_event redis_client repo ref status error =
     (case redis_client of
        None \<Rightarrow> io_ret ()
      | Some E \<Rightarrow> io_try (x_publish E ''agent:indexing:events'' (x_dumps E (index_event repo ref status error))) (\<lambda>e. io_ret ()))"

section \<open>One job\<close>

definition build_code_graph :: "'s indexer \<Rightarrow> string \<Rightarrow> string \<Rightarrow> string list option \<Rightarrow> ('s, unit) io" where
  "build_code_graph I worktree repo changed_files =
     (let idx = \<lparr>sx_repo = repo, sx_built = False, sx_edge_cache = None, sx_scope_cache = None, sx_def_cache = None\<rparr> in
      io_bind (ix_head I worktree) (\<lambda>commit_hash.
        if opt_default [] changed_files \<noteq> []
        then io_then (build_incremental (ix_surreal I) (ix_sha256 I) (ix_initialized I) (ix_schema I) commit_hash
               (ix_tags I worktree changed_files) (ix_relationships I worktree changed_files) idx (opt_default [] changed_files)) (io_ret ())
        else io_then (build (ix_surreal I) (ix_sha256 I) (ix_initialized I) commit_hash
               (ix_tags I worktree None) (ix_relationships I worktree None) idx None None False) (io_ret ())))"

definition build_route_maps :: "'s indexer \<Rightarrow> string \<Rightarrow> string \<Rightarrow> ('s, unit) io" where
  "build_route_maps I worktree repo =
     io_bind (ix_routes I worktree) (\<lambda>routes.
     io_then (if routes \<noteq> [] then ix_upsert_routes I routes repo else io_ret ())
     (io_bind (ix_tools I worktree) (\<lambda>tools.
       if tools \<noteq> [] then ix_upsert_tools I tools repo else io_ret ())))"

definition index_chunks ::
  "'s indexer \<Rightarrow> 's env option \<Rightarrow> string \<Rightarrow> string \<Rightarrow> string \<Rightarrow> string \<Rightarrow> string list option \<Rightarrow> string list \<Rightarrow> ('s, unit) io" where
  "index_chunks I redis_client repo ref worktree commit_hash changed_files removed_files =
     io_then (io_try (build_code_graph I worktree repo changed_files) (\<lambda>e. io_ret ()))
     (io_then (io_try (build_route_maps I worktree repo) (\<lambda>e. io_ret ()))
     (io_bind (chunk_repo I worktree changed_files) (\<lambda>chunks.
        if chunks = [] then io_ret ()
        else
          io_bind (batch_embed I redis_client (map chunk_embed_text chunks)) (\<lambda>embeddings.
          io_bind (upsert_chunks I repo chunks embeddings removed_files) (\<lambda>count.
          io_then (update_indexing_metadata redis_client repo commit_hash count ref)
            (publish_indexing_event redis_client (JStr repo) (JStr ref) ''complete'' []))))))"

definition index_worktree :: "'s indexer \<Rightarrow> 's env option \<Rightarrow> string \<Rightarrow> string \<Rightarrow> string \<Rightarrow> ('s, unit) io" where
  "index_worktree I redis_client repo ref worktree =
     io_bind
       (io_try (io_bind (get_commit_hash I worktree) (\<lambda>h. io_ret (Some h)))
          (\<lambda>e. if exc_isinstance e RuntimeError then io_ret None else io_raise e))
       (\<lambda>commit. case commit of
          None \<Rightarrow> io_ret ()
        | Some commit_hash \<Rightarrow>
            io_bind (get_previous_commit redis_client repo ref) (\<lambda>previous.
              if opt_default [] previous \<noteq> [] \<and> previous \<noteq> Some commit_hash then
                io_bind (git_diff_files I worktree (opt_default [] previous) commit_hash False) (\<lambda>changed_files.
                io_bind (git_diff_files I worktree (opt_default [] previous) commit_hash True) (\<lambda>removed_files.
                  if changed_files = [] \<and> removed_files = [] then
                    io_then (update_indexing_metadata redis_client repo commit_hash 0 ref)
                      (publish_indexing_event redis_client (JStr repo) (JStr ref) ''complete'' [])
                  else index_chunks I redis_client repo ref worktree commit_hash (Some changed_files) removed_files))
              else index_chunks I redis_client repo ref worktree commit_hash None []))"

definition index_repository :: "'s indexer \<Rightarrow> 's env option \<Rightarrow> json \<Rightarrow> json \<Rightarrow> ('s, unit) io" where
  "index_repository I redis_client repo ref =
     io_bind
       (io_try (index_create_worktree I repo ref)
          (\<lambda>e. io_then (publish_indexing_event redis_client repo ref ''error'' (exc_msg e)) (io_ret None)))
       (\<lambda>worktree. case worktree of
          None \<Rightarrow> io_ret ()
        | Some w \<Rightarrow>
            io_finally
              (io_try (index_worktree I redis_client (py_str repo) (py_str ref) w)
                 (\<lambda>e. publish_indexing_event redis_client repo ref ''error'' (exc_msg e)))
              (cleanup_worktree I (py_str repo) w))"

definition process_indexing_job :: "'s indexer \<Rightarrow> 's env option \<Rightarrow> json dict \<Rightarrow> ('s, unit) io" where
  "process_indexing_job I redis_client message =
     (let repo = opt_default JNull (dict_get message ''repo''); ref = opt_default (JStr ''main'') (dict_get message ''ref'') in
      if \<not> py_truthy repo \<or> ix_api_key I = [] then io_ret ()
      else io_then (ix_ensure I) (index_repository I redis_client repo ref))"

section \<open>The worker\<close>

definition QUEUE_KEY :: string where "QUEUE_KEY = ''agent:indexing:requests''"
definition DLQ_KEY :: string where "DLQ_KEY = ''agent:indexing:dead_letter''"
definition MAX_JOB_RETRIES :: int where "MAX_JOB_RETRIES = 3"

text \<open>One round of the main loop.\<close>

definition indexing_round :: "'s indexer \<Rightarrow> json \<Rightarrow> ('s, unit) io" where
  "indexing_round I now =
     (let E = ix_redis I in
      io_try
       (io_bind (x_blpop E QUEUE_KEY 5) (\<lambda>result. case result of
           None \<Rightarrow> io_ret ()
         | Some raw_message \<Rightarrow>
             (case x_loads E raw_message of
                None \<Rightarrow> io_raise (Exn JSONDecodeError raw_message)
              | Some (JObj message) \<Rightarrow>
                  io_try (process_indexing_job I (Some E) message)
                    (\<lambda>e. if is_transient_error e
                         then enqueue_for_retry E QUEUE_KEY DLQ_KEY message e MAX_JOB_RETRIES now
                         else enqueue_for_retry E QUEUE_KEY DLQ_KEY message e 0 now)
              | Some other \<Rightarrow> io_raise (Exn AttributeError ''get''))))
       (\<lambda>e. if exc_isinstance e JSONDecodeError then io_ret () else ix_sleep I 5))"

text \<open>What the listener for the sync worker's events does with one message.\<close>

definition sync_event_job :: "(string \<Rightarrow> json option) \<Rightarrow> string \<Rightarrow> json option result" where
  "sync_event_job loads payload =
     (case loads payload of
        None \<Rightarrow> Inl (Exn JSONDecodeError payload)
      | Some data \<Rightarrow>
          res_bind (jget data ''status'' JNull) (\<lambda>status.
            if status \<noteq> JStr ''complete'' then Inr None
            else
              res_bind (jget data ''repo'' JNull) (\<lambda>repo.
              res_bind (jget data ''ref'' (JStr ''main'')) (\<lambda>ref. Inr
                (if py_truthy repo
                 then Some (JObj [(''repo'', repo), (''ref'', ref), (''trigger'', JStr ''repo_sync'')]) else None)))))"

definition handle_sync_event :: "'s indexer \<Rightarrow> channel_message \<Rightarrow> ('s, unit) io" where
  "handle_sync_event I m =
     io_try
       (if cm_type m = ''message'' then
          io_bind (io_of_result (sync_event_job (x_loads (ix_redis I)) (cm_data m))) (\<lambda>job. case job of
              None \<Rightarrow> io_ret ()
            | Some j \<Rightarrow> io_then (x_rpush (ix_redis I) QUEUE_KEY (x_dumps (ix_redis I) j)) (io_ret ()))
        else io_ret ())
       (\<lambda>e. if exc_isinstance e JSONDecodeError then io_ret () else ix_sleep I 5)"

definition listen_for_sync_events :: "'s indexer \<Rightarrow> 's pubsub \<Rightarrow> channel_message list \<Rightarrow> ('s, unit) io" where
  "listen_for_sync_events I P messages =
     io_then (ps_subscribe P ''agent:sync:events'')
     (io_then (io_fold (\<lambda>u m. handle_sync_event I m) () messages)
       (unsubscribe_close P ''agent:sync:events''))"

section \<open>The cache changes no embedding\<close>

definition hash_field :: "rstate \<Rightarrow> string \<Rightarrow> string \<Rightarrow> string option" where
  "hash_field st k f = (case as_hash (rlook st k) of None \<Rightarrow> None | Some h \<Rightarrow> dict_get h f)"

text \<open>
  The service gives each text its embedding \<open>vec\<close> and does not touch Redis; what the cache holds under
  the digest of a text is its embedding.
\<close>

definition embeds :: "('s \<Rightarrow> rstate) \<Rightarrow> ('s \<Rightarrow> bool) \<Rightarrow> 's indexer \<Rightarrow> (string \<Rightarrow> json) \<Rightarrow> bool" where
  "embeds view ok I vec \<longleftrightarrow>
     0 < ix_batch_size I \<and> (\<forall>t. py_truthy (vec t) \<and> json_ok (vec t)) \<and>
     (\<forall>t u. ix_sha256 I t = ix_sha256 I u \<longrightarrow> vec t = vec u) \<and>
     (\<forall>b s. ok s \<longrightarrow> (\<exists>s'. ix_embed I b s = (Inr (map vec b), s') \<and> ok s' \<and> view s' = view s))"

definition cache_holds :: "(string \<Rightarrow> json option) \<Rightarrow> 's indexer \<Rightarrow> (string \<Rightarrow> json) \<Rightarrow> rstate \<Rightarrow> bool" where
  "cache_holds loads I vec st \<longleftrightarrow>
     (\<forall>t raw. hash_field st (cache_key I) (ix_sha256 I t) = Some raw \<longrightarrow> loads raw = Some (vec t))"

lemma embedsD:
  assumes "embeds view ok I vec"
  shows "0 < ix_batch_size I" "py_truthy (vec t)" "json_ok (vec t)" "ix_sha256 I t = ix_sha256 I u \<Longrightarrow> vec t = vec u"
    "ok s \<Longrightarrow> \<exists>s'. ix_embed I b s = (Inr (map vec b), s') \<and> ok s' \<and> view s' = view s"
  using assms unfolding embeds_def by blast+

lemma batches_concat: "concat (map (\<lambda>k. take b (drop (k * b) xs)) [0..<m]) = take (m * b) xs"
  by (induction m) (simp_all add: take_add [symmetric] add.commute)

lemma batches_enough: "0 < (b::nat) \<Longrightarrow> n \<le> (n + b - 1) div b * b"
  using div_mult_mod_eq [of "n + b - 1" b] mod_less_divisor [of b "n + b - 1"] by linarith

lemma with_values_batch:
  assumes "\<forall>v \<in> set vs. py_truthy v" "i \<le> length vs"
  shows "with_values i (take b (drop i vs)) = take b (drop i (zip [0..<length vs] vs))"
proof -
  have "with_values i ws = zip [i..<i + length ws] ws" if "set ws \<subseteq> set vs" for ws
    unfolding with_values_def using that assms(1) by (intro filter_True) (auto dest!: set_zip_rightD)
  moreover have "set (take b (drop i vs)) \<subseteq> set vs" by (meson order_trans set_drop_subset set_take_subset)
  moreover have "zip [i..<i + length (take b (drop i vs))] (take b (drop i vs)) = take b (drop i (zip [0..<length vs] vs))"
    using assms(2) by (intro nth_equalityI) auto
  ultimately show ?thesis by metis
qed

lemma io_map_run:
  assumes "\<And>x s. x \<in> set xs \<Longrightarrow> ok s \<Longrightarrow> \<exists>s'. f x s = (Inr (g x), s') \<and> ok s' \<and> view s' = view s" "ok s"
  shows "\<exists>s'. io_map f xs s = (Inr (map g xs), s') \<and> ok s' \<and> view s' = view s"
  using assms
proof (induction xs arbitrary: s)
  case (Cons x xs)
  obtain s1 where 1: "f x s = (Inr (g x), s1)" "ok s1" "view s1 = view s"
    using Cons.prems(1) [OF list.set_intros(1) Cons.prems(2)] by blast
  obtain s2 where "io_map f xs s1 = (Inr (map g xs), s2)" "ok s2" "view s2 = view s1"
    using Cons.IH [OF Cons.prems(1) [OF list.set_intros(2)] 1(2)] by blast
  with 1 show ?case by (simp add: io_bind_run io_ret_run)
qed (simp add: io_ret_run)

lemma embed_texts_run:
  assumes "embeds view ok I vec" "ok s"
  shows "\<exists>s'. embed_texts I texts s = (Inr (map vec texts, [0..<length texts]), s') \<and> ok s' \<and> view s' = view s"
proof -
  let ?b = "nat (ix_batch_size I)" and ?n = "length texts"
  let ?offsets = "map (\<lambda>k. k * ?b) [0..<(?n + ?b - 1) div ?b]"
  let ?f = "\<lambda>i. io_bind (embed_batch I (take ?b (drop i texts)) [0..<max_retries]) (\<lambda>vs. io_ret (with_values i vs))" and ?g = "\<lambda>i. with_values i (map vec (take ?b (drop i texts)))"
  note b = embedsD(1) [OF assms(1)]
  have t: "\<forall>v \<in> set (map vec texts). py_truthy v" by (simp add: embedsD(2) [OF assms(1)])
  have offsets: "batch_offsets ?n (ix_batch_size I) = Inr ?offsets" using b by (simp add: batch_offsets_def)
  have step: "\<exists>s'. ?f i s = (Inr (?g i), s') \<and> ok s' \<and> view s' = view s" if "ok s" for i s
  proof -
    obtain s' where "ix_embed I (take ?b (drop i texts)) s = (Inr (map vec (take ?b (drop i texts))), s')" "ok s'" "view s' = view s"
      using embedsD(5) [OF assms(1) \<open>ok s\<close>] by blast
    moreover have "[0..<max_retries] = 0 # [1..<max_retries]" by (simp add: max_retries_def upt_rec)
    ultimately show ?thesis by (simp add: io_bind_run io_ret_run io_try_run)
  qed
  obtain s' where run: "io_map ?f ?offsets s = (Inr (map ?g ?offsets), s')" "ok s'" "view s' = view s"
    using io_map_run [where f = ?f and g = ?g and xs = ?offsets and ok = ok and view = view, OF step assms(2)]
    by blast
  have off: "k * ?b \<le> ?n" if "k < (?n + ?b - 1) div ?b" for k
  proof -
    have "Suc k * ?b \<le> (?n + ?b - 1) div ?b * ?b" using that by (intro mult_le_mono1) simp
    also have "\<dots> \<le> ?n + ?b - 1" by (simp add: div_times_less_eq_dividend)
    finally show ?thesis using b by simp
  qed
  have "concat (map ?g ?offsets) =
      concat (map (\<lambda>k. take ?b (drop (k * ?b) (zip [0..<?n] (map vec texts)))) [0..<(?n + ?b - 1) div ?b])"
    unfolding map_map
  proof (intro arg_cong [where f = concat] map_cong refl)
    fix k assume "k \<in> set [0..<(?n + ?b - 1) div ?b]"
    then have "k * ?b \<le> length (map vec texts)" using off by simp
    from with_values_batch [OF t this, of ?b]
    show "(?g \<circ> (\<lambda>k. k * ?b)) k =
        take ?b (drop (k * ?b) (zip [0..<?n] (map vec texts)))"
      by (simp add: take_map drop_map)
  qed
  also have "\<dots> = zip [0..<?n] (map vec texts)"
    using batches_enough [of ?b ?n] b by (simp add: batches_concat)
  finally show ?thesis
    using run offsets by (simp add: embed_texts_def io_bind_run io_ret_run io_of_result_run)
qed

text \<open>Reading the cache: each text has its embedding or null, and the nulls are asked for.\<close>

lemma read_cached_run:
  assumes "\<And>c r. c \<in> set cs \<Longrightarrow> look c = Some r \<Longrightarrow> loads r = Some (vec c)"
  shows "read_cached loads i (map look cs) =
    Inr (map (\<lambda>c. if look c = None then JNull else vec c) cs, filter (\<lambda>j. look (cs ! (j - i)) = None) [i..<i + length cs])"
  using assms
proof (induction cs arbitrary: i)
  case (Cons c cs)
  have shift: "filter (\<lambda>j. look ((c # cs) ! (j - i)) = None) [Suc i..<i + length (c # cs)] =
      filter (\<lambda>j. look (cs ! (j - Suc i)) = None) [Suc i..<Suc i + length cs]"
    by (intro filter_cong) (auto simp: nth_Cons')
  have up: "[i..<i + length (c # cs)] = i # [Suc i..<i + length (c # cs)]" by (simp add: upt_rec)
  have "read_cached loads (Suc i) (map look cs) =
      Inr (map (\<lambda>c. if look c = None then JNull else vec c) cs, filter (\<lambda>j. look (cs ! (j - Suc i)) = None) [Suc i..<Suc i + length cs])"
    using Cons by simp
  then show ?case
    unfolding up filter.simps shift using Cons.prems [of c] by (cases "look c") (simp_all del: upt_Suc)
qed simp

definition null_indices :: "json list \<Rightarrow> nat list" where
  "null_indices vs = filter (\<lambda>i. vs ! i = JNull) [0..<length vs]"

lemma all_missing: "null_indices (replicate n JNull) = [0..<n]"
  by (auto simp: null_indices_def intro!: filter_True)

context redis_server
begin

lemma hget_run:
  assumes "healthy s"
  obtains r s' where "x_hget E k f s = (r, s')" "healthy s'" "view s' = view s"
    "r = (case as_hash (rlook (view s) k) of None \<Rightarrow> Inl wrongtype | Some h \<Rightarrow> Inr (dict_get h f))"
proof -
  have law: "sim view healthy (x_hget E k f) (x_hget (model_env E ord) k f)" by (rule command_laws)
  have "x_hget (model_env E ord) k f (view s) =
      ((case as_hash (rlook (view s) k) of None \<Rightarrow> Inl wrongtype | Some h \<Rightarrow> Inr (dict_get h f)), view s)"
    by (simp add: model_env_def redis_simps r_hget_def split: option.split)
  from sim_run [OF law assms this] that show thesis by blast
qed

lemma hget_all_run:
  assumes "healthy s" "cs \<noteq> []"
  obtains s' where "io_map (\<lambda>c. x_hget E k (f c)) cs s =
      ((case as_hash (rlook (view s) k) of None \<Rightarrow> Inl wrongtype | Some h \<Rightarrow> Inr (map (\<lambda>c. dict_get h (f c)) cs)), s')"
    "healthy s'" "view s' = view s"
proof (cases "as_hash (rlook (view s) k)")
  case (Some h)
  have "\<exists>s'. x_hget E k (f c) s1 = (Inr (dict_get h (f c)), s') \<and> (healthy s' \<and> view s' = view s) \<and> view s' = view s1"
    if "healthy s1 \<and> view s1 = view s" for c s1
    using that Some hget_run [of s1 k "f c"] by (metis option.simps(5))
  from io_map_run [where ok = "\<lambda>w. healthy w \<and> view w = view s" and g = "\<lambda>c. dict_get h (f c)", OF this] assms(1) Some that
  show thesis by fastforce
next
  case None
  from assms(2) obtain c cs' where cs: "cs = c # cs'" by (cases cs) auto
  obtain s' where "x_hget E k (f c) s = (Inl wrongtype, s')" "healthy s'" "view s' = view s"
    using hget_run [OF assms(1), of k "f c"] None by (metis option.simps(4))
  with that None show thesis by (simp add: cs io_bind_run)
qed

lemma get_cached_run:
  assumes "embeds view healthy I vec" "healthy s" "cache_holds (x_loads E) I vec (view s)" "texts \<noteq> []"
  obtains vs s' where "get_cached_embeddings I E texts s = (Inr (vs, null_indices vs), s')" "healthy s'" "view s' = view s"
    "length vs = length texts" "\<And>i. i < length texts \<Longrightarrow> vs ! i = JNull \<or> vs ! i = vec (texts ! i)"
proof -
  let ?h = "as_hash (rlook (view s) (cache_key I))"
  obtain s' where run: "io_map (\<lambda>c. x_hget E (cache_key I) (ix_sha256 I c)) texts s =
      ((case ?h of None \<Rightarrow> Inl wrongtype | Some h \<Rightarrow> Inr (map (\<lambda>c. dict_get h (ix_sha256 I c)) texts)), s')" "healthy s'" "view s' = view s"
    using hget_all_run [OF assms(2,4)] .
  show thesis
  proof (cases ?h)
    case None
    then have "get_cached_embeddings I E texts s =
        (Inr (replicate (length texts) JNull, null_indices (replicate (length texts) JNull)), s')"
      using run(1) by (simp add: get_cached_embeddings_def io_try_run io_bind_run io_ret_run all_missing)
    from that [OF this run(2,3)] show thesis by simp
  next
    case (Some h)
    let ?look = "\<lambda>c. dict_get h (ix_sha256 I c)"
    let ?vs = "map (\<lambda>c. if ?look c = None then JNull else vec c) texts"
    have "x_loads E r = Some (vec c)" if "?look c = Some r" for c r
      using assms(3) Some that by (simp add: cache_holds_def hash_field_def)
    then have "read_cached (x_loads E) 0 (map ?look texts) = Inr (?vs, filter (\<lambda>j. ?look (texts ! (j - 0)) = None) [0..<0 + length texts])"
      by (intro read_cached_run)
    moreover have "vec c \<noteq> JNull" for c using embedsD(2) [OF assms(1), of c] by auto
    then have "filter (\<lambda>j. ?look (texts ! (j - 0)) = None) [0..<0 + length texts] = null_indices ?vs"
      unfolding null_indices_def by (intro filter_cong) auto
    ultimately have "get_cached_embeddings I E texts s = (Inr (?vs, null_indices ?vs), s')"
      using run(1) Some by (simp add: get_cached_embeddings_def io_try_run io_bind_run io_of_result_run)
    from that [OF this run(2,3)] show thesis by simp
  qed
qed

end

text \<open>Merging gives every text its embedding.\<close>

lemma merged_all:
  assumes "length vs = length texts" "\<And>i. i < length texts \<Longrightarrow> vs ! i = JNull \<or> vs ! i = vec (texts ! i)"
    and "misses = null_indices vs"
  shows "res_map (merged_embedding vs misses (zip [0..<length misses] (map vec (map (\<lambda>i. texts ! i) misses)))) [0..<length texts] =
    Inr (map (\<lambda>i. [vec (texts ! i)]) [0..<length texts])"
proof -
  let ?new = "zip [0..<length misses] (map vec (map (\<lambda>i. texts ! i) misses))"
  have d: "distinct misses" and m: "set misses = {i. i < length texts \<and> vs ! i = JNull}"
    using assms(1,3) by (auto simp: null_indices_def)
  have "merged_embedding vs misses ?new i = Inr [vec (texts ! i)]" if i: "i < length texts" for i
  proof (cases "vs ! i = JNull")
    case True
    then have "i \<in> set misses" using i m by simp
    then obtain pos where pos: "pos < length misses" "misses ! pos = i" by (auto simp: in_set_conv_nth)
    have "map_of (zip misses [0..<length misses]) (misses ! pos) = Some ([0..<length misses] ! pos)"
      using d pos(1) by (intro map_of_zip_nth) auto
    then have 1: "map_of (zip misses [0..<length misses]) i = Some pos" using pos by simp
    have "(pos, vec (texts ! i)) \<in> set ?new" using pos unfolding set_zip
      by (intro CollectI exI [of _ pos]) simp
    moreover have "distinct (map fst (rev ?new))" by (simp flip: rev_map)
    ultimately have "map_of (rev ?new) pos = Some (vec (texts ! i))" by simp
    with True 1 show ?thesis by (simp add: merged_embedding_def)
  next
    case False
    then show ?thesis using assms(2) [OF i] by (simp add: merged_embedding_def)
  qed
  then have "res_map (merged_embedding vs misses ?new) is = Inr (map (\<lambda>i. [vec (texts ! i)]) is)"
    if "set is \<subseteq> {..<length texts}" for "is"
    using that by (induction "is") auto
  moreover have "set [0..<length texts] \<subseteq> {..<length texts}" by auto
  ultimately show ?thesis by blast
qed

lemma list_items_all: "res_map (list_item xs) [0..<length xs] = Inr xs"
proof -
  have "res_map (list_item xs) is = Inr (map ((!) xs) is)" if "set is \<subseteq> {..<length xs}" for "is"
    using that by (induction "is") (auto simp: list_item_def)
  from this [of "[0..<length xs]"] show ?thesis by (simp add: map_nth atLeast_upt)
qed

lemma dict_set_entries: "(k', v') \<in> set (dict_set k v m) \<Longrightarrow> (k', v') = (k, v) \<or> (k', v') \<in> set m"
  using dict_set_subset [of k v m] by auto

lemma cache_entries:
  assumes "(k, r) \<in> set (fold (\<lambda>(c, e) m. dict_set (f c) (g e) m) (zip cs (map vec cs)) m)"
  shows "(k, r) \<in> set m \<or> (\<exists>c. k = f c \<and> r = g (vec c))"
  using assms by (induction cs arbitrary: m) (auto dest!: dict_set_entries)

context redis_server
begin

lemma hset_run:
  assumes "healthy s"
  obtains r s' where "x_hset E k f v s = (r, s')" "healthy s'"
    "\<forall>k' f'. hash_field (view s') k' f' =
      (if r = Inr () \<and> k' = k \<and> f' = f then Some v else hash_field (view s) k' f')"
    "rlog (view s') = rlog (view s)" "r = (if as_hash (rlook (view s) k) = None then Inl wrongtype else Inr ())"
proof -
  have law: "sim view healthy (x_hset E k f v) (x_hset (model_env E ord) k f v)" by (rule command_laws)
  show thesis
  proof (cases "as_hash (rlook (view s) k)")
    case None
    then have "x_hset (model_env E ord) k f v (view s) = (Inl wrongtype, view s)"
      by (simp add: model_env_def redis_simps r_hset_def)
    from sim_run [OF law assms this] that None show thesis by (metis sum.distinct(1))
  next
    case (Some h)
    then have run: "x_hset (model_env E ord) k f v (view s) = (Inr (), rstore k (RHash (dict_set f v h)) (view s))"
      by (simp add: model_env_def redis_simps r_hset_def)
    obtain s' where s': "x_hset E k f v s = (Inr (), s')" "view s' = rstore k (RHash (dict_set f v h)) (view s)" "healthy s'"
      using sim_run [OF law assms run] by blast
    have "hash_field (view s') k' f' = (if k' = k \<and> f' = f then Some v else hash_field (view s) k' f')" for k' f'
      using Some by (auto simp: s'(2) hash_field_def redis_simps)
    then have "\<forall>k' f'. hash_field (view s') k' f' =
        (if Inr () = Inr () \<and> k' = k \<and> f' = f then Some v else hash_field (view s) k' f')" by simp
    from that [OF s'(1,3) this] Some show thesis by (simp add: s'(2) log_unwritten)
  qed
qed

lemma cache_embeddings_run:
  assumes "embeds view healthy I vec" "healthy s" "cache_holds (x_loads E) I vec (view s)"
  obtains s' where "cache_embeddings I E cs (map vec cs) s = (Inr (), s')" "healthy s'" "cache_holds (x_loads E) I vec (view s')"
proof -
  let ?m = "fold (\<lambda>(c, e) m. dict_set (ix_sha256 I c) (x_dumps E e) m) (zip cs (map vec cs)) []"
  have step: "\<exists>r s'. x_hset E (cache_key I) (fst p) (snd p) s1 = (r, s') \<and> healthy s' \<and> cache_holds (x_loads E) I vec (view s')"
    if p: "p \<in> set ?m" and s1: "healthy s1" "cache_holds (x_loads E) I vec (view s1)" for p s1
  proof -
    obtain c where c: "fst p = ix_sha256 I c" "snd p = x_dumps E (vec c)"
      using cache_entries [of "fst p" "snd p"] p by fastforce
    obtain r s' where s': "x_hset E (cache_key I) (fst p) (snd p) s1 = (r, s')" "healthy s'"
      "\<forall>k' f'. hash_field (view s') k' f' =
         (if r = Inr () \<and> k' = cache_key I \<and> f' = fst p then Some (snd p) else hash_field (view s1) k' f')"
      "rlog (view s') = rlog (view s1)" "r = (if as_hash (rlook (view s1) (cache_key I)) = None then Inl wrongtype else Inr ())"
      using hset_run [OF s1(1), of "cache_key I" "fst p" "snd p"] .
    note after_set = s'(3) [rule_format]
    have "x_loads E raw = Some (vec t)" if "hash_field (view s') (cache_key I) (ix_sha256 I t) = Some raw" for t raw
    proof (cases "r = Inr () \<and> ix_sha256 I t = ix_sha256 I c")
      case True
      then have "raw = x_dumps E (vec c)" "vec t = vec c"
        using that embedsD(4) [OF assms(1), of t c] c by (simp_all add: after_set)
      then show ?thesis using loads_dumps embedsD(3) [OF assms(1)] by simp
    next
      case False
      then have "hash_field (view s1) (cache_key I) (ix_sha256 I t) = Some raw"
        using that unfolding after_set c(1) by (auto split: if_splits)
      then show ?thesis using s1(2) unfolding cache_holds_def by blast
    qed
    then have "cache_holds (x_loads E) I vec (view s')" unfolding cache_holds_def by blast
    with s' show ?thesis by blast
  qed
  have "\<exists>r s'. hset_all E (cache_key I) ps s1 = (r, s') \<and> healthy s' \<and> cache_holds (x_loads E) I vec (view s')"
    if "set ps \<subseteq> set ?m" "healthy s1" "cache_holds (x_loads E) I vec (view s1)" for ps s1
    using that
  proof (induction ps arbitrary: s1)
    case Nil
    then show ?case by (simp add: hset_all_def io_ret_run)
  next
    case (Cons p ps)
    obtain r s2 where 2: "x_hset E (cache_key I) (fst p) (snd p) s1 = (r, s2)" "healthy s2" "cache_holds (x_loads E) I vec (view s2)"
      using step [of p s1] Cons.prems by auto
    show ?case
    proof (cases r)
      case (Inl e)
      with 2 show ?thesis by (simp add: hset_all_def io_bind_run)
    next
      case (Inr u)
      with 2 Cons.IH [OF _ 2(2,3)] Cons.prems(1) show ?thesis by (simp add: hset_all_def io_bind_run)
    qed
  qed
  from this [of ?m s] assms(2,3) obtain r s' where
    "hset_all E (cache_key I) ?m s = (r, s')" "healthy s'" "cache_holds (x_loads E) I vec (view s')" by blast
  with that show thesis by (cases r) (auto simp: cache_embeddings_def io_try_run io_ret_run)
qed

lemma batch_embed_run:
  assumes "embeds view healthy I vec" "healthy s" "cache_holds (x_loads E) I vec (view s)"
  shows "\<exists>s'. batch_embed I (Some E) texts s = (Inr (map vec texts), s') \<and> cache_holds (x_loads E) I vec (view s')"
proof (cases "texts = []")
  case True
  then show ?thesis using assms(3) by (simp add: batch_embed_def io_ret_run)
next
  case False
  obtain vs s1 where 1: "get_cached_embeddings I E texts s = (Inr (vs, null_indices vs), s1)" "healthy s1" "view s1 = view s"
    "length vs = length texts" "\<And>i. i < length texts \<Longrightarrow> vs ! i = JNull \<or> vs ! i = vec (texts ! i)"
    using get_cached_run [OF assms False] by blast
  let ?misses = "null_indices vs"
  let ?miss_texts = "map (\<lambda>i. texts ! i) ?misses"
  show ?thesis
  proof (cases "?misses = []")
    case True
    then have "\<forall>i < length texts. vs ! i \<noteq> JNull" using 1(4) by (auto simp: null_indices_def filter_empty_conv)
    then have "vs = map vec texts" using 1(4,5) by (intro nth_equalityI) auto
    then show ?thesis using 1(1,3) True False assms(3) by (simp add: batch_embed_def io_bind_run io_ret_run)
  next
    case miss: False
    obtain s2 where 2: "embed_texts I ?miss_texts s1 = (Inr (map vec ?miss_texts, [0..<length ?miss_texts]), s2)" "healthy s2" "view s2 = view s1"
      using embed_texts_run [OF assms(1) 1(2)] by blast
    obtain s3 where 3: "cache_embeddings I E ?miss_texts (map vec ?miss_texts) s2 = (Inr (), s3)" "cache_holds (x_loads E) I vec (view s3)"
      using cache_embeddings_run [OF assms(1) 2(2)] assms(3) 1(3) 2(3) by metis
    have m: "res_map (merged_embedding vs ?misses (zip [0..<length ?miss_texts] (map vec ?miss_texts))) [0..<length texts] =
        Inr (map (\<lambda>i. [vec (texts ! i)]) [0..<length texts])"
      using merged_all [OF 1(4) 1(5) refl] by simp
    have "concat (map (\<lambda>i. [vec (texts ! i)]) [0..<length texts]) = map vec (map ((!) texts) [0..<length texts])"
      by (simp add: concat_map_singleton)
    then have c: "concat (map (\<lambda>i. [vec (texts ! i)]) [0..<length texts]) = map vec texts" by (simp only: map_nth)
    show ?thesis
      using 1(1) 2(1) 3 miss False m c list_items_all [of ?miss_texts]
      by (simp add: batch_embed_def io_bind_run io_then_run io_of_result_run Let_def)
  qed
qed

end

text \<open>
  C10: the cache never changes what is stored: whatever part of the texts it already holds, a batch
  is given exactly the embeddings the service has for its texts, in their order, and what is added to
  the cache keeps it so; when the cache key has another type the texts are embedded without it.
\<close>

theorem cached_embeddings_exact:
  assumes "redis_server E view healthy ord" "healthy s" "embeds view healthy I vec" "cache_holds (x_loads E) I vec (view s)"
  shows "\<exists>s'. batch_embed I (Some E) texts s = (Inr (map vec texts), s') \<and> cache_holds (x_loads E) I vec (view s')"
  using redis_server.batch_embed_run [OF assms(1,3,2,4)] .

definition sample_indexer :: "flaky indexer" where
  "sample_indexer = \<lparr>ix_redis = flaky_env, ix_api_key = ''k'', ix_model = ''m'', ix_batch_size = 2, ix_sha256 = \<lambda>t. t,
     ix_embed = \<lambda>ts. io_ret (map (\<lambda>t. JArr [JStr t]) ts), ix_sleep = \<lambda>n. io_ret (), ix_ensure = io_ret (),
     ix_surreal = \<lparr>sq_defs_named = \<lambda>a b. io_ret [], sq_named = \<lambda>a b. io_ret [], sq_defs_in_file = \<lambda>a b c d. io_ret [],
       sq_defs_in_repo = \<lambda>a. io_ret [], sq_defs_overlapping = \<lambda>a b c d. io_ret [], sq_targets = \<lambda>a b c. io_ret [],
       sq_sources = \<lambda>a b c. io_ret [], sq_edges = \<lambda>a b. io_ret [], sq_scopes = \<lambda>a. io_ret [], sq_parent = \<lambda>a b c d. io_ret [],
       sq_commit = \<lambda>a. io_ret [], sq_def_ids = \<lambda>a. io_ret [], sq_insert_symbols = \<lambda>a. io_ret (),
       sq_insert_edges = \<lambda>a b. io_ret (), sq_relate = \<lambda>a b. io_ret (), sq_set_commit = \<lambda>a b. io_ret (),
       sq_delete_edges = \<lambda>a b. io_ret (), sq_delete_symbols = \<lambda>a. io_ret (), sq_delete_file_edges = \<lambda>a b c. io_ret (),
       sq_delete_file_symbols = \<lambda>a b. io_ret (), sq_sleep = \<lambda>d. io_ret ()\<rparr>,
     ix_initialized = False, ix_delete_file = \<lambda>a b. io_ret (), ix_merge = \<lambda>a b. io_ret (), ix_schema = io_ret (),
     ix_head = \<lambda>w. io_ret ''c1'', ix_tags = \<lambda>a b. io_ret [], ix_relationships = \<lambda>a b. io_ret [], ix_routes = \<lambda>w. io_ret [],
     ix_upsert_routes = \<lambda>a b. io_ret (), ix_tools = \<lambda>w. io_ret [], ix_upsert_tools = \<lambda>a b. io_ret (),
     ix_ignore_spec = \<lambda>w. io_ret [], ix_source_files = \<lambda>a b. io_ret [''/tmp/i/a.py''],
     ix_chunk_file = \<lambda>a b. io_ret [\<lparr>ck_filepath = ''a.py'', ck_name = ''f'', ck_kind = ''function'', ck_language = ''python'',
       ck_start_line = 1, ck_end_line = 2, ck_content = ''pass'', ck_parent = None\<rparr>],
     ix_is_file = \<lambda>f. io_ret True, ix_is_dir = \<lambda>d. io_ret True, ix_mkdtemp = \<lambda>p. io_ret ''/tmp/i'', ix_rmtree = \<lambda>d. io_ret (),
     ix_git = \<lambda>d args. io_ret (0, ''c1'', [])\<rparr>"

lemma sample_indexer_embeds: "embeds fk_state (\<lambda>w. fk_fault w = None) sample_indexer (\<lambda>t. JArr [JStr t])"
  by (simp add: embeds_def sample_indexer_def io_ret_run)

definition cached_world :: flaky where
  "cached_world = \<lparr>fk_state = rput ''agent:indexing:cache:m'' (RHash [(''a'', print_json (JArr [JStr ''a'']))]) None empty_keyspace,
     fk_fault = None\<rparr>"

theorem cached_embeddings_exact_witness:
  "fst (batch_embed sample_indexer (Some flaky_env) [''b'', ''a'', ''c''] cached_world) =
    Inr [JArr [JStr ''b''], JArr [JStr ''a''], JArr [JStr ''c'']]"
proof -
  have "x_loads flaky_env (print_json (JArr [JStr ''a''])) = Some (JArr [JStr ''a''])"
    using parse_print_json [of "JArr [JStr ''a'']"] by (simp add: flaky_env_def)
  then have "cache_holds (x_loads flaky_env) sample_indexer (\<lambda>t. JArr [JStr t]) (fk_state cached_world)"
    by (auto simp: cache_holds_def hash_field_def cached_world_def redis_simps cache_key_def sample_indexer_def
        simp del: print_json.simps split: if_splits)
  from cached_embeddings_exact [OF flaky.redis_server_axioms _ sample_indexer_embeds this, of "[''b'', ''a'', ''c'']"]
  show ?thesis by (auto simp: cached_world_def)
qed

section \<open>Missing embeddings\<close>

text \<open>
  A text without an embedding is left out of the result, so that the chunks after it are stored with
  their successors' embeddings.
\<close>

lemma missing_embedding_shifts:
  assumes "ix_batch_size I = 2" "ix_embed I [t, u] s = (Inr [JNull, v], s')" "py_truthy v"
  shows "batch_embed I None [t, u] s = (Inr [v], s')" "zip [c, d] [v] = [(c, v)]"
proof -
  have "[0..<max_retries] = 0 # [1..<max_retries]" by (simp add: max_retries_def upt_rec)
  moreover have "with_values 0 [JNull, v] = [(1, v)]" using assms(3) by (simp add: with_values_def upt_rec)
  ultimately have "embed_texts I [t, u] s = (Inr ([v], [1]), s')"
    using assms(1,2) by (simp add: embed_texts_def batch_offsets_def io_bind_run io_ret_run io_try_run io_of_result_run upt_rec)
  then show "batch_embed I None [t, u] s = (Inr [v], s')"
    by (simp add: batch_embed_def io_bind_run io_then_run io_ret_run io_of_result_run Let_def upt_rec merged_embedding_def)
  show "zip [c, d] [v] = [(c, v)]" by simp
qed

text \<open>
  A chunk is meant to be merged into the symbol of the code graph that it describes, but the two
  records have different identifiers, because the graph's symbols are of the kind \<open>definition\<close>.
\<close>

lemma chunk_symbol_differs:
  assumes "chunk_symbol_id I c repo = sy_id (symbol_record_of (ix_sha256 I) repo t)"
    and "tg_kind t = ''definition''" "ck_kind c \<in> {''function'', ''class'', ''method'', ''module''}"
    and "ck_filepath c = tg_filepath t" "ck_name c = tg_name t" "ck_start_line c = tg_line t"
  shows "\<exists>a b. a \<noteq> b \<and> take 40 (ix_sha256 I a) = take 40 (ix_sha256 I b)"
proof (intro exI conjI)
  let ?key = "\<lambda>kind. repo @ '':'' @ ck_filepath c @ '':'' @ kind @ '':'' @ ck_name c @ '':'' @ show_int (ck_start_line c)"
  show "?key (ck_kind c) \<noteq> ?key (tg_kind t)" using assms(2,3) by auto
  show "take 40 (ix_sha256 I (?key (ck_kind c))) = take 40 (ix_sha256 I (?key (tg_kind t)))"
    using assms(1,4-) by (simp add: chunk_symbol_id_def symbol_record_of_def)
qed

section \<open>A job and those that wait for it\<close>

text \<open>The calls outside Redis and the code graph publish nothing and leave the metadata alone.\<close>

definition detached :: "('s \<Rightarrow> rstate) \<Rightarrow> ('s \<Rightarrow> bool) \<Rightarrow> string set \<Rightarrow> 's indexer \<Rightarrow> bool" where
  "detached view ok K I \<longleftrightarrow>
     mute view ok K (ix_ensure I) \<and> (\<forall>b. mute view ok K (ix_embed I b)) \<and> (\<forall>n. mute view ok K (ix_sleep I n)) \<and>
     (\<forall>r f. mute view ok K (ix_delete_file I r f)) \<and> (\<forall>i d. mute view ok K (ix_merge I i d)) \<and>
     (\<forall>w r c. mute view ok K (build_code_graph I w r c)) \<and>
     (\<forall>w. mute view ok K (ix_routes I w)) \<and> (\<forall>x r. mute view ok K (ix_upsert_routes I x r)) \<and>
     (\<forall>w. mute view ok K (ix_tools I w)) \<and> (\<forall>x r. mute view ok K (ix_upsert_tools I x r)) \<and>
     (\<forall>w. mute view ok K (ix_ignore_spec I w)) \<and> (\<forall>w g. mute view ok K (ix_source_files I w g)) \<and>
     (\<forall>f w. mute view ok K (ix_chunk_file I f w)) \<and> (\<forall>f. mute view ok K (ix_is_file I f)) \<and>
     (\<forall>d. mute view ok K (ix_is_dir I d)) \<and> (\<forall>p. mute view ok K (ix_mkdtemp I p)) \<and>
     (\<forall>d. mute view ok K (ix_rmtree I d)) \<and> (\<forall>d args. mute view ok K (ix_git I d args))"

lemma detachedD:
  assumes "detached view ok K I"
  shows "mute view ok K (ix_ensure I)" "mute view ok K (ix_embed I b)" "mute view ok K (ix_sleep I n)"
    "mute view ok K (ix_delete_file I r f)" "mute view ok K (ix_merge I i d)" "mute view ok K (build_code_graph I w r c)"
    "mute view ok K (ix_routes I w)" "mute view ok K (ix_upsert_routes I x r)" "mute view ok K (ix_tools I w)"
    "mute view ok K (ix_upsert_tools I x r)" "mute view ok K (ix_ignore_spec I w)" "mute view ok K (ix_source_files I w g)"
    "mute view ok K (ix_chunk_file I f w)" "mute view ok K (ix_is_file I f)" "mute view ok K (ix_is_dir I f)"
    "mute view ok K (ix_mkdtemp I f)" "mute view ok K (ix_rmtree I f)" "mute view ok K (ix_git I dir args)"
  using assms by (simp_all add: detached_def)

lemma mute_map [mute_intros]: "(\<And>x. mute view ok K (f x)) \<Longrightarrow> mute view ok K (io_map f xs)"
  by (induction xs) (simp_all add: mute_ret mute_bind)

lemma mute_field:
  assumes "mute view ok K m" "ok s" "m s = (r, s')" "k \<in> K"
  shows "hash_field (view s') k f = hash_field (view s) k f"
  unfolding hash_field_def rlook_def by (simp only: muteD(3) [OF assms(1-3)] muteD(4) [OF assms])

lemma cache_key_not_meta: "cache_key I \<notin> {META_KEY repo}"
  by (simp add: cache_key_def META_KEY_def)

context redis_server
begin

lemma mute_hset_all [mute_intros]: "k \<notin> K \<Longrightarrow> mute view healthy K (hset_all E k fvs)"
  unfolding hset_all_def by (intro mute_intros)

lemma mute_batch_embed:
  assumes "detached view healthy {META_KEY repo} I"
  shows "mute view healthy {META_KEY repo} (batch_embed I (Some E) texts)"
proof -
  have "mute view healthy {META_KEY repo} (embed_batch I b ks)" for b ks
    by (induction ks) (auto intro!: mute_intros detachedD [OF assms])
  then show ?thesis
    unfolding batch_embed_def get_cached_embeddings_def cache_embeddings_def embed_texts_def Let_def option.case
    by (intro mute_intros cache_key_not_meta)
qed

lemma mute_chunk_repo: "detached view healthy K I \<Longrightarrow> mute view healthy K (chunk_repo I w changed)"
  unfolding chunk_repo_def by (auto split: option.split list.split intro!: mute_intros intro: detachedD)

lemma mute_upsert: "detached view healthy K I \<Longrightarrow> mute view healthy K (upsert_chunks I repo cs es fs)"
  unfolding upsert_chunks_def upsert_chunk_def by (intro mute_intros) (auto intro: detachedD)

lemma mute_routes: "detached view healthy K I \<Longrightarrow> mute view healthy K (build_route_maps I w repo)"
  unfolding build_route_maps_def by (intro mute_intros) (auto intro: detachedD)

lemma mute_git:
  assumes "detached view healthy K I"
  shows "mute view healthy K (git_diff_files I w a b d)" "mute view healthy K (get_commit_hash I w)"
    "mute view healthy K (index_create_worktree I r f)" "mute view healthy K (cleanup_worktree I rp w)"
  unfolding git_diff_files_def get_commit_hash_def index_create_worktree_def cleanup_worktree_def index_worktree_add_def
  by (auto split: sum.split intro!: mute_intros intro: detachedD [OF assms])

end

text \<open>How a step ends: it announces the completion and records the commit, or raises with nothing said.\<close>

definition announces :: "'s env \<Rightarrow> ('s \<Rightarrow> rstate) \<Rightarrow> string \<Rightarrow> string \<Rightarrow> string \<Rightarrow> 's \<Rightarrow> unit result \<times> 's \<Rightarrow> bool" where
  "announces E view repo ref commit s out \<longleftrightarrow>
     (case out of
        (Inr u, s') \<Rightarrow>
          rlog (view s') = rlog (view s) @ [(''agent:indexing:events'', x_dumps E (index_event (JStr repo) (JStr ref) ''complete'' []))] \<and>
          (\<exists>n. hash_field (view s') (META_KEY repo) ref = Some (x_dumps E (index_meta commit n)))
      | (Inl e, s') \<Rightarrow>
          rlog (view s') = rlog (view s) \<and> hash_field (view s') (META_KEY repo) ref = hash_field (view s) (META_KEY repo) ref)"

lemma announces_after:
  assumes "announces E view repo ref commit s1 out" "rlog (view s1) = rlog (view s)"
    and "hash_field (view s1) (META_KEY repo) ref = hash_field (view s) (META_KEY repo) ref"
  shows "announces E view repo ref commit s out"
  using assms by (auto simp: announces_def split: prod.splits sum.splits)

lemma mute_step:
  assumes "mute view ok {META_KEY repo} m" "ok s" "m s = (r, s1)"
  shows "ok s1" "rlog (view s1) = rlog (view s)" "hash_field (view s1) (META_KEY repo) ref = hash_field (view s) (META_KEY repo) ref"
  using muteD(1,2) [OF assms] mute_field [OF assms] by simp_all

context redis_server
begin

lemma del_run:
  assumes "healthy s"
  obtains n s' where "x_del E k s = (Inr n, s')" "healthy s'" "view s' = rdrop k (view s)"
proof -
  have law: "sim view healthy (x_del E k) (x_del (model_env E ord) k)" by (rule command_laws)
  have "x_del (model_env E ord) k (view s) = (Inr (if rlook (view s) k = None then 0 else 1), rdrop k (view s))"
    by (simp add: model_env_def redis_simps r_del_def)
  from sim_run [OF law assms this] that show thesis by blast
qed

lemma wrong_type_field: "as_hash (rlook st k) = None \<Longrightarrow> hash_field st k f = None"
  by (simp add: hash_field_def)

lemma rlook_drop: "rlook (rdrop k st) k = None"
  by (simp add: rlook_def rdrop_def)

lemma previous_run:
  assumes "healthy s"
  obtains prev s' where "get_previous_commit (Some E) repo ref s = (Inr prev, s')" "healthy s'" "rlog (view s') = rlog (view s)"
    "hash_field (view s') (META_KEY repo) ref = hash_field (view s) (META_KEY repo) ref"
proof -
  obtain r s1 where 1: "x_hget E (META_KEY repo) ref s = (r, s1)" "healthy s1" "view s1 = view s"
    "r = (case as_hash (rlook (view s) (META_KEY repo)) of None \<Rightarrow> Inl wrongtype | Some h \<Rightarrow> Inr (dict_get h ref))"
    using hget_run [OF assms] .
  show thesis
  proof (cases "as_hash (rlook (view s) (META_KEY repo))")
    case None
    obtain n s2 where 2: "x_del E (META_KEY repo) s1 = (Inr n, s2)" "healthy s2" "view s2 = rdrop (META_KEY repo) (view s1)"
      using del_run [OF 1(2)] .
    have "wrong_type wrongtype" by code_simp
    then have "get_previous_commit (Some E) repo ref s = (Inr None, s2)"
      using 1(1,4) None 2(1)
      by (simp add: get_previous_commit_def migrate_meta_key_def io_try_run io_bind_run io_then_run io_ret_run)
    from that [OF this 2(2)] show thesis
      using None by (simp add: 2(3) 1(3) log_unwritten wrong_type_field hash_field_def rlook_drop)
  next
    case (Some h)
    have no_type: "\<not> wrong_type e" if "indexed_commit (x_loads E) raw = Inl e" for raw e
    proof -
      have "\<not> str_contains ''WRONGTYPE'' ''Expecting value''" "\<not> str_contains ''WRONGTYPE'' ''get''" by code_simp+
      then show ?thesis using that
        by (auto simp: indexed_commit_def wrong_type_def res_bind_def split: option.splits sum.splits if_splits elim: jget.elims)
    qed
    then have "\<exists>prev. get_previous_commit (Some E) repo ref s = (Inr prev, s1)"
      using 1(1,4) Some
      by (cases "indexed_commit (x_loads E) (opt_default [] (dict_get h ref))")
        (auto simp: get_previous_commit_def io_try_run io_bind_run io_then_run io_ret_run io_of_result_run)
    then show thesis using that 1(2,3) by metis
  qed
qed

lemma metadata_run:
  assumes "healthy s"
  obtains s' where "update_indexing_metadata (Some E) repo commit n ref s = (Inr (), s')" "healthy s'" "rlog (view s') = rlog (view s)"
    "hash_field (view s') (META_KEY repo) ref = Some (x_dumps E (index_meta commit n))"
proof -
  let ?meta = "x_dumps E (index_meta commit n)"
  obtain r s1 where 1: "x_hset E (META_KEY repo) ref ?meta s = (r, s1)" "healthy s1"
    "\<forall>k f. hash_field (view s1) k f = (if r = Inr () \<and> k = META_KEY repo \<and> f = ref then Some ?meta else hash_field (view s) k f)"
    "rlog (view s1) = rlog (view s)" "r = (if as_hash (rlook (view s) (META_KEY repo)) = None then Inl wrongtype else Inr ())"
    using hset_run [OF assms] .
  show thesis
  proof (cases "as_hash (rlook (view s) (META_KEY repo)) = None")
    case False
    with 1(1,5) have "update_indexing_metadata (Some E) repo commit n ref s = (Inr (), s1)"
      by (simp add: update_indexing_metadata_def Let_def io_try_run)
    from that [OF this 1(2,4)] show thesis using 1(3,5) False by simp
  next
    case True
    obtain d s2 where 2: "x_del E (META_KEY repo) s1 = (Inr d, s2)" "healthy s2" "view s2 = rdrop (META_KEY repo) (view s1)"
      using del_run [OF 1(2)] .
    obtain r3 s3 where 3: "x_hset E (META_KEY repo) ref ?meta s2 = (r3, s3)" "healthy s3"
      "\<forall>k f. hash_field (view s3) k f = (if r3 = Inr () \<and> k = META_KEY repo \<and> f = ref then Some ?meta else hash_field (view s2) k f)"
      "rlog (view s3) = rlog (view s2)" "r3 = (if as_hash (rlook (view s2) (META_KEY repo)) = None then Inl wrongtype else Inr ())"
      using hset_run [OF 2(2)] .
    have r3: "r3 = Inr ()" using 3(5) by (simp add: 2(3) rlook_drop)
    have "wrong_type wrongtype" by code_simp
    then have "update_indexing_metadata (Some E) repo commit n ref s = (Inr (), s3)"
      using 1(1,5) True 2(1) 3(1) r3
      by (simp add: update_indexing_metadata_def migrate_meta_key_def Let_def io_try_run io_then_run io_ret_run)
    from that [OF this 3(2)] show thesis using 3(3,4) r3 1(4) by (simp add: 2(3) log_unwritten)
  qed
qed

lemma hash_field_log: "hash_field (st\<lparr>rlog := l\<rparr>) k f = hash_field st k f"
  by (cases "rdb st k") (auto simp: hash_field_def rlook_def split: prod.split option.split)

lemma complete_run:
  assumes "healthy s"
  shows "\<exists>s'. io_then (update_indexing_metadata (Some E) repo commit n ref)
      (publish_indexing_event (Some E) (JStr repo) (JStr ref) ''complete'' []) s = (Inr (), s') \<and> healthy s' \<and>
    announces E view repo ref commit s (Inr (), s')"
proof -
  obtain s1 where 1: "update_indexing_metadata (Some E) repo commit n ref s = (Inr (), s1)" "healthy s1" "rlog (view s1) = rlog (view s)"
    "hash_field (view s1) (META_KEY repo) ref = Some (x_dumps E (index_meta commit n))"
    using metadata_run [OF assms] .
  let ?d = "x_dumps E (index_event (JStr repo) (JStr ref) ''complete'' [])"
  obtain s2 where 2: "x_publish E ''agent:indexing:events'' ?d s1 = (Inr (), s2)" "healthy s2"
    "view s2 = (view s1)\<lparr>rlog := rlog (view s1) @ [(''agent:indexing:events'', ?d)]\<rparr>"
    using publish_run [OF 1(2)] .
  have "hash_field (view s2) (META_KEY repo) ref = hash_field (view s1) (META_KEY repo) ref"
    unfolding 2(3) by (rule hash_field_log)
  with 1 2 show ?thesis
    by (auto simp: publish_indexing_event_def io_then_run io_try_run announces_def)
qed

lemma index_chunks_run:
  assumes "detached view healthy {META_KEY repo} I" "healthy s" "\<And>w. fst (chunk_repo I dir changed w) \<noteq> Inr []"
  shows "healthy (snd (index_chunks I (Some E) repo ref dir commit changed removed s)) \<and>
    announces E view repo ref commit s (index_chunks I (Some E) repo ref dir commit changed removed s)"
proof -
  let ?pre = "io_then (io_try (build_code_graph I dir repo changed) (\<lambda>e. io_ret ()))
    (io_then (io_try (build_route_maps I dir repo) (\<lambda>e. io_ret ())) (chunk_repo I dir changed))"
  let ?mid = "\<lambda>chunks. io_bind (batch_embed I (Some E) (map chunk_embed_text chunks)) (\<lambda>es. upsert_chunks I repo chunks es removed)"
  let ?tail = "\<lambda>n. io_then (update_indexing_metadata (Some E) repo commit n ref)
      (publish_indexing_event (Some E) (JStr repo) (JStr ref) ''complete'' [])"
  have eq: "index_chunks I (Some E) repo ref dir commit changed removed =
      io_bind ?pre (\<lambda>chunks. if chunks = [] then io_ret () else io_bind (?mid chunks) ?tail)"
    by (simp add: index_chunks_def io_then_def io_bind_assoc cong: if_cong)
  have pre: "mute view healthy {META_KEY repo} ?pre"
    by (intro mute_intros mute_routes mute_chunk_repo detachedD(6) assms(1))
  have mid: "mute view healthy {META_KEY repo} (?mid chunks)" for chunks
    by (intro mute_intros mute_batch_embed mute_upsert assms(1))
  obtain r1 s1 where 1: "?pre s = (r1, s1)" by (cases "?pre s")
  note p = mute_step [OF pre assms(2) 1]
  show ?thesis
  proof (cases r1)
    case (Inl e)
    then show ?thesis using 1 p by (simp add: eq io_bind_run announces_def)
  next
    case (Inr chunks)
    have "\<exists>w. chunk_repo I dir changed w = (Inr chunks, s1)"
      using 1 Inr by (auto simp: io_then_run split: sum.splits prod.splits)
    then have ne: "chunks \<noteq> []" using assms(3) by (metis fst_conv)
    obtain r2 s2 where 2: "?mid chunks s1 = (r2, s2)" by (cases "?mid chunks s1")
    note m = mute_step [OF mid p(1) 2]
    show ?thesis
    proof (cases r2)
      case (Inl e)
      then show ?thesis using 1 Inr ne 2 p m unfolding eq by (simp add: io_bind_run [of ?pre] io_bind_run [of "?mid chunks"] announces_def)
    next
      case n: (Inr n)
      obtain s3 where 3: "?tail n s2 = (Inr (), s3)" "healthy s3" "announces E view repo ref commit s2 (Inr (), s3)"
        using complete_run [OF m(1)] by blast
      have "index_chunks I (Some E) repo ref dir commit changed removed s = (Inr (), s3)"
        using 1 Inr ne 2 n 3(1) unfolding eq by (simp add: io_bind_run [of ?pre] io_bind_run [of "?mid chunks"])
      then show ?thesis using 3(2) announces_after [OF 3(3)] p m by simp
    qed
  qed
qed

end

text \<open>
  The job can be done: the database answers, a worktree and its commit are there, the chunking of what
  changed finds something or raises, and a commit that only deletes files is not among the changes.
\<close>

definition indexable :: "'s indexer \<Rightarrow> string \<Rightarrow> string \<Rightarrow> string \<Rightarrow> string \<Rightarrow> bool" where
  "indexable I repo ref dir commit \<longleftrightarrow>
     ix_api_key I \<noteq> [] \<and> repo \<noteq> [] \<and> (\<forall>w. fst (ix_ensure I w) = Inr ()) \<and>
     (\<forall>w. fst (index_create_worktree I (JStr repo) (JStr ref) w) = Inr (Some dir)) \<and>
     (\<forall>w. fst (get_commit_hash I dir w) = Inr commit) \<and>
     (\<forall>changed w. changed \<noteq> Some [] \<longrightarrow> fst (chunk_repo I dir changed w) \<noteq> Inr []) \<and>
     (\<forall>old w v. fst (git_diff_files I dir old commit False w) = Inr [] \<longrightarrow> fst (git_diff_files I dir old commit True v) = Inr [])"

lemma git_diff_total: "\<exists>fs s'. git_diff_files I w a b d s = (Inr fs, s')"
  by (cases "git_diff_files I w a b d s") (auto simp: git_diff_files_def io_try_run io_ret_run split: prod.splits sum.splits)

context redis_server
begin

lemma index_worktree_run:
  assumes "detached view healthy {META_KEY repo} I" "healthy s" "indexable I repo ref dir commit"
  shows "healthy (snd (index_worktree I (Some E) repo ref dir s)) \<and>
    announces E view repo ref commit s (index_worktree I (Some E) repo ref dir s)"
proof -
  let ?chunks = "\<lambda>changed removed. index_chunks I (Some E) repo ref dir commit changed removed"
  let ?tail = "io_then (update_indexing_metadata (Some E) repo commit 0 ref)
      (publish_indexing_event (Some E) (JStr repo) (JStr ref) ''complete'' [])"
  have nonempty: "fst (chunk_repo I dir changed w) \<noteq> Inr []" if "changed \<noteq> Some []" for changed w
    using assms(3) that by (simp add: indexable_def)
  obtain s1 where 1: "get_commit_hash I dir s = (Inr commit, s1)" using assms(3) by (metis indexable_def prod.collapse)
  note p1 = mute_step [OF mute_git(2) [OF assms(1)] assms(2) 1]
  obtain prev s2 where 2: "get_previous_commit (Some E) repo ref s1 = (Inr prev, s2)" "healthy s2" "rlog (view s2) = rlog (view s1)"
    "hash_field (view s2) (META_KEY repo) ref = hash_field (view s1) (META_KEY repo) ref"
    using previous_run [OF p1(1)] .
  show ?thesis
  proof (cases "opt_default [] prev \<noteq> [] \<and> prev \<noteq> Some commit")
    case False
    then have eq: "index_worktree I (Some E) repo ref dir s = ?chunks None [] s2"
      using 1 2(1) by (auto simp: index_worktree_def io_bind_run io_try_run io_ret_run)
    have "healthy (snd (?chunks None [] s2)) \<and> announces E view repo ref commit s2 (?chunks None [] s2)"
      using index_chunks_run [OF assms(1) 2(2) nonempty] by simp
    then show ?thesis unfolding eq using announces_after [of E view repo ref commit s2] 2(3,4) p1(2,3) by metis
  next
    case True
    obtain changed s3 where 3: "git_diff_files I dir (opt_default [] prev) commit False s2 = (Inr changed, s3)" using git_diff_total by metis
    note p3 = mute_step [OF mute_git(1) [OF assms(1)] 2(2) 3]
    obtain removed s4 where 4: "git_diff_files I dir (opt_default [] prev) commit True s3 = (Inr removed, s4)" using git_diff_total by metis
    note p4 = mute_step [OF mute_git(1) [OF assms(1)] p3(1) 4]
    have only: "changed = [] \<longrightarrow> removed = []" using assms(3) 3 4 unfolding indexable_def by (metis fst_conv sum.inject(2))
    have after_all: "announces E view repo ref commit s out" if "announces E view repo ref commit s4 out" for out
      using announces_after [OF that] 2(3,4) p1(2,3) p3(2,3) p4(2,3) by metis
    have eq: "index_worktree I (Some E) repo ref dir s = (if changed = [] then ?tail s4 else ?chunks (Some changed) removed s4)"
      using 1 2(1) 3 4 True only by (auto simp: index_worktree_def io_bind_run io_try_run io_ret_run)
    show ?thesis
    proof (cases "changed = []")
      case True
      then show ?thesis unfolding eq using complete_run [OF p4(1), of repo commit 0 ref] after_all by auto
    next
      case False
      have "healthy (snd (?chunks (Some changed) removed s4)) \<and> announces E view repo ref commit s4 (?chunks (Some changed) removed s4)"
        using index_chunks_run [OF assms(1) p4(1) nonempty] False by simp
      then show ?thesis unfolding eq using after_all False by simp
    qed
  qed
qed

lemma index_event_read:
  "event_verdict (x_loads E) repo ref \<lparr>cm_type = ''message'', cm_data = x_dumps E (index_event (JStr repo) (JStr ref) ''complete'' [])\<rparr> = Complete"
  "\<exists>msg. event_verdict (x_loads E) repo ref \<lparr>cm_type = ''message'', cm_data = x_dumps E (index_event (JStr repo) (JStr ref) ''error'' e)\<rparr> = Failure msg"
  by (simp_all add: event_verdict_def index_event_def loads_dumps)

lemma job_run:
  assumes "detached view healthy {META_KEY repo} I" "healthy s" "indexable I repo ref dir commit"
    and "dict_get message ''repo'' = Some (JStr repo)" "opt_default (JStr ''main'') (dict_get message ''ref'') = JStr ref"
    and "process_indexing_job I (Some E) message s = (r, s')"
  shows "\<exists>data. rlog (view s') = rlog (view s) @ [(''agent:indexing:events'', data)] \<and>
    (event_verdict (x_loads E) repo ref \<lparr>cm_type = ''message'', cm_data = data\<rparr> = Complete \<and>
       (\<exists>n. hash_field (view s') (META_KEY repo) ref = Some (x_dumps E (index_meta commit n))) \<or>
     (\<exists>msg. event_verdict (x_loads E) repo ref \<lparr>cm_type = ''message'', cm_data = data\<rparr> = Failure msg) \<and>
       hash_field (view s') (META_KEY repo) ref = hash_field (view s) (META_KEY repo) ref)"
proof -
  have key: "ix_api_key I \<noteq> []" "repo \<noteq> []" using assms(3) by (auto simp: indexable_def)
  obtain s1 where 1: "ix_ensure I s = (Inr (), s1)" using assms(3) by (metis indexable_def prod.collapse)
  note p1 = mute_step [OF detachedD(1) [OF assms(1)] assms(2) 1]
  obtain s2 where 2: "index_create_worktree I (JStr repo) (JStr ref) s1 = (Inr (Some dir), s2)"
    using assms(3) by (metis indexable_def prod.collapse)
  note p2 = mute_step [OF mute_git(3) [OF assms(1)] p1(1) 2]
  obtain r3 s3 where 3: "index_worktree I (Some E) repo ref dir s2 = (r3, s3)" by (cases "index_worktree I (Some E) repo ref dir s2")
  have w: "healthy s3" "announces E view repo ref commit s2 (r3, s3)" using index_worktree_run [OF assms(1) p2(1) assms(3)] 3 by auto
  let ?body = "io_try (index_worktree I (Some E) repo ref dir) (\<lambda>e. publish_indexing_event (Some E) (JStr repo) (JStr ref) ''error'' (exc_msg e))"
  have "\<exists>s4 data. ?body s2 = (Inr (), s4) \<and> healthy s4 \<and> rlog (view s4) = rlog (view s) @ [(''agent:indexing:events'', data)] \<and>
    (event_verdict (x_loads E) repo ref \<lparr>cm_type = ''message'', cm_data = data\<rparr> = Complete \<and>
       (\<exists>n. hash_field (view s4) (META_KEY repo) ref = Some (x_dumps E (index_meta commit n))) \<or>
     (\<exists>msg. event_verdict (x_loads E) repo ref \<lparr>cm_type = ''message'', cm_data = data\<rparr> = Failure msg) \<and>
       hash_field (view s4) (META_KEY repo) ref = hash_field (view s) (META_KEY repo) ref)"
  proof (cases r3)
    case (Inr u)
    then have "rlog (view s3) = rlog (view s2) @ [(''agent:indexing:events'', x_dumps E (index_event (JStr repo) (JStr ref) ''complete'' []))]"
      "\<exists>n. hash_field (view s3) (META_KEY repo) ref = Some (x_dumps E (index_meta commit n))" using w(2) by (simp_all add: announces_def)
    with 3 w(1) Inr p1(2) p2(2) index_event_read(1) show ?thesis by (simp add: io_try_run)
  next
    case (Inl e)
    let ?d = "x_dumps E (index_event (JStr repo) (JStr ref) ''error'' (exc_msg e))"
    obtain s4 where 4: "x_publish E ''agent:indexing:events'' ?d s3 = (Inr (), s4)" "healthy s4"
      "view s4 = (view s3)\<lparr>rlog := rlog (view s3) @ [(''agent:indexing:events'', ?d)]\<rparr>"
      using publish_run [OF w(1)] .
    have "?body s2 = (Inr (), s4)" using 3 Inl 4(1) by (simp add: io_try_run publish_indexing_event_def)
    moreover have "rlog (view s3) = rlog (view s2)"
      "hash_field (view s3) (META_KEY repo) ref = hash_field (view s2) (META_KEY repo) ref" using w(2) Inl by (simp_all add: announces_def)
    ultimately show ?thesis
      using 4(2,3) p1(2,3) p2(2,3) index_event_read(2) [of repo ref "exc_msg e"] by (simp add: hash_field_log)
  qed
  then obtain s4 data where 4: "?body s2 = (Inr (), s4)" "healthy s4" "rlog (view s4) = rlog (view s) @ [(''agent:indexing:events'', data)]"
    "event_verdict (x_loads E) repo ref \<lparr>cm_type = ''message'', cm_data = data\<rparr> = Complete \<and>
       (\<exists>n. hash_field (view s4) (META_KEY repo) ref = Some (x_dumps E (index_meta commit n))) \<or>
     (\<exists>msg. event_verdict (x_loads E) repo ref \<lparr>cm_type = ''message'', cm_data = data\<rparr> = Failure msg) \<and>
       hash_field (view s4) (META_KEY repo) ref = hash_field (view s) (META_KEY repo) ref" by blast
  obtain r5 s5 where 5: "cleanup_worktree I repo dir s4 = (r5, s5)" by (cases "cleanup_worktree I repo dir s4")
  note p5 = mute_step [OF mute_git(4) [OF assms(1)] 4(2) 5]
  have "s' = s5"
    using assms(4-6) key 1 2 4(1) 5
    by (simp add: process_indexing_job_def index_repository_def Let_def io_bind_run io_then_run io_try_run io_finally_def split: sum.splits)
  then show ?thesis using 4(3,4) p5(2,3) by metis
qed

end


lemma sample_detached: "detached fk_state (\<lambda>w. fk_fault w = None) K sample_indexer"
  by (auto simp: detached_def sample_indexer_def build_code_graph_def build_incremental_def build_def Let_def
      intro!: mute_intros)

lemma io_map_const: "(\<And>x w. f x w = (Inr y, w)) \<Longrightarrow> io_map f xs w = (Inr (map (\<lambda>x. y) xs), w)"
  by (induction xs) (simp_all add: io_bind_run io_ret_run)

lemma sample_indexable: "indexable sample_indexer ''o/r'' ''main'' ''/tmp/i'' ''c1''"
proof -
  have "fst (index_create_worktree sample_indexer (JStr ''o/r'') (JStr ''main'') w) = Inr (Some ''/tmp/i'')" for w
    by (simp add: index_create_worktree_def index_worktree_add_def sample_indexer_def string_of_def io_bind_run io_try_run io_ret_run
        io_of_result_run)
  moreover have "fst (get_commit_hash sample_indexer ''/tmp/i'' w) = Inr ''c1''" for w
    by (simp add: get_commit_hash_def sample_indexer_def io_bind_run io_try_run io_ret_run str_strip_def str_lstrip_def
        str_rstrip_def is_space_def)
  moreover have "fst (chunk_repo sample_indexer ''/tmp/i'' changed w) \<noteq> Inr []" if ne: "changed \<noteq> Some []" for changed w
  proof -
    let ?step = "\<lambda>rel. io_bind (ix_is_file sample_indexer (''/tmp/i'' @ ''/'' @ rel)) (\<lambda>is_file.
      if is_file then ix_chunk_file sample_indexer (''/tmp/i'' @ ''/'' @ rel) ''/tmp/i'' else io_ret [])"
    obtain c where c: "ix_chunk_file sample_indexer f d w = (Inr [c], w)" for f d w by (simp add: sample_indexer_def io_ret_run)
    have "?step rel w = (Inr [c], w)" for rel w using c by (simp add: sample_indexer_def io_bind_run io_ret_run)
    then have step: "io_map ?step fs w = (Inr (map (\<lambda>f. [c]) fs), w)" for fs w by (rule io_map_const)
    have files: "ix_ignore_spec sample_indexer d w = (Inr [], w)" "ix_source_files sample_indexer d g w = (Inr [''/tmp/i/a.py''], w)" for d g w
      by (simp_all add: sample_indexer_def io_ret_run)
    show ?thesis
    proof (cases changed)
      case None
      then show ?thesis using c files by (simp add: chunk_repo_def io_bind_run io_ret_run)
    next
      case (Some fs)
      then obtain f fs' where fs: "fs = f # fs'" using ne by (cases fs) auto
      then have "chunk_repo sample_indexer ''/tmp/i'' changed w = (Inr (concat (map (\<lambda>f. [c]) fs)), w)"
        unfolding Some chunk_repo_def option.case list.case fs
        by (simp only: io_bind_run files(1) step prod.case sum.case io_ret_run)
      then show ?thesis by (simp add: fs)
    qed
  qed
  moreover have "fst (git_diff_files sample_indexer ''/tmp/i'' old ''c1'' False w) \<noteq> Inr []" for old w
    by (simp add: git_diff_files_def sample_indexer_def io_bind_run io_try_run io_ret_run str_splitlines_def is_line_break_def str_strip_def
        str_lstrip_def str_rstrip_def is_space_def)
  ultimately show ?thesis by (auto simp: indexable_def sample_indexer_def io_ret_run)
qed


section \<open>From the sync worker's event to an indexing job\<close>

context redis_server
begin

lemma rpush_run:
  assumes "healthy s" "rlist_ok (view s) k"
  obtains n s' where "x_rpush E k v s = (Inr n, s')" "healthy s'" "rlist (view s') k = rlist (view s) k @ [v]"
proof -
  have law: "sim view healthy (x_rpush E k v) (x_rpush (model_env E ord) k v)" by (rule command_laws)
  obtain xs where xs: "as_list (rlook (view s) k) = Some xs" using assms(2) by (auto simp: rlist_ok_def)
  then have "x_rpush (model_env E ord) k v (view s) = (Inr (length (xs @ [v])), rstore k (RList (xs @ [v])) (view s))"
    by (simp add: model_env_def redis_simps r_rpush_def Let_def)
  from sim_run [OF law assms(1) this] that xs show thesis by (auto simp: rlist_def redis_simps)
qed

lemma sync_event_run:
  assumes "ix_redis I = E" "healthy s" "rlist_ok (view s) QUEUE_KEY" "event_verdict (x_loads E) repo ref m = Complete" "repo \<noteq> []"
  shows "\<exists>s'. handle_sync_event I m s = (Inr (), s') \<and> rlist (view s') QUEUE_KEY = rlist (view s) QUEUE_KEY @
    [x_dumps E (JObj [(''repo'', JStr repo), (''ref'', JStr ref), (''trigger'', JStr ''repo_sync'')])]"
proof -
  let ?job = "JObj [(''repo'', JStr repo), (''ref'', JStr ref), (''trigger'', JStr ''repo_sync'')]"
  obtain s' n where s': "x_rpush E QUEUE_KEY (x_dumps E ?job) s = (Inr n, s')"
    "rlist (view s') QUEUE_KEY = rlist (view s) QUEUE_KEY @ [x_dumps E ?job]"
    using rpush_run [OF assms(2,3)] by metis
  have "cm_type m = ''message''" and "sync_event_job (x_loads E) (cm_data m) = Inr (Some ?job)"
    using assms(4,5) by (auto simp: event_verdict_def sync_event_job_def split: option.splits json.splits if_splits)
  with s' assms(1) show ?thesis
    by (auto simp: handle_sync_event_def io_try_run io_bind_run io_of_result_run io_then_run io_ret_run)
qed

end

text \<open>
  An event that tells the waiting jobs that a repository is synchronised makes the indexing
  worker queue exactly one request for the same repository and reference, behind those that wait.
\<close>

theorem sync_completion_queues_indexing:
  assumes "redis_server E view healthy ord" "healthy s" "ix_redis I = E" "rlist_ok (view s) QUEUE_KEY"
    and "event_verdict (x_loads E) repo ref m = Complete" "repo \<noteq> []"
  shows "\<exists>s'. handle_sync_event I m s = (Inr (), s') \<and> rlist (view s') QUEUE_KEY = rlist (view s) QUEUE_KEY @
    [x_dumps E (JObj [(''repo'', JStr repo), (''ref'', JStr ref), (''trigger'', JStr ''repo_sync'')])]"
  using redis_server.sync_event_run [OF assms(1,3,2,4-6)] .

theorem sync_completion_queues_indexing_witness:
  "rlist (fk_state (snd (handle_sync_event sample_indexer \<lparr>cm_type = ''message'',
      cm_data = print_json (JObj [(''repo'', JStr ''o/r''), (''ref'', JStr ''main''), (''status'', JStr ''complete'')])\<rparr> sample_world)))
    QUEUE_KEY = [print_json (JObj [(''repo'', JStr ''o/r''), (''ref'', JStr ''main''), (''trigger'', JStr ''repo_sync'')])]"
proof -
  let ?m = "\<lparr>cm_type = ''message'', cm_data = print_json (JObj [(''repo'', JStr ''o/r''), (''ref'', JStr ''main''), (''status'', JStr ''complete'')])\<rparr>"
  have "parse_json (cm_data ?m) = Some (JObj [(''repo'', JStr ''o/r''), (''ref'', JStr ''main''), (''status'', JStr ''complete'')])"
    by (simp only: channel_message.simps, rule parse_print_json) simp
  then have "event_verdict (x_loads flaky_env) ''o/r'' ''main'' ?m = Complete"
    by (simp add: event_verdict_def flaky_env_def)
  moreover have "rlist_ok (fk_state sample_world) QUEUE_KEY" "rlist (fk_state sample_world) QUEUE_KEY = []"
    by (simp_all add: rlist_ok_def rlist_def sample_world_def empty_keyspace_def rlook_def)
  moreover have "x_dumps flaky_env = print_json" by (simp add: flaky_env_def)
  ultimately show ?thesis
    using sync_completion_queues_indexing [OF flaky.redis_server_axioms, of sample_world sample_indexer "''o/r''" "''main''" ?m]
    by (auto simp: sample_world_def sample_indexer_def simp del: print_json.simps)
qed

section \<open>What is lost\<close>

text \<open>
  A diff that git cannot make, for instance because the recorded commit is gone, is taken for no
  changes: the new commit is recorded as indexed and announced as complete.
\<close>

lemma failed_diff_marks_indexed:
  assumes "get_commit_hash I dir s = (Inr commit, s1)" "get_previous_commit R repo ref s1 = (Inr (Some old), s2)" "old \<noteq> []" "old \<noteq> commit"
    and "\<And>args w. hd args = ''diff'' \<Longrightarrow> ix_git I (Some dir) args w = (Inr (128, [], ''bad object''), w)"
  shows "index_worktree I R repo ref dir s =
    io_then (update_indexing_metadata R repo commit 0 ref) (publish_indexing_event R (JStr repo) (JStr ref) ''complete'' []) s2"
  using assms by (simp add: index_worktree_def git_diff_files_def io_bind_run io_try_run io_ret_run)

text \<open>
  When a commit only deletes files, nothing is deleted from the index, the commit is not recorded and
  no event is sent; the code graph, meanwhile, is built anew.
\<close>

lemma deletions_not_indexed:
  "index_chunks I R repo ref dir commit (Some []) removed =
    io_then (io_try (build_code_graph I dir repo None) (\<lambda>e. io_ret ()))
    (io_then (io_try (build_route_maps I dir repo) (\<lambda>e. io_ret ()))
    (io_then (ix_ignore_spec I dir) (io_ret ())))"
  by (simp add: index_chunks_def chunk_repo_def build_code_graph_def io_then_def io_bind_assoc fun_eq_iff io_bind_run io_ret_run
      split: prod.split sum.split)

text \<open>
  A failure inside a job is announced and goes no further, so that the retries and the dead-letter
  queue of the main loop only see failures to reach the database.
\<close>

lemma indexing_never_retried:
  assumes "ix_ensure I s = (Inr (), s1)" "\<And>d w. fst (ix_rmtree I d w) = Inr ()"
  shows "fst (process_indexing_job I R message s) = Inr ()"
proof -
  have publish: "\<exists>w'. publish_indexing_event R r f st e w = (Inr (), w')" for r f st e w
    by (cases R; cases "publish_indexing_event R r f st e w")
      (auto simp: publish_indexing_event_def io_ret_run io_try_run split: prod.splits sum.splits)
  have cleanup: "\<exists>w'. cleanup_worktree I rp d w = (Inr (), w')" for rp d w
    using assms(2) by (auto simp: cleanup_worktree_def io_then_run io_try_run io_ret_run split: prod.splits sum.splits)
      (metis prod.collapse)+
  have body: "\<exists>w'. io_try (index_worktree I R rp f d) (\<lambda>e. publish_indexing_event R rj fj ''error'' (exc_msg e)) w = (Inr (), w')" for rp f d rj fj w
    using publish by (auto simp: io_try_run split: prod.splits sum.splits)
  have "\<exists>w'. index_repository I R rj fj w = (Inr (), w')" for rj fj w
  proof -
    let ?create = "io_try (index_create_worktree I rj fj) (\<lambda>e. io_then (publish_indexing_event R rj fj ''error'' (exc_msg e)) (io_ret None))"
    obtain r1 w1 where c: "index_create_worktree I rj fj w = (r1, w1)" by (cases "index_create_worktree I rj fj w")
    have "\<exists>wt w2. ?create w = (Inr wt, w2)"
    proof (cases r1)
      case (Inl e)
      obtain w2 where "publish_indexing_event R rj fj ''error'' (exc_msg e) w1 = (Inr (), w2)" using publish by blast
      with c Inl show ?thesis by (simp add: io_try_run io_then_run io_ret_run)
    next
      case (Inr x)
      with c show ?thesis by (simp add: io_try_run)
    qed
    then obtain wt w2 where 2: "?create w = (Inr wt, w2)" by blast
    show ?thesis
    proof (cases wt)
      case None
      with 2 show ?thesis by (simp add: index_repository_def io_bind_run io_ret_run)
    next
      case (Some d)
      let ?body = "io_try (index_worktree I R (py_str rj) (py_str fj) d) (\<lambda>e. publish_indexing_event R rj fj ''error'' (exc_msg e))"
      obtain w3 where 3: "?body w2 = (Inr (), w3)" using body by blast
      obtain w4 where "cleanup_worktree I (py_str rj) d w3 = (Inr (), w4)" using cleanup by blast
      with 2 3 Some show ?thesis by (simp add: index_repository_def io_bind_run [of ?create] io_finally_def)
    qed
  qed
  then show ?thesis using assms(1) by (auto simp: process_indexing_job_def Let_def io_ret_run io_then_run) (metis fst_conv)
qed

end
