(* ===== verification/Transcript_Parser.thy ===== *)
theory Transcript_Parser
  imports Json_Text "HOL-Library.List_Lexorder"
begin

text \<open>
  \<^verbatim>\<open>shared/transcript_parser.py\<close>: what the memory worker, the retrospector and a resumed
  session read from a transcript. A transcript is the lines of its file and the exception, if any, with
  which reading it ends; \<open>dumps\<close> and \<open>loads\<close> are the JSON module. A set of strings is a list
  without duplicates.
\<close>

section \<open>Entries\<close>

record transcript =
  ts_exists :: bool
  ts_lines :: "string list"
  ts_failure :: "exn option"

definition no_transcript :: transcript where
  "no_transcript = \<lparr>ts_exists = False, ts_lines = [], ts_failure = None\<rparr>"

text \<open>The parsed lines; blank lines and malformed JSON are skipped.\<close>

definition transcript_entries :: "(string \<Rightarrow> json option) \<Rightarrow> transcript \<Rightarrow> json list" where
  "transcript_entries loads t =
     (if ts_exists t then List.map_filter (\<lambda>line. if str_strip line = [] then None else loads (str_strip line)) (ts_lines t) else [])"

definition read_failure :: "transcript \<Rightarrow> exn option" where
  "read_failure t = (if ts_exists t then ts_failure t else None)"

text \<open>The role and the content of an entry; none for the internal telemetry.\<close>

definition entry_header :: "json \<Rightarrow> (json \<times> json) option result" where
  "entry_header entry =
     res_bind (jget entry ''type'' JNull) (\<lambda>entry_type.
       if entry_type = JStr ''queue-operation'' then Inr None
       else
         res_bind (jget entry ''message'' (JObj [])) (\<lambda>msg.
         res_bind (jget msg ''role'' JNull) (\<lambda>role.
         res_bind (jget msg ''content'' (JStr [])) (\<lambda>content. Inr (Some (py_or role entry_type, content))))))"

fun is_dict :: "json \<Rightarrow> bool" where
  "is_dict (JObj d) = True" | "is_dict _ = False"

text \<open>\<open>sep.join(xs)\<close> on values, \<open>xs[:n]\<close> on a value.\<close>

fun join_values :: "string \<Rightarrow> json list \<Rightarrow> string result" where
  "join_values sep xs =
     res_bind (res_map (\<lambda>x. case x of JStr s \<Rightarrow> Inr s | _ \<Rightarrow> Inl (Exn TypeError ''sequence item: expected str instance'')) xs)
       (\<lambda>ss. Inr (str_join sep ss))"

fun slice_value :: "nat \<Rightarrow> json \<Rightarrow> json result" where
  "slice_value n (JStr s) = Inr (JStr (take n s))"
| "slice_value n (JArr xs) = Inr (JArr (take n xs))"
| "slice_value n _ = Inl (Exn TypeError ''object is not subscriptable'')"

definition tool_result_text :: "json \<Rightarrow> string result" where
  "tool_result_text block =
     res_bind (jget block ''content'' (JStr [])) (\<lambda>inner. case inner of
         JArr bs \<Rightarrow> res_bind (res_map (\<lambda>b. jget b ''text'' (JStr [])) (filter is_dict bs)) (join_values '' '')
       | _ \<Rightarrow> Inr (py_str inner))"

section \<open>The conversation\<close>

definition user_block :: "json \<Rightarrow> string list result" where
  "user_block block =
     (if \<not> is_dict block then Inr []
      else
        res_bind (jget block ''type'' JNull) (\<lambda>ty.
          if ty = JStr ''tool_result'' then
            res_bind (tool_result_text block) (\<lambda>t. Inr [''Tool result: '' @ take 500 t])
          else if ty = JStr ''text'' then res_bind (jget block ''text'' (JStr [])) (\<lambda>t. Inr [''User: '' @ py_str t])
          else Inr []))"

definition assistant_lines :: "(json \<Rightarrow> string) \<Rightarrow> json \<Rightarrow> string list result" where
  "assistant_lines dumps block =
     (if \<not> is_dict block then Inr []
      else
        res_bind (jget block ''type'' JNull) (\<lambda>ty.
          if ty = JStr ''text'' then res_bind (jget block ''text'' (JStr [])) (\<lambda>t. Inr [''Assistant: '' @ py_str t])
          else if ty = JStr ''tool_use'' then
            res_bind (jget block ''input'' (JObj [])) (\<lambda>input.
            res_bind (jget block ''name'' JNull) (\<lambda>name. Inr
              [''Tool call: '' @ py_str name @ ''('' @ take 300 (dumps input) @ '')'']))
          else Inr []))"

text \<open>What is written until the first exception, and whether there was one.\<close>

fun until_error :: "('a \<Rightarrow> 'b list \<times> bool) \<Rightarrow> 'a list \<Rightarrow> 'b list \<times> bool" where
  "until_error f [] = ([], False)"
| "until_error f (x # xs) =
     (case f x of (ys, failed) \<Rightarrow>
        if failed then (ys, True) else (case until_error f xs of (zs, failed) \<Rightarrow> (ys @ zs, failed)))"

definition or_stop :: "'b list result \<Rightarrow> 'b list \<times> bool" where
  "or_stop r = (case r of Inl e \<Rightarrow> ([], True) | Inr ys \<Rightarrow> (ys, False))"

definition entry_conversation :: "(json \<Rightarrow> string) \<Rightarrow> json \<Rightarrow> string list \<times> bool" where
  "entry_conversation dumps entry =
     (case entry_header entry of
        Inl e \<Rightarrow> ([], True)
      | Inr None \<Rightarrow> ([], False)
      | Inr (Some (role, content)) \<Rightarrow>
          if role = JStr ''user'' then
            (case content of
               JStr s \<Rightarrow> ([''User: '' @ s], False)
             | JArr blocks \<Rightarrow> until_error (\<lambda>b. or_stop (user_block b)) blocks
             | _ \<Rightarrow> ([], False))
          else if role = JStr ''assistant'' then
            (case content of
               JArr blocks \<Rightarrow> until_error (\<lambda>b. or_stop (assistant_lines dumps b)) blocks
             | _ \<Rightarrow> ([], False))
          else ([], False))"

definition extract_conversation :: "(json \<Rightarrow> string) \<Rightarrow> (string \<Rightarrow> json option) \<Rightarrow> transcript \<Rightarrow> string" where
  "extract_conversation dumps loads t = str_join nl (fst (until_error (entry_conversation dumps) (transcript_entries loads t)))"

section \<open>The summary for the retrospector\<close>

record retro_state =
  rs_lines :: "string list"
  rs_turns :: nat
  rs_errors :: "string list"
  rs_subagents :: "string list"

definition turn_mark :: "retro_state \<Rightarrow> string" where
  "turn_mark st = ''[Turn '' @ show_nat (rs_turns st) @ ''] ''"

definition add_line :: "string \<Rightarrow> retro_state \<Rightarrow> retro_state" where
  "add_line l st = st\<lparr>rs_lines := rs_lines st @ [l]\<rparr>"

definition retro_user_block :: "json \<Rightarrow> retro_state \<Rightarrow> retro_state result" where
  "retro_user_block block st =
     (if \<not> is_dict block then Inr st
      else
        res_bind (jget block ''type'' JNull) (\<lambda>ty.
          if ty = JStr ''tool_result'' then
            res_bind (jget block ''tool_use_id'' (JStr [])) (\<lambda>tool_id.
            res_bind (jget block ''is_error'' (JBool False)) (\<lambda>is_error.
            res_bind (tool_result_text block) (\<lambda>t. Inr
              (if py_truthy is_error
               then (add_line (turn_mark st @ ''Tool ERROR: '' @ take 300 t) st)
                 \<lparr>rs_errors := rs_errors st @ [''Tool '' @ py_str tool_id @ '': '' @ take 300 t]\<rparr>
               else add_line (turn_mark st @ ''Tool result: '' @ take 300 t) st))))
          else if ty = JStr ''text'' then
            res_bind (jget block ''text'' (JStr [])) (\<lambda>t.
            res_bind (slice_value 500 t) (\<lambda>t. Inr (add_line (turn_mark st @ ''User: '' @ py_str t) st)))
          else Inr st))"

definition subagent_of :: "json \<Rightarrow> string result" where
  "subagent_of input =
     res_bind (jget input ''name'' (JStr ''unknown'')) (\<lambda>name.
     res_bind (jget input ''subagent_type'' name) (\<lambda>ty. Inr (py_str name @ '' ('' @ py_str ty @ '')'')))"

definition retro_assistant_block :: "(json \<Rightarrow> string) \<Rightarrow> json \<Rightarrow> retro_state \<Rightarrow> retro_state result" where
  "retro_assistant_block dumps block st =
     (if \<not> is_dict block then Inr st
      else
        res_bind (jget block ''type'' JNull) (\<lambda>ty.
          if ty = JStr ''text'' then
            res_bind (jget block ''text'' (JStr [])) (\<lambda>t.
            res_bind (slice_value 500 t) (\<lambda>t. Inr (add_line (nl @ turn_mark st @ ''Assistant: '' @ py_str t) st)))
          else if ty = JStr ''tool_use'' then
            res_bind (jget block ''name'' (JStr [])) (\<lambda>tool_name.
            res_bind (jget block ''input'' (JObj [])) (\<lambda>input.
            res_bind (if tool_name = JStr ''Agent'' then res_bind (subagent_of input) (\<lambda>a. Inr (List.insert a (rs_subagents st)))
                      else Inr (rs_subagents st)) (\<lambda>agents. Inr
              ((add_line (turn_mark st @ ''Tool call: '' @ py_str tool_name @ ''('' @ take 200 (dumps input) @ '')'') st)
                 \<lparr>rs_subagents := agents\<rparr>))))
          else Inr st))"

fun res_fold :: "('a \<Rightarrow> 'c \<Rightarrow> 'c result) \<Rightarrow> 'a list \<Rightarrow> 'c \<Rightarrow> 'c result" where
  "res_fold f [] acc = Inr acc"
| "res_fold f (x # xs) acc = res_bind (f x acc) (res_fold f xs)"

definition retro_entry :: "(json \<Rightarrow> string) \<Rightarrow> json \<Rightarrow> retro_state \<Rightarrow> retro_state result" where
  "retro_entry dumps entry st =
     res_bind (entry_header entry) (\<lambda>h. case h of
         None \<Rightarrow> Inr st
       | Some (role, content) \<Rightarrow>
           if role = JStr ''user'' then
             (case content of
                JStr s \<Rightarrow> Inr (add_line (nl @ turn_mark st @ ''User: '' @ take 500 s) st)
              | JArr blocks \<Rightarrow> res_fold retro_user_block blocks st
              | _ \<Rightarrow> Inr st)
           else if role = JStr ''assistant'' then
             (let st = st\<lparr>rs_turns := Suc (rs_turns st)\<rparr> in
              case content of JArr blocks \<Rightarrow> res_fold (retro_assistant_block dumps) blocks st | _ \<Rightarrow> Inr st)
           else Inr st)"

definition retro_text :: "retro_state \<Rightarrow> string" where
  "retro_text st =
     ''# Session Transcript Summary'' @ nl @ nl @
     ''**Total turns:** '' @ show_nat (rs_turns st) @ nl @
     ''**Tool errors:** '' @ show_nat (length (rs_errors st)) @ nl @
     ''**Subagents invoked:** '' @ (if rs_subagents st \<noteq> [] then str_join '', '' (sort (rs_subagents st)) else ''none'') @ nl @ nl @
     ''## Detailed Timeline'' @ nl @ nl @ concat (rs_lines st) @ nl @ nl @
     ''## Tool Errors Summary'' @ nl @ nl @
     (if rs_errors st \<noteq> [] then str_join nl (map (\<lambda>e. ''- '' @ e) (rs_errors st)) else ''No tool errors'') @ nl"

definition extract_retrospector_summary :: "(json \<Rightarrow> string) \<Rightarrow> (string \<Rightarrow> json option) \<Rightarrow> transcript \<Rightarrow> string option" where
  "extract_retrospector_summary dumps loads t =
     (if \<not> ts_exists t then None
      else
        (case res_fold (retro_entry dumps) (transcript_entries loads t)
                \<lparr>rs_lines = [], rs_turns = 0, rs_errors = [], rs_subagents = []\<rparr> of
           Inl e \<Rightarrow> None
         | Inr st \<Rightarrow> if read_failure t = None then Some (retro_text st) else None))"

section \<open>The summary for a resumed session\<close>

record digest_state =
  dg_turns :: nat
  dg_examined :: "json list"
  dg_modified :: "json list"
  dg_tools :: "json list"
  dg_action :: string
  dg_queries :: "json list"
  dg_responses :: "json list"

definition empty_digest :: digest_state where
  "empty_digest = \<lparr>dg_turns = 0, dg_examined = [], dg_modified = [], dg_tools = [], dg_action = [],
                   dg_queries = [], dg_responses = []\<rparr>"

text \<open>\<open>key in value\<close>, \<open>value[key]\<close>, \<open>len(value)\<close> and \<open>set.add\<close>, which raise on a value of the
  wrong type. A set of values is a list without equal ones.\<close>

fun value_contains :: "string \<Rightarrow> json \<Rightarrow> bool result" where
  "value_contains k (JObj d) = Inr (dict_get d k \<noteq> None)"
| "value_contains k (JArr xs) = Inr (py_in_list (JStr k) xs)"
| "value_contains k (JStr s) = Inr (str_contains k s)"
| "value_contains k _ = Inl (Exn TypeError ''argument is not iterable'')"

fun value_item :: "json \<Rightarrow> string \<Rightarrow> json result" where
  "value_item (JObj d) k = (case dict_get d k of None \<Rightarrow> Inl (Exn KeyError k) | Some v \<Rightarrow> Inr v)"
| "value_item _ k = Inl (Exn TypeError ''indices must be integers'')"

fun value_len :: "json \<Rightarrow> nat result" where
  "value_len (JObj d) = Inr (length d)"
| "value_len (JArr xs) = Inr (length xs)"
| "value_len (JStr s) = Inr (length s)"
| "value_len _ = Inl (Exn TypeError ''object has no len()'')"

fun set_add :: "json \<Rightarrow> json list \<Rightarrow> json list result" where
  "set_add (JObj d) xs = Inl (Exn TypeError ''unhashable type'')"
| "set_add (JArr a) xs = Inl (Exn TypeError ''unhashable type'')"
| "set_add v xs = Inr (if py_in_list v xs then xs else v # xs)"

text \<open>\<open>xs[-n:]\<close>, and \<open>', '.join(sorted(xs)[-n:])\<close>: strings only compare with strings, and only
  strings are joined, so one other value raises \<open>TypeError\<close>.\<close>

definition final_n :: "nat \<Rightarrow> 'a list \<Rightarrow> 'a list" where
  "final_n n xs = drop (length xs - n) xs"

fun is_str :: "json \<Rightarrow> bool" where
  "is_str (JStr s) = True" | "is_str _ = False"

definition sorted_join :: "nat option \<Rightarrow> json list \<Rightarrow> string result" where
  "sorted_join limit xs =
     (if \<not> list_all is_str xs then Inl (Exn TypeError ''not supported between instances'')
      else let ss = sort (map py_str xs)
           in Inr (str_join '', '' (case limit of None \<Rightarrow> ss | Some n \<Rightarrow> final_n n ss)))"

definition digest_query :: "json \<Rightarrow> digest_state \<Rightarrow> digest_state result" where
  "digest_query block st =
     (if \<not> is_dict block then Inr st
      else
        res_bind (jget block ''type'' JNull) (\<lambda>ty.
          if ty = JStr ''text'' then
            res_bind (jget block ''text'' (JStr [])) (\<lambda>t.
            res_bind (slice_value 200 t) (\<lambda>t. Inr (st\<lparr>dg_queries := dg_queries st @ [t]\<rparr>)))
          else Inr st))"

text \<open>What a call of a tool says of the files and of the last action.\<close>

definition digest_tool :: "json \<Rightarrow> json \<Rightarrow> digest_state \<Rightarrow> digest_state result" where
  "digest_tool tool_name tool_input st =
     res_bind (if tool_name = JStr ''Read'' then value_contains ''file_path'' tool_input else Inr False) (\<lambda>reads.
       if reads then
         res_bind (value_item tool_input ''file_path'') (\<lambda>path.
         res_bind (set_add path (dg_examined st)) (\<lambda>fs. Inr
           (st\<lparr>dg_examined := fs, dg_action := ''Read '' @ py_str path\<rparr>)))
       else
         res_bind (if tool_name \<in> {JStr ''Edit'', JStr ''Write''} then value_contains ''file_path'' tool_input
                   else Inr False) (\<lambda>writes.
           if writes then
             res_bind (value_item tool_input ''file_path'') (\<lambda>path.
             res_bind (set_add path (dg_modified st)) (\<lambda>fs. Inr
               (st\<lparr>dg_modified := fs, dg_action := py_str tool_name @ '' '' @ py_str path\<rparr>)))
           else if tool_name = JStr ''Bash'' then
             res_bind (jget tool_input ''command'' (JStr [])) (\<lambda>cmd.
             res_bind (slice_value 100 cmd) (\<lambda>cmd. Inr (st\<lparr>dg_action := ''Bash: '' @ py_str cmd\<rparr>)))
           else if tool_name = JStr ''Agent'' then
             res_bind (jget tool_input ''name'' (JStr ''unknown'')) (\<lambda>name. Inr
               (st\<lparr>dg_action := ''Agent: '' @ py_str name\<rparr>))
           else Inr (st\<lparr>dg_action := py_str tool_name\<rparr>)))"

definition digest_block :: "json \<Rightarrow> digest_state \<Rightarrow> digest_state result" where
  "digest_block block st =
     (if \<not> is_dict block then Inr st
      else
        res_bind (jget block ''type'' JNull) (\<lambda>ty.
          if ty = JStr ''text'' then
            res_bind (jget block ''text'' (JStr [])) (\<lambda>t.
            res_bind (if py_truthy t then res_bind (slice_value 300 t) (\<lambda>t. Inr (dg_responses st @ [t]))
                      else Inr (dg_responses st)) (\<lambda>rs.
            res_bind (value_len t) (\<lambda>n. Inr
              (st\<lparr>dg_responses := rs, dg_action := ''Assistant response ('' @ show_nat n @ '' chars)''\<rparr>))))
          else if ty = JStr ''tool_use'' then
            res_bind (jget block ''name'' (JStr [])) (\<lambda>tool_name.
            res_bind (set_add tool_name (dg_tools st)) (\<lambda>ts.
            res_bind (jget block ''input'' (JObj [])) (\<lambda>tool_input.
              digest_tool tool_name tool_input (st\<lparr>dg_tools := ts\<rparr>))))
          else Inr st))"

definition digest_entry :: "json \<Rightarrow> digest_state \<Rightarrow> digest_state result" where
  "digest_entry entry st =
     res_bind (entry_header entry) (\<lambda>h. case h of
         None \<Rightarrow> Inr st
       | Some (role, content) \<Rightarrow>
           if role = JStr ''user'' then
             (case content of
                JStr s \<Rightarrow> Inr (st\<lparr>dg_queries := dg_queries st @ [JStr (take 200 s)]\<rparr>)
              | JArr blocks \<Rightarrow> res_fold digest_query blocks st
              | _ \<Rightarrow> Inr st)
           else if role = JStr ''assistant'' then
             (let st = st\<lparr>dg_turns := Suc (dg_turns st)\<rparr> in
              case content of JArr blocks \<Rightarrow> res_fold digest_block blocks st | _ \<Rightarrow> Inr st)
           else Inr st)"

text \<open>A part of the digest, only when there is something to say.\<close>

definition part_if :: "bool \<Rightarrow> string \<Rightarrow> string result \<Rightarrow> string list result" where
  "part_if present label r = (if present then res_bind r (\<lambda>s. Inr [label @ s]) else Inr [])"

definition digest_parts :: "digest_state \<Rightarrow> string list result" where
  "digest_parts st =
     res_bind (part_if (dg_queries st \<noteq> []) ''User queries: '' (join_values ''; '' (final_n 5 (dg_queries st)))) (\<lambda>qs.
     res_bind (part_if (dg_examined st \<noteq> []) ''Files examined: '' (sorted_join (Some 20) (dg_examined st))) (\<lambda>es.
     res_bind (part_if (dg_modified st \<noteq> []) ''Files modified: '' (sorted_join (Some 10) (dg_modified st))) (\<lambda>ms.
     res_bind (part_if (dg_tools st \<noteq> []) ''Tools used: '' (sorted_join None (dg_tools st))) (\<lambda>ts.
     res_bind (part_if (dg_action st \<noteq> []) ''Last action: '' (Inr (dg_action st))) (\<lambda>acts.
     res_bind (part_if (dg_responses st \<noteq> []) ''Last response excerpt: ''
                 (res_bind (slice_value 500 (List.last (dg_responses st))) (\<lambda>t. Inr (py_str t)))) (\<lambda>rs.
       Inr ([''Conversation had '' @ show_nat (dg_turns st) @ '' turns.''] @ qs @ es @ ms @ ts @ acts @ rs)))))))"

definition extract_conversation_summary :: "(string \<Rightarrow> json option) \<Rightarrow> transcript \<Rightarrow> string option result" where
  "extract_conversation_summary loads t =
     (case res_fold digest_entry (transcript_entries loads t) empty_digest of
        Inl e \<Rightarrow> Inr None
      | Inr st \<Rightarrow>
          if read_failure t \<noteq> None \<or> dg_turns st = 0 then Inr None
          else res_bind (digest_parts st) (\<lambda>parts. Inr (Some (str_join nl parts))))"

section \<open>Folds that may raise\<close>

declare res_bind_Inr_iff [simp]

lemma res_fold_keeps:
  assumes "res_fold f xs acc = Inr acc'" "P acc"
    and "\<And>x a a'. x \<in> set xs \<Longrightarrow> f x a = Inr a' \<Longrightarrow> P a \<Longrightarrow> P a'"
  shows "P acc'"
  using assms by (induction xs arbitrary: acc) auto

lemma res_fold_counts:
  assumes "res_fold f xs acc = Inr acc'"
    and "\<And>x a a'. f x a = Inr a' \<Longrightarrow> n a' = n a + (if p x then 1 else 0 :: nat)"
  shows "n acc' = n acc + length (filter p xs)"
  using assms(1) by (induction xs arbitrary: acc) (auto dest!: assms(2))

lemma res_fold_returns:
  assumes "P acc"
    and "\<And>x a. x \<in> set xs \<Longrightarrow> P a \<Longrightarrow> \<exists>a'. f x a = Inr a' \<and> P a' \<and> n a' = n a + (if p x then 1 else 0 :: nat)"
  shows "\<exists>acc'. res_fold f xs acc = Inr acc' \<and> P acc' \<and> n acc' = n acc + length (filter p xs)"
  using assms
proof (induction xs arbitrary: acc)
  case (Cons x xs)
  obtain a where a: "f x acc = Inr a" "P a" "n a = n acc + (if p x then 1 else 0)"
    using Cons.prems(2) [of x acc] Cons.prems(1) by auto
  obtain a' where "res_fold f xs a = Inr a'" "P a'" "n a' = n a + length (filter p xs)"
    using Cons.IH [OF a(2)] Cons.prems(2) by fastforce
  then show ?case using a by (auto simp: res_bind_def)
qed simp

lemma until_error_first:
  "fst (until_error f xs) =
     concat (map (fst \<circ> f) (takeWhile (\<lambda>x. \<not> snd (f x)) xs @ take 1 (dropWhile (\<lambda>x. \<not> snd (f x)) xs)))"
  by (induction xs) (auto split: prod.splits)

section \<open>What the summaries count\<close>

definition assistant_entry :: "json \<Rightarrow> bool" where
  "assistant_entry entry = (case entry_header entry of Inr (Some (role, content)) \<Rightarrow> role = JStr ''assistant'' | _ \<Rightarrow> False)"

lemma retro_user_block_turns: "retro_user_block b st = Inr st' \<Longrightarrow> rs_turns st' = rs_turns st"
  by (auto simp: retro_user_block_def add_line_def split: if_splits)

lemma retro_assistant_block_turns: "retro_assistant_block dumps b st = Inr st' \<Longrightarrow> rs_turns st' = rs_turns st"
  by (auto simp: retro_assistant_block_def add_line_def split: if_splits)

lemma retro_blocks_turns:
  "res_fold retro_user_block bs st = Inr st' \<Longrightarrow> rs_turns st' = rs_turns st"
  "res_fold (retro_assistant_block dumps) bs st = Inr st' \<Longrightarrow> rs_turns st' = rs_turns st"
  by (erule res_fold_keeps [where P = "\<lambda>s. rs_turns s = rs_turns st"];
      simp add: retro_user_block_turns retro_assistant_block_turns)+

definition next_turn :: "retro_state \<Rightarrow> retro_state" where
  "next_turn st = st\<lparr>rs_turns := Suc (rs_turns st)\<rparr>"

lemma retro_entry_cases:
  assumes "retro_entry dumps e st = Inr st'"
  obtains (other) "\<not> assistant_entry e" "st' = st"
  | (user) l where "\<not> assistant_entry e" "st' = add_line l st"
  | (user_blocks) bs where "\<not> assistant_entry e" "res_fold retro_user_block bs st = Inr st'"
  | (assistant) bs where "assistant_entry e" "res_fold (retro_assistant_block dumps) bs (next_turn st) = Inr st'"
proof -
  obtain h where h: "entry_header e = Inr h" using assms by (cases "entry_header e") (simp_all add: retro_entry_def)
  show thesis
  proof (cases h)
    case None
    then show thesis using assms h other by (simp add: retro_entry_def assistant_entry_def)
  next
    case (Some rc)
    obtain role content where rc: "rc = (role, content)" by (cases rc)
    note eqs = h Some rc
    consider "role = JStr ''assistant''" | "role = JStr ''user''"
      | "role \<noteq> JStr ''user''" "role \<noteq> JStr ''assistant''" by blast
    then show thesis
    proof cases
      case 1
      then show thesis
        using assms eqs assistant [of "[]"] assistant
        by (cases content) (simp_all add: retro_entry_def assistant_entry_def next_turn_def)
    next
      case 2
      then show thesis
        using assms eqs other user user_blocks
        by (cases content) (simp_all add: retro_entry_def assistant_entry_def, blast)
    next
      case 3
      then show thesis using assms eqs other by (simp add: retro_entry_def assistant_entry_def)
    qed
  qed
qed

lemma retro_entry_turns:
  "retro_entry dumps e st = Inr st' \<Longrightarrow> rs_turns st' = rs_turns st + (if assistant_entry e then 1 else 0)"
  by (erule retro_entry_cases) (auto simp: add_line_def next_turn_def dest: retro_blocks_turns)

text \<open>An error that is summarised stands in the timeline, in the turn in which it happened.\<close>

definition error_in_timeline :: "retro_state \<Rightarrow> string \<Rightarrow> bool" where
  "error_in_timeline st m \<longleftrightarrow>
     (\<exists>i t k. m = ''Tool '' @ i @ '': '' @ t \<and> k \<le> rs_turns st
        \<and> ''[Turn '' @ show_nat k @ ''] Tool ERROR: '' @ t \<in> set (rs_lines st))"

definition errors_shown :: "retro_state \<Rightarrow> bool" where
  "errors_shown st \<longleftrightarrow> (\<forall>m \<in> set (rs_errors st). error_in_timeline st m)"

lemma error_in_timeline_mono:
  "error_in_timeline st m \<Longrightarrow> set (rs_lines st) \<subseteq> set (rs_lines st') \<Longrightarrow> rs_turns st \<le> rs_turns st' \<Longrightarrow>
   error_in_timeline st' m"
  unfolding error_in_timeline_def by (elim exE conjE) (intro exI conjI, assumption, erule (1) le_trans, erule (1) rev_subsetD)

lemma errors_shown_mono:
  "errors_shown st \<Longrightarrow> rs_errors st' = rs_errors st \<Longrightarrow> set (rs_lines st) \<subseteq> set (rs_lines st') \<Longrightarrow>
   rs_turns st \<le> rs_turns st' \<Longrightarrow> errors_shown st'"
  unfolding errors_shown_def by (metis error_in_timeline_mono)

lemma errors_shown_user:
  assumes "retro_user_block b st = Inr st'" "errors_shown st"
  shows "errors_shown st'"
proof (cases "rs_errors st' = rs_errors st")
  case True
  then show ?thesis
    using assms by (auto intro!: errors_shown_mono [OF assms(2)] simp: retro_user_block_def add_line_def split: if_splits)
next
  case False
  then obtain i t where st': "st' = (add_line (turn_mark st @ ''Tool ERROR: '' @ t) st)
      \<lparr>rs_errors := rs_errors st @ [''Tool '' @ i @ '': '' @ t]\<rparr>"
    using assms(1) by (auto simp: retro_user_block_def add_line_def split: if_splits)
  have "error_in_timeline st' (''Tool '' @ i @ '': '' @ t)"
    unfolding error_in_timeline_def st' by (auto simp: add_line_def turn_mark_def intro!: exI [of _ "rs_turns st"])
  moreover have "error_in_timeline st' m" if "m \<in> set (rs_errors st)" for m
    using assms(2) that by (auto simp: errors_shown_def st' add_line_def intro: error_in_timeline_mono)
  ultimately show ?thesis unfolding errors_shown_def by (auto simp: st')
qed

lemma errors_shown_assistant:
  assumes "retro_assistant_block dumps b st = Inr st'" "errors_shown st"
  shows "errors_shown st'"
  using assms(1) by (auto intro!: errors_shown_mono [OF assms(2)] simp: retro_assistant_block_def add_line_def split: if_splits)

lemma errors_shown_entry:
  assumes "retro_entry dumps e st = Inr st'" "errors_shown st"
  shows "errors_shown st'"
proof -
  have turn: "errors_shown (next_turn st)"
    by (rule errors_shown_mono [OF assms(2)]) (simp_all add: next_turn_def)
  have line: "errors_shown (add_line l st)" for l
    by (rule errors_shown_mono [OF assms(2)]) (auto simp: add_line_def)
  from assms(1) show ?thesis
    by (rule retro_entry_cases)
      (use assms(2) turn line in \<open>auto elim!: res_fold_keeps intro: errors_shown_user errors_shown_assistant\<close>)
qed

text \<open>C25: a retrospection is given the session as it was: when the summary is made, it says as many
  turns as there are entries of the assistant, and every tool error that it lists stands in its
  timeline too, in a turn of the session.\<close>

theorem retrospection_summary_exact:
  assumes "extract_retrospector_summary dumps loads t = Some s"
  shows "\<exists>st. s = retro_text st
           \<and> rs_turns st = length (filter assistant_entry (transcript_entries loads t))
           \<and> errors_shown st"
proof -
  obtain st where st: "s = retro_text st"
    "res_fold (retro_entry dumps) (transcript_entries loads t)
       \<lparr>rs_lines = [], rs_turns = 0, rs_errors = [], rs_subagents = []\<rparr> = Inr st"
    using assms by (auto simp: extract_retrospector_summary_def split: if_splits sum.splits)
  have "errors_shown st"
    by (rule res_fold_keeps [OF st(2)]) (auto simp: errors_shown_def [where st = "\<lparr>rs_lines = [], rs_turns = 0, rs_errors = [], rs_subagents = []\<rparr>"] intro: errors_shown_entry)
  moreover have "rs_turns st = length (filter assistant_entry (transcript_entries loads t))"
    using res_fold_counts [OF st(2), of rs_turns assistant_entry] retro_entry_turns by fastforce
  ultimately show ?thesis using st(1) by blast
qed

section \<open>The digest never fails on well-formed sessions\<close>

text \<open>Texts, tool names, commands and paths are strings, and the input of a tool is an object.\<close>

fun worded_block :: "json \<Rightarrow> bool" where
  "worded_block (JObj d) =
     (is_str (opt_default (JStr []) (dict_get d ''text'')) \<and> is_str (opt_default (JStr []) (dict_get d ''name''))
      \<and> (case opt_default (JObj []) (dict_get d ''input'') of
           JObj i \<Rightarrow> is_str (opt_default (JStr []) (dict_get i ''file_path''))
             \<and> is_str (opt_default (JStr []) (dict_get i ''command''))
         | _ \<Rightarrow> False))"
| "worded_block _ = True"

definition worded_entry :: "json \<Rightarrow> bool" where
  "worded_entry entry =
     (case entry_header entry of
        Inl e \<Rightarrow> False
      | Inr None \<Rightarrow> True
      | Inr (Some (role, content)) \<Rightarrow> (case content of JArr bs \<Rightarrow> list_all worded_block bs | _ \<Rightarrow> True))"

definition worded_digest :: "digest_state \<Rightarrow> bool" where
  "worded_digest st \<longleftrightarrow> list_all is_str (dg_examined st) \<and> list_all is_str (dg_modified st)
     \<and> list_all is_str (dg_tools st) \<and> list_all is_str (dg_queries st) \<and> list_all is_str (dg_responses st)"

lemma is_str_iff: "is_str v \<longleftrightarrow> (\<exists>s. v = JStr s)"
  by (cases v) auto

lemma dict_iff: "is_dict v \<longleftrightarrow> (\<exists>d. v = JObj d)"
  by (cases v) auto

lemma opt_default_str: "is_str (opt_default (JStr []) x) \<Longrightarrow> x = Some v \<Longrightarrow> \<exists>s. v = JStr s"
  by (auto simp: is_str_iff)

lemma set_add_str [simp]: "set_add (JStr s) xs = Inr (if py_in_list (JStr s) xs then xs else JStr s # xs)"
  by simp

lemma digest_query_worded:
  assumes "worded_block b" "worded_digest st"
  shows "\<exists>st'. digest_query b st = Inr st' \<and> worded_digest st' \<and> dg_turns st' = dg_turns st"
proof (cases b)
  case (JObj d)
  obtain t where t: "opt_default (JStr []) (dict_get d ''text'') = JStr t"
    using assms(1) by (auto simp: JObj is_str_iff)
  show ?thesis
    using assms(2)
    by (cases "opt_default JNull (dict_get d ''type'') = JStr ''text''")
      (simp_all add: digest_query_def JObj t worded_digest_def del: res_bind_Inr_iff)
qed (use assms(2) in \<open>simp_all add: digest_query_def\<close>)

text \<open>The path of a file tool, when it has one.\<close>

lemma tool_path_cases:
  assumes "is_str (opt_default (JStr []) (dict_get i ''file_path''))"
  obtains (absent) "value_contains ''file_path'' (JObj i) = Inr False"
  | (given) path where "value_contains ''file_path'' (JObj i) = Inr True" "value_item (JObj i) ''file_path'' = Inr (JStr path)"
  using assms by (cases "dict_get i ''file_path''") (auto simp: is_str_iff)

lemma digest_tool_worded:
  assumes "is_str (opt_default (JStr []) (dict_get i ''file_path''))"
    "is_str (opt_default (JStr []) (dict_get i ''command''))" "worded_digest st"
  shows "\<exists>st'. digest_tool (JStr n) (JObj i) st = Inr st' \<and> worded_digest st' \<and> dg_turns st' = dg_turns st"
proof -
  obtain c where c: "opt_default (JStr []) (dict_get i ''command'') = JStr c" using assms(2) by (auto simp: is_str_iff)
  from assms(1) show ?thesis
  proof (cases rule: tool_path_cases)
    case absent
    then show ?thesis
      using assms(3) c
      by (simp add: digest_tool_def worded_digest_def del: res_bind_Inr_iff value_contains.simps value_item.simps)
  next
    case (given path)
    then show ?thesis
      using assms(3) c
      by (simp add: digest_tool_def worded_digest_def del: res_bind_Inr_iff value_contains.simps value_item.simps)
  qed
qed

lemma digest_block_worded:
  assumes "worded_block b" "worded_digest st"
  shows "\<exists>st'. digest_block b st = Inr st' \<and> worded_digest st' \<and> dg_turns st' = dg_turns st"
proof (cases b)
  case (JObj d)
  obtain t n where tn: "opt_default (JStr []) (dict_get d ''text'') = JStr t" "opt_default (JStr []) (dict_get d ''name'') = JStr n"
    using assms(1) by (auto simp: JObj is_str_iff)
  obtain i where i: "opt_default (JObj []) (dict_get d ''input'') = JObj i"
    "is_str (opt_default (JStr []) (dict_get i ''file_path''))" "is_str (opt_default (JStr []) (dict_get i ''command''))"
    using assms(1) by (auto simp: JObj split: json.splits)
  have "worded_digest (st\<lparr>dg_tools := (if py_in_list (JStr n) (dg_tools st) then dg_tools st else JStr n # dg_tools st)\<rparr>)"
    using assms(2) by (simp add: worded_digest_def)
  from digest_tool_worded [OF i(2,3) this, of n] show ?thesis
    using assms(2) by (auto simp: digest_block_def JObj tn i(1) worded_digest_def)
qed (use assms(2) in \<open>auto simp: digest_block_def\<close>)

lemma digest_entry_worded:
  assumes "worded_entry e" "worded_digest st"
  shows "\<exists>st'. digest_entry e st = Inr st' \<and> worded_digest st'
           \<and> dg_turns st' = dg_turns st + (if assistant_entry e then 1 else 0)"
proof -
  obtain h where h: "entry_header e = Inr h"
    using assms(1) by (cases "entry_header e") (simp_all add: worded_entry_def)
  show ?thesis
  proof (cases h)
    case None
    then show ?thesis using assms(2) h by (simp add: digest_entry_def assistant_entry_def)
  next
    case (Some rc)
    obtain role content where rc: "h = Some (role, content)" using Some by (cases rc) simp
    have queries: "\<exists>st'. res_fold digest_query bs st = Inr st' \<and> worded_digest st' \<and> dg_turns st' = dg_turns st"
      if "list_all worded_block bs" for bs
      using res_fold_returns [where P = worded_digest and f = digest_query and n = dg_turns and p = "\<lambda>_. False", OF assms(2)]
        digest_query_worded that by (simp add: list_all_iff)
    let ?st = "st\<lparr>dg_turns := Suc (dg_turns st)\<rparr>"
    have turn: "worded_digest ?st" using assms(2) by (simp add: worded_digest_def)
    have acts: "\<exists>st'. res_fold digest_block bs ?st = Inr st' \<and> worded_digest st' \<and> dg_turns st' = dg_turns ?st"
      if "list_all worded_block bs" for bs
      using res_fold_returns [where P = worded_digest and f = digest_block and n = dg_turns and p = "\<lambda>_. False", OF turn]
        digest_block_worded that by (simp add: list_all_iff)
    show ?thesis
      using assms turn h rc queries acts
      by (cases content) (auto simp: digest_entry_def assistant_entry_def worded_entry_def worded_digest_def Let_def
          simp del: res_bind_Inr_iff)
  qed
qed

lemma join_strings: "list_all is_str xs \<Longrightarrow> \<exists>s. join_values sep xs = Inr s"
proof -
  assume "list_all is_str xs"
  then have "\<exists>ss. res_map (\<lambda>x. case x of JStr s \<Rightarrow> Inr s | _ \<Rightarrow> Inl (Exn TypeError ''sequence item: expected str instance'')) xs = Inr ss"
    by (induction xs) (auto simp: is_str_iff)
  then show ?thesis by auto
qed

lemma sorted_join_strings: "list_all is_str xs \<Longrightarrow> \<exists>s. sorted_join limit xs = Inr s"
  by (simp add: sorted_join_def Let_def)

lemma part_if_Inr: "(present \<Longrightarrow> \<exists>s. r = Inr s) \<Longrightarrow> \<exists>ps. part_if present label r = Inr ps"
  by (auto simp: part_if_def)

lemma final_n_all: "list_all P xs \<Longrightarrow> list_all P (final_n n xs)"
  unfolding list_all_iff final_n_def by (meson in_set_dropD)

lemma digest_parts_worded:
  assumes "worded_digest st"
  shows "\<exists>ps. digest_parts st = Inr ps"
proof -
  have words: "list_all is_str (dg_examined st)" "list_all is_str (dg_modified st)" "list_all is_str (dg_tools st)"
    "list_all is_str (dg_queries st)" "list_all is_str (dg_responses st)"
    using assms by (simp_all add: worded_digest_def)
  have r: "\<exists>s. res_bind (slice_value 500 (List.last (dg_responses st))) (\<lambda>t. Inr (py_str t)) = Inr s"
    if ne: "dg_responses st \<noteq> []"
  proof -
    obtain s where "List.last (dg_responses st) = JStr s"
      using words(5) last_in_set [OF ne] by (auto simp: list_all_iff is_str_iff)
    then show ?thesis by simp
  qed
  obtain qs where qs: "part_if (dg_queries st \<noteq> []) ''User queries: '' (join_values ''; '' (final_n 5 (dg_queries st))) = Inr qs"
    using part_if_Inr [OF join_strings [OF final_n_all [OF words(4)]]] by blast
  obtain es where es: "part_if (dg_examined st \<noteq> []) ''Files examined: '' (sorted_join (Some 20) (dg_examined st)) = Inr es"
    using part_if_Inr [OF sorted_join_strings [OF words(1)]] by blast
  obtain ms where ms: "part_if (dg_modified st \<noteq> []) ''Files modified: '' (sorted_join (Some 10) (dg_modified st)) = Inr ms"
    using part_if_Inr [OF sorted_join_strings [OF words(2)]] by blast
  obtain ts where ts: "part_if (dg_tools st \<noteq> []) ''Tools used: '' (sorted_join None (dg_tools st)) = Inr ts"
    using part_if_Inr [OF sorted_join_strings [OF words(3)]] by blast
  obtain acts where acts: "part_if (dg_action st \<noteq> []) ''Last action: '' (Inr (dg_action st)) = Inr acts"
    using part_if_Inr by blast
  obtain rs where rs: "part_if (dg_responses st \<noteq> []) ''Last response excerpt: ''
      (res_bind (slice_value 500 (List.last (dg_responses st))) (\<lambda>t. Inr (py_str t))) = Inr rs"
    using part_if_Inr [OF r] by blast
  show ?thesis unfolding digest_parts_def qs es ms ts acts rs by (simp del: res_bind_Inr_iff)
qed

text \<open>On a session whose texts, tool names and paths are strings, the digest for a later session
  always returns: a text exactly when the transcript can be read to its end and the assistant spoke, and
  none otherwise.\<close>

theorem digest_returns:
  assumes "list_all worded_entry (transcript_entries loads t)"
  shows "if read_failure t = None \<and> list_ex assistant_entry (transcript_entries loads t)
         then \<exists>s. extract_conversation_summary loads t = Inr (Some s)
         else extract_conversation_summary loads t = Inr None"
proof -
  let ?es = "transcript_entries loads t"
  have "\<exists>st. res_fold digest_entry ?es empty_digest = Inr st \<and> worded_digest st
      \<and> dg_turns st = dg_turns empty_digest + length (filter assistant_entry ?es)"
    using assms by (intro res_fold_returns digest_entry_worded) (simp_all add: list_all_iff worded_digest_def empty_digest_def)
  then obtain st where st: "res_fold digest_entry ?es empty_digest = Inr st" "worded_digest st"
    "dg_turns st = length (filter assistant_entry ?es)" by (auto simp: empty_digest_def)
  obtain ps where ps: "digest_parts st = Inr ps" using digest_parts_worded [OF st(2)] by blast
  have turns: "dg_turns st = 0 \<longleftrightarrow> \<not> list_ex assistant_entry ?es"
    unfolding st(3) by (simp add: filter_empty_conv list_ex_iff)
  show ?thesis using ps turns by (simp add: extract_conversation_summary_def st(1) del: res_bind_Inr_iff)
qed

text \<open>A tool whose name is a number: the set of tools cannot be sorted and joined, and the exception
  leaves the function, which is documented to return none when parsing fails.\<close>

definition odd_transcript :: transcript where
  "odd_transcript = \<lparr>ts_exists = True, ts_lines = [''odd''], ts_failure = None\<rparr>"

definition odd_loads :: "string \<Rightarrow> json option" where
  "odd_loads line = (if line = ''odd''
     then Some (JObj [(''type'', JStr ''assistant''),
       (''message'', JObj [(''content'', JArr [JObj [(''type'', JStr ''tool_use''), (''name'', JInt 7)]])])])
     else None)"

lemma digest_raises_on_odd_name:
  "extract_conversation_summary odd_loads odd_transcript = Inl (Exn TypeError ''not supported between instances'')"
  by code_simp

definition talk_loads :: "string \<Rightarrow> json option" where
  "talk_loads line =
     (if line = ''u'' then Some (JObj [(''type'', JStr ''user''), (''message'', JObj [(''content'', JStr ''fix it'')])])
      else if line = ''a'' then Some (JObj [(''type'', JStr ''assistant''),
        (''message'', JObj [(''content'', JArr [JObj [(''type'', JStr ''tool_use''), (''name'', JStr ''Read''),
          (''input'', JObj [(''file_path'', JStr ''/a.py'')])]])])])
      else if line = ''e'' then Some (JObj [(''type'', JStr ''user''),
        (''message'', JObj [(''content'', JArr [JObj [(''type'', JStr ''tool_result''), (''tool_use_id'', JStr ''t1''),
          (''is_error'', JBool True), (''content'', JStr ''no such file'')]])])])
      else None)"

definition talk :: transcript where
  "talk = \<lparr>ts_exists = True, ts_lines = [''u'' @ nl, nl, ''a'' @ nl, ''bad'' @ nl, ''e''], ts_failure = None\<rparr>"

lemma digest_returns_witness:
  "list_all worded_entry (transcript_entries talk_loads talk)
     \<and> (\<exists>s. extract_conversation_summary talk_loads talk = Inr (Some s))"
proof -
  have a: "list_all worded_entry (transcript_entries talk_loads talk)" by code_simp
  have b: "read_failure talk = None \<and> list_ex assistant_entry (transcript_entries talk_loads talk)" by code_simp
  show ?thesis using digest_returns [OF a] a b by simp
qed

lemma retrospection_summary_exact_witness:
  "\<exists>s st. extract_retrospector_summary (\<lambda>v. py_repr v) talk_loads talk = Some s \<and> s = retro_text st \<and> rs_turns st = 1 \<and> errors_shown st"
proof -
  have s: "extract_retrospector_summary (\<lambda>v. py_repr v) talk_loads talk \<noteq> None" by code_simp
  have n: "length (filter assistant_entry (transcript_entries talk_loads talk)) = 1" by code_simp
  from s obtain s where "extract_retrospector_summary (\<lambda>v. py_repr v) talk_loads talk = Some s" by blast
  from retrospection_summary_exact [OF this] this n show ?thesis by auto
qed

declare res_bind_Inr_iff [simp del]

end
