(* ===== verification/File_Tree.thy ===== *)
theory File_Tree
  imports Code_Graph Json_Value "HOL-Library.List_Lexorder" "HOL-Library.Product_Lexorder"
begin

text \<open>
  \<^verbatim>\<open>shared/file_tree.py\<close> and \<^verbatim>\<open>shared/context_builder.py\<close>: which files of a repository
  count as its source, the bounded tree that the agent's system prompt shows, and the files of a focus
  area. A directory carries its entries as they are listed, or none when listing them is not permitted,
  and whether it is a symbolic link. Git's ignore patterns (the package \<open>pathspec\<close>) are a parameter.
\<close>

section \<open>Files, directories and what is excluded\<close>

datatype node = FileNode string | DirNode string bool "node list option"

fun node_name :: "node \<Rightarrow> string" where
  "node_name (FileNode n) = n" | "node_name (DirNode n linked entries) = n"

fun node_is_dir :: "node \<Rightarrow> bool" where
  "node_is_dir (FileNode n) = False" | "node_is_dir (DirNode n linked entries) = True"

definition EXCLUDE_DIRS :: "string list" where
  "EXCLUDE_DIRS = [''node_modules'', ''vendor'', ''third_party'', ''__pycache__'', ''.git'', ''.venv'', ''venv'', ''env'',
     ''dist'', ''build'', ''.tox'', ''.mypy_cache'', ''.pytest_cache'', ''.ruff_cache'', ''site-packages'', ''egg-info'',
     ''.eggs'', ''.hg'', ''.svn'', ''.idea'', ''.vscode'', ''.fleet'', ''.cargo'']"

definition EXCLUDE_FILES :: "string list" where
  "EXCLUDE_FILES = [''package-lock.json'', ''yarn.lock'', ''pnpm-lock.yaml'', ''Gemfile.lock'', ''poetry.lock'',
     ''uv.lock'', ''.DS_Store'', ''Thumbs.db'']"

definition EXCLUDE_SUFFIXES :: "string list" where
  "EXCLUDE_SUFFIXES = [''.min.js'', ''.min.css'', ''.bundle.js'', ''.pb.go'', ''_pb2.py'', ''_pb2.pyi'', ''_pb2_grpc.py'',
     ''.pyc'', ''.pyo'', ''.so'', ''.dylib'', ''.dll'', ''.exe'']"

definition should_exclude_dir :: "string \<Rightarrow> bool" where
  "should_exclude_dir name \<longleftrightarrow> name \<in> set EXCLUDE_DIRS \<or> str_startswith name ''.''"

definition should_exclude_file :: "string \<Rightarrow> bool" where
  "should_exclude_file name \<longleftrightarrow> name \<in> set EXCLUDE_FILES \<or> list_ex (str_endswith name) EXCLUDE_SUFFIXES"

text \<open>The ignore files at the root: \<open>reads name\<close> is none for what is not a file, and may raise;
  \<open>from_lines\<close> is none when the package is not installed.\<close>

definition ignore_lines :: "(string \<Rightarrow> string option result) \<Rightarrow> string \<Rightarrow> string list result" where
  "ignore_lines reads filename =
     (case reads filename of
        Inr None \<Rightarrow> Inr []
      | Inr (Some t) \<Rightarrow> Inr (str_splitlines t)
      | Inl e \<Rightarrow> if exc_isinstance e OSError then Inr [] else Inl e)"

definition load_ignore_spec ::
    "(string list \<Rightarrow> (string \<Rightarrow> bool) result) option \<Rightarrow> (string \<Rightarrow> string option result) \<Rightarrow> (string \<Rightarrow> bool) option result" where
  "load_ignore_spec from_lines reads =
     (case from_lines of
        None \<Rightarrow> Inr None
      | Some compile \<Rightarrow>
          res_bind (ignore_lines reads ''.gitignore'') (\<lambda>git.
          res_bind (ignore_lines reads ''.ignore'') (\<lambda>plain.
            if git @ plain = [] then Inr None
            else (case compile (git @ plain) of Inl e \<Rightarrow> Inr None | Inr spec \<Rightarrow> Inr (Some spec)))))"

definition is_ignored :: "(string \<Rightarrow> bool) option \<Rightarrow> string \<Rightarrow> bool \<Rightarrow> bool" where
  "is_ignored spec rel_path is_dir =
     (case spec of
        None \<Rightarrow> False
      | Some matches \<Rightarrow> if is_dir then matches (rel_path @ ''/'') \<or> matches rel_path else matches rel_path)"

section \<open>\<open>walk_source_files\<close>\<close>

definition join_rel :: "string \<Rightarrow> string \<Rightarrow> string" where
  "join_rel base name = (if base \<noteq> [] then base @ ''/'' @ name else name)"

definition posix :: "string \<Rightarrow> string" where
  "posix path = str_replace_char CHR 0x5C ''/'' path"

definition keeps_dir :: "(string \<Rightarrow> bool) option \<Rightarrow> string \<Rightarrow> string \<Rightarrow> bool" where
  "keeps_dir spec base d \<longleftrightarrow>
     \<not> (d \<in> set EXCLUDE_DIRS \<or> str_startswith d ''.'') \<and> \<not> is_ignored spec (join_rel (posix base) d) True"

definition keeps_file :: "(string \<Rightarrow> bool) option \<Rightarrow> string \<Rightarrow> string \<Rightarrow> bool" where
  "keeps_file spec base name \<longleftrightarrow>
     name \<noteq> ''.git'' \<and> name \<notin> set EXCLUDE_FILES \<and> \<not> list_ex (str_endswith name) EXCLUDE_SUFFIXES
     \<and> \<not> list_ex (\<lambda>pat. str_contains pat (str_lower name)) [''.generated.'', ''.min.'', ''.bundle.'']
     \<and> \<not> is_ignored spec (join_rel (posix base) name) False"

text \<open>\<open>os.walk\<close> with the directories sorted and pruned in place: the files of a directory, then the
  kept directories that are no links. The paths are relative to the root of the repository.\<close>

lemma listed_smaller:
  assumes "DirNode n linked entries \<in> set ns"
  shows "size_option (size_list size) entries < size_option (size_list size) (Some ns)"
  using size_list_estimation' [OF assms, of "size (DirNode n linked entries)" size] by simp

function os_walk :: "(string \<Rightarrow> string \<Rightarrow> bool) \<Rightarrow> (string \<Rightarrow> string \<Rightarrow> bool) \<Rightarrow> string \<Rightarrow> node list option \<Rightarrow> string list" where
  "os_walk dir_ok file_ok base None = []"
| "os_walk dir_ok file_ok base (Some ns) =
     map (join_rel base) (filter (file_ok base) (sort (map node_name (filter (\<lambda>n. \<not> node_is_dir n) ns)))) @
     concat (map (\<lambda>n. case n of
                    DirNode d linked entries \<Rightarrow>
                      if dir_ok base d \<and> \<not> linked then os_walk dir_ok file_ok (join_rel base d) entries else []
                  | FileNode f \<Rightarrow> [])
               (sort_key node_name ns))"
  by pat_completeness auto
termination
  by (relation "measure (\<lambda>(dir_ok, file_ok, base, entries). size_option (size_list size) entries)")
    (use listed_smaller in auto)

definition walk_source_files :: "string \<Rightarrow> (string \<Rightarrow> bool) option \<Rightarrow> node list option \<Rightarrow> string list" where
  "walk_source_files repo_path spec entries =
     map (\<lambda>rel. repo_path @ ''/'' @ rel) (os_walk (keeps_dir spec) (keeps_file spec) [] entries)"

section \<open>The summary line\<close>

text \<open>\<open>Path.suffix\<close>\<close>

definition path_suffix :: "string \<Rightarrow> string" where
  "path_suffix path =
     (let name = path_name path; ext = rev (takeWhile (\<lambda>c. c \<noteq> CHR ''.'') (rev name))
      in if CHR ''.'' \<in> set name \<and> 0 < length name - length ext - 1 \<and> ext \<noteq> [] then CHR ''.'' # ext else [])"

definition count_suffix :: "string \<Rightarrow> nat dict \<Rightarrow> nat dict" where
  "count_suffix filepath counts =
     (let ext = str_lower (path_suffix filepath); key = (if ext \<noteq> [] then ext else ''(no ext)'')
      in dict_set key (opt_default 0 (dict_get counts key) + 1) counts)"

definition long_dash :: string where "long_dash = [CHR 0xE2, CHR 0x80, CHR 0x94]"

definition count_summary :: "string list \<Rightarrow> string" where
  "count_summary files =
     (if files = [] then ''empty repository''
      else
        let counts = fold count_suffix files [];
            ranked = take 5 (sort_key (\<lambda>p. - int (snd p)) counts)
        in show_nat (length files) @ '' files total '' @ long_dash @ '' '' @
           str_join '', '' (map (\<lambda>p. fst p @ '': '' @ show_nat (snd p)) ranked))"

section \<open>The tree\<close>

definition corner :: string where "corner = [CHR 0xE2, CHR 0x94, CHR 0x94, CHR 0xE2, CHR 0x94, CHR 0x80, CHR 0xE2, CHR 0x94, CHR 0x80, CHR '' '']"
definition branch :: string where "branch = [CHR 0xE2, CHR 0x94, CHR 0x9C, CHR 0xE2, CHR 0x94, CHR 0x80, CHR 0xE2, CHR 0x94, CHR 0x80, CHR '' '']"
definition stem :: string where "stem = [CHR 0xE2, CHR 0x94, CHR 0x82, CHR '' '', CHR '' '', CHR '' '']"

text \<open>Directories first, each group by lower-cased name; what is excluded or ignored is left out.\<close>

definition tree_order :: "node \<Rightarrow> bool \<times> string" where
  "tree_order n = (\<not> node_is_dir n, str_lower (node_name n))"

definition is_visible :: "(string \<Rightarrow> bool) option \<Rightarrow> string \<Rightarrow> node \<Rightarrow> bool" where
  "is_visible spec rel_prefix n \<longleftrightarrow>
     (if node_is_dir n then \<not> (should_exclude_dir (node_name n) \<or> is_ignored spec (rel_prefix @ node_name n) True)
      else \<not> (should_exclude_file (node_name n) \<or> is_ignored spec (rel_prefix @ node_name n) False))"

definition visible_nodes :: "(string \<Rightarrow> bool) option \<Rightarrow> string \<Rightarrow> node list \<Rightarrow> node list" where
  "visible_nodes spec rel_prefix ns = filter (is_visible spec rel_prefix) (sort_key tree_order ns)"

lemma size_insort: "size_list size (insort_key f x xs) = size_list size (x # xs)"
  by (induction xs) auto

lemma size_sort: "size_list size (sort_key f xs) = size_list size xs"
  by (induction xs) (simp_all add: size_insort)

lemma size_visible: "size_list size (visible_nodes spec rel_prefix ns) \<le> size_list size ns"
proof -
  have "size_list size (filter P xs) \<le> size_list size xs" for P and xs :: "node list" by (induction xs) auto
  then show ?thesis unfolding visible_nodes_def by (metis size_sort)
qed

text \<open>The lines so far and the number of entries among them.\<close>

type_synonym tree_state = "string list \<times> nat"

function tree_dir :: "(string \<Rightarrow> bool) option \<Rightarrow> nat \<Rightarrow> nat \<Rightarrow> node list option \<Rightarrow> string \<Rightarrow> nat \<Rightarrow> string \<Rightarrow> tree_state \<Rightarrow> tree_state"
  and tree_nodes :: "(string \<Rightarrow> bool) option \<Rightarrow> nat \<Rightarrow> nat \<Rightarrow> node list \<Rightarrow> string \<Rightarrow> nat \<Rightarrow> string \<Rightarrow> tree_state \<Rightarrow> tree_state" where
  "tree_dir spec max_depth max_entries entries indent depth rel_prefix st =
     (if depth > max_depth \<or> snd st \<ge> max_entries then st
      else (case entries of
              None \<Rightarrow> st
            | Some ns \<Rightarrow> tree_nodes spec max_depth max_entries (visible_nodes spec rel_prefix ns) indent depth rel_prefix st))"
| "tree_nodes spec max_depth max_entries [] indent depth rel_prefix st = st"
| "tree_nodes spec max_depth max_entries (n # ns) indent depth rel_prefix st =
     (case st of (lines, entry_count) \<Rightarrow>
        if entry_count \<ge> max_entries
        then (lines @ [indent @ ''... (truncated, '' @ show_nat (length (n # ns)) @ '' more entries)''], entry_count)
        else
          let connector = (if ns = [] then corner else branch);
              child_indent = (if ns = [] then ''    '' else stem)
          in tree_nodes spec max_depth max_entries ns indent depth rel_prefix
               (case n of
                  DirNode name linked entries \<Rightarrow>
                    tree_dir spec max_depth max_entries entries (indent @ child_indent) (Suc depth) (rel_prefix @ name @ ''/'')
                      (lines @ [indent @ connector @ name @ ''/''], Suc entry_count)
                | FileNode name \<Rightarrow> (lines @ [indent @ connector @ name], Suc entry_count)))"
  by pat_completeness auto
termination
proof (relation "measure (\<lambda>x. case x of
    Inl (spec, max_depth, max_entries, entries, indent, depth, rel_prefix, st) \<Rightarrow> 2 * size_option (size_list size) entries
  | Inr (spec, max_depth, max_entries, ns, indent, depth, rel_prefix, st) \<Rightarrow> 2 * size_list size ns + 1)", goal_cases)
  case (2 spec max_depth max_entries entries indent depth rel_prefix st ns)
  then show ?case using size_visible [of spec rel_prefix ns] by simp
qed (auto split: node.splits)

definition generate_file_tree ::
    "(string list \<Rightarrow> (string \<Rightarrow> bool) result) option \<Rightarrow> (string \<Rightarrow> string option result) \<Rightarrow> string \<Rightarrow> node list option \<Rightarrow>
     bool \<Rightarrow> nat \<Rightarrow> nat \<Rightarrow> string result" where
  "generate_file_tree from_lines reads repo_path entries is_dir max_depth max_entries =
     (if \<not> is_dir then Inr []
      else
        res_bind (load_ignore_spec from_lines reads) (\<lambda>spec.
          let lines = fst (tree_dir spec max_depth max_entries entries [] 1 [] ([path_name repo_path @ ''/''], 0));
              summary = count_summary (walk_source_files repo_path spec entries)
          in Inr (str_join nl lines @ nl @ nl @ ''('' @ summary @ '')'')))"

definition generate_structural_context ::
    "(string list \<Rightarrow> (string \<Rightarrow> bool) result) option \<Rightarrow> (string \<Rightarrow> string option result) \<Rightarrow> string \<Rightarrow> node list option \<Rightarrow>
     bool \<Rightarrow> string result" where
  "generate_structural_context from_lines reads repo_path entries is_dir =
     generate_file_tree from_lines reads repo_path entries is_dir 3 200"

section \<open>The files of a focus area\<close>

definition FOCUS_PATTERNS :: "string list dict" where
  "FOCUS_PATTERNS =
     [(''build_system'', [''Dockerfile*'', ''docker-compose*'', ''Makefile*'', ''*.toml'', ''*.cfg'', ''setup.py'', ''setup.cfg'',
         ''requirements*.txt'', ''Pipfile*'', ''pyproject.toml'', ''.github/workflows/*.yml'', ''.github/workflows/*.yaml'',
         ''Jenkinsfile'', ''Gemfile'', ''build.gradle*'', ''pom.xml'', ''package.json'']),
      (''test_structure'', [''conftest.py'', ''pytest.ini'', ''tox.ini'', ''test_*.py'', ''*_test.py'', ''tests/**'', ''spec/**'',
         ''__tests__/**'', ''.mocharc.*'', ''jest.config.*'', ''karma.conf.*'']),
      (''api_surface'', [''api/**'', ''routes/**'', ''endpoints/**'', ''views.py'', ''urls.py'', ''router.py'', ''app.py'',
         ''main.py'', ''server.py'']),
      (''dependencies'', [''requirements*.txt'', ''Pipfile*'', ''pyproject.toml'', ''package.json'', ''go.mod'', ''go.sum'',
         ''Cargo.toml'', ''Gemfile'', ''*.csproj'', ''yarn.lock'', ''package-lock.json''])]"

definition MAX_FOCUS_FILES_PER_AREA :: nat where "MAX_FOCUS_FILES_PER_AREA = 50"

text \<open>\<open>fnmatch.fnmatch\<close> on a pattern without brackets.\<close>

fun fnmatch :: "string \<Rightarrow> string \<Rightarrow> bool" where
  "fnmatch [] [] = True"
| "fnmatch [] (c # cs) = False"
| "fnmatch (p # ps) [] = (p = CHR ''*'' \<and> fnmatch ps [])"
| "fnmatch (p # ps) (c # cs) =
     (if p = CHR ''*'' then fnmatch ps (c # cs) \<or> fnmatch (p # ps) cs
      else (p = CHR ''?'' \<or> p = c) \<and> fnmatch ps cs)"

fun focus_collect :: "nat \<Rightarrow> string list \<Rightarrow> string \<Rightarrow> string list \<Rightarrow> string list \<Rightarrow> string list" where
  "focus_collect limit patterns repo_path matches [] = matches"
| "focus_collect limit patterns repo_path matches (path # paths) =
     (let rel = str_replace (posix repo_path @ ''/'') [] (posix (repo_path @ ''/'' @ path));
          matches = (if list_ex (\<lambda>pat. fnmatch pat rel \<or> fnmatch pat (path_name path)) patterns then matches @ [rel] else matches)
      in if length matches \<ge> limit then matches else focus_collect limit patterns repo_path matches paths)"

definition find_priority_focus_files :: "string \<Rightarrow> node list option \<Rightarrow> string list \<Rightarrow> string list" where
  "find_priority_focus_files repo_path entries focus_areas =
     (let patterns = concat (map (\<lambda>area. opt_default [] (dict_get FOCUS_PATTERNS area)) focus_areas)
      in if patterns = [] then []
         else focus_collect (MAX_FOCUS_FILES_PER_AREA * length focus_areas) patterns repo_path []
                (os_walk (\<lambda>base d. d \<notin> set EXCLUDE_DIRS) (\<lambda>base f. True) [] entries))"

lemma focus_collect_bounded:
  "length matches < limit \<Longrightarrow> length (focus_collect limit patterns repo_path matches paths) \<le> limit"
  by (induction limit patterns repo_path matches paths rule: focus_collect.induct) (auto simp: Let_def)

lemma focus_files_bounded:
  "length (find_priority_focus_files repo_path entries areas) \<le> MAX_FOCUS_FILES_PER_AREA * length areas"
  by (cases areas) (auto simp: find_priority_focus_files_def MAX_FOCUS_FILES_PER_AREA_def Let_def intro!: focus_collect_bounded)

section \<open>Pruning while walking is filtering\<close>

text \<open>Every file below a directory, with the directories above it, and whether each of them is kept.\<close>

function all_files :: "node list option \<Rightarrow> (string list \<times> string) list" where
  "all_files None = []"
| "all_files (Some ns) =
     concat (map (\<lambda>n. case n of
                    FileNode f \<Rightarrow> [([], f)]
                  | DirNode d linked entries \<Rightarrow> if linked then [] else map (\<lambda>(ds, f). (d # ds, f)) (all_files entries)) ns)"
  by pat_completeness auto
termination
  by (relation "measure (size_option (size_list size))") (use listed_smaller in auto)

fun rel_path :: "string \<Rightarrow> string list \<Rightarrow> string \<Rightarrow> string" where
  "rel_path base [] f = join_rel base f"
| "rel_path base (d # ds) f = rel_path (join_rel base d) ds f"

fun kept_below :: "(string \<Rightarrow> string \<Rightarrow> bool) \<Rightarrow> (string \<Rightarrow> string \<Rightarrow> bool) \<Rightarrow> string \<Rightarrow> string list \<Rightarrow> string \<Rightarrow> bool" where
  "kept_below dir_ok file_ok base [] f = file_ok base f"
| "kept_below dir_ok file_ok base (d # ds) f = (dir_ok base d \<and> kept_below dir_ok file_ok (join_rel base d) ds f)"

lemma listed_files: "node_name ` {n \<in> set ns. \<not> node_is_dir n} = {f. FileNode f \<in> set ns}"
proof -
  have "n = FileNode (node_name n)" if "\<not> node_is_dir n" for n using that by (cases n) auto
  then show ?thesis by force
qed

lemma os_walk_files:
  "set (os_walk dir_ok file_ok base entries) =
     {rel_path base ds f |ds f. (ds, f) \<in> set (all_files entries) \<and> kept_below dir_ok file_ok base ds f}"
proof (induction dir_ok file_ok base entries rule: os_walk.induct)
  case (2 dir_ok file_ok base ns)
  let ?here = "\<lambda>n. case n of
      FileNode f \<Rightarrow> (if file_ok base f then {join_rel base f} else {}) | DirNode d linked entries \<Rightarrow> {}"
  let ?under = "\<lambda>n. case n of
      FileNode f \<Rightarrow> {}
    | DirNode d linked entries \<Rightarrow>
        (if dir_ok base d \<and> \<not> linked then set (os_walk dir_ok file_ok (join_rel base d) entries) else {})"
  let ?below = "\<lambda>n. ?here n \<union> ?under n"
  have shown: "x \<in> ?here n \<longleftrightarrow> (\<exists>f. n = FileNode f \<and> file_ok base f \<and> x = join_rel base f)" for x n
    by (cases n) auto
  have "set (map (join_rel base) (filter (file_ok base) (sort (map node_name (filter (\<lambda>n. \<not> node_is_dir n) ns)))))
      = join_rel base ` {f \<in> {f. FileNode f \<in> set ns}. file_ok base f}"
    unfolding set_map set_filter set_sort listed_files by simp
  also have "\<dots> = (\<Union>n\<in>set ns. ?here n)"
    unfolding set_eq_iff UN_iff shown by blast
  finally have here: "set (map (join_rel base) (filter (file_ok base) (sort (map node_name (filter (\<lambda>n. \<not> node_is_dir n) ns)))))
      = (\<Union>n\<in>set ns. ?here n)" .
  have under: "set (case n of
        DirNode d linked entries \<Rightarrow>
          if dir_ok base d \<and> \<not> linked then os_walk dir_ok file_ok (join_rel base d) entries else []
      | FileNode f \<Rightarrow> []) = ?under n" for n
    by (cases n) auto
  have walk: "set (os_walk dir_ok file_ok base (Some ns)) = (\<Union>n\<in>set ns. ?below n)"
    unfolding os_walk.simps(2) set_append here by (simp only: set_concat set_map image_image under set_sort UN_Un_distrib)
  have "?below n = {rel_path base ds f |ds f.
      (ds, f) \<in> set (case n of FileNode f \<Rightarrow> [([], f)]
        | DirNode d linked entries \<Rightarrow> if linked then [] else map (\<lambda>(ds, f). (d # ds, f)) (all_files entries))
      \<and> kept_below dir_ok file_ok base ds f}" if "n \<in> set ns" for n
  proof (cases n)
    case (DirNode d linked entries)
    have down: "{rel_path base ds f |ds f. (ds, f) \<in> (\<lambda>(ds, f). (d # ds, f)) ` A \<and> kept_below dir_ok file_ok base ds f}
        = (if dir_ok base d then {rel_path (join_rel base d) ds f |ds f. (ds, f) \<in> A \<and> kept_below dir_ok file_ok (join_rel base d) ds f} else {})"
      for A by force
    show ?thesis
    proof (cases "dir_ok base d \<and> \<not> linked")
      case True
      have "set (os_walk dir_ok file_ok (join_rel base d) entries) =
          {rel_path (join_rel base d) ds f |ds f. (ds, f) \<in> set (all_files entries) \<and> kept_below dir_ok file_ok (join_rel base d) ds f}"
        using 2 [of n d linked entries] that True DirNode by simp
      then show ?thesis using True by (simp add: DirNode down del: os_walk.simps all_files.simps)
    next
      case False
      then show ?thesis by (auto simp: DirNode down simp del: os_walk.simps all_files.simps)
    qed
  qed auto
  then show ?case unfolding walk by auto
qed simp


section \<open>The size of the tree\<close>

text \<open>The entries that are visible within \<open>k\<close> levels.\<close>

fun visible_within :: "(string \<Rightarrow> bool) option \<Rightarrow> nat \<Rightarrow> string \<Rightarrow> node list option \<Rightarrow> nat" where
  "visible_within spec k rel_prefix None = 0"
| "visible_within spec 0 rel_prefix (Some ns) = 0"
| "visible_within spec (Suc k) rel_prefix (Some ns) =
     sum_list (map (\<lambda>n. case n of FileNode f \<Rightarrow> 1
                        | DirNode d linked entries \<Rightarrow> Suc (visible_within spec k (rel_prefix @ d @ ''/'') entries))
                (visible_nodes spec rel_prefix ns))"

definition visible_below :: "(string \<Rightarrow> bool) option \<Rightarrow> nat \<Rightarrow> string \<Rightarrow> node \<Rightarrow> nat" where
  "visible_below spec k rel_prefix n =
     (case n of FileNode f \<Rightarrow> 1 | DirNode d linked entries \<Rightarrow> Suc (visible_within spec k (rel_prefix @ d @ ''/'') entries))"

lemma visible_within_nodes:
  "visible_within spec (Suc k) rel_prefix (Some ns) = sum_list (map (visible_below spec k rel_prefix) (visible_nodes spec rel_prefix ns))"
  unfolding visible_within.simps visible_below_def ..

text \<open>Each level that is open when the limit is reached adds at most one line that says so.\<close>

definition tree_grows :: "nat \<Rightarrow> nat \<Rightarrow> tree_state \<Rightarrow> tree_state \<Rightarrow> nat \<Rightarrow> bool" where
  "tree_grows max_entries levels st st' n \<longleftrightarrow>
     snd st' = min max_entries (snd st + n)
     \<and> length (fst st') + snd st \<le> length (fst st) + snd st' + levels
     \<and> (snd st' < max_entries \<longrightarrow> length (fst st') + snd st = length (fst st) + snd st')"

lemma tree_grows_trans:
  assumes "tree_grows m l st st1 a" "tree_grows m k st1 st2 b" "l \<le> j" "snd st1 < m \<Longrightarrow> k \<le> j" "snd st1 = m \<Longrightarrow> l + k \<le> j"
  shows "tree_grows m j st st2 (a + b)"
  using assms unfolding tree_grows_def by (cases "snd st1 < m") (auto simp: min_def split: if_splits)

lemma tree_grows_walk:
  shows "snd st \<le> max_entries \<Longrightarrow>
      tree_grows max_entries (Suc max_depth - depth) st (tree_dir spec max_depth max_entries entries indent depth rel_prefix st)
        (visible_within spec (Suc max_depth - depth) rel_prefix entries)"
    and "snd st \<le> max_entries \<Longrightarrow> depth \<le> max_depth \<Longrightarrow>
      tree_grows max_entries (if ns = [] then 0 else if snd st = max_entries then 1 else Suc max_depth - depth) st
        (tree_nodes spec max_depth max_entries ns indent depth rel_prefix st)
        (sum_list (map (visible_below spec (max_depth - depth) rel_prefix) ns))"
proof (induction spec max_depth max_entries entries indent depth rel_prefix st
    and spec max_depth max_entries ns indent depth rel_prefix st rule: tree_dir_tree_nodes.induct)
  case (1 spec max_depth max_entries entries indent depth rel_prefix st)
  show ?case
  proof (cases "depth > max_depth \<or> snd st \<ge> max_entries")
    case True
    then show ?thesis using 1(2) by (cases entries) (auto simp: tree_grows_def)
  next
    case False
    then have k: "Suc max_depth - depth = Suc (max_depth - depth)" by (simp add: Suc_diff_le)
    show ?thesis
    proof (cases entries)
      case None
      then show ?thesis using 1(2) by (auto simp: tree_grows_def)
    next
      case (Some ns)
      have "tree_grows max_entries (if visible_nodes spec rel_prefix ns = [] then 0 else if snd st = max_entries then 1 else Suc max_depth - depth) st
        (tree_nodes spec max_depth max_entries (visible_nodes spec rel_prefix ns) indent depth rel_prefix st)
        (visible_within spec (Suc max_depth - depth) rel_prefix entries)"
        using 1(1) [OF _ Some 1(2)] False unfolding Some k visible_within_nodes by simp
      then show ?thesis using False by (auto simp: Some tree_grows_def split: if_splits)
    qed
  qed
next
  case (2 spec max_depth max_entries indent depth rel_prefix st)
  then show ?case by (simp add: tree_grows_def)
next
  case (3 spec max_depth max_entries n ns indent depth rel_prefix st)
  obtain ls c where st: "st = (ls, c)" by (cases st)
  show ?case
  proof (cases "c \<ge> max_entries")
    case True
    then show ?thesis using 3(3,4) by (auto simp: st tree_grows_def)
  next
    case False
    define line where "line = indent @ (if ns = [] then corner else branch) @ node_name n @ (if node_is_dir n then ''/'' else [])"
    define st0 where "st0 = (ls @ [line], Suc c)"
    define st1 where "st1 = (case n of
        DirNode name linked entries \<Rightarrow> tree_dir spec max_depth max_entries entries (indent @ (if ns = [] then ''    '' else stem))
          (Suc depth) (rel_prefix @ name @ ''/'') st0
      | FileNode name \<Rightarrow> st0)"
    have run: "tree_nodes spec max_depth max_entries (n # ns) indent depth rel_prefix st =
        tree_nodes spec max_depth max_entries ns indent depth rel_prefix st1"
      using False by (cases n) (simp_all add: st st0_def st1_def line_def Let_def)
    have first: "tree_grows max_entries 0 st st0 1" using False by (simp add: st st0_def tree_grows_def)
    have below: "tree_grows max_entries (max_depth - depth) st st1 (visible_below spec (max_depth - depth) rel_prefix n)"
    proof (cases n)
      case (FileNode f)
      then show ?thesis using first by (auto simp: st1_def visible_below_def tree_grows_def)
    next
      case (DirNode d linked entries)
      have "tree_grows max_entries (Suc max_depth - Suc depth) st0 st1
          (visible_within spec (Suc max_depth - Suc depth) (rel_prefix @ d @ ''/'') entries)"
        using 3(1) [OF st [symmetric] False refl refl DirNode] False by (simp add: st1_def st0_def line_def DirNode)
      from tree_grows_trans [OF first this] show ?thesis by (simp add: DirNode visible_below_def)
    qed
    then have m: "snd st1 \<le> max_entries" by (simp add: tree_grows_def)
    have st1: "st1 = (case n of FileNode name \<Rightarrow> (ls @ [indent @ (if ns = [] then corner else branch) @ name], Suc c)
        | DirNode name linked entries \<Rightarrow>
            tree_dir spec max_depth max_entries entries (indent @ (if ns = [] then ''    '' else stem)) (Suc depth)
              (rel_prefix @ name @ ''/'') (ls @ [indent @ (if ns = [] then corner else branch) @ name @ ''/''], Suc c))"
      by (cases n) (simp_all add: st1_def st0_def line_def)
    have rest: "tree_grows max_entries (if ns = [] then 0 else if snd st1 = max_entries then 1 else Suc max_depth - depth) st1
        (tree_nodes spec max_depth max_entries ns indent depth rel_prefix st1)
        (sum_list (map (visible_below spec (max_depth - depth) rel_prefix) ns))"
      using 3(2) [OF st [symmetric] False refl refl] m 3(4) unfolding st1 [symmetric] by blast
    have "tree_grows max_entries (Suc max_depth - depth) st (tree_nodes spec max_depth max_entries ns indent depth rel_prefix st1)
        (visible_below spec (max_depth - depth) rel_prefix n + sum_list (map (visible_below spec (max_depth - depth) rel_prefix) ns))"
      by (rule tree_grows_trans [OF below rest]) (use 3(4) in auto)
    then show ?thesis using False unfolding run by (simp add: st)
  qed
qed

text \<open>The tree that is shown, before its lines are joined: the root and what is below it.\<close>

definition shown_tree :: "(string \<Rightarrow> bool) option \<Rightarrow> string \<Rightarrow> node list option \<Rightarrow> nat \<Rightarrow> nat \<Rightarrow> tree_state" where
  "shown_tree spec repo_path entries max_depth max_entries =
     tree_dir spec max_depth max_entries entries [] 1 [] ([path_name repo_path @ ''/''], 0)"

lemma generate_shown_tree:
  assumes "generate_file_tree from_lines reads repo_path entries True max_depth max_entries = Inr t"
  obtains spec where "load_ignore_spec from_lines reads = Inr spec"
    "t = str_join nl (fst (shown_tree spec repo_path entries max_depth max_entries)) @ nl @ nl @
         ''('' @ count_summary (walk_source_files repo_path spec entries) @ '')''"
  using assms by (auto simp: generate_file_tree_def shown_tree_def Let_def res_bind_Inr_iff)

lemma shown_tree_grows:
  "tree_grows max_entries max_depth ([path_name repo_path @ ''/''], 0) (shown_tree spec repo_path entries max_depth max_entries)
     (visible_within spec max_depth [] entries)"
  using tree_grows_walk(1) [where st = "([path_name repo_path @ ''/''], 0)" and depth = 1 and spec = spec
      and max_depth = max_depth and max_entries = max_entries and entries = entries and indent = "[]" and rel_prefix = "[]"]
  by (simp add: shown_tree_def del: tree_dir.simps)

text \<open>C27: the file tree in the agent's system prompt is bounded whatever the repository holds: of the
  entries that are visible within the depth it shows as many as the limit allows, and it has at most one
  further line for the root and for each level. With the limits the agent uses these are 200 entries and
  204 lines.\<close>

theorem file_tree_bounded:
  "snd (shown_tree spec repo_path entries max_depth max_entries) = min max_entries (visible_within spec max_depth [] entries)
   \<and> length (fst (shown_tree spec repo_path entries max_depth max_entries)) \<le>
       1 + min max_entries (visible_within spec max_depth [] entries) + max_depth"
  using shown_tree_grows [of max_entries max_depth repo_path spec entries] by (simp add: tree_grows_def)

lemma agent_tree_bounded:
  assumes "generate_structural_context from_lines reads repo_path entries True = Inr t"
  shows "\<exists>lines summary. t = str_join nl lines @ nl @ nl @ ''('' @ summary @ '')'' \<and> length lines \<le> 204"
proof -
  obtain spec where t: "t = str_join nl (fst (shown_tree spec repo_path entries 3 200)) @ nl @ nl @
      ''('' @ count_summary (walk_source_files repo_path spec entries) @ '')''"
    using assms generate_shown_tree unfolding generate_structural_context_def by metis
  have "snd (shown_tree spec repo_path entries 3 200) \<le> 200"
    and "length (fst (shown_tree spec repo_path entries 3 200)) \<le> 4 + snd (shown_tree spec repo_path entries 3 200)"
    using shown_tree_grows [of 200 3 repo_path spec entries] by (simp_all add: tree_grows_def)
  then have "length (fst (shown_tree spec repo_path entries 3 200)) \<le> 204" by linarith
  then show ?thesis using t by blast
qed

text \<open>When the limit is reached with the line of a directory, what it holds is left out without a line
  that says so.\<close>

lemma silently_truncated:
  "shown_tree None ''/r'' (Some [DirNode ''a'' False (Some [FileNode ''f''])]) 3 1 =
     ([''r/'', corner @ ''a/''], 1)"
  by code_simp

text \<open>An ignore file that is not UTF-8 leaves the agent without a tree.\<close>

lemma undecodable_ignore_file:
  "generate_structural_context (Some (\<lambda>ls. Inr (\<lambda>p. False)))
     (\<lambda>f. if f = ''.gitignore'' then Inl (Exn UnicodeDecodeError ''invalid start byte'') else Inr None) ''/r'' (Some []) True =
   Inl (Exn UnicodeDecodeError ''invalid start byte'')"
  by code_simp

end
