(* ===== verification/Worker_Jobs.thy ===== *)
theory Worker_Jobs
  imports Transcript_Parser Sdk_Options Worktree_Cleanup Memory_Server Session_Proxy
begin

text \<open>
  The two agents that work on a finished session: \<^verbatim>\<open>services/memory_worker/memory_worker.py\<close>
  extracts facts into the memory directory of the repository, and
  \<^verbatim>\<open>services/retrospector_worker/retrospector_worker.py\<close> looks for ways to improve the bot's own
  instructions, in a worktree of the bot's repository. The file system, git, the agent's client, the
  GitHub authentication and the environment are one record. Parsed numbers are below \<open>10^16\<close>, where a
  float is written without an exponent.
\<close>

section \<open>What the workers run on\<close>

record 's post_host =
  ph_settings :: sdk_settings
  ph_host :: "'s host"
  ph_home :: path
  ph_agents :: json
  ph_loads :: "string \<Rightarrow> json option"
  ph_dumps :: "json \<Rightarrow> string"
  ph_exists :: "json \<Rightarrow> ('s, bool) io"
  ph_transcript :: "string \<Rightarrow> ('s, transcript) io"
  ph_makedirs :: "string \<Rightarrow> ('s, unit) io"
  ph_mkdtemp :: "string \<Rightarrow> string \<Rightarrow> ('s, string) io"
  ph_write :: "string \<Rightarrow> string \<Rightarrow> ('s, unit) io"
  ph_remove :: "string \<Rightarrow> ('s, unit) io"
  ph_git_in :: "string \<Rightarrow> string list \<Rightarrow> ('s, int option \<times> string \<times> string) io"
  ph_claude_md :: "string \<Rightarrow> ('s, string option) io"
  ph_memory_index :: "string \<Rightarrow> ('s, string option) io"
  ph_session :: "string \<Rightarrow> sdk_builder \<Rightarrow> ('s, sdk_message list \<times> exn option) io"
  ph_sleep :: "real \<Rightarrow> ('s, unit) io"
  ph_timeout :: int
  ph_max_retries :: nat
  ph_base_delay :: real
  ph_sync :: "string \<Rightarrow> string \<Rightarrow> ('s, string option) io"
  ph_auth_configured :: bool
  ph_token :: "('s, string) io"
  ph_close_auth :: "('s, unit) io"
  ph_bot_repo :: string
  ph_bot_username :: string
  ph_bot_email :: string
  ph_persist :: bool

text \<open>\<open>execute_sdk\<close> with \<open>collect_text=False\<close>: a session without text is no error.\<close>

definition execute_quiet_once :: "('s, sdk_message list \<times> exn option) io \<Rightarrow> int \<Rightarrow> ('s, sdk_result) io" where
  "execute_quiet_once session sdk_timeout =
     io_try
       (io_bind session (\<lambda>(messages, fault).
        io_bind (receive_messages (\<lambda>m. io_ret ()) no_result [] messages) (\<lambda>((info, parts), finished).
          case fault of
            Some e \<Rightarrow> if finished then io_ret info else io_raise e
          | None \<Rightarrow> io_ret info)))
       (\<lambda>e. if exc_isinstance e TimeoutError
            then io_raise (Exn SDKTimeoutError (''SDK execution timed out after '' @ show_int sdk_timeout @ ''s''))
            else io_raise (Exn SDKError (''SDK execution failed: '' @ exc_msg e)))"

definition execute_quiet :: "('s, sdk_message list \<times> exn option) io \<Rightarrow> (real \<Rightarrow> ('s, unit) io) \<Rightarrow> int \<Rightarrow> nat \<Rightarrow> real \<Rightarrow>
    ('s, sdk_result) io" where
  "execute_quiet session sleep sdk_timeout max_retries retry_base_delay =
     sdk_attempts (execute_quiet_once session sdk_timeout) sleep retry_base_delay [0..<max_retries] None"

text \<open>The session id in the closing log message: \<open>id[:8]\<close>, which must be sliceable when there is one.\<close>

definition short_id :: "sdk_result \<Rightarrow> json result" where
  "short_id r = (if py_truthy (sr_session_id r) then slice_value 8 (sr_session_id r) else Inr (JStr ''N/A''))"

abbreviation message_field :: "json dict \<Rightarrow> string \<Rightarrow> json \<Rightarrow> json" where
  "message_field \<equiv> hook_field"

section \<open>The memory worker\<close>

definition MEMORY_QUEUE :: string where "MEMORY_QUEUE = ''agent:memory:requests''"
definition MEMORY_DLQ :: string where "MEMORY_DLQ = ''agent:memory:dead_letter''"

text \<open>A path that is no string has no lines: \<open>Path\<close> raises within the \<open>try\<close> of \<open>extract_conversation\<close>.\<close>

definition conversation_of :: "'s post_host \<Rightarrow> json \<Rightarrow> ('s, string) io" where
  "conversation_of P transcript_path =
     (case transcript_path of
        JStr path \<Rightarrow> io_bind (ph_transcript P path) (\<lambda>t. io_ret (extract_conversation (ph_dumps P) (ph_loads P) t))
      | _ \<Rightarrow> io_ret [])"

definition memory_prompt :: "string \<Rightarrow> json \<Rightarrow> string \<Rightarrow> string \<Rightarrow> string" where
  "memory_prompt repo hook_event conversation_text memory_dir =
     ''<repository>'' @ repo @ ''</repository>'' @ nl @
     ''<session_event>'' @ py_str hook_event @ ''</session_event>'' @ nl @ nl @
     ''<session_transcript>'' @ nl @ conversation_text @ nl @ ''</session_transcript>'' @ nl @ nl @
     ''<memory_directory>'' @ memory_dir @ ''</memory_directory>'' @ nl @ nl @
     ''Extract memorable facts from the session transcript and update the memory files accordingly.''"

text \<open>Context that came with the message; a value that is neither a string nor empty has no \<open>strip\<close>.\<close>

fun context_text :: "json \<Rightarrow> string option result" where
  "context_text (JStr s) = Inr (Some s)"
| "context_text v = (if py_truthy v then Inl (Exn AttributeError ''strip'') else Inr None)"

definition memory_builder :: "'s post_host \<Rightarrow> string \<Rightarrow> string \<Rightarrow> json \<Rightarrow> json \<Rightarrow> ('s, sdk_builder) io" where
  "memory_builder P repo memory_dir claude_md memory_index =
     (let S = ph_settings P; b = with_haiku S (new_builder S memory_dir) in
      io_bind
        (if claude_md \<noteq> JNull \<or> memory_index \<noteq> JNull then
           io_bind (io_of_result (context_text memory_index)) (\<lambda>index.
           io_bind (io_of_result (context_text claude_md)) (\<lambda>md. io_ret (with_repository_context md index b)))
         else with_repository_context_auto True True (ph_claude_md P repo) (ph_memory_index P repo) b)
        (\<lambda>b. io_ret (with_writable_dir memory_dir (with_langfuse_hooks S None (with_agents (ph_agents P)
           (with_memory_toolset (with_memory_mcp repo b)))))))"

definition run_memory_extractor :: "'s post_host \<Rightarrow> string \<Rightarrow> string \<Rightarrow> json \<Rightarrow> json \<Rightarrow> json \<Rightarrow> string \<Rightarrow> ('s, unit) io" where
  "run_memory_extractor P repo memory_dir hook_event claude_md memory_index conversation_text =
     io_bind (memory_builder P repo memory_dir claude_md memory_index) (\<lambda>b.
     io_bind (execute_quiet
        (ph_session P (''@memory-extractor '' @ memory_prompt repo hook_event conversation_text memory_dir)
           (build_options (ph_settings P) b))
        (ph_sleep P) (ph_timeout P) (ph_max_retries P) (ph_base_delay P)) (\<lambda>outcome.
     io_then (io_of_result (short_id outcome)) (io_ret ())))"

definition process_memory_job :: "'s post_host \<Rightarrow> json dict \<Rightarrow> ('s, unit) io" where
  "process_memory_job P message =
     (let repo = message_field message ''repo'' JNull; transcript_path = message_field message ''transcript_path'' JNull;
          hook_event = message_field message ''hook_event'' (JStr ''Stop'');
          claude_md = message_field message ''claude_md'' JNull; memory_index = message_field message ''memory_index'' JNull in
      if \<not> py_truthy repo \<or> \<not> py_truthy transcript_path then io_ret ()
      else
        io_bind (ph_exists P transcript_path) (\<lambda>present.
          if \<not> present then io_ret ()
          else (case repo of
              JStr r \<Rightarrow>
                (let memory_dir = path_text (get_memory_dir (ph_home P) r) in
                 io_then (ph_makedirs P memory_dir)
                 (io_bind (conversation_of P transcript_path) (\<lambda>conversation_text.
                    if conversation_text = [] then io_ret ()
                    else run_memory_extractor P r memory_dir hook_event claude_md memory_index conversation_text)))
            | _ \<Rightarrow> io_raise (Exn TypeError ''unsupported operand type(s) for /''))))"

definition memory_round :: "'s env \<Rightarrow> 's post_host \<Rightarrow> json \<Rightarrow> ('s, unit) io" where
  "memory_round E P now = memory_worker_step E (ph_sleep P) MEMORY_QUEUE MEMORY_DLQ (process_memory_job P) now"

section \<open>The retrospector\<close>

definition RETRO_QUEUE :: string where "RETRO_QUEUE = ''agent:retrospector:requests''"
definition RETRO_DLQ :: string where "RETRO_DLQ = ''agent:retrospector:dead_letter''"

definition validate_git_config_value :: "string \<Rightarrow> string \<Rightarrow> string result" where
  "validate_git_config_value config_value name =
     (if CHR 0x0A \<in> set config_value \<or> CHR 0x0D \<in> set config_value
      then Inl (Exn ValueError (''Invalid '' @ name @ '': contains newline character. Git config values cannot contain newlines.''))
      else Inr config_value)"

text \<open>\<open>int(value)\<close>\<close>

fun int_value :: "json \<Rightarrow> int result" where
  "int_value (JInt i) = Inr i"
| "int_value (JBool b) = Inr (if b then 1 else 0)"
| "int_value (JStr s) = py_int s"
| "int_value (JFloat r) =
     (let digits = takeWhile is_digit (if take 1 r = ''-'' then drop 1 r else r)
      in if digits = [] then Inl (Exn ValueError ''cannot convert float to integer'')
         else Inr (if take 1 r = ''-'' then - int (read_nat digits) else int (read_nat digits)))"
| "int_value _ = Inl (Exn TypeError ''int() argument must be a string or a real number'')"

definition git_run :: "'s post_host \<Rightarrow> string \<Rightarrow> string list \<Rightarrow> ('s, unit) io" where
  "git_run P cwd cmd =
     io_bind (ph_git_in P cwd cmd) (\<lambda>(returncode, out, err). case returncode of
        None \<Rightarrow> io_raise (Exn RuntimeError ''Git command failed to start'')
      | Some code \<Rightarrow> io_ret ())"

definition home_credentials :: "'s post_host \<Rightarrow> string" where
  "home_credentials P = path_text (ph_home P) @ ''/.git-credentials''"

definition worker_dir :: "'s post_host \<Rightarrow> string" where
  "worker_dir P = path_text (ph_home P) @ ''/.claude/workers/retrospector''"

definition retro_configure :: "'s post_host \<Rightarrow> string \<Rightarrow> ('s, string option) io" where
  "retro_configure P workspace =
     io_bind (if ph_auth_configured P then io_bind (ph_token P) (\<lambda>t. io_ret (Some t)) else io_ret None) (\<lambda>github_token.
     io_bind (io_of_result (validate_git_config_value (ph_bot_username P) ''BOT_USERNAME'')) (\<lambda>bot_username.
     io_bind (io_of_result (validate_git_config_value (ph_bot_email P) ''BOT_USER_EMAIL'')) (\<lambda>bot_email.
     io_then (git_run P workspace [''git'', ''config'', ''user.name'', bot_username])
     (io_then (git_run P workspace [''git'', ''config'', ''user.email'', bot_email])
     (io_then
       (if opt_default [] github_token \<noteq> [] then
          io_then (ph_write P (home_credentials P) (''https://x-access-token:'' @ opt_default [] github_token @ ''@github.com'' @ nl))
            (git_run P workspace [''git'', ''config'', ''credential.helper'', ''store''])
        else io_ret ())
       (io_ret github_token))))))"

definition retro_prompt :: "string \<Rightarrow> json \<Rightarrow> json \<Rightarrow> int \<Rightarrow> bool \<Rightarrow> bool \<Rightarrow> string" where
  "retro_prompt summary_path workflow_name target_repo num_turns is_error is_subagent =
     str_strip (''/retrospector:retrospect '' @ summary_path @ '' '' @ py_str workflow_name @ '' '' @ py_str target_repo @ '' '' @
       show_int num_turns @ '' '' @ (if is_error then ''error'' else []) @ '' '' @ (if is_subagent then ''subagent'' else []))"

definition retro_builder :: "'s post_host \<Rightarrow> string \<Rightarrow> string option \<Rightarrow> ('s, sdk_builder) io" where
  "retro_builder P workspace github_token =
     (let S = ph_settings P; b = with_sonnet S (new_builder S workspace);
          b = (if opt_default [] github_token \<noteq> [] then with_github_mcp (opt_default [] github_token) b else b) in
      io_bind (with_repository_context_auto True True (ph_claude_md P (ph_bot_repo P)) (ph_memory_index P (ph_bot_repo P)) b) (\<lambda>b.
        io_ret (with_writable_dir workspace (with_langfuse_hooks S None (with_memory_toolset (with_memory_mcp (ph_bot_repo P)
          (with_retrospector_toolset (with_plugin (path_text (ph_home P) @ ''/.claude/plugins/retrospector'') b))))))))"

text \<open>The agent's run in the prepared worktree; whatever it raises is only logged.\<close>

definition retro_agent :: "'s post_host \<Rightarrow> string \<Rightarrow> sdk_builder \<Rightarrow> ('s, unit) io" where
  "retro_agent P prompt b =
     io_try
       (io_bind (execute_quiet (ph_session P prompt (build_options (ph_settings P) b)) (ph_sleep P) (ph_timeout P) 3 5) (\<lambda>outcome.
        io_then (io_of_result (short_id outcome)) (io_ret ())))
       (\<lambda>e. io_ret ())"

definition summary_of :: "'s post_host \<Rightarrow> json \<Rightarrow> ('s, string option) io" where
  "summary_of P transcript_path =
     (case transcript_path of
        JStr path \<Rightarrow> io_bind (ph_transcript P path) (\<lambda>t. io_ret (extract_retrospector_summary (ph_dumps P) (ph_loads P) t))
      | _ \<Rightarrow> io_raise (Exn TypeError ''argument should be a str or an os.PathLike object''))"

definition retro_in_worktree ::
    "'s post_host \<Rightarrow> json \<Rightarrow> json \<Rightarrow> json \<Rightarrow> json \<Rightarrow> json \<Rightarrow> string \<Rightarrow> ('s, unit) io" where
  "retro_in_worktree P workflow_name transcript_path target_repo session_meta hook_event workspace =
     io_bind (retro_configure P workspace) (\<lambda>github_token.
     io_bind (io_of_result (res_bind (jget session_meta ''duration_ms'' (JInt 0)) int_value)) (\<lambda>duration_ms.
     io_bind (io_of_result (res_bind (jget session_meta ''num_turns'' (JInt 0)) int_value)) (\<lambda>num_turns.
     io_bind (io_of_result (jget session_meta ''is_error'' (JBool False))) (\<lambda>is_error.
     io_bind (summary_of P transcript_path) (\<lambda>transcript_summary. case transcript_summary of
         None \<Rightarrow> io_ret ()
       | Some t \<Rightarrow>
           (let summary_path = workspace @ ''/transcript_summary.md'' in
            io_then (ph_write P summary_path t)
            (io_bind (retro_builder P workspace github_token) (\<lambda>b.
              retro_agent P (retro_prompt summary_path workflow_name target_repo num_turns (py_truthy is_error)
                (hook_event = JStr ''SubagentStop'')) b))))))))"

text \<open>The \<open>finally\<close> block: an ephemeral worktree goes, the credentials always go, the client is closed.\<close>

definition retro_remove_worktree :: "'s post_host \<Rightarrow> string option \<Rightarrow> string option \<Rightarrow> ('s, unit) io" where
  "retro_remove_worktree P workspace repo_dir =
     (if ph_persist P \<or> opt_default [] workspace = [] then io_ret ()
      else
        io_bind (ph_exists P (JStr (opt_default [] workspace))) (\<lambda>present.
          if \<not> present then io_ret ()
          else if opt_default [] repo_dir \<noteq> [] then
            io_try (io_then (execute_git_command (ph_host P) (worktree_remove (opt_default [] repo_dir) (opt_default [] workspace))) (io_ret ()))
              (\<lambda>e. io_try (ho_rmtree (ph_host P) (opt_default [] workspace)) (\<lambda>e. io_ret ()))
          else ho_rmtree (ph_host P) (opt_default [] workspace)))"

definition retro_remove_credentials :: "'s post_host \<Rightarrow> ('s, unit) io" where
  "retro_remove_credentials P =
     io_bind (ph_exists P (JStr (home_credentials P))) (\<lambda>present.
       if present then io_try (ph_remove P (home_credentials P)) (\<lambda>e. io_ret ()) else io_ret ())"

definition retro_cleanup :: "'s post_host \<Rightarrow> string option \<Rightarrow> string option \<Rightarrow> ('s, unit) io" where
  "retro_cleanup P workspace repo_dir =
     io_then (retro_remove_worktree P workspace repo_dir) (io_then (retro_remove_credentials P) (ph_close_auth P))"

definition on_error :: "('s, 'a) io \<Rightarrow> ('s, unit) io \<Rightarrow> ('s, 'a) io" where
  "on_error m f = io_try m (\<lambda>e. io_then f (io_raise e))"

text \<open>The worktree's path, and its creation: the path is known to the \<open>finally\<close> block before the
  worktree is created.\<close>

definition retro_workspace :: "'s post_host \<Rightarrow> ('s, string) io" where
  "retro_workspace P =
     (if ph_persist P then io_ret (worker_dir P)
      else
        (let base = path_text (ph_home P) @ ''/.claude/worktrees/ephemeral'' in
         io_then (ph_makedirs P base) (ph_mkdtemp P ''retro_'' base)))"

definition retro_checkout :: "'s post_host \<Rightarrow> string \<Rightarrow> string \<Rightarrow> ('s, unit) io" where
  "retro_checkout P repo_dir workspace =
     (if ph_persist P then
        io_bind (ph_exists P (JStr workspace)) (\<lambda>present.
          reuse_or_create_worktree (ph_host P) repo_dir ''refs/remotes/origin/main'' workspace
            (if present then ''continue'' else ''new''))
      else
        io_then (ho_rmdir (ph_host P) workspace)
          (reuse_or_create_worktree (ph_host P) repo_dir ''refs/remotes/origin/main'' workspace ''new''))"

text \<open>A synchronisation that neither completes nor fails keeps the job waiting.\<close>

definition process_retrospector_job :: "'s post_host \<Rightarrow> json dict \<Rightarrow> ('s, unit) io" where
  "process_retrospector_job P message =
     (let workflow_name = py_or (message_field message ''workflow_name'' JNull) (JStr ''generic'');
          transcript_path = message_field message ''transcript_path'' JNull;
          target_repo = message_field message ''repo'' (JStr ''unknown'');
          session_meta = message_field message ''session_meta'' (JObj []);
          hook_event = message_field message ''hook_event'' (JStr ''Stop'') in
      io_bind (io_of_result (jget session_meta ''agent_id'' JNull)) (\<lambda>agent_id.
        let workflow_name = (if hook_event = JStr ''SubagentStop'' \<and> py_truthy agent_id then agent_id else workflow_name) in
        io_bind (if py_truthy transcript_path then ph_exists P transcript_path else io_ret False) (\<lambda>present.
          if \<not> present then io_ret ()
          else
            io_bind (on_error (ph_sync P (ph_bot_repo P) ''main'') (retro_cleanup P None None)) (\<lambda>synced. case synced of
                None \<Rightarrow> io_ret ()
              | Some repo_dir \<Rightarrow>
                  io_bind (on_error (retro_workspace P) (retro_cleanup P None (Some repo_dir))) (\<lambda>workspace.
                    io_finally
                      (io_then (retro_checkout P repo_dir workspace)
                        (retro_in_worktree P workflow_name transcript_path target_repo session_meta hook_event workspace))
                      (retro_cleanup P (Some workspace) (Some repo_dir)))))))"

definition retro_handler :: "'s env \<Rightarrow> 's post_host \<Rightarrow> bool \<Rightarrow> json \<Rightarrow> json \<Rightarrow> ('s, unit) io" where
  "retro_handler E P shutdown now message =
     (if shutdown then io_ret ()
      else (case message of
          JObj m \<Rightarrow>
            io_try (process_retrospector_job P m)
              (\<lambda>e. if is_transient_error e then enqueue_for_retry E RETRO_QUEUE RETRO_DLQ m e DEFAULT_MAX_JOB_RETRIES now
                   else enqueue_for_retry E RETRO_QUEUE RETRO_DLQ m e 0 now)
        | _ \<Rightarrow> io_raise (Exn AttributeError ''get'')))"

definition retro_rounds :: "'s env \<Rightarrow> 's post_host \<Rightarrow> bool \<Rightarrow> json \<Rightarrow> nat \<Rightarrow> ('s, unit) io" where
  "retro_rounds E P shutdown now n = mq_turns E (ph_sleep P) RETRO_QUEUE (retro_handler E P shutdown now) n"

section \<open>What the memory agent may do\<close>

lemma io_bind_cong_range:
  "(\<And>s x s'. m s = (Inr x, s') \<Longrightarrow> f x = g x) \<Longrightarrow> io_bind m f = io_bind m g"
  by (rule ext) (auto simp: io_bind_run split: prod.splits sum.splits)

lemma repository_context_fields [simp]:
  "sb_cwd (with_repository_context md index b) = sb_cwd b"
  "sb_allowed_tools (with_repository_context md index b) = sb_allowed_tools b"
  "sb_mcp_servers (with_repository_context md index b) = sb_mcp_servers b"
  "sb_add_dirs (with_repository_context md index b) = sb_add_dirs b"
  "sb_plugins (with_repository_context md index b) = sb_plugins b"
  by (simp_all add: with_repository_context_def Let_def)

lemma context_auto_range:
  assumes "with_repository_context_auto c m fetch_md fetch_memory b s = (Inr b', s')"
  obtains md index where "b' = with_repository_context md index b"
  using assms unfolding with_repository_context_auto_def
  by (auto simp: io_bind_run io_ret_run split: prod.splits sum.splits if_splits)

definition memory_options :: "string \<Rightarrow> string \<Rightarrow> sdk_builder \<Rightarrow> bool" where
  "memory_options repo memory_dir b \<longleftrightarrow>
     sb_cwd b = memory_dir \<and> sb_add_dirs b = [memory_dir] \<and> sb_plugins b = []
     \<and> sb_allowed_tools b = [''Read'', ''Write'', ''Edit'', ''List'', ''mcp__memory__*'']
     \<and> map fst (sb_mcp_servers b) = [''memory'']"

lemma memory_builder_options:
  assumes "memory_builder P repo memory_dir claude_md memory_index s = (Inr b, s')"
  shows "memory_options repo memory_dir (build_options (ph_settings P) b)"
proof -
  let ?b = "with_haiku (ph_settings P) (new_builder (ph_settings P) memory_dir)"
  obtain md index where "b = with_writable_dir memory_dir (with_langfuse_hooks (ph_settings P) None (with_agents (ph_agents P)
      (with_memory_toolset (with_memory_mcp repo (with_repository_context md index ?b)))))"
    using assms unfolding memory_builder_def Let_def
    by (auto simp: io_bind_run io_ret_run io_of_result_run split: prod.splits sum.splits if_splits elim: context_auto_range)
  then show ?thesis
    by (simp add: memory_options_def build_options_def with_writable_dir_def with_langfuse_hooks_def with_agents_def
        with_memory_toolset_def with_tools_def with_memory_mcp_def with_haiku_def new_builder_def)
qed

text \<open>The runs that the memory worker is meant to start.\<close>

definition memory_run :: "'s post_host \<Rightarrow> string \<Rightarrow> sdk_builder \<Rightarrow> bool" where
  "memory_run P prompt opts \<longleftrightarrow>
     (\<exists>repo event conversation. conversation \<noteq> []
        \<and> prompt = ''@memory-extractor '' @ memory_prompt repo event conversation (path_text (get_memory_dir (ph_home P) repo))
        \<and> memory_options repo (path_text (get_memory_dir (ph_home P) repo)) opts)"


section \<open>From the hook to the memory agent\<close>

context redis_server
begin

lemma flush_healthy:
  assumes "healthy s" "\<And>d. sim view healthy (sleep d) (io_ret ())"
  shows "healthy (snd (flush_post_jobs E sleep jobs s))"
proof -
  have "sim view healthy (flush_post_jobs E sleep jobs) (flush_post_jobs (model_env E ord) (\<lambda>d. io_ret ()) jobs)"
    unfolding flush_post_jobs_def by (intro sim_intros sim_fold flush_one_sim assms(2))
  then show ?thesis using assms(1) by (simp add: sim_def)
qed

lemma pop_message:
  assumes "healthy s" "rlist (view s) k = [x_dumps E (JObj m)]" "json_ok (JObj m)"
  obtains s' where "healthy s'" "rlist (view s') k = []"
    "memory_worker_step E sleep k dk run now s =
       io_try (io_try (run m)
         (\<lambda>e. if is_transient_error e then enqueue_for_retry E k dk m e DEFAULT_MAX_JOB_RETRIES now
              else enqueue_for_retry E k dk m e 0 now))
         (\<lambda>e. if exc_isinstance e JSONDecodeError then io_ret () else sleep 5) s'"
proof -
  have xs: "as_list (rlook (view s) k) = Some [x_dumps E (JObj m)]"
    using assms(2) by (auto simp: rlist_def opt_default_def split: option.splits)
  obtain r s' where s': "x_blpop E k 5 s = (r, s')" by (cases "x_blpop E k 5 s")
  then have h: "healthy s'" "x_blpop (model_env E ord) k 5 (view s) = (r, view s')"
    using blpop_law [of k 5] assms(1) by (auto simp: sim_def)
  then have r: "r = Inr (Some (x_dumps E (JObj m)))" and v: "view s' = rdrop k (view s)"
    using xs h(2) by (auto simp: model_env_def redis_simps r_blpop_def)
  have e: "rlist (view s') k = []" unfolding v rlist_def by (simp add: redis_simps)
  have "x_loads E (x_dumps E (JObj m)) = Some (JObj m)" using assms(3) by (rule loads_dumps)
  then show thesis
    using that [OF h(1) e] s' r by (simp add: memory_worker_step_def io_try_run io_bind_run split: prod.split sum.split)
qed

end

lemma distinct_singleton: "distinct xs \<Longrightarrow> set xs = {x} \<Longrightarrow> xs = [x]"
  by (cases xs; cases "tl xs") auto

text \<open>The message that a hook's memory job becomes.\<close>

definition memory_message :: "capture \<Rightarrow> json dict \<Rightarrow> json dict" where
  "memory_message c input =
     [(''repo'', JStr (cp_repo c)), (''transcript_path'', transcript_path_of input),
      (''hook_event'', hook_field input ''hook_event_name'' (JStr ''Stop'')),
      (''claude_md'', hook_field (cp_context c) ''claude_md'' JNull), (''memory_index'', hook_field (cp_context c) ''memory_index'' JNull)]"

lemma captured_jobs:
  assumes "cp_memory c" "capture_and_buffer c input [] = (jobs, True)" "hook_field input ''hook_event_name'' (JStr ''Stop'') = JStr event"
  obtains job where "job \<in> set jobs" "post_payload job = Some (MEMORY_QUEUE, JObj (memory_message c input))"
    "\<forall>j \<in> set jobs. post_payload j \<noteq> None" "\<forall>j \<in> set jobs. fst (the (post_payload j)) = MEMORY_QUEUE \<longrightarrow> j = job"
    "map_of (rev (map (\<lambda>job. (job_key job, job)) jobs)) (job_key job) = Some job"
proof -
  define path where "path = transcript_path_of input"
  define md where "md = hook_field (cp_context c) ''claude_md'' JNull"
  define index where "index = hook_field (cp_context c) ''memory_index'' JNull"
  define meta where "meta = JObj [(''num_turns'', hook_field input ''num_turns'' (JInt 0)),
     (''is_error'', hook_field input ''is_error'' (JBool False)), (''duration_ms'', hook_field input ''duration_ms'' (JInt 0)),
     (''agent_id'', hook_field input ''agent_id'' JNull), (''agent_type'', hook_field input ''agent_type'' JNull)]"
  let ?mem = "[(''type'', JStr ''memory''), (''repo'', JStr (cp_repo c)), (''transcript_path'', path), (''event'', JStr event),
     (''claude_md'', md), (''memory_index'', index)]"
  let ?retro = "[(''type'', JStr ''retrospector''), (''repo'', JStr (cp_repo c)), (''transcript_path'', path), (''event'', JStr event),
     (''workflow_name'', cp_workflow_name c), (''session_meta'', meta)]"
  let ?index = "[(''type'', JStr ''indexing''), (''repo'', JStr (cp_repo c)), (''event'', JStr event), (''ref'', cp_ref c)]"
  have jobs: "jobs = ?mem # (if cp_retrospector c then [?retro] else []) @ (if cp_indexing c then [?index] else [])"
    using assms(1,2) unfolding capture_and_buffer_def Let_def assms(3) path_def [symmetric] md_def [symmetric] index_def [symmetric]
      meta_def [symmetric] by (simp split: if_splits)
  have payload: "post_payload ?mem = Some (MEMORY_QUEUE, JObj (memory_message c input))"
    by (simp add: post_payload_def memory_message_def MEMORY_QUEUE_def path_def md_def index_def assms(3))
  have others: "\<exists>p. post_payload ?retro = Some (''agent:retrospector:requests'', p)"
    "\<exists>p. post_payload ?index = Some (''agent:indexing:requests'', p)"
    by (simp_all add: post_payload_def)
  have keys: "job_key ?mem \<noteq> job_key ?retro" "job_key ?mem \<noteq> job_key ?index" by (simp_all add: job_key_def)
  show thesis
  proof (rule that [of ?mem])
    show "?mem \<in> set jobs" unfolding jobs by simp
    show "post_payload ?mem = Some (MEMORY_QUEUE, JObj (memory_message c input))" by (rule payload)
    show "\<forall>j \<in> set jobs. post_payload j \<noteq> None" using payload others unfolding jobs by auto
    show "\<forall>j \<in> set jobs. fst (the (post_payload j)) = MEMORY_QUEUE \<longrightarrow> j = ?mem"
      using payload others unfolding jobs by (auto simp: MEMORY_QUEUE_def)
    show "map_of (rev (map (\<lambda>job. (job_key job, job)) jobs)) (job_key ?mem) = Some ?mem"
      using keys unfolding jobs by (simp add: map_add_def)
  qed
qed

text \<open>C24: from the hook to the memory agent. What a hook buffers when a session stops is flushed to the
  queue of the memory worker, and the worker's next round takes exactly that job: it processes the
  repository, the transcript, the event and the context that the hook saw, and the queue is empty again
  when it starts.\<close>

theorem buffered_job_reaches_extractor:
  assumes "redis_server E view healthy ord" "healthy s" "\<forall>d. sim view healthy (ph_sleep P d) (io_ret ())"
    and "\<forall>q \<in> post_queues. rlist_ok (view s) q" "rlist (view s) MEMORY_QUEUE = []"
    and "cp_memory c" "capture_and_buffer c input [] = (jobs, True)" "hook_field input ''hook_event_name'' (JStr ''Stop'') = JStr event"
    and "json_ok (JObj (memory_message c input))"
  shows "\<exists>s1 s2. flush_post_jobs E (ph_sleep P) jobs s = (Inr (), s1) \<and> healthy s2 \<and> rlist (view s2) MEMORY_QUEUE = [] \<and>
    memory_round E P now s1 =
      io_try (io_try (process_memory_job P (memory_message c input))
        (\<lambda>e. if is_transient_error e
             then enqueue_for_retry E MEMORY_QUEUE MEMORY_DLQ (memory_message c input) e DEFAULT_MAX_JOB_RETRIES now
             else enqueue_for_retry E MEMORY_QUEUE MEMORY_DLQ (memory_message c input) e 0 now))
        (\<lambda>e. if exc_isinstance e JSONDecodeError then io_ret () else ph_sleep P 5) s2"
proof -
  obtain job where job: "job \<in> set jobs" "post_payload job = Some (MEMORY_QUEUE, JObj (memory_message c input))"
    "\<forall>j \<in> set jobs. post_payload j \<noteq> None" "\<forall>j \<in> set jobs. fst (the (post_payload j)) = MEMORY_QUEUE \<longrightarrow> j = job"
    "map_of (rev (map (\<lambda>job. (job_key job, job)) jobs)) (job_key job) = Some job"
    by (rule captured_jobs [OF assms(6-8)])
  obtain s1 seen where s1: "flush_post_jobs E (ph_sleep P) jobs s = (Inr (), s1)" "distinct (map fst seen)"
    "map_of seen = map_of (rev (map (\<lambda>job. (job_key job, job)) jobs))"
    "\<forall>q \<in> post_queues. rlist (view s1) q = rlist (view s) q @
      map (\<lambda>job. x_dumps E (snd (the (post_payload job)))) (filter (\<lambda>job. fst (the (post_payload job)) = q) (map snd seen))"
    using redis_server.flush_once [OF assms(1,2) _ job(3) assms(4)] assms(3) by blast
  let ?mem = "filter (\<lambda>p. fst (the (post_payload (snd p))) = MEMORY_QUEUE) seen"
  have entry: "k = job_key j \<and> j \<in> set jobs" if "(k, j) \<in> set seen" for k j
  proof -
    have "map_of seen k = Some j" using that s1(2) by simp
    then have "(k, j) \<in> set (rev (map (\<lambda>job. (job_key job, job)) jobs))" unfolding s1(3) by (rule map_of_SomeD)
    then show ?thesis by auto
  qed
  have "set ?mem = {(job_key job, job)}"
    using entry job(2,4,5) s1(3) by (auto dest: map_of_SomeD) (metis map_of_SomeD)
  moreover have "distinct ?mem" using s1(2) by (simp add: distinct_map)
  ultimately have "?mem = [(job_key job, job)]" by (intro distinct_singleton)
  then have "filter (\<lambda>job. fst (the (post_payload job)) = MEMORY_QUEUE) (map snd seen) = [job]"
    by (simp add: filter_map comp_def)
  moreover have "MEMORY_QUEUE \<in> post_queues" by (simp add: MEMORY_QUEUE_def post_queues_def)
  ultimately have q: "rlist (view s1) MEMORY_QUEUE = [x_dumps E (JObj (memory_message c input))]"
    using s1(4) assms(5) job(2) by simp
  have h: "healthy s1" using redis_server.flush_healthy [OF assms(1,2), of "ph_sleep P" jobs] assms(3) s1(1) by simp
  obtain s2 where "healthy s2" "rlist (view s2) MEMORY_QUEUE = []" "memory_round E P now s1 =
      io_try (io_try (process_memory_job P (memory_message c input))
        (\<lambda>e. if is_transient_error e
             then enqueue_for_retry E MEMORY_QUEUE MEMORY_DLQ (memory_message c input) e DEFAULT_MAX_JOB_RETRIES now
             else enqueue_for_retry E MEMORY_QUEUE MEMORY_DLQ (memory_message c input) e 0 now))
        (\<lambda>e. if exc_isinstance e JSONDecodeError then io_ret () else ph_sleep P 5) s2"
    unfolding memory_round_def by (rule redis_server.pop_message [OF assms(1) h q assms(9)])
  with s1(1) show ?thesis by blast
qed

section \<open>The token does not outlive the job\<close>

text \<open>What the operating system does: looking at a path changes nothing, a removed file is gone, and
  removing a directory tree reports no errors. \<open>creds\<close> says whether the credentials file exists.\<close>

definition os_contract :: "'s post_host \<Rightarrow> ('s \<Rightarrow> bool) \<Rightarrow> bool" where
  "os_contract P creds \<longleftrightarrow>
     (\<forall>v s. \<exists>b. ph_exists P v s = (Inr b, s)) \<and>
     (\<forall>s. ph_exists P (JStr (home_credentials P)) s = (Inr (creds s), s)) \<and>
     (\<forall>s. \<exists>r s'. ph_remove P (home_credentials P) s = (r, s') \<and> \<not> creds s') \<and>
     (\<forall>path s. \<exists>s'. ho_rmtree (ph_host P) path s = (Inr (), s')) \<and>
     (\<forall>s. creds (snd (ph_close_auth P s)) = creds s) \<and>
     (\<forall>repo ref s s'. ph_sync P repo ref s = (Inr None, s') \<longrightarrow> creds s' = creds s)"

lemma remove_worktree_returns:
  assumes "os_contract P creds"
  shows "\<exists>s'. retro_remove_worktree P workspace repo_dir s = (Inr (), s')"
proof -
  obtain b where b: "ph_exists P (JStr (opt_default [] workspace)) s = (Inr b, s)"
    using assms unfolding os_contract_def by blast
  have rm: "\<exists>s'. ho_rmtree (ph_host P) path s = (Inr (), s')" for path s
    using assms unfolding os_contract_def by blast
  show ?thesis
    using rm b
    by (auto simp: retro_remove_worktree_def io_bind_run io_then_run io_try_run io_ret_run split: prod.splits sum.splits)
qed

lemma cleanup_removes_credentials:
  assumes "os_contract P creds"
  shows "\<not> creds (snd (retro_cleanup P workspace repo_dir s))"
proof -
  obtain s1 where s1: "retro_remove_worktree P workspace repo_dir s = (Inr (), s1)"
    using remove_worktree_returns [OF assms] by blast
  obtain s2 where s2: "retro_remove_credentials P s1 = (Inr (), s2)" "\<not> creds s2"
  proof (cases "creds s1")
    case True
    obtain r s' where "ph_remove P (home_credentials P) s1 = (r, s')" "\<not> creds s'"
      using assms unfolding os_contract_def by blast
    then show thesis
      using that assms True unfolding os_contract_def
      by (cases r) (auto simp: retro_remove_credentials_def io_bind_run io_try_run io_ret_run)
  next
    case False
    then show thesis
      using that assms unfolding os_contract_def by (auto simp: retro_remove_credentials_def io_bind_run io_ret_run)
  qed
  show ?thesis using s2 assms by (simp add: retro_cleanup_def io_then_run s1 os_contract_def)
qed

lemma finally_state: "snd (io_finally m f s) = snd (f (snd (m s)))"
  by (auto simp: io_finally_def split: prod.splits sum.splits)

lemma on_error_cases:
  obtains (ok) x s' where "on_error m f s = (Inr x, s')" "m s = (Inr x, s')"
  | (failed) e s' where "on_error m f s = (Inl e, s')" "s' = snd (f (snd (m s)))"
proof (cases "on_error m f s")
  case (Pair r s')
  then show thesis
    using ok failed
    by (cases r) (force simp: on_error_def io_try_run io_then_run io_raise_run split: prod.splits sum.splits)+
qed


section \<open>A concrete host\<close>

text \<open>A host on which everything succeeds; and one whose world counts the sessions started and says
  whether the credentials file exists.\<close>

definition calm_host :: "'s post_host" where
  "calm_host =
     \<lparr>ph_settings = sample_settings,
      ph_host = \<lparr>ho_home = ''/home'', ho_exists = (\<lambda>p. io_ret True), ho_is_dir = (\<lambda>p. io_ret True), ho_is_file = (\<lambda>p. io_ret True),
        ho_iterdir = (\<lambda>p. io_ret []), ho_read_text = (\<lambda>p. io_ret []), ho_mkdir = (\<lambda>p. io_ret ()), ho_rmtree = (\<lambda>p. io_ret ()),
        ho_rmdir = (\<lambda>p. io_ret ()), ho_exec = (\<lambda>c. io_ret (Some 0, [], []))\<rparr>,
      ph_home = [''home''], ph_agents = JObj [], ph_loads = talk_loads, ph_dumps = py_repr,
      ph_exists = (\<lambda>v. io_ret True), ph_transcript = (\<lambda>p. io_ret talk), ph_makedirs = (\<lambda>p. io_ret ()),
      ph_mkdtemp = (\<lambda>p d. io_ret (d @ ''/'' @ p)), ph_write = (\<lambda>p t. io_ret ()),
      ph_remove = (\<lambda>p. io_ret ()), ph_git_in = (\<lambda>d c. io_ret (Some 0, [], [])),
      ph_claude_md = (\<lambda>r. io_ret None), ph_memory_index = (\<lambda>r. io_ret None),
      ph_session = (\<lambda>prompt opts. io_ret
         ([ResultMessage (JInt 1) (JInt 5) (JBool False) (JStr ''0123456789'') (JStr ''success'')], None)),
      ph_sleep = (\<lambda>d. io_ret ()), ph_timeout = 1800, ph_max_retries = 3, ph_base_delay = 5,
      ph_sync = (\<lambda>r b. io_ret (Some ''/repos/bot.git'')), ph_auth_configured = True, ph_token = io_ret ''ghs_1'',
      ph_close_auth = io_ret (), ph_bot_repo = ''o/bot'', ph_bot_username = ''bot'', ph_bot_email = ''b@o'', ph_persist = True\<rparr>"

definition sample_post_host :: "(nat \<times> bool) post_host" where
  "sample_post_host = calm_host
     \<lparr>ph_exists := (\<lambda>v s. (Inr (if v = JStr ''/home/.git-credentials'' then snd s else True), s)),
      ph_write := (\<lambda>p t s. (Inr (), (fst s, snd s \<or> p = ''/home/.git-credentials''))),
      ph_remove := (\<lambda>p s. (Inr (), (fst s, False))),
      ph_session := (\<lambda>prompt opts s. io_then (\<lambda>s. (Inr (), (Suc (fst s), snd s))) (ph_session calm_host prompt opts) s)\<rparr>"

definition sample_memory_message :: "json dict" where
  "sample_memory_message = [(''repo'', JStr ''o/r''), (''transcript_path'', JStr ''/t.jsonl''), (''hook_event'', JStr ''Stop''),
     (''claude_md'', JStr ''be kind''), (''memory_index'', JNull)]"



definition sample_hook_input :: "json dict" where
  "sample_hook_input = [(''transcript_path'', JStr ''/t.jsonl'')]"

lemma buffered_job_reaches_extractor_witness:
  "\<exists>s1 s2. flush_post_jobs flaky_env (ph_sleep calm_host) (fst (capture_and_buffer sample_capture sample_hook_input [])) sample_world = (Inr (), s1)
     \<and> rlist (fk_state s2) MEMORY_QUEUE = []
     \<and> memory_round flaky_env calm_host (JInt 0) s1 =
         io_try (io_try (process_memory_job calm_host (memory_message sample_capture sample_hook_input))
           (\<lambda>e. if is_transient_error e
                then enqueue_for_retry flaky_env MEMORY_QUEUE MEMORY_DLQ (memory_message sample_capture sample_hook_input) e DEFAULT_MAX_JOB_RETRIES (JInt 0)
                else enqueue_for_retry flaky_env MEMORY_QUEUE MEMORY_DLQ (memory_message sample_capture sample_hook_input) e 0 (JInt 0)))
           (\<lambda>e. if exc_isinstance e JSONDecodeError then io_ret () else ph_sleep calm_host 5) s2"
proof -
  have sl: "\<forall>d. sim fk_state (\<lambda>w. fk_fault w = None) (ph_sleep calm_host d) (io_ret ())" by (simp add: calm_host_def sim_def io_ret_run)
  have jobs: "capture_and_buffer sample_capture sample_hook_input [] = (fst (capture_and_buffer sample_capture sample_hook_input []), True)"
    by code_simp
  have event: "hook_field sample_hook_input ''hook_event_name'' (JStr ''Stop'') = JStr ''Stop''" by code_simp
  have ok: "json_ok (JObj (memory_message sample_capture sample_hook_input))"
    by (simp add: memory_message_def sample_capture_def sample_hook_input_def hook_field_def transcript_path_of_def py_or_def)
  have "\<forall>q \<in> post_queues. rlist_ok (fk_state sample_world) q" "rlist (fk_state sample_world) MEMORY_QUEUE = []"
    by (simp_all add: rlist_ok_def rlist_def)
  from buffered_job_reaches_extractor [OF flaky.redis_server_axioms _ sl this _ jobs event ok, of "JInt 0"]
  show ?thesis by (fastforce simp: sample_capture_def)
qed

section \<open>What the code does not do\<close>

text \<open>The fifth argument of the command is documented to be omitted when there was no error, and the sixth
  to say that the session was a subagent's: without an error the word stands in the fifth place.\<close>

lemma subagent_is_fifth_argument:
  "filter (\<lambda>w. w \<noteq> []) (str_split CHR '' '' (retro_prompt ''/w/t.md'' (JStr ''fix'') (JStr ''o/r'') 4 False True)) =
     [''/retrospector:retrospect'', ''/w/t.md'', ''fix'', ''o/r'', ''4'', ''subagent'']"
  by code_simp

text \<open>A failing agent is never seen by the handler, whose retries and dead letters it was meant for.\<close>

lemma retro_agent_never_raises: "fst (retro_agent P prompt b s) = Inr ()"
  by (auto simp: retro_agent_def io_try_run io_bind_run io_then_run io_ret_run io_of_result_run split: prod.splits sum.splits)

text \<open>Git's exit code is not looked at, so a worktree that git cannot remove stays.\<close>

lemma failed_removal_ignored:
  assumes "\<not> ph_persist P" "w \<noteq> []" "d \<noteq> []" "ph_exists P (JStr w) s = (Inr True, s)"
    and "ho_exec (ph_host P) (worktree_remove d w) s = (Inr (Some 128, out, err), s)"
  shows "retro_remove_worktree P (Some w) (Some d) s = (Inr (), s)"
  using assms
  by (simp add: retro_remove_worktree_def io_bind_run io_try_run io_then_run io_ret_run execute_git_command_def worktree_remove_def)

end
