(* ===== verification/Ts_Languages.thy ===== *)
theory Ts_Languages
  imports Json_Value
begin

text \<open>
  \<^verbatim>\<open>shared/ts_languages.py\<close>: the registry of the languages that the chunker, the tags and the
  code graph parse with tree-sitter. The queries are data for the parser; importing a grammar package is
  an argument.
\<close>

section \<open>The registry\<close>

record language_config =
  lc_name :: string
  lc_module :: string
  lc_extensions :: "string list"
  lc_language_attr :: string
  lc_function_types :: "string list"
  lc_class_types :: "string list"
  lc_method_types :: "string list"
  lc_decorator_types :: "string list"
  lc_definition_queries :: "(string \<times> string) list"
  lc_reference_queries :: "(string \<times> string) list"
  lc_call_queries :: "(string \<times> string) list"
  lc_import_queries :: "(string \<times> string) list"
  lc_inheritance_queries :: "(string \<times> string) list"

definition lang_python :: language_config where
  "lang_python =
     \<lparr>lc_name = ''python'', lc_module = ''tree_sitter_python'',
      lc_extensions = [''.py'', ''.pyw''], lc_language_attr = ''language'',
      lc_function_types = [''function_definition''],
      lc_class_types = [''class_definition''],
      lc_method_types = [''function_definition''],
      lc_decorator_types = [''decorated_definition''],
      lc_definition_queries =
       [(''class'', ''(class_definition name: (identifier) @name) @node''),
       (''function'', ''(function_definition name: (identifier) @name) @node''),
       (''variable'', ''(assignment left: (identifier) @name) @node''),
       (''decorator'', ''(decorated_definition definition: (class_definition name: (identifier) @name)) @node''),
       (''decorator'', ''(decorated_definition definition: (function_definition name: (identifier) @name)) @node'')],
      lc_reference_queries =
       [(''identifier'', ''(identifier) @name'')],
      lc_call_queries =
       [(''call'', ''(call function: (identifier) @target) @node''),
       (''call_method'', ''(call function: (attribute attribute: (identifier) @target)) @node'')],
      lc_import_queries =
       [(''import'', ''(import_statement name: (dotted_name (identifier) @target)) @node''),
       (''import_from_module'', ''(import_from_statement module_name: (dotted_name) @target) @node''),
       (''import_from_name'', ''(import_from_statement name: (dotted_name (identifier) @target)) @node'')],
      lc_inheritance_queries =
       [(''inherit'', ''(class_definition superclasses: (argument_list (identifier) @target)) @node'')]\<rparr>"

definition lang_javascript :: language_config where
  "lang_javascript =
     \<lparr>lc_name = ''javascript'', lc_module = ''tree_sitter_javascript'',
      lc_extensions = [''.js'', ''.mjs'', ''.cjs''], lc_language_attr = ''language'',
      lc_function_types = [''function_declaration'', ''generator_function_declaration''],
      lc_class_types = [''class_declaration''],
      lc_method_types = [''method_definition'', ''generator_method_definition''],
      lc_decorator_types = [],
      lc_definition_queries =
       [(''function'', ''(function_declaration name: (identifier) @name) @node''),
       (''function'', ''(generator_function_declaration name: (identifier) @name) @node''),
       (''function'', ''(export_statement (function_declaration name: (identifier) @name)) @node''),
       (''function'', ''(variable_declarator name: (identifier) @name value: (arrow_function)) @node''),
       (''class'', ''(class_declaration name: (identifier) @name) @node''),
       (''class'', ''(export_statement (class_declaration name: (identifier) @name)) @node''),
       (''variable'', ''(variable_declarator name: (identifier) @name) @node''),
       (''variable'', ''(export_statement (lexical_declaration (variable_declarator name: (identifier) @name))) @node''),
       (''method'', ''(method_definition name: (property_identifier) @name) @node'')],
      lc_reference_queries =
       [(''identifier'', ''(identifier) @name''),
       (''property'', ''(property_identifier) @name'')],
      lc_call_queries =
       [(''call'', ''(call_expression function: (identifier) @target) @node''),
       (''call_member'', ''(call_expression function: (member_expression property: (property_identifier) @target)) @node'')],
      lc_import_queries =
       [(''import_source'', ''(import_statement source: (string) @target) @node''),
       (''import_clause'', ''(import_clause (identifier) @target) @node''),
       (''import_specifier'', ''(import_specifier name: (identifier) @target) @node''),
       (''namespace_import'', ''(namespace_import (identifier) @target) @node'')],
      lc_inheritance_queries =
       [(''extend'', ''(class_declaration (class_heritage (identifier) @target)) @node'')]\<rparr>"

definition lang_typescript :: language_config where
  "lang_typescript =
     \<lparr>lc_name = ''typescript'', lc_module = ''tree_sitter_typescript'',
      lc_extensions = [''.ts''], lc_language_attr = ''language_typescript'',
      lc_function_types = [''function_declaration''],
      lc_class_types = [''class_declaration'', ''interface_declaration'', ''type_alias_declaration''],
      lc_method_types = [''method_definition'', ''abstract_method_signature''],
      lc_decorator_types = [''decorator''],
      lc_definition_queries =
       [(''function'', ''(function_declaration name: (identifier) @name) @node''),
       (''function'', ''(export_statement (function_declaration name: (identifier) @name)) @node''),
       (''function'', ''(variable_declarator name: (identifier) @name value: (arrow_function)) @node''),
       (''class'', ''(class_declaration name: (type_identifier) @name) @node''),
       (''interface'', ''(interface_declaration name: (type_identifier) @name) @node''),
       (''type'', ''(type_alias_declaration name: (type_identifier) @name) @node''),
       (''enum'', ''(enum_declaration name: (identifier) @name) @node''),
       (''method'', ''(method_definition name: (property_identifier) @name) @node''),
       (''method'', ''(abstract_method_signature name: (property_identifier) @name) @node''),
       (''namespace'', ''(internal_module name: (identifier) @name) @node'')],
      lc_reference_queries =
       [(''identifier'', ''(identifier) @name''),
       (''type_identifier'', ''(type_identifier) @name'')],
      lc_call_queries =
       [(''call'', ''(call_expression function: (identifier) @target) @node''),
       (''call_member'', ''(call_expression function: (member_expression property: (property_identifier) @target)) @node'')],
      lc_import_queries =
       [(''import_source'', ''(import_statement source: (string) @target) @node''),
       (''import_clause'', ''(import_clause (identifier) @target) @node''),
       (''import_specifier'', ''(import_specifier name: (identifier) @target) @node''),
       (''namespace_import'', ''(namespace_import (identifier) @target) @node'')],
      lc_inheritance_queries =
       [(''extend'', ''(class_declaration (class_heritage (extends_clause (identifier) @target))) @node''),
       (''implement'', ''(class_declaration (class_heritage (implements_clause (type_identifier) @target))) @node'')]\<rparr>"

definition lang_tsx :: language_config where
  "lang_tsx =
     \<lparr>lc_name = ''tsx'', lc_module = ''tree_sitter_typescript'',
      lc_extensions = [''.tsx''], lc_language_attr = ''language_tsx'',
      lc_function_types = [''function_declaration''],
      lc_class_types = [''class_declaration'', ''interface_declaration'', ''type_alias_declaration''],
      lc_method_types = [''method_definition'', ''abstract_method_signature''],
      lc_decorator_types = [''decorator''],
      lc_definition_queries =
       [(''function'', ''(function_declaration name: (identifier) @name) @node''),
       (''function'', ''(export_statement (function_declaration name: (identifier) @name)) @node''),
       (''function'', ''(variable_declarator name: (identifier) @name value: (arrow_function)) @node''),
       (''class'', ''(class_declaration name: (type_identifier) @name) @node''),
       (''interface'', ''(interface_declaration name: (type_identifier) @name) @node''),
       (''type'', ''(type_alias_declaration name: (type_identifier) @name) @node''),
       (''enum'', ''(enum_declaration name: (identifier) @name) @node''),
       (''method'', ''(method_definition name: (property_identifier) @name) @node''),
       (''method'', ''(abstract_method_signature name: (property_identifier) @name) @node''),
       (''namespace'', ''(internal_module name: (identifier) @name) @node'')],
      lc_reference_queries =
       [(''identifier'', ''(identifier) @name''),
       (''type_identifier'', ''(type_identifier) @name'')],
      lc_call_queries =
       [(''call'', ''(call_expression function: (identifier) @target) @node''),
       (''call_member'', ''(call_expression function: (member_expression property: (property_identifier) @target)) @node'')],
      lc_import_queries =
       [(''import_source'', ''(import_statement source: (string) @target) @node''),
       (''import_clause'', ''(import_clause (identifier) @target) @node''),
       (''import_specifier'', ''(import_specifier name: (identifier) @target) @node''),
       (''namespace_import'', ''(namespace_import (identifier) @target) @node'')],
      lc_inheritance_queries =
       [(''extend'', ''(class_declaration (class_heritage (extends_clause (identifier) @target))) @node''),
       (''implement'', ''(class_declaration (class_heritage (implements_clause (type_identifier) @target))) @node'')]\<rparr>"

definition lang_go :: language_config where
  "lang_go =
     \<lparr>lc_name = ''go'', lc_module = ''tree_sitter_go'',
      lc_extensions = [''.go''], lc_language_attr = ''language'',
      lc_function_types = [''function_declaration''],
      lc_class_types = [''type_declaration''],
      lc_method_types = [''method_declaration''],
      lc_decorator_types = [],
      lc_definition_queries =
       [(''function'', ''(function_declaration name: (identifier) @name) @node''),
       (''method'', ''(method_declaration name: (field_identifier) @name) @node''),
       (''type'', ''(type_declaration (type_spec name: (type_identifier) @name)) @node''),
       (''type'', ''(type_alias name: (type_identifier) @name) @node''),
       (''variable'', ''(short_var_declaration left: (expression_list (identifier) @name)) @node''),
       (''variable'', ''(var_spec name: (identifier) @name) @node''),
       (''constant'', ''(const_spec name: (identifier) @name) @node''),
       (''method'', ''(method_elem name: (field_identifier) @name) @node'')],
      lc_reference_queries =
       [(''identifier'', ''(identifier) @name''),
       (''field'', ''(field_identifier) @name'')],
      lc_call_queries =
       [],
      lc_import_queries =
       [],
      lc_inheritance_queries =
       []\<rparr>"

definition lang_rust :: language_config where
  "lang_rust =
     \<lparr>lc_name = ''rust'', lc_module = ''tree_sitter_rust'',
      lc_extensions = [''.rs''], lc_language_attr = ''language'',
      lc_function_types = [''function_item''],
      lc_class_types = [''struct_item'', ''enum_item'', ''trait_item'', ''impl_item''],
      lc_method_types = [''function_item''],
      lc_decorator_types = [],
      lc_definition_queries =
       [(''function'', ''(function_item name: (identifier) @name) @node''),
       (''struct'', ''(struct_item name: (type_identifier) @name) @node''),
       (''enum'', ''(enum_item name: (type_identifier) @name) @node''),
       (''enum_variant'', ''(enum_variant name: (identifier) @name) @node''),
       (''trait'', ''(trait_item name: (type_identifier) @name) @node''),
       (''impl'', ''(impl_item type: (type_identifier) @name) @node''),
       (''constant'', ''(const_item name: (identifier) @name) @node''),
       (''constant'', ''(static_item name: (identifier) @name) @node''),
       (''type'', ''(type_item name: (type_identifier) @name) @node''),
       (''module'', ''(mod_item name: (identifier) @name) @node''),
       (''union'', ''(union_item name: (type_identifier) @name) @node'')],
      lc_reference_queries =
       [(''identifier'', ''(identifier) @name''),
       (''type_identifier'', ''(type_identifier) @name'')],
      lc_call_queries =
       [],
      lc_import_queries =
       [],
      lc_inheritance_queries =
       []\<rparr>"

definition lang_java :: language_config where
  "lang_java =
     \<lparr>lc_name = ''java'', lc_module = ''tree_sitter_java'',
      lc_extensions = [''.java''], lc_language_attr = ''language'',
      lc_function_types = [''method_declaration''],
      lc_class_types = [''class_declaration'', ''interface_declaration'', ''enum_declaration''],
      lc_method_types = [''method_declaration'', ''constructor_declaration''],
      lc_decorator_types = [],
      lc_definition_queries =
       [(''class'', ''(class_declaration name: (identifier) @name) @node''),
       (''interface'', ''(interface_declaration name: (identifier) @name) @node''),
       (''enum'', ''(enum_declaration name: (identifier) @name) @node''),
       (''enum_constant'', ''(enum_body (enum_constant name: (identifier) @name)) @node''),
       (''method'', ''(method_declaration name: (identifier) @name) @node''),
       (''constructor'', ''(constructor_declaration name: (identifier) @name) @node''),
       (''field'', ''(field_declaration declarator: (variable_declarator name: (identifier) @name)) @node''),
       (''annotation'', ''(annotation_type_declaration name: (identifier) @name) @node''),
       (''record'', ''(record_declaration name: (identifier) @name) @node'')],
      lc_reference_queries =
       [(''identifier'', ''(identifier) @name''),
       (''type_identifier'', ''(type_identifier) @name'')],
      lc_call_queries =
       [],
      lc_import_queries =
       [],
      lc_inheritance_queries =
       []\<rparr>"

definition lang_c :: language_config where
  "lang_c =
     \<lparr>lc_name = ''c'', lc_module = ''tree_sitter_c'',
      lc_extensions = [''.c'', ''.h''], lc_language_attr = ''language'',
      lc_function_types = [''function_definition''],
      lc_class_types = [''struct_specifier'', ''enum_specifier''],
      lc_method_types = [],
      lc_decorator_types = [],
      lc_definition_queries =
       [(''function'', ''(function_definition declarator: (function_declarator declarator: (identifier) @name)) @node''),
       (''struct'', ''(struct_specifier name: (type_identifier) @name) @node''),
       (''enum'', ''(enum_specifier name: (type_identifier) @name) @node''),
       (''typedef'', ''(type_definition declarator: (type_identifier) @name) @node''),
       (''macro'', ''(preproc_def name: (identifier) @name) @node''),
       (''macro'', ''(preproc_function_def name: (identifier) @name) @node''),
       (''union'', ''(union_specifier name: (type_identifier) @name) @node'')],
      lc_reference_queries =
       [(''identifier'', ''(identifier) @name''),
       (''type_identifier'', ''(type_identifier) @name'')],
      lc_call_queries =
       [],
      lc_import_queries =
       [],
      lc_inheritance_queries =
       []\<rparr>"

definition lang_cpp :: language_config where
  "lang_cpp =
     \<lparr>lc_name = ''cpp'', lc_module = ''tree_sitter_cpp'',
      lc_extensions = [''.cpp'', ''.cc'', ''.cxx'', ''.hpp'', ''.hxx''], lc_language_attr = ''language'',
      lc_function_types = [''function_definition''],
      lc_class_types = [''class_specifier'', ''struct_specifier''],
      lc_method_types = [''function_definition''],
      lc_decorator_types = [],
      lc_definition_queries =
       [(''function'', ''(function_definition declarator: (function_declarator declarator: (identifier) @name)) @node''),
       (''class'', ''(class_specifier name: (type_identifier) @name) @node''),
       (''struct'', ''(struct_specifier name: (type_identifier) @name) @node''),
       (''namespace'', ''(namespace_definition name: (namespace_identifier) @name) @node''),
       (''enum'', ''(enum_specifier name: (type_identifier) @name) @node''),
       (''typedef'', ''(type_definition declarator: (type_identifier) @name) @node''),
       (''union'', ''(union_specifier name: (type_identifier) @name) @node''),
       (''template_function'', ''(template_declaration (function_definition declarator: (function_declarator declarator: (identifier) @name))) @node''),
       (''template_class'', ''(template_declaration (class_specifier name: (type_identifier) @name)) @node''),
       (''using'', ''(alias_declaration name: (type_identifier) @name) @node'')],
      lc_reference_queries =
       [(''identifier'', ''(identifier) @name''),
       (''type_identifier'', ''(type_identifier) @name'')],
      lc_call_queries =
       [],
      lc_import_queries =
       [],
      lc_inheritance_queries =
       []\<rparr>"

definition lang_ruby :: language_config where
  "lang_ruby =
     \<lparr>lc_name = ''ruby'', lc_module = ''tree_sitter_ruby'',
      lc_extensions = [''.rb''], lc_language_attr = ''language'',
      lc_function_types = [''method'', ''singleton_method''],
      lc_class_types = [''class'', ''module''],
      lc_method_types = [''method'', ''singleton_method''],
      lc_decorator_types = [],
      lc_definition_queries =
       [(''method'', ''(method name: (identifier) @name) @node''),
       (''method'', ''(singleton_method name: (identifier) @name) @node''),
       (''class'', ''(class name: (constant) @name) @node''),
       (''module'', ''(module name: (constant) @name) @node''),
       (''constant'', ''(assignment left: (constant) @name) @node'')],
      lc_reference_queries =
       [(''identifier'', ''(identifier) @name''),
       (''constant'', ''(constant) @name'')],
      lc_call_queries =
       [],
      lc_import_queries =
       [],
      lc_inheritance_queries =
       []\<rparr>"

definition LANGUAGES :: "language_config dict" where
  "LANGUAGES =
     [(''python'', lang_python), (''javascript'', lang_javascript), (''typescript'', lang_typescript), (''tsx'', lang_tsx),
      (''go'', lang_go), (''rust'', lang_rust), (''java'', lang_java), (''c'', lang_c), (''cpp'', lang_cpp), (''ruby'', lang_ruby)]"

definition EXTENSION_MAP :: "string dict" where
  "EXTENSION_MAP = fold (\<lambda>p. fold (\<lambda>ext. dict_set ext (lc_name (snd p))) (lc_extensions (snd p))) LANGUAGES []"

section \<open>Loading a grammar\<close>

text \<open>\<open>load module attr\<close> imports the package and makes a language of it, or raises. What was found,
  also that nothing was, is cached under the name.\<close>

definition get_language ::
    "(string \<Rightarrow> string \<Rightarrow> 'l result) \<Rightarrow> 'l option dict \<Rightarrow> string \<Rightarrow> 'l option \<times> 'l option dict" where
  "get_language load cache name =
     (case dict_get cache name of
        Some lang \<Rightarrow> (lang, cache)
      | None \<Rightarrow>
          (case dict_get LANGUAGES name of
             None \<Rightarrow> (None, dict_set name None cache)
           | Some config \<Rightarrow>
               (case load (lc_module config) (lc_language_attr config) of
                  Inr lang \<Rightarrow> (Some lang, dict_set name (Some lang) cache)
                | Inl e \<Rightarrow> (None, dict_set name None cache))))"

definition get_language_config :: "string \<Rightarrow> language_config option" where
  "get_language_config name = dict_get LANGUAGES name"

definition language_for_extension ::
    "(string \<Rightarrow> string \<Rightarrow> 'l result) \<Rightarrow> 'l option dict \<Rightarrow> string \<Rightarrow>
     ('l option \<times> language_config option) \<times> 'l option dict" where
  "language_for_extension load cache ext =
     (case dict_get EXTENSION_MAP (str_lower ext) of
        None \<Rightarrow> ((None, None), cache)
      | Some name \<Rightarrow> (case get_language load cache name of (lang, cache') \<Rightarrow> ((lang, get_language_config name), cache')))"

section \<open>The registry is consistent\<close>

lemma lang_names [simp]:
  "lc_name lang_python = ''python''"
  "lc_name lang_javascript = ''javascript''"
  "lc_name lang_typescript = ''typescript''"
  "lc_name lang_tsx = ''tsx''"
  "lc_name lang_go = ''go''"
  "lc_name lang_rust = ''rust''"
  "lc_name lang_java = ''java''"
  "lc_name lang_c = ''c''"
  "lc_name lang_cpp = ''cpp''"
  "lc_name lang_ruby = ''ruby''"
  by (simp_all only: lang_python_def lang_javascript_def lang_typescript_def lang_tsx_def lang_go_def lang_rust_def lang_java_def lang_c_def lang_cpp_def lang_ruby_def language_config.simps)

lemma lang_extensions [simp]:
  "lc_extensions lang_python = [''.py'', ''.pyw'']"
  "lc_extensions lang_javascript = [''.js'', ''.mjs'', ''.cjs'']"
  "lc_extensions lang_typescript = [''.ts'']"
  "lc_extensions lang_tsx = [''.tsx'']"
  "lc_extensions lang_go = [''.go'']"
  "lc_extensions lang_rust = [''.rs'']"
  "lc_extensions lang_java = [''.java'']"
  "lc_extensions lang_c = [''.c'', ''.h'']"
  "lc_extensions lang_cpp = [''.cpp'', ''.cc'', ''.cxx'', ''.hpp'', ''.hxx'']"
  "lc_extensions lang_ruby = [''.rb'']"
  by (simp_all only: lang_python_def lang_javascript_def lang_typescript_def lang_tsx_def lang_go_def lang_rust_def lang_java_def lang_c_def lang_cpp_def lang_ruby_def language_config.simps)

lemma languages_named: "list_all (\<lambda>p. lc_name (snd p) = fst p) LANGUAGES"
  by (simp add: LANGUAGES_def)

lemma extension_map_value:
  "EXTENSION_MAP = concat (map (\<lambda>p. map (\<lambda>ext. (ext, fst p)) (lc_extensions (snd p))) LANGUAGES)"
  by (simp add: EXTENSION_MAP_def LANGUAGES_def)

lemma extensions_distinct: "distinct (map fst EXTENSION_MAP)"
  by (simp add: extension_map_value LANGUAGES_def)

lemma languages_distinct: "distinct (map fst LANGUAGES)"
  by (simp add: LANGUAGES_def)

text \<open>The code graph and the tags read the node that a query matched under the capture \<open>node\<close>.\<close>

definition names_node :: "(string \<times> string) list \<Rightarrow> bool" where
  "names_node queries \<longleftrightarrow> list_all (\<lambda>q. str_endswith (snd q) ''@node'') queries"

definition well_formed_config :: "language_config \<Rightarrow> bool" where
  "well_formed_config c \<longleftrightarrow>
     lc_extensions c \<noteq> [] \<and> list_all (\<lambda>ext. str_startswith ext ''.'' \<and> str_lower ext = ext) (lc_extensions c) \<and>
     names_node (lc_definition_queries c) \<and> names_node (lc_call_queries c) \<and>
     names_node (lc_import_queries c) \<and> names_node (lc_inheritance_queries c)"

lemma wf_python: "well_formed_config lang_python" by code_simp
lemma wf_javascript: "well_formed_config lang_javascript" by code_simp
lemma wf_typescript: "well_formed_config lang_typescript" by code_simp
lemma wf_tsx: "well_formed_config lang_tsx" by code_simp
lemma wf_go: "well_formed_config lang_go" by code_simp
lemma wf_rust: "well_formed_config lang_rust" by code_simp
lemma wf_java: "well_formed_config lang_java" by code_simp
lemma wf_c: "well_formed_config lang_c" by code_simp
lemma wf_cpp: "well_formed_config lang_cpp" by code_simp
lemma wf_ruby: "well_formed_config lang_ruby" by code_simp

lemmas wf_langs = wf_python wf_javascript wf_typescript wf_tsx wf_go wf_rust wf_java wf_c wf_cpp wf_ruby

lemma configs_well_formed: "list_all (\<lambda>p. well_formed_config (snd p)) LANGUAGES"
  by (simp add: LANGUAGES_def wf_langs)

lemma configured_language:
  assumes "(name, c) \<in> set LANGUAGES" "ext \<in> set (lc_extensions c)"
  shows "lc_name c = name" "well_formed_config c" "str_lower ext = ext"
proof -
  show "lc_name c = name"
    using languages_named assms(1) unfolding list_all_iff by force
  show w: "well_formed_config c"
    using configs_well_formed assms(1) unfolding list_all_iff by force
  show "str_lower ext = ext"
    using w assms(2) by (simp add: well_formed_config_def list_all_iff)
qed

text \<open>The registry is unambiguous and complete: an extension is mapped to a language exactly when that
  language is registered under its own name with that extension; then the queries of the language mark the
  matched node the way the code graph and the tags read it, and a file with the extension, in any case of
  letters, is answered with the grammar of that language and its configuration.\<close>

theorem registry_consistent:
  "dict_get EXTENSION_MAP ext = Some name \<longleftrightarrow>
     (\<exists>c. get_language_config name = Some c \<and> lc_name c = name \<and> ext \<in> set (lc_extensions c) \<and>
        well_formed_config c \<and>
        fst (language_for_extension load cache ext) = (fst (get_language load cache name), Some c))"
  (is "?L \<longleftrightarrow> (\<exists>c. ?R c)")
proof
  assume L: ?L
  then have "(ext, name) \<in> set EXTENSION_MAP"
    using extensions_distinct by simp
  then obtain c where c: "(name, c) \<in> set LANGUAGES" "ext \<in> set (lc_extensions c)"
    by (auto simp: extension_map_value)
  then have "get_language_config name = Some c" "lc_name c = name" "well_formed_config c" "str_lower ext = ext"
    using configured_language[OF c] languages_distinct by (simp_all add: get_language_config_def)
  then show "\<exists>c. ?R c"
    using L c(2) by (auto simp: language_for_extension_def split: prod.split)
next
  assume "\<exists>c. ?R c"
  then obtain c where c: "(name, c) \<in> set LANGUAGES" "ext \<in> set (lc_extensions c)"
    using languages_distinct by (auto simp: get_language_config_def)
  then have "(ext, name) \<in> set EXTENSION_MAP"
    by (force simp: extension_map_value)
  then show ?L
    using extensions_distinct by simp
qed

lemma get_language_cached:
  "get_language load' (snd (get_language load cache name)) name =
     (fst (get_language load cache name), snd (get_language load cache name))"
  by (simp add: get_language_def split: option.split sum.split)

end
