(* ===== verification/Chunker.thy ===== *)
theory Chunker
  imports Ts_Languages File_Tree Memory_Server Indexing_Worker
begin

text \<open>
  \<^verbatim>\<open>shared/chunker.py\<close>: cuts a source file into the chunks that the indexing worker embeds: along the
  definitions of the syntax tree, or, without a grammar, along the lines that look like definitions.
  Reading a file, importing a grammar and parsing are arguments.
\<close>

section \<open>Text and trees\<close>

text \<open>Decoding UTF-8 with \<open>errors="replace"\<close>: the longest part of a broken sequence that could have been the
  beginning of a character becomes one replacement character.\<close>

definition utf8_ranges :: "nat \<Rightarrow> (nat \<times> nat) list" where
  "utf8_ranges b =
     (if 0xC2 \<le> b \<and> b \<le> 0xDF then [(0x80, 0xBF)]
      else if b = 0xE0 then [(0xA0, 0xBF), (0x80, 0xBF)]
      else if b = 0xED then [(0x80, 0x9F), (0x80, 0xBF)]
      else if 0xE1 \<le> b \<and> b \<le> 0xEF then [(0x80, 0xBF), (0x80, 0xBF)]
      else if b = 0xF0 then [(0x90, 0xBF), (0x80, 0xBF), (0x80, 0xBF)]
      else if 0xF1 \<le> b \<and> b \<le> 0xF3 then [(0x80, 0xBF), (0x80, 0xBF), (0x80, 0xBF)]
      else if b = 0xF4 then [(0x80, 0x8F), (0x80, 0xBF), (0x80, 0xBF)]
      else [])"

fun trailing :: "(nat \<times> nat) list \<Rightarrow> string \<Rightarrow> nat" where
  "trailing ((low, high) # ranges) (c # cs) =
     (if low \<le> of_char c \<and> of_char c \<le> high then Suc (trailing ranges cs) else 0)"
| "trailing _ _ = 0"

definition replacement_char :: string where "replacement_char = [CHR 0xEF, CHR 0xBF, CHR 0xBD]"

function decode_replace :: "string \<Rightarrow> string" where
  "decode_replace [] = []"
| "decode_replace (c # cs) =
     (let ranges = utf8_ranges (of_char c); n = trailing ranges cs in
      (if of_char c < (0x80 :: nat) then [c]
       else if ranges \<noteq> [] \<and> n = length ranges then c # take n cs
       else replacement_char) @ decode_replace (drop n cs))"
  by pat_completeness auto
termination by (relation "measure length") (auto simp: less_Suc_eq_le)

text \<open>A node of the tree: its type, its bytes and its rows (zero-based), each from and to.\<close>

datatype ts_node = Ts_Node
  (nd_type: string) (start_byte: nat) (end_byte: nat) (start_row: nat) (end_row: nat) (nd_children: "ts_node list")

definition node_text :: "string \<Rightarrow> ts_node \<Rightarrow> string" where
  "node_text source node = decode_replace (take (end_byte node - start_byte node) (drop (start_byte node) source))"

definition extract_name :: "ts_node \<Rightarrow> string \<Rightarrow> string" where
  "extract_name node source =
     (case find (\<lambda>child. nd_type child \<in> set
          [''identifier'', ''property_identifier'', ''type_identifier'', ''field_identifier'', ''constant'']) (nd_children node) of
        Some child \<Rightarrow> node_text source child
      | None \<Rightarrow> ''unknown'')"

text \<open>\<open>b"\n".join(lines[first - 1 : to]).decode(...)\<close> for lines numbered from one.\<close>

definition lines_between :: "string \<Rightarrow> nat \<Rightarrow> nat \<Rightarrow> string" where
  "lines_between source first to =
     decode_replace (str_join nl (take (to - (first - 1)) (drop (first - 1) (str_split (CHR 0x0A) source))))"

section \<open>Chunks of the syntax tree\<close>

definition DEFAULT_MAX_LINES :: nat where "DEFAULT_MAX_LINES = 150"
definition MAX_FUNCTION_LINES :: nat where "MAX_FUNCTION_LINES = 200"

definition first_line :: "ts_node \<Rightarrow> ts_node option \<Rightarrow> nat" where
  "first_line node wrapper = start_row (opt_default node wrapper) + 1"

definition final_line :: "ts_node \<Rightarrow> nat" where "final_line node = end_row node + 1"

definition make_chunk :: "ts_node \<Rightarrow> string \<Rightarrow> string \<Rightarrow> string \<Rightarrow> ts_node option \<Rightarrow> chunk" where
  "make_chunk node source rel language wrapper =
     \<lparr>ck_filepath = rel, ck_name = extract_name node source, ck_kind = ''function'', ck_language = language,
      ck_start_line = int (first_line node wrapper), ck_end_line = int (final_line node),
      ck_content = node_text source (opt_default node wrapper), ck_parent = None\<rparr>"

definition SPLIT_BLOCK_TYPES :: "string list" where
  "SPLIT_BLOCK_TYPES =
     [''try_statement'', ''if_statement'', ''for_statement'', ''while_statement'', ''with_statement'', ''match_statement'']"

definition body_start :: "ts_node \<Rightarrow> nat \<Rightarrow> nat" where
  "body_start node start_line =
     (case find (\<lambda>child. nd_type child \<in> set [''block'', ''function_body'', ''statement_block'']) (nd_children node) of
        Some child \<Rightarrow> start_row child + 1
      | None \<Rightarrow> start_line)"

text \<open>The lines at which a part starts: the body's, and those of the blocks that come later than the one before.\<close>

fun part_starts :: "nat \<Rightarrow> nat list \<Rightarrow> nat list" where
  "part_starts b [] = [b]"
| "part_starts b (s # ss) = (if s > b then b # part_starts s ss else part_starts b ss)"

definition block_lines :: "ts_node \<Rightarrow> nat list" where
  "block_lines node =
     map (\<lambda>child. start_row child + 1) (filter (\<lambda>child. nd_type child \<in> set SPLIT_BLOCK_TYPES) (nd_children node))"

fun part_ranges :: "nat list \<Rightarrow> (nat \<times> nat) list" where
  "part_ranges (a # b # bs) = (a, b - 1) # part_ranges (b # bs)"
| "part_ranges _ = []"

definition function_part :: "string \<Rightarrow> string \<Rightarrow> string \<Rightarrow> string \<Rightarrow> string \<Rightarrow> nat \<times> nat \<times> nat \<Rightarrow> chunk" where
  "function_part source rel language func_name sig_text part =
     (case part of (i, part_start, part_end) \<Rightarrow>
       \<lparr>ck_filepath = rel, ck_name = func_name @ '' (part '' @ show_nat (i + 1) @ '')'', ck_kind = ''function'',
        ck_language = language, ck_start_line = int part_start, ck_end_line = int part_end,
        ck_content = sig_text @ lines_between source part_start part_end, ck_parent = None\<rparr>)"

definition split_oversized_function :: "ts_node \<Rightarrow> string \<Rightarrow> string \<Rightarrow> string \<Rightarrow> ts_node option \<Rightarrow> chunk list" where
  "split_oversized_function node source rel language wrapper =
     (if length (block_lines node) < 2 then [make_chunk node source rel language wrapper]
      else
        let start_line = first_line node wrapper; body = body_start node start_line;
            boundaries = part_starts body (block_lines node) @ [final_line node + 1];
            parts = filter (\<lambda>(i, part_start, part_end). part_start \<le> part_end)
              (zip [0..<length (part_ranges boundaries)] (part_ranges boundaries));
            sig_text = lines_between source start_line (body - 1) @ nl;
            chunks = map (function_part source rel language (extract_name node source) sig_text) parts
        in if chunks \<noteq> [] then chunks else [make_chunk node source rel language wrapper])"

definition make_function_chunks :: "ts_node \<Rightarrow> string \<Rightarrow> string \<Rightarrow> string \<Rightarrow> ts_node option \<Rightarrow> chunk list" where
  "make_function_chunks node source rel language wrapper =
     (if int (final_line node) - int (first_line node wrapper) + 1 \<le> int MAX_FUNCTION_LINES
      then [make_chunk node source rel language wrapper]
      else split_oversized_function node source rel language wrapper)"

definition find_header_end :: "ts_node \<Rightarrow> string list \<Rightarrow> nat" where
  "find_header_end node method_types =
     (case find (\<lambda>child. nd_type child \<in> set method_types) (nd_children node) of
        Some child \<Rightarrow> start_row child + 1
      | None \<Rightarrow> min ((start_row node + end_row node) div 2 + 1) (end_row node + 1))"

definition make_class_chunks :: "ts_node \<Rightarrow> string \<Rightarrow> string \<Rightarrow> language_config \<Rightarrow> ts_node option \<Rightarrow> chunk list" where
  "make_class_chunks node source rel config wrapper =
     (let start_line = first_line node wrapper; end_line = final_line node; class_name = extract_name node source;
          whole = \<lparr>ck_filepath = rel, ck_name = class_name, ck_kind = ''class'', ck_language = lc_name config,
            ck_start_line = int start_line, ck_end_line = int end_line,
            ck_content = node_text source (opt_default node wrapper), ck_parent = None\<rparr>
      in if int end_line - int start_line + 1 \<le> int DEFAULT_MAX_LINES then [whole]
         else
           let header_end = find_header_end node (lc_method_types config) in
           (if header_end > start_line
            then [whole\<lparr>ck_end_line := int header_end, ck_content := lines_between source start_line header_end\<rparr>]
            else [])
           @ map (\<lambda>child.
               \<lparr>ck_filepath = rel, ck_name = extract_name child source, ck_kind = ''method'',
                ck_language = lc_name config, ck_start_line = int (start_row child + 1), ck_end_line = int (end_row child + 1),
                ck_content = node_text source child, ck_parent = Some class_name\<rparr>)
             (filter (\<lambda>child. nd_type child \<in> set (lc_method_types config)) (nd_children node)))"

definition definition_chunks :: "string \<Rightarrow> string \<Rightarrow> language_config \<Rightarrow> ts_node option \<Rightarrow> ts_node \<Rightarrow> chunk list" where
  "definition_chunks source rel config wrapper node =
     (if nd_type node \<in> set (lc_function_types config) then make_function_chunks node source rel (lc_name config) wrapper
      else if nd_type node \<in> set (lc_class_types config) then make_class_chunks node source rel config wrapper
      else [])"

definition extract_chunks :: "ts_node \<Rightarrow> string \<Rightarrow> string \<Rightarrow> language_config \<Rightarrow> chunk list" where
  "extract_chunks tree source rel config =
     concat (map (\<lambda>child.
         if nd_type child \<in> set (lc_decorator_types config)
         then concat (map (definition_chunks source rel config (Some child)) (nd_children child))
         else definition_chunks source rel config None child)
       (nd_children tree))"

text \<open>\<open>parse lang bytes\<close> is the root of the tree, none, or an exception.\<close>

definition chunk_with_treesitter ::
    "(string \<Rightarrow> string \<Rightarrow> 'l result) \<Rightarrow> ('l \<Rightarrow> string \<Rightarrow> ts_node option result) \<Rightarrow> 'l option dict \<Rightarrow>
     string \<Rightarrow> string \<Rightarrow> language_config \<Rightarrow> chunk list option \<times> 'l option dict" where
  "chunk_with_treesitter load parse cache source rel config =
     (case get_language load cache (lc_name config) of
        (None, cache') \<Rightarrow> (None, cache')
      | (Some lang, cache') \<Rightarrow>
          (case parse lang source of
             Inr (Some tree) \<Rightarrow>
               (let chunks = extract_chunks tree source rel config in (if chunks \<noteq> [] then Some chunks else None, cache'))
           | _ \<Rightarrow> (None, cache')))"

section \<open>Chunks by pattern\<close>

text \<open>\<open>\w\<close>; beyond ASCII every character is taken for a letter.\<close>

definition is_word :: "char \<Rightarrow> bool" where
  "is_word c \<longleftrightarrow> is_digit c \<or> (CHR ''a'' \<le> c \<and> c \<le> CHR ''z'') \<or> (CHR ''A'' \<le> c \<and> c \<le> CHR ''Z'') \<or> c = CHR ''_'' \<or>
     (0x80 :: nat) \<le> of_char c"

text \<open>\<open>(?:k1|k2|...)\s+(\w+)\<close> and an optional \<open>async\s+\<close>. The spaces after a word end it, so that no
  alternative is tried twice.\<close>

definition word_then_space :: "string \<Rightarrow> (string \<times> string) option" where
  "word_then_space s =
     (let rest = dropWhile is_word s in
      if rest \<noteq> [] \<and> is_space (hd rest) then Some (takeWhile is_word s, dropWhile is_space rest) else None)"

definition keyword_name :: "string list \<Rightarrow> string \<Rightarrow> string option" where
  "keyword_name keywords s =
     (case word_then_space s of
        Some (word, rest) \<Rightarrow> if word \<in> set keywords \<and> takeWhile is_word rest \<noteq> [] then Some (takeWhile is_word rest) else None
      | None \<Rightarrow> None)"

definition skip_async :: "string \<Rightarrow> string" where
  "skip_async s = (case word_then_space s of Some (word, rest) \<Rightarrow> if word = ''async'' then rest else s | None \<Rightarrow> s)"

type_synonym chunk_pattern = "string \<times> (string \<Rightarrow> string option)"

definition GENERIC_CHUNK_PATTERNS :: "chunk_pattern list" where
  "GENERIC_CHUNK_PATTERNS =
     [(''function'', \<lambda>line. keyword_name [''def'', ''function'', ''func'', ''fn'', ''sub''] (skip_async (dropWhile is_space line))),
      (''class'', \<lambda>line. keyword_name [''class'', ''struct'', ''interface'', ''type'', ''enum''] (dropWhile is_space line))]"

definition PYTHON_CHUNK_PATTERNS :: "chunk_pattern list" where
  "PYTHON_CHUNK_PATTERNS =
     [(''class'', \<lambda>line. keyword_name [''class''] (dropWhile is_space line)),
      (''function'', \<lambda>line. keyword_name [''def''] (skip_async (dropWhile is_space line)))]"

definition REGEX_PATTERNS :: "chunk_pattern list dict" where
  "REGEX_PATTERNS = [(''python'', PYTHON_CHUNK_PATTERNS)]"

fun line_definition :: "chunk_pattern list \<Rightarrow> string \<Rightarrow> (string \<times> string) option" where
  "line_definition [] line = None"
| "line_definition ((kind, matches) # patterns) line =
     (case matches line of Some name \<Rightarrow> Some (kind, name) | None \<Rightarrow> line_definition patterns line)"

fun def_starts :: "chunk_pattern list \<Rightarrow> nat \<Rightarrow> string list \<Rightarrow> (nat \<times> string \<times> string) list" where
  "def_starts patterns i [] = []"
| "def_starts patterns i (line # lines) =
     (case line_definition patterns line of Some d \<Rightarrow> [(i, d)] | None \<Rightarrow> []) @ def_starts patterns (Suc i) lines"

text \<open>\<open>Path.stem\<close>\<close>

definition file_stem :: "string \<Rightarrow> string" where
  "file_stem path = take (length (path_name path) - length (path_suffix path)) (path_name path)"

function trim_end :: "string list \<Rightarrow> nat \<Rightarrow> nat \<Rightarrow> nat" where
  "trim_end lines start_idx end_idx =
     (if end_idx > start_idx \<and> str_strip (lines ! end_idx) = [] then trim_end lines start_idx (end_idx - 1) else end_idx)"
  by pat_completeness auto
termination by (relation "measure (\<lambda>(lines, start_idx, end_idx). end_idx)") auto

declare trim_end.simps [simp del]

fun regex_chunks :: "string \<Rightarrow> string \<Rightarrow> string list \<Rightarrow> (nat \<times> string \<times> string) list \<Rightarrow> chunk list" where
  "regex_chunks rel language lines [] = []"
| "regex_chunks rel language lines ((start_idx, kind, name) # starts) =
     (let end_idx = trim_end lines start_idx (case starts of s # _ \<Rightarrow> fst s - 1 | [] \<Rightarrow> length lines - 1) in
      \<lparr>ck_filepath = rel, ck_name = name, ck_kind = kind, ck_language = language,
       ck_start_line = int (start_idx + 1), ck_end_line = int (end_idx + 1),
       ck_content = str_join nl (take (end_idx + 1 - start_idx) (drop start_idx lines)), ck_parent = None\<rparr>
      # regex_chunks rel language lines starts)"

definition chunk_with_regex :: "string \<Rightarrow> string \<Rightarrow> string \<Rightarrow> chunk_pattern list \<Rightarrow> chunk list" where
  "chunk_with_regex source rel language patterns =
     (let lines = str_splitlines source; starts = def_starts patterns 0 lines in
      if lines = [] then []
      else if starts = [] then
        [\<lparr>ck_filepath = rel, ck_name = file_stem rel, ck_kind = ''module'', ck_language = language,
          ck_start_line = 1, ck_end_line = int (length lines), ck_content = source, ck_parent = None\<rparr>]
      else regex_chunks rel language lines starts)"

section \<open>A file\<close>

definition relative_to :: "string \<Rightarrow> string \<Rightarrow> string result" where
  "relative_to path folder =
     (if str_startswith path (folder @ ''/'') then Inr (drop (length folder + 1) path)
      else Inl (Exn ValueError (path @ '' is not in the subpath of '' @ folder)))"

definition chunk_file ::
    "(string \<Rightarrow> string result) \<Rightarrow> (string \<Rightarrow> string \<Rightarrow> 'l result) \<Rightarrow> ('l \<Rightarrow> string \<Rightarrow> ts_node option result) \<Rightarrow> 'l option dict \<Rightarrow>
     string \<Rightarrow> string \<Rightarrow> (chunk list \<times> 'l option dict) result" where
  "chunk_file read_bytes load parse cache filepath repo_root =
     res_bind (relative_to filepath repo_root) (\<lambda>below.
       let rel = str_replace_char (CHR 0x5C) ''/'' below; ext = str_lower (path_suffix filepath) in
       case read_bytes filepath of
         Inl e \<Rightarrow> if exc_isinstance e OSError then Inr ([], cache) else Inl e
       | Inr bytes \<Rightarrow>
           let source = universal_newlines (decode_replace bytes) in
           if str_strip source = [] then Inr ([], cache)
           else
             let lang_name = dict_get EXTENSION_MAP ext;
                 (chunks, cache') =
                   (case Option.bind lang_name get_language_config of
                      Some config \<Rightarrow> chunk_with_treesitter load parse cache source rel config
                    | None \<Rightarrow> (None, cache))
             in case chunks of
                  Some cs \<Rightarrow> Inr (cs, cache')
                | None \<Rightarrow>
                    Inr (chunk_with_regex source rel (opt_default ''unknown'' lang_name)
                      (opt_default GENERIC_CHUNK_PATTERNS (dict_get REGEX_PATTERNS (opt_default [] lang_name))), cache'))"

section \<open>The fallback cuts the file along its definitions\<close>

lemma trim_end_bounds: "start_idx \<le> e \<Longrightarrow> start_idx \<le> trim_end lines start_idx e \<and> trim_end lines start_idx e \<le> e"
proof (induction lines start_idx e rule: trim_end.induct)
  case (1 lines start_idx end_idx)
  show ?case
  proof (cases "end_idx > start_idx \<and> str_strip (lines ! end_idx) = []")
    case True
    then have "trim_end lines start_idx end_idx = trim_end lines start_idx (end_idx - 1)" "start_idx \<le> end_idx - 1"
      by (auto simp: trim_end.simps [of lines start_idx end_idx])
    with 1 True show ?thesis by fastforce
  next
    case False
    with 1(2) show ?thesis by (simp add: trim_end.simps [of lines start_idx end_idx] del: de_Morgan_conj)
  qed
qed

lemma trim_end_blank:
  "trim_end lines start_idx e < k \<Longrightarrow> k \<le> e \<Longrightarrow> str_strip (lines ! k) = []"
proof (induction lines start_idx e rule: trim_end.induct)
  case (1 lines start_idx end_idx)
  then show ?case
    by (cases "k = end_idx") (auto simp: trim_end.simps [of lines start_idx end_idx] split: if_splits)
qed

lemma def_starts_iff:
  "(k, d) \<in> set (def_starts patterns i lines) \<longleftrightarrow>
     i \<le> k \<and> k < i + length lines \<and> line_definition patterns (lines ! (k - i)) = Some d"
proof (induction lines arbitrary: i)
  case (Cons l ls)
  show ?case
  proof (cases "k = i")
    case True
    then have "(k, d) \<notin> set (def_starts patterns (Suc i) ls)" using Cons.IH[of "Suc i"] by simp
    with True show ?thesis by (cases d) (auto split: option.split)
  next
    case False
    then have "i \<le> k \<longleftrightarrow> Suc i \<le> k" and "i < k \<Longrightarrow> (l # ls) ! (k - i) = ls ! (k - Suc i)"
      by (auto simp: nth_Cons' )
    with False show ?thesis by (auto simp: Cons split: option.split)
  qed
qed simp

lemma def_starts_sorted: "sorted_wrt (\<lambda>a b. fst a < fst b) (def_starts patterns i lines)"
  by (induction lines arbitrary: i) (auto simp: def_starts_iff sorted_wrt_append Suc_le_eq split: option.split)

text \<open>The lines of a chunk, and what a chunk by pattern is.\<close>

definition in_chunk :: "nat \<Rightarrow> chunk \<Rightarrow> bool" where
  "in_chunk k c \<longleftrightarrow> ck_start_line c \<le> int k + 1 \<and> int k + 1 \<le> ck_end_line c"

definition pattern_chunk :: "chunk_pattern list \<Rightarrow> string list \<Rightarrow> chunk \<Rightarrow> bool" where
  "pattern_chunk patterns lines c \<longleftrightarrow>
     (\<exists>a b. a \<le> b \<and> b < length lines \<and> ck_start_line c = int a + 1 \<and> ck_end_line c = int b + 1 \<and>
        line_definition patterns (lines ! a) = Some (ck_kind c, ck_name c) \<and>
        ck_content c = str_join nl (map ((!) lines) [a..<b + 1]))"

lemma slice_nth: "b \<le> length xs \<Longrightarrow> take (b - a) (drop a xs) = map ((!) xs) [a..<b]"
  by (rule nth_equalityI) auto

lemma regex_chunks_tile:
  assumes "sorted_wrt (\<lambda>a b. fst a < fst b) starts"
    and "\<forall>(k, d) \<in> set starts. k < length lines \<and> line_definition patterns (lines ! k) = Some d"
  shows "list_all (pattern_chunk patterns lines) (regex_chunks rel language lines starts)"
    and "sorted_wrt (\<lambda>a b. ck_end_line a < ck_start_line b) (regex_chunks rel language lines starts)"
    and "map ck_start_line (regex_chunks rel language lines starts) = map (\<lambda>s. int (fst s) + 1) starts"
    and "k < length lines \<Longrightarrow> str_strip (lines ! k) \<noteq> [] \<Longrightarrow> starts \<noteq> [] \<Longrightarrow> fst (hd starts) \<le> k \<Longrightarrow>
         \<exists>c \<in> set (regex_chunks rel language lines starts). in_chunk k c"
proof -
  have "list_all (pattern_chunk patterns lines) (regex_chunks rel language lines starts) \<and>
    sorted_wrt (\<lambda>a b. ck_end_line a < ck_start_line b) (regex_chunks rel language lines starts) \<and>
    map ck_start_line (regex_chunks rel language lines starts) = map (\<lambda>s. int (fst s) + 1) starts \<and>
    (\<forall>k < length lines. str_strip (lines ! k) \<noteq> [] \<longrightarrow> starts \<noteq> [] \<longrightarrow> fst (hd starts) \<le> k \<longrightarrow>
       (\<exists>c \<in> set (regex_chunks rel language lines starts). in_chunk k c))"
    using assms
  proof (induction starts)
    case (Cons s starts)
    obtain a kind name where s: "s = (a, kind, name)" by (cases s)
    define e where "e = (case starts of s # _ \<Rightarrow> fst s - 1 | [] \<Rightarrow> length lines - 1)"
    define b where "b = trim_end lines a e"
    have a: "a < length lines" "line_definition patterns (lines ! a) = Some (kind, name)"
      using Cons.prems(2) by (auto simp: s)
    have e: "a \<le> e" "e < length lines"
      using Cons.prems a by (auto simp: e_def s split: list.split)
    have b: "a \<le> b" "b \<le> e" using trim_end_bounds[OF e(1), of lines] by (auto simp: b_def)
    have IH: "list_all (pattern_chunk patterns lines) (regex_chunks rel language lines starts)"
      "sorted_wrt (\<lambda>a b. ck_end_line a < ck_start_line b) (regex_chunks rel language lines starts)"
      "map ck_start_line (regex_chunks rel language lines starts) = map (\<lambda>s. int (fst s) + 1) starts"
      "\<And>k. k < length lines \<Longrightarrow> str_strip (lines ! k) \<noteq> [] \<Longrightarrow> starts \<noteq> [] \<Longrightarrow> fst (hd starts) \<le> k \<Longrightarrow>
         \<exists>c \<in> set (regex_chunks rel language lines starts). in_chunk k c"
      using Cons by auto
    have later: "1 + int b < ck_start_line c" if "c \<in> set (regex_chunks rel language lines starts)" for c
    proof -
      have "ck_start_line c \<in> set (map ck_start_line (regex_chunks rel language lines starts))" using that by simp
      then obtain s' where s': "s' \<in> set starts" "ck_start_line c = int (fst s') + 1" unfolding IH(3) by auto
      then obtain s0 ss where ss: "starts = s0 # ss" by (cases starts) auto
      have "fst s0 \<le> fst s'" "a < fst s0" using Cons.prems(1) s' by (auto simp: ss s)
      with s' b show ?thesis by (simp add: e_def ss)
    qed
    have head: "in_chunk k c" if "a \<le> k" "k \<le> e" "str_strip (lines ! k) \<noteq> []" "ck_start_line c = int a + 1" "ck_end_line c = int b + 1" for k c
    proof -
      have "k \<le> b" using trim_end_blank[of lines a e k] that(2,3) unfolding b_def by (rule_tac ccontr) simp
      with that show ?thesis by (simp add: in_chunk_def)
    qed
    have cover: "\<exists>c \<in> set (regex_chunks rel language lines (s # starts)). in_chunk k c"
      if k: "k < length lines" "str_strip (lines ! k) \<noteq> []" "a \<le> k" for k
    proof (cases "k \<le> e")
      case True
      then show ?thesis using head[OF k(3) True k(2)] by (simp add: s Let_def flip: e_def b_def)
    next
      case False
      then have "starts \<noteq> []" "fst (hd starts) \<le> k" using k(1) by (auto simp: e_def split: list.splits)
      then show ?thesis using IH(4)[OF k(1,2)] by (auto simp: s Let_def)
    qed
    have first: "pattern_chunk patterns lines (hd (regex_chunks rel language lines (s # starts)))"
      unfolding pattern_chunk_def using a b e
      by (intro exI[of _ a] exI[of _ b]) (auto simp: s Let_def slice_nth simp flip: e_def b_def)
    show ?case
      using IH(1-3) later first cover by (auto simp: s Let_def simp flip: e_def b_def)
  qed simp
  then show "list_all (pattern_chunk patterns lines) (regex_chunks rel language lines starts)"
    "sorted_wrt (\<lambda>a b. ck_end_line a < ck_start_line b) (regex_chunks rel language lines starts)"
    "map ck_start_line (regex_chunks rel language lines starts) = map (\<lambda>s. int (fst s) + 1) starts"
    "k < length lines \<Longrightarrow> str_strip (lines ! k) \<noteq> [] \<Longrightarrow> starts \<noteq> [] \<Longrightarrow> fst (hd starts) \<le> k \<Longrightarrow>
         \<exists>c \<in> set (regex_chunks rel language lines starts). in_chunk k c"
    by blast+
qed

lemma def_starts_valid:
  "\<forall>(k, d) \<in> set (def_starts patterns 0 lines). k < length lines \<and> line_definition patterns (lines ! k) = Some d"
  using def_starts_iff[of _ _ patterns 0 lines] by auto

lemma first_definition:
  assumes "j \<le> k" "k < length lines" "line_definition patterns (lines ! j) \<noteq> None"
  shows "def_starts patterns 0 lines \<noteq> []" "fst (hd (def_starts patterns 0 lines)) \<le> k"
proof -
  obtain d where "(j, d) \<in> set (def_starts patterns 0 lines)"
    using assms by (auto simp: def_starts_iff)
  then obtain s ss where "def_starts patterns 0 lines = s # ss" "fst s \<le> j"
    using def_starts_sorted[of patterns 0 lines] by (cases "def_starts patterns 0 lines") auto
  with assms(1) show "def_starts patterns 0 lines \<noteq> []" "fst (hd (def_starts patterns 0 lines)) \<le> k" by auto
qed

lemma disjoint_chunks_unique:
  assumes "sorted_wrt (\<lambda>a b. ck_end_line a < ck_start_line b) cs" "c \<in> set cs" "c' \<in> set cs" "in_chunk k c" "in_chunk k c'"
  shows "c = c'"
  using assms by (induction cs) (auto simp: in_chunk_def)

text \<open>C38: a file without a usable grammar is cut along the lines that look like definitions: the chunks
  follow each other without overlap, each begins at a definition, carries its kind and name and is the text of its
  lines, every definition begins one, and every line with text from the first definition on lies in exactly one of them. A file
  without a definition is one chunk.\<close>

theorem fallback_chunks_tile:
  assumes "str_splitlines source = lines" "lines \<noteq> []" "chunk_with_regex source rel language patterns = chunks"
  shows "if \<exists>j < length lines. line_definition patterns (lines ! j) \<noteq> None
     then list_all (pattern_chunk patterns lines) chunks \<and>
       sorted_wrt (\<lambda>a b. ck_end_line a < ck_start_line b) chunks \<and>
       (\<forall>j < length lines. line_definition patterns (lines ! j) \<noteq> None \<longrightarrow>
          (\<exists>c \<in> set chunks. ck_start_line c = int j + 1) \<and>
          (\<forall>k < length lines. j \<le> k \<and> str_strip (lines ! k) \<noteq> [] \<longrightarrow> (\<exists>!c. c \<in> set chunks \<and> in_chunk k c)))
     else (\<exists>c. chunks = [c] \<and> ck_content c = source \<and> (\<forall>k < length lines. in_chunk k c))"
proof (cases "def_starts patterns 0 lines = []")
  case True
  then have none: "\<not> (\<exists>j < length lines. line_definition patterns (lines ! j) \<noteq> None)"
    using def_starts_iff[of _ _ patterns 0 lines] by auto
  with True assms show ?thesis by (auto simp: chunk_with_regex_def in_chunk_def)
next
  case False
  then have some: "\<exists>j < length lines. line_definition patterns (lines ! j) \<noteq> None"
    using def_starts_valid[of patterns lines] by (cases "def_starts patterns 0 lines") auto
  let ?starts = "def_starts patterns 0 lines"
  have chunks: "chunks = regex_chunks rel language lines ?starts"
    using assms False by (auto simp: chunk_with_regex_def Let_def)
  note tile = regex_chunks_tile[where rel = rel and language = language, OF def_starts_sorted def_starts_valid[where patterns = patterns and lines = lines]]
  have "\<exists>!c. c \<in> set chunks \<and> in_chunk k c"
    if "line_definition patterns (lines ! j) \<noteq> None" "j \<le> k" "k < length lines" "str_strip (lines ! k) \<noteq> []" for j k
    using tile(4)[OF that(3,4) first_definition[OF that(2,3,1)]] disjoint_chunks_unique[OF tile(2)] unfolding chunks by blast
  moreover have "\<exists>c \<in> set chunks. ck_start_line c = int j + 1"
    if j: "j < length lines" "line_definition patterns (lines ! j) \<noteq> None" for j
  proof -
    obtain d where "(j, d) \<in> set ?starts" using j by (auto simp: def_starts_iff)
    then have "int j + 1 \<in> set (map ck_start_line chunks)" unfolding chunks tile(3) by force
    then show ?thesis by auto
  qed
  ultimately show ?thesis using some tile(1,2) by (simp add: chunks)
qed

definition sample_source :: string where
  "sample_source = ''import os'' @ nl @ ''class A:'' @ nl @ ''  def f(self):'' @ nl @ ''    pass'' @ nl @ nl"

lemma sample_source_lines: "str_splitlines sample_source = [''import os'', ''class A:'', ''  def f(self):'', ''    pass'', []]"
  by code_simp

lemma sample_source_class: "line_definition PYTHON_CHUNK_PATTERNS ''class A:'' = Some (''class'', ''A'')"
  by code_simp

theorem fallback_chunks_tile_witness:
  "\<exists>!c. c \<in> set (chunk_with_regex sample_source ''a.py'' ''python'' PYTHON_CHUNK_PATTERNS) \<and> in_chunk 3 c"
proof -
  let ?lines = "[''import os'', ''class A:'', ''  def f(self):'', ''    pass'', []]"
  have d: "line_definition PYTHON_CHUNK_PATTERNS (?lines ! 1) \<noteq> None" "1 < length ?lines" "3 < length ?lines"
    by (simp_all add: sample_source_class)
  have k: "(1 :: nat) \<le> 3 \<and> str_strip (?lines ! 3) \<noteq> []" by code_simp
  have some: "\<exists>j < length ?lines. line_definition PYTHON_CHUNK_PATTERNS (?lines ! j) \<noteq> None"
    using d by blast
  note tile = fallback_chunks_tile[OF sample_source_lines list.distinct(2) refl,
      where rel = "''a.py''" and language = "''python''" and patterns = PYTHON_CHUNK_PATTERNS, unfolded if_P[OF some]]
  from tile[THEN conjunct2, THEN conjunct2, THEN spec[of _ 1]] show ?thesis
    using d k by blast
qed

section \<open>Large definitions\<close>

fun adjacent :: "(nat \<times> nat) list \<Rightarrow> bool" where
  "adjacent (p # q # ps) \<longleftrightarrow> fst p \<le> snd p \<and> snd p + 1 = fst q \<and> adjacent (q # ps)"
| "adjacent [p] \<longleftrightarrow> fst p \<le> snd p"
| "adjacent [] \<longleftrightarrow> True"

lemma adjacent_Cons:
  "adjacent (p # ps) \<longleftrightarrow> fst p \<le> snd p \<and> (ps \<noteq> [] \<longrightarrow> snd p + 1 = fst (hd ps)) \<and> adjacent ps"
  by (cases ps) auto

lemma adjacent_after: "adjacent ps \<Longrightarrow> q \<in> set ps \<Longrightarrow> fst (hd ps) \<le> fst q \<and> fst q \<le> snd q"
proof (induction ps)
  case (Cons p ps)
  then show ?case by (cases "q \<in> set ps") (force simp: adjacent_Cons)+
qed simp

lemma adjacent_unique:
  assumes "adjacent ps" "ps \<noteq> []" "fst (hd ps) \<le> x" "x \<le> snd (last ps)"
  shows "\<exists>i < length ps. fst (ps ! i) \<le> x \<and> x \<le> snd (ps ! i) \<and>
    (\<forall>j < length ps. fst (ps ! j) \<le> x \<and> x \<le> snd (ps ! j) \<longrightarrow> j = i)"
  using assms
proof (induction ps)
  case (Cons p ps)
  show ?case
  proof (cases "x \<le> snd p")
    case True
    have "\<not> fst (ps ! j) \<le> x" if "j < length ps" for j
      using adjacent_after[of ps "ps ! j"] Cons.prems(1) that True by (auto simp: adjacent_Cons)
    then have "j = 0" if "j < length (p # ps)" "fst ((p # ps) ! j) \<le> x" for j
      using that by (cases j) auto
    with True Cons.prems(3) show ?thesis by (intro exI[of _ 0]) simp
  next
    case False
    then have ne: "ps \<noteq> []" using Cons.prems by auto
    then have "fst (hd ps) \<le> x" using False Cons.prems(1) by (simp add: adjacent_Cons)
    then have "\<exists>i < length ps. fst (ps ! i) \<le> x \<and> x \<le> snd (ps ! i) \<and>
        (\<forall>j < length ps. fst (ps ! j) \<le> x \<and> x \<le> snd (ps ! j) \<longrightarrow> j = i)"
      using Cons.IH ne Cons.prems(1,4) by (simp add: adjacent_Cons)
    then obtain i where i: "i < length ps" "fst (ps ! i) \<le> x" "x \<le> snd (ps ! i)"
      "\<And>j. j < length ps \<Longrightarrow> fst (ps ! j) \<le> x \<Longrightarrow> x \<le> snd (ps ! j) \<Longrightarrow> j = i" by blast
    have "j = Suc i" if "j < length (p # ps)" "x \<le> snd ((p # ps) ! j)" "fst ((p # ps) ! j) \<le> x" for j
      using that False i(4) by (cases j) auto
    with i(1-3) show ?thesis by (intro exI[of _ "Suc i"]) simp
  qed
qed simp

lemma part_starts_head: "part_starts b ss \<noteq> [] \<and> hd (part_starts b ss) = b"
  by (induction ss arbitrary: b) auto

lemma part_ranges_adjacent:
  assumes "b \<le> e" "\<forall>s \<in> set ss. s \<le> e"
  shows "adjacent (part_ranges (part_starts b ss @ [e + 1])) \<and> part_ranges (part_starts b ss @ [e + 1]) \<noteq> [] \<and>
    fst (hd (part_ranges (part_starts b ss @ [e + 1]))) = b \<and> snd (last (part_ranges (part_starts b ss @ [e + 1]))) = e"
  using assms
proof (induction ss arbitrary: b)
  case (Cons s ss)
  then show ?case
  proof (cases "s > b")
    case True
    obtain r rs where r: "part_starts s ss = r # rs" "r = s"
      using part_starts_head[of s ss] by (cases "part_starts s ss") auto
    have "s \<le> e" "\<forall>s \<in> set ss. s \<le> e" using Cons.prems by auto
    note IH = Cons.IH[OF this, unfolded r(1) append_Cons]
    then show ?thesis using True r(2) by (simp add: r(1) adjacent_Cons)
  qed auto
qed simp

text \<open>An oversized function that is split loses no line and repeats none: its parts follow each other
  from the first line of the body to the final line of the function, every one of these lines is in exactly one
  part, and each part is preceded by the function's signature.\<close>

theorem oversized_parts_tile:
  assumes "2 \<le> length (block_lines node)" "body_start node (first_line node wrapper) \<le> final_line node"
    "\<forall>s \<in> set (block_lines node). s \<le> final_line node"
    "split_oversized_function node source rel language wrapper = chunks"
  shows "(\<forall>c \<in> set chunks. \<exists>a b. ck_start_line c = int a \<and> ck_end_line c = int b \<and>
      ck_content c = lines_between source (first_line node wrapper) (body_start node (first_line node wrapper) - 1) @ nl
        @ lines_between source a b) \<and>
    (\<forall>k. body_start node (first_line node wrapper) \<le> k \<and> k \<le> final_line node \<longrightarrow>
      (\<exists>i < length chunks. ck_start_line (chunks ! i) \<le> int k \<and> int k \<le> ck_end_line (chunks ! i) \<and>
        (\<forall>j < length chunks. ck_start_line (chunks ! j) \<le> int k \<and> int k \<le> ck_end_line (chunks ! j) \<longrightarrow> j = i)))"
proof (rule conjI)
  let ?body = "body_start node (first_line node wrapper)"
  define ranges where "ranges = part_ranges (part_starts ?body (block_lines node) @ [final_line node + 1])"
  have adj: "adjacent ranges" "ranges \<noteq> []" "fst (hd ranges) = ?body" "snd (last ranges) = final_line node"
    using part_ranges_adjacent[OF assms(2,3)] by (auto simp: ranges_def)
  have all: "filter (\<lambda>(i, part_start, part_end). part_start \<le> part_end) (zip [0..<length ranges] ranges) = zip [0..<length ranges] ranges"
    using adjacent_after[OF adj(1)] by (auto simp: filter_id_conv dest!: set_zip_rightD)
  have chunks: "chunks = map (function_part source rel language (extract_name node source)
      (lines_between source (first_line node wrapper) (?body - 1) @ nl)) (zip [0..<length ranges] ranges)"
    using assms(1,4) adj(2) unfolding split_oversized_function_def Let_def ranges_def[symmetric] all by auto
  show "\<forall>c \<in> set chunks. \<exists>a b. ck_start_line c = int a \<and> ck_end_line c = int b \<and>
      ck_content c = lines_between source (first_line node wrapper) (?body - 1) @ nl @ lines_between source a b"
    by (auto simp: chunks function_part_def)
  have nth: "ck_start_line (chunks ! i) = int (fst (ranges ! i)) \<and> ck_end_line (chunks ! i) = int (snd (ranges ! i))"
    if "i < length ranges" for i
    using that by (simp add: chunks function_part_def split: prod.split)
  have len: "length chunks = length ranges" by (simp add: chunks)
  show "\<forall>k. ?body \<le> k \<and> k \<le> final_line node \<longrightarrow>
      (\<exists>i < length chunks. ck_start_line (chunks ! i) \<le> int k \<and> int k \<le> ck_end_line (chunks ! i) \<and>
        (\<forall>j < length chunks. ck_start_line (chunks ! j) \<le> int k \<and> int k \<le> ck_end_line (chunks ! j) \<longrightarrow> j = i))"
  proof (intro allI impI)
    fix k assume "?body \<le> k \<and> k \<le> final_line node"
    then have "\<exists>i < length ranges. fst (ranges ! i) \<le> k \<and> k \<le> snd (ranges ! i) \<and>
        (\<forall>j < length ranges. fst (ranges ! j) \<le> k \<and> k \<le> snd (ranges ! j) \<longrightarrow> j = i)"
      using adjacent_unique[OF adj(1,2), of k] by (simp add: adj(3,4))
    then obtain i where i: "i < length ranges" "fst (ranges ! i) \<le> k" "k \<le> snd (ranges ! i)"
      "\<And>j. j < length ranges \<Longrightarrow> fst (ranges ! j) \<le> k \<Longrightarrow> k \<le> snd (ranges ! j) \<Longrightarrow> j = i" by blast
    have only: "j = i" if "j < length chunks" "ck_start_line (chunks ! j) \<le> int k" "int k \<le> ck_end_line (chunks ! j)" for j
      using that i(4) nth[of j] by (simp add: len)
    have "i < length chunks" "ck_start_line (chunks ! i) \<le> int k" "int k \<le> ck_end_line (chunks ! i)"
      using i(1-3) nth[OF i(1)] unfolding len by linarith+
    then show "\<exists>i < length chunks. ck_start_line (chunks ! i) \<le> int k \<and> int k \<le> ck_end_line (chunks ! i) \<and>
        (\<forall>j < length chunks. ck_start_line (chunks ! j) \<le> int k \<and> int k \<le> ck_end_line (chunks ! j) \<longrightarrow> j = i)"
      using only by blast
  qed
qed

definition sample_function :: ts_node where
  "sample_function = Ts_Node ''function_definition'' 0 9000 0 300
     [Ts_Node ''identifier'' 4 8 0 0 [], Ts_Node ''if_statement'' 100 2000 9 90 [], Ts_Node ''for_statement'' 2001 8000 91 280 []]"

lemma sample_function_lines:
  "block_lines sample_function = [10, 92]" "first_line sample_function None = 1" "final_line sample_function = 301"
  "body_start sample_function (Suc 0) = 1"
  by code_simp+

theorem oversized_parts_tile_witness:
  "\<exists>i < length (split_oversized_function sample_function sample_source ''a.py'' ''python'' None).
     ck_start_line (split_oversized_function sample_function sample_source ''a.py'' ''python'' None ! i) \<le> 50"
  using oversized_parts_tile[OF _ _ _ refl, of sample_function None sample_source "''a.py''" "''python''", THEN conjunct2, THEN spec[of _ 50]]
  by (auto simp: sample_function_lines)

text \<open>A function whose blocks are not direct children of its node, as where the grammar puts them into a body
  node, is never split; a large class whose methods are not direct children loses its second half.\<close>

lemma nested_blocks_never_split:
  assumes "\<forall>child \<in> set (nd_children node). nd_type child \<notin> set SPLIT_BLOCK_TYPES"
  shows "make_function_chunks node source rel language wrapper = [make_chunk node source rel language wrapper]"
  using assms by (simp add: make_function_chunks_def split_oversized_function_def block_lines_def Let_def cong: filter_cong)

lemma large_class_tail_dropped:
  assumes "\<forall>child \<in> set (nd_children node). nd_type child \<notin> set (lc_method_types config)"
    "final_line node \<ge> first_line node wrapper + DEFAULT_MAX_LINES"
    "c \<in> set (make_class_chunks node source rel config wrapper)"
  shows "ck_end_line c \<le> int ((start_row node + end_row node) div 2 + 1)"
proof -
  have "find (\<lambda>child. nd_type child \<in> set (lc_method_types config)) (nd_children node) = None"
    "filter (\<lambda>child. nd_type child \<in> set (lc_method_types config)) (nd_children node) = []"
    using assms(1) by (auto simp: find_None_iff filter_empty_conv)
  then show ?thesis
    using assms(2,3) by (auto simp: make_class_chunks_def find_header_end_def Let_def split: if_splits)
qed

end
