(* ===== verification/Spec2Isabelle.thy ===== *)
theory Spec2Isabelle
  imports Job_Queue Rate_Limiter Worktree_Lock Session_Store Webhook Message_Queue Symbol_Index
    Agent_Worker Worktree_Cleanup Job_Outcome Sync_Worker Repo_Setup Session_Proxy
    Memory_Server Actions_Server Thread_History Indexing_Worker Transcript_Parser File_Tree
    Worker_Jobs Ts_Languages Chunker
begin

text \<open>
  A verification development of the GitHub agent service. GitHub's webhooks become jobs on Redis
  queues; workers run an agent for each job in a git worktree of its own, stream what the agent does
  to the browsers, keep its conversation for the next request, and schedule the work that follows.

  \<^bold>\<open>How the parts work together.\<close>
  A webhook (\<^verbatim>\<open>services/webhook\<close>) is authenticated, its fields are extracted, the workflow
  engine (\<^verbatim>\<open>workflows/engine.py\<close>) picks a workflow, and a message is published on the agent
  queue, with a synchronisation request for the repository and, for a closed thread, a cleanup
  request. The agent worker (\<^verbatim>\<open>services/agent_worker\<close>) turns the message into a sandbox job:
  it builds the prompt, looks up the thread's saved session, creates the streaming session and stores
  the job with \<open>create_job\<close>. The sandbox worker (\<^verbatim>\<open>services/sandbox_executor\<close>) takes the
  job, waits for the repository, locks and prepares the worktree, runs the agent with the options
  that \<^verbatim>\<open>shared/sdk_factory.py\<close> builds, and records the outcome. The session proxy
  (\<^verbatim>\<open>services/session_proxy\<close>) connects browsers to running and ended sessions; the sync worker
  (\<^verbatim>\<open>services/repo_sync\<close>) clones and fetches, and the indexing worker indexes what was
  synchronised. When a session stops, its hooks buffer jobs for the memory worker, the retrospector and
  the indexing worker. During a run the agent calls the tool servers of
  \<^verbatim>\<open>mcp_servers\<close> over standard input and output.

  \<^bold>\<open>The theories\<close>, each with the files it models; a definition has the name of the function or
  method it translates, with a prefix where the plain name is taken.

  \<^item> \<open>Prelude\<close>, \<open>Json_Value\<close>, \<open>Json_Text\<close>: Python's exceptions, computations over a
    world that may raise (\<open>io\<close>, with the run rules \<open>io_simps\<close>), strings and dictionaries
    (\<open>str_simps\<close>), JSON values and text, \<^verbatim>\<open>shared/utils.py\<close>. The locale \<open>json_codec\<close>
    is what the code relies on of \<open>json\<close>; \<open>std_json\<close> interprets it by a printer and a parser.
  \<^item> \<open>Redis_Env\<close>, \<open>Redis_Frame\<close>, \<open>Fifo\<close>, \<open>Keys\<close>: the client library is a record of
    commands over any world, the locale \<open>redis_server\<close> their documented behaviour on a keyspace;
    inside it a program over the client simulates the program over the keyspace. \<open>keeps\<close> gives the
    frame of a program from its text; \<open>fifo\<close> is the contract of a queue, which the job queue and
    the message queue inherit by \<open>sublocale\<close>. \<open>flaky\<close> interprets the server by one whose n-th
    command fails.
  \<^item> \<open>Job_Queue\<close> (\<^verbatim>\<open>shared/job_queue.py\<close>): all methods; the queue as a state machine
    (\<open>jq_step\<close>) with its invariant; jobs are pulled in order, none is lost.
  \<^item> \<open>Message_Queue\<close> (\<^verbatim>\<open>shared/queue.py\<close>), \<open>Retry\<close> (\<^verbatim>\<open>shared/retry.py\<close>,
    \<^verbatim>\<open>shared/dlq.py\<close> and the memory worker's loop), \<open>Rate_Limiter\<close>
    (\<^verbatim>\<open>shared/rate_limiter.py\<close>, the locale \<open>sliding_window\<close> interpreted by both back ends),
    \<open>Worktree_Lock\<close> (\<^verbatim>\<open>shared/worktree_lock.py\<close>, interleaved holders as \<open>lock_step\<close>).
  \<^item> \<open>Payload_Extractor\<close>, \<open>Workflow_Engine\<close>, \<open>Webhook\<close>: from the bytes of a request to
    the published messages; who may start a job, and that validated prompts build.
  \<^item> \<open>Session_Store\<close> (\<^verbatim>\<open>shared/session_store.py\<close>, \<^verbatim>\<open>shared/streaming_session.py\<close>),
    \<open>Session_Stream\<close> (\<^verbatim>\<open>shared/session_stream.py\<close>), \<open>Transcript_Loader\<close>,
    \<open>Session_Proxy\<close> (\<^verbatim>\<open>services/session_proxy\<close>): conversations and their browsers.
  \<^item> \<open>Agent_Worker\<close> (\<^verbatim>\<open>services/agent_worker\<close>, \<^verbatim>\<open>shared/github_auth.py\<close>),
    \<open>Sdk_Options\<close> (\<^verbatim>\<open>shared/sdk_factory.py\<close>, \<^verbatim>\<open>shared/post_processing.py\<close>,
    \<^verbatim>\<open>shared/sdk_executor.py\<close>), \<open>Sandbox_Processor\<close> with \<open>Job_Outcome\<close>
    (\<^verbatim>\<open>services/sandbox_executor/processor.py\<close>), \<open>Worktree_Cleanup\<close>
    (\<^verbatim>\<open>shared/worktree_manager.py\<close>, \<^verbatim>\<open>sandbox_worker.py\<close>), \<open>Repo_Setup\<close>
    (\<^verbatim>\<open>repo_setup/engine.py\<close>), \<open>Sync_Worker\<close>: the life of a job, up to the theorem that
    every job taken up ends with a recorded outcome.
  \<^item> \<open>Code_Graph\<close>, \<open>Symbol_Index\<close> (\<^verbatim>\<open>shared/code_graph.py\<close>): graph search, diff
    parsing and the index of symbols with its caches.
  \<^item> \<open>Redis_Log\<close>, \<open>Sync_Worker\<close> (\<^verbatim>\<open>services/repo_sync\<close>) and \<open>Indexing_Worker\<close>
    (\<^verbatim>\<open>services/indexing_worker\<close>, the walk of \<^verbatim>\<open>shared/chunker.py\<close>): what is published on
    the event channels; synchronised, embedded and indexed repositories, and that every waiting job is
    answered once.
  \<^item> \<open>Ts_Languages\<close> (\<^verbatim>\<open>shared/ts_languages.py\<close>) and \<open>Chunker\<close>
    (\<^verbatim>\<open>shared/chunker.py\<close>): the registry of languages, and how a file is cut into the chunks that
    are embedded; no line of a file cut by pattern is lost or repeated from its first definition on.
  \<^item> \<open>Transcript_Parser\<close> (\<^verbatim>\<open>shared/transcript_parser.py\<close>) and \<open>Worker_Jobs\<close>
    (\<^verbatim>\<open>services/memory_worker\<close>, \<^verbatim>\<open>services/retrospector_worker\<close>): the agents that work on a
    finished session, from the hook that buffers their jobs to what they may write.
  \<^item> \<open>File_Tree\<close> (\<^verbatim>\<open>shared/file_tree.py\<close>, \<^verbatim>\<open>shared/context_builder.py\<close>): the source
    files of a repository and the bounded tree in the system prompt.
  \<^item> \<open>Thread_History\<close> (\<^verbatim>\<open>shared/thread_history.py\<close>), \<open>Mcp_Server\<close>,
    \<open>Memory_Server\<close>, \<open>Actions_Server\<close> (\<^verbatim>\<open>mcp_servers\<close>): what the agent is told of
    the thread, and the tools it may call.

  \<^bold>\<open>Conventions.\<close> Code that is not in the repository (Redis, HTTP, git, the file system, the
  agent's client, SurrealDB, tree-sitter, YAML and pydantic) is an argument of the definitions,
  gathered in one record per component; what a theorem assumes of it is a locale or a named
  predicate (\<open>redis_server\<close>, \<open>healthy\<close>, \<open>resolves\<close>, \<open>serves_log\<close>,
  \<open>serves_comments\<close>, \<open>detached\<close>, \<open>cache_holds\<close>, \<open>os_contract\<close>), and the witness after the theorem instantiates it. Clock readings, random
  identifiers and messages that arrive from other processes are arguments as well. Each \<open>await\<close> is
  one primitive call; a Lua script is the sequence of its commands. Strings are their UTF-8 bytes.

  \<^bold>\<open>Bounds and fuel.\<close> Loops over data are structural or have a measure (\<open>trace_loop\<close> the
  names not yet visited, \<open>list_files\<close> the depth below the longest path). A loop that waits for
  events consumes the list of those that arrive, and ends or is silent with it: the listening loops,
  \<open>mq_turns\<close>, the live phase of a WebSocket, \<open>run_server\<close>, and \<open>acquire\<close> over the clock
  readings of its attempts. The code's own bounds are kept: six connection attempts of the control
  channel, eleven runs of an agent (the first and ten continuations), three attempts to remove a
  worktree, five pages of comments. \<open>parse_segments\<close> has the length of the template as fuel,
  which every step shortens. \<open>list_sessions\<close> and \<open>process_cleanup_requests\<close> loop until Redis
  reports the end of a scan or an empty queue; their fuel is an argument, and the theorems on them
  name a value that is enough.

  \<^bold>\<open>Not modelled.\<close> Process start-up, signals, logging and the HTTP frameworks' routing; the
  functions that only hand text to a third-party library or format its result: the extraction of
  symbols from syntax trees (\<^verbatim>\<open>shared/repomap.py\<close>), routes and imports, the code-base tools around them, the Langfuse hook,
  the configuration files of the agent's client, and the command-line scripts. The components that call
  them take them as parameters.
\<close>

end
